(* ===== verification/Prelude.thy ===== *)
theory Prelude
  imports Main
begin

text \<open>Shared vocabulary of the development: JSON values as the server receives and emits
  them, results that carry an error, character classes behind the regular expressions of the
  source, and tables (lists of rows with a key) with their lookup and update laws.

  A \<^typ>\<open>string\<close> is the UTF-8 byte sequence of a source string, so its length is the
  octet length SQL and \<open>Buffer.byteLength\<close> measure.  A uuid is a natural number; its text
  is written by \<open>uuid_text\<close>.  A timestamp is a number of microseconds.\<close>

named_theorems table_simps \<open>lookup and update of keyed tables\<close>

section \<open>JSON values\<close>

datatype jval =
    JNull
  | JBool bool
  | JInt int
  | JFrac int nat
  | JStr string
  | JArr "jval list"
  | JObj "(string \<times> jval) list"

text \<open>\<open>JInt\<close> is a number with no fractional part, \<open>JFrac n k\<close> any other number (the decimal
  \<open>n\<close> scaled by ten to the minus \<open>k\<close>); the source never computes with the latter, it only
  refuses or forwards it.\<close>

fun jfield :: "string \<Rightarrow> jval \<Rightarrow> jval option" where
  "jfield k (JObj fs) = map_of fs k"
| "jfield k _ = None"

definition has_field :: "string \<Rightarrow> jval \<Rightarrow> bool" where
  "has_field k v = (jfield k v \<noteq> None)"

fun jstring :: "jval \<Rightarrow> string option" where
  "jstring (JStr s) = Some s"
| "jstring _ = None"

fun is_object :: "jval \<Rightarrow> bool" where
  "is_object (JObj _) = True"
| "is_object _ = False"

section \<open>Results\<close>

definition ebind :: "'e + 'a \<Rightarrow> ('a \<Rightarrow> 'e + 'b) \<Rightarrow> 'e + 'b" where
  "ebind r k = (case r of Inl e \<Rightarrow> Inl e | Inr x \<Rightarrow> k x)"

lemma ebind_simps [simp]:
  "ebind (Inl e) k = Inl e"
  "ebind (Inr x) k = k x"
  by (simp_all add: ebind_def)

lemma ebind_Inr_iff: "ebind r k = Inr y \<longleftrightarrow> (\<exists>x. r = Inr x \<and> k x = Inr y)"
  by (cases r) auto

lemma ebind_Inl_iff: "ebind r k = Inl e \<longleftrightarrow> r = Inl e \<or> (\<exists>x. r = Inr x \<and> k x = Inl e)"
  by (cases r) auto

definition guardE :: "bool \<Rightarrow> 'e \<Rightarrow> 'e + 'a \<Rightarrow> 'e + 'a" where
  "guardE refuse e k = (if refuse then Inl e else k)"

lemma guardE_Inr_iff [simp]: "guardE b e k = Inr y \<longleftrightarrow> \<not> b \<and> k = Inr y"
  by (simp add: guardE_def)

lemma guardE_Inl_iff: "guardE b e k = Inl e' \<longleftrightarrow> (b \<and> e = e') \<or> (\<not> b \<and> k = Inl e')"
  by (auto simp: guardE_def)

fun of_option :: "'e \<Rightarrow> 'a option \<Rightarrow> 'e + 'a" where
  "of_option e None = Inl e"
| "of_option e (Some x) = Inr x"

lemma of_option_Inr_iff [simp]: "of_option e m = Inr x \<longleftrightarrow> m = Some x"
  by (cases m) auto

lemma of_option_Inl_iff: "of_option e m = Inl e' \<longleftrightarrow> m = None \<and> e = e'"
  by (cases m) auto

section \<open>Characters and regular expressions\<close>

definition is_lower :: "char \<Rightarrow> bool" where
  "is_lower c = (c \<in> set ''abcdefghijklmnopqrstuvwxyz'')"

definition is_upper :: "char \<Rightarrow> bool" where
  "is_upper c = (c \<in> set ''ABCDEFGHIJKLMNOPQRSTUVWXYZ'')"

definition is_digit :: "char \<Rightarrow> bool" where
  "is_digit c = (c \<in> set ''0123456789'')"

definition is_hex :: "char \<Rightarrow> bool" where
  "is_hex c = (c \<in> set ''0123456789abcdef'')"

definition is_hex_any :: "char \<Rightarrow> bool" where
  "is_hex_any c = (c \<in> set ''0123456789abcdefABCDEF'')"

text \<open>The pattern \<open>/^[0-9a-f]{8}-[0-9a-f]{4}-[0-9a-f]{4}-[0-9a-f]{4}-[0-9a-f]{12}$/i\<close>.\<close>

definition uuid_pattern :: string where
  "uuid_pattern = ''xxxxxxxx-xxxx-xxxx-xxxx-xxxxxxxxxxxx''"

definition is_uuid :: "string \<Rightarrow> bool" where
  "is_uuid s = list_all2 (\<lambda>p c. if p = CHR ''-'' then c = CHR ''-'' else is_hex_any c) uuid_pattern s"

lemma is_uuid_length: "is_uuid s \<Longrightarrow> length s = 36"
  by (auto simp: is_uuid_def uuid_pattern_def dest: list_all2_lengthD)

text \<open>\<open>starts_then P Q s\<close>: a first character in \<open>P\<close>, every later one in \<open>Q\<close>.\<close>

fun starts_then :: "(char \<Rightarrow> bool) \<Rightarrow> (char \<Rightarrow> bool) \<Rightarrow> string \<Rightarrow> bool" where
  "starts_then P Q [] = False"
| "starts_then P Q (c # cs) = (P c \<and> list_all Q cs)"

fun lower_char :: "char \<Rightarrow> char" where
  "lower_char c = (case map_of (zip ''ABCDEFGHIJKLMNOPQRSTUVWXYZ'' ''abcdefghijklmnopqrstuvwxyz'') c of
     None \<Rightarrow> c | Some d \<Rightarrow> d)"

definition to_lower :: "string \<Rightarrow> string" where
  "to_lower s = map lower_char s"

text \<open>\<open>octet_length(convert_to(t,'UTF8'))\<close> and \<open>Buffer.byteLength(t)\<close>.\<close>

definition octets :: "string \<Rightarrow> int" where
  "octets t = int (length t)"

section \<open>Uuids and times\<close>

type_synonym uuid = nat
type_synonym time = int

definition seconds :: "int \<Rightarrow> time" where
  "seconds n = n * 1000000"

lemma seconds_pos: "0 < n \<Longrightarrow> 0 < seconds n"
  by (simp add: seconds_def)

lemma seconds_5 [simp]: "seconds 5 = 5000000" and seconds_30 [simp]: "seconds 30 = 30000000"
  by (simp_all add: seconds_def)

definition hex_digit :: "int \<Rightarrow> char" where
  "hex_digit n = ''0123456789abcdef'' ! nat (n mod 16)"

fun hex_digits :: "nat \<Rightarrow> int \<Rightarrow> string" where
  "hex_digits 0 n = []"
| "hex_digits (Suc k) n = hex_digits k (n div 16) @ [hex_digit n]"

definition uuid_text :: "uuid \<Rightarrow> string" where
  "uuid_text n = (let h = hex_digits 32 (int n) in
     take 8 h @ ''-'' @ take 4 (drop 8 h) @ ''-'' @ take 4 (drop 12 h) @ ''-''
     @ take 4 (drop 16 h) @ ''-'' @ drop 20 h)"

text \<open>Decimal text.\<close>

definition digit_char :: "nat \<Rightarrow> char" where
  "digit_char n = ''0123456789'' ! n"

fun nat_text :: "nat \<Rightarrow> string" where
  "nat_text n = (if n < 10 then [digit_char n] else nat_text (n div 10) @ [digit_char (n mod 10)])"

section \<open>Tables\<close>

definition tget :: "('r \<Rightarrow> 'k) \<Rightarrow> 'k \<Rightarrow> 'r list \<Rightarrow> 'r option" where
  "tget key k rows = find (\<lambda>r. key r = k) rows"

definition tput :: "('r \<Rightarrow> 'k) \<Rightarrow> 'r \<Rightarrow> 'r list \<Rightarrow> 'r list" where
  "tput key r rows = map (\<lambda>x. if key x = key r then r else x) rows"

lemma tget_Some_iff:
  assumes "distinct (map key rows)"
  shows "tget key k rows = Some r \<longleftrightarrow> r \<in> set rows \<and> key r = k"
  using assms by (induction rows) (auto simp: tget_def)

lemma tget_SomeD: "tget key k rows = Some r \<Longrightarrow> r \<in> set rows \<and> key r = k"
  by (auto simp: tget_def find_Some_iff in_set_conv_nth)

lemma tget_None_iff: "tget key k rows = None \<longleftrightarrow> (\<forall>r\<in>set rows. key r \<noteq> k)"
  by (auto simp: tget_def find_None_iff)

lemma map_key_tput [simp, table_simps]: "map key (tput key r rows) = map key rows"
  by (induction rows) (auto simp: tput_def)

lemma length_tput [simp]: "length (tput key r rows) = length rows"
  by (simp add: tput_def)

lemma set_tput:
  "set (tput key r rows) = {x \<in> set rows. key x \<noteq> key r} \<union> (if key r \<in> key ` set rows then {r} else {})"
  by (induction rows) (auto simp: tput_def)

lemma in_set_tput:
  "x \<in> set (tput key r rows) \<longleftrightarrow> (x \<in> set rows \<and> key x \<noteq> key r) \<or> (x = r \<and> key r \<in> key ` set rows)"
  by (auto simp: set_tput)

lemma tget_tput [table_simps]:
  "tget key k (tput key r rows) =
     (if key r = k \<and> tget key k rows \<noteq> None then Some r else tget key k rows)"
  by (induction rows) (auto simp: tget_def tput_def)

lemma tput_tput [table_simps]: "key r' = key r \<Longrightarrow> tput key r' (tput key r rows) = tput key r' rows"
  by (induction rows) (auto simp: tput_def)

end
