(* ===== verification/Pgmq.thy ===== *)
theory Pgmq
  imports Prelude
begin

text \<open>The vendored pgmq schema (infra/init/core/001-pgmq.sql) as far as the server uses it: a
  physical queue is a live table \<open>q_\<close>, an archive table \<open>a_\<close> and the identity sequence of the
  message ids.  \<open>pq_send\<close>, \<open>pq_read\<close>, \<open>pq_set_vt\<close> and \<open>pq_archive\<close> are the SQL functions of the
  same names on one physical queue; \<open>visibility_queue\<close> is what the ledger relies on.
  Transactions of one Workspace are serialised by its audit cursor, so \<open>SKIP LOCKED\<close> never
  skips a row here.\<close>

record pgmq_msg =
  pm_id :: nat
  pm_vt :: time
  pm_read_ct :: nat
  pm_body :: string

record pgmq_table =
  pq_live :: "pgmq_msg list"
  pq_arch :: "pgmq_msg list"
  pq_next :: nat

definition pq_create :: pgmq_table where
  "pq_create = \<lparr>pq_live = [], pq_arch = [], pq_next = 1\<rparr>"

definition pq_send :: "time \<Rightarrow> string \<Rightarrow> pgmq_table \<Rightarrow> nat \<times> pgmq_table" where
  "pq_send now body t =
     (let i = pq_next t
      in (i, t\<lparr>pq_live := pq_live t @ [\<lparr>pm_id = i, pm_vt = now, pm_read_ct = 0, pm_body = body\<rparr>],
                 pq_next := Suc i\<rparr>))"

text \<open>\<open>pgmq.read\<close>: the first \<open>qty\<close> visible messages by id, each hidden for \<open>span\<close>.\<close>

definition pq_touch :: "time \<Rightarrow> pgmq_msg \<Rightarrow> pgmq_msg" where
  "pq_touch vt m = m\<lparr>pm_vt := vt, pm_read_ct := Suc (pm_read_ct m)\<rparr>"

definition pq_read :: "time \<Rightarrow> time \<Rightarrow> nat \<Rightarrow> pgmq_table \<Rightarrow> pgmq_msg list \<times> pgmq_table" where
  "pq_read now span qty t =
     (let ms = take qty (filter (\<lambda>m. pm_vt m \<le> now) (sort_key pm_id (pq_live t)))
      in (map (pq_touch (now + span)) ms,
          t\<lparr>pq_live := map (\<lambda>m. if pm_id m \<in> pm_id ` set ms then pq_touch (now + span) m else m)
                       (pq_live t)\<rparr>))"

definition pq_set_vt :: "nat \<Rightarrow> time \<Rightarrow> pgmq_table \<Rightarrow> bool \<times> pgmq_table" where
  "pq_set_vt i vt t =
     (tget pm_id i (pq_live t) \<noteq> None,
      t\<lparr>pq_live := map (\<lambda>m. if pm_id m = i then m\<lparr>pm_vt := vt\<rparr> else m) (pq_live t)\<rparr>)"

definition pq_archive :: "nat \<Rightarrow> pgmq_table \<Rightarrow> bool \<times> pgmq_table" where
  "pq_archive i t =
     (case tget pm_id i (pq_live t) of
        None \<Rightarrow> (False, t)
      | Some m \<Rightarrow> (True, t\<lparr>pq_live := filter (\<lambda>x. pm_id x \<noteq> i) (pq_live t),
                            pq_arch := pq_arch t @ [m]\<rparr>))"

text \<open>What a caller sees of a physical queue: when a live message becomes visible, and the
  stored body of a message, live or archived.\<close>

definition pq_vt :: "pgmq_table \<Rightarrow> nat \<Rightarrow> time option" where
  "pq_vt t i = map_option pm_vt (tget pm_id i (pq_live t))"

definition pq_body :: "pgmq_table \<Rightarrow> nat \<Rightarrow> string option" where
  "pq_body t i = map_option pm_body (tget pm_id i (pq_live t @ pq_arch t))"

definition pq_issued :: "pgmq_table \<Rightarrow> nat \<Rightarrow> bool" where
  "pq_issued t i = (i < pq_next t)"

definition pq_ok :: "pgmq_table \<Rightarrow> bool" where
  "pq_ok t \<longleftrightarrow> distinct (map pm_id (pq_live t @ pq_arch t))
     \<and> (\<forall>m\<in>set (pq_live t @ pq_arch t). pm_id m < pq_next t)"

section \<open>The interface\<close>

text \<open>A queue with visibility timeouts.  \<open>ok\<close> is the provider's invariant, \<open>vis\<close> the time a live
  message becomes visible, \<open>body\<close> its stored payload and \<open>issued\<close> the ids handed out so far.\<close>

locale visibility_queue =
  fixes ok :: "'t \<Rightarrow> bool"
    and vis :: "'t \<Rightarrow> nat \<Rightarrow> time option"
    and body :: "'t \<Rightarrow> nat \<Rightarrow> string option"
    and issued :: "'t \<Rightarrow> nat \<Rightarrow> bool"
    and send :: "time \<Rightarrow> string \<Rightarrow> 't \<Rightarrow> nat \<times> 't"
    and receive :: "time \<Rightarrow> time \<Rightarrow> 't \<Rightarrow> nat option \<times> 't"
    and delay :: "nat \<Rightarrow> time \<Rightarrow> 't \<Rightarrow> bool \<times> 't"
    and archive :: "nat \<Rightarrow> 't \<Rightarrow> bool \<times> 't"
  assumes vis_issued: "ok t \<Longrightarrow> vis t i \<noteq> None \<Longrightarrow> issued t i"
    and vis_body: "ok t \<Longrightarrow> vis t i \<noteq> None \<Longrightarrow> body t i \<noteq> None"
    and send_law: "ok t \<Longrightarrow> send now b t = (i, t') \<Longrightarrow>
          ok t' \<and> \<not> issued t i \<and> (\<forall>j. issued t' j = (issued t j \<or> j = i))
          \<and> vis t' = (vis t)(i \<mapsto> now) \<and> body t' = (body t)(i \<mapsto> b)"
    and receive_None: "ok t \<Longrightarrow> receive now span t = (None, t') \<Longrightarrow>
          t' = t \<and> (\<forall>i v. vis t i = Some v \<longrightarrow> now < v)"
    and receive_Some: "ok t \<Longrightarrow> receive now span t = (Some i, t') \<Longrightarrow>
          ok t' \<and> (\<exists>v. vis t i = Some v \<and> v \<le> now)
          \<and> (\<forall>j v. vis t j = Some v \<longrightarrow> v \<le> now \<longrightarrow> i \<le> j)
          \<and> vis t' = (vis t)(i \<mapsto> now + span) \<and> body t' = body t \<and> issued t' = issued t"
    and delay_law: "ok t \<Longrightarrow> delay i v t = (found, t') \<Longrightarrow>
          ok t' \<and> found = (vis t i \<noteq> None)
          \<and> vis t' = (if found then (vis t)(i \<mapsto> v) else vis t)
          \<and> body t' = body t \<and> issued t' = issued t"
    and archive_law: "ok t \<Longrightarrow> archive i t = (found, t') \<Longrightarrow>
          ok t' \<and> found = (vis t i \<noteq> None) \<and> vis t' = (vis t)(i := None)
          \<and> body t' = body t \<and> issued t' = issued t"
begin

text \<open>A message hidden until \<open>v\<close> is not received before \<open>v\<close>.\<close>

lemma hidden_not_received:
  assumes "ok t" "vis t i = Some v" "now < v" "receive now span t = (r, t')"
  shows "r \<noteq> Some i"
  using receive_Some [OF assms(1)] assms(2-4) by fastforce

lemma absent_not_received:
  assumes "ok t" "vis t i = None" "receive now span t = (r, t')"
  shows "r \<noteq> Some i"
  using receive_Some [OF assms(1)] assms(2-3) by fastforce

text \<open>Every operation keeps an archived id out of dispatch: ids are never issued twice.\<close>

inductive qstep :: "'t \<Rightarrow> 't \<Rightarrow> bool" where
  qsend: "send now b t = (i, t') \<Longrightarrow> qstep t t'"
| qreceive: "receive now span t = (r, t') \<Longrightarrow> qstep t t'"
| qdelay: "delay i v t = (f, t') \<Longrightarrow> qstep t t'"
| qarchive: "archive i t = (f, t') \<Longrightarrow> qstep t t'"

lemma qstep_ok: "qstep t t' \<Longrightarrow> ok t \<Longrightarrow> ok t'"
proof (induction rule: qstep.induct)
  case (qreceive now span t r t')
  then show ?case using receive_None receive_Some by (cases r) blast+
qed (use send_law delay_law archive_law in blast)+

lemma qstep_gone:
  assumes "qstep t t'" "ok t" "issued t i" "vis t i = None"
  shows "issued t' i \<and> vis t' i = None"
  using assms
proof (induction rule: qstep.induct)
  case (qreceive now span t r t')
  show ?case
  proof (cases r)
    case None
    then show ?thesis using receive_None qreceive by blast
  next
    case (Some j)
    then show ?thesis using receive_Some [OF qreceive.prems(1)] qreceive by fastforce
  qed
next
  case (qdelay j v t f t')
  then show ?case using delay_law [OF qdelay.prems(1) qdelay.hyps] by (cases "j = i") auto
next
  case (qsend now b t j t')
  then show ?case using send_law [OF qsend.prems(1) qsend.hyps] by auto
next
  case (qarchive j t f t')
  then show ?case using archive_law [OF qarchive.prems(1) qarchive.hyps] by auto
qed

lemma archived_forever:
  assumes "qstep\<^sup>*\<^sup>* t t'" "ok t" "issued t i" "vis t i = None"
  shows "ok t' \<and> issued t' i \<and> vis t' i = None"
  using assms by (induction rule: rtranclp_induct) (auto dest: qstep_ok qstep_gone)

end

section \<open>The model provides the interface\<close>

definition pq_receive :: "time \<Rightarrow> time \<Rightarrow> pgmq_table \<Rightarrow> nat option \<times> pgmq_table" where
  "pq_receive now span t =
     (case pq_read now span 1 t of
        ([], t') \<Rightarrow> (None, t')
      | (m # _, t') \<Rightarrow> (Some (pm_id m), t'))"

lemma pq_ok_create: "pq_ok pq_create"
  by (simp add: pq_ok_def pq_create_def)

lemma pq_vt_Some:
  assumes "pq_ok t"
  shows "pq_vt t i = Some v \<longleftrightarrow> (\<exists>m\<in>set (pq_live t). pm_id m = i \<and> pm_vt m = v)"
  using assms by (auto simp: pq_vt_def pq_ok_def tget_Some_iff)

lemma pq_vt_None: "pq_vt t i = None \<longleftrightarrow> (\<forall>m\<in>set (pq_live t). pm_id m \<noteq> i)"
  by (simp add: pq_vt_def tget_None_iff)

lemma tget_append: "tget key k (xs @ ys) = (case tget key k xs of None \<Rightarrow> tget key k ys | Some r \<Rightarrow> Some r)"
  by (induction xs) (auto simp: tget_def)

lemma tget_Cons: "tget key k (m # ms) = (if key m = k then Some m else tget key k ms)"
  and tget_Nil: "tget key k [] = None"
  by (simp_all add: tget_def)

lemma tget_filter_neq: "tget key k (filter (\<lambda>x. key x \<noteq> i) xs) = (if k = i then None else tget key k xs)"
  by (induction xs) (auto simp: tget_def)

lemma tget_map_same_key:
  assumes "\<And>x. key (f x) = key x"
  shows "tget key k (map f xs) = map_option f (tget key k xs)"
  by (induction xs) (auto simp: tget_def assms)

lemma pq_send_law:
  assumes "pq_ok t" "pq_send now b t = (i, t')"
  shows "pq_ok t' \<and> \<not> pq_issued t i \<and> (\<forall>j. pq_issued t' j = (pq_issued t j \<or> j = i))
         \<and> pq_vt t' = (pq_vt t)(i \<mapsto> now) \<and> pq_body t' = (pq_body t)(i \<mapsto> b)"
proof -
  let ?m = "\<lparr>pm_id = pq_next t, pm_vt = now, pm_read_ct = 0, pm_body = b\<rparr>"
  have i: "i = pq_next t" and t': "t' = t\<lparr>pq_live := pq_live t @ [?m], pq_next := Suc i\<rparr>"
    using assms(2) by (auto simp: pq_send_def Let_def)
  have fresh: "\<forall>m\<in>set (pq_live t @ pq_arch t). pm_id m \<noteq> i"
    using assms(1) i by (force simp: pq_ok_def)
  have old: "tget pm_id i (pq_live t) = None" "tget pm_id i (pq_arch t) = None"
    using fresh by (auto simp: tget_None_iff)
  have "pq_ok t'"
    using assms(1) fresh by (auto simp: t' pq_ok_def i less_Suc_eq)
  moreover have "pq_vt t' = (pq_vt t)(i \<mapsto> now)"
    using old by (auto simp: pq_vt_def t' tget_append i fun_eq_iff tget_Cons tget_Nil split: option.splits)
  moreover have "pq_body t' = (pq_body t)(i \<mapsto> b)"
    using old by (auto simp: pq_body_def t' tget_append i fun_eq_iff tget_Cons tget_Nil split: option.splits)
  moreover have "\<not> pq_issued t i \<and> (\<forall>j. pq_issued t' j = (pq_issued t j \<or> j = i))"
    by (auto simp: pq_issued_def t' i)
  ultimately show ?thesis by blast
qed

lemma pq_update_live:
  assumes "pq_ok t" "\<And>m. pm_id (f m) = pm_id m" "\<And>m. pm_body (f m) = pm_body m"
    and "t' = t\<lparr>pq_live := map f (pq_live t)\<rparr>"
  shows "pq_ok t' \<and> pq_body t' = pq_body t \<and> pq_issued t' = pq_issued t
         \<and> (\<forall>j. pq_vt t' j = map_option (\<lambda>m. pm_vt (f m)) (tget pm_id j (pq_live t)))"
proof -
  have ids: "map pm_id (map f (pq_live t)) = map pm_id (pq_live t)"
    using assms(2) by simp
  have "pq_ok t'"
    using assms(1) ids by (auto simp: pq_ok_def assms(2,4) image_image o_def)
  moreover have "pq_body t' = pq_body t"
    by (simp add: pq_body_def assms tget_append tget_map_same_key fun_eq_iff option.map_comp o_def
        split: option.splits)
  ultimately show ?thesis
    by (simp add: pq_issued_def pq_vt_def assms tget_map_same_key fun_eq_iff option.map_comp o_def)
qed

lemma pq_set_vt_law:
  assumes "pq_ok t" "pq_set_vt i v t = (found, t')"
  shows "pq_ok t' \<and> found = (pq_vt t i \<noteq> None)
         \<and> pq_vt t' = (if found then (pq_vt t)(i \<mapsto> v) else pq_vt t)
         \<and> pq_body t' = pq_body t \<and> pq_issued t' = pq_issued t"
proof -
  let ?f = "\<lambda>m. if pm_id m = i then m\<lparr>pm_vt := v\<rparr> else m"
  have t': "t' = t\<lparr>pq_live := map ?f (pq_live t)\<rparr>" and f: "found = (tget pm_id i (pq_live t) \<noteq> None)"
    using assms(2) by (auto simp: pq_set_vt_def)
  have u: "pq_ok t' \<and> pq_body t' = pq_body t \<and> pq_issued t' = pq_issued t
         \<and> (\<forall>j. pq_vt t' j = map_option (\<lambda>m. pm_vt (?f m)) (tget pm_id j (pq_live t)))"
    by (rule pq_update_live [OF assms(1) _ _ t']) simp_all
  have "pq_vt t' = (if found then (pq_vt t)(i \<mapsto> v) else pq_vt t)"
  proof
    fix j
    show "pq_vt t' j = (if found then (pq_vt t)(i \<mapsto> v) else pq_vt t) j"
      using u f by (cases "tget pm_id j (pq_live t)")
        (auto simp: pq_vt_def dest: tget_SomeD)
  qed
  then show ?thesis using u f by (simp add: pq_vt_def)
qed

lemma pq_archive_law:
  assumes "pq_ok t" "pq_archive i t = (found, t')"
  shows "pq_ok t' \<and> found = (pq_vt t i \<noteq> None) \<and> pq_vt t' = (pq_vt t)(i := None)
         \<and> pq_body t' = pq_body t \<and> pq_issued t' = pq_issued t"
proof (cases "tget pm_id i (pq_live t)")
  case None
  then show ?thesis using assms by (auto simp: pq_archive_def pq_vt_def fun_eq_iff)
next
  case (Some m)
  have m: "m \<in> set (pq_live t)" "pm_id m = i"
    using Some by (auto dest: tget_SomeD)
  have t': "t' = t\<lparr>pq_live := filter (\<lambda>x. pm_id x \<noteq> i) (pq_live t), pq_arch := pq_arch t @ [m]\<rparr>"
    and found using assms(2) Some by (auto simp: pq_archive_def)
  have d: "distinct (map pm_id (pq_live t))" "distinct (map pm_id (pq_arch t))"
    "pm_id ` set (pq_live t) \<inter> pm_id ` set (pq_arch t) = {}"
    using assms(1) by (auto simp: pq_ok_def)
  have i_arch: "i \<notin> pm_id ` set (pq_arch t)" using d(3) m by auto
  have ok': "pq_ok t'"
    using assms(1) d i_arch m
    by (auto simp: pq_ok_def t' distinct_map_filter)
  have arch_i: "tget pm_id i (pq_arch t) = None"
    using i_arch by (auto simp: tget_None_iff)
  have bdy: "pq_body t' j = pq_body t j" for j
    using Some m arch_i by (auto simp: pq_body_def t' tget_append tget_filter_neq tget_Cons tget_Nil split: option.splits)
  show ?thesis
    using ok' bdy \<open>found\<close> Some
    by (auto simp: pq_vt_def t' tget_filter_neq fun_eq_iff pq_issued_def)
qed

lemma pq_receive_None_law:
  assumes "pq_ok t" "pq_receive now span t = (None, t')"
  shows "t' = t \<and> (\<forall>i v. pq_vt t i = Some v \<longrightarrow> now < v)"
proof -
  have e: "filter (\<lambda>m. pm_vt m \<le> now) (sort_key pm_id (pq_live t)) = []"
    using assms(2) by (cases "filter (\<lambda>m. pm_vt m \<le> now) (sort_key pm_id (pq_live t))")
      (auto simp: pq_receive_def pq_read_def Let_def)
  then have "\<forall>m\<in>set (pq_live t). now < pm_vt m"
    by (auto simp: filter_empty_conv)
  then have "\<forall>i v. pq_vt t i = Some v \<longrightarrow> now < v"
    using assms(1) by (auto simp: pq_vt_Some)
  moreover have "t' = t"
    using assms(2) e by (simp add: pq_receive_def pq_read_def)
  ultimately show ?thesis by blast
qed

lemma pq_receive_Some_law:
  assumes "pq_ok t" "pq_receive now span t = (Some i, t')"
  shows "pq_ok t' \<and> (\<exists>v. pq_vt t i = Some v \<and> v \<le> now)
         \<and> (\<forall>j v. pq_vt t j = Some v \<longrightarrow> v \<le> now \<longrightarrow> i \<le> j)
         \<and> pq_vt t' = (pq_vt t)(i \<mapsto> now + span) \<and> pq_body t' = pq_body t \<and> pq_issued t' = pq_issued t"
proof -
  let ?fs = "filter (\<lambda>m. pm_vt m \<le> now) (sort_key pm_id (pq_live t))"
  obtain m ms where fs: "?fs = m # ms"
    using assms(2) by (cases ?fs) (auto simp: pq_receive_def pq_read_def Let_def)
  have sorted: "sorted (map pm_id ?fs)"
    using sorted_filter [of pm_id "sort_key pm_id (pq_live t)"] by simp
  have mem: "m \<in> set (pq_live t)" "pm_vt m \<le> now"
    using list.set_intros(1) [of m ms] unfolding fs [symmetric] by auto
  let ?f = "\<lambda>x. if pm_id x = i then pq_touch (now + span) x else x"
  have i: "i = pm_id m" and t': "t' = t\<lparr>pq_live := map ?f (pq_live t)\<rparr>"
    using assms(2) fs by (auto simp: pq_receive_def pq_read_def pq_touch_def Let_def)
  have u: "pq_ok t' \<and> pq_body t' = pq_body t \<and> pq_issued t' = pq_issued t
         \<and> (\<forall>j. pq_vt t' j = map_option (\<lambda>x. pm_vt (?f x)) (tget pm_id j (pq_live t)))"
    by (rule pq_update_live [OF assms(1) _ _ t']) (simp_all add: pq_touch_def)
  have first: "i \<le> j" if h: "pq_vt t j = Some v" "v \<le> now" for j v
  proof -
    obtain x where x: "x \<in> set (pq_live t)" "pm_id x = j" "pm_vt x = v"
      using h(1) pq_vt_Some [OF assms(1)] by blast
    then have "x \<in> set ?fs" using h(2) by auto
    then show ?thesis using sorted fs x i by auto
  qed
  have here: "\<exists>v. pq_vt t i = Some v \<and> v \<le> now"
    using mem i assms(1) by (auto simp: pq_vt_Some)
  have "pq_vt t' j = ((pq_vt t)(i \<mapsto> now + span)) j" for j
    using u here by (cases "tget pm_id j (pq_live t)") (auto simp: pq_vt_def pq_touch_def dest: tget_SomeD)
  then show ?thesis using u first here by blast
qed

interpretation dq: visibility_queue pq_ok pq_vt pq_body pq_issued pq_send pq_receive pq_set_vt pq_archive
proof unfold_locales
  fix t i
  assume ok: "pq_ok t" and "pq_vt t i \<noteq> None"
  then obtain m where m: "m \<in> set (pq_live t)" "pm_id m = i"
    by (auto simp: pq_vt_None)
  show "pq_issued t i" using ok m by (auto simp: pq_ok_def pq_issued_def)
  show "pq_body t i \<noteq> None" using m by (auto simp: pq_body_def tget_None_iff)
qed (fact pq_send_law pq_receive_None_law pq_receive_Some_law pq_set_vt_law pq_archive_law)+

lemmas pq_laws = dq.send_law dq.receive_Some dq.receive_None dq.delay_law dq.archive_law

end
