(* ===== verification/Tables.thy ===== *)
theory Tables
  imports Pgmq "HOL-Library.AList"
begin

text \<open>The rows the queue functions work on: the tables of schema \<open>queue\<close> (db/migrations/
  000007, 000008, 000014, 000016), the control rows they read, the context bound to the
  transaction, the exceptions they raise, and the audit events they return.\<close>

section \<open>Exceptions\<close>

datatype raised =
    Context_missing | Context_invalid | Context_already_bound | Principal_revoked | Run_forbidden
  | Restore_gated | Invalid_input | Queue_not_found | Queue_unavailable
  | Idempotency_conflict | Payload_too_large | Payload_expired | Payload_read_failed
  | Delivery_not_found | Delivery_conflict | Receipt_stale | Receipt_foreign | Receipt_expired
  | Effect_key_conflict | Recovery_forbidden | Workspace_forbidden | Reconciliation_forbidden
  | Reconciliation_conflict | Principal_not_found | Restore_conflict | Retention_forbidden
  | Unauthorized | No_data_found | Undefined_table | Not_null_violation | Check_violation | Invalid_text
  | Unique_violation string

section \<open>Queue rows\<close>

datatype dstate =
    Scheduled | Ready | Leased | Begun | Held | Ambiguous | Effect_paused
  | Succeeded | Dead_lettered | Cancelled

fun dstate_text :: "dstate \<Rightarrow> string" where
  "dstate_text Scheduled = ''scheduled''"
| "dstate_text Ready = ''ready''"
| "dstate_text Leased = ''leased''"
| "dstate_text Begun = ''begun''"
| "dstate_text Held = ''held''"
| "dstate_text Ambiguous = ''ambiguous''"
| "dstate_text Effect_paused = ''effect-paused''"
| "dstate_text Succeeded = ''succeeded''"
| "dstate_text Dead_lettered = ''dead-lettered''"
| "dstate_text Cancelled = ''cancelled''"

record queue_row =
  qr_ws :: uuid
  qr_name :: string
  qr_phys :: string

record message =
  ms_id :: uuid
  ms_ws :: uuid
  ms_queue :: string
  ms_msg :: nat
  ms_key :: string
  ms_hash :: string
  ms_producer :: "uuid option"
  ms_run :: "uuid option"
  ms_created :: time
  ms_expires :: time

record delivery =
  dl_id :: uuid
  dl_ws :: uuid
  dl_queue :: string
  dl_message :: uuid
  dl_msg :: nat
  dl_chain :: uuid
  dl_parent :: "uuid option"
  dl_attempt :: nat
  dl_max :: nat
  dl_current :: bool
  dl_state :: dstate
  dl_receipt :: "string option"
  dl_consumer :: "uuid option"
  dl_run :: "uuid option"
  dl_lease :: "time option"
  dl_claimed :: "time option"
  dl_completed :: "time option"
  dl_failure :: "string option"
  dl_next :: "time option"
  dl_held_by :: "uuid option"
  dl_held_at :: "time option"
  dl_effect :: "time option"
  dl_created :: time

record effect =
  ef_ws :: uuid
  ef_queue :: string
  ef_message :: uuid
  ef_origin :: uuid
  ef_key :: string
  ef_reset :: bool

datatype outcome = Applied | Not_applied | Unknown

fun outcome_text :: "outcome \<Rightarrow> string" where
  "outcome_text Applied = ''applied''"
| "outcome_text Not_applied = ''not_applied''"
| "outcome_text Unknown = ''unknown''"

fun parse_outcome :: "string \<Rightarrow> outcome option" where
  "parse_outcome s = (if s = ''applied'' then Some Applied
     else if s = ''not_applied'' then Some Not_applied
     else if s = ''unknown'' then Some Unknown else None)"

record reconciliation =
  rc_id :: uuid
  rc_ws :: uuid
  rc_delivery :: uuid
  rc_outcome :: outcome
  rc_evidence :: "string option"
  rc_principal :: "uuid option"
  rc_run :: "uuid option"
  rc_user :: "string option"
  rc_successor :: "uuid option"
  rc_position :: "nat option"
  rc_expires :: time

text \<open>\<open>lg_next\<close> supplies \<open>gen_random_uuid()\<close>: every call returns a value not drawn before.\<close>

record ledger =
  lg_queues :: "queue_row list"
  lg_messages :: "message list"
  lg_deliveries :: "delivery list"
  lg_effects :: "effect list"
  lg_recons :: "reconciliation list"
  lg_pgmq :: "string \<Rightarrow> pgmq_table option"
  lg_next :: uuid

section \<open>Control rows and the bound context\<close>

record principal =
  pr_id :: uuid
  pr_ws :: uuid
  pr_active :: bool
  pr_system :: "string option"

record member =
  mb_id :: string
  mb_org :: string
  mb_user :: string

record delegation =
  dg_ws :: uuid
  dg_principal :: uuid
  dg_granted_by :: string
  dg_member :: string

record restore_row =
  rw_epoch :: uuid
  rw_ws :: uuid
  rw_generation :: uuid
  rw_minimum :: nat
  rw_rotated :: bool
  rw_done :: bool
  rw_released_by :: "string option"

record restore_gate =
  rg_epoch :: "uuid option"
  rg_active :: bool

record control =
  ct_principals :: "principal list"
  ct_runs :: "(uuid \<times> uuid \<times> uuid) list"
  ct_workspaces :: "(uuid \<times> string) list"
  ct_members :: "member list"
  ct_delegations :: "delegation list"
  ct_retention :: "(uuid \<times> int) list"
  ct_gate :: "restore_gate option"
  ct_restore :: "restore_row list"

record bound_context =
  bc_ws :: uuid
  bc_principal :: "uuid option"
  bc_run :: "uuid option"
  bc_user :: "string option"

text \<open>What a statement sees besides the ledger: the clock, the context bound to the
  transaction and the control rows.  A call reads the clock once.\<close>

record env =
  en_now :: time
  en_ctx :: "bound_context option"
  en_ctl :: control

definition is_system :: "control \<Rightarrow> uuid \<Rightarrow> uuid option \<Rightarrow> bool" where
  "is_system ct w p = list_ex (\<lambda>r. pr_ws r = w \<and> Some (pr_id r) = p \<and> pr_system r \<noteq> None) (ct_principals ct)"

text \<open>\<open>SELECT * FROM audit.bound_context ... AND workspace_id=w\<close>; \<open>None\<close> is the row of nulls.\<close>

definition context_row :: "env \<Rightarrow> uuid \<Rightarrow> bound_context option" where
  "context_row E w = (case en_ctx E of None \<Rightarrow> None | Some c \<Rightarrow> if bc_ws c = w then Some c else None)"

definition queue_context :: "env \<Rightarrow> uuid \<Rightarrow> raised + bound_context" where
  "queue_context E w =
     (case context_row E w of
        None \<Rightarrow> Inl Context_missing
      | Some c \<Rightarrow>
          if bc_principal c = None \<or> bc_run c = None \<or> is_system (en_ctl E) (bc_ws c) (bc_principal c)
          then Inl Context_missing else Inr c)"

definition assert_restore_open :: "control \<Rightarrow> raised + unit" where
  "assert_restore_open ct =
     (case ct_gate ct of None \<Rightarrow> Inl Restore_gated
      | Some g \<Rightarrow> if rg_active g then Inl Restore_gated else Inr ())"

definition workspace_org :: "control \<Rightarrow> uuid \<Rightarrow> string option" where
  "workspace_org ct w = map_of (ct_workspaces ct) w"

definition workspace_member :: "control \<Rightarrow> uuid \<Rightarrow> string \<Rightarrow> member list" where
  "workspace_member ct w u =
     filter (\<lambda>m. workspace_org ct w = Some (mb_org m) \<and> mb_user m = u) (ct_members ct)"

definition delegated :: "control \<Rightarrow> uuid \<Rightarrow> uuid option \<Rightarrow> bool" where
  "delegated ct w p = list_ex (\<lambda>d. dg_ws d = w \<and> Some (dg_principal d) = p
      \<and> list_ex (\<lambda>m. mb_id m = dg_member d) (workspace_member ct w (dg_granted_by d)))
     (ct_delegations ct)"

definition reconciliation_actor :: "env \<Rightarrow> uuid \<Rightarrow> raised + bound_context" where
  "reconciliation_actor E w =
     (case context_row E w of
        None \<Rightarrow> Inl Context_missing
      | Some c \<Rightarrow>
         (case bc_user c of
            Some u \<Rightarrow> if workspace_member (en_ctl E) w u = [] then Inl Workspace_forbidden else Inr c
          | None \<Rightarrow>
             (case bc_principal c of
                Some p \<Rightarrow> if is_system (en_ctl E) (bc_ws c) (Some p) \<or> \<not> delegated (en_ctl E) w (Some p)
                          then Inl Reconciliation_forbidden else Inr c
              | None \<Rightarrow> Inl Context_missing)))"

section \<open>Audit events returned by the queue functions\<close>

record queue_event =
  ev_kind :: string
  ev_objects :: "string list"
  ev_metadata :: "(string \<times> jval) list"

text \<open>A row of \<open>audit.events\<close> (000002).\<close>

record audit_event =
  ae_ws :: uuid
  ae_position :: nat
  ae_principal :: "uuid option"
  ae_run :: "uuid option"
  ae_user :: "string option"
  ae_kind :: string
  ae_objects :: "string list"
  ae_rows :: "int option"
  ae_at :: time
  ae_metadata :: "(string \<times> jval) list"

text \<open>\<open>queue.result\<close> pairs the row with one event of the given kind; \<open>with_meta\<close> is
  \<open>jsonb_set(..., '{events,0,metadata,<key>}', ...)\<close> on that event.\<close>

definition queue_result :: "delivery \<Rightarrow> string \<Rightarrow> queue_event" where
  "queue_result d verb = \<lparr>ev_kind = verb,
     ev_objects = [dl_queue d, uuid_text (dl_message d), uuid_text (dl_id d)],
     ev_metadata = [(''attempt'', JInt (int (dl_attempt d))), (''state'', JStr (dstate_text (dl_state d)))]\<rparr>"

definition with_meta :: "string \<Rightarrow> jval \<Rightarrow> queue_event \<Rightarrow> queue_event" where
  "with_meta k v e = e\<lparr>ev_metadata := AList.update k v (ev_metadata e)\<rparr>"

end
