(* ===== verification/Ledger.thy ===== *)
theory Ledger
  imports Tables "HOL-Library.Char_ord"
begin

text \<open>The SQL functions of schema \<open>queue\<close> that move Messages and Deliveries, in their last
  replaced version (db/migrations/000007 to 000029).  An operation takes the environment
  (clock, bound context, control rows) and the ledger, and returns the exception it raises or
  its result with the new ledger; an exception rolls the transaction back, so it carries no
  ledger.\<close>

section \<open>Access to the physical queues\<close>

definition queue_of :: "ledger \<Rightarrow> uuid \<Rightarrow> string \<Rightarrow> queue_row option" where
  "queue_of s w n = find (\<lambda>q. qr_ws q = w \<and> qr_name q = n) (lg_queues s)"

definition physical_queue :: "ledger \<Rightarrow> uuid \<Rightarrow> string \<Rightarrow> string option" where
  "physical_queue s w n = map_option qr_phys (queue_of s w n)"

definition with_table :: "string \<Rightarrow> (pgmq_table \<Rightarrow> 'a \<times> pgmq_table) \<Rightarrow> ledger \<Rightarrow> raised + ('a \<times> ledger)" where
  "with_table p f s =
     (case lg_pgmq s p of
        None \<Rightarrow> Inl Undefined_table
      | Some t \<Rightarrow> (case f t of (x, t') \<Rightarrow> Inr (x, s\<lparr>lg_pgmq := (lg_pgmq s)(p \<mapsto> t')\<rparr>)))"

definition draw_uuid :: "ledger \<Rightarrow> uuid \<times> ledger" where
  "draw_uuid s = (lg_next s, s\<lparr>lg_next := Suc (lg_next s)\<rparr>)"

definition put_delivery :: "delivery \<Rightarrow> ledger \<Rightarrow> ledger" where
  "put_delivery d s = s\<lparr>lg_deliveries := tput dl_id d (lg_deliveries s)\<rparr>"

definition add_delivery :: "delivery \<Rightarrow> ledger \<Rightarrow> ledger" where
  "add_delivery d s = s\<lparr>lg_deliveries := lg_deliveries s @ [d]\<rparr>"

text \<open>The column defaults of \<open>queue.deliveries\<close>; \<open>chain = None\<close> draws a new chain.\<close>

definition insert_delivery ::
  "time \<Rightarrow> uuid \<Rightarrow> string \<Rightarrow> uuid \<Rightarrow> nat \<Rightarrow> uuid option \<Rightarrow> uuid option \<Rightarrow> nat \<Rightarrow> nat \<Rightarrow> ledger \<Rightarrow> delivery \<times> ledger" where
  "insert_delivery now w n m i chain parent attempt mx s =
     (case draw_uuid s of (di, s1) \<Rightarrow>
      (case (case chain of Some c \<Rightarrow> (c, s1) | None \<Rightarrow> draw_uuid s1) of (c, s2) \<Rightarrow>
        (let d = \<lparr>dl_id = di, dl_ws = w, dl_queue = n, dl_message = m, dl_msg = i, dl_chain = c,
                  dl_parent = parent, dl_attempt = attempt, dl_max = mx, dl_current = True,
                  dl_state = Ready, dl_receipt = None, dl_consumer = None, dl_run = None,
                  dl_lease = None, dl_claimed = None, dl_completed = None, dl_failure = None,
                  dl_next = None, dl_held_by = None, dl_held_at = None, dl_effect = None,
                  dl_created = now\<rparr>
         in (d, add_delivery d s2))))"

text \<open>\<open>pgmq.set_vt\<close> with a null time violates the column, and both calls report whether the
  message was live; the ledger turns a miss into \<open>queue_unavailable\<close>.\<close>

definition hide_until :: "string \<Rightarrow> nat \<Rightarrow> time option \<Rightarrow> ledger \<Rightarrow> raised + ledger" where
  "hide_until p i at s =
     (case at of None \<Rightarrow> Inl Not_null_violation
      | Some v \<Rightarrow> ebind (with_table p (pq_set_vt i v) s)
          (\<lambda>(found, s'). if found then Inr s' else Inl Queue_unavailable))"

definition retire :: "string \<Rightarrow> nat \<Rightarrow> ledger \<Rightarrow> raised + ledger" where
  "retire p i s = ebind (with_table p (pq_archive i) s)
     (\<lambda>(found, s'). if found then Inr s' else Inl Queue_unavailable)"

section \<open>Queues and Messages\<close>

definition physical_name :: "(string \<Rightarrow> string) \<Rightarrow> uuid \<Rightarrow> string \<Rightarrow> string" where
  "physical_name sha_hex w n = ''bp_'' @ take 44 (sha_hex (uuid_text w @ '':'' @ n))"

definition queue_name_ok :: "string \<Rightarrow> bool" where
  "queue_name_ok n \<longleftrightarrow> starts_then is_lower (\<lambda>c. is_lower c \<or> is_digit c \<or> c = CHR ''_'' \<or> c = CHR ''-'') n
     \<and> length n \<le> 63"

text \<open>\<open>queue.create_queue\<close>: the checks are those of the table, in the order the insert meets
  them (the column checks, then the primary key and the unique physical name).\<close>

definition create_queue :: "(string \<Rightarrow> string) \<Rightarrow> env \<Rightarrow> uuid \<Rightarrow> string \<Rightarrow> ledger \<Rightarrow> raised + (queue_row \<times> ledger)" where
  "create_queue sha_hex E w n s = ebind (queue_context E w) (\<lambda>c.
     guardE (\<not> queue_name_ok n) Check_violation (
     guardE (queue_of s w n \<noteq> None) (Unique_violation ''queues_pkey'') (
     guardE (list_ex (\<lambda>q. qr_phys q = physical_name sha_hex w n) (lg_queues s))
       (Unique_violation ''queues_pgmq_queue_key'') (
       let p = physical_name sha_hex w n; q = \<lparr>qr_ws = w, qr_name = n, qr_phys = p\<rparr>
       in Inr (q, s\<lparr>lg_queues := lg_queues s @ [q],
            lg_pgmq := (case lg_pgmq s p of None \<Rightarrow> (lg_pgmq s)(p \<mapsto> pq_create)
                        | Some t \<Rightarrow> lg_pgmq s)\<rparr>)))))"

definition capture_expiry :: "env \<Rightarrow> uuid \<Rightarrow> time" where
  "capture_expiry E w = en_now E + seconds (case map_of (ct_retention (en_ctl E)) w of
     None \<Rightarrow> 2592000 | Some n \<Rightarrow> n)"

definition message_by_key :: "ledger \<Rightarrow> uuid \<Rightarrow> string \<Rightarrow> string \<Rightarrow> message option" where
  "message_by_key s w n k =
     find (\<lambda>m. ms_ws m = w \<and> ms_queue m = n \<and> ms_key m = k) (lg_messages s)"

definition send_message ::
  "(string \<Rightarrow> string) \<Rightarrow> env \<Rightarrow> uuid \<Rightarrow> string \<Rightarrow> string option \<Rightarrow> string option \<Rightarrow> ledger
   \<Rightarrow> raised + ((message \<times> bool \<times> nat) \<times> ledger)" where
  "send_message sha E w n key payload s = ebind (queue_context E w) (\<lambda>c.
     (case (key, payload) of
        (Some k, Some p) \<Rightarrow>
          guardE (octets k < 1 \<or> 256 < octets k) Invalid_input (
          guardE (262144 < octets p) Payload_too_large (
          (case queue_of s w n of
             None \<Rightarrow> Inl Queue_not_found
           | Some q \<Rightarrow>
              (case message_by_key s w n k of
                 Some m \<Rightarrow> if ms_hash m \<noteq> sha p then Inl Idempotency_conflict
                           else Inr ((m, False, length p), s)
               | None \<Rightarrow> ebind (with_table (qr_phys q) (pq_send (en_now E) p) s) (\<lambda>(mid, s1).
                   (case draw_uuid s1 of (i, s2) \<Rightarrow>
                     (let m = \<lparr>ms_id = i, ms_ws = w, ms_queue = n, ms_msg = mid, ms_key = k,
                               ms_hash = sha p, ms_producer = bc_principal c, ms_run = bc_run c,
                               ms_created = en_now E, ms_expires = capture_expiry E w\<rparr>
                      in Inr ((m, True, length p), s2\<lparr>lg_messages := lg_messages s2 @ [m]\<rparr>))))))))
      | _ \<Rightarrow> Inl Invalid_input))"

definition message_body :: "time \<Rightarrow> uuid \<Rightarrow> uuid \<Rightarrow> ledger \<Rightarrow> raised + string option" where
  "message_body now w i s =
     (case find (\<lambda>m. ms_ws m = w \<and> ms_id m = i) (lg_messages s) of
        None \<Rightarrow> Inr None
      | Some m \<Rightarrow>
         (case physical_queue s w (ms_queue m) of
            None \<Rightarrow> Inr None
          | Some p \<Rightarrow>
             guardE (ms_expires m \<le> now) Payload_expired (
             (case lg_pgmq s p of
                None \<Rightarrow> Inl Undefined_table
              | Some t \<Rightarrow> (case pq_body t (ms_msg m) of
                  None \<Rightarrow> Inl Payload_read_failed
                | Some b \<Rightarrow> Inr (Some b))))))"

definition payload :: "time \<Rightarrow> uuid \<Rightarrow> string \<Rightarrow> uuid \<Rightarrow> ledger \<Rightarrow> raised + string option" where
  "payload now w n i s =
     (if \<not> list_ex (\<lambda>m. ms_ws m = w \<and> ms_queue m = n \<and> ms_id m = i) (lg_messages s)
      then Inr None else message_body now w i s)"

section \<open>Settling an attempt\<close>

datatype verb = Ack | Nack | Expire | Renew

fun verb_text :: "verb \<Rightarrow> string" where
  "verb_text Ack = ''ack''"
| "verb_text Nack = ''nack''"
| "verb_text Expire = ''expire''"
| "verb_text Renew = ''renew''"

definition settled_state :: "verb \<Rightarrow> delivery \<Rightarrow> dstate" where
  "settled_state v d =
     (if v = Ack then Succeeded
      else if dl_effect d \<noteq> None then Ambiguous
      else if dl_max d \<le> dl_attempt d then Dead_lettered
      else Scheduled)"

definition settled_next :: "time \<Rightarrow> verb \<Rightarrow> delivery \<Rightarrow> time option" where
  "settled_next now v d =
     (if settled_state v d = Scheduled
      then map_option (\<lambda>t. t + seconds 5) (if v = Expire then dl_lease d else Some now)
      else None)"

definition settled :: "time \<Rightarrow> verb \<Rightarrow> delivery \<Rightarrow> delivery" where
  "settled now v d = d\<lparr>dl_state := settled_state v d, dl_next := settled_next now v d,
     dl_receipt := None, dl_completed := Some now,
     dl_failure := (if v = Ack then None else Some (verb_text v))\<rparr>"

definition settle :: "time \<Rightarrow> verb \<Rightarrow> delivery \<Rightarrow> ledger \<Rightarrow> raised + (delivery \<times> ledger)" where
  "settle now v d s =
     (case physical_queue s (dl_ws d) (dl_queue d) of
        None \<Rightarrow> Inl No_data_found
      | Some p \<Rightarrow>
          ebind (if settled_state v d = Scheduled then hide_until p (dl_msg d) (settled_next now v d) s
                 else retire p (dl_msg d) s)
            (\<lambda>s'. Inr (settled now v d, put_delivery (settled now v d) s')))"

section \<open>Receipts\<close>

definition delivery_in :: "ledger \<Rightarrow> uuid \<Rightarrow> uuid \<Rightarrow> delivery option" where
  "delivery_in s w i = find (\<lambda>d. dl_ws d = w \<and> dl_id d = i) (lg_deliveries s)"

definition expired_lease :: "time \<Rightarrow> delivery \<Rightarrow> bool" where
  "expired_lease now d = (case dl_lease d of None \<Rightarrow> False | Some l \<Rightarrow> l \<le> now)"

definition fenced_delivery :: "env \<Rightarrow> uuid \<Rightarrow> uuid \<Rightarrow> string option \<Rightarrow> ledger \<Rightarrow> raised + delivery" where
  "fenced_delivery E w i receipt s = ebind (queue_context E w) (\<lambda>c.
     (case delivery_in s w i of
        None \<Rightarrow> Inl Delivery_not_found
      | Some d \<Rightarrow>
          guardE (\<not> dl_current d \<or> dl_state d \<notin> {Leased, Begun}) Receipt_stale (
          guardE (receipt \<noteq> dl_receipt d) Receipt_stale (
          guardE (dl_consumer d \<noteq> bc_principal c \<or> dl_run d \<noteq> bc_run c) Receipt_foreign (
          guardE (expired_lease (en_now E) d) Receipt_expired (Inr d))))))"

definition receipt_verb ::
  "env \<Rightarrow> uuid \<Rightarrow> uuid \<Rightarrow> string option \<Rightarrow> verb \<Rightarrow> ledger \<Rightarrow> raised + ((delivery \<times> queue_event list) \<times> ledger)" where
  "receipt_verb E w i receipt v s = ebind (fenced_delivery E w i receipt s) (\<lambda>d.
     ebind (if v = Renew
            then (case physical_queue s w (dl_queue d) of
                    None \<Rightarrow> Inl No_data_found
                  | Some p \<Rightarrow>
                      (let d' = d\<lparr>dl_lease := Some (en_now E + seconds 30)\<rparr>
                       in ebind (hide_until p (dl_msg d) (dl_lease d') s)
                            (\<lambda>s'. Inr (d', put_delivery d' s'))))
            else settle (en_now E) v d s)
       (\<lambda>(d', s'). (let e = queue_result d' (''queue.'' @ verb_text v)
          in Inr ((d', if v = Ack \<and> dl_effect d' \<noteq> None
                       then [with_meta ''effectOutcome'' (JStr ''applied'') e]
                       else if v = Nack \<and> dl_state d' = Ambiguous
                       then [e, with_meta ''reason'' (JStr ''nack'') (queue_result d' ''effect.ambiguous'')]
                       else [e]), s'))))"

definition renew :: "env \<Rightarrow> uuid \<Rightarrow> uuid \<Rightarrow> string option \<Rightarrow> ledger \<Rightarrow> raised + ((delivery \<times> queue_event list) \<times> ledger)" where
  "renew E w i receipt s = receipt_verb E w i receipt Renew s"

definition ack :: "env \<Rightarrow> uuid \<Rightarrow> uuid \<Rightarrow> string option \<Rightarrow> ledger \<Rightarrow> raised + ((delivery \<times> queue_event list) \<times> ledger)" where
  "ack E w i receipt s = receipt_verb E w i receipt Ack s"

definition nack :: "env \<Rightarrow> uuid \<Rightarrow> uuid \<Rightarrow> string option \<Rightarrow> ledger \<Rightarrow> raised + ((delivery \<times> queue_event list) \<times> ledger)" where
  "nack E w i receipt s = receipt_verb E w i receipt Nack s"

definition hold :: "env \<Rightarrow> uuid \<Rightarrow> uuid \<Rightarrow> string option \<Rightarrow> ledger \<Rightarrow> raised + ((delivery \<times> queue_event list) \<times> ledger)" where
  "hold E w i receipt s = ebind (queue_context E w) (\<lambda>c.
     ebind (fenced_delivery E w i receipt s) (\<lambda>d.
     guardE (dl_effect d \<noteq> None) Delivery_conflict (
     (case physical_queue s w (dl_queue d) of
        None \<Rightarrow> Inl No_data_found
      | Some p \<Rightarrow> ebind (retire p (dl_msg d) s) (\<lambda>s'.
          (let d' = d\<lparr>dl_state := Held, dl_receipt := None, dl_held_by := bc_principal c,
                      dl_held_at := Some (en_now E), dl_completed := Some (en_now E), dl_next := None\<rparr>
           in Inr ((d', [queue_result d' ''queue.hold'']), put_delivery d' s')))))))"

section \<open>Claiming\<close>

text \<open>The first loop: at most 32 begun Deliveries of the queue whose lease ended, oldest first.\<close>

definition lapsed_effects :: "time \<Rightarrow> uuid \<Rightarrow> string \<Rightarrow> ledger \<Rightarrow> delivery list" where
  "lapsed_effects now w n s =
     take 32 (sort_key (\<lambda>d. the (dl_lease d)) (sort_key dl_id
       (filter (\<lambda>d. dl_ws d = w \<and> dl_queue d = n \<and> dl_current d \<and> dl_state d = Begun \<and> expired_lease now d)
         (lg_deliveries s))))"

fun settle_lapsed :: "time \<Rightarrow> delivery list \<Rightarrow> ledger \<Rightarrow> raised + (queue_event list \<times> ledger)" where
  "settle_lapsed now [] s = Inr ([], s)"
| "settle_lapsed now (d # ds) s = ebind (settle now Expire d s) (\<lambda>(d', s').
     ebind (settle_lapsed now ds s') (\<lambda>(evs, s'').
       Inr (with_meta ''reason'' (JStr ''lease_expired'') (queue_result d' ''effect.ambiguous'') # evs, s'')))"

definition dead_letter :: "time \<Rightarrow> string \<Rightarrow> delivery \<Rightarrow> ledger \<Rightarrow> raised + (queue_event \<times> ledger)" where
  "dead_letter now p d s = ebind (retire p (dl_msg d) s) (\<lambda>s'.
     (let d' = d\<lparr>dl_state := Dead_lettered, dl_failure := Some ''payload_expired'', dl_next := None,
                 dl_completed := Some now\<rparr>
      in Inr (with_meta ''reason'' (JStr ''payload_expired'') (queue_result d' ''queue.dead-letter''),
              put_delivery d' s')))"

text \<open>The second loop: at most 32 waiting Deliveries whose Message expired.\<close>

definition message_expiry :: "ledger \<Rightarrow> delivery \<Rightarrow> time option" where
  "message_expiry s d = map_option ms_expires (tget ms_id (dl_message d) (lg_messages s))"

definition lapsed_payloads :: "time \<Rightarrow> uuid \<Rightarrow> string \<Rightarrow> ledger \<Rightarrow> delivery list" where
  "lapsed_payloads now w n s =
     take 32 (sort_key (\<lambda>d. the (message_expiry s d)) (sort_key dl_id
       (filter (\<lambda>d. dl_ws d = w \<and> dl_queue d = n \<and> dl_current d \<and> dl_state d \<in> {Ready, Scheduled}
           \<and> (case message_expiry s d of None \<Rightarrow> False | Some x \<Rightarrow> x \<le> now))
         (lg_deliveries s))))"

fun dead_letter_all :: "time \<Rightarrow> string \<Rightarrow> delivery list \<Rightarrow> ledger \<Rightarrow> raised + (queue_event list \<times> ledger)" where
  "dead_letter_all now p [] s = Inr ([], s)"
| "dead_letter_all now p (d # ds) s = ebind (dead_letter now p d s) (\<lambda>(e, s').
     ebind (dead_letter_all now p ds s') (\<lambda>(evs, s''). Inr (e # evs, s'')))"

text \<open>One round of the third loop, piece by piece: find or create the Delivery of the message
  read, settle it when its lease ended, dead-letter it when its payload is gone, push it back
  when it is not due, open the next attempt, and lease it.\<close>

definition materialise :: "time \<Rightarrow> uuid \<Rightarrow> string \<Rightarrow> nat \<Rightarrow> ledger \<Rightarrow> raised + (delivery \<times> ledger)" where
  "materialise now w n i s =
     (case find (\<lambda>d. dl_ws d = w \<and> dl_queue d = n \<and> dl_msg d = i \<and> dl_current d) (lg_deliveries s) of
        Some d \<Rightarrow> Inr (d, s)
      | None \<Rightarrow>
         (case find (\<lambda>m. ms_ws m = w \<and> ms_queue m = n \<and> ms_msg m = i
                \<and> \<not> list_ex (\<lambda>x. dl_message x = ms_id m) (lg_deliveries s)) (lg_messages s) of
            None \<Rightarrow> Inl Queue_unavailable
          | Some m \<Rightarrow> Inr (insert_delivery now w n (ms_id m) i None None 1 5 s)))"

definition expire_attempt :: "time \<Rightarrow> delivery \<Rightarrow> ledger \<Rightarrow> raised + ((delivery \<times> queue_event list) \<times> ledger)" where
  "expire_attempt now d s =
     (if dl_state d \<notin> {Leased, Begun} then Inr ((d, []), s)
      else if dl_lease d \<noteq> None \<and> now < the (dl_lease d) then Inl Queue_unavailable
      else ebind (settle now Expire d s) (\<lambda>(d', s').
        Inr ((d', [if dl_state d' = Ambiguous
                   then with_meta ''reason'' (JStr ''lease_expired'') (queue_result d' ''effect.ambiguous'')
                   else queue_result d' ''queue.expire'']), s')))"

definition claim_payload :: "time \<Rightarrow> uuid \<Rightarrow> string \<Rightarrow> uuid \<Rightarrow> ledger \<Rightarrow> raised + string option" where
  "claim_payload now w n i s =
     (case payload now w n i s of
        Inl e \<Rightarrow> if e = Payload_expired then Inr None else Inl e
      | Inr b \<Rightarrow> Inr b)"

definition next_attempt :: "time \<Rightarrow> uuid \<Rightarrow> string \<Rightarrow> nat \<Rightarrow> delivery \<Rightarrow> ledger \<Rightarrow> delivery \<times> ledger" where
  "next_attempt now w n i d s =
     (if dl_completed d = None then (d, s)
      else insert_delivery now w n (dl_message d) i (Some (dl_chain d)) (Some (dl_id d))
             (dl_attempt d + 1) (dl_max d) (put_delivery (d\<lparr>dl_current := False\<rparr>) s))"

definition lease_to :: "time \<Rightarrow> bound_context \<Rightarrow> string \<Rightarrow> delivery \<Rightarrow> delivery" where
  "lease_to now c receipt d = d\<lparr>dl_state := Leased, dl_receipt := Some receipt,
     dl_consumer := bc_principal c, dl_run := bc_run c, dl_claimed := Some now,
     dl_lease := Some (now + seconds 30), dl_next := None\<rparr>"

datatype scan =
    Scan_empty ledger
  | Scan_skip "queue_event list" ledger
  | Scan_claimed delivery string "queue_event list" ledger

definition take_lease ::
  "time \<Rightarrow> bound_context \<Rightarrow> uuid \<Rightarrow> string \<Rightarrow> string \<Rightarrow> string \<Rightarrow> nat \<Rightarrow> string \<Rightarrow> queue_event list \<Rightarrow> delivery \<Rightarrow> ledger \<Rightarrow> raised + scan" where
  "take_lease now c w n p receipt i body evs d s =
     (case next_attempt now w n i d s of (d1, s1) \<Rightarrow>
        ebind (hide_until p i (Some (now + seconds 30)) s1) (\<lambda>s2.
          (let d2 = lease_to now c receipt d1
           in Inr (Scan_claimed d2 body (evs @ [queue_result d2 ''queue.claim'']) (put_delivery d2 s2)))))"

definition claim_delivery ::
  "time \<Rightarrow> bound_context \<Rightarrow> uuid \<Rightarrow> string \<Rightarrow> string \<Rightarrow> string \<Rightarrow> nat \<Rightarrow> queue_event list \<Rightarrow> delivery \<Rightarrow> ledger \<Rightarrow> raised + scan" where
  "claim_delivery now c w n p receipt i evs d s =
     guardE (dl_state d \<notin> {Ready, Scheduled}) Queue_unavailable (
     ebind (claim_payload now w n (dl_message d) s) (\<lambda>b.
       (case b of
          None \<Rightarrow> ebind (dead_letter now p d s) (\<lambda>(e, s'). Inr (Scan_skip (evs @ [e]) s'))
        | Some body \<Rightarrow>
            if dl_next d \<noteq> None \<and> now < the (dl_next d)
            then ebind (with_table p (pq_set_vt i (the (dl_next d))) s) (\<lambda>(found, s'). Inr (Scan_skip evs s'))
            else take_lease now c w n p receipt i body evs d s)))"

definition claim_scan ::
  "time \<Rightarrow> bound_context \<Rightarrow> uuid \<Rightarrow> string \<Rightarrow> string \<Rightarrow> string \<Rightarrow> queue_event list \<Rightarrow> ledger \<Rightarrow> raised + scan" where
  "claim_scan now c w n p receipt evs s =
     ebind (with_table p (pq_receive now (seconds 30)) s) (\<lambda>(r, s1).
       (case r of
          None \<Rightarrow> Inr (Scan_empty s1)
        | Some i \<Rightarrow>
            ebind (materialise now w n i s1) (\<lambda>(d, s2).
            ebind (expire_attempt now d s2) (\<lambda>((d', ev), s3).
              if dl_state d \<in> {Leased, Begun} \<and> dl_state d' \<noteq> Scheduled then Inr (Scan_skip (evs @ ev) s3)
              else claim_delivery now c w n p receipt i (evs @ ev) d' s3))))"

text \<open>\<open>FOR scan IN 1..32 LOOP\<close>: the fuel is the loop bound of the source.\<close>

fun claim_loop ::
  "nat \<Rightarrow> time \<Rightarrow> bound_context \<Rightarrow> uuid \<Rightarrow> string \<Rightarrow> string \<Rightarrow> string \<Rightarrow> queue_event list \<Rightarrow> ledger
   \<Rightarrow> raised + (((delivery \<times> string) option \<times> queue_event list) \<times> ledger)" where
  "claim_loop 0 now c w n p receipt evs s = Inr ((None, evs), s)"
| "claim_loop (Suc k) now c w n p receipt evs s = ebind (claim_scan now c w n p receipt evs s) (\<lambda>r.
     (case r of
        Scan_empty s' \<Rightarrow> Inr ((None, evs), s')
      | Scan_skip evs' s' \<Rightarrow> claim_loop k now c w n p receipt evs' s'
      | Scan_claimed d body evs' s' \<Rightarrow> Inr ((Some (d, body), evs'), s')))"

definition claim ::
  "env \<Rightarrow> uuid \<Rightarrow> string \<Rightarrow> string option \<Rightarrow> ledger
   \<Rightarrow> raised + (((delivery \<times> string) option \<times> queue_event list) \<times> ledger)" where
  "claim E w n receipt s = ebind (queue_context E w) (\<lambda>c.
     ebind (assert_restore_open (en_ctl E)) (\<lambda>_.
     (case receipt of
        None \<Rightarrow> Inl Invalid_input
      | Some h \<Rightarrow> guardE (length h \<noteq> 32) Invalid_input (
         (case physical_queue s w n of
            None \<Rightarrow> Inl Queue_not_found
          | Some p \<Rightarrow>
              ebind (settle_lapsed (en_now E) (lapsed_effects (en_now E) w n s) s) (\<lambda>(ev1, s1).
              ebind (dead_letter_all (en_now E) p (lapsed_payloads (en_now E) w n s1) s1) (\<lambda>(ev2, s2).
                claim_loop 32 (en_now E) c w n p h (ev1 @ ev2) s2)))))))"

end
