(* ===== verification/Recovery.thy ===== *)
theory Recovery
  imports Ledger
begin

text \<open>Effects and recovery: \<open>begin_effect\<close> (000016), \<open>pause_effects\<close> (000014), \<open>replay\<close> and
  \<open>release\<close> through \<open>redispatch\<close> (000029), \<open>cancel\<close> (000016), \<open>ensure_delivery\<close> (000014),
  \<open>reconcile\<close> (000020) and \<open>restore_batch\<close> (000022).\<close>

section \<open>External effects\<close>

fun be_bytes :: "nat \<Rightarrow> int \<Rightarrow> string" where
  "be_bytes 0 n = []"
| "be_bytes (Suc k) n = be_bytes k (n div 256) @ [char_of (n mod 256)]"

definition effect_preimage :: "uuid \<Rightarrow> string \<Rightarrow> string \<Rightarrow> string" where
  "effect_preimage w action destination =
     be_bytes 16 (int w) @ be_bytes 4 (octets action) @ action
     @ be_bytes 4 (octets destination) @ destination"

definition effect_key :: "(string \<Rightarrow> string) \<Rightarrow> uuid \<Rightarrow> string \<Rightarrow> string \<Rightarrow> string" where
  "effect_key sha_hex w action destination = sha_hex (effect_preimage w action destination)"

definition effect_of :: "ledger \<Rightarrow> uuid \<Rightarrow> effect option" where
  "effect_of s m = tget ef_message m (lg_effects s)"

definition unreset_effect :: "ledger \<Rightarrow> uuid \<Rightarrow> bool" where
  "unreset_effect s m = list_ex (\<lambda>e. ef_message e = m \<and> \<not> ef_reset e) (lg_effects s)"

definition octets_between :: "int \<Rightarrow> int \<Rightarrow> string \<Rightarrow> bool" where
  "octets_between lo hi t \<longleftrightarrow> lo \<le> octets t \<and> octets t \<le> hi"

record begun_effect =
  be_delivery :: uuid
  be_message :: uuid
  be_key :: string
  be_at :: "time option"

definition start_effect :: "time \<Rightarrow> delivery \<Rightarrow> delivery" where
  "start_effect now d = d\<lparr>dl_state := Begun, dl_effect := Some now\<rparr>"

definition begun_result :: "string \<Rightarrow> delivery \<Rightarrow> begun_effect" where
  "begun_result k d = \<lparr>be_delivery = dl_id d, be_message = dl_message d, be_key = k, be_at = dl_effect d\<rparr>"

definition begin_effect ::
  "(string \<Rightarrow> string) \<Rightarrow> env \<Rightarrow> uuid \<Rightarrow> uuid \<Rightarrow> string option \<Rightarrow> string option \<Rightarrow> string option \<Rightarrow> ledger
   \<Rightarrow> raised + ((begun_effect \<times> queue_event list) \<times> ledger)" where
  "begin_effect sha_hex E w i receipt action destination s =
     ebind (fenced_delivery E w i receipt s) (\<lambda>d.
     (case (action, destination) of
        (Some a, Some t) \<Rightarrow>
          guardE (\<not> octets_between 1 1024 a \<or> \<not> octets_between 1 1024 t) Invalid_input (
          (let k = effect_key sha_hex w a t; d' = start_effect (en_now E) d in
           (case effect_of s (dl_message d) of
              Some e \<Rightarrow>
                guardE (ef_key e \<noteq> k) Effect_key_conflict (
                if ef_reset e
                then guardE (dl_state d \<noteq> Leased) Delivery_conflict (
                       Inr ((begun_result k d', [queue_result d' ''effect.begin'']),
                            put_delivery d' (s\<lparr>lg_effects := tput ef_message (e\<lparr>ef_reset := False\<rparr>) (lg_effects s)\<rparr>)))
                else guardE (dl_state d \<noteq> Begun) Delivery_conflict (
                       Inr ((begun_result k d, []), s)))
            | None \<Rightarrow>
                Inr ((begun_result k d', [queue_result d' ''effect.begin'']),
                     put_delivery d' (s\<lparr>lg_effects := lg_effects s
                       @ [\<lparr>ef_ws = w, ef_queue = dl_queue d, ef_message = dl_message d,
                           ef_origin = dl_id d, ef_key = k, ef_reset = False\<rparr>]\<rparr>)))))
      | _ \<Rightarrow> Inl Invalid_input))"

definition pausable :: "uuid \<Rightarrow> uuid \<Rightarrow> ledger \<Rightarrow> delivery list" where
  "pausable w p s = sort_key dl_id (filter (\<lambda>d. dl_ws d = w \<and> dl_consumer d = Some p \<and> dl_current d
     \<and> dl_state d = Begun) (lg_deliveries s))"

definition paused :: "time \<Rightarrow> delivery \<Rightarrow> delivery" where
  "paused now d = d\<lparr>dl_state := Effect_paused, dl_receipt := None, dl_next := None,
     dl_completed := Some now, dl_failure := Some ''principal_revoked''\<rparr>"

fun pause_all :: "time \<Rightarrow> delivery list \<Rightarrow> ledger \<Rightarrow> raised + (queue_event list \<times> ledger)" where
  "pause_all now [] s = Inr ([], s)"
| "pause_all now (d # ds) s =
     (case physical_queue s (dl_ws d) (dl_queue d) of
        None \<Rightarrow> Inl No_data_found
      | Some p \<Rightarrow> ebind (retire p (dl_msg d) s) (\<lambda>s'.
          ebind (pause_all now ds (put_delivery (paused now d) s')) (\<lambda>(evs, s'').
            Inr (with_meta ''reason'' (JStr ''principal_revoked'') (queue_result (paused now d) ''effect.paused'') # evs,
                 s''))))"

definition pause_effects :: "env \<Rightarrow> uuid \<Rightarrow> uuid \<Rightarrow> ledger \<Rightarrow> raised + (queue_event list \<times> ledger)" where
  "pause_effects E w p s =
     (case context_row E w of
        None \<Rightarrow> Inl Recovery_forbidden
      | Some c \<Rightarrow>
          guardE (bc_user c = None) Recovery_forbidden (
          guardE (\<not> list_ex (\<lambda>r. pr_ws r = w \<and> pr_id r = p \<and> \<not> pr_active r) (ct_principals (en_ctl E)))
            Delivery_conflict (pause_all (en_now E) (pausable w p s) s)))"

section \<open>Recovery by a User\<close>

definition locked_delivery :: "env \<Rightarrow> uuid \<Rightarrow> uuid \<Rightarrow> bool \<Rightarrow> ledger \<Rightarrow> raised + delivery" where
  "locked_delivery E w i require_user s = ebind
     (if require_user
      then (case context_row E w of None \<Rightarrow> Inl Recovery_forbidden
            | Some c \<Rightarrow> if bc_user c = None then Inl Recovery_forbidden else Inr c)
      else queue_context E w) (\<lambda>c.
     (case delivery_in s w i of
        None \<Rightarrow> Inl Delivery_not_found
      | Some d \<Rightarrow> guardE (\<not> dl_current d) Delivery_conflict (Inr d)))"

datatype redispatch_kind = Replay | Release

definition redispatch_target :: "env \<Rightarrow> uuid \<Rightarrow> uuid \<Rightarrow> redispatch_kind \<Rightarrow> ledger \<Rightarrow> raised + delivery" where
  "redispatch_target E w i k s =
     (if k = Release
      then (case context_row E w of
              None \<Rightarrow> Inl Context_missing
            | Some c \<Rightarrow>
                guardE (is_system (en_ctl E) (bc_ws c) (bc_principal c)) Context_missing (
                (case delivery_in s w i of
                   None \<Rightarrow> Inl Delivery_not_found
                 | Some d \<Rightarrow> guardE (\<not> dl_current d) Delivery_conflict (Inr d))))
      else locked_delivery E w i True s)"

text \<open>Send the payload again and make a first attempt of a new chain current, with the old
  Delivery as its parent.\<close>

definition resend :: "time \<Rightarrow> uuid \<Rightarrow> delivery \<Rightarrow> delivery \<Rightarrow> string \<Rightarrow> ledger \<Rightarrow> raised + (delivery \<times> ledger)" where
  "resend now w d old body s =
     (case physical_queue s w (dl_queue d) of
        None \<Rightarrow> Inl No_data_found
      | Some p \<Rightarrow> ebind (with_table p (pq_send now body) s) (\<lambda>(mid, s1).
          Inr (insert_delivery now w (dl_queue d) (dl_message d) mid None (Some (dl_id d)) 1 5
                 (put_delivery old s1))))"

definition redispatch ::
  "env \<Rightarrow> uuid \<Rightarrow> uuid \<Rightarrow> dstate \<Rightarrow> redispatch_kind \<Rightarrow> ledger \<Rightarrow> raised + ((delivery \<times> queue_event list) \<times> ledger)" where
  "redispatch E w i expected k s = ebind (redispatch_target E w i k s) (\<lambda>d.
     guardE (dl_state d \<noteq> expected \<or> dl_effect d \<noteq> None \<or> unreset_effect s (dl_message d)) Delivery_conflict (
     ebind (payload (en_now E) w (dl_queue d) (dl_message d) s) (\<lambda>b.
     (case b of
        None \<Rightarrow> Inl Payload_expired
      | Some body \<Rightarrow> ebind (resend (en_now E) w d (d\<lparr>dl_current := False\<rparr>) body s) (\<lambda>(n, s').
          Inr ((n, [if k = Replay
                    then with_meta ''parentDeliveryId'' (JStr (uuid_text i)) (queue_result n ''queue.replay'')
                    else queue_result n ''queue.release'']), s'))))))"

definition replay :: "env \<Rightarrow> uuid \<Rightarrow> uuid \<Rightarrow> ledger \<Rightarrow> raised + ((delivery \<times> queue_event list) \<times> ledger)" where
  "replay E w i s = redispatch E w i Dead_lettered Replay s"

definition release :: "env \<Rightarrow> uuid \<Rightarrow> uuid \<Rightarrow> ledger \<Rightarrow> raised + ((delivery \<times> queue_event list) \<times> ledger)" where
  "release E w i s = redispatch E w i Held Release s"

definition reason_ok :: "string \<Rightarrow> bool" where
  "reason_ok r \<longleftrightarrow> starts_then is_lower (\<lambda>c. is_lower c \<or> is_digit c \<or> c = CHR ''_'') r \<and> length r \<le> 64"

definition cancelled :: "time \<Rightarrow> delivery \<Rightarrow> delivery" where
  "cancelled now d = d\<lparr>dl_state := Cancelled, dl_receipt := None, dl_next := None, dl_completed := Some now\<rparr>"

definition cancel ::
  "env \<Rightarrow> uuid \<Rightarrow> uuid \<Rightarrow> bool option \<Rightarrow> string option \<Rightarrow> ledger \<Rightarrow> raised + ((delivery \<times> queue_event list) \<times> ledger)" where
  "cancel E w i force reason s = ebind (locked_delivery E w i True s) (\<lambda>d.
     (case reason of
        None \<Rightarrow> Inl Invalid_input
      | Some r \<Rightarrow>
          guardE (\<not> reason_ok r) Invalid_input (
          guardE (unreset_effect s (dl_message d) \<or> dl_state d \<notin> {Ready, Scheduled, Leased}
                  \<or> (dl_state d = Leased \<and> force \<noteq> Some True)) Delivery_conflict (
          (case physical_queue s w (dl_queue d) of
             None \<Rightarrow> Inl No_data_found
           | Some p \<Rightarrow> ebind (retire p (dl_msg d) s) (\<lambda>s'.
               (let d' = cancelled (en_now E) d
                in Inr ((d', [with_meta ''reason'' (JStr r) (queue_result d' ''queue.cancel'')]),
                        put_delivery d' s'))))))))"

definition ensure_delivery ::
  "env \<Rightarrow> uuid \<Rightarrow> uuid \<Rightarrow> ledger \<Rightarrow> raised + ((delivery option \<times> queue_event list) \<times> ledger)" where
  "ensure_delivery E w m s = ebind (queue_context E w) (\<lambda>c.
     guardE (list_ex (\<lambda>e. ef_ws e = w \<and> ef_message e = m) (lg_effects s)) Delivery_conflict (
     (case find (\<lambda>x. ms_ws x = w \<and> ms_id x = m) (lg_messages s) of
        None \<Rightarrow> Inr ((None, []), s)
      | Some x \<Rightarrow>
          if list_ex (\<lambda>d. dl_message d = m) (lg_deliveries s) then Inr ((None, []), s)
          else (case insert_delivery (en_now E) w (ms_queue x) m (ms_msg x) None None 1 5 s of
                  (d, s') \<Rightarrow> Inr ((Some d, [queue_result d ''queue.ready'']), s')))))"

section \<open>Reconciliation\<close>

definition decisions :: "ledger \<Rightarrow> uuid \<Rightarrow> uuid \<Rightarrow> reconciliation list" where
  "decisions s w i = filter (\<lambda>r. rc_ws r = w \<and> rc_delivery r = i) (lg_recons s)"

definition record_decision ::
  "env \<Rightarrow> uuid \<Rightarrow> bound_context \<Rightarrow> delivery \<Rightarrow> outcome \<Rightarrow> string \<Rightarrow> uuid option \<Rightarrow> ledger
   \<Rightarrow> (reconciliation \<times> queue_event list) \<times> ledger" where
  "record_decision E w c d dec evidence successor s =
     (case draw_uuid s of (i, s1) \<Rightarrow>
       (let r = \<lparr>rc_id = i, rc_ws = w, rc_delivery = dl_id d, rc_outcome = dec,
                 rc_evidence = Some evidence, rc_principal = bc_principal c, rc_run = bc_run c,
                 rc_user = bc_user c, rc_successor = successor, rc_position = None,
                 rc_expires = capture_expiry E w\<rparr>;
            eff = (if dec = Unknown then JNull else JStr (outcome_text dec));
            suc = (case successor of None \<Rightarrow> JNull | Some x \<Rightarrow> JStr (uuid_text x))
        in ((r, [\<lparr>ev_kind = ''effect.reconciled'',
                  ev_objects = [dl_queue d, uuid_text (dl_message d), uuid_text (dl_id d), uuid_text i],
                  ev_metadata = [(''outcome'', JStr (outcome_text dec)), (''effectOutcome'', eff),
                                 (''successorDeliveryId'', suc)]\<rparr>]),
            s1\<lparr>lg_recons := lg_recons s1 @ [r]\<rparr>)))"

definition reset_effect :: "uuid \<Rightarrow> ledger \<Rightarrow> ledger" where
  "reset_effect m s = s\<lparr>lg_effects := map (\<lambda>e. if ef_message e = m then e\<lparr>ef_reset := True\<rparr> else e) (lg_effects s)\<rparr>"

definition decide ::
  "env \<Rightarrow> uuid \<Rightarrow> outcome \<Rightarrow> delivery \<Rightarrow> ledger \<Rightarrow> raised + (uuid option \<times> ledger)" where
  "decide E w dec d s =
     (case dec of
        Applied \<Rightarrow> Inr (None, put_delivery (d\<lparr>dl_state := Succeeded, dl_completed := Some (en_now E),
                                             dl_failure := None\<rparr>) s)
      | Not_applied \<Rightarrow> ebind (payload (en_now E) w (dl_queue d) (dl_message d) s) (\<lambda>b.
          (case b of
             None \<Rightarrow> Inl Payload_expired
           | Some body \<Rightarrow>
               ebind (resend (en_now E) w d (d\<lparr>dl_current := False, dl_state := Cancelled,
                         dl_failure := Some ''reconciled_not_applied''\<rparr>) body s) (\<lambda>(n, s').
                 Inr (Some (dl_id n), reset_effect (dl_message d) s'))))
      | Unknown \<Rightarrow> Inr (None, s))"

definition reconcile ::
  "env \<Rightarrow> uuid \<Rightarrow> uuid \<Rightarrow> string option \<Rightarrow> string option \<Rightarrow> ledger
   \<Rightarrow> raised + ((reconciliation \<times> queue_event list) \<times> ledger)" where
  "reconcile E w i decision evidence s = ebind (reconciliation_actor E w) (\<lambda>c.
     (case (Option.bind decision parse_outcome, evidence) of
        (Some dec, Some ev) \<Rightarrow>
          guardE (\<not> octets_between 1 4096 ev) Invalid_input (
          (case delivery_in s w i of
             None \<Rightarrow> Inl Delivery_not_found
           | Some d \<Rightarrow>
              (case find (\<lambda>r. rc_outcome r = dec) (decisions s w i) of
                 Some r \<Rightarrow> Inr ((r, []), s)
               | None \<Rightarrow>
                  guardE (list_ex (\<lambda>r. rc_outcome r \<noteq> Unknown) (decisions s w i)) Reconciliation_conflict (
                  guardE (\<not> dl_current d \<or> dl_state d \<notin> {Ambiguous, Effect_paused} \<or> dl_effect d = None
                          \<or> dl_receipt d \<noteq> None \<or> dl_next d \<noteq> None) Delivery_conflict (
                  (case find (\<lambda>e. ef_ws e = w \<and> ef_queue e = dl_queue d \<and> ef_message e = dl_message d)
                          (lg_effects s) of
                     None \<Rightarrow> Inl Delivery_conflict
                   | Some e \<Rightarrow>
                       guardE (ef_reset e) Delivery_conflict (
                       ebind (decide E w dec d s) (\<lambda>(successor, s').
                         Inr (record_decision E w c d dec ev successor s')))))))))
      | _ \<Rightarrow> Inl Invalid_input))"

text \<open>\<open>queue.finish_reconciliation\<close>: a decision takes the position of the audit event that records
  exactly it, by the actor that made it, once.\<close>

definition decision_metadata :: "reconciliation \<Rightarrow> (string \<times> jval) list" where
  "decision_metadata r =
     [(''outcome'', JStr (outcome_text (rc_outcome r))),
      (''effectOutcome'', if rc_outcome r = Unknown then JNull else JStr (outcome_text (rc_outcome r))),
      (''successorDeliveryId'', case rc_successor r of None \<Rightarrow> JNull | Some x \<Rightarrow> JStr (uuid_text x))]"

definition finish_reconciliation ::
  "env \<Rightarrow> uuid \<Rightarrow> uuid \<Rightarrow> nat \<Rightarrow> audit_event option \<Rightarrow> ledger \<Rightarrow> raised + (unit \<times> ledger)" where
  "finish_reconciliation E w i position event s = ebind (reconciliation_actor E w) (\<lambda>c.
     (case find (\<lambda>r. rc_ws r = w \<and> rc_id r = i \<and> rc_position r = None) (lg_recons s) of
        None \<Rightarrow> Inl Reconciliation_conflict
      | Some r \<Rightarrow>
         (case delivery_in s w (rc_delivery r) of
            None \<Rightarrow> Inl Reconciliation_conflict
          | Some d \<Rightarrow>
             (case event of
                None \<Rightarrow> Inl Reconciliation_conflict
              | Some a \<Rightarrow>
                  guardE (ae_ws a \<noteq> w \<or> ae_position a \<noteq> position \<or> ae_kind a \<noteq> ''effect.reconciled''
                    \<or> ae_objects a \<noteq> [dl_queue d, uuid_text (dl_message d), uuid_text (dl_id d), uuid_text (rc_id r)]
                    \<or> ae_rows a \<noteq> Some 1 \<or> ae_metadata a \<noteq> decision_metadata r
                    \<or> (rc_principal r, rc_run r, rc_user r) \<noteq> (bc_principal c, bc_run c, bc_user c)
                    \<or> (ae_principal a, ae_run a, ae_user a) \<noteq> (bc_principal c, bc_run c, bc_user c))
                    Reconciliation_conflict (
                  Inr ((), s\<lparr>lg_recons := tput rc_id (r\<lparr>rc_position := Some position\<rparr>) (lg_recons s)\<rparr>))))))"

section \<open>Restore\<close>

definition restorable :: "uuid \<Rightarrow> nat \<Rightarrow> ledger \<Rightarrow> delivery list" where
  "restorable w limit s = take limit (sort_key dl_id (filter (\<lambda>d. dl_ws d = w \<and> dl_current d
     \<and> dl_state d \<in> {Leased, Begun}) (lg_deliveries s)))"

definition restored :: "time \<Rightarrow> delivery \<Rightarrow> delivery" where
  "restored now d = (let amb = dl_state d = Begun in
     d\<lparr>dl_state := (if amb then Ambiguous else Scheduled),
       dl_next := (if amb then None else Some (now + seconds 5)), dl_receipt := None,
       dl_completed := (if amb then Some now else None), dl_failure := Some ''restore''\<rparr>)"

definition restore_one :: "time \<Rightarrow> uuid \<Rightarrow> delivery \<Rightarrow> ledger \<Rightarrow> raised + (queue_event \<times> ledger)" where
  "restore_one now w d s =
     (let e = effect_of s (dl_message d) in
      guardE ((dl_state d = Begun \<and> (case e of None \<Rightarrow> True | Some x \<Rightarrow> ef_reset x))
              \<or> (dl_state d = Leased \<and> (dl_effect d \<noteq> None
                    \<or> (case e of None \<Rightarrow> False | Some x \<Rightarrow> \<not> ef_reset x)))) Restore_conflict (
      (case physical_queue s w (dl_queue d) of
         None \<Rightarrow> Inl No_data_found
       | Some p \<Rightarrow>
           (let d' = restored now d in
            ebind (if dl_state d' = Scheduled then hide_until p (dl_msg d) (dl_next d') s
                   else retire p (dl_msg d) s) (\<lambda>s'.
              Inr (queue_result d' (if dl_state d' = Ambiguous then ''effect.ambiguous'' else ''queue.restore''),
                   put_delivery d' s'))))))"

fun restore_all :: "time \<Rightarrow> uuid \<Rightarrow> delivery list \<Rightarrow> ledger \<Rightarrow> raised + (queue_event list \<times> ledger)" where
  "restore_all now w [] s = Inr ([], s)"
| "restore_all now w (d # ds) s = ebind (restore_one now w d s) (\<lambda>(e, s').
     ebind (restore_all now w ds s') (\<lambda>(evs, s''). Inr (e # evs, s'')))"

definition restore_open_for :: "control \<Rightarrow> uuid \<Rightarrow> uuid \<Rightarrow> bool" where
  "restore_open_for ct epoch w =
     (case ct_gate ct of
        None \<Rightarrow> False
      | Some g \<Rightarrow> rg_active g \<and> rg_epoch g = Some epoch
          \<and> list_ex (\<lambda>p. rw_epoch p = epoch \<and> rw_ws p = w \<and> rw_rotated p \<and> \<not> rw_done p) (ct_restore ct))"

definition restore_batch :: "env \<Rightarrow> uuid \<Rightarrow> uuid \<Rightarrow> int option \<Rightarrow> ledger \<Rightarrow> raised + (queue_event list \<times> ledger)" where
  "restore_batch E epoch w limit s = ebind (reconciliation_actor E w) (\<lambda>c.
     guardE (bc_user c = None) Workspace_forbidden (
     (case limit of
        None \<Rightarrow> Inl Invalid_input
      | Some k \<Rightarrow>
          guardE (k < 1 \<or> 100 < k) Invalid_input (
          guardE (\<not> restore_open_for (en_ctl E) epoch w) Restore_conflict (
            restore_all (en_now E) w (restorable w (nat k) s) s)))))"

end
