(* ===== verification/LedgerInv.thy ===== *)
theory LedgerInv
  imports Recovery
begin

text \<open>The well-formedness of a ledger: the CHECK constraints, unique indexes and foreign keys of
  the tables, the agreement of the current Deliveries with what pgmq will dispatch, and the
  fence an unreset effect puts around its Message.  Then the lemmas on how the four ways of
  writing Delivery rows keep it.\<close>

section \<open>Physical queues seen from the ledger\<close>

definition lg_table :: "ledger \<Rightarrow> uuid \<Rightarrow> string \<Rightarrow> pgmq_table option" where
  "lg_table s w n = Option.bind (physical_queue s w n) (lg_pgmq s)"

definition lg_vt :: "ledger \<Rightarrow> uuid \<Rightarrow> string \<Rightarrow> nat \<Rightarrow> time option" where
  "lg_vt s w n i = Option.bind (lg_table s w n) (\<lambda>t. pq_vt t i)"

definition lg_issued :: "ledger \<Rightarrow> uuid \<Rightarrow> string \<Rightarrow> nat \<Rightarrow> bool" where
  "lg_issued s w n i = (case lg_table s w n of None \<Rightarrow> False | Some t \<Rightarrow> pq_issued t i)"

definition lg_body :: "ledger \<Rightarrow> uuid \<Rightarrow> string \<Rightarrow> nat \<Rightarrow> string option" where
  "lg_body s w n i = Option.bind (lg_table s w n) (\<lambda>t. pq_body t i)"

definition queues_ok :: "ledger \<Rightarrow> bool" where
  "queues_ok s \<longleftrightarrow> distinct (map (\<lambda>q. (qr_ws q, qr_name q)) (lg_queues s))
     \<and> distinct (map qr_phys (lg_queues s))
     \<and> (\<forall>p. lg_pgmq s p \<noteq> None \<longleftrightarrow> p \<in> qr_phys ` set (lg_queues s))
     \<and> (\<forall>p t. lg_pgmq s p = Some t \<longrightarrow> pq_ok t)"

type_synonym 'a at_place = "uuid \<Rightarrow> string \<Rightarrow> nat \<Rightarrow> 'a"

definition at_upd :: "'a at_place \<Rightarrow> uuid \<Rightarrow> string \<Rightarrow> nat \<Rightarrow> 'a \<Rightarrow> 'a at_place" where
  "at_upd f w n i x = (\<lambda>w' n' i'. if w' = w \<and> n' = n \<and> i' = i then x else f w' n' i')"

lemma at_upd_apply [simp]: "at_upd f w n i x w' n' i' = (if w' = w \<and> n' = n \<and> i' = i then x else f w' n' i')"
  by (simp add: at_upd_def)

lemma queue_of_SomeD: "queue_of s w n = Some q \<Longrightarrow> q \<in> set (lg_queues s) \<and> qr_ws q = w \<and> qr_name q = n"
  by (auto simp: queue_of_def find_Some_iff in_set_conv_nth)

lemma physical_queue_inj:
  assumes "queues_ok s" "physical_queue s w n = Some p" "physical_queue s w' n' = Some p"
  shows "w' = w \<and> n' = n"
proof -
  obtain q q' where q: "queue_of s w n = Some q" "qr_phys q = p" and q': "queue_of s w' n' = Some q'" "qr_phys q' = p"
    using assms(2,3) by (auto simp: physical_queue_def)
  have "q = q'"
    using assms(1) q q' queue_of_SomeD by (auto simp: queues_ok_def distinct_map inj_on_def)
  then show ?thesis using q q' queue_of_SomeD by blast
qed

lemma physical_queue_table:
  assumes "queues_ok s" "physical_queue s w n = Some p"
  obtains t where "lg_pgmq s p = Some t" "pq_ok t" "lg_table s w n = Some t"
proof -
  obtain q where "q \<in> set (lg_queues s)" "qr_phys q = p"
    using assms(2) by (auto simp: physical_queue_def dest!: queue_of_SomeD)
  then obtain t where "lg_pgmq s p = Some t"
    using assms(1) unfolding queues_ok_def by (metis image_eqI not_None_eq)
  then show ?thesis using that assms by (auto simp: queues_ok_def lg_table_def)
qed

lemma physical_queue_pgmq [simp]: "physical_queue (s\<lparr>lg_pgmq := P\<rparr>) w n = physical_queue s w n"
  by (simp add: physical_queue_def queue_of_def)

lemma lg_table_upd:
  assumes "queues_ok s" "physical_queue s w n = Some p"
  shows "lg_table (s\<lparr>lg_pgmq := (lg_pgmq s)(p \<mapsto> t)\<rparr>) w' n'
         = (if w' = w \<and> n' = n then Some t else lg_table s w' n')"
proof (cases "physical_queue s w' n'")
  case None
  then show ?thesis using assms(2) by (auto simp: lg_table_def)
next
  case (Some p')
  show ?thesis
  proof (cases "p' = p")
    case True
    then have "w' = w \<and> n' = n" using physical_queue_inj assms Some by blast
    then show ?thesis using Some True by (simp add: lg_table_def)
  next
    case False
    then have "\<not> (w' = w \<and> n' = n)" using Some assms(2) by auto
    then show ?thesis using Some False by (auto simp: lg_table_def)
  qed
qed

lemma queues_ok_upd:
  assumes "queues_ok s" "physical_queue s w n = Some p" "pq_ok t"
  shows "queues_ok (s\<lparr>lg_pgmq := (lg_pgmq s)(p \<mapsto> t)\<rparr>)"
proof -
  have "p \<in> qr_phys ` set (lg_queues s)"
    using assms(2) by (auto simp: physical_queue_def dest!: queue_of_SomeD)
  then show ?thesis using assms(1,3) by (auto simp: queues_ok_def)
qed

text \<open>The four pgmq calls, lifted.\<close>

lemma hide_until_ok:
  assumes "queues_ok s" "physical_queue s w n = Some p" "hide_until p i at s = Inr s'"
  obtains v P where "at = Some v" "s' = s\<lparr>lg_pgmq := P\<rparr>" "queues_ok s'"
    "lg_vt s w n i \<noteq> None" "lg_vt s' = at_upd (lg_vt s) w n i (Some v)"
    "lg_issued s' = lg_issued s" "lg_body s' = lg_body s"
proof -
  obtain v where v: "at = Some v" using assms(3) by (cases at) (auto simp: hide_until_def)
  obtain t where t: "lg_pgmq s p = Some t" "pq_ok t" "lg_table s w n = Some t"
    using physical_queue_table assms by blast
  obtain found t' where d: "pq_set_vt i v t = (found, t')" by fastforce
  have s': "found" "s' = s\<lparr>lg_pgmq := (lg_pgmq s)(p \<mapsto> t')\<rparr>"
    using assms(3) v t d by (auto simp: hide_until_def with_table_def ebind_Inr_iff split: if_splits)
  note law = dq.delay_law [OF t(2) d]
  have "lg_vt s' = at_upd (lg_vt s) w n i (Some v)"
    using s' t law lg_table_upd [OF assms(1,2)] by (intro ext) (auto simp: lg_vt_def)
  moreover have "lg_issued s' = lg_issued s" "lg_body s' = lg_body s"
    using s' t law lg_table_upd [OF assms(1,2)] by (intro ext; auto simp: lg_issued_def lg_body_def)+
  moreover have "lg_vt s w n i \<noteq> None" using law s'(1) t by (simp add: lg_vt_def)
  ultimately show ?thesis
    using that [of v "(lg_pgmq s)(p \<mapsto> t')"] s' v law queues_ok_upd [OF assms(1,2)] by blast
qed

lemma hide_until_total:
  assumes "queues_ok s" "physical_queue s w n = Some p" "lg_vt s w n i \<noteq> None"
  shows "\<exists>s'. hide_until p i (Some v) s = Inr s'"
proof -
  obtain t where t: "lg_pgmq s p = Some t" "pq_ok t" "lg_table s w n = Some t"
    using physical_queue_table assms by blast
  obtain found t' where d: "pq_set_vt i v t = (found, t')" by fastforce
  have "found" using dq.delay_law [OF t(2) d] assms(3) t by (simp add: lg_vt_def)
  then show ?thesis using t d by (simp add: hide_until_def with_table_def)
qed

lemma retire_ok:
  assumes "queues_ok s" "physical_queue s w n = Some p" "retire p i s = Inr s'"
  obtains P where "s' = s\<lparr>lg_pgmq := P\<rparr>" "queues_ok s'"
    "lg_vt s w n i \<noteq> None" "lg_vt s' = at_upd (lg_vt s) w n i None"
    "lg_issued s' = lg_issued s" "lg_body s' = lg_body s"
proof -
  obtain t where t: "lg_pgmq s p = Some t" "pq_ok t" "lg_table s w n = Some t"
    using physical_queue_table assms by blast
  obtain found t' where d: "pq_archive i t = (found, t')" by fastforce
  have s': "found" "s' = s\<lparr>lg_pgmq := (lg_pgmq s)(p \<mapsto> t')\<rparr>"
    using assms(3) t d by (auto simp: retire_def with_table_def ebind_Inr_iff split: if_splits)
  note law = dq.archive_law [OF t(2) d]
  have "lg_vt s' = at_upd (lg_vt s) w n i None"
    using s' t law lg_table_upd [OF assms(1,2)] by (intro ext) (auto simp: lg_vt_def)
  moreover have "lg_issued s' = lg_issued s" "lg_body s' = lg_body s"
    using s' t law lg_table_upd [OF assms(1,2)] by (intro ext; auto simp: lg_issued_def lg_body_def)+
  moreover have "lg_vt s w n i \<noteq> None" using law s'(1) t by (simp add: lg_vt_def)
  ultimately show ?thesis
    using that [of "(lg_pgmq s)(p \<mapsto> t')"] s' law queues_ok_upd [OF assms(1,2)] by blast
qed

lemma retire_total:
  assumes "queues_ok s" "physical_queue s w n = Some p" "lg_vt s w n i \<noteq> None"
  shows "\<exists>s'. retire p i s = Inr s'"
proof -
  obtain t where t: "lg_pgmq s p = Some t" "pq_ok t" "lg_table s w n = Some t"
    using physical_queue_table assms by blast
  obtain found t' where d: "pq_archive i t = (found, t')" by fastforce
  have "found" using dq.archive_law [OF t(2) d] assms(3) t by (simp add: lg_vt_def)
  then show ?thesis using t d by (simp add: retire_def with_table_def)
qed

lemma send_ok:
  assumes "queues_ok s" "physical_queue s w n = Some p"
  obtains i P where "with_table p (pq_send now b) s = Inr (i, s\<lparr>lg_pgmq := P\<rparr>)"
    "queues_ok (s\<lparr>lg_pgmq := P\<rparr>)" "\<not> lg_issued s w n i"
    "lg_vt (s\<lparr>lg_pgmq := P\<rparr>) = at_upd (lg_vt s) w n i (Some now)"
    "lg_issued (s\<lparr>lg_pgmq := P\<rparr>) = at_upd (lg_issued s) w n i True"
    "lg_body (s\<lparr>lg_pgmq := P\<rparr>) = at_upd (lg_body s) w n i (Some b)"
proof -
  obtain t where t: "lg_pgmq s p = Some t" "pq_ok t" "lg_table s w n = Some t"
    using physical_queue_table assms by blast
  obtain i t' where d: "pq_send now b t = (i, t')" by fastforce
  note law = dq.send_law [OF t(2) d]
  let ?P = "(lg_pgmq s)(p \<mapsto> t')"
  have "lg_vt (s\<lparr>lg_pgmq := ?P\<rparr>) = at_upd (lg_vt s) w n i (Some now)"
    "lg_issued (s\<lparr>lg_pgmq := ?P\<rparr>) = at_upd (lg_issued s) w n i True"
    "lg_body (s\<lparr>lg_pgmq := ?P\<rparr>) = at_upd (lg_body s) w n i (Some b)"
    using t law lg_table_upd [OF assms(1,2)]
    by (intro ext; auto simp: lg_vt_def lg_issued_def lg_body_def)+
  moreover have "\<not> lg_issued s w n i" using law t by (simp add: lg_issued_def)
  ultimately show ?thesis
    using that [of i ?P] law t d queues_ok_upd [OF assms(1,2)] by (auto simp: with_table_def)
qed

lemma receive_ok:
  assumes "queues_ok s" "physical_queue s w n = Some p"
  obtains r P where "with_table p (pq_receive now span) s = Inr (r, s\<lparr>lg_pgmq := P\<rparr>)"
    "queues_ok (s\<lparr>lg_pgmq := P\<rparr>)"
    "lg_issued (s\<lparr>lg_pgmq := P\<rparr>) = lg_issued s" "lg_body (s\<lparr>lg_pgmq := P\<rparr>) = lg_body s"
    "r = None \<Longrightarrow> P = lg_pgmq s \<and> (\<forall>i v. lg_vt s w n i = Some v \<longrightarrow> now < v)"
    "\<And>i. r = Some i \<Longrightarrow> (\<exists>v. lg_vt s w n i = Some v \<and> v \<le> now)
        \<and> (\<forall>j v. lg_vt s w n j = Some v \<longrightarrow> v \<le> now \<longrightarrow> i \<le> j)
        \<and> lg_vt (s\<lparr>lg_pgmq := P\<rparr>) = at_upd (lg_vt s) w n i (Some (now + span))"
proof -
  obtain t where t: "lg_pgmq s p = Some t" "pq_ok t" "lg_table s w n = Some t"
    using physical_queue_table assms by blast
  obtain r t' where d: "pq_receive now span t = (r, t')" by fastforce
  let ?P = "(lg_pgmq s)(p \<mapsto> t')"
  have w: "with_table p (pq_receive now span) s = Inr (r, s\<lparr>lg_pgmq := ?P\<rparr>)"
    using t d by (simp add: with_table_def)
  show ?thesis
  proof (cases r)
    case None
    note law = dq.receive_None [OF t(2) d [unfolded None]]
    have P: "?P = lg_pgmq s" using law t by (auto simp: fun_eq_iff)
    show ?thesis
      by (rule that [of r ?P]) (use w law assms None P t in \<open>auto simp: lg_vt_def\<close>)
  next
    case (Some i)
    note law = dq.receive_Some [OF t(2) d [unfolded Some]]
    have "lg_vt (s\<lparr>lg_pgmq := ?P\<rparr>) = at_upd (lg_vt s) w n i (Some (now + span))"
      "lg_issued (s\<lparr>lg_pgmq := ?P\<rparr>) = lg_issued s" "lg_body (s\<lparr>lg_pgmq := ?P\<rparr>) = lg_body s"
      using t law lg_table_upd [OF assms(1,2)]
      by (intro ext; auto simp: lg_vt_def lg_issued_def lg_body_def)+
    moreover have "\<exists>v. lg_vt s w n i = Some v \<and> v \<le> now"
      "\<forall>j v. lg_vt s w n j = Some v \<longrightarrow> v \<le> now \<longrightarrow> i \<le> j"
      using law t by (auto simp: lg_vt_def)
    moreover have "queues_ok (s\<lparr>lg_pgmq := ?P\<rparr>)" using law queues_ok_upd [OF assms] by blast
    ultimately show ?thesis using that [of r ?P] w Some by blast
  qed
qed

section \<open>Well-formed rows\<close>

definition dispatchable :: "delivery \<Rightarrow> bool" where
  "dispatchable d \<longleftrightarrow> dl_state d \<in> {Ready, Scheduled, Leased, Begun}"

definition fenced :: "delivery \<Rightarrow> bool" where
  "fenced d \<longleftrightarrow> dl_state d \<in> {Leased, Begun}"

text \<open>The CHECK constraints of \<open>queue.deliveries\<close> (first three clauses), and what else each state
  says of its row.\<close>

definition row_ok :: "delivery \<Rightarrow> bool" where
  "row_ok d \<longleftrightarrow>
     1 \<le> dl_attempt d \<and> dl_attempt d \<le> dl_max d \<and> dl_max d = 5
     \<and> (fenced d \<longleftrightarrow> dl_receipt d \<noteq> None)
     \<and> (dl_state d \<in> {Begun, Effect_paused, Ambiguous} \<longrightarrow> dl_effect d \<noteq> None)
     \<and> (case dl_receipt d of None \<Rightarrow> True | Some h \<Rightarrow> length h = 32)
     \<and> (dl_state d \<in> {Ready, Scheduled, Leased, Held, Dead_lettered} \<longrightarrow> dl_effect d = None)
     \<and> (fenced d \<longrightarrow> dl_lease d \<noteq> None \<and> dl_consumer d \<noteq> None \<and> dl_run d \<noteq> None \<and> dl_completed d = None)
     \<and> (dl_state d = Scheduled \<longleftrightarrow> dl_next d \<noteq> None)
     \<and> (dl_state d = Scheduled \<and> dl_completed d \<noteq> None \<longrightarrow> dl_attempt d < dl_max d)
     \<and> (dl_state d = Ready \<longrightarrow> dl_completed d = None)"

definition rows_ok :: "delivery list \<Rightarrow> message list \<Rightarrow> uuid \<Rightarrow> bool" where
  "rows_ok ds ms nx \<longleftrightarrow>
     distinct (map dl_id ds) \<and> distinct (map ms_id ms)
     \<and> (\<forall>m\<in>set ms. ms_id m < nx)
     \<and> (\<forall>d\<in>set ds. row_ok d \<and> dl_id d < nx \<and> dl_chain d < nx
          \<and> (\<exists>m\<in>set ms. ms_id m = dl_message d \<and> ms_ws m = dl_ws d \<and> ms_queue m = dl_queue d)
          \<and> (\<exists>e\<in>set ds. dl_current e \<and> dl_message e = dl_message d))
     \<and> (\<forall>d\<in>set ds. \<forall>e\<in>set ds.
          (dl_current d \<and> dl_current e \<and> dl_message d = dl_message e \<longrightarrow> d = e)
          \<and> (dl_chain d = dl_chain e \<and> dl_attempt d = dl_attempt e \<longrightarrow> d = e)
          \<and> (dl_current d \<and> dl_chain e = dl_chain d \<longrightarrow> dl_attempt e \<le> dl_attempt d
               \<and> dl_message e = dl_message d))"

definition undelivered :: "delivery list \<Rightarrow> message \<Rightarrow> bool" where
  "undelivered ds m \<longleftrightarrow> (\<forall>d\<in>set ds. dl_message d \<noteq> ms_id m)"

definition here :: "delivery \<Rightarrow> uuid \<Rightarrow> string \<Rightarrow> nat \<Rightarrow> bool" where
  "here d w n i \<longleftrightarrow> dl_ws d = w \<and> dl_queue d = n \<and> dl_msg d = i"

definition sync_ok ::
  "time option at_place \<Rightarrow> bool at_place \<Rightarrow> delivery list \<Rightarrow> message list \<Rightarrow> bool" where
  "sync_ok vt iss ds ms \<longleftrightarrow>
     (\<forall>d\<in>set ds. dl_current d \<and> dispatchable d \<longrightarrow>
        (\<exists>v. vt (dl_ws d) (dl_queue d) (dl_msg d) = Some v
             \<and> (fenced d \<longrightarrow> (\<exists>l. dl_lease d = Some l \<and> l \<le> v))))
     \<and> (\<forall>w n i. vt w n i \<noteq> None \<longrightarrow>
        (\<exists>d\<in>set ds. dl_current d \<and> dispatchable d \<and> here d w n i)
        \<or> (\<exists>m\<in>set ms. undelivered ds m \<and> ms_ws m = w \<and> ms_queue m = n \<and> ms_msg m = i))
     \<and> (\<forall>d\<in>set ds. \<forall>e\<in>set ds. dl_current d \<and> dl_current e
          \<and> here d (dl_ws e) (dl_queue e) (dl_msg e) \<longrightarrow> d = e)
     \<and> (\<forall>m\<in>set ms. undelivered ds m \<longrightarrow> vt (ms_ws m) (ms_queue m) (ms_msg m) \<noteq> None
          \<and> (\<forall>d\<in>set ds. \<not> here d (ms_ws m) (ms_queue m) (ms_msg m)))
     \<and> (\<forall>m\<in>set ms. \<forall>k\<in>set ms. ms_ws m = ms_ws k \<and> ms_queue m = ms_queue k \<and> ms_msg m = ms_msg k \<longrightarrow> m = k)
     \<and> (\<forall>m\<in>set ms. iss (ms_ws m) (ms_queue m) (ms_msg m))
     \<and> (\<forall>d\<in>set ds. iss (dl_ws d) (dl_queue d) (dl_msg d))"

definition effects_ok :: "effect list \<Rightarrow> delivery list \<Rightarrow> bool" where
  "effects_ok es ds \<longleftrightarrow>
     distinct (map ef_message es)
     \<and> (\<forall>e\<in>set es. \<exists>d\<in>set ds. dl_id d = ef_origin e \<and> dl_message d = ef_message e
           \<and> dl_ws d = ef_ws e \<and> dl_queue d = ef_queue e)
     \<and> (\<forall>d\<in>set ds. dl_current d \<longrightarrow>
           (dl_effect d \<noteq> None \<longleftrightarrow> (\<exists>e\<in>set es. ef_message e = dl_message d \<and> \<not> ef_reset e)))"

definition ledger_ok :: "ledger \<Rightarrow> bool" where
  "ledger_ok s \<longleftrightarrow> queues_ok s
     \<and> (\<forall>m\<in>set (lg_messages s). physical_queue s (ms_ws m) (ms_queue m) \<noteq> None)
     \<and> rows_ok (lg_deliveries s) (lg_messages s) (lg_next s)
     \<and> sync_ok (lg_vt s) (lg_issued s) (lg_deliveries s) (lg_messages s)
     \<and> effects_ok (lg_effects s) (lg_deliveries s)"

section \<open>Rewriting a row in place\<close>

definition same_place :: "delivery \<Rightarrow> delivery \<Rightarrow> bool" where
  "same_place d d' \<longleftrightarrow> dl_id d' = dl_id d \<and> dl_ws d' = dl_ws d \<and> dl_queue d' = dl_queue d
     \<and> dl_message d' = dl_message d \<and> dl_msg d' = dl_msg d \<and> dl_chain d' = dl_chain d
     \<and> dl_attempt d' = dl_attempt d \<and> dl_current d' = dl_current d"

lemma tput_member:
  assumes "distinct (map dl_id ds)" "d \<in> set ds" "dl_id d' = dl_id d"
  shows "set (tput dl_id d' ds) = insert d' (set ds - {d})"
  using assms by (fastforce simp: set_tput distinct_map inj_on_def)

lemma rows_ok_put:
  assumes "rows_ok ds ms nx" "d \<in> set ds" "same_place d d'" "row_ok d'"
  shows "rows_ok (tput dl_id d' ds) ms nx"
proof -
  have D: "distinct (map dl_id ds)" using assms(1) by (simp add: rows_ok_def)
  note S = tput_member [OF D assms(2), of d']
  have sp: "dl_id d' = dl_id d" "dl_ws d' = dl_ws d" "dl_queue d' = dl_queue d"
    "dl_message d' = dl_message d" "dl_chain d' = dl_chain d" "dl_attempt d' = dl_attempt d"
    "dl_current d' = dl_current d"
    using assms(3) by (auto simp: same_place_def)
  note S = S [OF sp(1)]
  have cur: "\<exists>e\<in>set (tput dl_id d' ds). dl_current e \<and> dl_message e = dl_message x"
    if "x \<in> set ds" for x
  proof -
    obtain e where e: "e \<in> set ds" "dl_current e" "dl_message e = dl_message x"
      using assms(1) \<open>x \<in> set ds\<close> unfolding rows_ok_def by blast
    have "(if e = d then d' else e) \<in> set (tput dl_id d' ds)" using S e(1) by simp
    then show ?thesis by (rule rev_bexI) (use e sp in \<open>cases "e = d"; simp\<close>)
  qed
  have r: "row_ok x \<and> dl_id x < nx \<and> dl_chain x < nx
          \<and> (\<exists>m\<in>set ms. ms_id m = dl_message x \<and> ms_ws m = dl_ws x \<and> ms_queue m = dl_queue x)
          \<and> (\<exists>e\<in>set (tput dl_id d' ds). dl_current e \<and> dl_message e = dl_message x)"
    if "x \<in> set (tput dl_id d' ds)" for x
  proof (cases "x = d'")
    case True
    then show ?thesis using assms(1,2,4) sp cur [of d] unfolding rows_ok_def by simp
  next
    case False
    then have "x \<in> set ds" using that S by auto
    then show ?thesis using assms(1) cur unfolding rows_ok_def by blast
  qed
  have orig: "\<exists>y\<in>set ds. (x = d' \<and> y = d \<or> x \<noteq> d' \<and> x = y \<and> y \<noteq> d) \<and> dl_current y = dl_current x \<and> dl_message y = dl_message x
      \<and> dl_chain y = dl_chain x \<and> dl_attempt y = dl_attempt x"
    if "x \<in> set (tput dl_id d' ds)" for x
  proof (cases "x = d'")
    case True
    then show ?thesis using assms(2) sp by (intro bexI [of _ d]) simp_all
  next
    case False
    then have "x \<in> set ds" "x \<noteq> d" using that S by simp_all
    then show ?thesis using False by (intro bexI [of _ x]) simp_all
  qed
  have u: "(dl_current x \<and> dl_current e \<and> dl_message x = dl_message e \<longrightarrow> x = e)
          \<and> (dl_chain x = dl_chain e \<and> dl_attempt x = dl_attempt e \<longrightarrow> x = e)
          \<and> (dl_current x \<and> dl_chain e = dl_chain x \<longrightarrow> dl_attempt e \<le> dl_attempt x
               \<and> dl_message e = dl_message x)"
    if xe: "x \<in> set (tput dl_id d' ds)" "e \<in> set (tput dl_id d' ds)" for x e
  proof -
    obtain y where y: "y \<in> set ds" "x = d' \<and> y = d \<or> x \<noteq> d' \<and> x = y \<and> y \<noteq> d" "dl_current y = dl_current x"
      "dl_message y = dl_message x" "dl_chain y = dl_chain x" "dl_attempt y = dl_attempt x"
      using orig [OF xe(1)] by blast
    obtain f where f: "f \<in> set ds" "e = d' \<and> f = d \<or> e \<noteq> d' \<and> e = f \<and> f \<noteq> d" "dl_current f = dl_current e"
      "dl_message f = dl_message e" "dl_chain f = dl_chain e" "dl_attempt f = dl_attempt e"
      using orig [OF xe(2)] by blast
    have "(dl_current y \<and> dl_current f \<and> dl_message y = dl_message f \<longrightarrow> y = f)
          \<and> (dl_chain y = dl_chain f \<and> dl_attempt y = dl_attempt f \<longrightarrow> y = f)
          \<and> (dl_current y \<and> dl_chain f = dl_chain y \<longrightarrow> dl_attempt f \<le> dl_attempt y
               \<and> dl_message f = dl_message y)"
      using assms(1) y(1) f(1) unfolding rows_ok_def by blast
    moreover have "y = f \<longleftrightarrow> x = e" using y(2) f(2) by blast
    ultimately show ?thesis using y f by simp
  qed
  have "distinct (map dl_id (tput dl_id d' ds))" using D by simp
  then show ?thesis using assms(1) r u unfolding rows_ok_def by blast
qed

lemma sync_okI:
  assumes "\<And>d. d \<in> set ds \<Longrightarrow> dl_current d \<and> dispatchable d \<Longrightarrow>
        \<exists>v. vt (dl_ws d) (dl_queue d) (dl_msg d) = Some v
             \<and> (fenced d \<longrightarrow> (\<exists>l. dl_lease d = Some l \<and> l \<le> v))"
    and "\<And>w n i. vt w n i \<noteq> None \<Longrightarrow>
        (\<exists>d\<in>set ds. dl_current d \<and> dispatchable d \<and> here d w n i)
        \<or> (\<exists>m\<in>set ms. undelivered ds m \<and> ms_ws m = w \<and> ms_queue m = n \<and> ms_msg m = i)"
    and "\<And>d e. d \<in> set ds \<Longrightarrow> e \<in> set ds \<Longrightarrow> dl_current d \<and> dl_current e
          \<and> here d (dl_ws e) (dl_queue e) (dl_msg e) \<Longrightarrow> d = e"
    and "\<And>m. m \<in> set ms \<Longrightarrow> undelivered ds m \<Longrightarrow> vt (ms_ws m) (ms_queue m) (ms_msg m) \<noteq> None
          \<and> (\<forall>d\<in>set ds. \<not> here d (ms_ws m) (ms_queue m) (ms_msg m))"
    and "\<And>m k. m \<in> set ms \<Longrightarrow> k \<in> set ms \<Longrightarrow>
          ms_ws m = ms_ws k \<and> ms_queue m = ms_queue k \<and> ms_msg m = ms_msg k \<Longrightarrow> m = k"
    and "\<And>m. m \<in> set ms \<Longrightarrow> iss (ms_ws m) (ms_queue m) (ms_msg m)"
    and "\<And>d. d \<in> set ds \<Longrightarrow> iss (dl_ws d) (dl_queue d) (dl_msg d)"
  shows "sync_ok vt iss ds ms"
  unfolding sync_ok_def
proof (intro conjI)
  show "\<forall>w n i. vt w n i \<noteq> None \<longrightarrow>
        (\<exists>d\<in>set ds. dl_current d \<and> dispatchable d \<and> here d w n i)
        \<or> (\<exists>m\<in>set ms. undelivered ds m \<and> ms_ws m = w \<and> ms_queue m = n \<and> ms_msg m = i)"
    using assms(2) by blast
qed (use assms(1,3-7) in blast)+

lemma sync_okD:
  assumes "sync_ok vt iss ds ms"
  shows "\<And>d. d \<in> set ds \<Longrightarrow> dl_current d \<Longrightarrow> dispatchable d \<Longrightarrow>
        \<exists>v. vt (dl_ws d) (dl_queue d) (dl_msg d) = Some v
             \<and> (fenced d \<longrightarrow> (\<exists>l. dl_lease d = Some l \<and> l \<le> v))"
    and "\<And>w n i. vt w n i \<noteq> None \<Longrightarrow>
        (\<exists>d\<in>set ds. dl_current d \<and> dispatchable d \<and> here d w n i)
        \<or> (\<exists>m\<in>set ms. undelivered ds m \<and> ms_ws m = w \<and> ms_queue m = n \<and> ms_msg m = i)"
    and "\<And>d e. d \<in> set ds \<Longrightarrow> e \<in> set ds \<Longrightarrow> dl_current d \<Longrightarrow> dl_current e
          \<Longrightarrow> here d (dl_ws e) (dl_queue e) (dl_msg e) \<Longrightarrow> d = e"
    and "\<And>m. m \<in> set ms \<Longrightarrow> undelivered ds m \<Longrightarrow> vt (ms_ws m) (ms_queue m) (ms_msg m) \<noteq> None"
    and "\<And>m d. m \<in> set ms \<Longrightarrow> undelivered ds m \<Longrightarrow> d \<in> set ds \<Longrightarrow> \<not> here d (ms_ws m) (ms_queue m) (ms_msg m)"
    and "\<And>m k. m \<in> set ms \<Longrightarrow> k \<in> set ms \<Longrightarrow>
          ms_ws m = ms_ws k \<Longrightarrow> ms_queue m = ms_queue k \<Longrightarrow> ms_msg m = ms_msg k \<Longrightarrow> m = k"
    and "\<And>m. m \<in> set ms \<Longrightarrow> iss (ms_ws m) (ms_queue m) (ms_msg m)"
    and "\<And>d. d \<in> set ds \<Longrightarrow> iss (dl_ws d) (dl_queue d) (dl_msg d)"
  using assms unfolding sync_ok_def by blast+

lemma undelivered_put:
  assumes "distinct (map dl_id ds)" "d \<in> set ds" "same_place d d'"
  shows "undelivered (tput dl_id d' ds) m \<longleftrightarrow> undelivered ds m"
proof -
  have "set (tput dl_id d' ds) = insert d' (set ds - {d})"
    using tput_member assms by (auto simp: same_place_def)
  then show ?thesis using assms(2,3) by (auto simp: undelivered_def same_place_def)
qed

lemma sync_ok_put:
  assumes ok: "sync_ok vt iss ds ms" and D: "distinct (map dl_id ds)"
    and d: "d \<in> set ds" "dl_current d" and sp: "same_place d d'"
    and x: "dispatchable d' \<longleftrightarrow> x \<noteq> None"
    and fence: "fenced d' \<Longrightarrow> \<exists>l v. dl_lease d' = Some l \<and> x = Some v \<and> l \<le> v"
  shows "sync_ok (at_upd vt (dl_ws d) (dl_queue d) (dl_msg d) x) iss (tput dl_id d' ds) ms"
proof -
  let ?vt = "at_upd vt (dl_ws d) (dl_queue d) (dl_msg d) x"
  have S: "set (tput dl_id d' ds) = insert d' (set ds - {d})"
    using tput_member [OF D d(1)] sp by (simp add: same_place_def)
  have U: "undelivered (tput dl_id d' ds) m = undelivered ds m" for m
    using undelivered_put [OF D d(1) sp] .
  have P: "dl_ws d' = dl_ws d" "dl_queue d' = dl_queue d" "dl_msg d' = dl_msg d" "dl_current d'"
    using sp d by (auto simp: same_place_def)
  have one: "e = d" if "e \<in> set ds" "dl_current e" "here e (dl_ws d) (dl_queue d) (dl_msg d)" for e
    using ok d that unfolding sync_ok_def by blast
  have other: "\<not> (dl_ws e = dl_ws d \<and> dl_queue e = dl_queue d \<and> dl_msg e = dl_msg d)"
    if "e \<in> set ds - {d}" "dl_current e" for e
    using one that by (auto simp: here_def)
  have 1: "\<exists>v. ?vt (dl_ws e) (dl_queue e) (dl_msg e) = Some v
             \<and> (fenced e \<longrightarrow> (\<exists>l. dl_lease e = Some l \<and> l \<le> v))"
    if e: "e \<in> set (tput dl_id d' ds)" "dl_current e \<and> dispatchable e" for e
  proof (cases "e = d'")
    case True
    then show ?thesis using x fence e(2) P by (cases "fenced d'") auto
  next
    case False
    then have "e \<in> set ds - {d}" using e S by auto
    then show ?thesis using other e(2) ok unfolding sync_ok_def at_upd_apply by auto
  qed
  have 2: "(\<exists>e\<in>set (tput dl_id d' ds). dl_current e \<and> dispatchable e \<and> here e w n i)
        \<or> (\<exists>m\<in>set ms. undelivered ds m \<and> ms_ws m = w \<and> ms_queue m = n \<and> ms_msg m = i)"
    if v: "?vt w n i \<noteq> None" for w n i
  proof (cases "here d w n i")
    case True
    then have "here d' w n i" "dispatchable d'" using v P x by (auto simp: here_def)
    then show ?thesis using S P by blast
  next
    case False
    then have "vt w n i \<noteq> None" using v by (auto simp: here_def split: if_splits)
    then consider e where "e \<in> set ds" "dl_current e" "dispatchable e" "here e w n i"
      | "\<exists>m\<in>set ms. undelivered ds m \<and> ms_ws m = w \<and> ms_queue m = n \<and> ms_msg m = i"
      using ok unfolding sync_ok_def by blast
    then show ?thesis
    proof cases
      case (1 e)
      then have "e \<noteq> d" using False by blast
      then show ?thesis using 1 S by blast
    qed blast
  qed
  have 3: "a = b" if "a \<in> set (tput dl_id d' ds)" "b \<in> set (tput dl_id d' ds)"
    "dl_current a \<and> dl_current b \<and> here a (dl_ws b) (dl_queue b) (dl_msg b)" for a b
  proof -
    have "a = d' \<or> a \<in> set ds - {d}" "b = d' \<or> b \<in> set ds - {d}" using that S by auto
    moreover have "a = b" if "a \<in> set ds" "b \<in> set ds"
      using ok that \<open>dl_current a \<and> _\<close> unfolding sync_ok_def by blast
    moreover have "here a (dl_ws d) (dl_queue d) (dl_msg d)" if "b = d'" using that P \<open>_ \<and> _ \<and> here a _ _ _\<close> by simp
    moreover have "here b (dl_ws d) (dl_queue d) (dl_msg d)" if "a = d'" using that P \<open>_ \<and> _ \<and> here a _ _ _\<close> by (simp add: here_def)
    ultimately show ?thesis using one that(3) by blast
  qed
  have 4: "?vt (ms_ws m) (ms_queue m) (ms_msg m) \<noteq> None
          \<and> (\<forall>e\<in>set (tput dl_id d' ds). \<not> here e (ms_ws m) (ms_queue m) (ms_msg m))"
    if m: "m \<in> set ms" "undelivered ds m" for m
  proof -
    have o: "vt (ms_ws m) (ms_queue m) (ms_msg m) \<noteq> None" "\<forall>e\<in>set ds. \<not> here e (ms_ws m) (ms_queue m) (ms_msg m)"
      using ok m unfolding sync_ok_def by blast+
    then have "\<not> here d (ms_ws m) (ms_queue m) (ms_msg m)" using d by blast
    then show ?thesis using o S P by (auto simp: here_def)
  qed
  have 7: "\<forall>e\<in>set (tput dl_id d' ds). iss (dl_ws e) (dl_queue e) (dl_msg e)"
    using ok d P unfolding sync_ok_def S by simp
  show ?thesis
  proof (rule sync_okI)
    fix e assume "e \<in> set (tput dl_id d' ds)" "dl_current e \<and> dispatchable e"
    then show "\<exists>v. ?vt (dl_ws e) (dl_queue e) (dl_msg e) = Some v
             \<and> (fenced e \<longrightarrow> (\<exists>l. dl_lease e = Some l \<and> l \<le> v))" by (rule 1)
  next
    fix w n i assume "?vt w n i \<noteq> None"
    then show "(\<exists>e\<in>set (tput dl_id d' ds). dl_current e \<and> dispatchable e \<and> here e w n i)
        \<or> (\<exists>m\<in>set ms. undelivered (tput dl_id d' ds) m \<and> ms_ws m = w \<and> ms_queue m = n \<and> ms_msg m = i)"
      unfolding U by (rule 2)
  next
    fix m assume "m \<in> set ms" "undelivered (tput dl_id d' ds) m"
    then show "?vt (ms_ws m) (ms_queue m) (ms_msg m) \<noteq> None
          \<and> (\<forall>e\<in>set (tput dl_id d' ds). \<not> here e (ms_ws m) (ms_queue m) (ms_msg m))"
      unfolding U by (rule 4)
  qed (use 3 7 sync_okD(6,7) [OF ok] in blast)+
qed

lemma effects_ok_put:
  assumes ok: "effects_ok es ds" and D: "distinct (map dl_id ds)"
    and d: "d \<in> set ds" and sp: "same_place d d'"
    and e: "dl_current d' \<Longrightarrow> dl_effect d' \<noteq> None \<longleftrightarrow> (\<exists>e\<in>set es. ef_message e = dl_message d \<and> \<not> ef_reset e)"
  shows "effects_ok es (tput dl_id d' ds)"
proof -
  have P: "dl_id d' = dl_id d" "dl_ws d' = dl_ws d" "dl_queue d' = dl_queue d" "dl_message d' = dl_message d"
    using sp by (auto simp: same_place_def)
  have S: "set (tput dl_id d' ds) = insert d' (set ds - {d})"
    using tput_member [OF D d] P by simp
  have "\<exists>y\<in>set (tput dl_id d' ds). dl_id y = ef_origin x \<and> dl_message y = ef_message x
           \<and> dl_ws y = ef_ws x \<and> dl_queue y = ef_queue x" if "x \<in> set es" for x
  proof -
    obtain y where y: "y \<in> set ds" "dl_id y = ef_origin x" "dl_message y = ef_message x"
      "dl_ws y = ef_ws x" "dl_queue y = ef_queue x"
      using ok \<open>x \<in> set es\<close> unfolding effects_ok_def by blast
    have "(if y = d then d' else y) \<in> set (tput dl_id d' ds)" using S y(1) by simp
    then show ?thesis by (rule rev_bexI) (use y P in \<open>cases "y = d"; simp\<close>)
  qed
  then show ?thesis using ok e P unfolding effects_ok_def S by auto
qed

section \<open>Replacing the current row by a successor\<close>

definition superseded :: "delivery \<Rightarrow> delivery \<Rightarrow> bool" where
  "superseded d d' \<longleftrightarrow> dl_id d' = dl_id d \<and> dl_ws d' = dl_ws d \<and> dl_queue d' = dl_queue d
     \<and> dl_message d' = dl_message d \<and> dl_msg d' = dl_msg d \<and> dl_chain d' = dl_chain d
     \<and> dl_attempt d' = dl_attempt d \<and> \<not> dl_current d'"

definition succeeds :: "delivery \<Rightarrow> uuid \<Rightarrow> delivery \<Rightarrow> bool" where
  "succeeds d nx n \<longleftrightarrow> dl_current n \<and> dl_state n = Ready \<and> dl_ws n = dl_ws d \<and> dl_queue n = dl_queue d
     \<and> dl_message n = dl_message d \<and> nx \<le> dl_id n
     \<and> (dl_chain n = dl_chain d \<and> dl_attempt n = Suc (dl_attempt d) \<or> nx \<le> dl_chain n)"

lemma rows_okD:
  assumes "rows_ok ds ms nx"
  shows "distinct (map dl_id ds)" "distinct (map ms_id ms)"
    and "\<And>m. m \<in> set ms \<Longrightarrow> ms_id m < nx"
    and "\<And>d. d \<in> set ds \<Longrightarrow> row_ok d" "\<And>d. d \<in> set ds \<Longrightarrow> dl_id d < nx" "\<And>d. d \<in> set ds \<Longrightarrow> dl_chain d < nx"
    and "\<And>d. d \<in> set ds \<Longrightarrow> \<exists>m\<in>set ms. ms_id m = dl_message d \<and> ms_ws m = dl_ws d \<and> ms_queue m = dl_queue d"
    and "\<And>d. d \<in> set ds \<Longrightarrow> \<exists>e\<in>set ds. dl_current e \<and> dl_message e = dl_message d"
    and "\<And>d e. d \<in> set ds \<Longrightarrow> e \<in> set ds \<Longrightarrow> dl_current d \<Longrightarrow> dl_current e \<Longrightarrow> dl_message d = dl_message e \<Longrightarrow> d = e"
    and "\<And>d e. d \<in> set ds \<Longrightarrow> e \<in> set ds \<Longrightarrow> dl_chain d = dl_chain e \<Longrightarrow> dl_attempt d = dl_attempt e \<Longrightarrow> d = e"
    and "\<And>d e. d \<in> set ds \<Longrightarrow> e \<in> set ds \<Longrightarrow> dl_current d \<Longrightarrow> dl_chain e = dl_chain d \<Longrightarrow>
            dl_attempt e \<le> dl_attempt d \<and> dl_message e = dl_message d"
  using assms unfolding rows_ok_def by blast+

lemma rows_okI:
  assumes "distinct (map dl_id ds)" "distinct (map ms_id ms)"
    and "\<And>m. m \<in> set ms \<Longrightarrow> ms_id m < nx"
    and "\<And>d. d \<in> set ds \<Longrightarrow> row_ok d \<and> dl_id d < nx \<and> dl_chain d < nx"
    and "\<And>d. d \<in> set ds \<Longrightarrow> \<exists>m\<in>set ms. ms_id m = dl_message d \<and> ms_ws m = dl_ws d \<and> ms_queue m = dl_queue d"
    and "\<And>d. d \<in> set ds \<Longrightarrow> \<exists>e\<in>set ds. dl_current e \<and> dl_message e = dl_message d"
    and "\<And>d e. d \<in> set ds \<Longrightarrow> e \<in> set ds \<Longrightarrow> dl_current d \<Longrightarrow> dl_current e \<Longrightarrow> dl_message d = dl_message e \<Longrightarrow> d = e"
    and "\<And>d e. d \<in> set ds \<Longrightarrow> e \<in> set ds \<Longrightarrow> dl_chain d = dl_chain e \<Longrightarrow> dl_attempt d = dl_attempt e \<Longrightarrow> d = e"
    and "\<And>d e. d \<in> set ds \<Longrightarrow> e \<in> set ds \<Longrightarrow> dl_current d \<Longrightarrow> dl_chain e = dl_chain d \<Longrightarrow>
            dl_attempt e \<le> dl_attempt d \<and> dl_message e = dl_message d"
  shows "rows_ok ds ms nx"
  unfolding rows_ok_def
proof (intro conjI)
  show "\<forall>d\<in>set ds. row_ok d \<and> dl_id d < nx \<and> dl_chain d < nx
          \<and> (\<exists>m\<in>set ms. ms_id m = dl_message d \<and> ms_ws m = dl_ws d \<and> ms_queue m = dl_queue d)
          \<and> (\<exists>e\<in>set ds. dl_current e \<and> dl_message e = dl_message d)"
    using assms(4-6) by blast
  show "\<forall>d\<in>set ds. \<forall>e\<in>set ds.
          (dl_current d \<and> dl_current e \<and> dl_message d = dl_message e \<longrightarrow> d = e)
          \<and> (dl_chain d = dl_chain e \<and> dl_attempt d = dl_attempt e \<longrightarrow> d = e)
          \<and> (dl_current d \<and> dl_chain e = dl_chain d \<longrightarrow> dl_attempt e \<le> dl_attempt d
               \<and> dl_message e = dl_message d)"
    using assms(7-9) by blast
qed (use assms(1-3) in blast)+

lemma superseded_member:
  assumes "distinct (map dl_id ds)" "d \<in> set ds" "superseded d d'"
  shows "set (tput dl_id d' ds @ [n]) = insert n (insert d' (set ds - {d}))"
  using tput_member [OF assms(1,2), of d'] assms(3) by (simp add: superseded_def)

lemma rows_ok_succ:
  assumes ok: "rows_ok ds ms nx" and d: "d \<in> set ds" "dl_current d"
    and o: "superseded d d'" "row_ok d'"
    and n: "succeeds d nx n" "row_ok n" "dl_id n < nx'" "dl_chain n < nx'" "nx \<le> nx'"
  shows "rows_ok (tput dl_id d' ds @ [n]) ms nx'"
proof -
  let ?ds = "tput dl_id d' ds @ [n]"
  note R = rows_okD [OF ok]
  have S: "set ?ds = insert n (insert d' (set ds - {d}))"
    using superseded_member [OF R(1) d(1) o(1)] .
  have O: "dl_id d' = dl_id d" "dl_ws d' = dl_ws d" "dl_queue d' = dl_queue d" "dl_message d' = dl_message d"
    "dl_chain d' = dl_chain d" "dl_attempt d' = dl_attempt d" "\<not> dl_current d'"
    using o(1) by (auto simp: superseded_def)
  have N: "dl_current n" "dl_ws n = dl_ws d" "dl_queue n = dl_queue d" "dl_message n = dl_message d" "nx \<le> dl_id n"
    "dl_chain n = dl_chain d \<and> dl_attempt n = Suc (dl_attempt d) \<or> nx \<le> dl_chain n"
    using n(1) by (auto simp: succeeds_def)
  have old: "\<exists>y\<in>set ds. (x = d' \<and> y = d \<or> x = y \<and> y \<noteq> d \<and> x \<noteq> d') \<and> dl_id x = dl_id y \<and> dl_chain x = dl_chain y
      \<and> dl_attempt x = dl_attempt y \<and> dl_message x = dl_message y \<and> dl_ws x = dl_ws y \<and> dl_queue x = dl_queue y
      \<and> (dl_current x \<longrightarrow> dl_current y \<and> y \<noteq> d)" if "x \<in> set ?ds" "x \<noteq> n" for x
    using that S d(1) O by (cases "x = d'") auto
  show ?thesis
  proof (rule rows_okI)
    show "distinct (map dl_id ?ds)" using R(1) R(5) N(5) by fastforce
    show "distinct (map ms_id ms)" by (rule R(2))
    show "ms_id m < nx'" if "m \<in> set ms" for m using R(3) [OF that] n(5) by simp
    show "row_ok x \<and> dl_id x < nx' \<and> dl_chain x < nx'" if "x \<in> set ?ds" for x
    proof -
      have lt: "dl_id y < nx' \<and> dl_chain y < nx'" if "y \<in> set ds" for y
        using R(5,6) [OF that] n(5) by simp
      have "x = n \<or> x = d' \<or> x \<in> set ds" using that S by auto
      then show ?thesis using n o(2) O R(4) lt d(1) by (elim disjE) simp_all
    qed
    show "\<exists>m\<in>set ms. ms_id m = dl_message x \<and> ms_ws m = dl_ws x \<and> ms_queue m = dl_queue x"
      if "x \<in> set ?ds" for x
    proof -
      have "\<exists>y\<in>set ds. dl_message x = dl_message y \<and> dl_ws x = dl_ws y \<and> dl_queue x = dl_queue y"
        using that old N d(1) by (cases "x = n") blast+
      then show ?thesis using R(7) by fastforce
    qed
    show "\<exists>e\<in>set ?ds. dl_current e \<and> dl_message e = dl_message x" if x: "x \<in> set ?ds" for x
    proof (cases "dl_message x = dl_message d")
      case True
      then show ?thesis using N by auto
    next
      case False
      then have "x \<noteq> n" using N by auto
      then obtain y where "y \<in> set ds" "dl_message y = dl_message x" using old [OF x] by metis
      then obtain e where "e \<in> set ds" "dl_current e" "dl_message e = dl_message x" using R(8) by metis
      moreover from this False have "e \<noteq> d" by auto
      ultimately show ?thesis using S by blast
    qed
    show "x = e" if "x \<in> set ?ds" "e \<in> set ?ds" "dl_current x" "dl_current e" "dl_message x = dl_message e" for x e
    proof -
      have "x = n \<or> x \<in> set ds - {d}" "e = n \<or> e \<in> set ds - {d}" using that S O by auto
      then show ?thesis using R(9) that(3-5) d N by (metis Diff_iff singletonI)
    qed
    show "x = e" if "x \<in> set ?ds" "e \<in> set ?ds" "dl_chain x = dl_chain e" "dl_attempt x = dl_attempt e" for x e
    proof -
      have ne: "\<not> (dl_chain y = dl_chain n \<and> dl_attempt y = dl_attempt n)" if "y \<in> set ds" for y
        using R(6) [OF that] R(11) [OF d(1) that d(2)] N(6) by auto
      show ?thesis
      proof (cases "x = n \<or> e = n")
        case True
        then show ?thesis using ne old that by metis
      next
        case False
        then show ?thesis using old [OF that(1)] old [OF that(2)] R(10) that(3,4) by metis
      qed
    qed
    show "dl_attempt e \<le> dl_attempt x \<and> dl_message e = dl_message x"
      if h: "x \<in> set ?ds" "e \<in> set ?ds" "dl_current x" "dl_chain e = dl_chain x" for x e
    proof (cases "x = n")
      case True
      show ?thesis
      proof (cases "e = n")
        case False
        then obtain y where y: "y \<in> set ds" "dl_chain e = dl_chain y" "dl_attempt e = dl_attempt y" "dl_message e = dl_message y"
          using old [OF h(2)] by blast
        then have "dl_chain y = dl_chain n" using True h(4) by simp
        then have "dl_chain y = dl_chain d" "dl_attempt n = Suc (dl_attempt d)"
          using R(6) [OF y(1)] N(6) by auto
        then show ?thesis using R(11) [OF d(1) y(1) d(2)] y True N by simp
      qed (simp add: True)
    next
      case False
      then obtain y where y: "y \<in> set ds" "y \<noteq> d" "x = y" "dl_current y"
        using old [OF h(1)] h(3) by blast
      show ?thesis
      proof (cases "e = n")
        case True
        then have "dl_chain d = dl_chain y" using N(6) h(4) R(6) [OF y(1)] y by auto
        then have "dl_message d = dl_message y" using R(11) [OF y(1) d(1) y(4)] by simp
        then show ?thesis using R(9) [OF y(1) d(1) y(4) d(2)] y by simp
      next
        case False
        then show ?thesis using old [OF h(2)] R(11) [OF y(1) _ y(4)] h(4) y by metis
      qed
    qed
  qed
qed

lemma undelivered_succ:
  assumes "distinct (map dl_id ds)" "d \<in> set ds" "superseded d d'" "dl_message n = dl_message d"
  shows "undelivered (tput dl_id d' ds @ [n]) m \<longleftrightarrow> undelivered ds m"
  using assms superseded_member [OF assms(1-3), of n] unfolding undelivered_def superseded_def by auto

lemma sync_ok_succ:
  assumes ok: "sync_ok vt iss ds ms" and D: "distinct (map dl_id ds)"
    and d: "d \<in> set ds" "dl_current d" and o: "superseded d d'"
    and n: "succeeds d nx n"
    and free: "\<And>e. e \<in> set ds \<Longrightarrow> e \<noteq> d \<Longrightarrow> dl_current e \<Longrightarrow> \<not> here e (dl_ws d) (dl_queue d) (dl_msg n)"
    and free': "\<And>m. m \<in> set ms \<Longrightarrow> undelivered ds m \<Longrightarrow>
        \<not> (ms_ws m = dl_ws d \<and> ms_queue m = dl_queue d \<and> ms_msg m = dl_msg n)"
    and gone: "dl_msg n = dl_msg d \<or> vt (dl_ws d) (dl_queue d) (dl_msg d) = None"
  shows "sync_ok (at_upd vt (dl_ws d) (dl_queue d) (dl_msg n) (Some v))
           (at_upd iss (dl_ws d) (dl_queue d) (dl_msg n) True) (tput dl_id d' ds @ [n]) ms"
proof -
  let ?vt = "at_upd vt (dl_ws d) (dl_queue d) (dl_msg n) (Some v)"
  let ?ds = "tput dl_id d' ds @ [n]"
  note Y = sync_okD [OF ok]
  have S: "set ?ds = insert n (insert d' (set ds - {d}))" using superseded_member [OF D d(1) o] .
  have N: "dl_current n" "dl_ws n = dl_ws d" "dl_queue n = dl_queue d" "dl_message n = dl_message d" "dl_state n = Ready"
    using n by (auto simp: succeeds_def)
  have O: "dl_ws d' = dl_ws d" "dl_queue d' = dl_queue d" "dl_msg d' = dl_msg d" "\<not> dl_current d'"
    using o by (auto simp: superseded_def)
  have U: "undelivered ?ds m = undelivered ds m" for m using undelivered_succ [OF D d(1) o N(4)] .
  have cur: "x = n \<or> x \<in> set ds \<and> x \<noteq> d" if "x \<in> set ?ds" "dl_current x" for x
    using that S O by auto
  have pl: "\<exists>y\<in>set ds. dl_ws x = dl_ws y \<and> dl_queue x = dl_queue y \<and> dl_msg x = dl_msg y"
    if "x \<in> set ?ds" "x \<noteq> n" for x
    using that S O d(1) by auto
  show ?thesis
  proof (rule sync_okI)
    fix e assume e: "e \<in> set ?ds" "dl_current e \<and> dispatchable e"
    show "\<exists>v. ?vt (dl_ws e) (dl_queue e) (dl_msg e) = Some v
             \<and> (fenced e \<longrightarrow> (\<exists>l. dl_lease e = Some l \<and> l \<le> v))"
    proof (cases "e = n")
      case True
      then show ?thesis using N by (simp add: fenced_def)
    next
      case False
      then have "e \<in> set ds" "e \<noteq> d" using cur e by auto
      then have "\<not> here e (dl_ws d) (dl_queue d) (dl_msg n)" using free e(2) by blast
      then show ?thesis using Y(1) [OF \<open>e \<in> set ds\<close>] e(2) by (auto simp: here_def)
    qed
  next
    fix w m i assume v: "?vt w m i \<noteq> None"
    show "(\<exists>e\<in>set ?ds. dl_current e \<and> dispatchable e \<and> here e w m i)
        \<or> (\<exists>x\<in>set ms. undelivered ?ds x \<and> ms_ws x = w \<and> ms_queue x = m \<and> ms_msg x = i)"
    proof (cases "here n w m i")
      case True
      then show ?thesis using S N by (auto simp: dispatchable_def)
    next
      case False
      then have vt: "vt w m i \<noteq> None" using v N by (auto simp: here_def split: if_splits)
      have "\<not> here d w m i" using vt gone False N by (auto simp: here_def)
      then show ?thesis using Y(2) [OF vt] S unfolding U by blast
    qed
  next
    fix a b assume ab: "a \<in> set ?ds" "b \<in> set ?ds"
      "dl_current a \<and> dl_current b \<and> here a (dl_ws b) (dl_queue b) (dl_msg b)"
    have "a = n \<or> a \<in> set ds \<and> a \<noteq> d" "b = n \<or> b \<in> set ds \<and> b \<noteq> d" using cur ab by auto
    moreover have "here b (dl_ws a) (dl_queue a) (dl_msg a)" using ab(3) by (simp add: here_def)
    ultimately show "a = b" using free Y(3) ab(3) N by metis
  next
    fix m assume m: "m \<in> set ms" "undelivered ?ds m"
    have "\<not> here e (ms_ws m) (ms_queue m) (ms_msg m)" if "e \<in> set ?ds" for e
      using pl [OF that] free' [OF m(1)] m Y(5) [OF m(1)] N unfolding U here_def by metis
    then show "?vt (ms_ws m) (ms_queue m) (ms_msg m) \<noteq> None
          \<and> (\<forall>e\<in>set ?ds. \<not> here e (ms_ws m) (ms_queue m) (ms_msg m))"
      using Y(4) [OF m(1)] m(2) unfolding U by auto
  next
    fix e assume "e \<in> set ?ds"
    then show "at_upd iss (dl_ws d) (dl_queue d) (dl_msg n) True (dl_ws e) (dl_queue e) (dl_msg e)"
      using pl [of e] Y(8) N by (cases "e = n") auto
  qed (use Y(6,7) in auto)
qed

definition unreset :: "effect list \<Rightarrow> uuid \<Rightarrow> bool" where
  "unreset es m \<longleftrightarrow> (\<exists>e\<in>set es. ef_message e = m \<and> \<not> ef_reset e)"

definition same_effects :: "effect list \<Rightarrow> effect list \<Rightarrow> bool" where
  "same_effects es es' \<longleftrightarrow> map (\<lambda>e. (ef_message e, ef_origin e, ef_ws e, ef_queue e)) es'
     = map (\<lambda>e. (ef_message e, ef_origin e, ef_ws e, ef_queue e)) es"

lemma same_effects_refl [simp]: "same_effects es es"
  by (simp add: same_effects_def)

lemma same_effectsD:
  assumes "same_effects es es'"
  shows "map ef_message es' = map ef_message es"
    and "x' \<in> set es' \<Longrightarrow> \<exists>x\<in>set es. ef_message x = ef_message x' \<and> ef_origin x = ef_origin x'
           \<and> ef_ws x = ef_ws x' \<and> ef_queue x = ef_queue x'"
proof -
  have "map fst (map (\<lambda>e. (ef_message e, ef_origin e, ef_ws e, ef_queue e)) es')
      = map fst (map (\<lambda>e. (ef_message e, ef_origin e, ef_ws e, ef_queue e)) es)"
    using assms unfolding same_effects_def by argo
  then show "map ef_message es' = map ef_message es" by (simp add: o_def)
  assume "x' \<in> set es'"
  then have "(ef_message x', ef_origin x', ef_ws x', ef_queue x')
      \<in> set (map (\<lambda>e. (ef_message e, ef_origin e, ef_ws e, ef_queue e)) es)"
    using assms unfolding same_effects_def by (metis (mono_tags, lifting) image_eqI list.set_map)
  then show "\<exists>x\<in>set es. ef_message x = ef_message x' \<and> ef_origin x = ef_origin x'
           \<and> ef_ws x = ef_ws x' \<and> ef_queue x = ef_queue x'" by auto
qed

lemma effects_okD:
  assumes "effects_ok es ds"
  shows "distinct (map ef_message es)"
    and "\<And>e. e \<in> set es \<Longrightarrow> \<exists>d\<in>set ds. dl_id d = ef_origin e \<and> dl_message d = ef_message e
           \<and> dl_ws d = ef_ws e \<and> dl_queue d = ef_queue e"
    and "\<And>d. d \<in> set ds \<Longrightarrow> dl_current d \<Longrightarrow> dl_effect d \<noteq> None \<longleftrightarrow> unreset es (dl_message d)"
  using assms unfolding effects_ok_def unreset_def by blast+

lemma effects_okI:
  assumes "distinct (map ef_message es)"
    and "\<And>e. e \<in> set es \<Longrightarrow> \<exists>d\<in>set ds. dl_id d = ef_origin e \<and> dl_message d = ef_message e
           \<and> dl_ws d = ef_ws e \<and> dl_queue d = ef_queue e"
    and "\<And>d. d \<in> set ds \<Longrightarrow> dl_current d \<Longrightarrow> dl_effect d \<noteq> None \<longleftrightarrow> unreset es (dl_message d)"
  shows "effects_ok es ds"
  using assms unfolding effects_ok_def unreset_def by blast

lemma effects_ok_succ:
  assumes ok: "effects_ok es ds" and D: "distinct (map dl_id ds)" and d: "d \<in> set ds"
    and o: "superseded d d'" and n: "dl_message n = dl_message d" "dl_effect n = None"
    and es: "same_effects es es'" "\<not> unreset es' (dl_message d)"
    and rest: "\<And>m. m \<noteq> dl_message d \<Longrightarrow> unreset es' m = unreset es m"
    and one: "\<And>e. e \<in> set ds \<Longrightarrow> dl_current e \<Longrightarrow> dl_message e = dl_message d \<Longrightarrow> e = d"
  shows "effects_ok es' (tput dl_id d' ds @ [n])"
proof -
  have S: "set (tput dl_id d' ds @ [n]) = insert n (insert d' (set ds - {d}))" using superseded_member [OF D d o] .
  have P: "dl_id d' = dl_id d" "dl_ws d' = dl_ws d" "dl_queue d' = dl_queue d" "dl_message d' = dl_message d"
    "\<not> dl_current d'" using o by (auto simp: superseded_def)
  show ?thesis
  proof (rule effects_okI)
    show "distinct (map ef_message es')"
      using effects_okD(1) [OF ok] same_effectsD(1) [OF es(1)] by simp
  next
    fix x' assume "x' \<in> set es'"
    then obtain x where x: "x \<in> set es" "ef_message x = ef_message x'" "ef_origin x = ef_origin x'"
      "ef_ws x = ef_ws x'" "ef_queue x = ef_queue x'" using same_effectsD(2) [OF es(1)] by blast
    obtain y where y: "y \<in> set ds" "dl_id y = ef_origin x" "dl_message y = ef_message x"
      "dl_ws y = ef_ws x" "dl_queue y = ef_queue x" using effects_okD(2) [OF ok x(1)] by blast
    have "(if y = d then d' else y) \<in> set (tput dl_id d' ds @ [n])" using S y(1) by simp
    then show "\<exists>y\<in>set (tput dl_id d' ds @ [n]). dl_id y = ef_origin x' \<and> dl_message y = ef_message x'
           \<and> dl_ws y = ef_ws x' \<and> dl_queue y = ef_queue x'"
      by (rule rev_bexI) (use x y P in \<open>cases "y = d"; simp\<close>)
  next
    fix e assume e: "e \<in> set (tput dl_id d' ds @ [n])" "dl_current e"
    show "dl_effect e \<noteq> None \<longleftrightarrow> unreset es' (dl_message e)"
    proof (cases "e = n")
      case True
      then show ?thesis using n es(2) by simp
    next
      case False
      then have "e \<in> set ds" "e \<noteq> d" using S P e by auto
      then show ?thesis using effects_okD(3) [OF ok] rest one e(2) by metis
    qed
  qed
qed

section \<open>First Deliveries, new Messages, and visibility alone\<close>

lemma rows_ok_first:
  assumes ok: "rows_ok ds ms nx" and m: "m \<in> set ms" "undelivered ds m"
    and n: "dl_message n = ms_id m" "dl_ws n = ms_ws m" "dl_queue n = ms_queue m" "dl_current n" "row_ok n"
      "nx \<le> dl_id n" "nx \<le> dl_chain n" "dl_id n < nx'" "dl_chain n < nx'"
  shows "rows_ok (ds @ [n]) ms nx'"
proof -
  note R = rows_okD [OF ok]
  have ne: "dl_id e \<noteq> dl_id n" "dl_chain e \<noteq> dl_chain n" "dl_message e \<noteq> dl_message n"
    "dl_id e < nx'" "dl_chain e < nx'" if "e \<in> set ds" for e
    using R(5,6) [OF that] m(2) n that by (auto simp: undelivered_def)
  show ?thesis
  proof (rule rows_okI)
    show "distinct (map dl_id (ds @ [n]))" using R(1) ne(1) by fastforce
    show "row_ok d \<and> dl_id d < nx' \<and> dl_chain d < nx'" if "d \<in> set (ds @ [n])" for d
      using that R(4) ne n by auto
    show "\<exists>m\<in>set ms. ms_id m = dl_message d \<and> ms_ws m = dl_ws d \<and> ms_queue m = dl_queue d"
      if "d \<in> set (ds @ [n])" for d
      using that R(7) m n by auto
    show "\<exists>e\<in>set (ds @ [n]). dl_current e \<and> dl_message e = dl_message d" if "d \<in> set (ds @ [n])" for d
      using that R(8) n by auto
    show "ms_id m < nx'" if "m \<in> set ms" for m using R(3) [OF that] n by simp
    show "d = e" if "d \<in> set (ds @ [n])" "e \<in> set (ds @ [n])" "dl_current d" "dl_current e"
      "dl_message d = dl_message e" for d e
      using that R(9) ne by (metis Un_insert_right append.right_neutral insertE list.set(2) set_append)
    show "d = e" if "d \<in> set (ds @ [n])" "e \<in> set (ds @ [n])" "dl_chain d = dl_chain e"
      "dl_attempt d = dl_attempt e" for d e
      using that R(10) ne by (metis Un_insert_right append.right_neutral insertE list.set(2) set_append)
    show "dl_attempt e \<le> dl_attempt d \<and> dl_message e = dl_message d"
      if "d \<in> set (ds @ [n])" "e \<in> set (ds @ [n])" "dl_current d" "dl_chain e = dl_chain d" for d e
      using that R(11) ne by (metis Un_insert_right append.right_neutral insertE list.set(2) order_refl set_append)
  qed (rule R(2))
qed

lemma sync_ok_first:
  assumes ok: "sync_ok vt iss ds ms" and M: "distinct (map ms_id ms)"
    and m: "m \<in> set ms" "undelivered ds m"
    and n: "dl_message n = ms_id m" "dl_ws n = ms_ws m" "dl_queue n = ms_queue m" "dl_msg n = ms_msg m"
      "dl_current n" "dl_state n = Ready"
  shows "sync_ok vt iss (ds @ [n]) ms"
proof -
  note Y = sync_okD [OF ok]
  have U: "undelivered (ds @ [n]) k \<longleftrightarrow> undelivered ds k \<and> ms_id k \<noteq> ms_id m" for k
    using n by (auto simp: undelivered_def)
  have far: "\<not> here d (ms_ws m) (ms_queue m) (ms_msg m)" if "d \<in> set ds" for d
    using Y(5) [OF m that] .
  have same: "k = m" if "k \<in> set ms" "ms_id k = ms_id m" for k
    using M m(1) that by (auto simp: distinct_map inj_on_def)
  show ?thesis
  proof (rule sync_okI)
    fix d assume d: "d \<in> set (ds @ [n])" "dl_current d \<and> dispatchable d"
    show "\<exists>v. vt (dl_ws d) (dl_queue d) (dl_msg d) = Some v
             \<and> (fenced d \<longrightarrow> (\<exists>l. dl_lease d = Some l \<and> l \<le> v))"
    proof (cases "d = n")
      case True
      then show ?thesis using Y(4) [OF m] n by (auto simp: fenced_def)
    next
      case False
      then show ?thesis using Y(1) d by auto
    qed
  next
    fix w q i assume v: "vt w q i \<noteq> None"
    show "(\<exists>d\<in>set (ds @ [n]). dl_current d \<and> dispatchable d \<and> here d w q i)
        \<or> (\<exists>k\<in>set ms. undelivered (ds @ [n]) k \<and> ms_ws k = w \<and> ms_queue k = q \<and> ms_msg k = i)"
    proof (cases "here n w q i")
      case True
      then show ?thesis using n by (auto simp: dispatchable_def)
    next
      case False
      then show ?thesis using Y(2) [OF v] same n unfolding U here_def
        by (metis UnCI set_append)
    qed
  next
    fix d e assume "d \<in> set (ds @ [n])" "e \<in> set (ds @ [n])"
      "dl_current d \<and> dl_current e \<and> here d (dl_ws e) (dl_queue e) (dl_msg e)"
    then show "d = e" using Y(3) far n by (auto simp: here_def)
  next
    fix k assume k: "k \<in> set ms" "undelivered (ds @ [n]) k"
    then have "k \<noteq> m" unfolding U by auto
    then have "\<not> here n (ms_ws k) (ms_queue k) (ms_msg k)"
      using Y(6) [OF k(1) m(1)] n by (auto simp: here_def)
    then show "vt (ms_ws k) (ms_queue k) (ms_msg k) \<noteq> None
          \<and> (\<forall>d\<in>set (ds @ [n]). \<not> here d (ms_ws k) (ms_queue k) (ms_msg k))"
      using Y(4,5) k unfolding U by auto
  qed (use Y(6,7,8) m n in auto)
qed

lemma effects_ok_first:
  assumes ok: "effects_ok es ds" and m: "undelivered ds m"
    and n: "dl_message n = ms_id m" "dl_effect n = None"
  shows "effects_ok es (ds @ [n])"
proof -
  have "\<not> unreset es (ms_id m)"
    using effects_okD(2) [OF ok] m unfolding unreset_def undelivered_def by metis
  then show ?thesis
    by (intro effects_okI) (use effects_okD [OF ok] n in \<open>auto\<close>)
qed

lemma rows_ok_message:
  assumes "rows_ok ds ms nx" "nx \<le> ms_id m" "ms_id m < nx'"
  shows "rows_ok ds (ms @ [m]) nx'"
proof -
  note R = rows_okD [OF assms(1)]
  have lt: "a < nx'" if "a < nx" for a using that assms by simp
  have "ms_id k \<noteq> ms_id m" if "k \<in> set ms" for k using R(3) [OF that] assms by simp
  then have "distinct (map ms_id (ms @ [m]))" using R(2) by fastforce
  then show ?thesis
  proof (intro rows_okI)
    show "\<exists>k\<in>set (ms @ [m]). ms_id k = dl_message d \<and> ms_ws k = dl_ws d \<and> ms_queue k = dl_queue d"
      if "d \<in> set ds" for d
      using R(7) [OF that] by auto
    show "ms_id k < nx'" if "k \<in> set (ms @ [m])" for k
      using that R(3) lt assms(3) by auto
    show "row_ok d \<and> dl_id d < nx' \<and> dl_chain d < nx'" if "d \<in> set ds" for d
      using R(4-6) [OF that] lt by simp
  qed (use R(1) R(8-11) in blast)+
qed

lemma sync_ok_message:
  assumes ok: "sync_ok vt iss ds ms" and rows: "rows_ok ds ms nx"
    and m: "nx \<le> ms_id m" "\<not> iss (ms_ws m) (ms_queue m) (ms_msg m)"
  shows "sync_ok (at_upd vt (ms_ws m) (ms_queue m) (ms_msg m) (Some v))
           (at_upd iss (ms_ws m) (ms_queue m) (ms_msg m) True) ds (ms @ [m])"
proof -
  note Y = sync_okD [OF ok] and R = rows_okD [OF rows]
  have new: "undelivered ds m" unfolding undelivered_def
  proof
    fix d assume "d \<in> set ds"
    then obtain k where "k \<in> set ms" "ms_id k = dl_message d" using R(7) by blast
    then show "dl_message d \<noteq> ms_id m" using R(3) m(1) by fastforce
  qed
  have far: "\<not> here d (ms_ws m) (ms_queue m) (ms_msg m)" if "d \<in> set ds" for d
    using Y(8) [OF that] m(2) by (auto simp: here_def)
  have farm: "\<not> (ms_ws k = ms_ws m \<and> ms_queue k = ms_queue m \<and> ms_msg k = ms_msg m)" if "k \<in> set ms" for k
    using Y(7) [OF that] m(2) by metis
  show ?thesis
  proof (rule sync_okI)
    fix d assume d: "d \<in> set ds" "dl_current d \<and> dispatchable d"
    show "\<exists>x. at_upd vt (ms_ws m) (ms_queue m) (ms_msg m) (Some v) (dl_ws d) (dl_queue d) (dl_msg d) = Some x
             \<and> (fenced d \<longrightarrow> (\<exists>l. dl_lease d = Some l \<and> l \<le> x))"
      using Y(1) [OF d(1)] d(2) far [OF d(1)] by (auto simp: here_def)
  next
    fix w q i assume v: "at_upd vt (ms_ws m) (ms_queue m) (ms_msg m) (Some v) w q i \<noteq> None"
    then have "w = ms_ws m \<and> q = ms_queue m \<and> i = ms_msg m \<or> vt w q i \<noteq> None" by (auto split: if_splits)
    then show "(\<exists>d\<in>set ds. dl_current d \<and> dispatchable d \<and> here d w q i)
        \<or> (\<exists>k\<in>set (ms @ [m]). undelivered ds k \<and> ms_ws k = w \<and> ms_queue k = q \<and> ms_msg k = i)"
      using Y(2) [of w q i] new by auto
  next
    fix k assume "k \<in> set (ms @ [m])" "undelivered ds k"
    then show "at_upd vt (ms_ws m) (ms_queue m) (ms_msg m) (Some v) (ms_ws k) (ms_queue k) (ms_msg k) \<noteq> None
          \<and> (\<forall>d\<in>set ds. \<not> here d (ms_ws k) (ms_queue k) (ms_msg k))"
      using Y(4,5) far by auto
  next
    fix j k assume "j \<in> set (ms @ [m])" "k \<in> set (ms @ [m])"
      "ms_ws j = ms_ws k \<and> ms_queue j = ms_queue k \<and> ms_msg j = ms_msg k"
    then show "j = k" using Y(6) farm by auto metis+
  qed (use Y(3,7,8) in auto)
qed

lemma sync_ok_vt:
  assumes ok: "sync_ok vt iss ds ms" and v: "vt w q i \<noteq> None"
    and f: "\<And>d. d \<in> set ds \<Longrightarrow> dl_current d \<Longrightarrow> fenced d \<Longrightarrow> here d w q i \<Longrightarrow> \<exists>l. dl_lease d = Some l \<and> l \<le> x"
  shows "sync_ok (at_upd vt w q i (Some x)) iss ds ms"
proof -
  note Y = sync_okD [OF ok]
  show ?thesis
  proof (rule sync_okI)
    fix d assume d: "d \<in> set ds" "dl_current d \<and> dispatchable d"
    show "\<exists>y. at_upd vt w q i (Some x) (dl_ws d) (dl_queue d) (dl_msg d) = Some y
             \<and> (fenced d \<longrightarrow> (\<exists>l. dl_lease d = Some l \<and> l \<le> y))"
      using Y(1) [OF d(1)] d f [OF d(1)] by (auto simp: here_def)
  next
    fix a b c assume "at_upd vt w q i (Some x) a b c \<noteq> None"
    then have "vt a b c \<noteq> None" using v by (auto split: if_splits)
    then show "(\<exists>d\<in>set ds. dl_current d \<and> dispatchable d \<and> here d a b c)
        \<or> (\<exists>k\<in>set ms. undelivered ds k \<and> ms_ws k = a \<and> ms_queue k = b \<and> ms_msg k = c)"
      by (rule Y(2))
  qed (use Y(3-8) in auto)
qed

end
