(* ===== verification/LedgerSteps.thy ===== *)
theory LedgerSteps
  imports LedgerInv
begin

text \<open>Every operation on the ledger keeps \<open>ledger_ok\<close>: one lemma per operation, over four
  lemmas on how the ledger is written.\<close>

lemma lg_view_cong:
  assumes "lg_queues s' = lg_queues s"
  shows "physical_queue s' = physical_queue s"
    and "lg_pgmq s' = lg_pgmq s \<Longrightarrow> lg_vt s' = lg_vt s \<and> lg_issued s' = lg_issued s \<and> lg_body s' = lg_body s
           \<and> queues_ok s' = queues_ok s"
proof -
  show p: "physical_queue s' = physical_queue s"
    using assms by (intro ext) (simp add: physical_queue_def queue_of_def)
  assume "lg_pgmq s' = lg_pgmq s"
  then show "lg_vt s' = lg_vt s \<and> lg_issued s' = lg_issued s \<and> lg_body s' = lg_body s
           \<and> queues_ok s' = queues_ok s"
    using p assms
    by (intro conjI ext) (simp_all add: lg_vt_def lg_issued_def lg_body_def lg_table_def queues_ok_def)
qed

lemma ledger_okD:
  assumes "ledger_ok s"
  shows "queues_ok s"
    and "\<And>m. m \<in> set (lg_messages s) \<Longrightarrow> \<exists>p. physical_queue s (ms_ws m) (ms_queue m) = Some p"
    and "rows_ok (lg_deliveries s) (lg_messages s) (lg_next s)"
    and "sync_ok (lg_vt s) (lg_issued s) (lg_deliveries s) (lg_messages s)"
    and "effects_ok (lg_effects s) (lg_deliveries s)"
  using assms by (auto simp: ledger_ok_def)

lemma delivery_queue:
  assumes "ledger_ok s" "d \<in> set (lg_deliveries s)"
  obtains p where "physical_queue s (dl_ws d) (dl_queue d) = Some p"
  using ledger_okD(2) [OF assms(1)] rows_okD(7) [OF ledger_okD(3) [OF assms(1)] assms(2)] that by metis

text \<open>Writing the current row in place, together with a change of its visibility.\<close>

lemma ledger_ok_put:
  assumes ok: "ledger_ok s" and d: "d \<in> set (lg_deliveries s)" "dl_current d"
    and s1: "s1 = s\<lparr>lg_pgmq := P\<rparr>" "queues_ok s1"
      "lg_vt s1 = at_upd (lg_vt s) (dl_ws d) (dl_queue d) (dl_msg d) x" "lg_issued s1 = lg_issued s"
    and d': "same_place d d'" "row_ok d'" "dispatchable d' \<longleftrightarrow> x \<noteq> None"
      "fenced d' \<Longrightarrow> \<exists>l v. dl_lease d' = Some l \<and> x = Some v \<and> l \<le> v"
    and es: "effects_ok es (tput dl_id d' (lg_deliveries s))"
    and s': "s' = s1\<lparr>lg_deliveries := tput dl_id d' (lg_deliveries s), lg_effects := es\<rparr>"
  shows "ledger_ok s'"
proof -
  note L = ledger_okD [OF ok] and R = rows_okD [OF ledger_okD(3) [OF ok]]
  have V: "lg_vt s' = lg_vt s1" "lg_issued s' = lg_issued s1" "queues_ok s' = queues_ok s1"
    using lg_view_cong(2) [of s' s1] s' by simp_all
  have Q: "physical_queue s' = physical_queue s"
    using lg_view_cong(1) [of s' s] s' s1 by simp
  have "rows_ok (tput dl_id d' (lg_deliveries s)) (lg_messages s) (lg_next s)"
    by (rule rows_ok_put [OF L(3) d(1) d'(1,2)])
  moreover have "sync_ok (at_upd (lg_vt s) (dl_ws d) (dl_queue d) (dl_msg d) x) (lg_issued s)
      (tput dl_id d' (lg_deliveries s)) (lg_messages s)"
    by (rule sync_ok_put [OF L(4) R(1) d d'(1,3,4)])
  ultimately show ?thesis
    using L(2) V Q s1 es unfolding ledger_ok_def s' by simp
qed

lemma effects_same:
  assumes "ledger_ok s" "d \<in> set (lg_deliveries s)" "same_place d d'" "dl_effect d' = dl_effect d" "dl_current d"
  shows "effects_ok (lg_effects s) (tput dl_id d' (lg_deliveries s))"
proof (rule effects_ok_put [OF ledger_okD(5) [OF assms(1)] rows_okD(1) [OF ledger_okD(3) [OF assms(1)]] assms(2,3)])
  show "dl_effect d' \<noteq> None \<longleftrightarrow> (\<exists>e\<in>set (lg_effects s). ef_message e = dl_message d \<and> \<not> ef_reset e)"
    using effects_okD(3) [OF ledger_okD(5) [OF assms(1)] assms(2,5)] assms(4) by (simp add: unreset_def)
qed

lemma put_delivery_eq:
  "put_delivery d' s1 = s1\<lparr>lg_deliveries := tput dl_id d' (lg_deliveries s1), lg_effects := lg_effects s1\<rparr>"
  by (simp add: put_delivery_def)

text \<open>The row stays dispatchable and its message is hidden until \<open>v\<close>.\<close>

lemma ledger_ok_hide:
  assumes ok: "ledger_ok s" and d: "d \<in> set (lg_deliveries s)" "dl_current d"
    and p: "physical_queue s (dl_ws d) (dl_queue d) = Some p"
    and h: "hide_until p (dl_msg d) (Some v) s = Inr s1"
    and d': "same_place d d'" "row_ok d'" "dispatchable d'" "dl_effect d' = dl_effect d"
      "fenced d' \<Longrightarrow> \<exists>l. dl_lease d' = Some l \<and> l \<le> v"
  shows "ledger_ok (put_delivery d' s1) \<and> (\<exists>P. s1 = s\<lparr>lg_pgmq := P\<rparr>)"
proof -
  obtain v' P where P: "Some v = Some v'" "s1 = s\<lparr>lg_pgmq := P\<rparr>" "queues_ok s1"
    "lg_vt s1 = at_upd (lg_vt s) (dl_ws d) (dl_queue d) (dl_msg d) (Some v')" "lg_issued s1 = lg_issued s"
    by (rule hide_until_ok [OF ledger_okD(1) [OF ok] p h]) blast
  have "ledger_ok (put_delivery d' s1)"
  proof (rule ledger_ok_put [OF ok d P(2-5) d'(1,2)])
    show "effects_ok (lg_effects s) (tput dl_id d' (lg_deliveries s))"
      by (rule effects_same [OF ok d(1) d'(1,4) d(2)])
    show "put_delivery d' s1 = s1\<lparr>lg_deliveries := tput dl_id d' (lg_deliveries s), lg_effects := lg_effects s\<rparr>"
      using P(2) by (simp add: put_delivery_def)
  qed (use d'(3,5) P(1) in auto)
  then show ?thesis using P(2) by blast
qed

text \<open>The row leaves dispatch and its message is archived.\<close>

lemma ledger_ok_retire:
  assumes ok: "ledger_ok s" and d: "d \<in> set (lg_deliveries s)" "dl_current d"
    and p: "physical_queue s (dl_ws d) (dl_queue d) = Some p"
    and h: "retire p (dl_msg d) s = Inr s1"
    and d': "same_place d d'" "row_ok d'" "\<not> dispatchable d'" "dl_effect d' = dl_effect d"
  shows "ledger_ok (put_delivery d' s1) \<and> (\<exists>P. s1 = s\<lparr>lg_pgmq := P\<rparr>)"
proof -
  obtain P where P: "s1 = s\<lparr>lg_pgmq := P\<rparr>" "queues_ok s1"
    "lg_vt s1 = at_upd (lg_vt s) (dl_ws d) (dl_queue d) (dl_msg d) None" "lg_issued s1 = lg_issued s"
    by (rule retire_ok [OF ledger_okD(1) [OF ok] p h]) blast
  have "ledger_ok (put_delivery d' s1)"
  proof (rule ledger_ok_put [OF ok d P d'(1,2)])
    show "effects_ok (lg_effects s) (tput dl_id d' (lg_deliveries s))"
      by (rule effects_same [OF ok d(1) d'(1,4) d(2)])
    show "put_delivery d' s1 = s1\<lparr>lg_deliveries := tput dl_id d' (lg_deliveries s), lg_effects := lg_effects s\<rparr>"
      using P(1) by (simp add: put_delivery_def)
  qed (use d'(3) in \<open>auto simp: fenced_def dispatchable_def\<close>)
  then show ?thesis using P(1) by blast
qed

text \<open>A current row out of dispatch has no live message.\<close>

lemma not_dispatchable_gone:
  assumes "ledger_ok s" "d \<in> set (lg_deliveries s)" "dl_current d" "\<not> dispatchable d"
  shows "lg_vt s (dl_ws d) (dl_queue d) (dl_msg d) = None"
proof (rule ccontr)
  note Y = sync_okD [OF ledger_okD(4) [OF assms(1)]]
  assume "lg_vt s (dl_ws d) (dl_queue d) (dl_msg d) \<noteq> None"
  then consider e where "e \<in> set (lg_deliveries s)" "dl_current e" "dispatchable e" "here e (dl_ws d) (dl_queue d) (dl_msg d)"
    | m where "m \<in> set (lg_messages s)" "undelivered (lg_deliveries s) m"
        "ms_ws m = dl_ws d \<and> ms_queue m = dl_queue d \<and> ms_msg m = dl_msg d"
    using Y(2) by blast
  then show False
  proof cases
    case (1 e)
    then show False using Y(3) [OF 1(1) assms(2) 1(2) assms(3)] assms(4) by simp
  next
    case (2 m)
    then show False using Y(5) [OF 2(1,2) assms(2)] by (simp add: here_def)
  qed
qed

section \<open>Settling\<close>

lemma settled_same_place: "same_place d (settled now v d)"
  by (simp add: same_place_def settled_def)

lemma settled_row_ok:
  assumes "row_ok d" "fenced d" "v \<noteq> Renew"
  shows "row_ok (settled now v d)"
    and "dispatchable (settled now v d) \<longleftrightarrow> settled_state v d = Scheduled"
    and "settled_state v d = Scheduled \<Longrightarrow> settled_next now v d \<noteq> None"
  using assms
  by (auto simp: row_ok_def settled_def settled_state_def settled_next_def fenced_def dispatchable_def
      split: if_splits)

lemma settle_ok:
  assumes ok: "ledger_ok s" and d: "d \<in> set (lg_deliveries s)" "dl_current d" "fenced d"
    and v: "v \<noteq> Renew" and st: "settle now v d s = Inr (d', s')"
  shows "ledger_ok s' \<and> d' = settled now v d \<and> (\<exists>P. s' = put_delivery d' (s\<lparr>lg_pgmq := P\<rparr>))"
proof -
  obtain p where p: "physical_queue s (dl_ws d) (dl_queue d) = Some p" using delivery_queue [OF ok d(1)] .
  have r: "row_ok d" using rows_okD(4) [OF ledger_okD(3) [OF ok] d(1)] .
  note R = settled_row_ok [OF r d(3) v, of now]
  show ?thesis
  proof (cases "settled_state v d = Scheduled")
    case True
    then obtain nx where nx: "settled_next now v d = Some nx" using R(3) by blast
    obtain s1 where s1: "hide_until p (dl_msg d) (Some nx) s = Inr s1" "d' = settled now v d"
      "s' = put_delivery (settled now v d) s1"
      using st p True nx by (auto simp: settle_def ebind_Inr_iff)
    have "ledger_ok s' \<and> (\<exists>P. s1 = s\<lparr>lg_pgmq := P\<rparr>)" unfolding s1(3)
      by (rule ledger_ok_hide [OF ok d(1,2) p s1(1) settled_same_place R(1)])
        (use True R(2) in \<open>auto simp: settled_def fenced_def\<close>)
    then show ?thesis using s1 by blast
  next
    case False
    then obtain s1 where s1: "retire p (dl_msg d) s = Inr s1" "d' = settled now v d"
      "s' = put_delivery (settled now v d) s1"
      using st p by (auto simp: settle_def ebind_Inr_iff)
    have "ledger_ok s' \<and> (\<exists>P. s1 = s\<lparr>lg_pgmq := P\<rparr>)" unfolding s1(3)
      by (rule ledger_ok_retire [OF ok d(1,2) p s1(1) settled_same_place R(1)])
        (use False R(2) in \<open>auto simp: settled_def\<close>)
    then show ?thesis using s1 by blast
  qed
qed

text \<open>On a well-formed ledger settling a fenced row always succeeds.\<close>

lemma settle_total:
  assumes ok: "ledger_ok s" and d: "d \<in> set (lg_deliveries s)" "dl_current d" "fenced d" and v: "v \<noteq> Renew"
  shows "\<exists>s'. settle now v d s = Inr (settled now v d, s')"
proof -
  obtain p where p: "physical_queue s (dl_ws d) (dl_queue d) = Some p" using delivery_queue [OF ok d(1)] .
  have r: "row_ok d" using rows_okD(4) [OF ledger_okD(3) [OF ok] d(1)] .
  have disp: "dispatchable d" using d(3) by (auto simp: fenced_def dispatchable_def)
  have vt: "lg_vt s (dl_ws d) (dl_queue d) (dl_msg d) \<noteq> None"
    using sync_okD(1) [OF ledger_okD(4) [OF ok] d(1,2) disp] by auto
  have nx: "settled_state v d = Scheduled \<Longrightarrow> \<exists>n. settled_next now v d = Some n"
    using settled_row_ok(3) [OF r d(3) v] by blast
  note T = hide_until_total [OF ledger_okD(1) [OF ok] p vt] retire_total [OF ledger_okD(1) [OF ok] p vt]
  show ?thesis
  proof (cases "settled_state v d = Scheduled")
    case True
    then obtain n where n: "settled_next now v d = Some n" using nx by blast
    then obtain s1 where "hide_until p (dl_msg d) (Some n) s = Inr s1" using T(1) by blast
    then show ?thesis using True n p by (simp add: settle_def)
  next
    case False
    then show ?thesis using T(2) p by (auto simp: settle_def)
  qed
qed

section \<open>Receipts\<close>

lemma fenced_deliveryD:
  assumes "fenced_delivery E w i receipt s = Inr d"
  shows "d \<in> set (lg_deliveries s)" "dl_ws d = w" "dl_id d = i" "dl_current d" "fenced d"
    "receipt = dl_receipt d" "\<not> expired_lease (en_now E) d"
    "\<exists>c. queue_context E w = Inr c \<and> dl_consumer d = bc_principal c \<and> dl_run d = bc_run c"
  using assms
  by (auto simp: fenced_delivery_def ebind_Inr_iff fenced_def delivery_in_def find_Some_iff in_set_conv_nth
      split: option.splits)

lemma dl_row: "ledger_ok s \<Longrightarrow> d \<in> set (lg_deliveries s) \<Longrightarrow> row_ok d"
  using rows_okD(4) [OF ledger_okD(3)] by blast

lemma receipt_verb_ok:
  assumes ok: "ledger_ok s" and v: "v \<noteq> Expire" and r: "receipt_verb E w i receipt v s = Inr (x, s')"
  shows "ledger_ok s'"
proof -
  obtain d where f: "fenced_delivery E w i receipt s = Inr d"
    using r by (auto simp: receipt_verb_def ebind_Inr_iff)
  note F = fenced_deliveryD [OF f]
  show ?thesis
  proof (cases "v = Renew")
    case False
    then have "settle (en_now E) v d s = Inr (fst x, s')"
      using r f by (auto simp: receipt_verb_def ebind_Inr_iff Let_def split: if_splits)
    then show ?thesis using settle_ok [OF ok F(1,4,5) False] by blast
  next
    case True
    let ?t = "en_now E + seconds 30"
    let ?d' = "d\<lparr>dl_lease := Some ?t\<rparr>"
    obtain p where p: "physical_queue s w (dl_queue d) = Some p" using delivery_queue [OF ok F(1)] F(2) by blast
    obtain s1 where h: "hide_until p (dl_msg d) (Some ?t) s = Inr s1" "s' = put_delivery ?d' s1"
      using r f p True by (auto simp: receipt_verb_def ebind_Inr_iff Let_def)
    show ?thesis unfolding h(2)
      by (rule conjunct1, rule ledger_ok_hide [OF ok F(1,4) _ h(1)])
        (use p F(2,5) dl_row [OF ok F(1)] in \<open>auto simp: same_place_def row_ok_def fenced_def dispatchable_def\<close>)
  qed
qed

lemma hold_ok:
  assumes ok: "ledger_ok s" and r: "hold E w i receipt s = Inr (x, s')"
  shows "ledger_ok s'"
proof -
  obtain c d where f: "fenced_delivery E w i receipt s = Inr d" and e: "dl_effect d = None"
    and c: "queue_context E w = Inr c"
    using r by (auto simp: hold_def ebind_Inr_iff)
  note F = fenced_deliveryD [OF f]
  let ?d' = "d\<lparr>dl_state := Held, dl_receipt := None, dl_held_by := bc_principal c,
                dl_held_at := Some (en_now E), dl_completed := Some (en_now E), dl_next := None\<rparr>"
  obtain p where p: "physical_queue s w (dl_queue d) = Some p" using delivery_queue [OF ok F(1)] F(2) by blast
  obtain s1 where h: "retire p (dl_msg d) s = Inr s1" "s' = put_delivery ?d' s1"
    using r f p c by (auto simp: hold_def ebind_Inr_iff Let_def)
  show ?thesis unfolding h(2)
    by (rule conjunct1, rule ledger_ok_retire [OF ok F(1,4) _ h(1)])
      (use p e F(2,5) dl_row [OF ok F(1)] in \<open>auto simp: same_place_def row_ok_def fenced_def dispatchable_def\<close>)
qed

section \<open>Effects\<close>

lemma current_unique:
  assumes "ledger_ok s" "d \<in> set (lg_deliveries s)" "e \<in> set (lg_deliveries s)"
    "dl_current d" "dl_current e" "dl_message d = dl_message e"
  shows "d = e"
  using rows_okD(9) [OF ledger_okD(3) [OF assms(1)] assms(2,3)] assms by blast

lemma effects_ok_start:
  assumes ok: "ledger_ok s" and d: "d \<in> set (lg_deliveries s)" "dl_current d"
    and d': "same_place d d'" "dl_effect d' \<noteq> None"
    and es: "distinct (map ef_message es)"
      "\<And>e. e \<in> set es \<Longrightarrow> (\<exists>x\<in>set (lg_effects s). ef_message x = ef_message e \<and> ef_origin x = ef_origin e
           \<and> ef_ws x = ef_ws e \<and> ef_queue x = ef_queue e)
         \<or> ef_message e = dl_message d \<and> ef_origin e = dl_id d \<and> ef_ws e = dl_ws d \<and> ef_queue e = dl_queue d"
      "\<And>m. unreset es m \<longleftrightarrow> unreset (lg_effects s) m \<or> m = dl_message d"
  shows "effects_ok es (tput dl_id d' (lg_deliveries s))"
proof (rule effects_okI)
  note E = effects_okD [OF ledger_okD(5) [OF ok]]
  have P: "dl_id d' = dl_id d" "dl_ws d' = dl_ws d" "dl_queue d' = dl_queue d" "dl_message d' = dl_message d"
    using d'(1) by (auto simp: same_place_def)
  have S: "set (tput dl_id d' (lg_deliveries s)) = insert d' (set (lg_deliveries s) - {d})"
    using tput_member [OF rows_okD(1) [OF ledger_okD(3) [OF ok]] d(1) P(1)] .
  show "distinct (map ef_message es)" by (rule es(1))
  show "\<exists>y\<in>set (tput dl_id d' (lg_deliveries s)). dl_id y = ef_origin e \<and> dl_message y = ef_message e
           \<and> dl_ws y = ef_ws e \<and> dl_queue y = ef_queue e" if e: "e \<in> set es" for e
  proof -
    obtain y where y: "y \<in> set (lg_deliveries s)" "dl_id y = ef_origin e" "dl_message y = ef_message e"
      "dl_ws y = ef_ws e" "dl_queue y = ef_queue e"
      using es(2) [OF e] E(2) d(1) by metis
    have "(if y = d then d' else y) \<in> set (tput dl_id d' (lg_deliveries s))" using S y(1) by simp
    then show ?thesis by (rule rev_bexI) (use y P in \<open>cases "y = d"; simp\<close>)
  qed
  show "dl_effect x \<noteq> None \<longleftrightarrow> unreset es (dl_message x)"
    if x: "x \<in> set (tput dl_id d' (lg_deliveries s))" "dl_current x" for x
  proof (cases "x = d'")
    case True
    then show ?thesis using d'(2) P es(3) by simp
  next
    case False
    then have "x \<in> set (lg_deliveries s)" "x \<noteq> d" using S x by auto
    then have "dl_message x \<noteq> dl_message d" using current_unique [OF ok _ d(1) x(2) d(2)] by blast
    then show ?thesis using es(3) E(3) [OF \<open>x \<in> set (lg_deliveries s)\<close> x(2)] by simp
  qed
qed

lemma vt_self:
  "f w n i = Some v \<Longrightarrow> at_upd f w n i (Some v) = f"
  by (intro ext) auto

lemma start_row_ok:
  assumes "row_ok d" "fenced d"
  shows "row_ok (start_effect now d)" "dispatchable (start_effect now d)"
    "dl_lease (start_effect now d) = dl_lease d"
proof -
  have "dl_state d = Leased \<or> dl_state d = Begun" using assms(2) by (auto simp: fenced_def)
  then show "row_ok (start_effect now d)"
    using assms(1) by (elim disjE) (simp_all add: row_ok_def start_effect_def fenced_def)
qed (simp_all add: start_effect_def dispatchable_def)

lemma ledger_ok_start:
  assumes ok: "ledger_ok s" and d: "d \<in> set (lg_deliveries s)" "dl_current d" "fenced d"
    and es: "effects_ok es (tput dl_id (start_effect now d) (lg_deliveries s))"
  shows "ledger_ok (put_delivery (start_effect now d) (s\<lparr>lg_effects := es\<rparr>))"
proof -
  have disp: "dispatchable d" using d(3) by (auto simp: fenced_def dispatchable_def)
  obtain v where v: "lg_vt s (dl_ws d) (dl_queue d) (dl_msg d) = Some v" "\<exists>l. dl_lease d = Some l \<and> l \<le> v"
    using sync_okD(1) [OF ledger_okD(4) [OF ok] d(1,2) disp] d(3) by blast
  let ?d' = "start_effect now d"
  have P: "same_place d ?d'" by (simp add: start_effect_def same_place_def)
  have r: "row_ok ?d'" "dispatchable ?d'" "dl_lease ?d' = dl_lease d"
    using start_row_ok [OF dl_row [OF ok d(1)] d(3)] by simp_all
  show ?thesis
  proof (rule ledger_ok_put [where ?s1.0 = s and P = "lg_pgmq s" and x = "Some v", OF ok d(1,2)])
    show "lg_vt s = at_upd (lg_vt s) (dl_ws d) (dl_queue d) (dl_msg d) (Some v)"
      using vt_self [of "lg_vt s", OF v(1)] by simp
    show "dispatchable ?d' \<longleftrightarrow> Some v \<noteq> None" using r(2) by simp
    show "\<exists>l x. dl_lease ?d' = Some l \<and> Some v = Some x \<and> l \<le> x" using v(2) r(3) by simp
    show "put_delivery ?d' (s\<lparr>lg_effects := es\<rparr>)
        = s\<lparr>lg_deliveries := tput dl_id ?d' (lg_deliveries s), lg_effects := es\<rparr>"
      by (simp add: put_delivery_def)
  qed (use ledger_okD(1) [OF ok] P r es in simp_all)
qed

lemma effect_of_None: "effect_of s m = None \<longleftrightarrow> (\<forall>e\<in>set (lg_effects s). ef_message e \<noteq> m)"
  by (simp add: effect_of_def tget_None_iff)

lemma begin_effect_ok:
  assumes ok: "ledger_ok s" and r: "begin_effect sha E w i receipt action destination s = Inr (x, s')"
  shows "ledger_ok s'"
proof -
  obtain d a t where f: "fenced_delivery E w i receipt s = Inr d"
    and at: "action = Some a" "destination = Some t"
    using r by (auto simp: begin_effect_def ebind_Inr_iff split: option.splits)
  note F = fenced_deliveryD [OF f]
  note E = effects_okD [OF ledger_okD(5) [OF ok]]
  let ?d' = "start_effect (en_now E) d"
  have sp: "same_place d ?d'" "dl_effect ?d' \<noteq> None" by (simp_all add: start_effect_def same_place_def)
  show ?thesis
  proof (cases "effect_of s (dl_message d)")
    case None
    let ?e = "\<lparr>ef_ws = w, ef_queue = dl_queue d, ef_message = dl_message d,
               ef_origin = dl_id d, ef_key = effect_key sha w a t, ef_reset = False\<rparr>"
    have s': "s' = put_delivery ?d' (s\<lparr>lg_effects := lg_effects s @ [?e]\<rparr>)"
      using r f at None by (auto simp: begin_effect_def Let_def)
    have "effects_ok (lg_effects s @ [?e]) (tput dl_id ?d' (lg_deliveries s))"
    proof (rule effects_ok_start [OF ok F(1,4) sp])
      show "distinct (map ef_message (lg_effects s @ [?e]))"
        using E(1) None by (auto simp: effect_of_None)
    qed (use F(2) in \<open>auto simp: unreset_def\<close>)
    then show ?thesis unfolding s' by (rule ledger_ok_start [OF ok F(1,4,5)])
  next
    case (Some e)
    show ?thesis
    proof (cases "ef_reset e")
      case True
      let ?es = "tput ef_message (e\<lparr>ef_reset := False\<rparr>) (lg_effects s)"
      have s': "s' = put_delivery ?d' (s\<lparr>lg_effects := ?es\<rparr>)"
        using r f at Some True by (auto simp: begin_effect_def Let_def)
      have e: "e \<in> set (lg_effects s)" "ef_message e = dl_message d"
        using Some by (auto simp: effect_of_def dest: tget_SomeD)
      have S: "set ?es = insert (e\<lparr>ef_reset := False\<rparr>) {x \<in> set (lg_effects s). ef_message x \<noteq> dl_message d}"
        using e imageI [OF e(1), of ef_message] by (simp add: set_tput)
      have "effects_ok ?es (tput dl_id ?d' (lg_deliveries s))"
      proof (rule effects_ok_start [OF ok F(1,4) sp])
        show "distinct (map ef_message ?es)" using E(1) by simp
        show "unreset ?es m \<longleftrightarrow> unreset (lg_effects s) m \<or> m = dl_message d" for m
          using e unfolding unreset_def S by auto
        show "(\<exists>x\<in>set (lg_effects s). ef_message x = ef_message y \<and> ef_origin x = ef_origin y
           \<and> ef_ws x = ef_ws y \<and> ef_queue x = ef_queue y)
         \<or> ef_message y = dl_message d \<and> ef_origin y = dl_id d \<and> ef_ws y = dl_ws d \<and> ef_queue y = dl_queue d"
          if "y \<in> set ?es" for y
          using that e unfolding S by (cases "y = e\<lparr>ef_reset := False\<rparr>") force+
      qed
      then show ?thesis unfolding s' by (rule ledger_ok_start [OF ok F(1,4,5)])
    next
      case False
      then show ?thesis using r f at Some ok by (auto simp: begin_effect_def Let_def)
    qed
  qed
qed

lemma pause_all_ok:
  assumes "ledger_ok s" "\<And>d. d \<in> set ds \<Longrightarrow> d \<in> set (lg_deliveries s) \<and> dl_current d \<and> dl_state d = Begun"
    and "distinct (map dl_id ds)" "pause_all now ds s = Inr (evs, s')"
  shows "ledger_ok s'"
  using assms
proof (induction ds arbitrary: s evs)
  case (Cons d ds)
  note ok = Cons.prems(1)
  have d: "d \<in> set (lg_deliveries s)" "dl_current d" "dl_state d = Begun" using Cons.prems(2) by auto
  obtain p where p: "physical_queue s (dl_ws d) (dl_queue d) = Some p" using delivery_queue [OF ok d(1)] .
  obtain s1 evs' where h: "retire p (dl_msg d) s = Inr s1"
    "pause_all now ds (put_delivery (paused now d) s1) = Inr (evs', s')"
    using Cons.prems(4) p by (auto simp: ebind_Inr_iff)
  have sp: "same_place d (paused now d)" by (simp add: same_place_def paused_def)
  have k: "ledger_ok (put_delivery (paused now d) s1) \<and> (\<exists>P. s1 = s\<lparr>lg_pgmq := P\<rparr>)"
    by (rule ledger_ok_retire [OF ok d(1,2) p h(1) sp])
      (use d dl_row [OF ok d(1)] in \<open>simp_all add: paused_def row_ok_def fenced_def dispatchable_def\<close>)
  show ?case
  proof (rule Cons.IH [OF _ _ _ h(2)])
    fix x assume x: "x \<in> set ds"
    then have "dl_id x \<noteq> dl_id d" using Cons.prems(3) by (metis distinct.simps(2) imageI list.set_map list.simps(9))
    then show "x \<in> set (lg_deliveries (put_delivery (paused now d) s1)) \<and> dl_current x \<and> dl_state x = Begun"
      using k Cons.prems(2) [of x] x by (auto simp: put_delivery_def in_set_tput paused_def)
  qed (use k Cons.prems(3) in simp_all)
qed simp

lemma distinct_ids:
  assumes "ledger_ok s"
  shows "distinct (map dl_id (filter P (lg_deliveries s)))"
  using rows_okD(1) [OF ledger_okD(3) [OF assms]] by (rule distinct_map_filter)

lemma distinct_map_sort_key:
  "distinct (map f (sort_key g xs)) = distinct (map f xs)"
  by (simp add: distinct_map)

lemma pause_effects_ok:
  assumes ok: "ledger_ok s" and r: "pause_effects E w p s = Inr (evs, s')"
  shows "ledger_ok s'"
proof -
  have "pause_all (en_now E) (pausable w p s) s = Inr (evs, s')"
    using r by (auto simp: pause_effects_def split: option.splits)
  then show ?thesis
    by (rule pause_all_ok [OF ok, rotated 2])
      (use distinct_ids [OF ok] in \<open>auto simp: pausable_def distinct_map_sort_key\<close>)
qed

section \<open>Redispatch, cancellation, first Deliveries\<close>

lemma insert_deliveryD:
  assumes "insert_delivery now w n m i ch parent attempt mx s = (d, s')"
  shows "dl_ws d = w" "dl_queue d = n" "dl_message d = m" "dl_msg d = i" "dl_parent d = parent"
    "dl_attempt d = attempt" "dl_max d = mx" "dl_current d" "dl_state d = Ready" "dl_effect d = None"
    "dl_receipt d = None" "dl_next d = None" "dl_completed d = None"
    "lg_next s \<le> dl_id d" "dl_id d < lg_next s'" "lg_next s \<le> lg_next s'"
    "ch = Some c \<Longrightarrow> dl_chain d = c"
    "ch = None \<Longrightarrow> lg_next s \<le> dl_chain d \<and> dl_chain d < lg_next s'"
    "s' = s\<lparr>lg_deliveries := lg_deliveries s @ [d], lg_next := lg_next s'\<rparr>"
  using assms by (auto simp: insert_delivery_def draw_uuid_def Let_def add_delivery_def split: option.splits)

lemma fresh_row_ok: "dl_state d = Ready \<Longrightarrow> dl_effect d = None \<Longrightarrow> dl_receipt d = None \<Longrightarrow> dl_next d = None
    \<Longrightarrow> dl_completed d = None \<Longrightarrow> 1 \<le> dl_attempt d \<Longrightarrow> dl_attempt d \<le> dl_max d \<Longrightarrow> dl_max d = 5 \<Longrightarrow> row_ok d"
  by (simp add: row_ok_def fenced_def)

lemma supersede_row_ok: "row_ok d \<Longrightarrow> row_ok (d\<lparr>dl_current := False\<rparr>)"
  by (cases "dl_state d") (auto simp: row_ok_def fenced_def)

text \<open>Sending the payload again: the old row stops being current, the new one has a fresh
  message id and a fresh chain.\<close>

lemma resend_ok:
  assumes ok: "ledger_ok s" and d: "d \<in> set (lg_deliveries s)" "dl_current d" "\<not> dispatchable d" "dl_ws d = w"
    and old: "superseded d old" "row_ok old"
    and r: "resend now w d old body s = Inr (n, s')"
    and es: "same_effects (lg_effects s) es" "\<not> unreset es (dl_message d)"
      "\<And>m. m \<noteq> dl_message d \<Longrightarrow> unreset es m = unreset (lg_effects s) m"
  shows "ledger_ok (s'\<lparr>lg_effects := es\<rparr>) \<and> dl_message n = dl_message d \<and> dl_parent n = Some (dl_id d)
      \<and> dl_state n = Ready \<and> dl_attempt n = 1 \<and> lg_effects s' = lg_effects s \<and> lg_recons s' = lg_recons s
      \<and> n \<in> set (lg_deliveries s') \<and> dl_current n
      \<and> lg_deliveries s' = tput dl_id old (lg_deliveries s) @ [n]"
proof -
  note L = ledger_okD [OF ok] and R = rows_okD [OF ledger_okD(3) [OF ok]] and Y = sync_okD [OF ledger_okD(4) [OF ok]]
  obtain p where p: "physical_queue s w (dl_queue d) = Some p" using delivery_queue [OF ok d(1)] d(4) by blast
  obtain mid P where sent: "with_table p (pq_send now body) s = Inr (mid, s\<lparr>lg_pgmq := P\<rparr>)"
    "queues_ok (s\<lparr>lg_pgmq := P\<rparr>)" "\<not> lg_issued s w (dl_queue d) mid"
    "lg_vt (s\<lparr>lg_pgmq := P\<rparr>) = at_upd (lg_vt s) w (dl_queue d) mid (Some now)"
    "lg_issued (s\<lparr>lg_pgmq := P\<rparr>) = at_upd (lg_issued s) w (dl_queue d) mid True"
    by (rule send_ok [OF L(1) p]) blast
  let ?s1 = "put_delivery old (s\<lparr>lg_pgmq := P\<rparr>)"
  have ins: "insert_delivery now w (dl_queue d) (dl_message d) mid None (Some (dl_id d)) 1 5 ?s1 = (n, s')"
    using r p sent(1) by (simp add: resend_def)
  note I = insert_deliveryD [OF ins]
  let ?s' = "s'\<lparr>lg_effects := es\<rparr>"
  let ?ds = "tput dl_id old (lg_deliveries s) @ [n]"
  have N: "succeeds d (lg_next s) n" "row_ok n" "dl_id n < lg_next s'" "dl_chain n < lg_next s'"
    "lg_next s \<le> lg_next s'"
    using I fresh_row_ok [of n] d(4) by (auto simp: succeeds_def put_delivery_def)
  have F: "lg_queues s' = lg_queues s" "lg_pgmq s' = P" "lg_messages s' = lg_messages s" "lg_deliveries s' = ?ds"
    "lg_effects s' = lg_effects s" "lg_recons s' = lg_recons s"
    by (subst I(19), simp add: put_delivery_def)+
  have V: "lg_vt ?s' = lg_vt (s\<lparr>lg_pgmq := P\<rparr>)" "lg_issued ?s' = lg_issued (s\<lparr>lg_pgmq := P\<rparr>)"
    "queues_ok ?s' = queues_ok (s\<lparr>lg_pgmq := P\<rparr>)" "physical_queue ?s' = physical_queue s"
    using lg_view_cong [of ?s' "s\<lparr>lg_pgmq := P\<rparr>"] lg_view_cong(1) [of ?s' s] F by simp_all
  have issued: "\<not> here e w (dl_queue d) mid" if "e \<in> set (lg_deliveries s)" for e
    using Y(8) [OF that] sent(3) by (auto simp: here_def)
  have issued': "\<not> (ms_ws m = w \<and> ms_queue m = dl_queue d \<and> ms_msg m = mid)" if "m \<in> set (lg_messages s)" for m
    using Y(7) [OF that] sent(3) by auto
  have "rows_ok ?ds (lg_messages s) (lg_next s')"
    by (rule rows_ok_succ [OF L(3) d(1,2) old N])
  moreover have "sync_ok (at_upd (lg_vt s) w (dl_queue d) mid (Some now))
      (at_upd (lg_issued s) w (dl_queue d) mid True) ?ds (lg_messages s)"
    using sync_ok_succ [OF L(4) R(1) d(1,2) old(1) N(1), of now] issued issued' not_dispatchable_gone [OF ok d(1-3)]
    by (simp add: I(4) d(4))
  moreover have "effects_ok es ?ds"
    by (rule effects_ok_succ [OF L(5) R(1) d(1) old(1) I(3,10) es])
      (assumption | rule current_unique [OF ok _ d(1) _ d(2)])+
  ultimately have "ledger_ok ?s'"
    using L(2) V sent F unfolding ledger_ok_def by simp
  then show ?thesis using F I by simp
qed

lemma superseded_current: "superseded d (d\<lparr>dl_current := False\<rparr>)"
  by (simp add: superseded_def)

lemma delivery_inD: "delivery_in s w i = Some d \<Longrightarrow> d \<in> set (lg_deliveries s) \<and> dl_ws d = w \<and> dl_id d = i"
  by (auto simp: delivery_in_def find_Some_iff in_set_conv_nth)

lemma redispatch_targetD:
  assumes "redispatch_target E w i k s = Inr d"
  shows "d \<in> set (lg_deliveries s)" "dl_ws d = w" "dl_id d = i" "dl_current d"
  using assms
  by (auto simp: redispatch_target_def locked_delivery_def ebind_Inr_iff dest: delivery_inD
      split: option.splits if_splits)

lemma unreset_effect_iff: "unreset_effect s m \<longleftrightarrow> unreset (lg_effects s) m"
  by (auto simp: unreset_effect_def unreset_def list_ex_iff)

lemma redispatch_ok:
  assumes ok: "ledger_ok s" and r: "redispatch E w i st k s = Inr (x, s')"
    and st: "st \<in> {Dead_lettered, Held}"
  shows "ledger_ok s'"
proof -
  obtain d body n where t: "redispatch_target E w i k s = Inr d"
    and g: "dl_state d = st" "\<not> unreset_effect s (dl_message d)"
    and n: "resend (en_now E) w d (d\<lparr>dl_current := False\<rparr>) body s = Inr (n, s')"
    using r by (auto simp: redispatch_def ebind_Inr_iff split: option.splits)
  note T = redispatch_targetD [OF t]
  have "\<not> dispatchable d" using g(1) st by (auto simp: dispatchable_def)
  then have "ledger_ok (s'\<lparr>lg_effects := lg_effects s\<rparr>) \<and> lg_effects s' = lg_effects s"
    using resend_ok [OF ok T(1,4) _ T(2) superseded_current supersede_row_ok [OF dl_row [OF ok T(1)]] n same_effects_refl]
      g(2) by (simp add: unreset_effect_iff)
  then show ?thesis by (metis ledger.surjective ledger.update_convs(4))
qed

lemma cancelled_row_ok: "row_ok d \<Longrightarrow> row_ok (cancelled now d)"
  by (simp add: row_ok_def cancelled_def fenced_def)

lemma cancel_ok:
  assumes ok: "ledger_ok s" and r: "cancel E w i force reason s = Inr (x, s')"
  shows "ledger_ok s'"
proof -
  obtain d rs where t: "locked_delivery E w i True s = Inr d" and rs: "reason = Some rs"
    using r by (auto simp: cancel_def ebind_Inr_iff split: option.splits)
  have D: "d \<in> set (lg_deliveries s)" "dl_ws d = w" "dl_current d"
    using t by (auto simp: locked_delivery_def ebind_Inr_iff dest: delivery_inD split: option.splits if_splits)
  obtain p where p: "physical_queue s (dl_ws d) (dl_queue d) = Some p" using delivery_queue [OF ok D(1)] .
  obtain s1 where h: "retire p (dl_msg d) s = Inr s1" "s' = put_delivery (cancelled (en_now E) d) s1"
    using r t rs p D(2) by (auto simp: cancel_def ebind_Inr_iff Let_def)
  show ?thesis unfolding h(2)
    by (rule conjunct1, rule ledger_ok_retire [OF ok D(1,3) p h(1)])
      (use cancelled_row_ok [OF dl_row [OF ok D(1)]] in \<open>simp_all add: same_place_def cancelled_def dispatchable_def\<close>)
qed

lemma first_delivery_ok:
  assumes ok: "ledger_ok s" and m: "m \<in> set (lg_messages s)" "undelivered (lg_deliveries s) m"
    and i: "insert_delivery now (ms_ws m) (ms_queue m) (ms_id m) (ms_msg m) None None 1 5 s = (d, s')"
  shows "ledger_ok s' \<and> d \<in> set (lg_deliveries s') \<and> lg_deliveries s' = lg_deliveries s @ [d]
      \<and> lg_vt s' = lg_vt s \<and> lg_effects s' = lg_effects s \<and> lg_messages s' = lg_messages s
      \<and> lg_queues s' = lg_queues s \<and> lg_pgmq s' = lg_pgmq s"
proof -
  note L = ledger_okD [OF ok] and I = insert_deliveryD [OF i]
  have F: "lg_queues s' = lg_queues s" "lg_pgmq s' = lg_pgmq s" "lg_messages s' = lg_messages s"
    "lg_deliveries s' = lg_deliveries s @ [d]" "lg_effects s' = lg_effects s"
    by (subst I(19), simp)+
  have V: "lg_vt s' = lg_vt s" "lg_issued s' = lg_issued s" "queues_ok s' = queues_ok s" "physical_queue s' = physical_queue s"
    using lg_view_cong [of s' s] F by simp_all
  have "rows_ok (lg_deliveries s @ [d]) (lg_messages s) (lg_next s')"
    by (rule rows_ok_first [OF L(3) m]) (use I fresh_row_ok [of d] in simp_all)
  moreover have "sync_ok (lg_vt s) (lg_issued s) (lg_deliveries s @ [d]) (lg_messages s)"
    by (rule sync_ok_first [OF L(4) rows_okD(2) [OF L(3)] m]) (use I in simp_all)
  moreover have "effects_ok (lg_effects s) (lg_deliveries s @ [d])"
    by (rule effects_ok_first [OF L(5) m(2) I(3,10)])
  ultimately show ?thesis using L(1,2) V F unfolding ledger_ok_def by simp
qed

lemma ensure_delivery_ok:
  assumes ok: "ledger_ok s" and r: "ensure_delivery E w m s = Inr (x, s')"
  shows "ledger_ok s'"
proof (cases "find (\<lambda>x. ms_ws x = w \<and> ms_id x = m) (lg_messages s)")
  case None
  then show ?thesis using r ok by (auto simp: ensure_delivery_def ebind_Inr_iff)
next
  case (Some k)
  then have k: "k \<in> set (lg_messages s)" "ms_ws k = w" "ms_id k = m"
    by (auto simp: find_Some_iff in_set_conv_nth)
  show ?thesis
  proof (cases "list_ex (\<lambda>d. dl_message d = m) (lg_deliveries s)")
    case True
    then show ?thesis using r ok Some by (auto simp: ensure_delivery_def ebind_Inr_iff)
  next
    case False
    then have u: "undelivered (lg_deliveries s) k" using k by (auto simp: undelivered_def list_ex_iff)
    obtain d where "insert_delivery (en_now E) (ms_ws k) (ms_queue k) (ms_id k) (ms_msg k) None None 1 5 s = (d, s')"
      using r Some False k by (auto simp: ensure_delivery_def ebind_Inr_iff split: prod.splits)
    then show ?thesis using first_delivery_ok [OF ok k(1) u] by blast
  qed
qed

section \<open>Queues and Messages\<close>

lemma send_message_ok:
  assumes ok: "ledger_ok s" and r: "send_message sha E w n key body s = Inr (x, s')"
  shows "ledger_ok s'"
proof -
  obtain c k p q where c: "queue_context E w = Inr c" "key = Some k" "body = Some p" and q: "queue_of s w n = Some q"
    using r by (cases key; cases body; cases "queue_of s w n") (auto simp: send_message_def ebind_Inr_iff)
  show ?thesis
  proof (cases "message_by_key s w n k")
    case (Some m)
    then show ?thesis using r ok c q by (auto simp: send_message_def split: if_splits)
  next
    case None
    note L = ledger_okD [OF ok]
    have phys: "physical_queue s w n = Some (qr_phys q)" using q by (simp add: physical_queue_def)
    obtain mid P where sent: "with_table (qr_phys q) (pq_send (en_now E) p) s = Inr (mid, s\<lparr>lg_pgmq := P\<rparr>)"
      "queues_ok (s\<lparr>lg_pgmq := P\<rparr>)" "\<not> lg_issued s w n mid"
      "lg_vt (s\<lparr>lg_pgmq := P\<rparr>) = at_upd (lg_vt s) w n mid (Some (en_now E))"
      "lg_issued (s\<lparr>lg_pgmq := P\<rparr>) = at_upd (lg_issued s) w n mid True"
      by (rule send_ok [OF L(1) phys]) blast
    let ?m = "\<lparr>ms_id = lg_next s, ms_ws = w, ms_queue = n, ms_msg = mid, ms_key = k,
                ms_hash = sha p, ms_producer = bc_principal c, ms_run = bc_run c,
                ms_created = en_now E, ms_expires = capture_expiry E w\<rparr>"
    have s': "s' = s\<lparr>lg_pgmq := P, lg_next := Suc (lg_next s), lg_messages := lg_messages s @ [?m]\<rparr>"
      using r c q None sent(1) by (auto simp: send_message_def draw_uuid_def Let_def)
    have V: "lg_vt s' = lg_vt (s\<lparr>lg_pgmq := P\<rparr>)" "lg_issued s' = lg_issued (s\<lparr>lg_pgmq := P\<rparr>)"
      "queues_ok s' = queues_ok (s\<lparr>lg_pgmq := P\<rparr>)" "physical_queue s' = physical_queue s"
      using lg_view_cong [of s' "s\<lparr>lg_pgmq := P\<rparr>"] lg_view_cong(1) [of s' s] by (simp_all add: s')
    have "rows_ok (lg_deliveries s) (lg_messages s @ [?m]) (Suc (lg_next s))"
      by (rule rows_ok_message [OF L(3)]) simp_all
    moreover have "sync_ok (lg_vt s') (lg_issued s') (lg_deliveries s) (lg_messages s @ [?m])"
      using sync_ok_message [OF L(4,3), of ?m "en_now E"] sent V by simp
    moreover have "\<forall>m\<in>set (lg_messages s @ [?m]). physical_queue s (ms_ws m) (ms_queue m) \<noteq> None"
      using L(2) phys by auto
    ultimately show ?thesis using L(5) sent(2) V unfolding ledger_ok_def s' by simp
  qed
qed

lemma find_app: "find P (xs @ ys) = (case find P xs of None \<Rightarrow> find P ys | Some x \<Rightarrow> Some x)"
  by (induction xs) auto

lemma physical_queue_phys: "physical_queue s w n = Some p \<Longrightarrow> p \<in> qr_phys ` set (lg_queues s)"
  by (auto simp: physical_queue_def dest!: queue_of_SomeD)

lemma create_queue_ok:
  assumes ok: "ledger_ok s" and r: "create_queue sha E w n s = Inr (q, s')"
  shows "ledger_ok s'"
proof -
  note L = ledger_okD [OF ok]
  let ?p = "physical_name sha w n"
  have new: "queue_of s w n = None" "?p \<notin> qr_phys ` set (lg_queues s)"
    and q: "q = \<lparr>qr_ws = w, qr_name = n, qr_phys = ?p\<rparr>"
    using r by (auto simp: create_queue_def ebind_Inr_iff list_ex_iff Let_def)
  have none: "lg_pgmq s ?p = None" using new(2) L(1) by (auto simp: queues_ok_def)
  have s': "s' = s\<lparr>lg_queues := lg_queues s @ [q], lg_pgmq := (lg_pgmq s)(?p \<mapsto> pq_create)\<rparr>"
    using r none q by (auto simp: create_queue_def ebind_Inr_iff Let_def)
  have phys: "physical_queue s' w' n' = (if w' = w \<and> n' = n then Some ?p else physical_queue s w' n')" for w' n'
    using new(1) q by (auto simp: s' physical_queue_def queue_of_def find_app split: option.splits)
  have old: "physical_queue s w' n' \<noteq> Some ?p" for w' n'
    using new(2) physical_queue_phys [of s w' n'] by blast
  have w0: "physical_queue s w n = None" using new(1) by (simp add: physical_queue_def)
  have tab: "lg_table s' w' n' = (if w' = w \<and> n' = n then Some pq_create else lg_table s w' n')" for w' n'
  proof (cases "physical_queue s w' n'")
    case (Some p')
    then have "lg_pgmq s' p' = lg_pgmq s p'" using old [of w' n'] by (auto simp: s')
    then show ?thesis using Some w0 by (auto simp: lg_table_def phys)
  next
    case None
    have "lg_pgmq s' ?p = Some pq_create" by (simp add: s')
    then show ?thesis using None by (simp add: lg_table_def phys)
  qed
  have tabn: "lg_table s w n = None" using w0 by (simp add: lg_table_def)
  have V: "lg_vt s' = lg_vt s"
    using tabn by (intro ext) (auto simp: lg_vt_def tab pq_vt_def pq_create_def tget_Nil)
  have iss: "lg_issued s' w' n' i" if "lg_issued s w' n' i" for w' n' i
    using that tabn by (auto simp: lg_issued_def tab)
  have Q: "queues_ok s'"
  proof -
    have "(w, n) \<notin> (\<lambda>q. (qr_ws q, qr_name q)) ` set (lg_queues s)"
      using new(1) by (auto simp: queue_of_def find_None_iff)
    then show ?thesis using L(1) new(2) q by (auto simp: queues_ok_def s' pq_ok_create)
  qed
  have "sync_ok (lg_vt s) (lg_issued s') (lg_deliveries s) (lg_messages s)"
  proof (rule sync_okI)
    note Y = sync_okD [OF L(4)]
    show "lg_issued s' (ms_ws m) (ms_queue m) (ms_msg m)" if "m \<in> set (lg_messages s)" for m
      by (rule iss [OF Y(7) [OF that]])
    show "lg_issued s' (dl_ws d) (dl_queue d) (dl_msg d)" if "d \<in> set (lg_deliveries s)" for d
      by (rule iss [OF Y(8) [OF that]])
    show "(\<exists>d\<in>set (lg_deliveries s). dl_current d \<and> dispatchable d \<and> here d w n i)
        \<or> (\<exists>m\<in>set (lg_messages s). undelivered (lg_deliveries s) m \<and> ms_ws m = w \<and> ms_queue m = n \<and> ms_msg m = i)"
      if "lg_vt s w n i \<noteq> None" for w n i
      by (rule Y(2) [OF that])
  qed (use sync_okD(1,3-6) [OF L(4)] in blast)+
  then show ?thesis
    using L(2,3,5) V Q phys unfolding ledger_ok_def by (simp add: s')
qed

section \<open>Reconciliation\<close>

lemma rows_ok_mono:
  assumes "rows_ok ds ms nx" "nx \<le> nx'"
  shows "rows_ok ds ms nx'"
proof -
  have lt: "a < nx'" if "a < nx" for a :: nat using that assms(2) by simp
  show ?thesis using assms(1) lt unfolding rows_ok_def by blast
qed

lemma ledger_ok_idle:
  assumes ok: "ledger_ok s" and s': "s' = s\<lparr>lg_recons := rs, lg_next := nx\<rparr>" "lg_next s \<le> nx"
  shows "ledger_ok s'"
proof -
  note L = ledger_okD [OF ok]
  have "lg_vt s' = lg_vt s" "lg_issued s' = lg_issued s" "queues_ok s' = queues_ok s" "physical_queue s' = physical_queue s"
    using lg_view_cong [of s' s] s' by simp_all
  then show ?thesis using L(1,2,4,5) rows_ok_mono [OF L(3) s'(2)] unfolding ledger_ok_def s'(1) by simp
qed

lemma record_decision_ok:
  assumes "ledger_ok s" "record_decision E w c d dec ev suc s = (x, s')"
  shows "ledger_ok s'"
  using assms(2) by (intro ledger_ok_idle [where nx = "Suc (lg_next s)" and rs = "lg_recons s @ [fst x]", OF assms(1)])
    (auto simp: record_decision_def draw_uuid_def Let_def)

lemma decide_ok:
  assumes ok: "ledger_ok s" and d: "d \<in> set (lg_deliveries s)" "dl_current d" "dl_ws d = w"
    and st: "dl_state d \<in> {Ambiguous, Effect_paused}"
    and r: "decide E w dec d s = Inr (suc, s')"
  shows "ledger_ok s'"
proof -
  have nd: "\<not> dispatchable d" using st by (auto simp: dispatchable_def)
  have row: "row_ok d" using dl_row [OF ok d(1)] .
  show ?thesis
  proof (cases dec)
    case Applied
    let ?d' = "d\<lparr>dl_state := Succeeded, dl_completed := Some (en_now E), dl_failure := None\<rparr>"
    have s': "s' = put_delivery ?d' s" using r Applied by (simp add: decide_def)
    have sp: "same_place d ?d'" by (simp add: same_place_def)
    have rk: "row_ok ?d'" "\<not> dispatchable ?d'" "\<not> fenced ?d'"
      using row st by (elim insertE emptyE; simp add: row_ok_def fenced_def dispatchable_def)+
    show ?thesis unfolding s'
    proof (rule ledger_ok_put [where ?s1.0 = s and P = "lg_pgmq s" and x = None, OF ok d(1,2)])
      show "lg_vt s = at_upd (lg_vt s) (dl_ws d) (dl_queue d) (dl_msg d) None"
        using not_dispatchable_gone [OF ok d(1,2) nd] by (intro ext) auto
      show "effects_ok (lg_effects s) (tput dl_id ?d' (lg_deliveries s))"
        by (rule effects_same [OF ok d(1) sp _ d(2)]) simp
    qed (use ledger_okD(1) [OF ok] sp rk in \<open>simp_all add: put_delivery_def\<close>)
  next
    case Not_applied
    let ?old = "d\<lparr>dl_current := False, dl_state := Cancelled, dl_failure := Some ''reconciled_not_applied''\<rparr>"
    obtain body n s1 where n: "resend (en_now E) w d ?old body s = Inr (n, s1)" "s' = reset_effect (dl_message d) s1"
      using r Not_applied by (auto simp: decide_def ebind_Inr_iff split: option.splits)
    have old: "superseded d ?old" "row_ok ?old"
      using row st by (elim insertE emptyE; simp add: superseded_def row_ok_def fenced_def)+
    let ?f = "\<lambda>e. if ef_message e = dl_message d then e\<lparr>ef_reset := True\<rparr> else e"
    let ?es = "map ?f (lg_effects s)"
    have es: "same_effects (lg_effects s) ?es" "\<not> unreset ?es (dl_message d)"
      by (auto simp: same_effects_def unreset_def)
    have es3: "unreset ?es m = unreset (lg_effects s) m" if "m \<noteq> dl_message d" for m
      using that by (auto simp: unreset_def)
    have "ledger_ok (s1\<lparr>lg_effects := ?es\<rparr>) \<and> lg_effects s1 = lg_effects s"
      using resend_ok [OF ok d(1,2) nd d(3) old n(1) es es3] by simp
    then show ?thesis unfolding n(2) reset_effect_def by simp
  next
    case Unknown
    then show ?thesis using r ok by (simp add: decide_def)
  qed
qed

lemma reconcileD:
  assumes "reconcile E w i decision evidence s = Inr ((rc, evs), s')"
  shows "evs = [] \<and> s' = s \<and> rc \<in> set (decisions s w i)
    \<or> (\<exists>c d dec ev suc s1. delivery_in s w i = Some d \<and> dl_current d \<and> dl_state d \<in> {Ambiguous, Effect_paused}
        \<and> Option.bind decision parse_outcome = Some dec \<and> evidence = Some ev \<and> reconciliation_actor E w = Inr c
        \<and> \<not> list_ex (\<lambda>r. rc_outcome r \<noteq> Unknown) (decisions s w i)
        \<and> (\<forall>r\<in>set (decisions s w i). rc_outcome r \<noteq> dec)
        \<and> decide E w dec d s = Inr (suc, s1) \<and> record_decision E w c d dec ev suc s1 = ((rc, evs), s'))"
proof -
  obtain c where c: "reconciliation_actor E w = Inr c"
    using assms by (auto simp: reconcile_def ebind_Inr_iff)
  obtain dec ev where de: "Option.bind decision parse_outcome = Some dec" "evidence = Some ev"
    using assms c by (cases "Option.bind decision parse_outcome"; cases evidence) (auto simp: reconcile_def)
  obtain d where d: "delivery_in s w i = Some d"
    using assms c de by (cases "delivery_in s w i") (auto simp: reconcile_def)
  show ?thesis
  proof (cases "find (\<lambda>r. rc_outcome r = dec) (decisions s w i)")
    case (Some r)
    then have "r \<in> set (decisions s w i)" by (auto simp: find_Some_iff in_set_conv_nth)
    then show ?thesis using assms c de d Some by (simp add: reconcile_def)
  next
    case None
    obtain x where x: "find (\<lambda>e. ef_ws e = w \<and> ef_queue e = dl_queue d \<and> ef_message e = dl_message d) (lg_effects s) = Some x"
      using assms c de d None
      by (cases "find (\<lambda>e. ef_ws e = w \<and> ef_queue e = dl_queue d \<and> ef_message e = dl_message d) (lg_effects s)")
        (simp_all add: reconcile_def)
    have "\<forall>r\<in>set (decisions s w i). rc_outcome r \<noteq> dec" using None by (simp add: find_None_iff)
    moreover obtain suc s1 where "decide E w dec d s = Inr (suc, s1)"
      "record_decision E w c d dec ev suc s1 = ((rc, evs), s')"
      using assms c de d None x by (auto simp: reconcile_def ebind_Inr_iff)
    moreover have "dl_current d" "dl_state d \<in> {Ambiguous, Effect_paused}"
      "\<not> list_ex (\<lambda>r. rc_outcome r \<noteq> Unknown) (decisions s w i)"
      using assms c de d None x by (simp_all add: reconcile_def)
    ultimately show ?thesis using c de d by blast
  qed
qed

lemma reconcile_ok:
  assumes ok: "ledger_ok s" and r: "reconcile E w i decision evidence s = Inr (x, s')"
  shows "ledger_ok s'"
proof -
  obtain rc evs where x: "x = (rc, evs)" by (cases x)
  show ?thesis using reconcileD [OF r [unfolded x]]
  proof (elim disjE exE conjE)
    fix c d dec ev suc s1
    assume h: "delivery_in s w i = Some d" "dl_current d" "dl_state d \<in> {Ambiguous, Effect_paused}"
      "decide E w dec d s = Inr (suc, s1)" "record_decision E w c d dec ev suc s1 = ((rc, evs), s')"
    have "ledger_ok s1" by (rule decide_ok [OF ok _ h(2) _ h(3,4)]) (use delivery_inD [OF h(1)] in auto)
    then show ?thesis using record_decision_ok h(5) by blast
  qed (use ok in simp)
qed

section \<open>Restore\<close>

lemma restored_row:
  assumes "row_ok d" "fenced d" "dl_state d = Begun \<longleftrightarrow> dl_effect d \<noteq> None"
  shows "row_ok (restored now d)" "dispatchable (restored now d) \<longleftrightarrow> dl_state (restored now d) = Scheduled"
    "\<not> fenced (restored now d)" "same_place d (restored now d)" "dl_effect (restored now d) = dl_effect d"
proof -
  have "dl_state d = Leased \<or> dl_state d = Begun" using assms(2) by (auto simp: fenced_def)
  then show "row_ok (restored now d)"
    using assms(1,3) by (elim disjE) (simp_all add: row_ok_def restored_def fenced_def)
qed (simp_all add: restored_def dispatchable_def fenced_def same_place_def Let_def)

lemma begun_effect_iff: "row_ok d \<Longrightarrow> fenced d \<Longrightarrow> dl_state d = Begun \<longleftrightarrow> dl_effect d \<noteq> None"
  by (cases "dl_state d") (simp_all add: row_ok_def fenced_def)

lemma restore_one_ok:
  assumes ok: "ledger_ok s" and d: "d \<in> set (lg_deliveries s)" "dl_current d" "fenced d" "dl_ws d = w"
    and r: "restore_one now w d s = Inr (e, s')"
  shows "ledger_ok s' \<and> (\<exists>P. s' = put_delivery (restored now d) (s\<lparr>lg_pgmq := P\<rparr>))"
proof -
  obtain p where p: "physical_queue s (dl_ws d) (dl_queue d) = Some p" using delivery_queue [OF ok d(1)] .
  note row = dl_row [OF ok d(1)]
  note R = restored_row [OF row d(3) begun_effect_iff [OF row d(3)], of now]
  show ?thesis
  proof (cases "dl_state (restored now d) = Scheduled")
    case True
    then have v: "dl_next (restored now d) = Some (now + seconds 5)"
      by (simp add: restored_def Let_def split: if_splits)
    have "ebind (hide_until p (dl_msg d) (Some (now + seconds 5)) s) (\<lambda>s'. Inr
        (queue_result (restored now d) ''queue.restore'', put_delivery (restored now d) s')) = Inr (e, s')"
      using r p True v unfolding restore_one_def Let_def d(4) guardE_Inr_iff by simp
    then obtain s1 where s1: "hide_until p (dl_msg d) (Some (now + seconds 5)) s = Inr s1"
      "s' = put_delivery (restored now d) s1"
      by (auto simp: ebind_Inr_iff)
    have "ledger_ok s' \<and> (\<exists>P. s1 = s\<lparr>lg_pgmq := P\<rparr>)" unfolding s1(2)
      by (rule ledger_ok_hide [OF ok d(1,2) p s1(1) R(4,1) _ R(5)]) (use R(2,3) True in simp_all)
    then show ?thesis using s1(2) by blast
  next
    case False
    have "\<exists>x. ebind (retire p (dl_msg d) s) (\<lambda>s'. Inr (x, put_delivery (restored now d) s')) = Inr (e, s')"
      using r p False unfolding restore_one_def Let_def d(4) guardE_Inr_iff by auto
    then obtain s1 where s1: "retire p (dl_msg d) s = Inr s1" "s' = put_delivery (restored now d) s1"
      by (auto simp: ebind_Inr_iff)
    have "ledger_ok s' \<and> (\<exists>P. s1 = s\<lparr>lg_pgmq := P\<rparr>)" unfolding s1(2)
      by (rule ledger_ok_retire [OF ok d(1,2) p s1(1) R(4,1) _ R(5)]) (use R(2) False in simp)
    then show ?thesis using s1(2) by blast
  qed
qed

lemma restore_all_ok:
  assumes "ledger_ok s" "\<And>d. d \<in> set ds \<Longrightarrow> d \<in> set (lg_deliveries s) \<and> dl_current d \<and> fenced d \<and> dl_ws d = w"
    and "distinct (map dl_id ds)" "restore_all now w ds s = Inr (evs, s')"
  shows "ledger_ok s'"
  using assms
proof (induction ds arbitrary: s evs)
  case (Cons d ds)
  have d: "d \<in> set (lg_deliveries s)" "dl_current d" "fenced d" "dl_ws d = w" using Cons.prems(2) by auto
  obtain e s1 evs' where h: "restore_one now w d s = Inr (e, s1)" "restore_all now w ds s1 = Inr (evs', s')"
    using Cons.prems(4) by (auto simp: ebind_Inr_iff)
  obtain P where k: "ledger_ok s1" "s1 = put_delivery (restored now d) (s\<lparr>lg_pgmq := P\<rparr>)"
    using restore_one_ok [OF Cons.prems(1) d h(1)] by blast
  show ?case
  proof (rule Cons.IH [OF k(1) _ _ h(2)])
    fix x assume x: "x \<in> set ds"
    then have "dl_id x \<noteq> dl_id d" using Cons.prems(3) by (metis distinct.simps(2) imageI list.set_map list.simps(9))
    then show "x \<in> set (lg_deliveries s1) \<and> dl_current x \<and> fenced x \<and> dl_ws x = w"
      using Cons.prems(2) [of x] x by (auto simp: k(2) put_delivery_def in_set_tput restored_def Let_def)
  qed (use Cons.prems(3) in simp)
qed simp

lemma restore_batch_ok:
  assumes ok: "ledger_ok s" and r: "restore_batch E epoch w k s = Inr (evs, s')"
  shows "ledger_ok s'"
proof -
  obtain n where n: "restore_all (en_now E) w (restorable w n s) s = Inr (evs, s')"
    using r by (auto simp: restore_batch_def ebind_Inr_iff split: option.splits)
  have sub: "set (restorable w n s) \<subseteq> {d \<in> set (lg_deliveries s). dl_current d \<and> fenced d \<and> dl_ws d = w}"
    by (auto simp: restorable_def fenced_def dest!: in_set_takeD)
  show ?thesis
    by (rule restore_all_ok [OF ok _ _ n])
      (use sub distinct_ids [OF ok] in \<open>auto simp: restorable_def distinct_map_sort_key take_map [symmetric]
         intro!: distinct_take\<close>)
qed

end
