(* ===== verification/ClaimSteps.thy ===== *)
theory ClaimSteps
  imports LedgerSteps
begin

text \<open>The claim, round by round: every piece keeps the ledger well formed, changes nothing but
  Deliveries and visibility, leaves every live lease alone, and raises nothing on a well-formed
  ledger whose unexpired Messages still have their body.\<close>

section \<open>What a claim may change\<close>

definition frame :: "ledger \<Rightarrow> ledger \<Rightarrow> bool" where
  "frame s s' \<longleftrightarrow> lg_queues s' = lg_queues s \<and> lg_messages s' = lg_messages s
     \<and> lg_effects s' = lg_effects s \<and> lg_recons s' = lg_recons s \<and> lg_body s' = lg_body s"

definition live_lease :: "time \<Rightarrow> delivery \<Rightarrow> bool" where
  "live_lease now d \<longleftrightarrow> dl_current d \<and> fenced d \<and> \<not> expired_lease now d"

definition keeps :: "time \<Rightarrow> ledger \<Rightarrow> ledger \<Rightarrow> bool" where
  "keeps now s s' \<longleftrightarrow> (\<forall>x\<in>set (lg_deliveries s). live_lease now x \<longrightarrow> x \<in> set (lg_deliveries s'))"

definition good :: "time \<Rightarrow> ledger \<Rightarrow> ledger \<Rightarrow> bool" where
  "good now s s' \<longleftrightarrow> ledger_ok s' \<and> frame s s' \<and> keeps now s s'"

lemma good_refl: "ledger_ok s \<Longrightarrow> good now s s"
  by (simp add: good_def frame_def keeps_def)

lemma frame_trans: "frame s s' \<Longrightarrow> frame s' s'' \<Longrightarrow> frame s s''"
  by (simp add: frame_def)

lemma keeps_trans: "keeps now s s' \<Longrightarrow> keeps now s' s'' \<Longrightarrow> keeps now s s''"
  unfolding keeps_def by blast

lemma good_trans: "good now s s' \<Longrightarrow> good now s' s'' \<Longrightarrow> good now s s''"
  unfolding good_def by (elim conjE) (intro conjI; (assumption | erule (1) frame_trans | erule (1) keeps_trans))

definition bodies_ok :: "time \<Rightarrow> ledger \<Rightarrow> bool" where
  "bodies_ok now s \<longleftrightarrow> (\<forall>m\<in>set (lg_messages s). now < ms_expires m
     \<longrightarrow> lg_body s (ms_ws m) (ms_queue m) (ms_msg m) \<noteq> None)"

lemma bodies_ok_frame: "frame s s' \<Longrightarrow> bodies_ok now s' = bodies_ok now s"
  by (simp add: frame_def bodies_ok_def)

lemma frame_physical: "frame s s' \<Longrightarrow> physical_queue s' = physical_queue s"
  by (rule lg_view_cong(1)) (simp add: frame_def)

lemma frame_put: "frame s (put_delivery d s1) = frame s s1"
proof -
  have "lg_body (put_delivery d s1) = lg_body s1" using lg_view_cong(2) [of "put_delivery d s1" s1] by (simp add: put_delivery_def)
  then show ?thesis by (simp add: frame_def put_delivery_def)
qed

lemma hide_frame:
  assumes "queues_ok s" "physical_queue s w n = Some p" "hide_until p i at s = Inr s'"
  shows "frame s s'" "lg_deliveries s' = lg_deliveries s" "lg_next s' = lg_next s"
  by (rule hide_until_ok [OF assms]; simp add: frame_def)+

lemma retire_frame:
  assumes "queues_ok s" "physical_queue s w n = Some p" "retire p i s = Inr s'"
  shows "frame s s'" "lg_deliveries s' = lg_deliveries s" "lg_next s' = lg_next s"
  by (rule retire_ok [OF assms]; simp add: frame_def)+

lemma keeps_put:
  assumes "ledger_ok s" "d \<in> set (lg_deliveries s)" "\<not> live_lease now d" "dl_id d' = dl_id d"
    and "lg_deliveries s1 = lg_deliveries s"
  shows "keeps now s (put_delivery d' s1)"
proof -
  have "dl_id x \<noteq> dl_id d" if "x \<in> set (lg_deliveries s)" "live_lease now x" for x
    using rows_okD(1) [OF ledger_okD(3) [OF assms(1)]] assms(2,3) that by (auto simp: distinct_map inj_on_def)
  then show ?thesis using assms(4,5) by (auto simp: keeps_def put_delivery_def in_set_tput)
qed

lemma settle_good:
  assumes ok: "ledger_ok s" and d: "d \<in> set (lg_deliveries s)" "dl_current d" "fenced d" "expired_lease now d"
    and st: "settle now Expire d s = Inr (d', s')"
  shows "good now s s'" "d' = settled now Expire d" "d' \<in> set (lg_deliveries s')"
    "lg_deliveries s' = tput dl_id d' (lg_deliveries s)"
proof -
  obtain p where p: "physical_queue s (dl_ws d) (dl_queue d) = Some p" using delivery_queue [OF ok d(1)] .
  obtain s1 where s1: "hide_until p (dl_msg d) (settled_next now Expire d) s = Inr s1 \<or> retire p (dl_msg d) s = Inr s1"
    "d' = settled now Expire d" "s' = put_delivery d' s1"
    using st p by (auto simp: settle_def ebind_Inr_iff split: if_splits)
  have f: "frame s s1" "lg_deliveries s1 = lg_deliveries s"
    using s1(1) hide_frame [OF ledger_okD(1) [OF ok] p] retire_frame [OF ledger_okD(1) [OF ok] p] by blast+
  have i: "dl_id d' = dl_id d" by (simp add: s1(2) settled_def)
  show D: "lg_deliveries s' = tput dl_id d' (lg_deliveries s)" by (simp add: s1(3) put_delivery_def f(2))
  show "d' = settled now Expire d" by (rule s1(2))
  show "d' \<in> set (lg_deliveries s')" using d(1) i unfolding D by (auto simp: set_tput)
  have "ledger_ok s'" using settle_ok [OF ok d(1-3) _ st] by simp
  moreover have "keeps now s s'" unfolding s1(3)
    by (rule keeps_put [OF ok d(1) _ i f(2)]) (simp add: live_lease_def d(4))
  ultimately show "good now s s'" using f(1) unfolding good_def s1(3) frame_put by simp
qed

section \<open>The first two loops\<close>

lemma settle_lapsed_good:
  assumes "ledger_ok s"
    "\<And>d. d \<in> set ds \<Longrightarrow> d \<in> set (lg_deliveries s) \<and> dl_current d \<and> fenced d \<and> expired_lease now d"
    and "distinct (map dl_id ds)"
  shows "\<exists>evs s'. settle_lapsed now ds s = Inr (evs, s') \<and> good now s s'"
  using assms
proof (induction ds arbitrary: s)
  case Nil
  then show ?case by (simp add: good_refl)
next
  case (Cons d ds)
  have d: "d \<in> set (lg_deliveries s)" "dl_current d" "fenced d" "expired_lease now d"
    using Cons.prems(2) by auto
  obtain s1 where s1: "settle now Expire d s = Inr (settled now Expire d, s1)"
    using settle_total [OF Cons.prems(1) d(1-3), of Expire now] by auto
  note G = settle_good [OF Cons.prems(1) d s1]
  have ok1: "ledger_ok s1" using G(1) by (simp add: good_def)
  have "\<exists>evs s'. settle_lapsed now ds s1 = Inr (evs, s') \<and> good now s1 s'"
  proof (rule Cons.IH [OF ok1])
    fix x assume x: "x \<in> set ds"
    then have "dl_id x \<noteq> dl_id d" using Cons.prems(3) by (metis distinct.simps(2) imageI list.set_map list.simps(9))
    then show "x \<in> set (lg_deliveries s1) \<and> dl_current x \<and> fenced x \<and> expired_lease now x"
      using Cons.prems(2) [of x] x by (auto simp: G(4) in_set_tput settled_def)
  qed (use Cons.prems(3) in simp)
  then show ?case using s1 good_trans [OF G(1)] by fastforce
qed

lemma dead_letter_good:
  assumes ok: "ledger_ok s" and d: "d \<in> set (lg_deliveries s)" "dl_current d" "dl_state d \<in> {Ready, Scheduled}"
    and p: "physical_queue s (dl_ws d) (dl_queue d) = Some p"
  shows "\<exists>e s'. dead_letter now p d s = Inr (e, s') \<and> good now s s'
     \<and> (\<exists>d'. dl_id d' = dl_id d \<and> lg_deliveries s' = tput dl_id d' (lg_deliveries s))"
proof -
  have disp: "dispatchable d" "\<not> fenced d" using d(3) by (auto simp: dispatchable_def fenced_def)
  have vt: "lg_vt s (dl_ws d) (dl_queue d) (dl_msg d) \<noteq> None"
    using sync_okD(1) [OF ledger_okD(4) [OF ok] d(1,2) disp(1)] by auto
  obtain s1 where s1: "retire p (dl_msg d) s = Inr s1"
    using retire_total [OF ledger_okD(1) [OF ok] p vt] by blast
  let ?d' = "d\<lparr>dl_state := Dead_lettered, dl_failure := Some ''payload_expired'', dl_next := None, dl_completed := Some now\<rparr>"
  have row: "row_ok d" by (rule dl_row [OF ok d(1)])
  have rk: "row_ok ?d'" "same_place d ?d'" "\<not> dispatchable ?d'" "dl_effect ?d' = dl_effect d"
    using row d(3) by (elim insertE emptyE; simp add: row_ok_def fenced_def same_place_def dispatchable_def)+
  note f = retire_frame [OF ledger_okD(1) [OF ok] p s1]
  have "ledger_ok (put_delivery ?d' s1)"
    using ledger_ok_retire [OF ok d(1,2) p s1 rk(2,1,3,4)] by blast
  moreover have "keeps now s (put_delivery ?d' s1)"
    by (rule keeps_put [OF ok d(1) _ _ f(2)]) (simp_all add: live_lease_def disp)
  ultimately have "good now s (put_delivery ?d' s1)" using f(1) by (simp add: good_def frame_put)
  moreover have "lg_deliveries (put_delivery ?d' s1) = tput dl_id ?d' (lg_deliveries s)"
    by (simp add: put_delivery_def f(2))
  moreover have "dl_id ?d' = dl_id d" by simp
  ultimately show ?thesis using s1 unfolding dead_letter_def Let_def by (metis ebind_simps(2))
qed

lemma dead_letter_all_good:
  assumes "ledger_ok s" "physical_queue s w n = Some p"
    "\<And>d. d \<in> set ds \<Longrightarrow> d \<in> set (lg_deliveries s) \<and> dl_current d \<and> dl_state d \<in> {Ready, Scheduled}
       \<and> dl_ws d = w \<and> dl_queue d = n"
    and "distinct (map dl_id ds)"
  shows "\<exists>evs s'. dead_letter_all now p ds s = Inr (evs, s') \<and> good now s s'"
  using assms
proof (induction ds arbitrary: s)
  case Nil
  then show ?case by (simp add: good_refl)
next
  case (Cons d ds)
  have d: "d \<in> set (lg_deliveries s)" "dl_current d" "dl_state d \<in> {Ready, Scheduled}" "dl_ws d = w" "dl_queue d = n"
    using Cons.prems(3) by auto
  obtain e s1 d' where s1: "dead_letter now p d s = Inr (e, s1)" "good now s s1" "dl_id d' = dl_id d"
    "lg_deliveries s1 = tput dl_id d' (lg_deliveries s)"
    using dead_letter_good [OF Cons.prems(1) d(1-3), of p now] Cons.prems(2) d(4,5) by blast
  have ok1: "ledger_ok s1" "physical_queue s1 w n = Some p"
    using s1(2) Cons.prems(2) frame_physical by (auto simp: good_def)
  have "\<exists>evs s'. dead_letter_all now p ds s1 = Inr (evs, s') \<and> good now s1 s'"
  proof (rule Cons.IH [OF ok1])
    fix x assume x: "x \<in> set ds"
    then have "dl_id x \<noteq> dl_id d" using Cons.prems(4) by (metis distinct.simps(2) imageI list.set_map list.simps(9))
    then show "x \<in> set (lg_deliveries s1) \<and> dl_current x \<and> dl_state x \<in> {Ready, Scheduled} \<and> dl_ws x = w \<and> dl_queue x = n"
      using Cons.prems(3) [of x] x s1(3) by (auto simp: s1(4) in_set_tput)
  qed (use Cons.prems(4) in simp)
  then show ?case using s1(1) good_trans [OF s1(2)] by fastforce
qed

section \<open>One round of the scan\<close>

lemma vt_only_good:
  assumes ok: "ledger_ok s" and s': "s' = s\<lparr>lg_pgmq := P\<rparr>" "queues_ok s'" "lg_issued s' = lg_issued s"
    "lg_body s' = lg_body s" "lg_vt s' = at_upd (lg_vt s) w n i (Some x)" and v: "lg_vt s w n i \<noteq> None"
    and f: "\<And>d. d \<in> set (lg_deliveries s) \<Longrightarrow> dl_current d \<Longrightarrow> fenced d \<Longrightarrow> here d w n i \<Longrightarrow> \<exists>l. dl_lease d = Some l \<and> l \<le> x"
  shows "good now s s'"
proof -
  note L = ledger_okD [OF ok]
  have "physical_queue s' = physical_queue s" by (rule lg_view_cong(1)) (simp add: s'(1))
  then have "ledger_ok s'"
    using L(2,3,5) s'(2,3,5) sync_ok_vt [OF L(4) v f] unfolding ledger_ok_def by (simp add: s'(1))
  then show ?thesis using s'(1,4) by (simp add: good_def frame_def keeps_def)
qed

lemma receive_good:
  assumes ok: "ledger_ok s" and p: "physical_queue s w n = Some p"
  obtains r s' where "with_table p (pq_receive now (seconds 30)) s = Inr (r, s')" "good now s s'"
    "lg_deliveries s' = lg_deliveries s"
    "\<And>i. r = Some i \<Longrightarrow> lg_vt s' w n i \<noteq> None
       \<and> (\<forall>d\<in>set (lg_deliveries s). dl_current d \<and> fenced d \<and> here d w n i \<longrightarrow> expired_lease now d)"
proof -
  note L = ledger_okD [OF ok]
  obtain r P where rP: "with_table p (pq_receive now (seconds 30)) s = Inr (r, s\<lparr>lg_pgmq := P\<rparr>)"
    "queues_ok (s\<lparr>lg_pgmq := P\<rparr>)" "lg_issued (s\<lparr>lg_pgmq := P\<rparr>) = lg_issued s"
    "lg_body (s\<lparr>lg_pgmq := P\<rparr>) = lg_body s"
    "r = None \<Longrightarrow> P = lg_pgmq s \<and> (\<forall>i v. lg_vt s w n i = Some v \<longrightarrow> now < v)"
    "\<And>i. r = Some i \<Longrightarrow> (\<exists>v. lg_vt s w n i = Some v \<and> v \<le> now)
        \<and> (\<forall>j v. lg_vt s w n j = Some v \<longrightarrow> v \<le> now \<longrightarrow> i \<le> j)
        \<and> lg_vt (s\<lparr>lg_pgmq := P\<rparr>) = at_upd (lg_vt s) w n i (Some (now + seconds 30))"
    by (rule receive_ok [OF L(1) p]) blast
  show ?thesis
  proof (cases r)
    case None
    then have "s\<lparr>lg_pgmq := P\<rparr> = s" using rP(5) by simp
    then show ?thesis using that [of r s] rP(1) None good_refl [OF ok] by simp
  next
    case (Some i)
    obtain v where v: "lg_vt s w n i = Some v" "v \<le> now"
      and vt': "lg_vt (s\<lparr>lg_pgmq := P\<rparr>) = at_upd (lg_vt s) w n i (Some (now + seconds 30))"
      using rP(6) [OF Some] by blast
    have exp: "\<exists>l. dl_lease d = Some l \<and> l \<le> now"
      if d: "d \<in> set (lg_deliveries s)" "dl_current d" "fenced d" "here d w n i" for d
    proof -
      have "dispatchable d" using d(3) by (auto simp: fenced_def dispatchable_def)
      then show ?thesis using sync_okD(1) [OF L(4) d(1,2)] d(3,4) v by (auto simp: here_def)
    qed
    have "good now s (s\<lparr>lg_pgmq := P\<rparr>)"
      by (rule vt_only_good [OF ok refl rP(2-4) vt']) (use v exp in \<open>fastforce+\<close>)
    then show ?thesis
      using that [of r "s\<lparr>lg_pgmq := P\<rparr>"] rP(1) Some vt' exp by (fastforce simp: expired_lease_def)
  qed
qed

lemma materialise_good:
  assumes ok: "ledger_ok s" and v: "lg_vt s w n i \<noteq> None"
  shows "\<exists>d s'. materialise now w n i s = Inr (d, s') \<and> good now s s' \<and> d \<in> set (lg_deliveries s')
     \<and> dl_current d \<and> dispatchable d \<and> here d w n i \<and> (fenced d \<longrightarrow> d \<in> set (lg_deliveries s))"
proof -
  note Y = sync_okD [OF ledger_okD(4) [OF ok]]
  let ?P = "\<lambda>d. dl_ws d = w \<and> dl_queue d = n \<and> dl_msg d = i \<and> dl_current d"
  show ?thesis
  proof (cases "find ?P (lg_deliveries s)")
    case (Some d)
    then have d: "d \<in> set (lg_deliveries s)" "dl_current d" "here d w n i"
      by (auto simp: find_Some_iff in_set_conv_nth here_def)
    consider e where "e \<in> set (lg_deliveries s)" "dl_current e" "dispatchable e" "here e w n i"
      | m where "m \<in> set (lg_messages s)" "undelivered (lg_deliveries s) m" "ms_ws m = w \<and> ms_queue m = n \<and> ms_msg m = i"
      using Y(2) [OF v] by blast
    then have "dispatchable d"
    proof cases
      case (1 e)
      then show ?thesis using Y(3) [OF 1(1) d(1) 1(2) d(2)] d(3) by (simp add: here_def)
    next
      case (2 m)
      then show ?thesis using Y(5) [OF 2(1,2) d(1)] d(3) by (simp add: here_def)
    qed
    then show ?thesis using Some d good_refl [OF ok] by (simp add: materialise_def)
  next
    case None
    then have none: "\<not> (dl_current e \<and> here e w n i)" if "e \<in> set (lg_deliveries s)" for e
      using that by (auto simp: find_None_iff here_def)
    then obtain m where m: "m \<in> set (lg_messages s)" "undelivered (lg_deliveries s) m"
      "ms_ws m = w" "ms_queue m = n" "ms_msg m = i"
      using Y(2) [OF v] by blast
    let ?M = "\<lambda>m. ms_ws m = w \<and> ms_queue m = n \<and> ms_msg m = i \<and> \<not> list_ex (\<lambda>x. dl_message x = ms_id m) (lg_deliveries s)"
    have "find ?M (lg_messages s) \<noteq> None"
      using m by (auto simp: find_None_iff undelivered_def list_ex_iff)
    then obtain k where k: "find ?M (lg_messages s) = Some k" by blast
    then have km: "k \<in> set (lg_messages s)" "?M k" by (auto simp: find_Some_iff in_set_conv_nth)
    have u: "undelivered (lg_deliveries s) k" using km by (auto simp: undelivered_def list_ex_iff)
    obtain d s' where ins: "insert_delivery now w n (ms_id k) i None None 1 5 s = (d, s')" by fastforce
    note I = insert_deliveryD [OF ins]
    note F = first_delivery_ok [OF ok km(1) u, of now d s']
    have ok': "ledger_ok s' \<and> d \<in> set (lg_deliveries s') \<and> lg_deliveries s' = lg_deliveries s @ [d]"
      using F ins km(2) by simp
    have "lg_body s' = lg_body s"
      using lg_view_cong(2) [of s' s] F ins km(2) by simp
    then have "good now s s'"
      using ok' F ins km(2) I(19) by (simp add: good_def frame_def keeps_def) (metis ledger.select_convs(5) ledger.surjective ledger.update_convs(3) ledger.update_convs(7))
    moreover have "\<not> fenced d" "dispatchable d" using I(9) by (simp_all add: fenced_def dispatchable_def)
    ultimately show ?thesis using None k ins ok' I by (simp add: materialise_def here_def)
  qed
qed

text \<open>After the lease check the row is waiting, or the round is over.\<close>

definition waiting :: "ledger \<Rightarrow> uuid \<Rightarrow> string \<Rightarrow> nat \<Rightarrow> delivery \<Rightarrow> bool" where
  "waiting s w n i d \<longleftrightarrow> d \<in> set (lg_deliveries s) \<and> dl_current d \<and> dl_state d \<in> {Ready, Scheduled} \<and> here d w n i"

lemma expire_attempt_good:
  assumes ok: "ledger_ok s" and d: "d \<in> set (lg_deliveries s)" "dl_current d" "dispatchable d" "here d w n i"
    and e: "fenced d \<Longrightarrow> expired_lease now d"
  shows "\<exists>d' evs s'. expire_attempt now d s = Inr ((d', evs), s') \<and> good now s s'
     \<and> (if fenced d \<and> dl_state d' \<noteq> Scheduled then True else waiting s' w n i d')"
proof (cases "fenced d")
  case False
  then show ?thesis using d good_refl [OF ok]
    by (auto simp: expire_attempt_def waiting_def fenced_def dispatchable_def)
next
  case True
  obtain s1 where s1: "settle now Expire d s = Inr (settled now Expire d, s1)"
    using settle_total [OF ok d(1,2) True, of Expire now] by auto
  note G = settle_good [OF ok d(1,2) True e [OF True] s1]
  have ex: "\<not> (dl_lease d \<noteq> None \<and> now < the (dl_lease d))" using e [OF True]
    by (auto simp: expired_lease_def split: option.splits)
  have h: "here (settled now Expire d) w n i" "dl_current (settled now Expire d)"
    using d by (simp_all add: here_def settled_def)
  obtain evs where run: "expire_attempt now d s = Inr ((settled now Expire d, evs), s1)"
    using True ex s1 by (auto simp: expire_attempt_def fenced_def)
  show ?thesis
    by (rule exI [of _ "settled now Expire d"], rule exI [of _ evs], rule exI [of _ s1])
      (use run G(1,3) h True in \<open>simp add: waiting_def\<close>)
qed

lemma claim_payload_cases:
  assumes ok: "ledger_ok s" and d: "d \<in> set (lg_deliveries s)"
  shows "(\<exists>r. claim_payload now (dl_ws d) (dl_queue d) (dl_message d) s = Inr r)
     \<or> (claim_payload now (dl_ws d) (dl_queue d) (dl_message d) s = Inl Payload_read_failed \<and> \<not> bodies_ok now s)"
proof -
  note L = ledger_okD [OF ok]
  obtain m where m: "m \<in> set (lg_messages s)" "ms_id m = dl_message d" "ms_ws m = dl_ws d" "ms_queue m = dl_queue d"
    using rows_okD(7) [OF L(3) d] by blast
  have uniq: "k = m" if "k \<in> set (lg_messages s)" "ms_id k = dl_message d" for k
    using rows_okD(2) [OF L(3)] m that by (auto simp: distinct_map inj_on_def)
  let ?Q = "\<lambda>m. ms_ws m = dl_ws d \<and> ms_id m = dl_message d"
  have "find ?Q (lg_messages s) \<noteq> None" using m by (auto simp: find_None_iff)
  then obtain k where k: "find ?Q (lg_messages s) = Some k" by blast
  then have "k = m" using uniq by (auto simp: find_Some_iff in_set_conv_nth)
  then have fm: "find ?Q (lg_messages s) = Some m" using k by simp
  obtain p where p: "physical_queue s (dl_ws d) (dl_queue d) = Some p" using delivery_queue [OF ok d] .
  obtain t where t: "lg_pgmq s p = Some t" "lg_table s (dl_ws d) (dl_queue d) = Some t"
    using physical_queue_table [OF L(1) p] by blast
  have ex: "list_ex (\<lambda>m. ms_ws m = dl_ws d \<and> ms_queue m = dl_queue d \<and> ms_id m = dl_message d) (lg_messages s)"
    using m by (auto simp: list_ex_iff)
  show ?thesis
  proof (cases "ms_expires m \<le> now")
    case True
    then show ?thesis using ex fm p m(4) by (simp add: claim_payload_def payload_def message_body_def guardE_def)
  next
    case False
    show ?thesis
    proof (cases "pq_body t (ms_msg m)")
      case None
      then have "\<not> bodies_ok now s" using False m t(2) by (auto simp: bodies_ok_def lg_body_def intro!: bexI [of _ m])
      then show ?thesis using ex fm p m(4) t(1) False None
        by (simp add: claim_payload_def payload_def message_body_def guardE_def)
    next
      case (Some x)
      then show ?thesis using ex fm p m(4) t(1) False
        by (simp add: claim_payload_def payload_def message_body_def guardE_def)
    qed
  qed
qed

lemma next_attempt_good:
  assumes ok: "ledger_ok s" and d: "waiting s w n i d"
    and r: "next_attempt now w n i d s = (d1, s1)"
  shows "good now s s1" "waiting s1 w n i d1" "dl_message d1 = dl_message d" "lg_vt s1 = lg_vt s"
    "dl_completed d1 = None" "lg_next s \<le> lg_next s1"
proof -
  have D: "d \<in> set (lg_deliveries s)" "dl_current d" "dl_state d \<in> {Ready, Scheduled}"
    "dl_ws d = w" "dl_queue d = n" "dl_msg d = i"
    using d by (auto simp: waiting_def here_def)
  note L = ledger_okD [OF ok] and R = rows_okD [OF ledger_okD(3) [OF ok]] and Y = sync_okD [OF ledger_okD(4) [OF ok]]
  have row: "row_ok d" by (rule dl_row [OF ok D(1)])
  have "good now s s1 \<and> waiting s1 w n i d1 \<and> dl_message d1 = dl_message d \<and> lg_vt s1 = lg_vt s
    \<and> dl_completed d1 = None \<and> lg_next s \<le> lg_next s1"
  proof (cases "dl_completed d = None")
    case True
    then show ?thesis using r d good_refl [OF ok] by (auto simp: next_attempt_def)
  next
    case False
    let ?old = "d\<lparr>dl_current := False\<rparr>"
    let ?s0 = "put_delivery ?old s"
    have ins: "insert_delivery now w n (dl_message d) i (Some (dl_chain d)) (Some (dl_id d))
             (dl_attempt d + 1) (dl_max d) ?s0 = (d1, s1)"
      using r False by (simp add: next_attempt_def)
    note I = insert_deliveryD [OF ins]
    have bound: "dl_attempt d < dl_max d" "dl_effect d = None" "dl_max d = 5"
      using row D(3) False by (auto simp: row_ok_def)
    let ?ds = "tput dl_id ?old (lg_deliveries s) @ [d1]"
    have F: "lg_queues s1 = lg_queues s" "lg_pgmq s1 = lg_pgmq s" "lg_messages s1 = lg_messages s"
      "lg_deliveries s1 = ?ds" "lg_effects s1 = lg_effects s" "lg_recons s1 = lg_recons s"
      by (subst I(19), simp add: put_delivery_def)+
    have N: "succeeds d (lg_next s) d1" "row_ok d1" "dl_id d1 < lg_next s1" "dl_chain d1 < lg_next s1"
      "lg_next s \<le> lg_next s1"
      using I(1-16) I(17) [of "dl_chain d"] fresh_row_ok [of d1] D(4,5) bound(1,3) R(6) [OF D(1)]
      by (auto simp: succeeds_def put_delivery_def)
    have V: "lg_vt s1 = lg_vt s" "lg_issued s1 = lg_issued s" "lg_body s1 = lg_body s" "queues_ok s1 = queues_ok s"
      "physical_queue s1 = physical_queue s"
      using lg_view_cong [of s1 s] F by simp_all
    have disp: "dispatchable d" "\<not> fenced d" using D(3) by (auto simp: dispatchable_def fenced_def)
    obtain v where v: "lg_vt s w n i = Some v" using Y(1) [OF D(1,2) disp(1)] D(4-6) by auto
    have "rows_ok ?ds (lg_messages s) (lg_next s1)"
      by (rule rows_ok_succ [OF L(3) D(1,2) superseded_current supersede_row_ok [OF row] N])
    moreover have "sync_ok (at_upd (lg_vt s) (dl_ws d) (dl_queue d) (dl_msg d1) (Some v))
        (at_upd (lg_issued s) (dl_ws d) (dl_queue d) (dl_msg d1) True) ?ds (lg_messages s)"
    proof (rule sync_ok_succ [OF L(4) R(1) D(1,2) superseded_current N(1)])
      show "\<not> here e (dl_ws d) (dl_queue d) (dl_msg d1)"
        if "e \<in> set (lg_deliveries s)" "e \<noteq> d" "dl_current e" for e
        using Y(3) [OF that(1) D(1) that(3) D(2)] that(2) I(4) D(6) by auto
      show "\<not> (ms_ws m = dl_ws d \<and> ms_queue m = dl_queue d \<and> ms_msg m = dl_msg d1)"
        if "m \<in> set (lg_messages s)" "undelivered (lg_deliveries s) m" for m
        using Y(5) [OF that D(1)] I(4) D(6) by (auto simp: here_def)
      show "dl_msg d1 = dl_msg d \<or> lg_vt s (dl_ws d) (dl_queue d) (dl_msg d) = None" using I(4) D(6) by simp
    qed
    moreover have "at_upd (lg_vt s) (dl_ws d) (dl_queue d) (dl_msg d1) (Some v) = lg_vt s"
      "at_upd (lg_issued s) (dl_ws d) (dl_queue d) (dl_msg d1) True = lg_issued s"
      using v Y(8) [OF D(1)] I(4) D(4-6) by (intro ext; auto)+
    moreover have "effects_ok (lg_effects s) ?ds"
      by (rule effects_ok_succ [OF L(5) R(1) D(1) superseded_current I(3,10) same_effects_refl])
        (use effects_okD(3) [OF L(5) D(1,2)] bound(2) current_unique [OF ok _ D(1) _ D(2)] in auto)
    ultimately have ok1: "ledger_ok s1"
      using L(1,2) V F unfolding ledger_ok_def by simp
    have "keeps now s s1"
    proof -
      have "x \<in> set ?ds" if x: "x \<in> set (lg_deliveries s)" "live_lease now x" for x
      proof -
        have "x \<noteq> d" using x(2) disp(2) by (auto simp: live_lease_def)
        then have "dl_id x \<noteq> dl_id d" using R(1) x(1) D(1) by (auto simp: distinct_map inj_on_def)
        then show ?thesis using x(1) by (simp add: in_set_tput)
      qed
      then show ?thesis unfolding keeps_def F(4) by blast
    qed
    then have "good now s s1" using ok1 F V by (simp add: good_def frame_def)
    moreover have "waiting s1 w n i d1" unfolding waiting_def F(4) using I by (simp add: here_def)
    ultimately show ?thesis using I(3,13) V N(5) by simp
  qed
  then show "good now s s1" "waiting s1 w n i d1" "dl_message d1 = dl_message d" "lg_vt s1 = lg_vt s"
    "dl_completed d1 = None" "lg_next s \<le> lg_next s1" by blast+
qed

definition caller :: "bound_context \<Rightarrow> bool" where
  "caller c \<longleftrightarrow> bc_principal c \<noteq> None \<and> bc_run c \<noteq> None"

text \<open>What a successful claim hands out.\<close>

definition claimed :: "time \<Rightarrow> bound_context \<Rightarrow> string \<Rightarrow> ledger \<Rightarrow> ledger \<Rightarrow> delivery \<Rightarrow> bool" where
  "claimed now c receipt s s' d \<longleftrightarrow> d \<in> set (lg_deliveries s') \<and> dl_current d \<and> dl_state d = Leased
     \<and> dl_receipt d = Some receipt \<and> dl_consumer d = bc_principal c \<and> dl_run d = bc_run c
     \<and> dl_lease d = Some (now + seconds 30) \<and> dl_effect d = None
     \<and> (\<forall>x\<in>set (lg_deliveries s). live_lease now x \<longrightarrow> dl_message x \<noteq> dl_message d)"

lemma lease_row_ok:
  assumes "row_ok d" "dl_state d \<in> {Ready, Scheduled}" "dl_completed d = None" "caller c" "length receipt = 32"
  shows "row_ok (lease_to now c receipt d)"
  using assms by (elim insertE emptyE; simp add: row_ok_def fenced_def lease_to_def caller_def)

lemma take_lease_good:
  assumes ok: "ledger_ok s" and d: "waiting s w n i d" and p: "physical_queue s w n = Some p"
    and c: "caller c" "length receipt = 32"
  shows "\<exists>d2 s'. take_lease now c w n p receipt i body evs d s
           = Inr (Scan_claimed d2 body (evs @ [queue_result d2 ''queue.claim'']) s')
         \<and> good now s s' \<and> claimed now c receipt s s' d2"
proof -
  obtain d1 s1 where na: "next_attempt now w n i d s = (d1, s1)" by fastforce
  note N = next_attempt_good [OF ok d na]
  have ok1: "ledger_ok s1" "frame s s1" using N(1) by (simp_all add: good_def)
  have p1: "physical_queue s1 w n = Some p" using frame_physical [OF ok1(2)] p by simp
  have D: "d1 \<in> set (lg_deliveries s1)" "dl_current d1" "dl_state d1 \<in> {Ready, Scheduled}"
    "dl_ws d1 = w" "dl_queue d1 = n" "dl_msg d1 = i"
    using N(2) by (auto simp: waiting_def here_def)
  have disp: "dispatchable d1" "\<not> fenced d1" using D(3) by (auto simp: dispatchable_def fenced_def)
  have row: "row_ok d1" by (rule dl_row [OF ok1(1) D(1)])
  have e: "dl_effect d1 = None" using row D(3) by (auto simp: row_ok_def)
  have p1': "physical_queue s1 (dl_ws d1) (dl_queue d1) = Some p" using p1 D by simp
  have vt: "lg_vt s1 (dl_ws d1) (dl_queue d1) (dl_msg d1) \<noteq> None"
    using sync_okD(1) [OF ledger_okD(4) [OF ok1(1)] D(1,2) disp(1)] by auto
  obtain s2 where s2: "hide_until p (dl_msg d1) (Some (now + seconds 30)) s1 = Inr s2"
    using hide_until_total [OF ledger_okD(1) [OF ok1(1)] p1' vt] by blast
  let ?d2 = "lease_to now c receipt d1"
  note f = hide_frame [OF ledger_okD(1) [OF ok1(1)] p1' s2]
  have rk: "row_ok ?d2" by (rule lease_row_ok [OF row D(3) N(5) c])
  have "ledger_ok (put_delivery ?d2 s2)"
    using ledger_ok_hide [OF ok1(1) D(1,2) p1' s2 _ rk]
    by (simp add: lease_to_def same_place_def dispatchable_def)
  moreover have "keeps now s1 (put_delivery ?d2 s2)"
    by (rule keeps_put [OF ok1(1) D(1) _ _ f(2)]) (simp_all add: live_lease_def disp lease_to_def)
  ultimately have g: "good now s1 (put_delivery ?d2 s2)" using f(1) by (simp add: good_def frame_put)
  have other: "dl_message x \<noteq> dl_message ?d2" if x: "x \<in> set (lg_deliveries s)" "live_lease now x" for x
  proof
    assume m: "dl_message x = dl_message ?d2"
    have x1: "x \<in> set (lg_deliveries s1)" using N(1) x by (auto simp: good_def keeps_def)
    have "x = d1"
      by (rule current_unique [OF ok1(1) x1 D(1) _ D(2)]) (use x(2) m in \<open>simp_all add: live_lease_def lease_to_def\<close>)
    then show False using x(2) disp(2) by (simp add: live_lease_def)
  qed
  have "?d2 \<in> set (lg_deliveries (put_delivery ?d2 s2))"
    using D(1) f(2) by (auto simp: put_delivery_def in_set_tput lease_to_def)
  then have "claimed now c receipt s (put_delivery ?d2 s2) ?d2"
    using other e D(2) by (simp add: claimed_def lease_to_def)
  moreover have "take_lease now c w n p receipt i body evs d s
           = Inr (Scan_claimed ?d2 body (evs @ [queue_result ?d2 ''queue.claim'']) (put_delivery ?d2 s2))"
    using na s2 D(6) by (simp add: take_lease_def Let_def)
  ultimately show ?thesis using good_trans [OF N(1) g] by blast
qed

fun scan_good :: "time \<Rightarrow> bound_context \<Rightarrow> string \<Rightarrow> ledger \<Rightarrow> scan \<Rightarrow> bool" where
  "scan_good now c receipt s (Scan_empty s') = good now s s'"
| "scan_good now c receipt s (Scan_skip evs s') = good now s s'"
| "scan_good now c receipt s (Scan_claimed d body evs s') = (good now s s' \<and> claimed now c receipt s s' d)"

lemma scan_good_trans:
  "good now s s1 \<Longrightarrow> scan_good now c receipt s1 r \<Longrightarrow> scan_good now c receipt s r"
proof (cases r)
  case (Scan_claimed d body evs s')
  assume "good now s s1" "scan_good now c receipt s1 r"
  then show ?thesis
    using good_trans [of now s s1 s'] by (auto simp: Scan_claimed claimed_def good_def keeps_def)
qed (auto intro: good_trans)

lemma claim_delivery_good:
  assumes ok: "ledger_ok s" and d: "waiting s w n i d" and p: "physical_queue s w n = Some p"
    and c: "caller c" "length receipt = 32"
  shows "(\<exists>r. claim_delivery now c w n p receipt i evs d s = Inr r \<and> scan_good now c receipt s r)
     \<or> (claim_delivery now c w n p receipt i evs d s = Inl Payload_read_failed \<and> \<not> bodies_ok now s)"
proof -
  have D: "d \<in> set (lg_deliveries s)" "dl_current d" "dl_state d \<in> {Ready, Scheduled}"
    "dl_ws d = w" "dl_queue d = n" "dl_msg d = i"
    using d by (auto simp: waiting_def here_def)
  consider (lost) "claim_payload now w n (dl_message d) s = Inl Payload_read_failed" "\<not> bodies_ok now s"
    | (read) bd where "claim_payload now w n (dl_message d) s = Inr bd"
    using claim_payload_cases [OF ok D(1), of now] D(4,5) by auto
  then show ?thesis
  proof cases
    case lost
    then show ?thesis using D(3) by (simp add: claim_delivery_def guardE_def)
  next
    case bd: read
  show ?thesis
  proof (cases bd)
    case None
    obtain e s' where "dead_letter now p d s = Inr (e, s')" "good now s s'"
      using dead_letter_good [OF ok D(1-3), of p now] p D(4,5) by auto
    then show ?thesis using None bd D(3) by (auto simp: claim_delivery_def guardE_def)
  next
    case (Some body)
    show ?thesis
    proof (cases "dl_next d \<noteq> None \<and> now < the (dl_next d)")
      case True
      let ?v = "the (dl_next d)"
      obtain t where t: "lg_pgmq s p = Some t" using physical_queue_table [OF ledger_okD(1) [OF ok] p] by blast
      have disp: "dispatchable d" "\<not> fenced d" using D(3) by (auto simp: dispatchable_def fenced_def)
      have vt: "lg_vt s w n i \<noteq> None"
        using sync_okD(1) [OF ledger_okD(4) [OF ok] D(1,2) disp(1)] D(4-6) by auto
      obtain s' where h: "hide_until p i (Some ?v) s = Inr s'"
        using hide_until_total [OF ledger_okD(1) [OF ok] p vt] by blast
      have run: "\<exists>f. with_table p (pq_set_vt i ?v) s = Inr (f, s')"
        using h by (auto simp: hide_until_def ebind_Inr_iff split: if_splits)
      obtain v' P where P: "Some ?v = Some v'" "s' = s\<lparr>lg_pgmq := P\<rparr>" "queues_ok s'"
        "lg_vt s' = at_upd (lg_vt s) w n i (Some v')" "lg_issued s' = lg_issued s" "lg_body s' = lg_body s"
        by (rule hide_until_ok [OF ledger_okD(1) [OF ok] p h]) blast
      have "good now s s'"
      proof (rule vt_only_good [OF ok P(2,3,5,6,4) vt])
        fix x assume x: "x \<in> set (lg_deliveries s)" "dl_current x" "fenced x" "here x w n i"
        have "here x (dl_ws d) (dl_queue d) (dl_msg d)" using x(4) D by simp
        then have "x = d" using sync_okD(3) [OF ledger_okD(4) [OF ok] x(1) D(1) x(2) D(2)] by blast
        then show "\<exists>l. dl_lease x = Some l \<and> l \<le> v'" using x(3) disp(2) by simp
      qed
      then show ?thesis using run True Some bd D(3) by (auto simp: claim_delivery_def guardE_def)
    next
      case False
      obtain d2 s' where "take_lease now c w n p receipt i body evs d s
           = Inr (Scan_claimed d2 body (evs @ [queue_result d2 ''queue.claim'']) s')"
         "good now s s'" "claimed now c receipt s s' d2"
        using take_lease_good [OF ok d p c, of now body evs] by blast
      then show ?thesis using False Some bd D(3) by (auto simp: claim_delivery_def guardE_def)
    qed
  qed
qed
qed

lemma claim_scan_good:
  assumes ok: "ledger_ok s" and p: "physical_queue s w n = Some p"
    and c: "caller c" "length receipt = 32"
  shows "(\<exists>r. claim_scan now c w n p receipt evs s = Inr r \<and> scan_good now c receipt s r)
     \<or> (claim_scan now c w n p receipt evs s = Inl Payload_read_failed \<and> \<not> bodies_ok now s)"
proof -
  obtain r s1 where r: "with_table p (pq_receive now (seconds 30)) s = Inr (r, s1)" "good now s s1"
    "lg_deliveries s1 = lg_deliveries s"
    "\<And>i. r = Some i \<Longrightarrow> lg_vt s1 w n i \<noteq> None
       \<and> (\<forall>d\<in>set (lg_deliveries s). dl_current d \<and> fenced d \<and> here d w n i \<longrightarrow> expired_lease now d)"
    by (rule receive_good [OF ok p]) blast
  show ?thesis
  proof (cases r)
    case None
    then show ?thesis using r by (simp add: claim_scan_def)
  next
    case (Some i)
    have ok1: "ledger_ok s1" "frame s s1" using r(2) by (simp_all add: good_def)
    obtain d s2 where m: "materialise now w n i s1 = Inr (d, s2)" "good now s1 s2" "d \<in> set (lg_deliveries s2)"
      "dl_current d" "dispatchable d" "here d w n i" "fenced d \<longrightarrow> d \<in> set (lg_deliveries s1)"
      using materialise_good [OF ok1(1), of w n i now] r(4) [OF Some] by blast
    have ok2: "ledger_ok s2" "frame s1 s2" using m(2) by (simp_all add: good_def)
    have ex: "fenced d \<Longrightarrow> expired_lease now d" using r(3,4) Some m(4,6,7) by auto
    obtain d' ev s3 where e: "expire_attempt now d s2 = Inr ((d', ev), s3)" "good now s2 s3"
      "if fenced d \<and> dl_state d' \<noteq> Scheduled then True else waiting s3 w n i d'"
      using expire_attempt_good [OF ok2(1) m(3-6) ex] by blast
    have g: "good now s s3" using good_trans [OF good_trans [OF r(2) m(2)] e(2)] .
    show ?thesis
    proof (cases "fenced d \<and> dl_state d' \<noteq> Scheduled")
      case True
      then show ?thesis using r(1) Some m(1) e(1) g by (simp add: claim_scan_def fenced_def)
    next
      case False
      then have w: "waiting s3 w n i d'" using e(3) by simp
      have ok3: "ledger_ok s3" "frame s s3" using g by (simp_all add: good_def)
      have p3: "physical_queue s3 w n = Some p" using frame_physical [OF ok3(2)] p by simp
      have run: "claim_scan now c w n p receipt evs s = claim_delivery now c w n p receipt i (evs @ ev) d' s3"
        using r(1) Some m(1) e(1) False by (auto simp: claim_scan_def fenced_def)
      show ?thesis
        using claim_delivery_good [OF ok3(1) w p3 c, of now "evs @ ev"] bodies_ok_frame [OF ok3(2)]
          scan_good_trans [OF g] unfolding run by blast
    qed
  qed
qed

lemma claim_loop_good:
  assumes "ledger_ok s" "physical_queue s w n = Some p" "caller c" "length receipt = 32"
  shows "(\<exists>r evs' s'. claim_loop k now c w n p receipt evs s = Inr ((r, evs'), s') \<and> good now s s'
     \<and> (\<forall>d body. r = Some (d, body) \<longrightarrow> claimed now c receipt s s' d))
     \<or> (claim_loop k now c w n p receipt evs s = Inl Payload_read_failed \<and> \<not> bodies_ok now s)"
  using assms
proof (induction k arbitrary: s evs)
  case 0
  then show ?case by (simp add: good_refl)
next
  case (Suc k)
  consider (lost) "claim_scan now c w n p receipt evs s = Inl Payload_read_failed" "\<not> bodies_ok now s"
    | (ran) x where "claim_scan now c w n p receipt evs s = Inr x" "scan_good now c receipt s x"
    using claim_scan_good [OF Suc.prems] by blast
  then show ?case
  proof cases
    case lost
    then show ?thesis by simp
  next
    case x: ran
    show ?thesis
    proof (cases x)
      case (Scan_skip evs1 s1)
      then have g: "good now s s1" using x(2) by simp
      then have f: "ledger_ok s1" "frame s s1" by (simp_all add: good_def)
      have p1: "physical_queue s1 w n = Some p" using frame_physical [OF f(2)] Suc.prems by simp
      have run: "claim_loop (Suc k) now c w n p receipt evs s = claim_loop k now c w n p receipt evs1 s1"
        using x(1) Scan_skip by simp
      have tr: "claimed now c receipt s s' d" if "claimed now c receipt s1 s' d" for s' d
        using that g by (auto simp: claimed_def good_def keeps_def)
      show ?thesis
        using Suc.IH [OF f(1) p1 Suc.prems(3,4), of evs1] good_trans [OF g] tr bodies_ok_frame [OF f(2)]
        unfolding run by meson
    qed (use x in auto)
  qed
qed

lemma lapsed_effects_rows:
  "d \<in> set (lapsed_effects now w n s) \<Longrightarrow> d \<in> set (lg_deliveries s) \<and> dl_current d \<and> fenced d \<and> expired_lease now d"
  by (auto simp: lapsed_effects_def fenced_def dest!: in_set_takeD)

lemma lapsed_payloads_rows:
  "d \<in> set (lapsed_payloads now w n s) \<Longrightarrow> d \<in> set (lg_deliveries s) \<and> dl_current d
     \<and> dl_state d \<in> {Ready, Scheduled} \<and> dl_ws d = w \<and> dl_queue d = n"
  by (auto simp: lapsed_payloads_def dest!: in_set_takeD)

lemma lapsed_distinct:
  assumes "ledger_ok s"
  shows "distinct (map dl_id (lapsed_effects now w n s))" "distinct (map dl_id (lapsed_payloads now w n s))"
  using distinct_ids [OF assms]
  by (auto simp: lapsed_effects_def lapsed_payloads_def distinct_map_sort_key take_map [symmetric]
      intro!: distinct_take)

lemma queue_context_caller: "queue_context E w = Inr c \<Longrightarrow> caller c"
  by (auto simp: queue_context_def caller_def split: option.splits if_splits)

text \<open>The whole claim: past its own checks it returns, unless an unexpired body was lost.\<close>

lemma claim_run:
  assumes ok: "ledger_ok s"
    and c: "queue_context E w = Inr c" and g: "assert_restore_open (en_ctl E) = Inr ()"
    and h: "length h = 32" and p: "physical_queue s w n = Some p"
  shows "(\<exists>r evs s'. claim E w n (Some h) s = Inr ((r, evs), s') \<and> good (en_now E) s s'
     \<and> (\<forall>d body. r = Some (d, body) \<longrightarrow> claimed (en_now E) c h s s' d))
     \<or> (claim E w n (Some h) s = Inl Payload_read_failed \<and> \<not> bodies_ok (en_now E) s)"
proof -
  let ?now = "en_now E"
  obtain ev1 s1 where s1: "settle_lapsed ?now (lapsed_effects ?now w n s) s = Inr (ev1, s1)" "good ?now s s1"
    using settle_lapsed_good [OF ok lapsed_effects_rows [of _ ?now w n s] lapsed_distinct(1) [OF ok]] by blast
  have f1: "ledger_ok s1" "frame s s1" using s1(2) by (simp_all add: good_def)
  have p1: "physical_queue s1 w n = Some p" using frame_physical [OF f1(2)] p by simp
  obtain ev2 s2 where s2: "dead_letter_all ?now p (lapsed_payloads ?now w n s1) s1 = Inr (ev2, s2)" "good ?now s1 s2"
    using dead_letter_all_good [OF f1(1) p1 lapsed_payloads_rows [of _ ?now w n s1] lapsed_distinct(2) [OF f1(1)]] by blast
  note g2 = good_trans [OF s1(2) s2(2)]
  have f2: "ledger_ok s2" "frame s s2" using g2 by (simp_all add: good_def)
  have p2: "physical_queue s2 w n = Some p" using frame_physical [OF f2(2)] p by simp
  have run: "claim E w n (Some h) s = claim_loop 32 ?now c w n p h (ev1 @ ev2) s2"
    using c g h p s1(1) s2(1) by (simp add: claim_def guardE_def)
  have tr: "claimed ?now c h s s' d" if "claimed ?now c h s2 s' d" for s' d
    using that g2 by (auto simp: claimed_def good_def keeps_def)
  show ?thesis
    using claim_loop_good [OF f2(1) p2 queue_context_caller [OF c] h, of 32 ?now "ev1 @ ev2"]
      good_trans [OF g2] tr bodies_ok_frame [OF f2(2)] unfolding run by meson
qed

lemma claim_cases:
  assumes "claim E w n receipt s = Inr x"
  obtains c h p where "queue_context E w = Inr c" "assert_restore_open (en_ctl E) = Inr ()"
    "receipt = Some h" "length h = 32" "physical_queue s w n = Some p"
  using assms by (auto simp: claim_def ebind_Inr_iff split: option.splits)

lemma claim_ok:
  assumes ok: "ledger_ok s" and r: "claim E w n receipt s = Inr ((r, evs), s')"
  shows "good (en_now E) s s'"
    and "r = Some (d, body) \<Longrightarrow> \<exists>c h. queue_context E w = Inr c \<and> receipt = Some h \<and> claimed (en_now E) c h s s' d"
proof -
  obtain c h p where c: "queue_context E w = Inr c" "assert_restore_open (en_ctl E) = Inr ()"
    "receipt = Some h" "length h = 32" "physical_queue s w n = Some p"
    using claim_cases [OF r] .
  have "good (en_now E) s s' \<and> (\<forall>d body. r = Some (d, body) \<longrightarrow> claimed (en_now E) c h s s' d)"
    using claim_run [OF ok c(1,2,4,5)] r c(3) by simp
  then show "good (en_now E) s s'"
    and "r = Some (d, body) \<Longrightarrow> \<exists>c h. queue_context E w = Inr c \<and> receipt = Some h \<and> claimed (en_now E) c h s s' d"
    using c by blast+
qed

end
