(* ===== verification/LedgerReach.thy ===== *)
theory LedgerReach
  imports ClaimSteps
begin

text \<open>The ledger as a state machine: an operation of the queue schema is a step, the reachable
  ledgers are those of any sequence of steps from the empty one, by any callers at any times.\<close>

section \<open>Steps and reachable ledgers\<close>

datatype queue_op =
    Op_create uuid string
  | Op_send uuid string "string option" "string option"
  | Op_claim uuid string "string option"
  | Op_renew uuid uuid "string option"
  | Op_ack uuid uuid "string option"
  | Op_nack uuid uuid "string option"
  | Op_hold uuid uuid "string option"
  | Op_begin uuid uuid "string option" "string option" "string option"
  | Op_pause uuid uuid
  | Op_replay uuid uuid
  | Op_release uuid uuid
  | Op_cancel uuid uuid "bool option" "string option"
  | Op_ensure uuid uuid
  | Op_reconcile uuid uuid "string option" "string option"
  | Op_finish uuid uuid nat "audit_event option"
  | Op_restore uuid uuid "int option"

definition after :: "raised + ('a \<times> ledger) \<Rightarrow> raised + ledger" where
  "after r = map_sum id snd r"

fun apply_op :: "(string \<Rightarrow> string) \<Rightarrow> env \<Rightarrow> queue_op \<Rightarrow> ledger \<Rightarrow> raised + ledger" where
  "apply_op sha E (Op_create w n) s = after (create_queue sha E w n s)"
| "apply_op sha E (Op_send w n k p) s = after (send_message sha E w n k p s)"
| "apply_op sha E (Op_claim w n h) s = after (claim E w n h s)"
| "apply_op sha E (Op_renew w i h) s = after (renew E w i h s)"
| "apply_op sha E (Op_ack w i h) s = after (ack E w i h s)"
| "apply_op sha E (Op_nack w i h) s = after (nack E w i h s)"
| "apply_op sha E (Op_hold w i h) s = after (hold E w i h s)"
| "apply_op sha E (Op_begin w i h a t) s = after (begin_effect sha E w i h a t s)"
| "apply_op sha E (Op_pause w p) s = after (pause_effects E w p s)"
| "apply_op sha E (Op_replay w i) s = after (replay E w i s)"
| "apply_op sha E (Op_release w i) s = after (release E w i s)"
| "apply_op sha E (Op_cancel w i f r) s = after (cancel E w i f r s)"
| "apply_op sha E (Op_ensure w m) s = after (ensure_delivery E w m s)"
| "apply_op sha E (Op_reconcile w i d e) s = after (reconcile E w i d e s)"
| "apply_op sha E (Op_finish w i n a) s = after (finish_reconciliation E w i n a s)"
| "apply_op sha E (Op_restore e w k) s = after (restore_batch E e w k s)"

inductive ledger_step :: "(string \<Rightarrow> string) \<Rightarrow> env \<Rightarrow> queue_op \<Rightarrow> ledger \<Rightarrow> ledger \<Rightarrow> bool" for sha where
  step: "apply_op sha E op s = Inr s' \<Longrightarrow> ledger_step sha E op s s'"

inductive_cases ledger_stepE: "ledger_step sha E op s s'"

definition empty_ledger :: ledger where
  "empty_ledger = \<lparr>lg_queues = [], lg_messages = [], lg_deliveries = [], lg_effects = [],
     lg_recons = [], lg_pgmq = Map.empty, lg_next = 0\<rparr>"

inductive reachable :: "(string \<Rightarrow> string) \<Rightarrow> ledger \<Rightarrow> bool" for sha where
  start: "reachable sha empty_ledger"
| run: "reachable sha s \<Longrightarrow> ledger_step sha E op s s' \<Longrightarrow> reachable sha s'"

lemma after_Inr: "after r = Inr s' \<longleftrightarrow> (\<exists>x. r = Inr (x, s'))"
  by (cases r) (auto simp: after_def)

lemma empty_ledger_ok: "ledger_ok empty_ledger"
  by (simp add: ledger_ok_def empty_ledger_def queues_ok_def rows_ok_def sync_ok_def effects_ok_def
      lg_vt_def lg_table_def physical_queue_def queue_of_def)

lemma claim_ledger_ok: "ledger_ok s \<Longrightarrow> claim E w n h s = Inr (x, s') \<Longrightarrow> ledger_ok s'"
  using claim_ok(1) by (cases x) (fastforce simp: good_def)

lemma finish_result:
  assumes "finish_reconciliation E w i n a s = Inr (x, s')"
  obtains rs where "s' = s\<lparr>lg_recons := rs\<rparr>"
proof -
  obtain r where r: "find (\<lambda>r. rc_ws r = w \<and> rc_id r = i \<and> rc_position r = None) (lg_recons s) = Some r"
    using assms by (cases "find (\<lambda>r. rc_ws r = w \<and> rc_id r = i \<and> rc_position r = None) (lg_recons s)")
      (auto simp: finish_reconciliation_def ebind_Inr_iff)
  have "s' = s\<lparr>lg_recons := tput rc_id (r\<lparr>rc_position := Some n\<rparr>) (lg_recons s)\<rparr>"
    using assms r by (cases "delivery_in s w (rc_delivery r)"; cases a) (auto simp: finish_reconciliation_def ebind_Inr_iff)
  then show ?thesis using that by blast
qed

lemma ledger_ok_recons: "ledger_ok (s\<lparr>lg_recons := rs\<rparr>) = ledger_ok s"
proof -
  have q: "queue_of (s\<lparr>lg_recons := rs\<rparr>) = queue_of s" by (intro ext) (simp add: queue_of_def)
  then have p: "physical_queue (s\<lparr>lg_recons := rs\<rparr>) = physical_queue s" by (intro ext) (simp add: physical_queue_def)
  then have t: "lg_table (s\<lparr>lg_recons := rs\<rparr>) = lg_table s" by (intro ext) (simp add: lg_table_def)
  then show ?thesis using p by (simp add: ledger_ok_def queues_ok_def lg_vt_def [abs_def] lg_issued_def [abs_def])
qed

text \<open>One lemma for all operations: a step keeps the ledger well formed.\<close>

lemma ledger_step_ok:
  assumes "ledger_step sha E op s s'" "ledger_ok s"
  shows "ledger_ok s'"
  using assms
proof (cases rule: ledger_step.cases)
  case step
  show ?thesis
  proof (cases op)
    case (Op_create w n)
    then show ?thesis using step assms(2) create_queue_ok by (fastforce simp: after_Inr)
  next
    case (Op_send w n k p)
    then show ?thesis using step assms(2) send_message_ok by (fastforce simp: after_Inr)
  next
    case (Op_claim w n h)
    then show ?thesis using step assms(2) claim_ledger_ok by (fastforce simp: after_Inr)
  next
    case (Op_renew w i h)
    then show ?thesis using step assms(2) receipt_verb_ok [where v = Renew] by (fastforce simp: after_Inr renew_def)
  next
    case (Op_ack w i h)
    then show ?thesis using step assms(2) receipt_verb_ok [where v = Ack] by (fastforce simp: after_Inr ack_def)
  next
    case (Op_nack w i h)
    then show ?thesis using step assms(2) receipt_verb_ok [where v = Nack] by (fastforce simp: after_Inr nack_def)
  next
    case (Op_hold w i h)
    then show ?thesis using step assms(2) hold_ok by (fastforce simp: after_Inr)
  next
    case (Op_begin w i h a t)
    then show ?thesis using step assms(2) begin_effect_ok by (fastforce simp: after_Inr)
  next
    case (Op_pause w p)
    then show ?thesis using step assms(2) pause_effects_ok by (fastforce simp: after_Inr)
  next
    case (Op_replay w i)
    then show ?thesis using step assms(2) redispatch_ok [where st = Dead_lettered]
      by (fastforce simp: after_Inr replay_def)
  next
    case (Op_release w i)
    then show ?thesis using step assms(2) redispatch_ok [where st = Held]
      by (fastforce simp: after_Inr release_def)
  next
    case (Op_cancel w i f r)
    then show ?thesis using step assms(2) cancel_ok by (fastforce simp: after_Inr)
  next
    case (Op_ensure w m)
    then show ?thesis using step assms(2) ensure_delivery_ok by (fastforce simp: after_Inr)
  next
    case (Op_reconcile w i d e)
    then show ?thesis using step assms(2) reconcile_ok by (fastforce simp: after_Inr)
  next
    case (Op_finish w i n a)
    then show ?thesis using step assms(2) by (auto simp: after_Inr ledger_ok_recons elim!: finish_result)
  next
    case (Op_restore e w k)
    then show ?thesis using step assms(2) restore_batch_ok by (fastforce simp: after_Inr)
  qed
qed

lemma reachable_ledger_ok: "reachable sha s \<Longrightarrow> ledger_ok s"
  by (induction rule: reachable.induct) (auto intro: empty_ledger_ok ledger_step_ok)

section \<open>Unreset effects stay until a User says they did not apply\<close>

lemma settle_effects: "settle now v d s = Inr (d', s') \<Longrightarrow> lg_effects s' = lg_effects s \<and> lg_recons s' = lg_recons s"
  by (auto simp: settle_def ebind_Inr_iff hide_until_def retire_def with_table_def put_delivery_def
      split: option.splits if_splits prod.splits)

lemma hide_effects: "hide_until p i at s = Inr s' \<Longrightarrow> lg_effects s' = lg_effects s"
  by (auto simp: hide_until_def with_table_def ebind_Inr_iff split: option.splits if_splits prod.splits)

lemma retire_effects: "retire p i s = Inr s' \<Longrightarrow> lg_effects s' = lg_effects s"
  by (auto simp: retire_def with_table_def ebind_Inr_iff split: option.splits if_splits prod.splits)

lemma put_effects [simp]: "lg_effects (put_delivery d s) = lg_effects s"
  by (simp add: put_delivery_def)

lemma insert_effects: "insert_delivery now w n m i ch parent attempt mx s = (d, s') \<Longrightarrow> lg_effects s' = lg_effects s"
  by (auto simp: insert_delivery_def draw_uuid_def add_delivery_def Let_def split: option.splits)

lemma with_table_effects: "with_table p f s = Inr (x, s') \<Longrightarrow> lg_effects s' = lg_effects s"
  by (auto simp: with_table_def split: option.splits prod.splits)

lemma resend_effects: "resend now w d old body s = Inr (n, s') \<Longrightarrow> lg_effects s' = lg_effects s"
  by (auto simp: resend_def ebind_Inr_iff dest!: with_table_effects insert_effects split: option.splits)

lemma receipt_verb_effects: "receipt_verb E w i h v s = Inr (x, s') \<Longrightarrow> lg_effects s' = lg_effects s"
  by (auto simp: receipt_verb_def ebind_Inr_iff Let_def dest!: settle_effects hide_effects
      split: option.splits if_splits)

lemma pause_all_effects: "pause_all now ds s = Inr (evs, s') \<Longrightarrow> lg_effects s' = lg_effects s"
  by (induction ds arbitrary: s evs)
    (auto simp: ebind_Inr_iff dest!: retire_effects split: option.splits)

lemma restore_all_effects: "restore_all now w ds s = Inr (evs, s') \<Longrightarrow> lg_effects s' = lg_effects s"
  by (induction ds arbitrary: s evs)
    (auto simp: ebind_Inr_iff restore_one_def Let_def dest!: retire_effects hide_effects split: option.splits if_splits)

lemma send_message_effects:
  assumes "send_message sha E w n key body s = Inr (x, s')"
  shows "lg_effects s' = lg_effects s"
proof (cases key)
  case (Some k)
  show ?thesis
  proof (cases body)
    case (Some p)
    show ?thesis using assms \<open>key = Some k\<close> Some
      by (cases "queue_of s w n"; cases "message_by_key s w n k")
        (auto simp: send_message_def ebind_Inr_iff Let_def draw_uuid_def dest!: with_table_effects split: if_splits)
  qed (use assms \<open>key = Some k\<close> in \<open>auto simp: send_message_def ebind_Inr_iff\<close>)
qed (use assms in \<open>auto simp: send_message_def ebind_Inr_iff\<close>)

lemma cancel_effects:
  assumes "cancel E w i f reason s = Inr (x, s')"
  shows "lg_effects s' = lg_effects s"
proof -
  obtain d r where d: "locked_delivery E w i True s = Inr d" "reason = Some r"
    using assms by (auto simp: cancel_def ebind_Inr_iff split: option.splits)
  then show ?thesis using assms
    by (cases "physical_queue s w (dl_queue d)") (auto simp: cancel_def ebind_Inr_iff Let_def dest!: retire_effects)
qed

text \<open>The one operation that gives up an effect: a decision of \<open>not_applied\<close>.\<close>

definition gives_up :: "queue_op \<Rightarrow> bool" where
  "gives_up op = (case op of Op_reconcile w i d e \<Rightarrow> d = Some ''not_applied'' | _ \<Rightarrow> False)"

lemma begin_effect_sticky:
  assumes ok: "ledger_ok s" and r: "begin_effect sha E w i h a t s = Inr (x, s')" and m: "unreset (lg_effects s) m"
  shows "unreset (lg_effects s') m"
proof -
  obtain d where d: "fenced_delivery E w i h s = Inr d" using r by (auto simp: begin_effect_def ebind_Inr_iff)
  show ?thesis
  proof (cases "effect_of s (dl_message d)")
    case None
    then show ?thesis using r d m
      by (auto simp: begin_effect_def Let_def unreset_def split: option.splits)
  next
    case (Some e)
    then have e: "e \<in> set (lg_effects s)" "ef_message e = dl_message d"
      by (auto simp: effect_of_def dest: tget_SomeD)
    have "lg_effects s' = lg_effects s \<or> lg_effects s' = tput ef_message (e\<lparr>ef_reset := False\<rparr>) (lg_effects s)"
      using r d Some by (auto simp: begin_effect_def Let_def split: option.splits if_splits)
    moreover have "unreset (tput ef_message (e\<lparr>ef_reset := False\<rparr>) (lg_effects s)) m"
    proof -
      obtain x where x: "x \<in> set (lg_effects s)" "ef_message x = m" "\<not> ef_reset x" using m by (auto simp: unreset_def)
      have "(if ef_message x = ef_message e then e\<lparr>ef_reset := False\<rparr> else x)
          \<in> set (tput ef_message (e\<lparr>ef_reset := False\<rparr>) (lg_effects s))"
        using x(1) e(1) imageI [OF e(1), of ef_message] by (simp add: in_set_tput)
      then show ?thesis unfolding unreset_def
        by (rule rev_bexI) (use x(2,3) in \<open>cases "ef_message x = ef_message e"; simp\<close>)
    qed
    ultimately show ?thesis using m by auto
  qed
qed

lemma reconcile_effects:
  assumes "reconcile E w i decision evidence s = Inr (x, s')" "decision \<noteq> Some ''not_applied''"
  shows "lg_effects s' = lg_effects s"
proof -
  obtain rc evs where x: "x = (rc, evs)" by (cases x)
  show ?thesis using reconcileD [OF assms(1) [unfolded x]]
  proof (elim disjE exE conjE)
    fix c d dec ev suc s1
    assume h: "Option.bind decision parse_outcome = Some dec" "decide E w dec d s = Inr (suc, s1)"
      "record_decision E w c d dec ev suc s1 = ((rc, evs), s')"
    have "dec \<noteq> Not_applied"
      using h(1) assms(2) by (cases decision) (auto split: if_splits)
    then have "lg_effects s1 = lg_effects s" using h(2) by (cases dec) (auto simp: decide_def)
    then show ?thesis using h(3) by (auto simp: record_decision_def draw_uuid_def Let_def)
  qed simp
qed

lemma effect_sticky:
  assumes st: "ledger_step sha E op s s'" and ok: "ledger_ok s" and m: "unreset (lg_effects s) m"
    and g: "\<not> gives_up op"
  shows "unreset (lg_effects s') m"
  using st
proof (cases rule: ledger_step.cases)
  case step
  have "lg_effects s' = lg_effects s \<or> unreset (lg_effects s') m"
  proof (cases op)
    case (Op_create w n)
    then show ?thesis using step by (auto simp: after_Inr create_queue_def ebind_Inr_iff Let_def)
  next
    case (Op_send w n k p)
    then show ?thesis using step send_message_effects by (fastforce simp: after_Inr)
  next
    case (Op_claim w n h)
    then obtain r evs where "claim E w n h s = Inr ((r, evs), s')" using step by (auto simp: after_Inr)
    then show ?thesis using claim_ok(1) [OF ok] by (auto simp: good_def frame_def)
  next
    case (Op_renew w i h)
    then show ?thesis using step receipt_verb_effects by (fastforce simp: after_Inr renew_def)
  next
    case (Op_ack w i h)
    then show ?thesis using step receipt_verb_effects by (fastforce simp: after_Inr ack_def)
  next
    case (Op_nack w i h)
    then show ?thesis using step receipt_verb_effects by (fastforce simp: after_Inr nack_def)
  next
    case (Op_hold w i h)
    then show ?thesis using step
      by (auto simp: after_Inr hold_def ebind_Inr_iff Let_def dest!: retire_effects split: option.splits)
  next
    case (Op_begin w i h a t)
    then show ?thesis using step begin_effect_sticky [OF ok _ m] by (fastforce simp: after_Inr)
  next
    case (Op_pause w p)
    then show ?thesis using step
      by (auto simp: after_Inr pause_effects_def dest!: pause_all_effects split: option.splits)
  next
    case (Op_replay w i)
    then show ?thesis using step
      by (auto simp: after_Inr replay_def redispatch_def ebind_Inr_iff dest!: resend_effects split: option.splits)
  next
    case (Op_release w i)
    then show ?thesis using step
      by (auto simp: after_Inr release_def redispatch_def ebind_Inr_iff dest!: resend_effects split: option.splits)
  next
    case (Op_cancel w i f r)
    then show ?thesis using step cancel_effects by (fastforce simp: after_Inr)
  next
    case (Op_ensure w k)
    then show ?thesis using step
      by (auto simp: after_Inr ensure_delivery_def ebind_Inr_iff dest!: insert_effects split: option.splits if_splits prod.splits)
  next
    case (Op_reconcile w i d e)
    then show ?thesis using step reconcile_effects g by (fastforce simp: after_Inr gives_up_def)
  next
    case (Op_finish w i n a)
    then show ?thesis using step by (auto simp: after_Inr elim!: finish_result)
  next
    case (Op_restore e w k)
    then show ?thesis using step
      by (auto simp: after_Inr restore_batch_def ebind_Inr_iff dest!: restore_all_effects split: option.splits)
  qed
  then show ?thesis using m by auto
qed

end
