(* ===== verification/Backplane.thy ===== *)
theory Backplane
  imports LedgerReach
begin

text \<open>The server's write boundary: the audit ledger with its Workspace cursor
  (db/migrations/000002), \<open>audit.bind_context\<close> (000026), the transaction wrapper
  \<open>withRunContext\<close>, \<open>recordRejection\<close> and the context and header parsers of apps/server/runs.
  A transaction works on a copy of the state, so an error leaves the state as it was.\<close>

section \<open>Identifiers in text\<close>

definition hex_value :: "char \<Rightarrow> nat" where
  "hex_value c = (case map_of (zip ''0123456789abcdef'' [0..<16]) (lower_char c) of None \<Rightarrow> 0 | Some v \<Rightarrow> v)"

text \<open>\<open>$1::uuid\<close> on a text in the canonical form, in either case.\<close>

definition parse_uuid :: "string \<Rightarrow> uuid option" where
  "parse_uuid t = (if is_uuid t then Some (foldl (\<lambda>n c. 16 * n + hex_value c) 0 (filter (\<lambda>c. c \<noteq> CHR ''-'') t))
     else None)"

section \<open>Run contexts\<close>

text \<open>\<open>RunContext\<close>: a Principal with its Run (and the hash of an invocation credential), or a User.\<close>

datatype run_context =
    Principal_context uuid uuid uuid "string option"
  | User_context uuid string

fun ctx_ws :: "run_context \<Rightarrow> uuid" where
  "ctx_ws (Principal_context w p r h) = w"
| "ctx_ws (User_context w u) = w"

fun ctx_principal :: "run_context \<Rightarrow> uuid option" where
  "ctx_principal (Principal_context w p r h) = Some p"
| "ctx_principal (User_context w u) = None"

fun ctx_run :: "run_context \<Rightarrow> uuid option" where
  "ctx_run (Principal_context w p r h) = Some r"
| "ctx_run (User_context w u) = None"

fun ctx_user :: "run_context \<Rightarrow> string option" where
  "ctx_user (Principal_context w p r h) = None"
| "ctx_user (User_context w u) = Some u"

fun ctx_invocation :: "run_context \<Rightarrow> string option" where
  "ctx_invocation (Principal_context w p r h) = h"
| "ctx_invocation (User_context w u) = None"

text \<open>\<open>parseRunContext\<close>: the texts of the stamp, before any cast.\<close>

datatype context_text = Principal_text string string string | User_text string string

definition uuid_field :: "string \<Rightarrow> jval \<Rightarrow> string option" where
  "uuid_field k v = (case Option.bind (jfield k v) jstring of None \<Rightarrow> None | Some t \<Rightarrow> if is_uuid t then Some t else None)"

definition parse_run_context :: "jval \<Rightarrow> context_text option" where
  "parse_run_context v =
     (case uuid_field ''workspaceId'' v of
        None \<Rightarrow> None
      | Some w \<Rightarrow>
          (if has_field ''principalId'' v \<and> has_field ''runId'' v \<and> \<not> has_field ''userId'' v
              \<and> uuid_field ''principalId'' v \<noteq> None \<and> uuid_field ''runId'' v \<noteq> None
           then Some (Principal_text w (the (uuid_field ''principalId'' v)) (the (uuid_field ''runId'' v)))
           else (case Option.bind (jfield ''userId'' v) jstring of
                   None \<Rightarrow> None
                 | Some u \<Rightarrow> if \<not> has_field ''principalId'' v \<and> \<not> has_field ''runId'' v \<and> 0 < length u
                             then Some (User_text w u) else None)))"

datatype run_header = Run_id string | Run_required | Run_invalid

definition parse_run_header :: "string option \<Rightarrow> run_header" where
  "parse_run_header v = (case v of None \<Rightarrow> Run_required
     | Some t \<Rightarrow> if length t \<noteq> 36 \<or> \<not> is_uuid t then Run_invalid else Run_id (to_lower t))"

definition run_access :: "uuid \<times> uuid \<Rightarrow> (uuid \<times> uuid) option \<Rightarrow> bool" where
  "run_access who run = (case run of None \<Rightarrow> False
     | Some r \<Rightarrow> fst r = fst who \<and> snd r = snd who)"

definition query_run_access :: "control \<Rightarrow> uuid \<Rightarrow> (uuid \<times> uuid) option" where
  "query_run_access ct r = map_of (ct_runs ct) r"

section \<open>The state of the server\<close>

record rejection =
  rj_ws :: "uuid option"
  rj_principal :: "uuid option"
  rj_run :: "uuid option"
  rj_user :: "string option"
  rj_kind :: string
  rj_objects :: "string list"
  rj_reason :: string
  rj_sqlstate :: "string option"
  rj_at :: time

record invocation_token =
  tk_hash :: string
  tk_run :: uuid
  tk_expires :: time
  tk_epoch :: "uuid option"

record principal_key =
  ky_prefix :: string
  ky_ws :: uuid
  ky_principal :: uuid
  ky_hash :: string
  ky_created :: time
  ky_rotated :: "time option"
  ky_used :: "time option"
  ky_revoked :: "time option"

record usage_row =
  us_ws :: uuid
  us_principal :: uuid
  us_resource :: string
  us_start :: time
  us_used :: int

record quotas =
  qt_statement_bytes :: int
  qt_rows :: int
  qt_operations :: int
  qt_sends :: int
  qt_streams :: int

text \<open>\<open>bp_deployed\<close> holds the Runs with an \<open>invocation_deployment_id\<close>, \<open>bp_seen\<close> their
  \<open>last_seen_at\<close>.\<close>

record backplane =
  bp_ctl :: control
  bp_ledger :: ledger
  bp_events :: "audit_event list"
  bp_cursor :: "(uuid \<times> nat) list"
  bp_rejections :: "rejection list"
  bp_deployed :: "uuid list"
  bp_tokens :: "invocation_token list"
  bp_keys :: "principal_key list"
  bp_seen :: "(uuid \<times> time) list"
  bp_quotas :: "(uuid \<times> quotas) list"
  bp_usage :: "usage_row list"

text \<open>An error in a service is one PostgreSQL raised, one the adapter threw by name, or the
  refusal of a quota meter.\<close>

datatype resource = Sql_statement_bytes | Sql_rows | Transaction_operations | Queue_sends

fun resource_text :: "resource \<Rightarrow> string" where
  "resource_text Sql_statement_bytes = ''sql_statement_bytes''"
| "resource_text Sql_rows = ''sql_rows''"
| "resource_text Transaction_operations = ''transaction_operations''"
| "resource_text Queue_sends = ''queue_sends''"

record quota_failure =
  qf_resource :: resource
  qf_limit :: int
  qf_start :: time
  qf_end :: time
  qf_retry :: int
  qf_operation :: "nat option"

datatype failure = Sql raised | Thrown string | Over_quota quota_failure

section \<open>The audit ledger\<close>

definition lock_workspace :: "uuid \<Rightarrow> backplane \<Rightarrow> backplane" where
  "lock_workspace w s = s\<lparr>bp_cursor := (if map_of (bp_cursor s) w = None then bp_cursor s @ [(w, 0)] else bp_cursor s)\<rparr>"

definition invocation_live :: "time \<Rightarrow> uuid \<Rightarrow> uuid \<Rightarrow> uuid \<Rightarrow> string option \<Rightarrow> backplane \<Rightarrow> bool" where
  "invocation_live now w p r h s =
     (case ct_gate (bp_ctl s) of
        None \<Rightarrow> False
      | Some g \<Rightarrow> list_ex (\<lambda>t. tk_run t = r \<and> Some (tk_hash t) = h \<and> now < tk_expires t \<and> tk_epoch t = rg_epoch g)
            (bp_tokens s)
          \<and> list_ex (\<lambda>k. ky_ws k = w \<and> ky_principal k = p \<and> ky_revoked k = None) (bp_keys s)
          \<and> \<not> rg_active g)"

text \<open>\<open>audit.bind_context\<close> with a fresh token: the shape check, the cursor row, and for a
  Principal the restore gate, its status, the ownership of the Run and the invocation credential.\<close>

definition bind_context :: "time \<Rightarrow> run_context \<Rightarrow> backplane \<Rightarrow> raised + (bound_context \<times> backplane)" where
  "bind_context now c s =
     (let w = ctx_ws c; s1 = lock_workspace w s; ct = bp_ctl s;
          b = \<lparr>bc_ws = w, bc_principal = ctx_principal c, bc_run = ctx_run c, bc_user = ctx_user c\<rparr> in
      (case c of
         User_context _ _ \<Rightarrow> Inr (b, s1)
       | Principal_context _ p r h \<Rightarrow>
           ebind (assert_restore_open ct) (\<lambda>_.
           guardE (\<not> list_ex (\<lambda>x. pr_ws x = w \<and> pr_id x = p \<and> pr_active x) (ct_principals ct)) Principal_revoked (
           guardE (\<not> list_ex (\<lambda>x. x = (r, w, p)) (ct_runs ct)) Run_forbidden (
           guardE (r \<in> set (bp_deployed s) \<and> \<not> invocation_live now w p r h s) Unauthorized (
             Inr (b, s1)))))))"

definition emit :: "time \<Rightarrow> bound_context \<Rightarrow> string \<Rightarrow> string list \<Rightarrow> int option \<Rightarrow> (string \<times> jval) list \<Rightarrow> backplane
    \<Rightarrow> nat \<times> backplane" where
  "emit now c kind objects rows meta s =
     (let w = bc_ws c; n = Suc (the (map_of (bp_cursor s) w)) in
      (n, s\<lparr>bp_cursor := AList.update w n (bp_cursor s),
            bp_events := bp_events s @ [\<lparr>ae_ws = w, ae_position = n, ae_principal = bc_principal c, ae_run = bc_run c,
              ae_user = bc_user c, ae_kind = kind, ae_objects = objects, ae_rows = rows, ae_at = now,
              ae_metadata = meta\<rparr>]\<rparr>))"

fun emit_delivery_events :: "time \<Rightarrow> bound_context \<Rightarrow> queue_event list \<Rightarrow> backplane \<Rightarrow> backplane" where
  "emit_delivery_events now c [] s = s"
| "emit_delivery_events now c (e # es) s =
     emit_delivery_events now c es (snd (emit now c (ev_kind e) (ev_objects e) (Some 1) (ev_metadata e) s))"

section \<open>Transactions and rejections\<close>

text \<open>\<open>withRunContext\<close> without \<open>newRun\<close> and with the default timeouts.\<close>

definition touch_run :: "time \<Rightarrow> uuid option \<Rightarrow> backplane \<Rightarrow> backplane" where
  "touch_run now r s = (case r of None \<Rightarrow> s | Some x \<Rightarrow> s\<lparr>bp_seen := AList.update x now (bp_seen s)\<rparr>)"

definition with_run_context ::
  "time \<Rightarrow> run_context \<Rightarrow> (bound_context \<Rightarrow> backplane \<Rightarrow> failure + ('a \<times> backplane)) \<Rightarrow> backplane \<Rightarrow> failure + ('a \<times> backplane)" where
  "with_run_context now c work s =
     (case bind_context now c s of
        Inl e \<Rightarrow> Inl (Sql e)
      | Inr (b, s1) \<Rightarrow> work b (touch_run now (ctx_run c) s1))"

definition env_of :: "time \<Rightarrow> bound_context \<Rightarrow> backplane \<Rightarrow> env" where
  "env_of now c s = \<lparr>en_now = now, en_ctx = Some c, en_ctl = bp_ctl s\<rparr>"

definition call_queue ::
  "time \<Rightarrow> bound_context \<Rightarrow> (env \<Rightarrow> ledger \<Rightarrow> raised + ('a \<times> ledger)) \<Rightarrow> backplane \<Rightarrow> failure + ('a \<times> backplane)" where
  "call_queue now c f s =
     (case f (env_of now c s) (bp_ledger s) of
        Inl e \<Rightarrow> Inl (Sql e)
      | Inr (x, l) \<Rightarrow> Inr (x, s\<lparr>bp_ledger := l\<rparr>))"

definition is_code :: "string \<Rightarrow> bool" where
  "is_code t = starts_then is_lower (\<lambda>c. is_lower c \<or> is_digit c \<or> c = CHR ''_'' \<or> c = CHR ''.'') t"

definition is_object_name :: "string \<Rightarrow> bool" where
  "is_object_name t \<longleftrightarrow> t \<noteq> [] \<and> list_all (\<lambda>c. is_lower c \<or> is_upper c \<or> is_digit c
     \<or> c = CHR ''_'' \<or> c = CHR ''.'' \<or> c = CHR ''-'') t"

definition record_rejection ::
  "time \<Rightarrow> run_context option \<Rightarrow> string \<Rightarrow> string list \<Rightarrow> string \<Rightarrow> string option \<Rightarrow> backplane \<Rightarrow> backplane" where
  "record_rejection now c kind objects reason sqlstate s =
     (if \<not> is_code kind \<or> \<not> is_code reason \<or> \<not> list_all is_object_name objects then s
      else s\<lparr>bp_rejections := bp_rejections s @
        [\<lparr>rj_ws = map_option ctx_ws c, rj_principal = Option.bind c ctx_principal,
          rj_run = Option.bind c ctx_run, rj_user = Option.bind c ctx_user, rj_kind = kind,
          rj_objects = objects, rj_reason = reason, rj_sqlstate = sqlstate, rj_at = now\<rparr>]\<rparr>)"

end
