(* ===== verification/Quotas.thy ===== *)
theory Quotas
  imports Backplane
begin

text \<open>Quota accounting (apps/server/platform/quotas.ts): the limits of a Workspace, the usage a
  Principal has recorded in the current minute, and a meter that collects the costs of one
  transaction, refuses the first that does not fit, and adds the rest to the usage on commit.\<close>

section \<open>Limits\<close>

definition default_quotas :: quotas where
  "default_quotas = \<lparr>qt_statement_bytes = 1048576, qt_rows = 10000, qt_operations = 600, qt_sends = 600, qt_streams = 16\<rparr>"

fun limit_of :: "quotas \<Rightarrow> resource \<Rightarrow> int" where
  "limit_of q Sql_statement_bytes = qt_statement_bytes q"
| "limit_of q Sql_rows = qt_rows q"
| "limit_of q Transaction_operations = qt_operations q"
| "limit_of q Queue_sends = qt_sends q"

definition fits_quota :: "int \<Rightarrow> int \<Rightarrow> int \<Rightarrow> bool" where
  "fits_quota used cost limit \<longleftrightarrow> cost \<le> limit - used"

definition read_quotas :: "backplane \<Rightarrow> uuid \<Rightarrow> quotas" where
  "read_quotas s w = (case map_of (bp_quotas s) w of None \<Rightarrow> default_quotas | Some q \<Rightarrow> q)"

section \<open>The meter\<close>

record meter =
  mt_owner :: "(uuid \<times> uuid) option"
  mt_limits :: quotas
  mt_now :: time
  mt_start :: time
  mt_usage :: "(string \<times> int) list"
  mt_costs :: "(resource \<times> int) list"

definition minute_start :: "time \<Rightarrow> time" where
  "minute_start now = now - now mod seconds 60"

definition quota_accounting :: "time \<Rightarrow> run_context \<Rightarrow> backplane \<Rightarrow> meter" where
  "quota_accounting now c s =
     (let start = minute_start now in
      \<lparr>mt_owner = map_option (\<lambda>p. (ctx_ws c, p)) (ctx_principal c),
       mt_limits = read_quotas s (ctx_ws c), mt_now = now, mt_start = start,
       mt_usage = (case ctx_principal c of
          None \<Rightarrow> []
        | Some p \<Rightarrow> map (\<lambda>u. (us_resource u, us_used u))
            (filter (\<lambda>u. us_ws u = ctx_ws c \<and> us_principal u = p \<and> us_start u = start) (bp_usage s))),
       mt_costs = []\<rparr>)"

definition cost_so_far :: "meter \<Rightarrow> resource \<Rightarrow> int" where
  "cost_so_far m r = (case map_of (mt_costs m) r of None \<Rightarrow> 0 | Some n \<Rightarrow> n)"

definition recorded_use :: "meter \<Rightarrow> resource \<Rightarrow> int" where
  "recorded_use m r = (case map_of (mt_usage m) (resource_text r) of None \<Rightarrow> 0 | Some n \<Rightarrow> n)"

text \<open>\<open>Math.max(1, Math.ceil((end - now) / 1000))\<close> over the millisecond dates of JavaScript.\<close>

definition retry_after :: "time \<Rightarrow> time \<Rightarrow> int" where
  "retry_after now end_at = max 1 (- ((now div 1000 - end_at div 1000) div 1000))"

definition meter_add :: "resource \<Rightarrow> int \<Rightarrow> nat option \<Rightarrow> meter \<Rightarrow> quota_failure + meter" where
  "meter_add r cost operation m =
     (if mt_owner m = None \<or> cost = 0 then Inr m
      else (let total = cost_so_far m r + cost in
        if \<not> fits_quota (recorded_use m r) total (limit_of (mt_limits m) r)
        then Inl \<lparr>qf_resource = r, qf_limit = limit_of (mt_limits m) r, qf_start = mt_start m,
                  qf_end = mt_start m + seconds 60, qf_retry = retry_after (mt_now m) (mt_start m + seconds 60),
                  qf_operation = operation\<rparr>
        else Inr (m\<lparr>mt_costs := AList.update r total (mt_costs m)\<rparr>)))"

definition same_usage :: "uuid \<Rightarrow> uuid \<Rightarrow> string \<Rightarrow> usage_row \<Rightarrow> bool" where
  "same_usage w p r u \<longleftrightarrow> us_ws u = w \<and> us_principal u = p \<and> us_resource u = r"

text \<open>The upsert of one cost: a row of another window is replaced.\<close>

definition charge :: "uuid \<Rightarrow> uuid \<Rightarrow> time \<Rightarrow> resource \<times> int \<Rightarrow> usage_row list \<Rightarrow> usage_row list" where
  "charge w p start rc us =
     (let r = resource_text (fst rc) in
      if list_ex (same_usage w p r) us
      then map (\<lambda>u. if same_usage w p r u
                    then u\<lparr>us_start := start, us_used := (if us_start u = start then us_used u + snd rc else snd rc)\<rparr>
                    else u) us
      else us @ [\<lparr>us_ws = w, us_principal = p, us_resource = r, us_start = start, us_used = snd rc\<rparr>])"

text \<open>\<open>[...costs].sort((a, b) => a.localeCompare(b))\<close>: the four names in alphabetical order.\<close>

definition resource_rank :: "resource \<Rightarrow> nat" where
  "resource_rank r = (case r of Queue_sends \<Rightarrow> 0 | Sql_rows \<Rightarrow> 1 | Sql_statement_bytes \<Rightarrow> 2 | Transaction_operations \<Rightarrow> 3)"

definition meter_commit :: "meter \<Rightarrow> backplane \<Rightarrow> backplane" where
  "meter_commit m s =
     (case mt_owner m of
        None \<Rightarrow> s
      | Some (w, p) \<Rightarrow> s\<lparr>bp_usage := fold (charge w p (mt_start m)) (sort_key (\<lambda>rc. resource_rank (fst rc)) (mt_costs m))
          (bp_usage s)\<rparr>)"

section \<open>The recorded use stays within the limit\<close>

definition usage_keys :: "usage_row list \<Rightarrow> (uuid \<times> uuid \<times> string) list" where
  "usage_keys us = map (\<lambda>u. (us_ws u, us_principal u, us_resource u)) us"

definition used_of :: "uuid \<Rightarrow> uuid \<Rightarrow> string \<Rightarrow> time \<Rightarrow> usage_row list \<Rightarrow> int" where
  "used_of w p r start us = (case find (\<lambda>u. same_usage w p r u \<and> us_start u = start) us of None \<Rightarrow> 0 | Some u \<Rightarrow> us_used u)"

lemma resource_text_inj [simp]: "resource_text a = resource_text b \<longleftrightarrow> a = b"
  by (cases a; cases b) simp_all

lemma used_of_Cons:
  "used_of w p r start (u # us) = (if same_usage w p r u \<and> us_start u = start then us_used u else used_of w p r start us)"
  by (simp add: used_of_def)

lemma used_of_other:
  "\<forall>u\<in>set us. \<not> same_usage w p r u \<Longrightarrow> used_of w p r start us = 0"
  by (induction us) (auto simp: used_of_Cons, simp add: used_of_def)

lemma used_of_append:
  "\<forall>u\<in>set us. \<not> (same_usage w p r u \<and> us_start u = start) \<Longrightarrow> used_of w p r start (us @ vs) = used_of w p r start vs"
  by (induction us) (auto simp: used_of_Cons)

lemma used_of_snoc:
  "\<not> (same_usage w p r v \<and> us_start v = start) \<Longrightarrow> used_of w p r start (us @ [v]) = used_of w p r start us"
  by (induction us) (auto simp: used_of_Cons used_of_def)

definition charged :: "uuid \<Rightarrow> uuid \<Rightarrow> string \<Rightarrow> time \<Rightarrow> int \<Rightarrow> usage_row \<Rightarrow> usage_row" where
  "charged w p r start n u = (if same_usage w p r u
     then u\<lparr>us_start := start, us_used := (if us_start u = start then us_used u + n else n)\<rparr> else u)"

lemma same_usage_charged [simp]: "same_usage w p r (charged w' p' r' start n u) = same_usage w p r u"
  by (simp add: charged_def same_usage_def)

lemma used_of_charged:
  assumes "distinct (usage_keys us)" "\<exists>u\<in>set us. same_usage w p r0 u"
  shows "used_of w p r start (map (charged w p r0 start n) us) = used_of w p r start us + (if r = r0 then n else 0)"
  using assms
proof (induction us)
  case (Cons u us)
  show ?case
  proof (cases "same_usage w p r0 u")
    case True
    then have rest: "\<forall>v\<in>set us. \<not> same_usage w p r0 v"
      using Cons.prems(1) by (auto simp: usage_keys_def same_usage_def rev_image_eqI)
    then have tl: "map (charged w p r0 start n) us = us" by (simp add: charged_def map_idI)
    have hd: "charged w p r0 start n u = u\<lparr>us_start := start, us_used := (if us_start u = start then us_used u + n else n)\<rparr>"
      using True by (simp add: charged_def)
    show ?thesis unfolding list.map tl hd used_of_Cons
      using True used_of_other [OF rest] by (auto simp: same_usage_def)
  next
    case False
    then have hd: "charged w p r0 start n u = u" by (simp add: charged_def)
    have "distinct (usage_keys us)" "\<exists>u\<in>set us. same_usage w p r0 u"
      using Cons.prems False by (auto simp: usage_keys_def)
    note IH = Cons.IH [OF this]
    show ?thesis unfolding list.map hd used_of_Cons IH using False by (auto simp: same_usage_def)
  qed
qed simp

lemma charge_used:
  assumes "distinct (usage_keys us)"
  shows "distinct (usage_keys (charge w p start (r0, n) us)) \<and> used_of w p (resource_text r) start (charge w p start (r0, n) us)
     = used_of w p (resource_text r) start us + (if r = r0 then n else 0)"
proof (cases "list_ex (same_usage w p (resource_text r0)) us")
  case True
  then have c: "charge w p start (r0, n) us = map (charged w p (resource_text r0) start n) us"
    by (simp add: charge_def charged_def)
  have "usage_keys (map (charged w p (resource_text r0) start n) us) = usage_keys us"
    by (simp add: usage_keys_def charged_def)
  then show ?thesis using True used_of_charged [OF assms] c assms by (auto simp: list_ex_iff)
next
  case False
  let ?v = "\<lparr>us_ws = w, us_principal = p, us_resource = resource_text r0, us_start = start, us_used = n\<rparr>"
  have c: "charge w p start (r0, n) us = us @ [?v]" using False by (simp add: charge_def)
  have none: "\<forall>u\<in>set us. \<not> same_usage w p (resource_text r0) u" using False by (simp add: list_ex_iff)
  have "distinct (usage_keys (us @ [?v]))" using assms none by (auto simp: usage_keys_def same_usage_def)
  moreover have "used_of w p (resource_text r) start (us @ [?v])
      = used_of w p (resource_text r) start us + (if r = r0 then n else 0)"
  proof (cases "r = r0")
    case True
    then have "used_of w p (resource_text r) start us = 0" using used_of_other none by blast
    moreover have "used_of w p (resource_text r) start (us @ [?v]) = used_of w p (resource_text r) start [?v]"
      by (rule used_of_append) (use none True in blast)
    ultimately show ?thesis using True by (simp add: used_of_def same_usage_def)
  next
    case r: False
    then show ?thesis by (simp add: used_of_snoc same_usage_def)
  qed
  ultimately show ?thesis using c by simp
qed

lemma charges_used:
  assumes "distinct (usage_keys us)"
  shows "distinct (usage_keys (fold (charge w p start) rcs us))
    \<and> used_of w p (resource_text r) start (fold (charge w p start) rcs us)
      = used_of w p (resource_text r) start us + (\<Sum>(x, n)\<leftarrow>rcs. if r = x then n else 0)"
  using assms
proof (induction rcs arbitrary: us)
  case (Cons a rcs)
  obtain x n where a: "a = (x, n)" by (cases a)
  show ?case using Cons.IH [of "charge w p start a us"] charge_used [OF Cons.prems, of w p start x n r] a by simp
qed simp

fun meter_adds :: "(resource \<times> int \<times> nat option) list \<Rightarrow> meter \<Rightarrow> quota_failure + meter" where
  "meter_adds [] m = Inr m"
| "meter_adds ((r, n, i) # cs) m = ebind (meter_add r n i m) (meter_adds cs)"

lemma sum_alist:
  "distinct (map fst xs) \<Longrightarrow> (\<Sum>(x, n)\<leftarrow>xs. if r = x then n else 0) = (case map_of xs r of None \<Rightarrow> (0::int) | Some n \<Rightarrow> n)"
proof (induction xs)
  case (Cons a xs)
  have "r \<notin> fst ` set xs \<Longrightarrow> map_of xs r = None" by (simp add: map_of_eq_None_iff)
  then show ?case using Cons by (cases a) (auto split: option.splits)
qed simp

definition total_cost :: "resource \<Rightarrow> (resource \<times> int \<times> nat option) list \<Rightarrow> int" where
  "total_cost r cs = (\<Sum>(x, n, i)\<leftarrow>cs. if r = x then n else 0)"

definition costs :: "resource \<Rightarrow> (resource \<times> int \<times> nat option) list \<Rightarrow> bool" where
  "costs r cs = list_ex (\<lambda>(x, n, i). x = r \<and> n \<noteq> 0) cs"

lemma total_cost_simps [simp]:
  "total_cost r [] = 0" "total_cost r ((x, n, i) # cs) = (if r = x then n else 0) + total_cost r cs"
  "costs r [] \<longleftrightarrow> False" "costs r ((x, n, i) # cs) \<longleftrightarrow> (x = r \<and> n \<noteq> 0) \<or> costs r cs"
  by (simp_all add: total_cost_def costs_def)

lemma no_costs: "\<not> costs r cs \<Longrightarrow> total_cost r cs = 0"
  by (induction cs) auto

definition metered :: "meter \<Rightarrow> (resource \<times> int \<times> nat option) list \<Rightarrow> meter \<Rightarrow> bool" where
  "metered m0 cs m \<longleftrightarrow> (\<exists>kv. m = m0\<lparr>mt_costs := kv\<rparr> \<and> (distinct (map fst (mt_costs m0)) \<longrightarrow> distinct (map fst kv)))
     \<and> (\<forall>r. cost_so_far m r = cost_so_far m0 r + total_cost r cs
          \<and> (costs r cs \<longrightarrow> recorded_use m0 r + cost_so_far m r \<le> limit_of (mt_limits m0) r))"

lemma meteredD:
  assumes "metered m0 cs m"
  shows "cost_so_far m r = cost_so_far m0 r + total_cost r cs"
    and "costs r cs \<Longrightarrow> recorded_use m0 r + cost_so_far m r \<le> limit_of (mt_limits m0) r"
  using assms unfolding metered_def by blast+

lemma meter_add_metered:
  assumes "mt_owner m0 \<noteq> None" "meter_add r n i m0 = Inr m"
  shows "metered m0 [(r, n, i)] m"
  using assms
  by (cases "n = 0")
    (auto simp: meter_add_def metered_def Let_def cost_so_far_def fits_quota_def update_conv' distinct_update
       intro: exI [of _ "mt_costs m0"] split: if_splits)

lemma meter_adds_metered:
  assumes "mt_owner m0 \<noteq> None" "meter_adds cs m0 = Inr m"
  shows "metered m0 cs m"
  using assms
proof (induction cs arbitrary: m0)
  case Nil
  then show ?case by (auto simp: metered_def intro: exI [of _ "mt_costs m"])
next
  case (Cons a cs)
  obtain r n i where a: "a = (r, n, i)" by (cases a)
  obtain m1 where m1: "meter_add r n i m0 = Inr m1" "meter_adds cs m1 = Inr m"
    using Cons.prems(2) a by (auto simp: ebind_Inr_iff)
  note A = meter_add_metered [OF Cons.prems(1) m1(1)]
  obtain k1 where k1: "m1 = m0\<lparr>mt_costs := k1\<rparr>" "distinct (map fst (mt_costs m0)) \<longrightarrow> distinct (map fst k1)"
    using A by (auto simp: metered_def)
  then have "mt_owner m1 \<noteq> None" using Cons.prems(1) by simp
  note B = Cons.IH [OF this m1(2)]
  have same: "recorded_use m1 x = recorded_use m0 x" "mt_limits m1 = mt_limits m0" for x
    using k1 by (simp_all add: recorded_use_def)
  have m: "cost_so_far m x = cost_so_far m1 x + total_cost x cs"
    "costs x cs \<Longrightarrow> recorded_use m0 x + cost_so_far m x \<le> limit_of (mt_limits m0) x" for x
    using meteredD [OF B, of x] unfolding same by blast+
  have h: "cost_so_far m1 x = cost_so_far m0 x + (if x = r then n else 0)"
    "r = x \<and> n \<noteq> 0 \<Longrightarrow> recorded_use m0 x + cost_so_far m1 x \<le> limit_of (mt_limits m0) x" for x
    using A by (auto simp: metered_def)
  have "recorded_use m0 x + cost_so_far m x \<le> limit_of (mt_limits m0) x" if "costs x (a # cs)" for x
    using that m h no_costs [of x cs] a by (cases "costs x cs") auto
  moreover have "cost_so_far m x = cost_so_far m0 x + total_cost x (a # cs)" for x using m h a by simp
  moreover have "\<exists>kv. m = m0\<lparr>mt_costs := kv\<rparr> \<and> (distinct (map fst (mt_costs m0)) \<longrightarrow> distinct (map fst kv))"
    using B k1 by (auto simp: metered_def)
  ultimately show ?case unfolding metered_def by blast
qed

lemma recorded_use_used_of:
  "recorded_use (quota_accounting now (Principal_context w p u h) s) r
     = used_of w p (resource_text r) (minute_start now) (bp_usage s)"
proof -
  have "(case map_of (map (\<lambda>u. (us_resource u, us_used u)) (filter (\<lambda>u. us_ws u = w \<and> us_principal u = p
      \<and> us_start u = start) us)) t of None \<Rightarrow> 0 | Some n \<Rightarrow> n) = used_of w p t start us" for t start us
    by (induction us) (auto simp: used_of_Cons same_usage_def, simp add: used_of_def)
  then show ?thesis by (simp add: recorded_use_def quota_accounting_def Let_def)
qed

lemma quota_commit:
  assumes "distinct (usage_keys (bp_usage s))"
    and "meter_adds cs (quota_accounting now (Principal_context w p u h) s) = Inr m"
  shows "used_of w p (resource_text r) (minute_start now) (bp_usage (meter_commit m s))
       = used_of w p (resource_text r) (minute_start now) (bp_usage s) + total_cost r cs"
    and "costs r cs \<Longrightarrow> used_of w p (resource_text r) (minute_start now) (bp_usage (meter_commit m s))
       \<le> limit_of (read_quotas s w) r"
    and "distinct (usage_keys (bp_usage (meter_commit m s)))"
proof -
  let ?m0 = "quota_accounting now (Principal_context w p u h) s"
  have m0: "mt_owner ?m0 = Some (w, p)" "mt_costs ?m0 = []" "mt_start ?m0 = minute_start now"
    "mt_limits ?m0 = read_quotas s w" "cost_so_far ?m0 x = 0" for x
    by (simp_all add: quota_accounting_def Let_def cost_so_far_def)
  have M: "metered ?m0 cs m" by (rule meter_adds_metered [OF _ assms(2)]) (simp add: m0)
  then obtain kv where kv: "m = ?m0\<lparr>mt_costs := kv\<rparr>" "distinct (map fst kv)" using m0(2) by (auto simp: metered_def)
  have sums: "cost_so_far m x = total_cost x cs" for x using M m0(5) by (simp add: metered_def)
  have lim: "costs x cs \<Longrightarrow> recorded_use ?m0 x + cost_so_far m x \<le> limit_of (read_quotas s w) x" for x
    using meteredD(2) [OF M, of x] unfolding m0(4) .
  let ?sorted = "sort_key (\<lambda>rc. resource_rank (fst rc)) kv"
  have d: "distinct (map fst ?sorted)" using kv(2) by (simp add: distinct_map_sort_key)
  have "map_of ?sorted = map_of kv"
    using kv(2) d by (intro map_of_inject_set [THEN iffD2]) simp_all
  then have total: "(\<Sum>(x, n)\<leftarrow>?sorted. if r = x then n else 0) = cost_so_far m r"
    using sum_alist [OF d, of r] kv(1) by (simp add: cost_so_far_def)
  have bp: "bp_usage (meter_commit m s) = fold (charge w p (minute_start now)) ?sorted (bp_usage s)"
    using kv(1) m0 by (simp add: meter_commit_def)
  note C = charges_used [OF assms(1), of w p "minute_start now" ?sorted r]
  show eq: "used_of w p (resource_text r) (minute_start now) (bp_usage (meter_commit m s))
       = used_of w p (resource_text r) (minute_start now) (bp_usage s) + total_cost r cs"
    using C total sums bp by simp
  show "distinct (usage_keys (bp_usage (meter_commit m s)))" using C bp by simp
  assume "costs r cs"
  then show "used_of w p (resource_text r) (minute_start now) (bp_usage (meter_commit m s)) \<le> limit_of (read_quotas s w) r"
    using lim [of r] eq sums [of r] recorded_use_used_of [of now w p u h s r] by simp
qed

end
