(* ===== verification/QueueServices.thy ===== *)
theory QueueServices
  imports Quotas "HOL-Library.List_Lexorder" "HOL-Library.Product_Lexorder"
begin

text \<open>The queue adapters of apps/server/queue: each runs one queue function in a bound
  transaction, emits the audit events it returned, and on any error records a rejection after the
  rollback.  \<open>sha\<close> is the hex digest PostgreSQL computes, \<open>digest\<close> the raw digest of node:crypto,
  \<open>jsonb\<close> the text of a JSON value after the cast to jsonb (\<open>None\<close> when the cast is refused),
  \<open>receipt\<close> the 32 random bytes of a claim.\<close>

section \<open>Failure codes\<close>

text \<open>The message and SQLSTATE of an exception; the messages of engine errors are not codes.\<close>

fun raised_message :: "raised \<Rightarrow> string" where
  "raised_message Context_missing = ''context_missing''"
| "raised_message Context_invalid = ''context_invalid''"
| "raised_message Context_already_bound = ''context_already_bound''"
| "raised_message Principal_revoked = ''principal_revoked''"
| "raised_message Run_forbidden = ''run_forbidden''"
| "raised_message Restore_gated = ''restore_gated''"
| "raised_message Invalid_input = ''invalid_input''"
| "raised_message Queue_not_found = ''queue_not_found''"
| "raised_message Queue_unavailable = ''queue_unavailable''"
| "raised_message Idempotency_conflict = ''idempotency_conflict''"
| "raised_message Payload_too_large = ''payload_too_large''"
| "raised_message Payload_expired = ''payload_expired''"
| "raised_message Payload_read_failed = ''payload_read_failed''"
| "raised_message Delivery_not_found = ''delivery_not_found''"
| "raised_message Delivery_conflict = ''delivery_conflict''"
| "raised_message Receipt_stale = ''receipt_stale''"
| "raised_message Receipt_foreign = ''receipt_foreign''"
| "raised_message Receipt_expired = ''receipt_expired''"
| "raised_message Effect_key_conflict = ''effect_key_conflict''"
| "raised_message Recovery_forbidden = ''recovery_forbidden''"
| "raised_message Workspace_forbidden = ''workspace_forbidden''"
| "raised_message Reconciliation_forbidden = ''reconciliation_forbidden''"
| "raised_message Reconciliation_conflict = ''reconciliation_conflict''"
| "raised_message Principal_not_found = ''principal_not_found''"
| "raised_message Restore_conflict = ''restore_conflict''"
| "raised_message Retention_forbidden = ''retention_forbidden''"
| "raised_message Unauthorized = ''unauthorized''"
| "raised_message _ = ''ERROR''"

fun raised_sqlstate :: "raised \<Rightarrow> string" where
  "raised_sqlstate No_data_found = ''P0002''"
| "raised_sqlstate Undefined_table = ''42P01''"
| "raised_sqlstate Not_null_violation = ''23502''"
| "raised_sqlstate Check_violation = ''23514''"
| "raised_sqlstate Invalid_text = ''22P02''"
| "raised_sqlstate (Unique_violation c) = ''23505''"
| "raised_sqlstate _ = ''P0001''"

definition queue_codes :: "string list" where
  "queue_codes = [''restore_gated'', ''reconciliation_forbidden'', ''reconciliation_conflict'',
     ''workspace_forbidden'', ''principal_not_found'', ''principal_revoked'', ''effect_key_conflict'',
     ''delivery_conflict'', ''recovery_forbidden'', ''payload_expired'', ''queue_exists'', ''queue_not_found'',
     ''idempotency_conflict'', ''delivery_not_found'', ''receipt_foreign'', ''receipt_stale'',
     ''receipt_expired'', ''payload_too_large'', ''invalid_input'']"

fun failure_message :: "failure \<Rightarrow> string" where
  "failure_message (Sql e) = raised_message e"
| "failure_message (Thrown m) = m"
| "failure_message (Over_quota q) = ''quota_exceeded''"

fun failure_sqlstate :: "failure \<Rightarrow> string option" where
  "failure_sqlstate (Sql e) = Some (raised_sqlstate e)"
| "failure_sqlstate _ = None"

fun failure_constraint :: "failure \<Rightarrow> string option" where
  "failure_constraint (Sql (Unique_violation c)) = Some c"
| "failure_constraint _ = None"

definition queue_error :: "failure \<Rightarrow> string \<times> string option" where
  "queue_error e =
     (let state = failure_sqlstate e in
      if failure_message e \<in> set queue_codes then (failure_message e, state)
      else if state = Some ''23505'' \<and> failure_constraint e = Some ''queues_pkey'' then (''queue_exists'', state)
      else if state \<in> {Some ''23514'', Some ''23502'', Some ''22P02'', Some ''22P05'', Some ''22021''}
      then (''invalid_input'', state)
      else (''queue_unavailable'', state))"

definition queue_error_status :: "string \<Rightarrow> nat" where
  "queue_error_status r =
     (if r = ''payload_expired'' then 410
      else if r \<in> {''reconciliation_forbidden'', ''workspace_forbidden'', ''principal_revoked'',
                   ''recovery_forbidden'', ''receipt_foreign''} then 403
      else if r \<in> {''principal_not_found'', ''delivery_not_found'', ''queue_not_found''} then 404
      else if r \<in> {''reconciliation_conflict'', ''effect_key_conflict'', ''delivery_conflict'', ''receipt_stale'',
                   ''receipt_expired'', ''queue_exists'', ''idempotency_conflict''} then 409
      else if r = ''payload_too_large'' then 413
      else if r = ''invalid_input'' then 422
      else 503)"

section \<open>The shape every adapter shares\<close>

text \<open>\<open>try { return await withRunContext(...) } catch (error) { await recordRejection(...); ... }\<close>\<close>

definition settle_service ::
  "time \<Rightarrow> run_context \<Rightarrow> string \<Rightarrow> string list \<Rightarrow> backplane \<Rightarrow> failure + ('a \<times> backplane) \<Rightarrow> (string + 'a) \<times> backplane" where
  "settle_service now c kind objects s r =
     (case r of
        Inr (x, s') \<Rightarrow> (Inr x, s')
      | Inl e \<Rightarrow> (case queue_error e of (reason, state) \<Rightarrow>
          (Inl reason, record_rejection now (Some c) kind objects reason state s)))"

definition with_uuid :: "string \<Rightarrow> (uuid \<Rightarrow> failure + 'a) \<Rightarrow> failure + 'a" where
  "with_uuid t k = (case parse_uuid t of None \<Rightarrow> Inl (Sql Invalid_text) | Some u \<Rightarrow> k u)"

text \<open>Run a queue function and emit the events it returned.\<close>

definition queue_call ::
  "time \<Rightarrow> bound_context \<Rightarrow> (env \<Rightarrow> ledger \<Rightarrow> raised + (('a \<times> queue_event list) \<times> ledger)) \<Rightarrow> backplane
   \<Rightarrow> failure + ('a \<times> backplane)" where
  "queue_call now b f s = ebind (call_queue now b f s) (\<lambda>((x, evs), s').
     Inr (x, emit_delivery_events now b evs s'))"

section \<open>Delivery envelopes\<close>

record delivery_envelope =
  de_id :: uuid
  de_workspace :: uuid
  de_queue :: string
  de_message :: uuid
  de_chain :: uuid
  de_parent :: "uuid option"
  de_attempt :: nat
  de_max_attempts :: nat
  de_current :: bool
  de_state :: dstate
  de_consumer_principal :: "uuid option"
  de_consumer_run :: "uuid option"
  de_lease_expires :: "time option"
  de_claimed :: "time option"
  de_completed :: "time option"
  de_failure_code :: "string option"
  de_next_attempt :: "time option"
  de_held_by :: "uuid option"
  de_held_at :: "time option"
  de_effect_started :: "time option"
  de_created :: time

definition serialize_delivery :: "delivery \<Rightarrow> delivery_envelope" where
  "serialize_delivery d =
     \<lparr>de_id = dl_id d, de_workspace = dl_ws d, de_queue = dl_queue d, de_message = dl_message d,
      de_chain = dl_chain d, de_parent = dl_parent d, de_attempt = dl_attempt d, de_max_attempts = dl_max d,
      de_current = dl_current d, de_state = dl_state d, de_consumer_principal = dl_consumer d,
      de_consumer_run = dl_run d, de_lease_expires = dl_lease d, de_claimed = dl_claimed d,
      de_completed = dl_completed d, de_failure_code = dl_failure d, de_next_attempt = dl_next d,
      de_held_by = dl_held_by d, de_held_at = dl_held_at d, de_effect_started = dl_effect d,
      de_created = dl_created d\<rparr>"

section \<open>Receipt verbs\<close>

definition receipt_verb_in ::
  "(string \<Rightarrow> string) \<Rightarrow> time \<Rightarrow> bound_context \<Rightarrow> uuid \<Rightarrow> string \<Rightarrow> string \<Rightarrow> verb \<Rightarrow> backplane \<Rightarrow> failure + (delivery \<times> backplane)" where
  "receipt_verb_in digest now b w i receipt v s = with_uuid i (\<lambda>d.
     queue_call now b (\<lambda>E l. if v = Renew then renew E w d (Some (digest receipt)) l
                              else if v = Ack then ack E w d (Some (digest receipt)) l
                              else nack E w d (Some (digest receipt)) l) s)"

definition receipt_verb_service ::
  "(string \<Rightarrow> string) \<Rightarrow> time \<Rightarrow> run_context \<Rightarrow> string \<Rightarrow> string \<Rightarrow> verb \<Rightarrow> backplane \<Rightarrow> (string + delivery) \<times> backplane" where
  "receipt_verb_service digest now c i receipt v s =
     settle_service now c (''queue.'' @ verb_text v) [i] s
       (with_run_context now c (\<lambda>b. receipt_verb_in digest now b (ctx_ws c) i receipt v) s)"

definition map_reply :: "('a \<Rightarrow> 'b) \<Rightarrow> (string + 'a) \<times> backplane \<Rightarrow> (string + 'b) \<times> backplane" where
  "map_reply f r = map_prod (map_sum id f) id r"

definition ack_service :: "(string \<Rightarrow> string) \<Rightarrow> time \<Rightarrow> run_context \<Rightarrow> string \<Rightarrow> string \<Rightarrow> backplane
    \<Rightarrow> (string + (uuid \<times> dstate)) \<times> backplane" where
  "ack_service digest now c i receipt s =
     map_reply (\<lambda>d. (dl_id d, dl_state d)) (receipt_verb_service digest now c i receipt Ack s)"

definition nack_service :: "(string \<Rightarrow> string) \<Rightarrow> time \<Rightarrow> run_context \<Rightarrow> string \<Rightarrow> string \<Rightarrow> backplane
    \<Rightarrow> (string + (uuid \<times> dstate \<times> time option)) \<times> backplane" where
  "nack_service digest now c i receipt s =
     map_reply (\<lambda>d. (dl_id d, dl_state d, dl_next d)) (receipt_verb_service digest now c i receipt Nack s)"

definition renew_service :: "(string \<Rightarrow> string) \<Rightarrow> time \<Rightarrow> run_context \<Rightarrow> string \<Rightarrow> string \<Rightarrow> backplane
    \<Rightarrow> (string + (uuid \<times> time option)) \<times> backplane" where
  "renew_service digest now c i receipt s =
     map_reply (\<lambda>d. (dl_id d, dl_lease d)) (receipt_verb_service digest now c i receipt Renew s)"

section \<open>Queues, sends and claims\<close>

definition create_queue_service ::
  "(string \<Rightarrow> string) \<Rightarrow> time \<Rightarrow> run_context \<Rightarrow> string \<Rightarrow> backplane \<Rightarrow> (string + (uuid \<times> string \<times> time)) \<times> backplane" where
  "create_queue_service sha now c n s =
     settle_service now c ''queue.created'' [n] s
       (with_run_context now c (\<lambda>b s1.
          ebind (call_queue now b (\<lambda>E. create_queue sha E (ctx_ws c) n) s1) (\<lambda>(q, s2).
            (case emit now b ''queue.created'' [n] (Some 1) [] s2 of (pos, s3) \<Rightarrow>
              Inr ((qr_ws q, qr_name q, now), s3)))) s)"

definition ensure_in :: "time \<Rightarrow> bound_context \<Rightarrow> uuid \<Rightarrow> uuid \<Rightarrow> backplane \<Rightarrow> failure + (delivery option \<times> backplane)" where
  "ensure_in now b w m s = queue_call now b (\<lambda>E. ensure_delivery E w m) s"

definition send_message_in ::
  "(string \<Rightarrow> string) \<Rightarrow> (jval \<Rightarrow> string option) \<Rightarrow> time \<Rightarrow> bound_context \<Rightarrow> uuid \<Rightarrow> string \<Rightarrow> string \<Rightarrow> jval \<Rightarrow> backplane
   \<Rightarrow> failure + ((message \<times> bool) \<times> backplane)" where
  "send_message_in sha jsonb now b w n key body s =
     (case jsonb body of
        None \<Rightarrow> Inl (Sql Invalid_text)
      | Some p \<Rightarrow> ebind (call_queue now b (\<lambda>E. send_message sha E w n (Some key) (Some p)) s)
          (\<lambda>((m, inserted, bytes), s1).
            (let s2 = (if inserted
                       then snd (emit now b ''queue.send'' [n, uuid_text (ms_id m)] (Some 1)
                              [(''idempotency_key_present'', JBool True), (''bytes'', JInt (int bytes))] s1)
                       else s1)
             in ebind (ensure_in now b w (ms_id m) s2) (\<lambda>(d, s3). Inr ((m, inserted), s3)))))"

definition meter_step :: "resource \<Rightarrow> int \<Rightarrow> nat option \<Rightarrow> meter \<Rightarrow> failure + meter" where
  "meter_step r n i m = map_sum Over_quota id (meter_add r n i m)"

text \<open>A refused quota is recorded as \<open>quota_exceeded\<close> and answered as \<open>queue_unavailable\<close> with its body.\<close>

definition send_message_service ::
  "(string \<Rightarrow> string) \<Rightarrow> (jval \<Rightarrow> string option) \<Rightarrow> time \<Rightarrow> run_context \<Rightarrow> string \<Rightarrow> string \<Rightarrow> jval \<Rightarrow> backplane
   \<Rightarrow> ((string \<times> quota_failure option) + (message \<times> bool)) \<times> backplane" where
  "send_message_service sha jsonb now c n key body s =
     (case with_run_context now c (\<lambda>b s1.
             (let m = quota_accounting now c s1 in
              ebind (send_message_in sha jsonb now b (ctx_ws c) n key body s1) (\<lambda>(r, s2).
              ebind (meter_step Queue_sends (if snd r then 1 else 0) None m) (\<lambda>m'.
                Inr (r, meter_commit m' s2))))) s of
        Inr (r, s') \<Rightarrow> (Inr r, s')
      | Inl (Over_quota q) \<Rightarrow> (Inl (''queue_unavailable'', Some q),
          record_rejection now (Some c) ''queue.send'' [n] ''quota_exceeded'' None s)
      | Inl e \<Rightarrow> (case queue_error e of (reason, state) \<Rightarrow>
          (Inl (reason, None), record_rejection now (Some c) ''queue.send'' [n] reason state s)))"

record claim_reply =
  cl_delivery :: uuid
  cl_message :: uuid
  cl_attempt :: nat
  cl_receipt :: string
  cl_lease :: "time option"
  cl_payload :: string

definition claim_in ::
  "(string \<Rightarrow> string) \<Rightarrow> time \<Rightarrow> bound_context \<Rightarrow> uuid \<Rightarrow> string \<Rightarrow> string \<Rightarrow> backplane \<Rightarrow> failure + (claim_reply option \<times> backplane)" where
  "claim_in digest now b w n receipt s =
     ebind (queue_call now b (\<lambda>E. claim E w n (Some (digest receipt))) s) (\<lambda>(r, s').
       Inr (map_option (\<lambda>(d, body). \<lparr>cl_delivery = dl_id d, cl_message = dl_message d, cl_attempt = dl_attempt d,
              cl_receipt = receipt, cl_lease = dl_lease d, cl_payload = body\<rparr>) r, s'))"

definition claim_service ::
  "(string \<Rightarrow> string) \<Rightarrow> time \<Rightarrow> run_context \<Rightarrow> string \<Rightarrow> string \<Rightarrow> backplane \<Rightarrow> (string + claim_reply option) \<times> backplane" where
  "claim_service digest now c n receipt s =
     settle_service now c ''queue.claim'' [n] s
       (with_run_context now c (\<lambda>b. claim_in digest now b (ctx_ws c) n receipt) s)"

definition hold_in ::
  "(string \<Rightarrow> string) \<Rightarrow> time \<Rightarrow> bound_context \<Rightarrow> uuid \<Rightarrow> string \<Rightarrow> string \<Rightarrow> backplane \<Rightarrow> failure + (delivery_envelope \<times> backplane)" where
  "hold_in digest now b w i receipt s = with_uuid i (\<lambda>d.
     ebind (queue_call now b (\<lambda>E. hold E w d (Some (digest receipt))) s) (\<lambda>(x, s'). Inr (serialize_delivery x, s')))"

definition hold_service ::
  "(string \<Rightarrow> string) \<Rightarrow> time \<Rightarrow> run_context \<Rightarrow> string \<Rightarrow> string \<Rightarrow> backplane \<Rightarrow> (string + delivery_envelope) \<times> backplane" where
  "hold_service digest now c i receipt s =
     settle_service now c ''queue.hold'' [i] s
       (with_run_context now c (\<lambda>b. hold_in digest now b (ctx_ws c) i receipt) s)"

definition begin_effect_service ::
  "(string \<Rightarrow> string) \<Rightarrow> (string \<Rightarrow> string) \<Rightarrow> time \<Rightarrow> run_context \<Rightarrow> string \<Rightarrow> string \<Rightarrow> string \<Rightarrow> string \<Rightarrow> backplane
   \<Rightarrow> (string + begun_effect) \<times> backplane" where
  "begin_effect_service sha digest now c i receipt action destination s =
     settle_service now c ''effect.begin'' [i] s
       (with_run_context now c (\<lambda>b s1. with_uuid i (\<lambda>d.
          queue_call now b (\<lambda>E. begin_effect sha E (ctx_ws c) d (Some (digest receipt)) (Some action) (Some destination)) s1)) s)"

definition pause_effects_in :: "time \<Rightarrow> bound_context \<Rightarrow> uuid \<Rightarrow> uuid \<Rightarrow> backplane \<Rightarrow> failure + (nat \<times> backplane)" where
  "pause_effects_in now b w p s =
     ebind (call_queue now b (\<lambda>E. pause_effects E w p) s) (\<lambda>(evs, s').
       Inr (length (filter (\<lambda>e. ev_kind e = ''effect.paused'') evs), emit_delivery_events now b evs s'))"

section \<open>Recovery by a User\<close>

definition workspace_access :: "string option \<Rightarrow> (string \<times> bool) list \<Rightarrow> bool" where
  "workspace_access org ms = (case org of None \<Rightarrow> False
     | Some o1 \<Rightarrow> list_ex (\<lambda>(o2, revoked). o2 = o1 \<and> \<not> revoked) ms)"

text \<open>A null Workspace asks for the seeded Organization.\<close>

definition query_workspace_access :: "control \<Rightarrow> string \<Rightarrow> uuid option \<Rightarrow> bool" where
  "query_workspace_access ct u ws =
     (let orgs = (case ws of
            None \<Rightarrow> map mb_org (filter (\<lambda>m. mb_org m = ''default'' \<and> mb_user m = u) (ct_members ct))
          | Some w \<Rightarrow> map mb_org (workspace_member ct w u))
      in workspace_access (case orgs of [] \<Rightarrow> None | x # _ \<Rightarrow> Some x) (map (\<lambda>x. (x, False)) orgs))"

definition user_guard :: "run_context \<Rightarrow> backplane \<Rightarrow> failure + 'a \<Rightarrow> failure + 'a" where
  "user_guard c s k =
     (if (case ctx_user c of None \<Rightarrow> False | Some u \<Rightarrow> query_workspace_access (bp_ctl s) u (Some (ctx_ws c)))
      then k else Inl (Thrown ''recovery_forbidden''))"

definition cancel_service ::
  "time \<Rightarrow> run_context \<Rightarrow> string \<Rightarrow> bool \<Rightarrow> string \<Rightarrow> backplane \<Rightarrow> (string + delivery_envelope) \<times> backplane" where
  "cancel_service now c i force reason s =
     settle_service now c ''queue.cancel'' [i] s
       (with_run_context now c (\<lambda>b s1. user_guard c s1 (with_uuid i (\<lambda>d.
          ebind (queue_call now b (\<lambda>E. cancel E (ctx_ws c) d (Some force) (Some reason)) s1)
            (\<lambda>(x, s2). Inr (serialize_delivery x, s2))))) s)"

definition replay_in :: "time \<Rightarrow> bound_context \<Rightarrow> run_context \<Rightarrow> string \<Rightarrow> backplane \<Rightarrow> failure + (delivery_envelope \<times> backplane)" where
  "replay_in now b c i s = user_guard c s (with_uuid i (\<lambda>d.
     ebind (queue_call now b (\<lambda>E. replay E (ctx_ws c) d) s) (\<lambda>(x, s'). Inr (serialize_delivery x, s'))))"

definition replay_service :: "time \<Rightarrow> run_context \<Rightarrow> string \<Rightarrow> backplane \<Rightarrow> (string + delivery_envelope) \<times> backplane" where
  "replay_service now c i s =
     settle_service now c ''queue.replay'' [i] s (with_run_context now c (\<lambda>b. replay_in now b c i) s)"

definition release_in :: "time \<Rightarrow> bound_context \<Rightarrow> uuid \<Rightarrow> string \<Rightarrow> backplane \<Rightarrow> failure + (delivery_envelope \<times> backplane)" where
  "release_in now b w i s = with_uuid i (\<lambda>d.
     ebind (queue_call now b (\<lambda>E. release E w d) s) (\<lambda>(x, s'). Inr (serialize_delivery x, s')))"

definition release_service :: "time \<Rightarrow> run_context \<Rightarrow> string \<Rightarrow> backplane \<Rightarrow> (string + delivery_envelope) \<times> backplane" where
  "release_service now c i s =
     settle_service now c ''queue.release'' [i] s
       (with_run_context now c (\<lambda>b s1. user_guard c s1 (release_in now b (ctx_ws c) i s1)) s)"

text \<open>\<open>recover\<close> finds the candidates before its transaction; \<open>ensure_delivery\<close> checks them again inside.\<close>

definition recover_candidates :: "ledger \<Rightarrow> uuid \<Rightarrow> string \<Rightarrow> message list" where
  "recover_candidates l w n =
     sort_key ms_created (sort_key ms_id (filter (\<lambda>m. ms_ws m = w \<and> ms_queue m = n
       \<and> \<not> list_ex (\<lambda>d. dl_ws d = ms_ws m \<and> dl_queue d = ms_queue m \<and> dl_message d = ms_id m) (lg_deliveries l))
       (lg_messages l)))"

fun ensure_all :: "time \<Rightarrow> bound_context \<Rightarrow> uuid \<Rightarrow> message list \<Rightarrow> nat \<Rightarrow> backplane \<Rightarrow> failure + (nat \<times> backplane)" where
  "ensure_all now b w [] created s = Inr (created, s)"
| "ensure_all now b w (m # ms) created s = ebind (ensure_in now b w (ms_id m) s) (\<lambda>(d, s').
     ensure_all now b w ms (if d = None then created else Suc created) s')"

definition recover_service :: "time \<Rightarrow> run_context \<Rightarrow> string \<Rightarrow> backplane \<Rightarrow> (string + (nat \<times> bool)) \<times> backplane" where
  "recover_service now c n s =
     settle_service now c ''queue.recover'' [n] s
       (if queue_of (bp_ledger s) (ctx_ws c) n = None then Inl (Thrown ''queue_not_found'')
        else with_run_context now c (\<lambda>b s1.
          ebind (ensure_all now b (ctx_ws c) (take 32 (recover_candidates (bp_ledger s) (ctx_ws c) n)) 0 s1)
            (\<lambda>(created, s2). Inr ((created, recover_candidates (bp_ledger s2) (ctx_ws c) n \<noteq> []), s2))) s)"

section \<open>Reconciliation\<close>

definition approval_member :: "control \<Rightarrow> uuid \<Rightarrow> string \<Rightarrow> string option" where
  "approval_member ct w u = (case sort_key mb_id (workspace_member ct w u) of [] \<Rightarrow> None | m # _ \<Rightarrow> Some (mb_id m))"

definition event_at :: "backplane \<Rightarrow> uuid \<Rightarrow> nat \<Rightarrow> audit_event option" where
  "event_at s w n = find (\<lambda>a. ae_ws a = w \<and> ae_position a = n) (bp_events s)"

text \<open>Emit each event of the decision and give the decision its position.\<close>

fun finish_events ::
  "time \<Rightarrow> bound_context \<Rightarrow> uuid \<Rightarrow> uuid \<Rightarrow> nat option \<Rightarrow> queue_event list \<Rightarrow> backplane \<Rightarrow> failure + (nat option \<times> backplane)" where
  "finish_events now b w i pos [] s = Inr (pos, s)"
| "finish_events now b w i pos (e # es) s =
     (case emit now b (ev_kind e) (ev_objects e) (Some 1) (ev_metadata e) s of (n, s1) \<Rightarrow>
        ebind (call_queue now b (\<lambda>E. finish_reconciliation E w i n (event_at s1 w n)) s1) (\<lambda>(u, s2).
          finish_events now b w i (Some n) es s2))"

definition reconcile_in ::
  "time \<Rightarrow> run_context \<Rightarrow> string \<Rightarrow> string \<Rightarrow> string \<Rightarrow> bound_context \<Rightarrow> backplane
   \<Rightarrow> failure + ((reconciliation \<times> nat) \<times> backplane)" where
  "reconcile_in now c i decision evidence b s =
     (let w = ctx_ws c; ct = bp_ctl s in
      ebind (case c of
               User_context _ u \<Rightarrow> if approval_member ct w u = None then Inl (Thrown ''workspace_forbidden'') else Inr ()
             | Principal_context _ p _ _ \<Rightarrow>
                 if delegated ct w (Some p) then Inr () else Inl (Thrown ''reconciliation_forbidden'')) (\<lambda>_.
      with_uuid i (\<lambda>d.
      ebind (call_queue now b (\<lambda>E. reconcile E w d (Some decision) (Some evidence)) s) (\<lambda>((rc, evs), s1).
      ebind (finish_events now b w (rc_id rc) (rc_position rc) evs s1) (\<lambda>(pos, s2).
        (case pos of None \<Rightarrow> Inl (Thrown ''queue_unavailable'') | Some n \<Rightarrow> Inr ((rc, n), s2)))))))"

definition reconcile_service ::
  "time \<Rightarrow> run_context \<Rightarrow> string \<Rightarrow> string \<Rightarrow> string \<Rightarrow> backplane \<Rightarrow> (string + (reconciliation \<times> nat)) \<times> backplane" where
  "reconcile_service now c i decision evidence s =
     settle_service now c ''effect.reconciled'' [i] s
       (with_run_context now c (reconcile_in now c i decision evidence) s)"

text \<open>\<open>queue.set_reconciliation_delegation\<close>: the upsert reports a change only when the grant differs.\<close>

definition set_reconciliation_delegation ::
  "env \<Rightarrow> uuid \<Rightarrow> uuid \<Rightarrow> bool \<Rightarrow> control \<Rightarrow> raised + (string option \<times> control)" where
  "set_reconciliation_delegation E w p enabled ct = ebind (reconciliation_actor E w) (\<lambda>c.
     (case bc_user c of
        None \<Rightarrow> Inl Reconciliation_forbidden
      | Some u \<Rightarrow>
         (case approval_member ct w u of
            None \<Rightarrow> Inl No_data_found
          | Some m \<Rightarrow>
             guardE (\<not> list_ex (\<lambda>x. pr_ws x = w \<and> pr_id x = p \<and> (\<not> enabled \<or> pr_active x)) (ct_principals ct))
               Principal_not_found (
             let here = (\<lambda>d. dg_ws d = w \<and> dg_principal d = p); old = find here (ct_delegations ct);
                 new = \<lparr>dg_ws = w, dg_principal = p, dg_granted_by = u, dg_member = m\<rparr> in
             if enabled
             then (case old of
                     None \<Rightarrow> Inr (Some m, ct\<lparr>ct_delegations := ct_delegations ct @ [new]\<rparr>)
                   | Some d \<Rightarrow>
                       if (dg_granted_by d, dg_member d) = (u, m) then Inr (None, ct)
                       else Inr (Some m, ct\<lparr>ct_delegations := map (\<lambda>d. if here d then new else d) (ct_delegations ct)\<rparr>))
             else Inr (map_option dg_member old,
                       ct\<lparr>ct_delegations := filter (\<lambda>d. \<not> here d) (ct_delegations ct)\<rparr>)))))"

definition set_delegation_in ::
  "time \<Rightarrow> run_context \<Rightarrow> string \<Rightarrow> bool \<Rightarrow> bound_context \<Rightarrow> backplane \<Rightarrow> failure + ((string \<times> bool) \<times> backplane)" where
  "set_delegation_in now c p enabled b s =
     (let w = ctx_ws c; u = (case ctx_user c of None \<Rightarrow> [] | Some x \<Rightarrow> x) in
      if approval_member (bp_ctl s) w u = None then Inl (Thrown ''workspace_forbidden'')
      else with_uuid p (\<lambda>q.
        (case set_reconciliation_delegation (env_of now b s) w q enabled (bp_ctl s) of
           Inl e \<Rightarrow> Inl (Sql e)
         | Inr (changed, ct) \<Rightarrow>
             (let s1 = s\<lparr>bp_ctl := ct\<rparr> in
              Inr ((p, enabled),
                (case changed of
                   None \<Rightarrow> s1
                 | Some m \<Rightarrow> snd (emit now b ''reconciliation.delegation'' [p] (Some 1)
                     [(''enabled'', JBool enabled), (''memberId'', JStr m)] s1))))))) "

definition set_delegation_service ::
  "time \<Rightarrow> run_context \<Rightarrow> string \<Rightarrow> bool \<Rightarrow> backplane \<Rightarrow> (string + (string \<times> bool)) \<times> backplane" where
  "set_delegation_service now c p enabled s =
     settle_service now c ''reconciliation.delegation'' [p] s
       (with_run_context now c (set_delegation_in now c p enabled) s)"

section \<open>Reads\<close>

definition read_service :: "failure + 'a \<Rightarrow> string + 'a" where
  "read_service r = map_sum (\<lambda>e. fst (queue_error e)) id r"

definition get_message_service :: "time \<Rightarrow> uuid \<Rightarrow> string \<Rightarrow> uuid \<Rightarrow> backplane \<Rightarrow> string + (message \<times> string)" where
  "get_message_service now w n i s =
     (case find (\<lambda>m. ms_ws m = w \<and> ms_queue m = n \<and> ms_id m = i) (lg_messages (bp_ledger s)) of
        None \<Rightarrow> Inl ''message_not_found''
      | Some m \<Rightarrow>
         (case payload now w n i (bp_ledger s) of
            Inl e \<Rightarrow> Inl (fst (queue_error (Sql e)))
          | Inr None \<Rightarrow> Inl ''message_not_found''
          | Inr (Some b) \<Rightarrow> Inr (m, b)))"

end
