(* ===== verification/LedgerProps.thy ===== *)
theory LedgerProps
  imports LedgerReach
begin

text \<open>The properties of the queue ledger, each over all reachable ledgers, with a small worked
  ledger (one Workspace, one queue, one Message) on which their hypotheses are shown to hold.\<close>

section \<open>Traces\<close>

fun run_ops :: "(string \<Rightarrow> string) \<Rightarrow> (env \<times> queue_op) list \<Rightarrow> ledger \<Rightarrow> raised + ledger" where
  "run_ops sha [] s = Inr s"
| "run_ops sha ((E, op) # ops) s = ebind (apply_op sha E op s) (run_ops sha ops)"

lemma run_ops_reachable: "reachable sha s \<Longrightarrow> run_ops sha ops s = Inr s' \<Longrightarrow> reachable sha s'"
proof (induction ops arbitrary: s)
  case (Cons a ops)
  then show ?case
    by (cases a) (auto simp: ebind_Inr_iff intro: reachable.run ledger_step.step)
qed simp

lemma run_ops_sticky:
  assumes "ledger_ok s" "unreset (lg_effects s) m" "\<forall>(E, op)\<in>set ops. \<not> gives_up op" "run_ops sha ops s = Inr s'"
  shows "ledger_ok s' \<and> unreset (lg_effects s') m"
  using assms
proof (induction ops arbitrary: s)
  case (Cons a ops)
  obtain E op where a: "a = (E, op)" by (cases a)
  obtain s1 where s1: "apply_op sha E op s = Inr s1" "run_ops sha ops s1 = Inr s'"
    using Cons.prems(4) a by (auto simp: ebind_Inr_iff)
  have st: "ledger_step sha E op s s1" using s1(1) by (rule ledger_step.step)
  have "\<not> gives_up op" using Cons.prems(3) a by auto
  then show ?case
    using Cons.IH [OF ledger_step_ok [OF st Cons.prems(1)] effect_sticky [OF st Cons.prems(1,2)]] Cons.prems(3) s1(2)
    by auto
qed simp

section \<open>A worked ledger\<close>

definition demo_sha :: "string \<Rightarrow> string" where
  "demo_sha t = take 64 (t @ replicate 64 (CHR ''0''))"

definition demo_control :: control where
  "demo_control = \<lparr>ct_principals = [\<lparr>pr_id = 10, pr_ws = 1, pr_active = True, pr_system = None\<rparr>],
     ct_runs = [(20, 1, 10)], ct_workspaces = [(1, ''org'')],
     ct_members = [\<lparr>mb_id = ''m'', mb_org = ''org'', mb_user = ''ann''\<rparr>], ct_delegations = [],
     ct_retention = [], ct_gate = Some \<lparr>rg_epoch = None, rg_active = False\<rparr>, ct_restore = []\<rparr>"

definition demo_agent :: "time \<Rightarrow> env" where
  "demo_agent t = \<lparr>en_now = t, en_ctx = Some \<lparr>bc_ws = 1, bc_principal = Some 10, bc_run = Some 20, bc_user = None\<rparr>,
     en_ctl = demo_control\<rparr>"

definition demo_user :: "time \<Rightarrow> env" where
  "demo_user t = \<lparr>en_now = t, en_ctx = Some \<lparr>bc_ws = 1, bc_principal = None, bc_run = None, bc_user = Some ''ann''\<rparr>,
     en_ctl = demo_control\<rparr>"

definition demo_receipt :: string where
  "demo_receipt = replicate 32 (CHR ''r'')"

definition demo_sent_ops :: "(env \<times> queue_op) list" where
  "demo_sent_ops = [(demo_agent 0, Op_create 1 ''jobs''),
     (demo_agent 1, Op_send 1 ''jobs'' (Some ''k'') (Some ''{}'')),
     (demo_agent 1, Op_send 1 ''jobs'' (Some ''k2'') (Some ''[]''))]"

definition demo_claim_op :: "env \<times> queue_op" where
  "demo_claim_op = (demo_agent 2, Op_claim 1 ''jobs'' (Some demo_receipt))"

definition demo_begin_op :: "env \<times> queue_op" where
  "demo_begin_op = (demo_agent 3, Op_begin 1 2 (Some demo_receipt) (Some ''pay'') (Some ''bank''))"

definition demo_sent :: ledger where
  "demo_sent = projr (run_ops demo_sha demo_sent_ops empty_ledger)"

definition demo_claimed :: ledger where
  "demo_claimed = projr (run_ops demo_sha (demo_sent_ops @ [demo_claim_op]) empty_ledger)"

definition demo_row :: delivery where
  "demo_row = projr (fenced_delivery (demo_agent 3) 1 2 (Some demo_receipt) demo_claimed)"

definition demo_begun :: ledger where
  "demo_begun = put_delivery (start_effect 3 demo_row)
     (demo_claimed\<lparr>lg_effects := [\<lparr>ef_ws = 1, ef_queue = dl_queue demo_row, ef_message = dl_message demo_row,
        ef_origin = dl_id demo_row, ef_key = effect_key demo_sha 1 ''pay'' ''bank'', ef_reset = False\<rparr>]\<rparr>)"

lemma demo_sent_run: "run_ops demo_sha demo_sent_ops empty_ledger = Inr demo_sent"
proof -
  have "\<not> isl (run_ops demo_sha demo_sent_ops empty_ledger)" by code_simp
  then show ?thesis by (simp add: demo_sent_def)
qed

lemma demo_claimed_run: "run_ops demo_sha (demo_sent_ops @ [demo_claim_op]) empty_ledger = Inr demo_claimed"
proof -
  have "\<not> isl (run_ops demo_sha (demo_sent_ops @ [demo_claim_op]) empty_ledger)" by code_simp
  then show ?thesis by (simp add: demo_claimed_def)
qed

text \<open>The begun effect, one evaluation at a time.\<close>

lemma demo_row_fenced: "fenced_delivery (demo_agent 3) 1 2 (Some demo_receipt) demo_claimed = Inr demo_row"
proof -
  have "\<not> isl (fenced_delivery (demo_agent 3) 1 2 (Some demo_receipt) demo_claimed)" by code_simp
  then show ?thesis by (simp add: demo_row_def)
qed

lemma demo_row_facts: "dl_message demo_row = 0" "lg_effects demo_claimed = []" "dl_state demo_row = Leased"
  "dl_attempt demo_row = 1" "dl_max demo_row = 5" "dl_effect demo_row = None"
  by code_simp+

lemma demo_now [simp]: "en_now (demo_agent t) = t" "en_now (demo_user t) = t"
  by (simp_all add: demo_agent_def demo_user_def)

lemma demo_octets: "octets_between 1 1024 ''pay''" "octets_between 1 1024 ''bank''"
  by code_simp+

lemma demo_begun_step: "apply_op demo_sha (fst demo_begin_op) (snd demo_begin_op) demo_claimed = Inr demo_begun"
  by (simp add: demo_begin_op_def after_def begin_effect_def demo_row_fenced demo_octets effect_of_def
      demo_row_facts tget_def Let_def guardE_def demo_begun_def demo_now del: One_nat_def)

lemma demo_begun_unreset: "unreset (lg_effects demo_begun) 0"
  by (simp add: demo_begun_def demo_row_facts unreset_def)

lemma demo_reachable:
  "reachable demo_sha demo_sent" "reachable demo_sha demo_claimed" "reachable demo_sha demo_begun"
  by (rule run_ops_reachable [OF reachable.start demo_sent_run]
      run_ops_reachable [OF reachable.start demo_claimed_run]
      reachable.run [OF run_ops_reachable [OF reachable.start demo_claimed_run]
        ledger_step.step [OF demo_begun_step]])+

section \<open>Properties\<close>

text \<open>C1: every ledger the queue functions can reach is well formed: the CHECK constraints and unique
  indexes of the tables hold, each materialised Message has exactly one current Delivery, the
  current Deliveries in a dispatchable state are exactly those pgmq will still hand out, a fenced
  row is hidden at least until its lease ends, and an unreset effect belongs to a started row.\<close>

theorem reachable_well_formed:
  assumes "reachable sha s"
  shows "ledger_ok s"
  using assms by (rule reachable_ledger_ok)

theorem reachable_well_formed_witness: "ledger_ok demo_begun"
  by (rule reachable_well_formed [OF demo_reachable(3)])

text \<open>C2: once an effect has begun for a Message, no claim hands that Message out again, whatever
  operations run in between, until someone reconciles it as \<open>not_applied\<close>.\<close>

theorem begun_effect_not_redispatched:
  assumes "reachable sha s" "unreset (lg_effects s) m"
    and "run_ops sha ops s = Inr s'" "\<forall>(E, op)\<in>set ops. \<not> gives_up op"
    and "claim E w n h s' = Inr ((Some (d, body), evs), s'')"
  shows "dl_message d \<noteq> m"
proof -
  have s': "ledger_ok s'" "unreset (lg_effects s') m"
    using run_ops_sticky [OF reachable_ledger_ok [OF assms(1)] assms(2,4,3)] by simp_all
  have g: "ledger_ok s''" "lg_effects s'' = lg_effects s'"
    using claim_ok(1) [OF s'(1) assms(5)] by (simp_all add: good_def frame_def)
  obtain c h' where "claimed (en_now E) c h' s' s'' d" using claim_ok(2) [OF s'(1) assms(5) refl] by blast
  then have "d \<in> set (lg_deliveries s'')" "dl_current d" "dl_effect d = None" by (auto simp: claimed_def)
  then have "\<not> unreset (lg_effects s'') (dl_message d)" using effects_okD(3) [OF ledger_okD(5) [OF g(1)]] by blast
  then show ?thesis using s'(2) g(2) by auto
qed

definition demo_other_claim :: "raised + (((delivery \<times> string) option \<times> queue_event list) \<times> ledger)" where
  "demo_other_claim = claim (demo_agent 4) 1 ''jobs'' (Some demo_receipt) demo_begun"

lemma demo_other_claim_result:
  "(case demo_other_claim of Inr ((Some (d, body), evs), s') \<Rightarrow> dl_message d = 1 \<and> body = ''[]'' | _ \<Rightarrow> False)"
  unfolding demo_other_claim_def demo_begun_def by code_simp

theorem begun_effect_not_redispatched_witness:
  "\<exists>d body evs s'. demo_other_claim = Inr ((Some (d, body), evs), s') \<and> dl_message d \<noteq> 0"
proof -
  obtain d body evs s' where c: "demo_other_claim = Inr ((Some (d, body), evs), s')"
    using demo_other_claim_result by (auto split: sum.splits prod.splits option.splits)
  have "dl_message d \<noteq> 0"
    by (rule begun_effect_not_redispatched [OF demo_reachable(3) demo_begun_unreset, of "[]"])
      (use c in \<open>auto simp: demo_other_claim_def\<close>)
  then show ?thesis using c by blast
qed

text \<open>C3: a claim never touches a live lease: a Delivery whose lease has not ended is still there,
  unchanged, after any claim, and the claim does not hand its Message to anyone else.\<close>

theorem lease_exclusive:
  assumes "reachable sha s" "x \<in> set (lg_deliveries s)" "live_lease (en_now E) x"
    and "claim E w n h s = Inr ((r, evs), s')"
  shows "x \<in> set (lg_deliveries s') \<and> (\<forall>d body. r = Some (d, body) \<longrightarrow> dl_message d \<noteq> dl_message x)"
proof -
  note ok = reachable_ledger_ok [OF assms(1)]
  have "x \<in> set (lg_deliveries s')"
    using claim_ok(1) [OF ok assms(4)] assms(2,3) by (auto simp: good_def keeps_def)
  moreover have "dl_message d \<noteq> dl_message x" if "r = Some (d, body)" for d body
    using claim_ok(2) [OF ok assms(4) that] assms(2,3) by (auto simp: claimed_def)
  ultimately show ?thesis by blast
qed

lemma demo_row_live: "demo_row \<in> set (lg_deliveries demo_claimed)" "live_lease 4 demo_row"
proof -
  show "demo_row \<in> set (lg_deliveries demo_claimed)" using fenced_deliveryD(1) [OF demo_row_fenced] .
  show "live_lease 4 demo_row" unfolding live_lease_def fenced_def by code_simp
qed

lemma demo_second_claim:
  "\<not> isl (claim (demo_agent 4) 1 ''jobs'' (Some demo_receipt) demo_claimed)"
  by code_simp

theorem lease_exclusive_witness:
  "\<exists>r evs s'. claim (demo_agent 4) 1 ''jobs'' (Some demo_receipt) demo_claimed = Inr ((r, evs), s')
     \<and> demo_row \<in> set (lg_deliveries s')"
proof -
  obtain r evs s' where c: "claim (demo_agent 4) 1 ''jobs'' (Some demo_receipt) demo_claimed = Inr ((r, evs), s')"
    using demo_second_claim by (cases "claim (demo_agent 4) 1 ''jobs'' (Some demo_receipt) demo_claimed") auto
  then show ?thesis
    using lease_exclusive [OF demo_reachable(2) demo_row_live(1) _ c] demo_row_live(2) by auto
qed

text \<open>C4: past its own checks (a caller with a Run, an open restore gate, a 32-byte receipt hash, an
  existing queue) a claim always returns, empty-handed or with a Delivery: \<open>queue_unavailable\<close>,
  \<open>no_data_found\<close> and the like are unreachable, as long as no body of an unexpired Message is lost.\<close>

theorem claim_returns:
  assumes "reachable sha s" "bodies_ok (en_now E) s"
    and "queue_context E w = Inr c" "assert_restore_open (en_ctl E) = Inr ()"
    and "length h = 32" "queue_of s w n \<noteq> None"
  shows "\<exists>r evs s'. claim E w n (Some h) s = Inr ((r, evs), s')"
proof -
  obtain p where "physical_queue s w n = Some p" using assms(6) by (auto simp: physical_queue_def)
  then show ?thesis using claim_run [OF reachable_ledger_ok [OF assms(1)] assms(3,4,5)] assms(2) by blast
qed

lemma demo_claim_checks:
  "queue_context (demo_agent 4) 1 = Inr \<lparr>bc_ws = 1, bc_principal = Some 10, bc_run = Some 20, bc_user = None\<rparr>"
  "assert_restore_open (en_ctl (demo_agent 4)) = Inr ()" "length demo_receipt = 32"
  "queue_of demo_claimed 1 ''jobs'' \<noteq> None"
proof -
  have "\<not> Option.is_none (queue_of demo_claimed 1 ''jobs'')" by code_simp
  then show "queue_of demo_claimed 1 ''jobs'' \<noteq> None" by (simp add: Option.is_none_def)
qed (simp_all add: demo_agent_def demo_control_def queue_context_def context_row_def is_system_def
      assert_restore_open_def demo_receipt_def)

lemma demo_bodies: "bodies_ok 4 demo_claimed"
proof -
  have "list_all (\<lambda>m. \<not> Option.is_none (lg_body demo_claimed (ms_ws m) (ms_queue m) (ms_msg m))) (lg_messages demo_claimed)"
    by code_simp
  then show ?thesis by (simp add: bodies_ok_def list_all_iff Option.is_none_def)
qed

theorem claim_returns_witness:
  "\<exists>r evs s'. claim (demo_agent 4) 1 ''jobs'' (Some demo_receipt) demo_claimed = Inr ((r, evs), s')"
  by (rule claim_returns [OF demo_reachable(2) _ demo_claim_checks]) (simp add: demo_bodies)

end
