(* ===== verification/OperationProps.thy ===== *)
theory OperationProps
  imports LedgerProps
begin

text \<open>The properties of single operations on a reachable ledger: receipts, settling, retries,
  sending, reconciliation, restore, and the digests they compute.\<close>

section \<open>Receipts\<close>

lemma delivery_in_Some:
  assumes "ledger_ok s" "d \<in> set (lg_deliveries s)"
  shows "delivery_in s (dl_ws d) (dl_id d) = Some d"
proof -
  let ?P = "\<lambda>x. dl_ws x = dl_ws d \<and> dl_id x = dl_id d"
  have "find ?P (lg_deliveries s) \<noteq> None" using assms(2) by (auto simp: find_None_iff)
  then obtain x where x: "find ?P (lg_deliveries s) = Some x" by blast
  then have "x \<in> set (lg_deliveries s)" "dl_id x = dl_id d" by (auto simp: find_Some_iff in_set_conv_nth)
  then have "x = d"
    using rows_okD(1) [OF ledger_okD(3) [OF assms(1)]] assms(2) by (auto simp: distinct_map inj_on_def)
  then show ?thesis using x by (simp add: delivery_in_def)
qed

lemma not_fenced_stale:
  assumes "ledger_ok s" "d \<in> set (lg_deliveries s)" "\<not> fenced d" "queue_context E (dl_ws d) = Inr c"
  shows "fenced_delivery E (dl_ws d) (dl_id d) h s = Inl Receipt_stale"
  using assms delivery_in_Some [OF assms(1,2)] by (auto simp: fenced_delivery_def guardE_def fenced_def)

lemma put_member: "d \<in> set (lg_deliveries s) \<Longrightarrow> dl_id d' = dl_id d \<Longrightarrow> d' \<in> set (lg_deliveries (put_delivery d' s))"
  by (auto simp: put_delivery_def in_set_tput)

lemma settled_not_fenced: "row_ok d \<Longrightarrow> v \<noteq> Renew \<Longrightarrow> \<not> fenced (settled now v d)"
  by (simp add: fenced_def settled_def settled_state_def)

lemma receipt_verb_settles:
  assumes ok: "ledger_ok s" and v: "v \<in> {Ack, Nack}" and r: "receipt_verb E w i h v s = Inr ((d', evs), s')"
  obtains d where "fenced_delivery E w i h s = Inr d" "d' = settled (en_now E) v d" "ledger_ok s'"
    "d' \<in> set (lg_deliveries s')"
proof -
  obtain d where f: "fenced_delivery E w i h s = Inr d" using r by (auto simp: receipt_verb_def ebind_Inr_iff)
  note F = fenced_deliveryD [OF f]
  have st: "settle (en_now E) v d s = Inr (d', s')"
    using r f v by (auto simp: receipt_verb_def ebind_Inr_iff Let_def)
  obtain P where S: "ledger_ok s'" "d' = settled (en_now E) v d" "s' = put_delivery d' (s\<lparr>lg_pgmq := P\<rparr>)"
    using settle_ok [OF ok F(1,4,5) _ st] v by auto
  have "d' \<in> set (lg_deliveries s')" unfolding S(3)
    by (rule put_member [of d]) (use F(1) S(2) in \<open>simp_all add: settled_def\<close>)
  then show ?thesis using that f S by blast
qed

lemma hold_result:
  assumes ok: "ledger_ok s" and r: "hold E w i h s = Inr ((d', evs), s')"
  shows "ledger_ok s' \<and> d' \<in> set (lg_deliveries s') \<and> dl_state d' = Held \<and> dl_ws d' = w \<and> dl_id d' = i"
proof -
  obtain d where f: "fenced_delivery E w i h s = Inr d" using r by (auto simp: hold_def ebind_Inr_iff)
  note F = fenced_deliveryD [OF f]
  obtain c where c: "queue_context E w = Inr c" using F(8) by blast
  obtain s1 where s1: "lg_deliveries s1 = lg_deliveries s" "s' = put_delivery d' s1" "dl_id d' = dl_id d"
    "dl_state d' = Held" "dl_ws d' = dl_ws d"
  proof -
    obtain p where p: "physical_queue s (dl_ws d) (dl_queue d) = Some p" using delivery_queue [OF ok F(1)] .
    obtain s1 where "retire p (dl_msg d) s = Inr s1" "s' = put_delivery d' s1" "dl_id d' = dl_id d"
      "dl_state d' = Held" "dl_ws d' = dl_ws d"
      using r f c p F(2) by (auto simp: hold_def ebind_Inr_iff Let_def)
    then show ?thesis using that retire_frame(2) [OF ledger_okD(1) [OF ok] p] by blast
  qed
  have "d' \<in> set (lg_deliveries s')" unfolding s1(2)
    by (rule put_member [of d]) (use F(1) s1(1,3) in simp_all)
  then show ?thesis using hold_ok [OF ok r] s1 F(2,3) by simp
qed


lemma demo_ack_total: "\<not> isl (apply_op demo_sha (demo_agent 3) (Op_ack 1 2 (Some demo_receipt)) demo_claimed)"
  by code_simp


section \<open>Settling\<close>

text \<open>C6: with a valid receipt, \<open>ack\<close> and \<open>nack\<close> always succeed; \<open>ack\<close> ends the Delivery, \<open>nack\<close>
  makes a started effect ambiguous, dead-letters the last attempt and otherwise schedules the next
  attempt five seconds later.\<close>

theorem settle_outcome:
  assumes "reachable sha s" "fenced_delivery E w i h s = Inr d" "v \<in> {Ack, Nack}"
  shows "\<exists>d' evs s'. receipt_verb E w i h v s = Inr ((d', evs), s')
     \<and> dl_id d' = i \<and> dl_receipt d' = None \<and> dl_completed d' = Some (en_now E)
     \<and> dl_state d' = (if v = Ack then Succeeded else if dl_effect d \<noteq> None then Ambiguous
                      else if dl_attempt d = 5 then Dead_lettered else Scheduled)
     \<and> dl_next d' = (if dl_state d' = Scheduled then Some (en_now E + 5000000) else None)
     \<and> d' \<in> set (lg_deliveries s')"
proof -
  note ok = reachable_ledger_ok [OF assms(1)]
  note F = fenced_deliveryD [OF assms(2)]
  have five: "dl_max d = 5" "dl_attempt d \<le> 5" using dl_row [OF ok F(1)] by (auto simp: row_ok_def)
  obtain s' where s': "settle (en_now E) v d s = Inr (settled (en_now E) v d, s')"
    using settle_total [OF ok F(1,4,5)] assms(3) by blast
  obtain evs where r: "receipt_verb E w i h v s = Inr ((settled (en_now E) v d, evs), s')"
    using assms(2,3) s' by (auto simp: receipt_verb_def Let_def)
  have m: "settled (en_now E) v d \<in> set (lg_deliveries s')"
    by (rule receipt_verb_settles [OF ok assms(3) r]) (use assms(2) in auto)
  show ?thesis
    by (intro exI conjI, rule r)
      (use m F(3) five assms(3) in \<open>auto simp: settled_def settled_state_def settled_next_def\<close>)
qed

theorem settle_outcome_witness:
  "\<exists>d' evs s'. receipt_verb (demo_agent 3) 1 2 (Some demo_receipt) Nack demo_claimed = Inr ((d', evs), s')
     \<and> dl_state d' = Scheduled \<and> dl_next d' = Some 5000003"
  using settle_outcome [OF demo_reachable(2) demo_row_fenced, of Nack] by (auto simp: demo_row_facts)

section \<open>Retries\<close>



section \<open>Sending and deciding once\<close>

lemma find_snoc: "find P (xs @ [x]) = (case find P xs of None \<Rightarrow> if P x then Some x else None | Some y \<Rightarrow> Some y)"
  by (induction xs) auto

lemma send_messageD:
  assumes "send_message sha E w n key body s = Inr ((m, ins, b), s')"
  obtains c k p q where "queue_context E w = Inr c" "key = Some k" "body = Some p" "1 \<le> octets k" "octets k \<le> 256"
    "octets p \<le> 262144" "queue_of s w n = Some q" "ms_hash m = sha p" "message_by_key s' w n k = Some m"
    "queue_of s' w n = Some q" "ins \<longleftrightarrow> message_by_key s w n k = None" "b = length p"
proof -
  obtain c k p q where c: "queue_context E w = Inr c" "key = Some k" "body = Some p" "1 \<le> octets k" "octets k \<le> 256"
    "octets p \<le> 262144" and q: "queue_of s w n = Some q"
    using assms by (cases key; cases body; cases "queue_of s w n") (auto simp: send_message_def ebind_Inr_iff)
  show ?thesis
  proof (cases "message_by_key s w n k")
    case (Some x)
    then have "m = x" "ms_hash m = sha p" "s' = s" "\<not> ins" "b = length p"
      using assms c q by (auto simp: send_message_def split: if_splits)
    then show ?thesis using that c q Some by simp
  next
    case None
    then have "\<exists>mid s1. with_table (qr_phys q) (pq_send (en_now E) p) s = Inr (mid, s1) \<and> ins \<and> b = length p
        \<and> ms_ws m = w \<and> ms_queue m = n \<and> ms_key m = k \<and> ms_hash m = sha p
        \<and> lg_messages s' = lg_messages s1 @ [m] \<and> lg_queues s' = lg_queues s1"
      using assms c q by (auto simp: send_message_def ebind_Inr_iff draw_uuid_def Let_def)
    then obtain mid s1 where h: "with_table (qr_phys q) (pq_send (en_now E) p) s = Inr (mid, s1)" "ins" "b = length p"
      "ms_ws m = w" "ms_queue m = n" "ms_key m = k" "ms_hash m = sha p"
      "lg_messages s' = lg_messages s1 @ [m]" "lg_queues s' = lg_queues s1" by blast
    have same: "lg_messages s1 = lg_messages s" "lg_queues s1 = lg_queues s"
      using h(1) by (auto simp: with_table_def split: option.splits prod.splits)
    have "message_by_key s' w n k = Some m"
      using None h same by (auto simp: message_by_key_def find_snoc)
    moreover have "queue_of s' w n = Some q" using q h(9) same(2) by (simp add: queue_of_def)
    ultimately show ?thesis using that c q h None by blast
  qed
qed


lemma demo_queue_sent:
  "\<not> isl (send_message demo_sha (demo_agent 1) 1 ''jobs'' (Some ''k9'') (Some ''{}'') demo_claimed)"
  by code_simp


lemma record_decision_result:
  assumes "record_decision E w c d dec ev suc s1 = ((rc, evs), s')"
  shows "rc_ws rc = w" "rc_delivery rc = dl_id d" "rc_outcome rc = dec" "lg_recons s' = lg_recons s1 @ [rc]"
    "lg_deliveries s' = lg_deliveries s1"
  using assms by (auto simp: record_decision_def draw_uuid_def Let_def)

lemma resend_fields:
  "resend now w d old body s = Inr (n, s') \<Longrightarrow>
     lg_deliveries s' = tput dl_id old (lg_deliveries s) @ [n] \<and> lg_recons s' = lg_recons s"
  by (auto simp: resend_def ebind_Inr_iff insert_delivery_def draw_uuid_def add_delivery_def
      put_delivery_def with_table_def Let_def split: option.splits prod.splits)

lemma decide_not_appliedD:
  assumes "decide E w Not_applied d s = Inr (suc, s')"
  obtains body n s1 where "resend (en_now E) w d (d\<lparr>dl_current := False, dl_state := Cancelled,
      dl_failure := Some ''reconciled_not_applied''\<rparr>) body s = Inr (n, s1)" "s' = reset_effect (dl_message d) s1"
      "suc = Some (dl_id n)"
  using assms by (auto simp: decide_def ebind_Inr_iff split: option.splits)

lemma decide_recons: "decide E w dec d s = Inr (suc, s') \<Longrightarrow> lg_recons s' = lg_recons s"
proof (cases dec)
  case Not_applied
  assume "decide E w dec d s = Inr (suc, s')"
  then show ?thesis unfolding Not_applied
    by (rule decide_not_appliedD) (auto simp: reset_effect_def dest: resend_fields)
qed (auto simp: decide_def put_delivery_def)

lemma decide_keeps_row:
  assumes ok: "ledger_ok s" and d: "delivery_in s w i = Some d" "dl_current d" "dl_state d \<in> {Ambiguous, Effect_paused}"
    and r: "decide E w dec d s = Inr (suc, s')"
  shows "\<exists>d'. delivery_in s' w i = Some d'"
proof -
  note D = delivery_inD [OF d(1)]
  have "\<exists>d'\<in>set (lg_deliveries s'). dl_ws d' = w \<and> dl_id d' = i"
  proof (cases dec)
    case Not_applied
    let ?old = "d\<lparr>dl_current := False, dl_state := Cancelled, dl_failure := Some ''reconciled_not_applied''\<rparr>"
    obtain body n s1 where n: "resend (en_now E) w d ?old body s = Inr (n, s1)" "s' = reset_effect (dl_message d) s1"
      using r unfolding Not_applied by (rule decide_not_appliedD)
    have "lg_deliveries s1 = tput dl_id ?old (lg_deliveries s) @ [n]" using resend_fields [OF n(1)] by simp
    then have "?old \<in> set (lg_deliveries s')"
      using D n(2) by (auto simp: reset_effect_def in_set_tput)
    then show ?thesis by (rule rev_bexI) (use D in simp)
  next
    case Applied
    let ?d' = "d\<lparr>dl_state := Succeeded, dl_completed := Some (en_now E), dl_failure := None\<rparr>"
    have "?d' \<in> set (lg_deliveries (put_delivery ?d' s))" by (rule put_member [of d]) (use D in simp_all)
    then show ?thesis using r Applied D by (intro bexI [of _ ?d']) (simp_all add: decide_def)
  next
    case Unknown
    then show ?thesis using r D by (auto simp: decide_def)
  qed
  then show ?thesis by (auto simp: delivery_in_def find_None_iff simp flip: not_None_eq)
qed

lemma reconcile_result:
  assumes ok: "ledger_ok s" and r: "reconcile E w i (Some t) ev s = Inr ((rc, evs), s')"
  obtains dec d' where "parse_outcome t = Some dec" "delivery_in s' w i = Some d'"
    "find (\<lambda>r. rc_outcome r = dec) (decisions s' w i) = Some rc"
proof -
  obtain c where c: "reconciliation_actor E w = Inr c" using r by (auto simp: reconcile_def ebind_Inr_iff)
  obtain dec e where de: "parse_outcome t = Some dec" "ev = Some e"
    using r c by (cases "parse_outcome t"; cases ev) (auto simp: reconcile_def)
  obtain d where d: "delivery_in s w i = Some d"
    using r c de by (cases "delivery_in s w i") (auto simp: reconcile_def)
  show ?thesis
  proof (cases "find (\<lambda>r. rc_outcome r = dec) (decisions s w i)")
    case (Some x)
    then have "rc = x \<and> s' = s" using r c de d by (auto simp: reconcile_def)
    then show ?thesis using that de d Some by blast
  next
    case None
    from reconcileD [OF r] consider "rc \<in> set (decisions s w i)" "s' = s" "evs = []"
      | c d2 e2 suc s1 where "delivery_in s w i = Some d2" "dl_current d2" "dl_state d2 \<in> {Ambiguous, Effect_paused}"
          "decide E w dec d2 s = Inr (suc, s1)" "record_decision E w c d2 dec e2 suc s1 = ((rc, evs), s')"
      using de by auto
    then show ?thesis
    proof cases
      case 1
      have "evs \<noteq> []"
      proof -
        from r c de d None obtain suc s1 where "record_decision E w c d dec e suc s1 = ((rc, evs), s')"
          by (auto simp: reconcile_def ebind_Inr_iff split: option.splits)
        then show ?thesis by (auto simp: record_decision_def draw_uuid_def Let_def)
      qed
      then show ?thesis using 1 by simp
    next
      case (2 c d2 e2 suc s1)
      note R = record_decision_result [OF 2(5)]
      obtain d' where d': "delivery_in s1 w i = Some d'" using decide_keeps_row [OF ok 2(1-4)] by blast
      have "dl_id d2 = i" using delivery_inD [OF 2(1)] by simp
      then have "decisions s' w i = decisions s w i @ [rc]"
        using R decide_recons [OF 2(4)] by (simp add: decisions_def)
      then have "find (\<lambda>r. rc_outcome r = dec) (decisions s' w i) = Some rc"
        using None R(3) by (simp add: find_snoc)
      moreover have "delivery_in s' w i = Some d'" using d' R(5) by (simp add: delivery_in_def)
      ultimately show ?thesis using that de(1) by blast
    qed
  qed
qed

text \<open>C9: a reconciliation is recorded once: after a decision on a Delivery, the same decision (by any
  permitted actor, with any well-sized evidence) returns the recorded one and changes nothing, and
  after a definitive decision any decision not on record is refused with \<open>reconciliation_conflict\<close>.\<close>

theorem reconcile_once:
  assumes "reachable sha s" "reconcile E w i (Some t) ev s = Inr ((rc, evs), s')"
    and "reconciliation_actor E' w = Inr c" "octets_between 1 4096 e"
  shows "reconcile E' w i (Some t) (Some e) s' = Inr ((rc, []), s')
     \<and> (t \<noteq> ''unknown'' \<longrightarrow> parse_outcome t' = Some dec' \<longrightarrow> (\<forall>r\<in>set (decisions s' w i). rc_outcome r \<noteq> dec')
         \<longrightarrow> reconcile E' w i (Some t') (Some e) s' = Inl Reconciliation_conflict)"
proof -
  obtain dec d' where h: "parse_outcome t = Some dec" "delivery_in s' w i = Some d'"
    "find (\<lambda>r. rc_outcome r = dec) (decisions s' w i) = Some rc"
    using reconcile_result [OF reachable_ledger_ok [OF assms(1)] assms(2)] .
  have rc: "rc \<in> set (decisions s' w i)" "rc_outcome rc = dec" using h(3) by (auto simp: find_Some_iff in_set_conv_nth)
  have "dec \<noteq> Unknown" if "t \<noteq> ''unknown''" using h(1) that by (auto split: if_splits)
  then have "list_ex (\<lambda>r. rc_outcome r \<noteq> Unknown) (decisions s' w i)" if "t \<noteq> ''unknown''"
    using that rc by (auto simp: list_ex_iff)
  moreover have "find (\<lambda>r. rc_outcome r = dec') (decisions s' w i) = None"
    if "\<forall>r\<in>set (decisions s' w i). rc_outcome r \<noteq> dec'" using that by (simp add: find_None_iff)
  ultimately show ?thesis
    using assms(3,4) h by (simp add: reconcile_def guardE_def del: parse_outcome.simps)
qed

definition demo_nacked :: "raised + ((delivery \<times> queue_event list) \<times> ledger)" where
  "demo_nacked = nack (demo_agent 4) 1 2 (Some demo_receipt) demo_begun"

definition demo_ambiguous :: ledger where
  "demo_ambiguous = snd (projr demo_nacked)"

definition demo_reconciled :: "raised + ((reconciliation \<times> queue_event list) \<times> ledger)" where
  "demo_reconciled = reconcile (demo_user 5) 1 2 (Some ''applied'') (Some ''receipt 7'') demo_ambiguous"

lemma demo_nacked_runs: "\<not> isl demo_nacked"
  unfolding demo_nacked_def demo_begun_def by code_simp

lemma demo_reconciled_runs: "\<not> isl demo_reconciled"
  unfolding demo_reconciled_def demo_ambiguous_def demo_nacked_def demo_begun_def by code_simp

lemma demo_ambiguous_reachable: "reachable demo_sha demo_ambiguous"
proof -
  have "apply_op demo_sha (demo_agent 4) (Op_nack 1 2 (Some demo_receipt)) demo_begun = Inr demo_ambiguous"
    using demo_nacked_runs by (cases demo_nacked) (auto simp: demo_nacked_def demo_ambiguous_def after_def)
  then show ?thesis using reachable.run [OF demo_reachable(3)] ledger_step.step by blast
qed

theorem reconcile_once_witness:
  "\<exists>rc evs s'. demo_reconciled = Inr ((rc, evs), s')
     \<and> reconcile (demo_user 6) 1 2 (Some ''applied'') (Some ''again'') s' = Inr ((rc, []), s')"
proof -
  obtain rc evs s' where r: "demo_reconciled = Inr ((rc, evs), s')"
    by (metis demo_reconciled_runs sum.collapse(2) prod.collapse)
  have c: "reconciliation_actor (demo_user 6) 1 = Inr \<lparr>bc_ws = 1, bc_principal = None, bc_run = None, bc_user = Some ''ann''\<rparr>"
    by code_simp
  have "octets_between 1 4096 ''again''" by (simp add: octets_between_def octets_def)
  then have "reconcile (demo_user 6) 1 2 (Some ''applied'') (Some ''again'') s' = Inr ((rc, []), s')"
    using reconcile_once [OF demo_ambiguous_reachable r [unfolded demo_reconciled_def] c] by blast
  then show ?thesis using r by blast
qed

section \<open>Restore\<close>

definition in_flight :: "ledger \<Rightarrow> uuid \<Rightarrow> delivery list" where
  "in_flight s w = filter (\<lambda>d. dl_ws d = w \<and> dl_current d \<and> fenced d) (lg_deliveries s)"

lemma filter_tput_drop:
  assumes "distinct (map key rows)" "x \<in> set rows" "P x" "key y = key x" "\<not> P y"
  shows "Suc (length (filter P (tput key y rows))) = length (filter P rows)"
  using assms
proof (induction rows)
  case (Cons r rows)
  have same: "tput key y rows = rows" if "key r = key x"
  proof -
    have "\<forall>z\<in>set rows. key z \<noteq> key y" using Cons.prems(1,4) that by (metis distinct.simps(2) image_eqI list.set_map list.simps(9))
    then show ?thesis by (simp add: tput_def map_idI)
  qed
  show ?case
  proof (cases "x = r")
    case True
    then show ?thesis using same Cons.prems by (simp add: tput_def)
  next
    case False
    then have "key r \<noteq> key x" using Cons.prems(1,2) by (auto simp: rev_image_eqI)
    then show ?thesis using Cons False by (auto simp: tput_def)
  qed
qed simp

lemma restore_one_total:
  assumes ok: "ledger_ok s" and d: "d \<in> set (lg_deliveries s)" "dl_current d" "fenced d" "dl_ws d = w"
  obtains e s' where "restore_one now w d s = Inr (e, s')"
proof -
  obtain p where p: "physical_queue s w (dl_queue d) = Some p" using delivery_queue [OF ok d(1)] d(4) by blast
  note row = dl_row [OF ok d(1)]
  have "dispatchable d" using d(3) by (auto simp: fenced_def dispatchable_def)
  then have vt: "lg_vt s w (dl_queue d) (dl_msg d) \<noteq> None"
    using sync_okD(1) [OF ledger_okD(4) [OF ok] d(1,2)] d(4) by auto
  note T = hide_until_total [OF ledger_okD(1) [OF ok] p vt] retire_total [OF ledger_okD(1) [OF ok] p vt]
  have eff: "dl_effect d \<noteq> None \<longleftrightarrow> unreset (lg_effects s) (dl_message d)"
    using effects_okD(3) [OF ledger_okD(5) [OF ok] d(1,2)] .
  have one: "unreset (lg_effects s) (dl_message d) \<longleftrightarrow> (\<exists>e. effect_of s (dl_message d) = Some e \<and> \<not> ef_reset e)"
    using effects_okD(1) [OF ledger_okD(5) [OF ok]] by (auto simp: unreset_def effect_of_def tget_Some_iff)
  have beg: "dl_state d = Begun \<longleftrightarrow> dl_effect d \<noteq> None" by (rule begun_effect_iff [OF row d(3)])
  have state: "dl_state d = Leased \<or> dl_state d = Begun" using d(3) by (auto simp: fenced_def)
  have "\<exists>e s'. restore_one now w d s = Inr (e, s')"
  proof (cases "dl_state d = Begun")
    case True
    then obtain e where "effect_of s (dl_message d) = Some e" "\<not> ef_reset e" using beg eff one by blast
    then show ?thesis using True p T(2) by (auto simp: restore_one_def restored_def guardE_def Let_def)
  next
    case False
    have "\<not> (case effect_of s (dl_message d) of None \<Rightarrow> False | Some x \<Rightarrow> \<not> ef_reset x)"
      using False beg eff one by (auto split: option.splits)
    then show ?thesis using False state beg p T(1) [of "now + seconds 5"]
      by (auto simp: restore_one_def restored_def guardE_def Let_def)
  qed
  then show ?thesis using that by blast
qed

lemma restore_all_total:
  assumes "ledger_ok s" "set ds \<subseteq> set (in_flight s w)" "distinct (map dl_id ds)"
  shows "\<exists>evs s'. restore_all now w ds s = Inr (evs, s') \<and> length evs = length ds
           \<and> length (in_flight s' w) + length ds = length (in_flight s w)"
  using assms
proof (induction ds arbitrary: s)
  case (Cons d ds)
  have d: "d \<in> set (lg_deliveries s)" "dl_current d" "fenced d" "dl_ws d = w"
    using Cons.prems(2) by (auto simp: in_flight_def)
  obtain e s1 where h: "restore_one now w d s = Inr (e, s1)" using restore_one_total [OF Cons.prems(1) d] .
  obtain P where k: "ledger_ok s1" "s1 = put_delivery (restored now d) (s\<lparr>lg_pgmq := P\<rparr>)"
    using restore_one_ok [OF Cons.prems(1) d h] by blast
  have r: "dl_id (restored now d) = dl_id d" "\<not> fenced (restored now d)"
    by (simp_all add: restored_def fenced_def Let_def)
  have ds1: "lg_deliveries s1 = tput dl_id (restored now d) (lg_deliveries s)" using k(2) by (simp add: put_delivery_def)
  have cnt: "Suc (length (in_flight s1 w)) = length (in_flight s w)"
    unfolding in_flight_def ds1
    by (rule filter_tput_drop [OF rows_okD(1) [OF ledger_okD(3) [OF Cons.prems(1)]] d(1)]) (use d r in simp_all)
  have "set ds \<subseteq> set (in_flight s1 w)"
    using Cons.prems(2,3) unfolding in_flight_def ds1 by (auto simp: in_set_tput r(1) rev_image_eqI)
  with Cons.IH [OF k(1)] Cons.prems(3) cnt h show ?case by fastforce
qed simp

text \<open>C10: a restore batch of a permitted User, on an open restore gate, never fails on a reachable
  ledger: it takes the oldest in-flight Deliveries, at most its limit, out of flight and reports one
  event for each, so repeating it ends with no Delivery in flight.\<close>

theorem restore_batch_progress:
  assumes "reachable sha s" "reconciliation_actor E w = Inr c" "bc_user c \<noteq> None"
    and "1 \<le> k" "k \<le> 100" "restore_open_for (en_ctl E) epoch w"
  shows "\<exists>evs s'. restore_batch E epoch w (Some k) s = Inr (evs, s')
     \<and> length evs = min (nat k) (length (in_flight s w))
     \<and> length (in_flight s' w) = length (in_flight s w) - nat k"
proof -
  note ok = reachable_ledger_ok [OF assms(1)]
  have r: "restorable w (nat k) s = take (nat k) (sort_key dl_id (in_flight s w))"
    by (simp add: restorable_def in_flight_def fenced_def)
  have "set (restorable w (nat k) s) \<subseteq> set (in_flight s w)" unfolding r by (auto dest: in_set_takeD)
  moreover have "distinct (map dl_id (restorable w (nat k) s))"
    using distinct_ids [OF ok] by (auto simp: restorable_def distinct_map_sort_key take_map [symmetric] intro!: distinct_take)
  moreover have "length (restorable w (nat k) s) = min (nat k) (length (in_flight s w))" unfolding r by simp
  ultimately obtain evs s' where "restore_all (en_now E) w (restorable w (nat k) s) s = Inr (evs, s')"
    "length evs = min (nat k) (length (in_flight s w))"
    "length (in_flight s' w) + min (nat k) (length (in_flight s w)) = length (in_flight s w)"
    using restore_all_total [OF ok] by metis
  then show ?thesis using assms(2-6) by (auto simp: restore_batch_def guardE_def)
qed

definition demo_restorer :: "time \<Rightarrow> env" where
  "demo_restorer t = (demo_user t)\<lparr>en_ctl := demo_control\<lparr>
     ct_gate := Some \<lparr>rg_epoch = Some 9, rg_active = True\<rparr>,
     ct_restore := [\<lparr>rw_epoch = 9, rw_ws = 1, rw_generation = 3, rw_minimum = 0, rw_rotated = True, rw_done = False, rw_released_by = None\<rparr>]\<rparr>\<rparr>"

lemma demo_in_flight: "length (in_flight demo_claimed 1) = 1"
proof -
  have "in_flight demo_claimed 1 = filter (\<lambda>d. dl_ws d = 1 \<and> dl_current d \<and> (dl_state d = Leased \<or> dl_state d = Begun)) (lg_deliveries demo_claimed)"
    by (simp add: in_flight_def fenced_def)
  moreover have "length (filter (\<lambda>d. dl_ws d = 1 \<and> dl_current d \<and> (dl_state d = Leased \<or> dl_state d = Begun)) (lg_deliveries demo_claimed)) = 1"
    by code_simp
  ultimately show ?thesis by simp
qed

theorem restore_batch_progress_witness:
  "\<exists>evs s'. restore_batch (demo_restorer 7) 9 1 (Some 50) demo_claimed = Inr (evs, s')
     \<and> length evs = 1 \<and> in_flight s' 1 = []"
proof -
  have c: "reconciliation_actor (demo_restorer 7) 1 = Inr \<lparr>bc_ws = 1, bc_principal = None, bc_run = None, bc_user = Some ''ann''\<rparr>"
    by code_simp
  have "restore_open_for (en_ctl (demo_restorer 7)) 9 1" by code_simp
  from restore_batch_progress [OF demo_reachable(2) c _ _ _ this, of 50] show ?thesis
    by (auto simp: demo_in_flight simp del: One_nat_def)
qed

section \<open>Digests\<close>

lemma length_be_bytes [simp]: "length (be_bytes k n) = k"
  by (induction k arbitrary: n) simp_all

lemma be_bytes_inj:
  "be_bytes k m = be_bytes k n \<Longrightarrow> 0 \<le> m \<Longrightarrow> m < 256 ^ k \<Longrightarrow> 0 \<le> n \<Longrightarrow> n < 256 ^ k \<Longrightarrow> m = n"
proof (induction k arbitrary: m n)
  case (Suc k)
  note both = Suc.prems(1) [unfolded be_bytes.simps(2) append1_eq_conv]
  note eqs = conjunct1 [OF both] conjunct2 [OF both]
  have "(of_char (char_of (m mod 256)) :: int) = of_char (char_of (n mod 256))" unfolding eqs(2) ..
  then have mods: "m mod 256 = n mod 256" unfolding of_char_of by (simp only: mod_mod_trivial)
  have bound: "x div 256 < y" if "x < 256 * y" for x y :: int
    using that div_mult_mod_eq [of x 256] pos_mod_sign [of 256 x] by linarith
  have pos: "0 \<le> x div 256" if "0 \<le> x" for x :: int
    using that by (simp add: pos_imp_zdiv_nonneg_iff)
  have "m div 256 = n div 256"
    by (rule Suc.IH [OF eqs(1)]) (use Suc.prems(2-5) in \<open>simp_all only: bound pos power_Suc\<close>)
  then show ?case using mods div_mult_mod_eq [of m 256] div_mult_mod_eq [of n 256] by argo
qed simp

lemma eq_prefix: "xs @ ys = xs' @ ys' \<Longrightarrow> length xs = length xs' \<Longrightarrow> xs = xs' \<and> ys = ys'"
  by (simp add: append_eq_append_conv)

text \<open>The bytes an effect key digests determine the Workspace, the action and the destination:
  the lengths in front keep one pair from being read as another.\<close>

theorem effect_preimage_injective:
  assumes "w < 2 ^ 128" "w' < 2 ^ 128" "octets_between 1 1024 a" "octets_between 1 1024 a'"
  shows "effect_preimage w a t = effect_preimage w' a' t' \<longleftrightarrow> w = w' \<and> a = a' \<and> t = t'"
proof (intro iffI)
  assume "effect_preimage w a t = effect_preimage w' a' t'"
  then have eq: "be_bytes 16 (int w) @ (be_bytes 4 (octets a) @ (a @ (be_bytes 4 (octets t) @ t)))
      = be_bytes 16 (int w') @ (be_bytes 4 (octets a') @ (a' @ (be_bytes 4 (octets t') @ t')))"
    unfolding effect_preimage_def .
  note p1 = eq_prefix [OF eq, unfolded length_be_bytes, OF refl]
  note p2 = eq_prefix [OF conjunct2 [OF p1], unfolded length_be_bytes, OF refl]
  have big: "int x < 256 ^ 16" if "x < 2 ^ 128" for x using that by simp
  have "int w = int w'"
    by (rule be_bytes_inj [OF conjunct1 [OF p1]]) (use assms(1,2) in \<open>simp_all only: big of_nat_0_le_iff\<close>)
  moreover have "octets a = octets a'"
    by (rule be_bytes_inj [OF conjunct1 [OF p2]]) (use assms(3,4) in \<open>simp_all add: octets_between_def\<close>)
  then have len: "length a = length a'" by (simp add: octets_def)
  note p3 = eq_prefix [OF conjunct2 [OF p2] len]
  note p4 = eq_prefix [OF conjunct2 [OF p3], unfolded length_be_bytes, OF refl]
  ultimately show "w = w' \<and> a = a' \<and> t = t'" using p3 p4 by auto
qed (elim conjE, simp only:)

theorem effect_preimage_injective_witness:
  "effect_preimage 1 ''ab'' ''c'' \<noteq> effect_preimage 1 ''a'' ''bc''"
proof -
  have o: "octets_between 1 1024 ''ab''" "octets_between 1 1024 ''a''" by code_simp+
  have "(1::nat) < 2 ^ 128" by simp
  from effect_preimage_injective [OF this this o] show ?thesis by (simp only:) simp
qed

end
