(* ===== verification/ServiceProps.thy ===== *)
theory ServiceProps
  imports QueueServices OperationProps
begin

text \<open>The queue adapters as a whole: every request either commits one queue operation together
  with its audit events, or leaves the state as it was but for one rejection.\<close>

section \<open>Requests\<close>

record crypto =
  cr_sha :: "string \<Rightarrow> string"
  cr_digest :: "string \<Rightarrow> string"
  cr_jsonb :: "jval \<Rightarrow> string option"

datatype queue_request =
    Rq_create string
  | Rq_send string string jval
  | Rq_claim string string
  | Rq_renew string string
  | Rq_ack string string
  | Rq_nack string string
  | Rq_hold string string
  | Rq_begin string string string string
  | Rq_cancel string bool string
  | Rq_replay string
  | Rq_release string
  | Rq_recover string
  | Rq_reconcile string string string
  | Rq_delegate string bool

definition reason_of :: "(string + 'a) \<times> backplane \<Rightarrow> string option \<times> backplane" where
  "reason_of r = (case fst r of Inl e \<Rightarrow> Some e | Inr x \<Rightarrow> None, snd r)"

fun serve_queue :: "crypto \<Rightarrow> time \<Rightarrow> run_context \<Rightarrow> queue_request \<Rightarrow> backplane \<Rightarrow> string option \<times> backplane" where
  "serve_queue k now c (Rq_create n) s = reason_of (create_queue_service (cr_sha k) now c n s)"
| "serve_queue k now c (Rq_send n key b) s =
     reason_of (map_prod (map_sum fst id) id (send_message_service (cr_sha k) (cr_jsonb k) now c n key b s))"
| "serve_queue k now c (Rq_claim n r) s = reason_of (claim_service (cr_digest k) now c n r s)"
| "serve_queue k now c (Rq_renew i r) s = reason_of (renew_service (cr_digest k) now c i r s)"
| "serve_queue k now c (Rq_ack i r) s = reason_of (ack_service (cr_digest k) now c i r s)"
| "serve_queue k now c (Rq_nack i r) s = reason_of (nack_service (cr_digest k) now c i r s)"
| "serve_queue k now c (Rq_hold i r) s = reason_of (hold_service (cr_digest k) now c i r s)"
| "serve_queue k now c (Rq_begin i r a t) s = reason_of (begin_effect_service (cr_sha k) (cr_digest k) now c i r a t s)"
| "serve_queue k now c (Rq_cancel i f r) s = reason_of (cancel_service now c i f r s)"
| "serve_queue k now c (Rq_replay i) s = reason_of (replay_service now c i s)"
| "serve_queue k now c (Rq_release i) s = reason_of (release_service now c i s)"
| "serve_queue k now c (Rq_recover n) s = reason_of (recover_service now c n s)"
| "serve_queue k now c (Rq_reconcile i d e) s = reason_of (reconcile_service now c i d e s)"
| "serve_queue k now c (Rq_delegate p e) s = reason_of (set_delegation_service now c p e s)"

section \<open>What a committed transaction may change\<close>

definition locked :: "uuid \<Rightarrow> backplane \<Rightarrow> bool" where
  "locked w s \<longleftrightarrow> map_of (bp_cursor s) w \<noteq> None"

definition last_position :: "backplane \<Rightarrow> uuid \<Rightarrow> nat" where
  "last_position s w = (case map_of (bp_cursor s) w of None \<Rightarrow> 0 | Some n \<Rightarrow> n)"

definition positions :: "backplane \<Rightarrow> uuid \<Rightarrow> nat list" where
  "positions s w = map ae_position (filter (\<lambda>e. ae_ws e = w) (bp_events s))"

text \<open>The audit ledger of a Workspace is numbered 1, 2, ... up to its cursor, and every event has
  exactly one kind of actor.\<close>

definition one_actor :: "audit_event \<Rightarrow> bool" where
  "one_actor e \<longleftrightarrow> (ae_principal e \<noteq> None \<and> ae_run e \<noteq> None \<and> ae_user e = None)
     \<or> (ae_principal e = None \<and> ae_run e = None \<and> ae_user e \<noteq> None)"

definition audit_ok :: "backplane \<Rightarrow> bool" where
  "audit_ok s \<longleftrightarrow> (\<forall>w. positions s w = [1..<Suc (last_position s w)]) \<and> (\<forall>e\<in>set (bp_events s). one_actor e)"

definition by_context :: "run_context \<Rightarrow> audit_event \<Rightarrow> bool" where
  "by_context c e \<longleftrightarrow> ae_ws e = ctx_ws c \<and> ae_principal e = ctx_principal c \<and> ae_run e = ctx_run c \<and> ae_user e = ctx_user c"

definition bound_by :: "run_context \<Rightarrow> bound_context \<Rightarrow> bool" where
  "bound_by c b \<longleftrightarrow> b = \<lparr>bc_ws = ctx_ws c, bc_principal = ctx_principal c, bc_run = ctx_run c, bc_user = ctx_user c\<rparr>"

definition commits :: "(string \<Rightarrow> string) \<Rightarrow> run_context \<Rightarrow> backplane \<Rightarrow> backplane \<Rightarrow> bool" where
  "commits sha c s s' \<longleftrightarrow> locked (ctx_ws c) s \<longrightarrow>
     locked (ctx_ws c) s' \<and> (audit_ok s \<longrightarrow> audit_ok s')
     \<and> (\<exists>new. bp_events s' = bp_events s @ new \<and> list_all (by_context c) new)
     \<and> bp_rejections s' = bp_rejections s
     \<and> (reachable sha (bp_ledger s) \<longrightarrow> reachable sha (bp_ledger s'))
     \<and> (distinct (usage_keys (bp_usage s)) \<longrightarrow> distinct (usage_keys (bp_usage s')))"

lemma commits_refl [simp]: "commits sha c s s"
  by (simp add: commits_def)

lemma commits_trans: "commits sha c s s1 \<Longrightarrow> commits sha c s1 s2 \<Longrightarrow> commits sha c s s2"
  unfolding commits_def by (metis append.assoc list_all_append)

lemma one_actor_context: "by_context c e \<Longrightarrow> one_actor e"
  by (cases c) (auto simp: by_context_def one_actor_def)

lemma emit_commits:
  assumes b: "bound_by c b"
  shows "commits sha c s (snd (emit now b kind objs rows meta s))"
proof -
  let ?s = "snd (emit now b kind objs rows meta s)" and ?w = "ctx_ws c"
  define n where "n = Suc (the (map_of (bp_cursor s) ?w))"
  define e where "e = \<lparr>ae_ws = ?w, ae_position = n, ae_principal = ctx_principal c, ae_run = ctx_run c,
     ae_user = ctx_user c, ae_kind = kind, ae_objects = objs, ae_rows = rows, ae_at = now, ae_metadata = meta\<rparr>"
  have s': "?s = s\<lparr>bp_cursor := AList.update ?w n (bp_cursor s), bp_events := bp_events s @ [e]\<rparr>"
    using b by (simp add: emit_def Let_def bound_by_def n_def e_def)
  have e: "by_context c e" by (simp add: by_context_def e_def)
  have "audit_ok ?s" if "locked ?w s" "audit_ok s"
  proof -
    have n: "n = Suc (last_position s ?w)" using that(1) by (auto simp: n_def last_position_def locked_def)
    have "positions ?s v = [1..<Suc (last_position ?s v)]" for v
    proof (cases "v = ?w")
      case True
      then show ?thesis using that(2) n
        by (simp add: s' positions_def last_position_def audit_ok_def update_conv' e_def)
    next
      case False
      then show ?thesis using that(2)
        by (simp add: s' positions_def last_position_def audit_ok_def update_conv' e_def)
    qed
    then show ?thesis using that(2) one_actor_context [OF e] by (simp add: audit_ok_def s')
  qed
  then show ?thesis using e by (auto simp: commits_def s' locked_def update_conv')
qed

lemma emit_all_commits: "bound_by c b \<Longrightarrow> commits sha c s (emit_delivery_events now b evs s)"
  by (induction evs arbitrary: s) (auto intro: commits_trans emit_commits)

text \<open>\<open>runs sha f\<close>: whatever \<open>f\<close> does to the ledger is an operation of the ledger.\<close>

definition runs :: "(string \<Rightarrow> string) \<Rightarrow> (env \<Rightarrow> ledger \<Rightarrow> raised + ('a \<times> ledger)) \<Rightarrow> bool" where
  "runs sha f \<longleftrightarrow> (\<forall>E l x l'. f E l = Inr (x, l') \<longrightarrow> (\<exists>op. apply_op sha E op l = Inr l'))"

lemma call_queue_commits:
  assumes "runs sha f" "call_queue now b f s = Inr (x, s')"
  shows "commits sha c s s'"
proof -
  obtain l where l: "f (env_of now b s) (bp_ledger s) = Inr (x, l)" "s' = s\<lparr>bp_ledger := l\<rparr>"
    using assms(2) by (auto simp: call_queue_def split: sum.splits prod.splits)
  obtain op where "apply_op sha (env_of now b s) op (bp_ledger s) = Inr l" using assms(1) l(1) unfolding runs_def by blast
  then have "reachable sha (bp_ledger s) \<Longrightarrow> reachable sha l" using reachable.run ledger_step.step by blast
  then show ?thesis using l(2)
    by (auto simp: commits_def locked_def audit_ok_def positions_def last_position_def)
qed

lemma queue_call_commits:
  assumes "bound_by c b" "runs sha f" "queue_call now b f s = Inr (x, s')"
  shows "commits sha c s s'"
proof -
  obtain evs s1 where "call_queue now b f s = Inr ((x, evs), s1)" "s' = emit_delivery_events now b evs s1"
    using assms(3) by (auto simp: queue_call_def ebind_Inr_iff)
  then show ?thesis using call_queue_commits [OF assms(2)] emit_all_commits [OF assms(1)] commits_trans by metis
qed

lemma runs_ops:
  "runs sha (\<lambda>E. create_queue sha E w n)" "runs sha (\<lambda>E. send_message sha E w n k p)" "runs sha (\<lambda>E. claim E w n h)"
  "runs sha (\<lambda>E. hold E w i h)" "runs sha (\<lambda>E. begin_effect sha E w i h a t)" "runs sha (\<lambda>E. cancel E w i fo re)"
  "runs sha (\<lambda>E. replay E w i)" "runs sha (\<lambda>E. release E w i)" "runs sha (\<lambda>E. ensure_delivery E w i)"
  "runs sha (\<lambda>E. reconcile E w i dec ev)" "runs sha (\<lambda>E. finish_reconciliation E w i n2 a2)"
  "runs sha (\<lambda>E l. if v = Renew then renew E w i h l else if v = Ack then ack E w i h l else nack E w i h l)"
  unfolding runs_def
  by (metis after_Inr apply_op.simps)+

section \<open>Each adapter\<close>

definition committed :: "(string \<Rightarrow> string) \<Rightarrow> run_context \<Rightarrow> backplane \<Rightarrow> backplane \<Rightarrow> bool" where
  "committed sha c s s' \<longleftrightarrow>
     (audit_ok s \<longrightarrow> audit_ok s')
     \<and> (\<exists>new. bp_events s' = bp_events s @ new \<and> list_all (by_context c) new)
     \<and> bp_rejections s' = bp_rejections s
     \<and> (reachable sha (bp_ledger s) \<longrightarrow> reachable sha (bp_ledger s'))
     \<and> (distinct (usage_keys (bp_usage s)) \<longrightarrow> distinct (usage_keys (bp_usage s')))"

lemma bind_contextD:
  assumes "bind_context now c s = Inr (b, s1)"
  shows "bound_by c b" "s1 = lock_workspace (ctx_ws c) s"
  using assms by (cases c; auto simp: bind_context_def bound_by_def Let_def ebind_Inr_iff)+

lemma lock_fields [simp]:
  "bp_events (lock_workspace w s) = bp_events s" "bp_rejections (lock_workspace w s) = bp_rejections s"
  "bp_ledger (lock_workspace w s) = bp_ledger s" "bp_usage (lock_workspace w s) = bp_usage s"
  "bp_ctl (lock_workspace w s) = bp_ctl s"
  by (simp_all add: lock_workspace_def)

lemma touch_fields [simp]:
  "bp_events (touch_run now r s) = bp_events s" "bp_rejections (touch_run now r s) = bp_rejections s"
  "bp_ledger (touch_run now r s) = bp_ledger s" "bp_usage (touch_run now r s) = bp_usage s"
  "bp_cursor (touch_run now r s) = bp_cursor s" "bp_ctl (touch_run now r s) = bp_ctl s"
  by (simp_all add: touch_run_def split: option.splits)

lemma lock_position [simp]: "last_position (lock_workspace w s) v = last_position s v"
  by (auto simp: last_position_def lock_workspace_def map_add_def split: option.splits)

lemma lock_locks: "locked w (lock_workspace w s)"
  by (auto simp: locked_def lock_workspace_def map_add_def)

lemma with_run_context_committed:
  assumes "with_run_context now c work s = Inr (x, s')"
    and "\<And>b s1. bound_by c b \<Longrightarrow> bp_ledger s1 = bp_ledger s \<Longrightarrow> work b s1 = Inr (x, s') \<Longrightarrow> commits sha c s1 s'"
  shows "committed sha c s s'"
proof -
  obtain b where b: "bind_context now c s = Inr (b, lock_workspace (ctx_ws c) s)" "bound_by c b"
    "work b (touch_run now (ctx_run c) (lock_workspace (ctx_ws c) s)) = Inr (x, s')"
  proof (cases "bind_context now c s")
    case (Inl e)
    then show ?thesis using assms(1) by (simp add: with_run_context_def)
  next
    case (Inr p)
    obtain b s1 where p: "p = (b, s1)" by (cases p)
    note B = bind_contextD [OF Inr [unfolded p]]
    show ?thesis
      by (rule that [of b]) (use B Inr p assms(1) in \<open>simp_all add: with_run_context_def\<close>)
  qed
  let ?s1 = "touch_run now (ctx_run c) (lock_workspace (ctx_ws c) s)"
  have "commits sha c ?s1 s'" by (rule assms(2) [OF b(2) _ b(3)]) simp
  moreover have "locked (ctx_ws c) ?s1" using lock_locks by (simp add: locked_def)
  moreover have "audit_ok ?s1 = audit_ok s"
  proof -
    have "last_position ?s1 = last_position (lock_workspace (ctx_ws c) s)" by (intro ext) (simp add: last_position_def)
    then show ?thesis by (simp add: audit_ok_def positions_def)
  qed
  ultimately show ?thesis by (simp add: commits_def committed_def)
qed

text \<open>A request that fails leaves the state as it was, but for the rejection of the caller.\<close>

definition rejected :: "time \<Rightarrow> run_context \<Rightarrow> string \<Rightarrow> backplane \<Rightarrow> backplane \<Rightarrow> bool" where
  "rejected now c reason s s' \<longleftrightarrow> s' = s \<or> (\<exists>r. s' = s\<lparr>bp_rejections := bp_rejections s @ [r]\<rparr>
     \<and> rj_ws r = Some (ctx_ws c) \<and> rj_principal r = ctx_principal c \<and> rj_run r = ctx_run c \<and> rj_user r = ctx_user c
     \<and> rj_reason r = reason \<and> rj_at r = now)"

definition serves :: "(string \<Rightarrow> string) \<Rightarrow> time \<Rightarrow> run_context \<Rightarrow> backplane \<Rightarrow> string option \<times> backplane \<Rightarrow> bool" where
  "serves sha now c s r \<longleftrightarrow>
     (case fst r of
        None \<Rightarrow> committed sha c s (snd r)
      | Some reason \<Rightarrow> rejected now c reason s (snd r) \<or> (reason = ''queue_unavailable'' \<and> rejected now c ''quota_exceeded'' s (snd r)))"

lemma record_rejected: "rejected now c reason s (record_rejection now (Some c) kind objs reason state s)"
  by (cases c) (auto simp: rejected_def record_rejection_def)

lemma settle_serves:
  assumes "\<And>x s'. r = Inr (x, s') \<Longrightarrow> committed sha c s s'"
  shows "serves sha now c s (reason_of (settle_service now c kind objs s r))"
  using assms record_rejected
  by (cases r) (auto simp: settle_service_def reason_of_def serves_def split: prod.splits)

lemma map_reply_reason [simp]: "reason_of (map_reply f r) = reason_of r"
  by (cases r) (auto simp: map_reply_def reason_of_def split: sum.splits)

lemma settle_run_serves:
  assumes "\<And>b s1 x s'. bound_by c b \<Longrightarrow> bp_ledger s1 = bp_ledger s \<Longrightarrow> work b s1 = Inr (x, s') \<Longrightarrow> commits sha c s1 s'"
  shows "serves sha now c s (reason_of (settle_service now c kind objs s (with_run_context now c work s)))"
  by (rule settle_serves, rule with_run_context_committed) (use assms in blast)+

lemma with_uuid_Inr: "with_uuid t k = Inr x \<longleftrightarrow> (\<exists>u. parse_uuid t = Some u \<and> k u = Inr x)"
  by (simp add: with_uuid_def split: option.splits)

lemma user_guard_Inr: "user_guard c s k = Inr x \<longleftrightarrow>
    (\<exists>u. ctx_user c = Some u \<and> query_workspace_access (bp_ctl s) u (Some (ctx_ws c))) \<and> k = Inr x"
  by (auto simp: user_guard_def split: option.splits)

lemma receipt_verb_commits:
  "bound_by c b \<Longrightarrow> receipt_verb_in digest now b w i rc v s = Inr (x, s') \<Longrightarrow> commits sha c s s'"
  by (auto simp: receipt_verb_in_def with_uuid_Inr intro: queue_call_commits [OF _ runs_ops(12)])

lemma ensure_all_commits:
  "bound_by c b \<Longrightarrow> ensure_all now b w ms n s = Inr (x, s') \<Longrightarrow> commits sha c s s'"
proof (induction ms arbitrary: n s)
  case (Cons m ms)
  then obtain d s1 k where "ensure_in now b w (ms_id m) s = Inr (d, s1)" "ensure_all now b w ms k s1 = Inr (x, s')"
    by (auto simp: ebind_Inr_iff)
  then show ?case using Cons.IH [OF Cons.prems(1)] queue_call_commits [OF Cons.prems(1) runs_ops(9)] commits_trans
    unfolding ensure_in_def by metis
qed simp

lemma send_in_commits:
  assumes b: "bound_by c b" and r: "send_message_in sha jsonb now b w n key body s = Inr (x, s')"
  shows "commits sha c s s'"
proof -
  obtain p m ins by1 s1 d s2 where h: "call_queue now b (\<lambda>E. send_message sha E w n (Some key) (Some p)) s = Inr ((m, ins, by1), s1)"
    "ensure_in now b w (ms_id m) s2 = Inr (d, s')"
    "s2 = (if ins then snd (emit now b ''queue.send'' [n, uuid_text (ms_id m)] (Some 1)
        [(''idempotency_key_present'', JBool True), (''bytes'', JInt (int by1))] s1) else s1)"
    using r by (auto simp: send_message_in_def ebind_Inr_iff Let_def split: option.splits prod.splits)
  have "commits sha c s s1" by (rule call_queue_commits [OF runs_ops(2) h(1)])
  moreover have "commits sha c s1 s2" using h(3) emit_commits [OF b] by simp
  moreover have "commits sha c s2 s'" using h(2) queue_call_commits [OF b runs_ops(9)] unfolding ensure_in_def by blast
  ultimately show ?thesis using commits_trans by blast
qed

lemma finish_events_commits:
  assumes "bound_by c b" "finish_events now b w i pos evs s = Inr (x, s')"
  shows "commits sha c s s'"
  using assms(2)
proof (induction evs arbitrary: pos s)
  case (Cons e es)
  obtain n s1 where e: "emit now b (ev_kind e) (ev_objects e) (Some 1) (ev_metadata e) s = (n, s1)" by fastforce
  obtain s2 where h: "call_queue now b (\<lambda>E. finish_reconciliation E w i n (event_at s1 w n)) s1 = Inr ((), s2)"
    "finish_events now b w i (Some n) es s2 = Inr (x, s')"
    using Cons.prems e by (auto simp: ebind_Inr_iff)
  have "commits sha c s (snd (emit now b (ev_kind e) (ev_objects e) (Some 1) (ev_metadata e) s))"
    by (rule emit_commits [OF assms(1)])
  then have "commits sha c s s1" using e by simp
  then show ?case using call_queue_commits [OF runs_ops(11) h(1)] Cons.IH [OF h(2)] commits_trans by blast
qed simp

lemma reconcile_in_commits:
  assumes "bound_by c b" "reconcile_in now c i d e b s = Inr (x, s')"
  shows "commits sha c s s'"
proof -
  obtain u rc evs s1 pos where h: "call_queue now b (\<lambda>E. reconcile E (ctx_ws c) u (Some d) (Some e)) s = Inr ((rc, evs), s1)"
    "finish_events now b (ctx_ws c) (rc_id rc) (rc_position rc) evs s1 = Inr (pos, s')"
    using assms(2) by (auto simp: reconcile_in_def Let_def ebind_Inr_iff with_uuid_Inr split: option.splits)
  show ?thesis
    by (rule commits_trans [OF call_queue_commits [OF runs_ops(10) h(1)] finish_events_commits [OF assms(1) h(2)]])
qed

lemma control_commits: "commits sha c s (s\<lparr>bp_ctl := ct\<rparr>)"
  by (auto simp: commits_def locked_def audit_ok_def positions_def last_position_def)

lemma set_delegation_commits:
  assumes "bound_by c b" "set_delegation_in now c p en b s = Inr (x, s')"
  shows "commits sha c s s'"
proof -
  have "with_uuid p (\<lambda>q. (case set_reconciliation_delegation (env_of now b s) (ctx_ws c) q en (bp_ctl s) of
           Inl e \<Rightarrow> Inl (Sql e)
         | Inr (changed, ct) \<Rightarrow> Inr ((p, en), (case changed of None \<Rightarrow> s\<lparr>bp_ctl := ct\<rparr>
              | Some m \<Rightarrow> snd (emit now b ''reconciliation.delegation'' [p] (Some 1)
                  [(''enabled'', JBool en), (''memberId'', JStr m)] (s\<lparr>bp_ctl := ct\<rparr>)))))) = Inr (x, s')"
    using assms(2) unfolding set_delegation_in_def Let_def by (simp split: if_split_asm)
  then obtain q where q: "(case set_reconciliation_delegation (env_of now b s) (ctx_ws c) q en (bp_ctl s) of
           Inl e \<Rightarrow> Inl (Sql e)
         | Inr (changed, ct) \<Rightarrow> Inr ((p, en), (case changed of None \<Rightarrow> s\<lparr>bp_ctl := ct\<rparr>
              | Some m \<Rightarrow> snd (emit now b ''reconciliation.delegation'' [p] (Some 1)
                  [(''enabled'', JBool en), (''memberId'', JStr m)] (s\<lparr>bp_ctl := ct\<rparr>))))) = Inr (x, s')"
    unfolding with_uuid_Inr by blast
  obtain ch ct where r: "set_reconciliation_delegation (env_of now b s) (ctx_ws c) q en (bp_ctl s) = Inr (ch, ct)"
    using q by (cases "set_reconciliation_delegation (env_of now b s) (ctx_ws c) q en (bp_ctl s)") auto
  show ?thesis
  proof (cases ch)
    case None
    then have "s' = s\<lparr>bp_ctl := ct\<rparr>" using q r by simp
    then show ?thesis by (simp only: control_commits)
  next
    case (Some m)
    then have "s' = snd (emit now b ''reconciliation.delegation'' [p] (Some 1)
                  [(''enabled'', JBool en), (''memberId'', JStr m)] (s\<lparr>bp_ctl := ct\<rparr>))" using q r by simp
    then show ?thesis by (simp only: commits_trans [OF control_commits emit_commits [OF assms(1)]])
  qed
qed

lemma commit_usage: "commits sha c s (meter_commit m s)" if "distinct (usage_keys (bp_usage s)) \<Longrightarrow> distinct (usage_keys (bp_usage (meter_commit m s)))"
  using that by (auto simp: commits_def locked_def audit_ok_def positions_def last_position_def meter_commit_def split: option.splits)

lemma meter_commit_keys:
  assumes "distinct (usage_keys (bp_usage s))"
  shows "distinct (usage_keys (bp_usage (meter_commit m s)))"
  using assms charges_used [OF assms] by (cases "mt_owner m") (auto simp: meter_commit_def split: option.splits prod.splits)

lemma send_serves: "serves sha now c s (reason_of (map_prod (map_sum fst id) id (send_message_service sha jsonb now c n key b s)))"
proof -
  let ?w = "\<lambda>b1 s1. let m = quota_accounting now c s1 in
      ebind (send_message_in sha jsonb now b1 (ctx_ws c) n key b s1) (\<lambda>(r, s2).
      ebind (meter_step Queue_sends (if snd r then 1 else 0) None m) (\<lambda>m'. Inr (r, meter_commit m' s2)))"
  have ok: "committed sha c s s'" if r: "with_run_context now c ?w s = Inr (x, s')" for x s'
  proof (rule with_run_context_committed [OF r])
    fix b1 s1 assume "bound_by c b1" "?w b1 s1 = Inr (x, s')"
    then obtain s2 m' where "commits sha c s1 s2" "s' = meter_commit m' s2"
      using send_in_commits by (fastforce simp: Let_def ebind_Inr_iff)
    then show "commits sha c s1 s'" using commit_usage [OF meter_commit_keys] commits_trans by blast
  qed
  show ?thesis
  proof (cases "with_run_context now c ?w s")
    case (Inl e)
    then have "\<exists>reason. rejected now c reason s (snd (send_message_service sha jsonb now c n key b s))
        \<and> (fst (send_message_service sha jsonb now c n key b s) = Inl (reason, None)
          \<or> (reason = ''quota_exceeded'' \<and> (\<exists>q. fst (send_message_service sha jsonb now c n key b s) = Inl (''queue_unavailable'', Some q))))"
      unfolding send_message_service_def by (cases e) (auto simp: record_rejected split: prod.splits)
    then show ?thesis by (auto simp: serves_def reason_of_def)
  next
    case (Inr p)
    then obtain x s' where p: "p = (x, s')" by (cases p)
    then have "send_message_service sha jsonb now c n key b s = (Inr x, s')"
      using Inr unfolding send_message_service_def by simp
    then show ?thesis using ok Inr p by (simp add: serves_def reason_of_def)
  qed
qed

lemma serve_queue_serves: "serves (cr_sha k) now c s (serve_queue k now c rq s)"
proof (cases rq)
  case (Rq_create n)
  have "commits (cr_sha k) c s1 s'" if b: "bound_by c b" and r: "ebind (call_queue now b (\<lambda>E. create_queue (cr_sha k) E (ctx_ws c) n) s1)
      (\<lambda>(q, s2). case emit now b ''queue.created'' [n] (Some 1) [] s2 of (pos, s3) \<Rightarrow> Inr ((qr_ws q, qr_name q, now), s3)) = Inr (x, s')"
    for b s1 x s'
  proof -
    obtain q s2 where q: "call_queue now b (\<lambda>E. create_queue (cr_sha k) E (ctx_ws c) n) s1 = Inr (q, s2)"
      using r by (cases "call_queue now b (\<lambda>E. create_queue (cr_sha k) E (ctx_ws c) n) s1") auto
    obtain pos s3 where e: "emit now b ''queue.created'' [n] (Some 1) [] s2 = (pos, s3)" by fastforce
    have "s' = snd (emit now b ''queue.created'' [n] (Some 1) [] s2)" using r q e by simp
    then show ?thesis by (simp only: commits_trans [OF call_queue_commits [OF runs_ops(1) q] emit_commits [OF b]])
  qed
  then show ?thesis unfolding Rq_create serve_queue.simps create_queue_service_def by (intro settle_run_serves) blast
next
  case (Rq_send n key b)
  then show ?thesis by (simp add: send_serves)
next
  case (Rq_claim n r)
  have "commits (cr_sha k) c s1 s'" if "bound_by c b" "claim_in (cr_digest k) now b (ctx_ws c) n r s1 = Inr (x, s')" for b s1 x s'
    using that queue_call_commits [OF _ runs_ops(3)] by (fastforce simp: claim_in_def ebind_Inr_iff)
  then show ?thesis unfolding Rq_claim serve_queue.simps claim_service_def by (intro settle_run_serves) blast
next
  case (Rq_renew i r)
  show ?thesis unfolding Rq_renew serve_queue.simps renew_service_def receipt_verb_service_def map_reply_reason
    by (intro settle_run_serves) (rule receipt_verb_commits)
next
  case (Rq_ack i r)
  show ?thesis unfolding Rq_ack serve_queue.simps ack_service_def receipt_verb_service_def map_reply_reason
    by (intro settle_run_serves) (rule receipt_verb_commits)
next
  case (Rq_nack i r)
  show ?thesis unfolding Rq_nack serve_queue.simps nack_service_def receipt_verb_service_def map_reply_reason
    by (intro settle_run_serves) (rule receipt_verb_commits)
next
  case (Rq_hold i r)
  have "commits (cr_sha k) c s1 s'" if "bound_by c b" "hold_in (cr_digest k) now b (ctx_ws c) i r s1 = Inr (x, s')" for b s1 x s'
    using that queue_call_commits [OF _ runs_ops(4)] by (fastforce simp: hold_in_def ebind_Inr_iff with_uuid_Inr)
  then show ?thesis unfolding Rq_hold serve_queue.simps hold_service_def by (intro settle_run_serves) blast
next
  case (Rq_begin i r a t)
  show ?thesis unfolding Rq_begin serve_queue.simps begin_effect_service_def
    by (intro settle_run_serves) (auto simp: with_uuid_Inr intro: queue_call_commits [OF _ runs_ops(5)])
next
  case (Rq_cancel i f r)
  show ?thesis unfolding Rq_cancel serve_queue.simps cancel_service_def
    by (intro settle_run_serves)
      (auto simp: with_uuid_Inr user_guard_Inr ebind_Inr_iff intro: queue_call_commits [OF _ runs_ops(6)])
next
  case (Rq_replay i)
  show ?thesis unfolding Rq_replay serve_queue.simps replay_service_def
    by (intro settle_run_serves)
      (auto simp: replay_in_def with_uuid_Inr user_guard_Inr ebind_Inr_iff intro: queue_call_commits [OF _ runs_ops(7)])
next
  case (Rq_release i)
  show ?thesis unfolding Rq_release serve_queue.simps release_service_def
    by (intro settle_run_serves)
      (auto simp: release_in_def with_uuid_Inr user_guard_Inr ebind_Inr_iff intro: queue_call_commits [OF _ runs_ops(8)])
next
  case (Rq_recover n)
  show ?thesis unfolding Rq_recover serve_queue.simps recover_service_def
    by (cases "queue_of (bp_ledger s) (ctx_ws c) n")
      (auto simp: ebind_Inr_iff intro!: settle_run_serves intro: ensure_all_commits settle_serves)
next
  case (Rq_reconcile i d e)
  show ?thesis unfolding Rq_reconcile serve_queue.simps reconcile_service_def
    by (intro settle_run_serves) (rule reconcile_in_commits)
next
  case (Rq_delegate p e)
  show ?thesis unfolding Rq_delegate serve_queue.simps set_delegation_service_def
    by (intro settle_run_serves) (rule set_delegation_commits)
qed

section \<open>Reachable servers\<close>

definition fresh_backplane :: "control \<Rightarrow> backplane" where
  "fresh_backplane ct = \<lparr>bp_ctl = ct, bp_ledger = empty_ledger, bp_events = [], bp_cursor = [], bp_rejections = [],
     bp_deployed = [], bp_tokens = [], bp_keys = [], bp_seen = [], bp_quotas = [], bp_usage = []\<rparr>"

text \<open>Requests of any callers at any times, between arbitrary changes of the control rows.\<close>

inductive serving :: "crypto \<Rightarrow> backplane \<Rightarrow> bool" for k where
  fresh: "serving k (fresh_backplane ct)"
| request: "serving k s \<Longrightarrow> serving k (snd (serve_queue k now c rq s))"
| control: "serving k s \<Longrightarrow> serving k (s\<lparr>bp_ctl := ct, bp_deployed := dp, bp_tokens := tk, bp_keys := ky, bp_quotas := qt\<rparr>)"

definition server_ok :: "crypto \<Rightarrow> backplane \<Rightarrow> bool" where
  "server_ok k s \<longleftrightarrow> audit_ok s \<and> reachable (cr_sha k) (bp_ledger s) \<and> distinct (usage_keys (bp_usage s))"

lemma server_ok_rejections [simp]: "server_ok k (s\<lparr>bp_rejections := rs\<rparr>) = server_ok k s"
  by (simp add: server_ok_def audit_ok_def positions_def last_position_def)

lemma committed_ok: "server_ok k s \<Longrightarrow> committed (cr_sha k) c s s' \<Longrightarrow> server_ok k s'"
  unfolding server_ok_def committed_def by blast

lemma serve_queue_ok:
  assumes "server_ok k s"
  shows "server_ok k (snd (serve_queue k now c rq s))"
proof (cases "fst (serve_queue k now c rq s)")
  case None
  then show ?thesis using serve_queue_serves [of k now c s rq] committed_ok [OF assms] by (simp add: serves_def)
next
  case (Some reason)
  then show ?thesis using serve_queue_serves [of k now c s rq] assms by (auto simp: serves_def rejected_def)
qed

lemma serving_ok: "serving k s \<Longrightarrow> server_ok k s"
proof (induction rule: serving.induct)
  case (fresh ct)
  then show ?case
    by (simp add: server_ok_def fresh_backplane_def audit_ok_def positions_def last_position_def reachable.start usage_keys_def)
next
  case (control s ct dp tk ky qt)
  then show ?case by (simp add: server_ok_def audit_ok_def positions_def last_position_def)
qed (rule serve_queue_ok)

text \<open>C11: in every state the queue API can reach, the audit ledger of each Workspace is numbered
  without gap or repetition up to its cursor, every event has one kind of actor, and the queue
  ledger is one that the queue functions alone reach, so every property of the ledger holds.\<close>

theorem serving_audited:
  assumes "serving k s"
  shows "(\<forall>w. map ae_position (filter (\<lambda>e. ae_ws e = w) (bp_events s)) = [1..<Suc (last_position s w)])
    \<and> (\<forall>e\<in>set (bp_events s). one_actor e) \<and> reachable (cr_sha k) (bp_ledger s) \<and> ledger_ok (bp_ledger s)"
  using serving_ok [OF assms] reachable_ledger_ok by (auto simp: server_ok_def audit_ok_def positions_def)

text \<open>A server on which one Principal has created a queue.\<close>

definition demo_crypto :: crypto where
  "demo_crypto = \<lparr>cr_sha = id, cr_digest = id, cr_jsonb = (\<lambda>v. None)\<rparr>"

definition demo_served :: backplane where
  "demo_served = snd (serve_queue demo_crypto 7 (Principal_context 1 10 20 None) (Rq_create ''jobs'') (fresh_backplane demo_control))"

lemma demo_served: "positions demo_served 1 = [1] \<and> map qr_name (lg_queues (bp_ledger demo_served)) = [''jobs'']"
  by code_simp

theorem serving_audited_witness:
  "positions demo_served 1 = [1] \<and> map qr_name (lg_queues (bp_ledger demo_served)) = [''jobs'']
   \<and> ledger_ok (bp_ledger demo_served)"
proof -
  have "serving demo_crypto demo_served" unfolding demo_served_def by (intro serving.intros)
  from serving_audited [OF this] show ?thesis using demo_served by blast
qed


end
