(* ===== verification/Http.thy ===== *)
theory Http
  imports Prelude
begin

text \<open>The HTTP vocabulary of the server: the schemas routes declare (elysia's \<open>t\<close>), the request a
  handler sees, and the order in which a route treats it: \<open>transform\<close>, validation of parameters,
  query and body, the session macros, the handler.  The schema language has the meaning JSON
  Schema gives it; string lengths are counted in UTF-16 code units, as JavaScript does.\<close>

section \<open>Strings as JavaScript measures them\<close>

definition byte :: "char \<Rightarrow> int" where
  "byte c = of_char c"

text \<open>The bytes of a string are its UTF-8 encoding: every byte that is not a continuation byte
  starts a code point, and the four-byte sequences take two code units.\<close>

definition js_length :: "string \<Rightarrow> int" where
  "js_length s = int (length (filter (\<lambda>c. byte c < 128 \<or> 192 \<le> byte c) s))
     + int (length (filter (\<lambda>c. 240 \<le> byte c) s))"

section \<open>Schemas\<close>

datatype schema =
    S_string "int option" "int option" "string \<Rightarrow> bool"
  | S_integer "int option" "int option"
  | S_boolean
  | S_unknown
  | S_literal string
  | S_union "schema list"
  | S_nullable schema
  | S_array schema
  | S_record schema
  | S_object "(string \<times> bool \<times> schema) list" bool

definition within :: "int option \<Rightarrow> int option \<Rightarrow> int \<Rightarrow> bool" where
  "within lo hi n \<longleftrightarrow> (case lo of None \<Rightarrow> True | Some l \<Rightarrow> l \<le> n) \<and> (case hi of None \<Rightarrow> True | Some h \<Rightarrow> n \<le> h)"

fun schema_size :: "schema \<Rightarrow> nat" where
  "schema_size (S_union ss) = Suc (sum_list (map schema_size ss))"
| "schema_size (S_nullable s) = Suc (schema_size s)"
| "schema_size (S_array s) = Suc (schema_size s)"
| "schema_size (S_record s) = Suc (schema_size s)"
| "schema_size (S_object fs b) = Suc (sum_list (map (\<lambda>f. schema_size (snd (snd f))) fs))"
| "schema_size _ = 1"

text \<open>An object satisfies its schema when every required property is present, every property
  present satisfies its own schema, and no other is present unless they are allowed.\<close>

function valid :: "schema \<Rightarrow> jval \<Rightarrow> bool" where
  "valid (S_string lo hi P) v = (case v of JStr t \<Rightarrow> within lo hi (js_length t) \<and> P t | _ \<Rightarrow> False)"
| "valid (S_integer lo hi) v = (case v of JInt n \<Rightarrow> within lo hi n | _ \<Rightarrow> False)"
| "valid S_boolean v = (case v of JBool b \<Rightarrow> True | _ \<Rightarrow> False)"
| "valid S_unknown v = True"
| "valid (S_literal t) v = (v = JStr t)"
| "valid (S_union ss) v = list_ex (\<lambda>s. valid s v) ss"
| "valid (S_nullable s) v = (v = JNull \<or> valid s v)"
| "valid (S_array s) v = (case v of JArr vs \<Rightarrow> list_all (valid s) vs | _ \<Rightarrow> False)"
| "valid (S_record s) v = (case v of JObj fs \<Rightarrow> list_all (\<lambda>f. valid s (snd f)) fs | _ \<Rightarrow> False)"
| "valid (S_object ps open_ended) v =
     (case v of
        JObj fs \<Rightarrow>
          list_all (\<lambda>p. case map_of fs (fst p) of None \<Rightarrow> fst (snd p) | Some x \<Rightarrow> valid (snd (snd p)) x) ps
          \<and> (open_ended \<or> list_all (\<lambda>f. list_ex (\<lambda>p. fst p = fst f) ps) fs)
      | _ \<Rightarrow> False)"
  by pat_completeness auto

lemma schema_size_member:
  "s \<in> set ss \<Longrightarrow> schema_size s < Suc (sum_list (map schema_size ss))"
  "p \<in> set ps \<Longrightarrow> schema_size (snd (snd p)) < Suc (sum_list (map (\<lambda>f. schema_size (snd (snd f))) ps))"
proof -
  show "s \<in> set ss \<Longrightarrow> schema_size s < Suc (sum_list (map schema_size ss))"
    using member_le_sum_list [of "schema_size s" "map schema_size ss"] by auto
  show "p \<in> set ps \<Longrightarrow> schema_size (snd (snd p)) < Suc (sum_list (map (\<lambda>f. schema_size (snd (snd f))) ps))"
    using member_le_sum_list [of "schema_size (snd (snd p))" "map (\<lambda>f. schema_size (snd (snd f))) ps"] by auto
qed

termination valid
  by (relation "measure (\<lambda>(s, v). schema_size s)") (auto simp: less_Suc_eq_le schema_size_member [simplified less_Suc_eq_le])

definition any_text :: "string \<Rightarrow> bool" where
  "any_text t = True"

text \<open>\<open>format: "uuid"\<close> also admits the URN prefix.\<close>

definition uuid_format :: "string \<Rightarrow> bool" where
  "uuid_format t = is_uuid (if take 9 (to_lower t) = ''urn:uuid:'' then drop 9 t else t)"

definition no_nul :: "string \<Rightarrow> bool" where
  "no_nul t \<longleftrightarrow> t \<noteq> [] \<and> list_all (\<lambda>c. byte c \<noteq> 0) t"

definition s_text :: "int \<Rightarrow> int \<Rightarrow> schema" where
  "s_text lo hi = S_string (Some lo) (Some hi) any_text"

definition s_uuid :: schema where
  "s_uuid = S_string None None uuid_format"

definition required :: "string \<Rightarrow> schema \<Rightarrow> string \<times> bool \<times> schema" where
  "required k s = (k, False, s)"

definition optional :: "string \<Rightarrow> schema \<Rightarrow> string \<times> bool \<times> schema" where
  "optional k s = (k, True, s)"

fun schema_fields :: "schema \<Rightarrow> (string \<times> bool \<times> schema) list" where
  "schema_fields (S_object ps b) = ps"
| "schema_fields _ = []"

section \<open>Requests and replies\<close>

record request =
  rq_method :: string
  rq_path :: "string list"
  rq_headers :: "(string \<times> string) list"
  rq_params :: jval
  rq_query :: jval
  rq_body :: jval
  rq_chunks :: "string list option"
  rq_admitted :: bool

definition header :: "string \<Rightarrow> request \<Rightarrow> string option" where
  "header k rq = map_of (rq_headers rq) k"

definition param :: "string \<Rightarrow> request \<Rightarrow> string" where
  "param k rq = (case Option.bind (jfield k (rq_params rq)) jstring of None \<Rightarrow> [] | Some t \<Rightarrow> t)"

definition body_text :: "string \<Rightarrow> request \<Rightarrow> string" where
  "body_text k rq = (case Option.bind (jfield k (rq_body rq)) jstring of None \<Rightarrow> [] | Some t \<Rightarrow> t)"

definition body_bool :: "string \<Rightarrow> bool \<Rightarrow> request \<Rightarrow> bool" where
  "body_bool k dflt rq = (case jfield k (rq_body rq) of Some (JBool b) \<Rightarrow> b | _ \<Rightarrow> dflt)"

datatype 'a reply = Reply nat 'a | Refusal nat string

fun reply_status :: "'a reply \<Rightarrow> nat" where
  "reply_status (Reply n x) = n"
| "reply_status (Refusal n e) = n"

section \<open>Routes\<close>

text \<open>What a route declares: its schemas, whether its \<open>transform\<close> refuses a body that is not an
  object of known keys, the schemas of the replies in its \<open>response\<close> map, and the statuses that
  carry \<open>{ error }\<close>.\<close>

record contract =
  rt_method :: string
  rt_path :: "string list"
  rt_params :: schema
  rt_query :: "schema option"
  rt_body :: "schema option"
  rt_strict :: bool
  rt_replies :: "(nat \<times> schema) list"
  rt_errors :: "nat list"
  rt_auth :: string
  rt_run :: string
  rt_operation :: string

definition rt_statuses :: "contract \<Rightarrow> nat list" where
  "rt_statuses c = map fst (rt_replies c) @ rt_errors c"

text \<open>A reply its response schema accepts: elysia answers any other with an error of its own.\<close>

fun conforms :: "contract \<Rightarrow> jval reply \<Rightarrow> bool" where
  "conforms c (Reply n v) = (case map_of (rt_replies c) n of None \<Rightarrow> False | Some s \<Rightarrow> valid s v)"
| "conforms c (Refusal n e) = (n \<in> set (rt_errors c))"

definition known_keys :: "schema \<Rightarrow> jval \<Rightarrow> bool" where
  "known_keys s v = (case v of JObj fs \<Rightarrow> list_all (\<lambda>f. list_ex (\<lambda>p. fst p = fst f) (schema_fields s)) fs | _ \<Rightarrow> False)"

definition validates :: "contract \<Rightarrow> request \<Rightarrow> bool" where
  "validates c rq \<longleftrightarrow> valid (rt_params c) (rq_params rq)
     \<and> (case rt_query c of None \<Rightarrow> True | Some s \<Rightarrow> valid s (rq_query rq))
     \<and> (case rt_body c of None \<Rightarrow> True | Some s \<Rightarrow> valid s (rq_body rq))"

text \<open>\<open>transform\<close> first, then validation; both answer 422 \<open>invalid_input\<close> (\<open>validationError\<close>).\<close>

definition admits :: "contract \<Rightarrow> (request \<Rightarrow> (nat \<times> string) option) \<Rightarrow> request \<Rightarrow> (nat \<times> string) option" where
  "admits c pre rq =
     (case pre rq of
        Some e \<Rightarrow> Some e
      | None \<Rightarrow>
          if rt_strict c \<and> (case rt_body c of None \<Rightarrow> False | Some s \<Rightarrow> \<not> known_keys s (rq_body rq))
          then Some (422, ''invalid_input'')
          else if \<not> validates c rq then Some (422, ''invalid_input'')
          else None)"

definition no_transform :: "request \<Rightarrow> (nat \<times> string) option" where
  "no_transform rq = None"

definition serve_route ::
  "contract \<Rightarrow> (request \<Rightarrow> (nat \<times> string) option) \<Rightarrow> (request \<Rightarrow> 's \<Rightarrow> ((nat \<times> string) + 'actor) \<times> 's)
   \<Rightarrow> (request \<Rightarrow> 'actor \<Rightarrow> 's \<Rightarrow> 'a reply \<times> 's) \<Rightarrow> request \<Rightarrow> 's \<Rightarrow> 'a reply \<times> 's" where
  "serve_route c pre session handle rq s =
     (case admits c pre rq of
        Some (n, e) \<Rightarrow> (Refusal n e, s)
      | None \<Rightarrow>
          (case session rq s of
             (Inl (n, e), s') \<Rightarrow> (Refusal n e, s')
           | (Inr a, s') \<Rightarrow> handle rq a s'))"

text \<open>A route keeps its contract when each stage only answers what it declares, over the states
  that satisfy \<open>inv\<close>, which every stage preserves.\<close>

locale route_contract =
  fixes c :: contract
    and pre :: "request \<Rightarrow> (nat \<times> string) option"
    and session :: "request \<Rightarrow> 's \<Rightarrow> ((nat \<times> string) + 'actor) \<times> 's"
    and handle :: "request \<Rightarrow> 'actor \<Rightarrow> 's \<Rightarrow> jval reply \<times> 's"
    and inv :: "'s \<Rightarrow> bool"
  assumes invalid_declared: "422 \<in> set (rt_errors c)"
    and pre_declared: "pre rq = Some (n, e) \<Longrightarrow> n \<in> set (rt_errors c)"
    and session_declared: "fst (session rq s) = Inl (n, e) \<Longrightarrow> n \<in> set (rt_errors c)"
    and session_inv: "inv s \<Longrightarrow> inv (snd (session rq s))"
    and handle_declared: "inv s \<Longrightarrow> validates c rq \<Longrightarrow> conforms c (fst (handle rq a s))"
    and handle_inv: "inv s \<Longrightarrow> inv (snd (handle rq a s))"
begin

lemma admits_declared: "admits c pre rq = Some (n, e) \<Longrightarrow> n \<in> set (rt_errors c)"
  using invalid_declared pre_declared [of rq n e] by (auto simp: admits_def split: option.splits if_splits)

lemma admits_valid: "admits c pre rq = None \<Longrightarrow> validates c rq"
  by (auto simp: admits_def split: option.splits if_splits)

lemma served_conforms:
  assumes "inv s"
  shows "conforms c (fst (serve_route c pre session handle rq s)) \<and> inv (snd (serve_route c pre session handle rq s))"
proof (cases "admits c pre rq")
  case None
  obtain r s' where r: "session rq s = (r, s')" by fastforce
  have i: "inv s'" using session_inv [OF assms, of rq] r by simp
  show ?thesis
  proof (cases r)
    case (Inl e)
    obtain n t where "e = (n, t)" by (cases e)
    then show ?thesis using None r Inl i session_declared [of rq s n t] by (simp add: serve_route_def)
  next
    case (Inr a)
    then show ?thesis using None r i handle_declared [OF i admits_valid [OF None], of a] handle_inv [OF i, of rq a]
      by (simp add: serve_route_def)
  qed
next
  case (Some e)
  obtain n t where e: "e = (n, t)" by (cases e)
  then show ?thesis using Some admits_declared [of rq n t] assms by (simp add: serve_route_def)
qed

text \<open>The handler never sees a request that its schemas refuse.\<close>

lemma served_valid:
  assumes "fst (serve_route c pre session handle rq s) = Reply n x"
  shows "validates c rq \<and> (\<exists>a s1. session rq s = (Inr a, s1))"
proof (cases "admits c pre rq")
  case None
  moreover have "\<exists>a s1. session rq s = (Inr a, s1)"
    using assms None by (auto simp: serve_route_def split: prod.splits sum.splits)
  ultimately show ?thesis using admits_valid by simp
qed (use assms in \<open>auto simp: serve_route_def split: prod.splits\<close>)

end

end
