(* ===== verification/Sessions.thy ===== *)
theory Sessions
  imports QueueServices Http
begin

text \<open>The session macros (apps/server/auth, apps/server/runs): who is asking, from the request
  headers and the credential rows.  The better-auth library is the parameter \<open>cookie\<close>, which
  returns the User of the session a request carries.  Elysia runs the \<open>resolve\<close> hooks of the
  macros before their \<open>beforeHandle\<close> hooks, so admission comes last.  A database that fails is
  not modelled.\<close>

section \<open>Credentials\<close>

definition parse_principal_key :: "string option \<Rightarrow> (string \<times> string) option" where
  "parse_principal_key bearer =
     (case bearer of
        None \<Rightarrow> None
      | Some t \<Rightarrow>
          if length t = 99 \<and> take 10 t = ''Bearer bp_'' \<and> t ! 34 = CHR ''_''
             \<and> list_all is_hex (take 24 (drop 10 t)) \<and> list_all is_hex (drop 35 t)
          then Some (take 24 (drop 10 t), drop 35 t) else None)"

datatype key_decision = Key_authenticated uuid uuid | Key_unknown | Key_revoked | Key_mismatch

record key_facts =
  kf_principal :: uuid
  kf_ws :: uuid
  kf_active :: bool
  kf_revoked :: "time option"
  kf_hash :: string

definition decide_principal_key :: "key_facts option \<Rightarrow> bool \<Rightarrow> key_decision" where
  "decide_principal_key facts secret_matches =
     (case facts of
        None \<Rightarrow> Key_unknown
      | Some f \<Rightarrow>
          if \<not> secret_matches then Key_mismatch
          else if \<not> kf_active f \<or> kf_revoked f \<noteq> None then Key_revoked
          else Key_authenticated (kf_principal f) (kf_ws f))"

fun unhex :: "string \<Rightarrow> string" where
  "unhex (a # b # t) = char_of (16 * hex_value a + hex_value b) # unhex t"
| "unhex _ = []"

definition hash_principal_secret :: "(string \<Rightarrow> string) \<Rightarrow> string \<Rightarrow> string" where
  "hash_principal_secret digest secret = digest (unhex secret)"

definition verify_principal_secret :: "(string \<Rightarrow> string) \<Rightarrow> string \<Rightarrow> string option \<Rightarrow> bool" where
  "verify_principal_secret digest secret stored \<longleftrightarrow>
     hash_principal_secret digest secret = (case stored of None \<Rightarrow> replicate 32 (CHR 0x00) | Some h \<Rightarrow> h)"

definition query_principal_key :: "backplane \<Rightarrow> string \<Rightarrow> key_facts option" where
  "query_principal_key s prefix =
     (case find (\<lambda>k. ky_prefix k = prefix) (bp_keys s) of
        None \<Rightarrow> None
      | Some k \<Rightarrow>
         (case find (\<lambda>p. pr_ws p = ky_ws k \<and> pr_id p = ky_principal k) (ct_principals (bp_ctl s)) of
            None \<Rightarrow> None
          | Some p \<Rightarrow> Some \<lparr>kf_principal = ky_principal k, kf_ws = ky_ws k, kf_active = pr_active p,
                            kf_revoked = ky_revoked k, kf_hash = ky_hash k\<rparr>))"

definition touch_principal_key :: "time \<Rightarrow> string \<Rightarrow> backplane \<Rightarrow> backplane" where
  "touch_principal_key now prefix s =
     s\<lparr>bp_keys := map (\<lambda>k. if ky_prefix k = prefix \<and> (case ky_used k of None \<Rightarrow> True | Some u \<Rightarrow> u \<le> now - seconds 60)
                           then k\<lparr>ky_used := Some now\<rparr> else k) (bp_keys s)\<rparr>"

section \<open>Invocation credentials\<close>

text \<open>The paths a function invocation may call, below its Workspace.\<close>

definition below_workspace :: "string list \<Rightarrow> string list" where
  "below_workspace p =
     (case p of
        a # b # c # w # rest \<Rightarrow>
          if a = ''api'' \<and> b = ''v1'' \<and> c = ''workspaces'' \<and> w \<noteq> [] then rest else p
      | _ \<Rightarrow> p)"

definition invocation_scope :: "request \<Rightarrow> bool" where
  "invocation_scope rq =
     (case below_workspace (rq_path rq) of
        [a] \<Rightarrow> (rq_method rq = ''POST'' \<and> a \<in> {''sql'', ''transactions'', ''migrations'', ''queues'', ''reconciliations'', ''blobs''})
               \<or> (rq_method rq = ''GET'' \<and> a = ''migrations'')
      | [a, b] \<Rightarrow> (rq_method rq = ''POST'' \<and> a = ''migrations'' \<and> b = ''preview'')
               \<or> (rq_method rq \<in> {''GET'', ''DELETE''} \<and> a = ''blobs'' \<and> b \<noteq> [])
      | [a, b, d] \<Rightarrow> (rq_method rq = ''POST'' \<and> b \<noteq> []
                 \<and> ((a = ''queues'' \<and> d \<in> {''messages'', ''claim'', ''recover''})
                  \<or> (a = ''deliveries'' \<and> d \<in> {''ack'', ''nack'', ''renew'', ''hold'', ''begin-effect''})))
               \<or> (rq_method rq = ''GET'' \<and> a = ''queues'' \<and> b \<noteq> [] \<and> d = ''deliveries'')
      | [a, b, d, e] \<Rightarrow> rq_method rq = ''GET'' \<and> a = ''queues'' \<and> b \<noteq> [] \<and> d = ''messages'' \<and> e \<noteq> []
      | _ \<Rightarrow> False)"

definition is_invocation :: "request \<Rightarrow> bool" where
  "is_invocation rq = (case header ''authorization'' rq of None \<Rightarrow> False
     | Some t \<Rightarrow> to_lower (take 12 t) = ''bearer bp_i_'')"

datatype invocation_check = Not_invocation | Invocation_refused nat string | Invocation_of uuid uuid string

definition invocation_row :: "time \<Rightarrow> string \<Rightarrow> backplane \<Rightarrow> (uuid \<times> uuid \<times> uuid) option" where
  "invocation_row now h s =
     (case find (\<lambda>t. tk_hash t = h \<and> now < tk_expires t) (bp_tokens s) of
        None \<Rightarrow> None
      | Some t \<Rightarrow>
         (case map_of (ct_runs (bp_ctl s)) (tk_run t) of
            None \<Rightarrow> None
          | Some (w, p) \<Rightarrow>
              if list_ex (\<lambda>x. pr_ws x = w \<and> pr_id x = p \<and> pr_active x) (ct_principals (bp_ctl s))
                 \<and> list_ex (\<lambda>k. ky_ws k = w \<and> ky_principal k = p \<and> ky_revoked k = None) (bp_keys s)
                 \<and> (case ct_gate (bp_ctl s) of None \<Rightarrow> False | Some g \<Rightarrow> \<not> rg_active g \<and> tk_epoch t = rg_epoch g)
              then Some (w, p, tk_run t) else None))"

definition invocation_credential ::
  "(string \<Rightarrow> string) \<Rightarrow> time \<Rightarrow> request \<Rightarrow> string \<Rightarrow> backplane \<Rightarrow> invocation_check" where
  "invocation_credential digest now rq ws s =
     (if \<not> is_invocation rq then Not_invocation
      else (let bearer = the (header ''authorization'' rq) in
        if \<not> (length bearer = 76 \<and> take 12 bearer = ''Bearer bp_i_'' \<and> list_all is_hex (drop 12 bearer))
        then Invocation_refused 401 ''unauthorized''
        else if \<not> invocation_scope rq then Invocation_refused 403 ''invocation_scope_forbidden''
        else (let h = digest (drop 7 bearer) in
          (case invocation_row now h s of
             None \<Rightarrow> Invocation_refused 401 ''unauthorized''
           | Some (w, p, r) \<Rightarrow>
               if uuid_text w \<noteq> to_lower ws then Invocation_refused 403 ''workspace_forbidden''
               else if map_option to_lower (header ''x-backplane-run'' rq) \<noteq> Some (uuid_text r)
               then Invocation_refused 403 ''run_forbidden''
               else Invocation_of w p h))))"

section \<open>The macros\<close>

text \<open>A Principal: its Workspace, its id, and the hash of an invocation credential.\<close>

type_synonym principal_identity = "uuid \<times> uuid \<times> string option"

definition key_session ::
  "(string \<Rightarrow> string) \<Rightarrow> time \<Rightarrow> request \<Rightarrow> string \<Rightarrow> backplane \<Rightarrow> ((nat \<times> string) + principal_identity) \<times> backplane" where
  "key_session digest now rq ws s =
     (case parse_principal_key (header ''authorization'' rq) of
        None \<Rightarrow> (Inl (401, ''unauthorized''), s)
      | Some (prefix, secret) \<Rightarrow>
         (let row = query_principal_key s prefix in
          (case decide_principal_key row (verify_principal_secret digest secret (map_option kf_hash row)) of
             Key_authenticated p w \<Rightarrow>
               if to_lower ws \<noteq> uuid_text w then (Inl (403, ''workspace_forbidden''), s)
               else (Inr (w, p, None), touch_principal_key now prefix s)
           | _ \<Rightarrow> (Inl (401, ''unauthorized''), s))))"

definition resolve_principal ::
  "(string \<Rightarrow> string) \<Rightarrow> time \<Rightarrow> request \<Rightarrow> backplane \<Rightarrow> ((nat \<times> string) + principal_identity) \<times> backplane" where
  "resolve_principal digest now rq s =
     (case invocation_credential digest now rq (param ''workspaceId'' rq) s of
        Invocation_refused n e \<Rightarrow> (Inl (n, e), s)
      | Invocation_of w p h \<Rightarrow> (Inr (w, p, Some h), s)
      | Not_invocation \<Rightarrow> key_session digest now rq (param ''workspaceId'' rq) s)"

definition admission :: "request \<Rightarrow> ((nat \<times> string) + 'a) \<times> backplane \<Rightarrow> ((nat \<times> string) + 'a) \<times> backplane" where
  "admission rq r = (case r of (Inl e, s) \<Rightarrow> (Inl e, s)
     | (Inr x, s) \<Rightarrow> if rq_admitted rq then (Inr x, s) else (Inl (503, ''admission_unavailable''), s))"

definition principal_session ::
  "(string \<Rightarrow> string) \<Rightarrow> time \<Rightarrow> request \<Rightarrow> backplane \<Rightarrow> ((nat \<times> string) + principal_identity) \<times> backplane" where
  "principal_session digest now rq s = admission rq (resolve_principal digest now rq s)"

definition resolve_run :: "request \<Rightarrow> principal_identity \<Rightarrow> backplane \<Rightarrow> (nat \<times> string) + run_context" where
  "resolve_run rq who s =
     (case parse_run_header (header ''x-backplane-run'' rq) of
        Run_required \<Rightarrow> Inl (400, ''run_required'')
      | Run_invalid \<Rightarrow> Inl (400, ''run_invalid'')
      | Run_id t \<Rightarrow>
          (let r = the (parse_uuid t); (w, p, h) = who in
           if run_access (w, p) (query_run_access (bp_ctl s) r) then Inr (Principal_context w p r h)
           else Inl (403, ''run_forbidden'')))"

definition run_session ::
  "(string \<Rightarrow> string) \<Rightarrow> time \<Rightarrow> request \<Rightarrow> backplane \<Rightarrow> ((nat \<times> string) + run_context) \<times> backplane" where
  "run_session digest now rq s =
     admission rq (case resolve_principal digest now rq s of
        (Inl e, s') \<Rightarrow> (Inl e, s')
      | (Inr who, s') \<Rightarrow> (resolve_run rq who s', s'))"

text \<open>\<open>content-type.split(";")[0].trim().toLowerCase()\<close>\<close>

definition trim :: "string \<Rightarrow> string" where
  "trim t = rev (dropWhile (\<lambda>c. c = CHR '' '') (rev (dropWhile (\<lambda>c. c = CHR '' '') t)))"

definition media_type :: "request \<Rightarrow> string option" where
  "media_type rq = map_option (\<lambda>t. to_lower (trim (takeWhile (\<lambda>c. c \<noteq> CHR '';'') t))) (header ''content-type'' rq)"

definition user_origin :: "string \<Rightarrow> request \<Rightarrow> (nat \<times> string) option" where
  "user_origin trusted rq =
     (if rq_method rq \<in> {''GET'', ''HEAD''} then None
      else (let org = header ''origin'' rq in
        if (org \<noteq> Some trusted \<and> (org \<noteq> None \<or> header ''cookie'' rq \<noteq> None))
           \<or> (rq_body rq \<noteq> JNull \<and> media_type rq \<noteq> Some ''application/json'')
        then Some (403, ''origin_forbidden'') else None))"

definition user_session ::
  "(request \<Rightarrow> string option) \<Rightarrow> string \<Rightarrow> request \<Rightarrow> backplane \<Rightarrow> ((nat \<times> string) + string) \<times> backplane" where
  "user_session cookie trusted rq s =
     (case cookie rq of
        None \<Rightarrow> (Inl (401, ''unauthorized''), s)
      | Some u \<Rightarrow> (case user_origin trusted rq of Some e \<Rightarrow> (Inl e, s) | None \<Rightarrow> (Inr u, s)))"

definition either_session ::
  "(string \<Rightarrow> string) \<Rightarrow> (request \<Rightarrow> string option) \<Rightarrow> time \<Rightarrow> request \<Rightarrow> string \<Rightarrow> backplane
   \<Rightarrow> ((nat \<times> string) + unit) \<times> backplane" where
  "either_session digest cookie now rq ws s =
     (case invocation_credential digest now rq ws s of
        Invocation_refused n e \<Rightarrow> (Inl (n, e), s)
      | Invocation_of w p h \<Rightarrow> (Inr (), s)
      | Not_invocation \<Rightarrow>
          if header ''authorization'' rq \<noteq> None
          then map_prod (map_sum id (\<lambda>_. ())) id (key_session digest now rq ws s)
          else (case cookie rq of
                  None \<Rightarrow> (Inl (401, ''unauthorized''), s)
                | Some u \<Rightarrow>
                    (if query_workspace_access (bp_ctl s) u (parse_uuid ws) then (Inr (), s)
                     else (Inl (403, ''workspace_forbidden''), s))))"

text \<open>Decisions take a cookie without an Authorization header and credentials with one; only a
  Principal goes through admission.\<close>

definition decision_session ::
  "(string \<Rightarrow> string) \<Rightarrow> (request \<Rightarrow> string option) \<Rightarrow> string \<Rightarrow> time \<Rightarrow> request \<Rightarrow> backplane
   \<Rightarrow> ((nat \<times> string) + run_context) \<times> backplane" where
  "decision_session digest cookie trusted now rq s =
     (let ws = param ''workspaceId'' rq in
      if header ''authorization'' rq = None
      then (let org = header ''origin'' rq in
            if (org \<noteq> None \<and> org \<noteq> Some trusted) \<or> media_type rq \<noteq> Some ''application/json''
            then (Inl (403, ''origin_forbidden''), s)
            else (case cookie rq of
                None \<Rightarrow> (Inl (401, ''unauthorized''), s)
              | Some u \<Rightarrow> (case parse_uuid ws of
                    None \<Rightarrow> (Inl (422, ''invalid_input''), s)
                  | Some w \<Rightarrow> (Inr (User_context w u), s))))
      else admission rq
        (case invocation_credential digest now rq ws s of
           Invocation_refused n e \<Rightarrow> (Inl (n, e), s)
         | Invocation_of w p h \<Rightarrow>
             (Inr (Principal_context w p (the (Option.bind (header ''x-backplane-run'' rq) parse_uuid)) (Some h)), s)
         | Not_invocation \<Rightarrow>
             (case key_session digest now rq ws s of
                (Inl e, s') \<Rightarrow> (Inl e, s')
              | (Inr who, s') \<Rightarrow> (resolve_run rq who s', s'))))"

section \<open>What sessions guarantee\<close>

lemma invocation_refused_status:
  "invocation_credential digest now rq ws s = Invocation_refused n e \<Longrightarrow> n \<in> {401, 403}"
  by (auto simp: invocation_credential_def Let_def split: if_splits option.splits prod.splits)

lemma key_session_status: "fst (key_session digest now rq ws s) = Inl (n, e) \<Longrightarrow> n \<in> {401, 403}"
  by (auto simp: key_session_def Let_def split: option.splits prod.splits key_decision.splits if_splits)

lemma resolve_principal_status: "fst (resolve_principal digest now rq s) = Inl (n, e) \<Longrightarrow> n \<in> {401, 403}"
  by (auto simp: resolve_principal_def dest: invocation_refused_status key_session_status split: invocation_check.splits)

lemma admission_status: "fst (admission rq r) = Inl (n, e) \<Longrightarrow> fst r = Inl (n, e) \<or> n = 503"
  by (auto simp: admission_def split: prod.splits sum.splits if_splits)

lemma refused_pairD:
  "key_session digest now rq ws s = (Inl (n, e), b) \<Longrightarrow> n \<in> {401, 403}"
  "resolve_principal digest now rq s = (Inl (n, e), b) \<Longrightarrow> n \<in> {401, 403}"
  using key_session_status [of digest now rq ws s n e] resolve_principal_status [of digest now rq s n e] by simp_all

lemma resolve_run_status: "resolve_run rq who s = Inl (n, e) \<Longrightarrow> n \<in> {400, 403}"
  by (auto simp: resolve_run_def Let_def split: run_header.splits prod.splits if_splits)

lemma principal_session_status: "fst (principal_session digest now rq s) = Inl (n, e) \<Longrightarrow> n \<in> {401, 403, 503}"
  unfolding principal_session_def by (drule admission_status) (auto dest: resolve_principal_status)

lemma run_stage_status:
  assumes "fst (admission rq (case (r, b) of (Inl e, s') \<Rightarrow> (Inl e, s') | (Inr who, s') \<Rightarrow> (resolve_run rq who s', s'))) = Inl (n, e)"
    and "\<And>n e. r = Inl (n, e) \<Longrightarrow> n \<in> {401, 403}"
  shows "n \<in> {400, 401, 403, 503}"
proof (cases r)
  case (Inl x)
  then show ?thesis using admission_status [OF assms(1)] assms(2) [of n e] by auto
next
  case (Inr who)
  then show ?thesis using admission_status [OF assms(1)] resolve_run_status [of rq who b n e] by auto
qed

lemma run_session_status:
  assumes "fst (run_session digest now rq s) = Inl (n, e)"
  shows "n \<in> {400, 401, 403, 503}"
proof -
  obtain r b where r: "resolve_principal digest now rq s = (r, b)" by fastforce
  show ?thesis
    by (rule run_stage_status [of rq r b n e]) (use assms r refused_pairD(2) in \<open>auto simp: run_session_def\<close>)
qed

lemma user_session_status: "fst (user_session cookie trusted rq s) = Inl (n, e) \<Longrightarrow> n \<in> {401, 403}"
  by (auto simp: user_session_def user_origin_def Let_def split: option.splits if_splits)

lemma map_sum_Inl_iff: "map_sum id f r = Inl e \<longleftrightarrow> r = Inl e"
  by (cases r) simp_all

lemma either_session_status:
  assumes "fst (either_session digest cookie now rq ws s) = Inl (n, e)"
  shows "n \<in> {401, 403}"
proof (cases "key_session digest now rq ws s")
  case (Pair r b)
  show ?thesis
    using assms refused_pairD(1) [of digest now rq ws s n e b] invocation_refused_status [of digest now rq ws s n e] Pair
    by (auto simp: either_session_def map_sum_Inl_iff split: invocation_check.splits if_splits option.splits)
qed

lemma decision_session_status:
  assumes "fst (decision_session digest cookie trusted now rq s) = Inl (n, e)"
  shows "n \<in> {400, 401, 403, 422, 503}"
proof (cases "header ''authorization'' rq")
  case None
  then show ?thesis using assms
    by (auto simp: decision_session_def Let_def split: option.splits if_splits)
next
  case (Some y)
  let ?ws = "param ''workspaceId'' rq"
  obtain r b where r: "key_session digest now rq ?ws s = (r, b)" by fastforce
  show ?thesis
  proof (cases "invocation_credential digest now rq ?ws s")
    case Not_invocation
    have "n \<in> {400, 401, 403, 503}"
      by (rule run_stage_status [of rq r b n e])
        (use assms r Some Not_invocation refused_pairD(1) in \<open>auto simp: decision_session_def\<close>)
    then show ?thesis by auto
  next
    case (Invocation_refused m t)
    then have "n = m" using assms Some by (simp add: decision_session_def admission_def)
    then show ?thesis using invocation_refused_status [OF Invocation_refused] by auto
  next
    case (Invocation_of w p h)
    then show ?thesis using assms Some by (simp add: decision_session_def admission_def split: if_splits)
  qed
qed

end
