(* ===== verification/QueueRoutes.thy ===== *)
theory QueueRoutes
  imports ServiceProps Sessions
begin

text \<open>The HTTP routes of the queue (apps/server/queue/*-route.ts and *-input.ts): the schemas each
  declares for its request and its replies, its session macro, and its handler over the adapters.
  Times in rows of jsonb and dates of JavaScript are printed by the parameters \<open>he_time\<close> and
  \<open>he_iso\<close>, bodies are read by \<open>he_json\<close>, and a claim draws \<open>he_random\<close>.\<close>

section \<open>What a route is given\<close>

record http_env =
  he_crypto :: crypto
  he_cookie :: "request \<Rightarrow> string option"
  he_trusted :: string
  he_time :: "time \<Rightarrow> string"
  he_iso :: "time \<Rightarrow> string"
  he_json :: "string \<Rightarrow> jval option"
  he_random :: string

definition run_of :: "http_env \<Rightarrow> time \<Rightarrow> request \<Rightarrow> backplane \<Rightarrow> ((nat \<times> string) + run_context) \<times> backplane" where
  "run_of k now = run_session (cr_digest (he_crypto k)) now"

definition principal_of :: "http_env \<Rightarrow> time \<Rightarrow> request \<Rightarrow> backplane \<Rightarrow> ((nat \<times> string) + principal_identity) \<times> backplane" where
  "principal_of k now = principal_session (cr_digest (he_crypto k)) now"

definition user_of :: "http_env \<Rightarrow> request \<Rightarrow> backplane \<Rightarrow> ((nat \<times> string) + string) \<times> backplane" where
  "user_of k = user_session (he_cookie k) (he_trusted k)"

definition actor_of :: "http_env \<Rightarrow> time \<Rightarrow> request \<Rightarrow> backplane \<Rightarrow> ((nat \<times> string) + run_context) \<times> backplane" where
  "actor_of k now = decision_session (cr_digest (he_crypto k)) (he_cookie k) (he_trusted k) now"

text \<open>\<open>if (!result.ok) return status(queueErrorStatus(result.reason), ...)\<close>, else status \<open>n\<close>.\<close>

definition queue_answer :: "nat \<Rightarrow> ('a \<Rightarrow> jval) \<Rightarrow> (string + 'a) \<times> 's \<Rightarrow> jval reply \<times> 's" where
  "queue_answer n f r = (case r of
     (Inl e, s) \<Rightarrow> (Refusal (queue_error_status e) e, s)
   | (Inr x, s) \<Rightarrow> (Reply n (f x), s))"

text \<open>\<open>{ workspaceId: params.workspaceId, userId: user.id }\<close>\<close>

definition for_user :: "request \<Rightarrow> string \<Rightarrow> (run_context \<Rightarrow> jval reply \<times> 's) \<Rightarrow> 's \<Rightarrow> jval reply \<times> 's" where
  "for_user rq u k s = (case parse_uuid (param ''workspaceId'' rq) of
     None \<Rightarrow> (Refusal 422 ''invalid_input'', s)
   | Some w \<Rightarrow> k (User_context w u))"

section \<open>Schemas\<close>

text \<open>\<open>format: "date-time"\<close> of RFC 3339.\<close>

definition clock_shape :: "string \<Rightarrow> string \<Rightarrow> bool" where
  "clock_shape p t = list_all2 (\<lambda>p c. if p = CHR ''d'' then is_digit c else c = p) p t"

definition zone_ok :: "string \<Rightarrow> bool" where
  "zone_ok z \<longleftrightarrow> z = ''Z'' \<or> clock_shape ''+dd:dd'' z \<or> clock_shape ''-dd:dd'' z"

definition date_time_format :: "string \<Rightarrow> bool" where
  "date_time_format t \<longleftrightarrow> clock_shape ''dddd-dd-ddTdd:dd:dd'' (take 19 t)
     \<and> (let r = drop 19 t in
        if take 1 r = ''.'' then r \<noteq> ''.'' \<and> is_digit (r ! 1) \<and> zone_ok (dropWhile is_digit (drop 1 r)) else zone_ok r)"

definition s_time :: schema where
  "s_time = S_string None None date_time_format"

definition hex64 :: "string \<Rightarrow> bool" where
  "hex64 t \<longleftrightarrow> length t = 64 \<and> list_all is_hex t"

definition s_any :: schema where
  "s_any = S_string None None any_text"

text \<open>receipt-input.ts, begin-effect-input.ts, create-queue-input.ts, send-message-input.ts and the rest.\<close>

definition receipt_input :: schema where
  "receipt_input = S_object [required ''receipt'' (s_text 1 256)] False"

definition delivery_params :: schema where
  "delivery_params = S_object [required ''workspaceId'' s_uuid, required ''deliveryId'' s_uuid] True"

definition begin_effect_input :: schema where
  "begin_effect_input = S_object [required ''receipt'' (s_text 1 256),
     required ''action'' (S_string (Some 1) (Some 1024) no_nul),
     required ''destination'' (S_string (Some 1) (Some 1024) no_nul)] False"

definition queue_pattern :: "string \<Rightarrow> bool" where
  "queue_pattern t \<longleftrightarrow> starts_then is_lower (\<lambda>c. is_lower c \<or> is_digit c \<or> c = CHR ''_'' \<or> c = CHR ''-'') t
     \<and> length t \<le> 63"

definition s_queue_name :: schema where
  "s_queue_name = S_string (Some 1) (Some 63) queue_pattern"

definition create_queue_input :: schema where
  "create_queue_input = S_object [required ''name'' s_queue_name] False"

definition workspace_params :: schema where
  "workspace_params = S_object [required ''workspaceId'' s_uuid] True"

definition queue_params :: schema where
  "queue_params = S_object [required ''workspaceId'' s_uuid, required ''queue'' s_queue_name] True"

definition message_params :: schema where
  "message_params = S_object [required ''workspaceId'' s_uuid, required ''queue'' s_queue_name, required ''messageId'' s_uuid] True"

definition send_message_input :: schema where
  "send_message_input = S_object [required ''idempotencyKey'' (s_text 1 256), required ''payload'' S_unknown] False"

definition empty_input :: schema where
  "empty_input = S_object [] False"

definition reason_pattern :: "string \<Rightarrow> bool" where
  "reason_pattern t \<longleftrightarrow> starts_then is_lower (\<lambda>c. is_lower c \<or> is_digit c \<or> c = CHR ''_'') t \<and> length t \<le> 64"

text \<open>\<open>force\<close> has a default, which elysia fills in before it validates.\<close>

definition cancel_input :: schema where
  "cancel_input = S_object [optional ''force'' S_boolean,
     required ''reason'' (S_string (Some 1) (Some 64) reason_pattern)] False"

definition s_outcome :: schema where
  "s_outcome = S_union [S_literal ''applied'', S_literal ''not_applied'', S_literal ''unknown'']"

definition reconcile_input :: schema where
  "reconcile_input = S_object [required ''deliveryId'' s_uuid, required ''outcome'' s_outcome,
     required ''evidence'' (S_string (Some 1) (Some 4096) no_nul)] False"

definition delegation_input :: schema where
  "delegation_input = S_object [required ''enabled'' S_boolean] False"

definition delegation_params :: schema where
  "delegation_params = S_object [required ''workspaceId'' s_uuid, required ''principalId'' s_uuid] True"

text \<open>The replies.\<close>

definition s_state :: schema where
  "s_state = S_union [S_literal ''scheduled'', S_literal ''ready'', S_literal ''leased'', S_literal ''begun'',
     S_literal ''effect-paused'', S_literal ''held'', S_literal ''ambiguous'', S_literal ''succeeded'',
     S_literal ''dead-lettered'', S_literal ''cancelled'']"

definition envelope_schema :: schema where
  "envelope_schema = S_object [required ''id'' s_uuid, required ''workspaceId'' s_uuid, required ''queue'' s_any,
     required ''messageId'' s_uuid, required ''chainId'' s_uuid, required ''parentId'' (S_nullable s_uuid),
     required ''attempt'' (S_integer (Some 1) None), required ''maxAttempts'' (S_integer (Some 1) None),
     required ''current'' S_boolean, required ''state'' s_state,
     required ''consumerPrincipalId'' (S_nullable s_uuid), required ''consumerRunId'' (S_nullable s_uuid),
     required ''leaseExpiresAt'' (S_nullable s_time), required ''claimedAt'' (S_nullable s_time),
     required ''completedAt'' (S_nullable s_time), required ''failureCode'' (S_nullable s_any),
     required ''nextAttemptAt'' (S_nullable s_time), required ''heldBy'' (S_nullable s_uuid),
     required ''heldAt'' (S_nullable s_time), required ''effectStartedAt'' (S_nullable s_time),
     required ''createdAt'' s_time] False"

definition ack_response :: schema where
  "ack_response = S_object [required ''deliveryId'' s_uuid, required ''state'' (S_literal ''succeeded'')] False"

definition nack_response :: schema where
  "nack_response = S_object [required ''deliveryId'' s_uuid,
     required ''state'' (S_union [S_literal ''scheduled'', S_literal ''dead-lettered'', S_literal ''ambiguous'']),
     required ''nextAttemptAt'' (S_nullable s_time)] False"

definition renew_response :: schema where
  "renew_response = S_object [required ''deliveryId'' s_uuid, required ''leaseExpiresAt'' s_time] False"

definition begin_effect_response :: schema where
  "begin_effect_response = S_object [required ''deliveryId'' s_uuid, required ''messageId'' s_uuid,
     required ''effectKey'' (S_string None None hex64), required ''state'' (S_literal ''begun''),
     required ''begunAt'' s_time] False"

definition claim_response :: schema where
  "claim_response = S_object [required ''deliveryId'' s_uuid, required ''messageId'' s_uuid,
     required ''attempt'' (S_integer (Some 1) None), required ''receipt'' s_any,
     required ''leaseExpiresAt'' s_time, required ''payload'' S_unknown] False"

definition queue_response :: schema where
  "queue_response = S_object [required ''workspaceId'' s_uuid, required ''name'' s_any, required ''createdAt'' s_time] False"

definition message_fields :: "(string \<times> bool \<times> schema) list" where
  "message_fields = [required ''id'' s_uuid, required ''workspaceId'' s_uuid, required ''queue'' s_any,
     required ''idempotencyKey'' s_any, required ''producerPrincipalId'' s_uuid,
     required ''producerRunId'' s_uuid, required ''createdAt'' s_time]"

definition message_response :: schema where
  "message_response = S_object message_fields False"

definition get_message_response :: schema where
  "get_message_response = S_object (message_fields @ [required ''payload'' S_unknown]) False"

definition recover_response :: schema where
  "recover_response = S_object [required ''created'' (S_integer (Some 0) (Some 32)), required ''hasMore'' S_boolean] False"

definition position_pattern :: "string \<Rightarrow> bool" where
  "position_pattern t = starts_then (\<lambda>c. is_digit c \<and> c \<noteq> CHR ''0'') is_digit t"

definition reconcile_response :: schema where
  "reconcile_response = S_object [required ''id'' s_uuid, required ''deliveryId'' s_uuid, required ''outcome'' s_outcome,
     required ''successorDeliveryId'' (S_nullable s_uuid),
     required ''decisionPosition'' (S_string None None position_pattern)] True"

definition delegation_response :: schema where
  "delegation_response = S_object [required ''principalId'' s_uuid, required ''enabled'' S_boolean] True"

definition quota_response :: schema where
  "quota_response = S_object [required ''error'' (S_literal ''quota_exceeded''),
     required ''resource'' (S_union [S_literal ''sql_statement_bytes'', S_literal ''sql_rows'',
        S_literal ''transaction_operations'', S_literal ''queue_sends'']),
     required ''limit'' (S_integer None None),
     required ''window'' (S_object [required ''start'' s_any, required ''end'' s_any] True),
     required ''retryAfterSeconds'' (S_integer None None),
     optional ''operationIndex'' (S_integer (Some 0) (Some 15))] True"

section \<open>Replies as JSON\<close>

definition j_uuid :: "uuid \<Rightarrow> jval" where
  "j_uuid u = JStr (uuid_text u)"

definition j_opt :: "('a \<Rightarrow> jval) \<Rightarrow> 'a option \<Rightarrow> jval" where
  "j_opt f v = (case v of None \<Rightarrow> JNull | Some x \<Rightarrow> f x)"

definition j_time :: "http_env \<Rightarrow> time \<Rightarrow> jval" where
  "j_time k t = JStr (he_time k t)"

definition j_iso :: "http_env \<Rightarrow> time \<Rightarrow> jval" where
  "j_iso k t = JStr (he_iso k t)"

definition envelope_json :: "http_env \<Rightarrow> delivery_envelope \<Rightarrow> jval" where
  "envelope_json k d = JObj [(''id'', j_uuid (de_id d)), (''workspaceId'', j_uuid (de_workspace d)),
     (''queue'', JStr (de_queue d)), (''messageId'', j_uuid (de_message d)), (''chainId'', j_uuid (de_chain d)),
     (''parentId'', j_opt j_uuid (de_parent d)), (''attempt'', JInt (int (de_attempt d))),
     (''maxAttempts'', JInt (int (de_max_attempts d))), (''current'', JBool (de_current d)),
     (''state'', JStr (dstate_text (de_state d))), (''consumerPrincipalId'', j_opt j_uuid (de_consumer_principal d)),
     (''consumerRunId'', j_opt j_uuid (de_consumer_run d)), (''leaseExpiresAt'', j_opt (j_time k) (de_lease_expires d)),
     (''claimedAt'', j_opt (j_time k) (de_claimed d)), (''completedAt'', j_opt (j_time k) (de_completed d)),
     (''failureCode'', j_opt JStr (de_failure_code d)), (''nextAttemptAt'', j_opt (j_time k) (de_next_attempt d)),
     (''heldBy'', j_opt j_uuid (de_held_by d)), (''heldAt'', j_opt (j_time k) (de_held_at d)),
     (''effectStartedAt'', j_opt (j_time k) (de_effect_started d)), (''createdAt'', j_time k (de_created d))]"

definition message_json :: "http_env \<Rightarrow> message \<Rightarrow> (string \<times> jval) list" where
  "message_json k m = [(''id'', j_uuid (ms_id m)), (''workspaceId'', j_uuid (ms_ws m)), (''queue'', JStr (ms_queue m)),
     (''idempotencyKey'', JStr (ms_key m)), (''producerPrincipalId'', j_opt j_uuid (ms_producer m)),
     (''producerRunId'', j_opt j_uuid (ms_run m)), (''createdAt'', j_iso k (ms_created m))]"

definition read_json :: "http_env \<Rightarrow> string \<Rightarrow> jval" where
  "read_json k t = (case he_json k t of None \<Rightarrow> JNull | Some v \<Rightarrow> v)"

definition claim_json :: "http_env \<Rightarrow> claim_reply option \<Rightarrow> jval" where
  "claim_json k r = (case r of None \<Rightarrow> JNull | Some c \<Rightarrow>
     JObj [(''deliveryId'', j_uuid (cl_delivery c)), (''messageId'', j_uuid (cl_message c)),
       (''attempt'', JInt (int (cl_attempt c))), (''receipt'', JStr (cl_receipt c)),
       (''leaseExpiresAt'', j_opt (j_time k) (cl_lease c)), (''payload'', read_json k (cl_payload c))])"

definition quota_json :: "http_env \<Rightarrow> quota_failure \<Rightarrow> jval" where
  "quota_json k q = JObj ([(''error'', JStr ''quota_exceeded''), (''resource'', JStr (resource_text (qf_resource q))),
     (''limit'', JInt (qf_limit q)),
     (''window'', JObj [(''start'', j_iso k (qf_start q)), (''end'', j_iso k (qf_end q))]),
     (''retryAfterSeconds'', JInt (qf_retry q))]
     @ (case qf_operation q of None \<Rightarrow> [] | Some i \<Rightarrow> [(''operationIndex'', JInt (int i))]))"

definition reconcile_json :: "reconciliation \<times> nat \<Rightarrow> jval" where
  "reconcile_json r = JObj [(''id'', j_uuid (rc_id (fst r))), (''deliveryId'', j_uuid (rc_delivery (fst r))),
     (''outcome'', JStr (outcome_text (rc_outcome (fst r)))),
     (''successorDeliveryId'', j_opt j_uuid (rc_successor (fst r))),
     (''decisionPosition'', JStr (nat_text (snd r)))]"

section \<open>Contracts\<close>

definition queue_errors :: "nat list" where
  "queue_errors = [400, 401, 403, 404, 409, 410, 413, 422, 503]"

definition bare_errors :: "nat list" where
  "bare_errors = [400, 401, 403, 409, 422, 503]"

definition workspace_path :: "string list \<Rightarrow> string list" where
  "workspace_path rest = [''api'', ''v1'', ''workspaces'', '':workspaceId''] @ rest"

definition post_contract :: "string list \<Rightarrow> schema \<Rightarrow> schema \<Rightarrow> (nat \<times> schema) list \<Rightarrow> nat list \<Rightarrow> string \<Rightarrow> string \<Rightarrow> string \<Rightarrow> contract" where
  "post_contract path params body replies errors auth run operation =
     \<lparr>rt_method = ''POST'', rt_path = workspace_path path, rt_params = params, rt_query = None, rt_body = Some body,
      rt_strict = True, rt_replies = replies, rt_errors = errors, rt_auth = auth, rt_run = run, rt_operation = operation\<rparr>"

definition run_contract :: "string list \<Rightarrow> schema \<Rightarrow> schema \<Rightarrow> (nat \<times> schema) list \<Rightarrow> string \<Rightarrow> contract" where
  "run_contract path params body replies operation =
     post_contract path params body replies queue_errors ''principal'' ''required'' operation"

definition user_contract :: "string list \<Rightarrow> schema \<Rightarrow> schema \<Rightarrow> (nat \<times> schema) list \<Rightarrow> string \<Rightarrow> contract" where
  "user_contract path params body replies operation =
     post_contract path params body replies queue_errors ''user'' ''none'' operation"

definition ack_contract :: contract where
  "ack_contract = run_contract [''deliveries'', '':deliveryId'', ''ack''] delivery_params receipt_input
     [(200, ack_response)] ''ackDelivery''"

definition nack_contract :: contract where
  "nack_contract = run_contract [''deliveries'', '':deliveryId'', ''nack''] delivery_params receipt_input
     [(200, nack_response)] ''nackDelivery''"

definition renew_contract :: contract where
  "renew_contract = run_contract [''deliveries'', '':deliveryId'', ''renew''] delivery_params receipt_input
     [(200, renew_response)] ''renewDelivery''"

definition hold_contract :: contract where
  "hold_contract = run_contract [''deliveries'', '':deliveryId'', ''hold''] delivery_params receipt_input
     [(200, envelope_schema)] ''holdDelivery''"

definition begin_effect_contract :: contract where
  "begin_effect_contract = run_contract [''deliveries'', '':deliveryId'', ''begin-effect''] delivery_params
     begin_effect_input [(200, begin_effect_response)] ''beginEffect''"

definition claim_contract :: contract where
  "claim_contract = run_contract [''queues'', '':queue'', ''claim''] queue_params empty_input
     [(200, S_nullable claim_response)] ''claimMessage''"

definition recover_contract :: contract where
  "recover_contract = run_contract [''queues'', '':queue'', ''recover''] queue_params empty_input
     [(200, recover_response)] ''recoverDeliveries''"

definition create_queue_contract :: contract where
  "create_queue_contract = post_contract [''queues''] workspace_params create_queue_input
     [(201, queue_response)] bare_errors ''principal'' ''required'' ''createQueue''"

definition send_message_contract :: contract where
  "send_message_contract = post_contract [''queues'', '':queue'', ''messages''] queue_params send_message_input
     [(429, quota_response), (200, message_response), (201, message_response)]
     [400, 401, 403, 404, 409, 413, 422, 503] ''principal'' ''required'' ''sendMessage''"

definition get_message_contract :: contract where
  "get_message_contract =
     \<lparr>rt_method = ''GET'', rt_path = workspace_path [''queues'', '':queue'', ''messages'', '':messageId''],
      rt_params = message_params, rt_query = None, rt_body = None, rt_strict = False,
      rt_replies = [(200, get_message_response)], rt_errors = [401, 403, 404, 410, 422, 503],
      rt_auth = ''principal'', rt_run = ''none'', rt_operation = ''getMessage''\<rparr>"

definition cancel_contract :: contract where
  "cancel_contract = user_contract [''deliveries'', '':deliveryId'', ''cancel''] delivery_params cancel_input
     [(200, envelope_schema)] ''cancelDelivery''"

definition replay_contract :: contract where
  "replay_contract = user_contract [''deliveries'', '':deliveryId'', ''replay''] delivery_params empty_input
     [(201, envelope_schema)] ''replayDelivery''"

definition release_contract :: contract where
  "release_contract = user_contract [''deliveries'', '':deliveryId'', ''release''] delivery_params empty_input
     [(201, envelope_schema)] ''releaseDelivery''"

definition reconcile_contract :: contract where
  "reconcile_contract = post_contract [''reconciliations''] workspace_params reconcile_input
     [(200, reconcile_response)] queue_errors ''either'' ''principal-required'' ''reconcileEffect''"

definition delegation_contract :: contract where
  "delegation_contract = (user_contract [''reconciliations'', ''delegations'', '':principalId''] delegation_params
     delegation_input [(200, delegation_response)] ''setReconciliationDelegation'')\<lparr>rt_method := ''PUT''\<rparr>"

section \<open>Handlers\<close>

text \<open>The \<open>transform\<close> of the User routes: an Authorization header never falls back to the cookie.\<close>

definition no_authorization :: "string \<Rightarrow> request \<Rightarrow> (nat \<times> string) option" where
  "no_authorization e rq = (if header ''authorization'' rq \<noteq> None then Some (403, e) else None)"

definition evidence_bound :: "request \<Rightarrow> (nat \<times> string) option" where
  "evidence_bound rq = (case Option.bind (jfield ''evidence'' (rq_body rq)) jstring of
     None \<Rightarrow> None | Some t \<Rightarrow> if 4096 < octets t then Some (422, ''invalid_input'') else None)"

definition ack_handler :: "http_env \<Rightarrow> time \<Rightarrow> request \<Rightarrow> run_context \<Rightarrow> backplane \<Rightarrow> jval reply \<times> backplane" where
  "ack_handler k now rq c s = queue_answer 200
     (\<lambda>(i, st). JObj [(''deliveryId'', j_uuid i), (''state'', JStr (dstate_text st))])
     (ack_service (cr_digest (he_crypto k)) now c (param ''deliveryId'' rq) (body_text ''receipt'' rq) s)"

definition nack_handler :: "http_env \<Rightarrow> time \<Rightarrow> request \<Rightarrow> run_context \<Rightarrow> backplane \<Rightarrow> jval reply \<times> backplane" where
  "nack_handler k now rq c s = queue_answer 200
     (\<lambda>(i, st, nx). JObj [(''deliveryId'', j_uuid i), (''state'', JStr (dstate_text st)), (''nextAttemptAt'', j_opt (j_time k) nx)])
     (nack_service (cr_digest (he_crypto k)) now c (param ''deliveryId'' rq) (body_text ''receipt'' rq) s)"

definition renew_handler :: "http_env \<Rightarrow> time \<Rightarrow> request \<Rightarrow> run_context \<Rightarrow> backplane \<Rightarrow> jval reply \<times> backplane" where
  "renew_handler k now rq c s = queue_answer 200
     (\<lambda>(i, l). JObj [(''deliveryId'', j_uuid i), (''leaseExpiresAt'', j_opt (j_time k) l)])
     (renew_service (cr_digest (he_crypto k)) now c (param ''deliveryId'' rq) (body_text ''receipt'' rq) s)"

definition hold_handler :: "http_env \<Rightarrow> time \<Rightarrow> request \<Rightarrow> run_context \<Rightarrow> backplane \<Rightarrow> jval reply \<times> backplane" where
  "hold_handler k now rq c s = queue_answer 200 (envelope_json k)
     (hold_service (cr_digest (he_crypto k)) now c (param ''deliveryId'' rq) (body_text ''receipt'' rq) s)"

definition begin_effect_handler :: "http_env \<Rightarrow> time \<Rightarrow> request \<Rightarrow> run_context \<Rightarrow> backplane \<Rightarrow> jval reply \<times> backplane" where
  "begin_effect_handler k now rq c s = queue_answer 200
     (\<lambda>b. JObj [(''deliveryId'', j_uuid (be_delivery b)), (''messageId'', j_uuid (be_message b)),
        (''effectKey'', JStr (be_key b)), (''state'', JStr ''begun''), (''begunAt'', j_opt (j_time k) (be_at b))])
     (begin_effect_service (cr_sha (he_crypto k)) (cr_digest (he_crypto k)) now c (param ''deliveryId'' rq)
        (body_text ''receipt'' rq) (body_text ''action'' rq) (body_text ''destination'' rq) s)"

definition claim_handler :: "http_env \<Rightarrow> time \<Rightarrow> request \<Rightarrow> run_context \<Rightarrow> backplane \<Rightarrow> jval reply \<times> backplane" where
  "claim_handler k now rq c s = queue_answer 200 (claim_json k)
     (claim_service (cr_digest (he_crypto k)) now c (param ''queue'' rq) (he_random k) s)"

definition recover_handler :: "http_env \<Rightarrow> time \<Rightarrow> request \<Rightarrow> run_context \<Rightarrow> backplane \<Rightarrow> jval reply \<times> backplane" where
  "recover_handler k now rq c s = queue_answer 200
     (\<lambda>(n, more). JObj [(''created'', JInt (int n)), (''hasMore'', JBool more)])
     (recover_service now c (param ''queue'' rq) s)"

text \<open>These two routes translate the reasons themselves.\<close>

definition create_queue_handler :: "http_env \<Rightarrow> time \<Rightarrow> request \<Rightarrow> run_context \<Rightarrow> backplane \<Rightarrow> jval reply \<times> backplane" where
  "create_queue_handler k now rq c s =
     (case create_queue_service (cr_sha (he_crypto k)) now c (body_text ''name'' rq) s of
        (Inl e, s') \<Rightarrow> (Refusal (if e = ''queue_exists'' then 409 else if e = ''invalid_input'' then 422 else 503) e, s')
      | (Inr (w, n, at), s') \<Rightarrow>
          (Reply 201 (JObj [(''workspaceId'', j_uuid w), (''name'', JStr n), (''createdAt'', j_iso k at)]), s'))"

definition send_message_handler :: "http_env \<Rightarrow> time \<Rightarrow> request \<Rightarrow> run_context \<Rightarrow> backplane \<Rightarrow> jval reply \<times> backplane" where
  "send_message_handler k now rq c s =
     (case send_message_service (cr_sha (he_crypto k)) (cr_jsonb (he_crypto k)) now c (param ''queue'' rq)
             (body_text ''idempotencyKey'' rq) (the (jfield ''payload'' (rq_body rq))) s of
        (Inl (e, Some q), s') \<Rightarrow> (Reply 429 (quota_json k q), s')
      | (Inl (e, None), s') \<Rightarrow>
          (Refusal (if e = ''queue_not_found'' then 404 else if e = ''idempotency_conflict'' then 409
             else if e = ''payload_too_large'' then 413 else if e = ''invalid_input'' then 422 else 503) e, s')
      | (Inr (m, inserted), s') \<Rightarrow> (Reply (if inserted then 201 else 200) (JObj (message_json k m)), s'))"

definition get_message_handler :: "http_env \<Rightarrow> time \<Rightarrow> request \<Rightarrow> principal_identity \<Rightarrow> backplane \<Rightarrow> jval reply \<times> backplane" where
  "get_message_handler k now rq who s =
     (case (case parse_uuid (param ''messageId'' rq) of
              None \<Rightarrow> Inl (fst (queue_error (Sql Invalid_text)))
            | Some i \<Rightarrow> get_message_service now (fst who) (param ''queue'' rq) i s) of
        Inl e \<Rightarrow> (Refusal (if e = ''payload_expired'' then 410
            else if e \<in> {''message_not_found'', ''queue_not_found''} then 404 else 503) e, s)
      | Inr (m, b) \<Rightarrow> (Reply 200 (JObj (message_json k m @ [(''payload'', read_json k b)])), s))"

definition cancel_handler :: "http_env \<Rightarrow> time \<Rightarrow> request \<Rightarrow> string \<Rightarrow> backplane \<Rightarrow> jval reply \<times> backplane" where
  "cancel_handler k now rq u s = for_user rq u (\<lambda>c. queue_answer 200 (envelope_json k)
     (cancel_service now c (param ''deliveryId'' rq) (body_bool ''force'' False rq) (body_text ''reason'' rq) s)) s"

definition replay_handler :: "http_env \<Rightarrow> time \<Rightarrow> request \<Rightarrow> string \<Rightarrow> backplane \<Rightarrow> jval reply \<times> backplane" where
  "replay_handler k now rq u s = for_user rq u (\<lambda>c. queue_answer 201 (envelope_json k)
     (replay_service now c (param ''deliveryId'' rq) s)) s"

definition release_handler :: "http_env \<Rightarrow> time \<Rightarrow> request \<Rightarrow> string \<Rightarrow> backplane \<Rightarrow> jval reply \<times> backplane" where
  "release_handler k now rq u s = for_user rq u (\<lambda>c. queue_answer 201 (envelope_json k)
     (release_service now c (param ''deliveryId'' rq) s)) s"

definition reconcile_handler :: "http_env \<Rightarrow> time \<Rightarrow> request \<Rightarrow> run_context \<Rightarrow> backplane \<Rightarrow> jval reply \<times> backplane" where
  "reconcile_handler k now rq c s = queue_answer 200 reconcile_json
     (reconcile_service now c (body_text ''deliveryId'' rq) (body_text ''outcome'' rq) (body_text ''evidence'' rq) s)"

definition delegation_handler :: "http_env \<Rightarrow> time \<Rightarrow> request \<Rightarrow> string \<Rightarrow> backplane \<Rightarrow> jval reply \<times> backplane" where
  "delegation_handler k now rq u s = for_user rq u (\<lambda>c. queue_answer 200
     (\<lambda>(p, e). JObj [(''principalId'', JStr p), (''enabled'', JBool e)])
     (set_delegation_service now c (param ''principalId'' rq) (body_bool ''enabled'' False rq) s)) s"

section \<open>The routes\<close>

definition ack_route :: "http_env \<Rightarrow> time \<Rightarrow> request \<Rightarrow> backplane \<Rightarrow> jval reply \<times> backplane" where
  "ack_route k now = serve_route ack_contract no_transform (run_of k now) (ack_handler k now)"

definition nack_route :: "http_env \<Rightarrow> time \<Rightarrow> request \<Rightarrow> backplane \<Rightarrow> jval reply \<times> backplane" where
  "nack_route k now = serve_route nack_contract no_transform (run_of k now) (nack_handler k now)"

definition renew_route :: "http_env \<Rightarrow> time \<Rightarrow> request \<Rightarrow> backplane \<Rightarrow> jval reply \<times> backplane" where
  "renew_route k now = serve_route renew_contract no_transform (run_of k now) (renew_handler k now)"

definition hold_route :: "http_env \<Rightarrow> time \<Rightarrow> request \<Rightarrow> backplane \<Rightarrow> jval reply \<times> backplane" where
  "hold_route k now = serve_route hold_contract no_transform (run_of k now) (hold_handler k now)"

definition begin_effect_route :: "http_env \<Rightarrow> time \<Rightarrow> request \<Rightarrow> backplane \<Rightarrow> jval reply \<times> backplane" where
  "begin_effect_route k now = serve_route begin_effect_contract no_transform (run_of k now) (begin_effect_handler k now)"

definition claim_route :: "http_env \<Rightarrow> time \<Rightarrow> request \<Rightarrow> backplane \<Rightarrow> jval reply \<times> backplane" where
  "claim_route k now = serve_route claim_contract no_transform (run_of k now) (claim_handler k now)"

definition recover_route :: "http_env \<Rightarrow> time \<Rightarrow> request \<Rightarrow> backplane \<Rightarrow> jval reply \<times> backplane" where
  "recover_route k now = serve_route recover_contract no_transform (run_of k now) (recover_handler k now)"

definition create_queue_route :: "http_env \<Rightarrow> time \<Rightarrow> request \<Rightarrow> backplane \<Rightarrow> jval reply \<times> backplane" where
  "create_queue_route k now = serve_route create_queue_contract no_transform (run_of k now) (create_queue_handler k now)"

definition get_message_route :: "http_env \<Rightarrow> time \<Rightarrow> request \<Rightarrow> backplane \<Rightarrow> jval reply \<times> backplane" where
  "get_message_route k now = serve_route get_message_contract no_transform (principal_of k now) (get_message_handler k now)"

definition cancel_route :: "http_env \<Rightarrow> time \<Rightarrow> request \<Rightarrow> backplane \<Rightarrow> jval reply \<times> backplane" where
  "cancel_route k now = serve_route cancel_contract (no_authorization ''recovery_forbidden'') (user_of k) (cancel_handler k now)"

definition replay_route :: "http_env \<Rightarrow> time \<Rightarrow> request \<Rightarrow> backplane \<Rightarrow> jval reply \<times> backplane" where
  "replay_route k now = serve_route replay_contract (no_authorization ''recovery_forbidden'') (user_of k) (replay_handler k now)"

definition release_route :: "http_env \<Rightarrow> time \<Rightarrow> request \<Rightarrow> backplane \<Rightarrow> jval reply \<times> backplane" where
  "release_route k now = serve_route release_contract (no_authorization ''recovery_forbidden'') (user_of k) (release_handler k now)"

definition reconcile_route :: "http_env \<Rightarrow> time \<Rightarrow> request \<Rightarrow> backplane \<Rightarrow> jval reply \<times> backplane" where
  "reconcile_route k now = serve_route reconcile_contract evidence_bound (actor_of k now) (reconcile_handler k now)"

definition delegation_route :: "http_env \<Rightarrow> time \<Rightarrow> request \<Rightarrow> backplane \<Rightarrow> jval reply \<times> backplane" where
  "delegation_route k now = serve_route delegation_contract (no_authorization ''reconciliation_forbidden'') (user_of k) (delegation_handler k now)"

text \<open>The send route reads its own body: JSON only, chunk by chunk, never more than 524288 bytes.\<close>

fun read_chunks :: "int \<Rightarrow> int \<Rightarrow> string list \<Rightarrow> string list \<Rightarrow> string list option" where
  "read_chunks limit bytes [] acc = Some acc"
| "read_chunks limit bytes (c # cs) acc =
     (if limit < bytes + octets c then None else read_chunks limit (bytes + octets c) cs (acc @ [c]))"

definition parse_send :: "http_env \<Rightarrow> request \<Rightarrow> (nat \<times> string) + jval" where
  "parse_send k rq =
     (if map_option (takeWhile (\<lambda>c. c \<noteq> CHR '';'')) (header ''content-type'' rq) \<noteq> Some ''application/json''
      then Inl (422, ''invalid_input'')
      else (case rq_chunks rq of
              None \<Rightarrow> Inl (422, ''invalid_input'')
            | Some cs \<Rightarrow>
                (case read_chunks 524288 0 cs [] of
                   None \<Rightarrow> Inl (413, ''payload_too_large'')
                 | Some parts \<Rightarrow> of_option (422, ''invalid_input'') (he_json k (concat parts)))))"

definition payload_present :: "request \<Rightarrow> (nat \<times> string) option" where
  "payload_present rq = (if has_field ''payload'' (rq_body rq) then None else Some (422, ''invalid_input''))"

definition send_message_route :: "http_env \<Rightarrow> time \<Rightarrow> request \<Rightarrow> backplane \<Rightarrow> jval reply \<times> backplane" where
  "send_message_route k now rq s =
     (case parse_send k rq of
        Inl (n, e) \<Rightarrow> (Refusal n e, s)
      | Inr v \<Rightarrow> serve_route send_message_contract payload_present (run_of k now) (send_message_handler k now)
                   (rq\<lparr>rq_body := v\<rparr>) s)"

end
