(* ===== verification/LedgerFrames.thy ===== *)
theory LedgerFrames
  imports LedgerReach
begin

text \<open>What the queue functions leave alone: Messages are written once, by \<open>send_message\<close>, and
  never changed or removed, and every Message names the Principal and the Run that sent it.\<close>

named_theorems keeps_messages \<open>operations that leave the Messages as they are\<close>

lemma with_table_messages [keeps_messages]: "with_table p f s = Inr (x, s') \<Longrightarrow> lg_messages s' = lg_messages s"
  by (auto simp: with_table_def split: option.splits prod.splits)

lemma hide_messages [keeps_messages]: "hide_until p i at s = Inr s' \<Longrightarrow> lg_messages s' = lg_messages s"
  by (auto simp: hide_until_def with_table_def ebind_Inr_iff split: option.splits if_splits prod.splits)

lemma retire_messages [keeps_messages]: "retire p i s = Inr s' \<Longrightarrow> lg_messages s' = lg_messages s"
  by (auto simp: retire_def with_table_def ebind_Inr_iff split: option.splits if_splits prod.splits)

lemma put_messages [simp]: "lg_messages (put_delivery d s) = lg_messages s"
  by (simp add: put_delivery_def)

lemma settle_messages [keeps_messages]: "settle now v d s = Inr (d', s') \<Longrightarrow> lg_messages s' = lg_messages s"
  by (auto simp: settle_def ebind_Inr_iff dest!: hide_messages retire_messages split: option.splits if_splits)

lemma insert_messages [keeps_messages]:
  "insert_delivery now w n m i ch parent attempt mx s = (d, s') \<Longrightarrow> lg_messages s' = lg_messages s"
  by (auto simp: insert_delivery_def draw_uuid_def add_delivery_def Let_def split: option.splits)

lemma resend_messages [keeps_messages]: "resend now w d old body s = Inr (n, s') \<Longrightarrow> lg_messages s' = lg_messages s"
  by (auto simp: resend_def ebind_Inr_iff dest!: with_table_messages insert_messages split: option.splits)

lemma receipt_verb_messages [keeps_messages]: "receipt_verb E w i h v s = Inr (x, s') \<Longrightarrow> lg_messages s' = lg_messages s"
  by (auto simp: receipt_verb_def ebind_Inr_iff Let_def dest!: settle_messages hide_messages
      split: option.splits if_splits)

lemma pause_all_messages [keeps_messages]: "pause_all now ds s = Inr (evs, s') \<Longrightarrow> lg_messages s' = lg_messages s"
  by (induction ds arbitrary: s evs) (auto simp: ebind_Inr_iff dest!: retire_messages split: option.splits)

lemma restore_all_messages [keeps_messages]: "restore_all now w ds s = Inr (evs, s') \<Longrightarrow> lg_messages s' = lg_messages s"
  by (induction ds arbitrary: s evs)
    (auto simp: ebind_Inr_iff restore_one_def Let_def dest!: retire_messages hide_messages split: option.splits if_splits)

lemma redispatch_messages [keeps_messages]: "redispatch E w i st k s = Inr (x, s') \<Longrightarrow> lg_messages s' = lg_messages s"
  by (auto simp: redispatch_def ebind_Inr_iff dest!: resend_messages split: option.splits)

lemma cancel_messages [keeps_messages]:
  assumes "cancel E w i f reason s = Inr (x, s')"
  shows "lg_messages s' = lg_messages s"
proof -
  obtain d r where d: "locked_delivery E w i True s = Inr d" "reason = Some r"
    using assms by (auto simp: cancel_def ebind_Inr_iff split: option.splits)
  then show ?thesis using assms
    by (cases "physical_queue s w (dl_queue d)") (auto simp: cancel_def ebind_Inr_iff Let_def dest!: retire_messages)
qed

lemma begin_effect_messages [keeps_messages]:
  assumes r: "begin_effect sha E w i h a t s = Inr (x, s')"
  shows "lg_messages s' = lg_messages s"
proof -
  obtain d where d: "fenced_delivery E w i h s = Inr d" using r by (auto simp: begin_effect_def ebind_Inr_iff)
  show ?thesis using r d
    by (cases "effect_of s (dl_message d)") (auto simp: begin_effect_def Let_def split: option.splits if_splits)
qed

lemma reconcile_messages [keeps_messages]:
  assumes "reconcile E w i decision evidence s = Inr (x, s')"
  shows "lg_messages s' = lg_messages s"
proof -
  obtain rc evs where x: "x = (rc, evs)" by (cases x)
  show ?thesis using reconcileD [OF assms [unfolded x]]
  proof (elim disjE exE conjE)
    fix c d dec ev suc s1
    assume h: "decide E w dec d s = Inr (suc, s1)" "record_decision E w c d dec ev suc s1 = ((rc, evs), s')"
    have "lg_messages s1 = lg_messages s" using h(1)
      by (cases dec) (auto simp: decide_def ebind_Inr_iff reset_effect_def dest!: resend_messages split: option.splits)
    then show ?thesis using h(2) by (auto simp: record_decision_def draw_uuid_def Let_def)
  qed simp
qed

text \<open>A Message that is new names its producer.\<close>

definition named :: "message \<Rightarrow> bool" where
  "named m \<longleftrightarrow> ms_producer m \<noteq> None \<and> ms_run m \<noteq> None"

lemma queue_context_named: "queue_context E w = Inr c \<Longrightarrow> bc_principal c \<noteq> None \<and> bc_run c \<noteq> None"
  by (auto simp: queue_context_def split: option.splits if_splits)

lemma send_messages:
  assumes "send_message sha E w n key body s = Inr ((m, inserted, bytes), s')"
  shows "lg_messages s' = (if inserted then lg_messages s @ [m] else lg_messages s)
    \<and> (if inserted then named m else m \<in> set (lg_messages s))"
proof (cases key)
  case k: (Some k)
  show ?thesis
  proof (cases body)
    case p: (Some p)
    show ?thesis
    proof (cases "message_by_key s w n k")
      case None
      then show ?thesis using assms k p
        by (cases "queue_of s w n")
          (auto simp: send_message_def ebind_Inr_iff Let_def draw_uuid_def named_def
            dest!: with_table_messages queue_context_named)
    next
      case (Some x)
      then have "x \<in> set (lg_messages s)" by (auto simp: message_by_key_def find_Some_iff in_set_conv_nth)
      then show ?thesis using assms k p Some
        by (cases "queue_of s w n") (auto simp: send_message_def ebind_Inr_iff Let_def split: if_splits)
    qed
  qed (use assms k in \<open>auto simp: send_message_def ebind_Inr_iff\<close>)
qed (use assms in \<open>auto simp: send_message_def ebind_Inr_iff\<close>)

lemma step_messages:
  assumes "ledger_step sha E op s s'" "ledger_ok s"
  shows "lg_messages s' = lg_messages s \<or> (\<exists>m. lg_messages s' = lg_messages s @ [m] \<and> named m)"
  using assms(1)
proof (cases rule: ledger_step.cases)
  case step
  show ?thesis
  proof (cases op)
    case (Op_create w n)
    then show ?thesis using step by (auto simp: after_Inr create_queue_def ebind_Inr_iff Let_def)
  next
    case (Op_send w n k p)
    then obtain m b l where "send_message sha E w n k p s = Inr ((m, b, l), s')" using step by (auto simp: after_Inr)
    then show ?thesis using send_messages by (cases b) fastforce+
  next
    case (Op_claim w n h)
    then obtain r evs where "claim E w n h s = Inr ((r, evs), s')" using step by (auto simp: after_Inr)
    then show ?thesis using claim_ok(1) [OF assms(2)] by (auto simp: good_def frame_def)
  next
    case (Op_renew w i h)
    then show ?thesis using step by (auto simp: after_Inr renew_def dest: keeps_messages)
  next
    case (Op_ack w i h)
    then show ?thesis using step by (auto simp: after_Inr ack_def dest: keeps_messages)
  next
    case (Op_nack w i h)
    then show ?thesis using step by (auto simp: after_Inr nack_def dest: keeps_messages)
  next
    case (Op_hold w i h)
    then show ?thesis using step
      by (auto simp: after_Inr hold_def ebind_Inr_iff Let_def dest!: retire_messages split: option.splits)
  next
    case (Op_begin w i h a t)
    then show ?thesis using step by (auto simp: after_Inr dest: keeps_messages)
  next
    case (Op_pause w p)
    then show ?thesis using step by (auto simp: after_Inr pause_effects_def dest!: pause_all_messages split: option.splits)
  next
    case (Op_replay w i)
    then show ?thesis using step by (auto simp: after_Inr replay_def dest: keeps_messages)
  next
    case (Op_release w i)
    then show ?thesis using step by (auto simp: after_Inr release_def dest: keeps_messages)
  next
    case (Op_cancel w i f r)
    then show ?thesis using step by (auto simp: after_Inr dest: keeps_messages)
  next
    case (Op_ensure w k)
    then show ?thesis using step
      by (auto simp: after_Inr ensure_delivery_def ebind_Inr_iff dest!: insert_messages split: option.splits if_splits prod.splits)
  next
    case (Op_reconcile w i d e)
    then show ?thesis using step by (auto simp: after_Inr dest: keeps_messages)
  next
    case (Op_finish w i n a)
    then show ?thesis using step by (auto simp: after_Inr elim!: finish_result)
  next
    case (Op_restore e w k)
    then show ?thesis using step
      by (auto simp: after_Inr restore_batch_def ebind_Inr_iff dest!: restore_all_messages split: option.splits)
  qed
qed

lemma reachable_named: "reachable sha s \<Longrightarrow> \<forall>m\<in>set (lg_messages s). named m"
proof (induction rule: reachable.induct)
  case (run s E op s')
  then show ?case using step_messages [OF run.hyps(2) reachable_ledger_ok [OF run.hyps(1)]] by auto
qed (simp add: empty_ledger_def)

end
