(* ===== verification/QueueReplies.thy ===== *)
theory QueueReplies
  imports QueueRoutes LedgerFrames
begin

text \<open>What the adapters answer is what the routes declare: the JSON of every successful reply
  satisfies its response schema, and every failure has a declared status.\<close>

section \<open>Values\<close>

lemma hex_digits_ok: "length (hex_digits k n) = k \<and> list_all is_hex (hex_digits k n)"
proof (induction k arbitrary: n)
  case (Suc k)
  have "nat (n mod 16) < 16" by simp
  then have "hex_digit n \<in> set ''0123456789abcdef''"
    unfolding hex_digit_def by (intro nth_mem) simp
  then show ?case using Suc by (simp add: is_hex_def)
qed simp

lemma hex_any: "is_hex c \<Longrightarrow> is_hex_any c"
  by (auto simp: is_hex_def is_hex_any_def)

lemma hex_block:
  assumes "list_all Q t" "length t = n"
  shows "list_all2 (\<lambda>p c. if p = CHR ''-'' then c = CHR ''-'' else Q c) (replicate n (CHR ''x'')) t"
  using assms by (auto simp: list_all2_conv_all_nth list_all_length)

lemma uuid_text_pattern:
  assumes Q: "\<And>c. is_hex c \<Longrightarrow> Q c"
  shows "list_all2 (\<lambda>p c. if p = CHR ''-'' then c = CHR ''-'' else Q c) uuid_pattern (uuid_text n)"
proof -
  define h where "h = hex_digits 32 (int n)"
  have h: "length h = 32" "list_all is_hex h" using hex_digits_ok [of 32 "int n"] by (simp_all add: h_def)
  let ?P = "\<lambda>p c. if p = CHR ''-'' then c = CHR ''-'' else Q c"
  have sub: "list_all Q t" if "set t \<subseteq> set h" for t using h(2) that Q by (auto simp: list_all_iff)
  have part: "list_all2 ?P (replicate i (CHR ''x'')) (take i (drop j h))" if "i + j \<le> 32" for i j
    by (rule hex_block [OF sub]) (use h(1) that set_drop_subset [of j h] set_take_subset [of i "drop j h"] in auto)
  have dash: "list_all2 ?P ''-'' ''-''" by simp
  have first: "list_all2 ?P (replicate 8 (CHR ''x'')) (take 8 h)" using part [of 8 0] by simp
  have "list_all2 ?P (replicate 12 (CHR ''x'')) (drop 20 h)" using part [of 12 20] h(1) by simp
  note parts = first part [of 4 8, simplified] part [of 4 12, simplified] part [of 4 16, simplified] this
  have pat: "uuid_pattern = replicate 8 (CHR ''x'') @ ''-'' @ replicate 4 (CHR ''x'') @ ''-'' @ replicate 4 (CHR ''x'')
      @ ''-'' @ replicate 4 (CHR ''x'') @ ''-'' @ replicate 12 (CHR ''x'')"
    by (simp add: uuid_pattern_def numeral_eq_Suc)
  show ?thesis
    unfolding uuid_text_def Let_def pat h_def [symmetric]
    by (rule list_all2_appendI [OF parts(1) list_all2_appendI [OF dash list_all2_appendI [OF parts(2)
        list_all2_appendI [OF dash list_all2_appendI [OF parts(3) list_all2_appendI [OF dash
        list_all2_appendI [OF parts(4) list_all2_appendI [OF dash parts(5)]]]]]]]])
qed

lemma uuid_text_is_uuid: "is_uuid (uuid_text n)"
  unfolding is_uuid_def by (rule uuid_text_pattern) (rule hex_any)

lemma lower_hex: "is_hex_any c \<Longrightarrow> lower_char c \<noteq> CHR ''u''"
  by (auto simp: is_hex_any_def)

lemma uuid_format_text: "uuid_format (uuid_text n)"
proof -
  have u: "list_all2 (\<lambda>p c. if p = CHR ''-'' then c = CHR ''-'' else is_hex_any c) uuid_pattern (uuid_text n)"
    using uuid_text_is_uuid [of n] by (simp add: is_uuid_def)
  have "is_hex_any (uuid_text n ! 0)" using list_all2_nthD [OF u, of 0] by (simp add: uuid_pattern_def)
  moreover obtain c r where c: "uuid_text n = c # r"
    using list_all2_lengthD [OF u] by (cases "uuid_text n") (simp_all add: uuid_pattern_def)
  ultimately have "lower_char c \<noteq> CHR ''u''" using lower_hex by simp
  then have "take 9 (to_lower (uuid_text n)) \<noteq> ''urn:uuid:''"
    by (simp add: c to_lower_def take_Cons' del: lower_char.simps)
  then show ?thesis using uuid_text_is_uuid by (simp add: uuid_format_def)
qed

text \<open>The clocks print RFC 3339 and the digest prints 64 hexadecimal digits.\<close>

definition lawful :: "http_env \<Rightarrow> bool" where
  "lawful k \<longleftrightarrow> (\<forall>t. date_time_format (he_time k t)) \<and> (\<forall>t. date_time_format (he_iso k t))
     \<and> (\<forall>x. hex64 (cr_sha (he_crypto k) x))"

lemmas field_simps_http = required_def optional_def

named_theorems json_ok \<open>values that satisfy the schema of their kind\<close>

lemma valid_uuid [json_ok]: "valid s_uuid (j_uuid u)"
  by (simp add: s_uuid_def j_uuid_def within_def uuid_format_text)

lemma valid_any [json_ok]: "valid s_any (JStr t)"
  by (simp add: s_any_def within_def any_text_def)

lemma valid_opt [json_ok]: "(\<And>x. valid s (f x)) \<Longrightarrow> j_opt f v = JNull \<or> valid s (j_opt f v)"
  by (simp add: j_opt_def split: option.splits)

lemma valid_time [json_ok]: "lawful k \<Longrightarrow> valid s_time (j_time k t)" "lawful k \<Longrightarrow> valid s_time (j_iso k t)"
  by (simp_all add: lawful_def s_time_def j_time_def j_iso_def within_def)

lemma valid_some [json_ok]: "v \<noteq> None \<Longrightarrow> (\<And>x. valid s (f x)) \<Longrightarrow> valid s (j_opt f v)"
  by (auto simp: j_opt_def)

lemma valid_state [json_ok]: "valid s_state (JStr (dstate_text st))"
  by (cases st) (simp_all add: s_state_def)

definition sound_row :: "delivery \<Rightarrow> bool" where
  "sound_row d \<longleftrightarrow> 1 \<le> dl_attempt d \<and> 1 \<le> dl_max d"

lemma row_ok_sound: "row_ok d \<Longrightarrow> sound_row d"
  by (simp add: row_ok_def sound_row_def)

lemma valid_envelope:
  assumes "lawful k" "sound_row d"
  shows "valid envelope_schema (envelope_json k (serialize_delivery d))"
  unfolding envelope_schema_def envelope_json_def serialize_delivery_def required_def
  using assms(2) by (simp add: json_ok assms(1) sound_row_def within_def)

section \<open>What a successful adapter ran\<close>

lemma settled_run:
  assumes "settle_service now c kind objs s (with_run_context now c work s) = (Inr x, s')"
  obtains b s1 where "bound_by c b" "bp_ledger s1 = bp_ledger s" "work b s1 = Inr (x, s')"
proof (cases "with_run_context now c work s")
  case (Inl e)
  then show ?thesis using assms by (simp add: settle_service_def split: prod.splits)
next
  case (Inr r)
  then have r: "with_run_context now c work s = Inr (x, s')" using assms by (cases r) (simp add: settle_service_def)
  show ?thesis
  proof (cases "bind_context now c s")
    case (Inl e)
    then show ?thesis using r by (simp add: with_run_context_def)
  next
    case (Inr q)
    obtain b s1 where q: "q = (b, s1)" by (cases q)
    note B = bind_contextD [OF Inr [unfolded q]]
    show ?thesis
      by (rule that [of b "touch_run now (ctx_run c) s1"]) (use B Inr q r in \<open>simp_all add: with_run_context_def\<close>)
  qed
qed

lemma called:
  assumes "call_queue now b f s = Inr (x, s')"
  obtains l where "f (env_of now b s) (bp_ledger s) = Inr (x, l)" "bp_ledger s' = l"
  using assms by (auto simp: call_queue_def split: sum.splits prod.splits)

lemma queue_called:
  assumes "queue_call now b f s = Inr (x, s')"
  obtains evs l where "f (env_of now b s) (bp_ledger s) = Inr ((x, evs), l)"
  using assms by (auto simp: queue_call_def ebind_Inr_iff elim!: called)

section \<open>Receipt verbs\<close>

lemma verb_state:
  assumes "ledger_ok s" "v \<in> {Ack, Nack}" "receipt_verb E w i h v s = Inr ((d, evs), s')"
  shows "\<exists>x. dl_state d = settled_state v x"
  by (rule receipt_verb_settles [OF assms]) (auto simp: settled_def)

lemma verb_result:
  assumes "receipt_verb_service digest now c i h v s = (Inr d, s')" "ledger_ok (bp_ledger s)"
  shows "v = Ack \<Longrightarrow> dl_state d = Succeeded"
    and "v = Nack \<Longrightarrow> dl_state d \<in> {Scheduled, Dead_lettered, Ambiguous}"
    and "v = Renew \<Longrightarrow> dl_lease d \<noteq> None"
proof -
  obtain b s1 where b: "bp_ledger s1 = bp_ledger s" "receipt_verb_in digest now b (ctx_ws c) i h v s1 = Inr (d, s')"
    using assms(1) settled_run unfolding receipt_verb_service_def by metis
  have ok: "ledger_ok (bp_ledger s1)" using b(1) assms(2) by simp
  obtain u where u: "queue_call now b (\<lambda>E l. if v = Renew then renew E (ctx_ws c) u (Some (digest h)) l
      else if v = Ack then ack E (ctx_ws c) u (Some (digest h)) l
      else nack E (ctx_ws c) u (Some (digest h)) l) s1 = Inr (d, s')"
    using b(2) unfolding receipt_verb_in_def with_uuid_Inr by blast
  obtain evs l where r: "(if v = Renew then renew (env_of now b s1) (ctx_ws c) u (Some (digest h)) (bp_ledger s1)
      else if v = Ack then ack (env_of now b s1) (ctx_ws c) u (Some (digest h)) (bp_ledger s1)
      else nack (env_of now b s1) (ctx_ws c) u (Some (digest h)) (bp_ledger s1)) = Inr ((d, evs), l)"
    using queue_called [OF u] by blast
  show "v = Ack \<Longrightarrow> dl_state d = Succeeded"
    using r verb_state [OF ok, of Ack] by (fastforce simp: ack_def settled_state_def)
  show "dl_state d \<in> {Scheduled, Dead_lettered, Ambiguous}" if "v = Nack"
  proof -
    have "receipt_verb (env_of now b s1) (ctx_ws c) u (Some (digest h)) Nack (bp_ledger s1) = Inr ((d, evs), l)"
      using r that by (simp add: nack_def)
    then obtain x where "dl_state d = settled_state Nack x" using verb_state [OF ok] by blast
    then show ?thesis by (simp add: settled_state_def)
  qed
  show "v = Renew \<Longrightarrow> dl_lease d \<noteq> None"
    using r by (auto simp: renew_def receipt_verb_def ebind_Inr_iff Let_def split: option.splits)
qed

section \<open>Rows\<close>

lemma hold_sound:
  assumes "ledger_ok s" "hold E w i h s = Inr ((d, evs), s')"
  shows "sound_row d"
  using hold_result [OF assms] dl_row row_ok_sound by blast

lemma cancel_sound:
  assumes ok: "ledger_ok s" and r: "cancel E w i f reason s = Inr ((d, evs), s')"
  shows "sound_row d"
proof -
  obtain x q where x: "locked_delivery E w i True s = Inr x" "reason = Some q"
    using r by (auto simp: cancel_def ebind_Inr_iff split: option.splits)
  then have "x \<in> set (lg_deliveries s)"
    by (auto simp: locked_delivery_def ebind_Inr_iff dest: delivery_inD split: option.splits if_splits)
  moreover have "d = cancelled (en_now E) x"
    using r x by (cases "physical_queue s w (dl_queue x)") (auto simp: cancel_def ebind_Inr_iff Let_def)
  ultimately show ?thesis using row_ok_sound [OF dl_row [OF ok]] by (auto simp: sound_row_def cancelled_def)
qed

lemma resend_sound: "resend now w d old body s = Inr (n, s') \<Longrightarrow> sound_row n"
  by (auto simp: resend_def ebind_Inr_iff sound_row_def dest: insert_deliveryD(6) insert_deliveryD(7) split: option.splits)

lemma redispatch_sound: "redispatch E w i st k s = Inr ((d, evs), s') \<Longrightarrow> sound_row d"
  by (auto simp: redispatch_def ebind_Inr_iff dest!: resend_sound split: option.splits)

lemma begin_result:
  assumes ok: "ledger_ok s" and r: "begin_effect sha E w i h (Some a) (Some t) s = Inr ((x, evs), s')"
  shows "be_key x = effect_key sha w a t \<and> be_at x \<noteq> None"
proof -
  obtain d where d: "fenced_delivery E w i h s = Inr d" using r by (auto simp: begin_effect_def ebind_Inr_iff)
  have e: "dl_state d = Begun \<Longrightarrow> dl_effect d \<noteq> None"
    using dl_row [OF ok fenced_deliveryD(1) [OF d]] by (auto simp: row_ok_def)
  show ?thesis using r d e
    by (cases "effect_of s (dl_message d)")
      (auto simp: begin_effect_def Let_def begun_result_def start_effect_def split: if_splits)
qed

lemma ensure_all_bound: "ensure_all now b w ms n s = Inr (m, s') \<Longrightarrow> m \<le> n + length ms"
  by (induction ms arbitrary: n s) (fastforce simp: ebind_Inr_iff split: if_splits)+

section \<open>Sessions and adapters keep the server well formed\<close>

lemma server_ok_keys [simp]: "server_ok k (s\<lparr>bp_keys := ks\<rparr>) = server_ok k s"
  by (simp add: server_ok_def audit_ok_def positions_def last_position_def)

lemma key_session_inv: "server_ok k (snd (key_session digest now rq ws s)) = server_ok k s"
  by (auto simp: key_session_def touch_principal_key_def Let_def split: option.splits prod.splits key_decision.splits)

lemma resolve_principal_inv: "server_ok k (snd (resolve_principal digest now rq s)) = server_ok k s"
  by (auto simp: resolve_principal_def key_session_inv split: invocation_check.splits)

lemma admission_snd: "snd (admission rq r) = snd r"
  by (auto simp: admission_def split: prod.splits sum.splits)

lemma run_stage_snd:
  "snd (case r of (Inl e, s') \<Rightarrow> (Inl e, s') | (Inr who, s') \<Rightarrow> (resolve_run rq who s', s')) = snd r"
  by (auto split: prod.splits sum.splits)

lemma sessions_inv:
  "server_ok q (snd (run_of k now rq s)) = server_ok q s"
  "server_ok q (snd (principal_of k now rq s)) = server_ok q s"
  "server_ok q (snd (user_of k rq s)) = server_ok q s"
  "server_ok q (snd (actor_of k now rq s)) = server_ok q s"
  by (auto simp: run_of_def run_session_def principal_of_def principal_session_def admission_snd run_stage_snd
      resolve_principal_inv user_of_def user_session_def actor_of_def decision_session_def key_session_inv Let_def
      split: option.splits invocation_check.splits)

lemma sessions_declared:
  "fst (run_of k now rq s) = Inl (n, e) \<Longrightarrow> n \<in> {400, 401, 403, 503}"
  "fst (principal_of k now rq s) = Inl (n, e) \<Longrightarrow> n \<in> {401, 403, 503}"
  "fst (user_of k rq s) = Inl (n, e) \<Longrightarrow> n \<in> {401, 403}"
  "fst (actor_of k now rq s) = Inl (n, e) \<Longrightarrow> n \<in> {400, 401, 403, 422, 503}"
  unfolding run_of_def principal_of_def user_of_def actor_of_def
  by (rule run_session_status principal_session_status user_session_status decision_session_status, assumption)+

lemma service_inv:
  assumes "server_ok q s"
  shows "server_ok q (snd (ack_service (cr_digest q) now c i h s))"
    "server_ok q (snd (nack_service (cr_digest q) now c i h s))"
    "server_ok q (snd (renew_service (cr_digest q) now c i h s))"
    "server_ok q (snd (hold_service (cr_digest q) now c i h s))"
    "server_ok q (snd (begin_effect_service (cr_sha q) (cr_digest q) now c i h a t s))"
    "server_ok q (snd (claim_service (cr_digest q) now c i h s))"
    "server_ok q (snd (recover_service now c i s))"
    "server_ok q (snd (create_queue_service (cr_sha q) now c i s))"
    "server_ok q (snd (send_message_service (cr_sha q) (cr_jsonb q) now c i h v s))"
    "server_ok q (snd (cancel_service now c i f r s))"
    "server_ok q (snd (replay_service now c i s))"
    "server_ok q (snd (release_service now c i s))"
    "server_ok q (snd (reconcile_service now c i h a s))"
    "server_ok q (snd (set_delegation_service now c i f s))"
  using serve_queue_ok [OF assms, of now c "Rq_ack i h"] serve_queue_ok [OF assms, of now c "Rq_nack i h"]
    serve_queue_ok [OF assms, of now c "Rq_renew i h"] serve_queue_ok [OF assms, of now c "Rq_hold i h"]
    serve_queue_ok [OF assms, of now c "Rq_begin i h a t"] serve_queue_ok [OF assms, of now c "Rq_claim i h"]
    serve_queue_ok [OF assms, of now c "Rq_recover i"] serve_queue_ok [OF assms, of now c "Rq_create i"]
    serve_queue_ok [OF assms, of now c "Rq_send i h v"] serve_queue_ok [OF assms, of now c "Rq_cancel i f r"]
    serve_queue_ok [OF assms, of now c "Rq_replay i"] serve_queue_ok [OF assms, of now c "Rq_release i"]
    serve_queue_ok [OF assms, of now c "Rq_reconcile i h a"] serve_queue_ok [OF assms, of now c "Rq_delegate i f"]
  by (simp_all add: reason_of_def)

lemma server_ledger_ok: "server_ok q s \<Longrightarrow> ledger_ok (bp_ledger s)"
  by (auto simp: server_ok_def intro: reachable_ledger_ok)

section \<open>Answers\<close>

lemma queue_status_declared: "queue_error_status e \<in> set queue_errors"
  by (simp add: queue_error_status_def queue_errors_def)

lemma answer_snd [simp]: "snd (queue_answer n f r) = snd r"
  by (auto simp: queue_answer_def split: prod.splits sum.splits)

lemma answer_conforms:
  assumes "rt_errors c = queue_errors" "map_of (rt_replies c) n = Some sch"
    and "\<And>x s'. r = (Inr x, s') \<Longrightarrow> valid sch (f x)"
  shows "conforms c (fst (queue_answer n f r))"
  using assms queue_status_declared by (auto simp: queue_answer_def split: prod.splits sum.splits)

lemma for_user_conforms:
  assumes "rt_errors c = queue_errors" "\<And>w. conforms c (fst (g (User_context w u)))"
  shows "conforms c (fst (for_user rq u g s))"
  using assms by (auto simp: for_user_def queue_errors_def split: option.splits)

lemma for_user_inv: "server_ok q s \<Longrightarrow> (\<And>w. server_ok q (snd (g (User_context w u)))) \<Longrightarrow> server_ok q (snd (for_user rq u g s))"
  by (auto simp: for_user_def split: option.splits)

lemma no_authorization_status: "no_authorization e rq = Some (n, e') \<Longrightarrow> n = 403"
  by (auto simp: no_authorization_def split: if_splits)

section \<open>Handlers\<close>

lemmas run_contract_defs = run_contract_def user_contract_def post_contract_def

lemma mapped_reply:
  assumes "QueueServices.map_reply f r = (Inr x, s')"
  obtains d where "r = (Inr d, s')" "x = f d"
  using assms by (cases r; cases "fst r") (auto simp: QueueServices.map_reply_def)

lemma ack_conforms:
  assumes "lawful k" "server_ok (he_crypto k) s"
  shows "conforms ack_contract (fst (ack_handler k now rq c s))"
  unfolding ack_handler_def
proof (rule answer_conforms)
  fix x s' assume "ack_service (cr_digest (he_crypto k)) now c (param ''deliveryId'' rq) (body_text ''receipt'' rq) s = (Inr x, s')"
  then obtain d where "receipt_verb_service (cr_digest (he_crypto k)) now c (param ''deliveryId'' rq) (body_text ''receipt'' rq) Ack s
      = (Inr d, s')" "x = (dl_id d, dl_state d)"
    unfolding ack_service_def by (rule mapped_reply)
  then show "valid ack_response ((\<lambda>(i, st). JObj [(''deliveryId'', j_uuid i), (''state'', JStr (dstate_text st))]) x)"
    using verb_result(1) [OF _ server_ledger_ok [OF assms(2)]] by (simp add: ack_response_def required_def json_ok)
qed (simp_all add: ack_contract_def run_contract_defs)

lemma nack_conforms:
  assumes "lawful k" "server_ok (he_crypto k) s"
  shows "conforms nack_contract (fst (nack_handler k now rq c s))"
  unfolding nack_handler_def
proof (rule answer_conforms)
  fix x s' assume "nack_service (cr_digest (he_crypto k)) now c (param ''deliveryId'' rq) (body_text ''receipt'' rq) s = (Inr x, s')"
  then obtain d where d: "receipt_verb_service (cr_digest (he_crypto k)) now c (param ''deliveryId'' rq) (body_text ''receipt'' rq) Nack s
      = (Inr d, s')" "x = (dl_id d, dl_state d, dl_next d)"
    unfolding nack_service_def by (rule mapped_reply)
  have "dl_state d \<in> {Scheduled, Dead_lettered, Ambiguous}"
    using verb_result(2) [OF d(1) server_ledger_ok [OF assms(2)]] by simp
  then show "valid nack_response ((\<lambda>(i, st, nx). JObj [(''deliveryId'', j_uuid i), (''state'', JStr (dstate_text st)),
      (''nextAttemptAt'', j_opt (j_time k) nx)]) x)"
    using assms(1) d(2) by (auto simp: nack_response_def required_def json_ok)
qed (simp_all add: nack_contract_def run_contract_defs)

lemma renew_conforms:
  assumes "lawful k" "server_ok (he_crypto k) s"
  shows "conforms renew_contract (fst (renew_handler k now rq c s))"
  unfolding renew_handler_def
proof (rule answer_conforms)
  fix x s' assume "renew_service (cr_digest (he_crypto k)) now c (param ''deliveryId'' rq) (body_text ''receipt'' rq) s = (Inr x, s')"
  then obtain d where d: "receipt_verb_service (cr_digest (he_crypto k)) now c (param ''deliveryId'' rq) (body_text ''receipt'' rq) Renew s
      = (Inr d, s')" "x = (dl_id d, dl_lease d)"
    unfolding renew_service_def by (rule mapped_reply)
  have "dl_lease d \<noteq> None" using verb_result(3) [OF d(1) server_ledger_ok [OF assms(2)]] by simp
  then show "valid renew_response ((\<lambda>(i, l). JObj [(''deliveryId'', j_uuid i), (''leaseExpiresAt'', j_opt (j_time k) l)]) x)"
    using assms(1) d(2) by (simp add: renew_response_def required_def json_ok)
qed (simp_all add: renew_contract_def run_contract_defs)

text \<open>The four routes that answer a whole Delivery.\<close>

lemma queue_envelope:
  assumes "ebind (queue_call now b f s1) (\<lambda>(x, s'). Inr (serialize_delivery x, s')) = Inr (y, s2)" "lawful k"
    and "\<And>E l d evs l'. l = bp_ledger s1 \<Longrightarrow> f E l = Inr ((d, evs), l') \<Longrightarrow> sound_row d"
  shows "valid envelope_schema (envelope_json k y)"
proof -
  obtain d s3 where d: "queue_call now b f s1 = Inr (d, s3)" "y = serialize_delivery d"
    using assms(1) by (auto simp: ebind_Inr_iff)
  obtain evs l where "f (env_of now b s1) (bp_ledger s1) = Inr ((d, evs), l)" using queue_called [OF d(1)] .
  then show ?thesis using valid_envelope [OF assms(2) assms(3)] d(2) by blast
qed

lemma hold_conforms:
  assumes "lawful k" "server_ok (he_crypto k) s"
  shows "conforms hold_contract (fst (hold_handler k now rq c s))"
  unfolding hold_handler_def
proof (rule answer_conforms)
  fix x s' assume "hold_service (cr_digest (he_crypto k)) now c (param ''deliveryId'' rq) (body_text ''receipt'' rq) s = (Inr x, s')"
  then obtain b s1 where b: "bp_ledger s1 = bp_ledger s"
    "hold_in (cr_digest (he_crypto k)) now b (ctx_ws c) (param ''deliveryId'' rq) (body_text ''receipt'' rq) s1 = Inr (x, s')"
    unfolding hold_service_def by (elim settled_run)
  show "valid envelope_schema (envelope_json k x)"
    using b(2) queue_envelope [OF _ assms(1)] hold_sound [OF server_ledger_ok [OF assms(2)]] b(1)
    unfolding hold_in_def with_uuid_Inr by metis
qed (simp_all add: hold_contract_def run_contract_defs)

lemma cancel_conforms:
  assumes "lawful k" "server_ok (he_crypto k) s"
  shows "conforms cancel_contract (fst (cancel_handler k now rq u s))"
  unfolding cancel_handler_def
proof (intro for_user_conforms answer_conforms)
  fix w x s' assume "cancel_service now (User_context w u) (param ''deliveryId'' rq) (body_bool ''force'' False rq)
      (body_text ''reason'' rq) s = (Inr x, s')"
  then obtain b s1 v where b: "bp_ledger s1 = bp_ledger s"
    "ebind (queue_call now b (\<lambda>E. cancel E w v (Some (body_bool ''force'' False rq)) (Some (body_text ''reason'' rq))) s1)
       (\<lambda>(x, s2). Inr (serialize_delivery x, s2)) = Inr (x, s')"
    unfolding cancel_service_def by (elim settled_run) (auto simp: user_guard_Inr with_uuid_Inr)
  show "valid envelope_schema (envelope_json k x)"
    using queue_envelope [OF b(2) assms(1)] cancel_sound [OF server_ledger_ok [OF assms(2)]] b(1) by metis
qed (simp_all add: cancel_contract_def run_contract_defs)

lemma replay_conforms:
  assumes "lawful k"
  shows "conforms replay_contract (fst (replay_handler k now rq u s))"
  unfolding replay_handler_def
proof (intro for_user_conforms answer_conforms)
  fix w x s' assume "replay_service now (User_context w u) (param ''deliveryId'' rq) s = (Inr x, s')"
  then obtain b s1 v where b: "ebind (queue_call now b (\<lambda>E. replay E w v) s1) (\<lambda>(x, s2). Inr (serialize_delivery x, s2)) = Inr (x, s')"
    unfolding replay_service_def by (elim settled_run) (auto simp: replay_in_def user_guard_Inr with_uuid_Inr)
  show "valid envelope_schema (envelope_json k x)"
    using queue_envelope [OF b assms] redispatch_sound unfolding replay_def by metis
qed (simp_all add: replay_contract_def run_contract_defs)

lemma release_conforms:
  assumes "lawful k"
  shows "conforms release_contract (fst (release_handler k now rq u s))"
  unfolding release_handler_def
proof (intro for_user_conforms answer_conforms)
  fix w x s' assume "release_service now (User_context w u) (param ''deliveryId'' rq) s = (Inr x, s')"
  then obtain b s1 v where b: "ebind (queue_call now b (\<lambda>E. release E w v) s1) (\<lambda>(x, s2). Inr (serialize_delivery x, s2)) = Inr (x, s')"
    unfolding release_service_def by (elim settled_run) (auto simp: release_in_def user_guard_Inr with_uuid_Inr)
  show "valid envelope_schema (envelope_json k x)"
    using queue_envelope [OF b assms] redispatch_sound unfolding release_def by metis
qed (simp_all add: release_contract_def run_contract_defs)

lemma begin_effect_conforms:
  assumes "lawful k" "server_ok (he_crypto k) s"
  shows "conforms begin_effect_contract (fst (begin_effect_handler k now rq c s))"
  unfolding begin_effect_handler_def
proof (rule answer_conforms)
  let ?a = "body_text ''action'' rq" and ?t = "body_text ''destination'' rq" and ?h = "body_text ''receipt'' rq"
  fix x s' assume "begin_effect_service (cr_sha (he_crypto k)) (cr_digest (he_crypto k)) now c (param ''deliveryId'' rq)
      ?h ?a ?t s = (Inr x, s')"
  then obtain b s1 d where b: "bp_ledger s1 = bp_ledger s"
    "queue_call now b (\<lambda>E. begin_effect (cr_sha (he_crypto k)) E (ctx_ws c) d (Some (cr_digest (he_crypto k) ?h)) (Some ?a) (Some ?t)) s1
      = Inr (x, s')"
    unfolding begin_effect_service_def by (elim settled_run) (auto simp: with_uuid_Inr)
  obtain evs l where "begin_effect (cr_sha (he_crypto k)) (env_of now b s1) (ctx_ws c) d (Some (cr_digest (he_crypto k) ?h))
      (Some ?a) (Some ?t) (bp_ledger s) = Inr ((x, evs), l)"
    using queue_called [OF b(2)] b(1) by metis
  from begin_result [OF server_ledger_ok [OF assms(2)] this]
  have x: "be_at x \<noteq> None" "hex64 (be_key x)" using assms(1) by (simp_all add: effect_key_def lawful_def)
  show "valid begin_effect_response (JObj [(''deliveryId'', j_uuid (be_delivery x)), (''messageId'', j_uuid (be_message x)),
        (''effectKey'', JStr (be_key x)), (''state'', JStr ''begun''), (''begunAt'', j_opt (j_time k) (be_at x))])"
    using x assms(1) by (simp add: begin_effect_response_def required_def json_ok within_def)
qed (simp_all add: begin_effect_contract_def run_contract_defs)

lemma claim_conforms:
  assumes "lawful k" "server_ok (he_crypto k) s"
  shows "conforms claim_contract (fst (claim_handler k now rq c s))"
  unfolding claim_handler_def
proof (rule answer_conforms)
  let ?h = "Some (cr_digest (he_crypto k) (he_random k))" and ?n = "param ''queue'' rq"
  fix x s' assume "claim_service (cr_digest (he_crypto k)) now c ?n (he_random k) s = (Inr x, s')"
  then obtain b s1 where b: "bp_ledger s1 = bp_ledger s"
    "claim_in (cr_digest (he_crypto k)) now b (ctx_ws c) ?n (he_random k) s1 = Inr (x, s')"
    unfolding claim_service_def by (elim settled_run)
  then obtain r s2 where r: "queue_call now b (\<lambda>E. claim E (ctx_ws c) ?n ?h) s1 = Inr (r, s2)"
    "x = map_option (\<lambda>(d, body). \<lparr>cl_delivery = dl_id d, cl_message = dl_message d, cl_attempt = dl_attempt d,
       cl_receipt = he_random k, cl_lease = dl_lease d, cl_payload = body\<rparr>) r"
    by (auto simp: claim_in_def ebind_Inr_iff)
  obtain evs l where c: "claim (env_of now b s1) (ctx_ws c) ?n ?h (bp_ledger s) = Inr ((r, evs), l)"
    using queue_called [OF r(1)] b(1) by metis
  note ok = server_ledger_ok [OF assms(2)]
  have row: "1 \<le> dl_attempt d \<and> dl_lease d \<noteq> None" if "r = Some (d, body)" for d body
    using claim_ok(2) [OF ok c that] claim_ledger_ok [OF ok c] dl_row row_ok_sound
    by (fastforce simp: claimed_def sound_row_def)
  show "valid (S_nullable claim_response) (claim_json k x)"
    using row r(2) assms(1)
    by (cases r) (auto simp: claim_json_def claim_response_def required_def within_def intro!: json_ok)
qed (simp_all add: claim_contract_def run_contract_defs)

lemma recover_conforms: "conforms recover_contract (fst (recover_handler k now rq c s))"
  unfolding recover_handler_def
proof (rule answer_conforms)
  fix x s' assume r: "recover_service now c (param ''queue'' rq) s = (Inr x, s')"
  let ?ms = "take 32 (recover_candidates (bp_ledger s) (ctx_ws c) (param ''queue'' rq))"
  have "queue_of (bp_ledger s) (ctx_ws c) (param ''queue'' rq) \<noteq> None"
    using r by (cases "queue_of (bp_ledger s) (ctx_ws c) (param ''queue'' rq)")
      (auto simp: recover_service_def settle_service_def split: prod.splits)
  then obtain b s1 where "ebind (ensure_all now b (ctx_ws c) ?ms 0 s1) (\<lambda>(created, s2).
      Inr ((created, recover_candidates (bp_ledger s2) (ctx_ws c) (param ''queue'' rq) \<noteq> []), s2)) = Inr (x, s')"
    using r unfolding recover_service_def by (auto elim!: settled_run)
  then obtain n s2 more where n: "ensure_all now b (ctx_ws c) ?ms 0 s1 = Inr (n, s2)" "x = (n, more)"
    by (auto simp: ebind_Inr_iff)
  have "n \<le> 32" using ensure_all_bound [OF n(1)] by simp
  then show "valid recover_response ((\<lambda>(n, more). JObj [(''created'', JInt (int n)), (''hasMore'', JBool more)]) x)"
    using n(2) by (simp add: recover_response_def required_def within_def)
qed (simp_all add: recover_contract_def run_contract_defs)

lemma create_queue_conforms:
  assumes "lawful k"
  shows "conforms create_queue_contract (fst (create_queue_handler k now rq c s))"
  using assms
  by (auto simp: create_queue_handler_def create_queue_contract_def post_contract_def bare_errors_def
      queue_response_def required_def json_ok split: prod.splits sum.splits)

lemma valid_message:
  assumes "lawful k" "named m"
  shows "valid message_response (JObj (message_json k m))"
    and "valid get_message_response (JObj (message_json k m @ [(''payload'', v)]))"
  using assms by (simp_all add: message_response_def get_message_response_def message_fields_def message_json_def
      required_def json_ok named_def)

lemma valid_quota:
  "qf_operation q = None \<or> (\<exists>i. qf_operation q = Some i \<and> i \<le> 15) \<Longrightarrow> valid quota_response (quota_json k q)"
  by (cases "qf_resource q")
    (auto simp: quota_response_def quota_json_def required_def optional_def within_def s_any_def j_iso_def any_text_def)

lemma meter_add_operation: "meter_add r n i m = Inl q \<Longrightarrow> qf_operation q = i"
  by (auto simp: meter_add_def Let_def split: if_splits)

lemma meter_step_over: "meter_step r n i m = Inl (Over_quota q) \<Longrightarrow> qf_operation q = i"
  by (cases "meter_add r n i m") (auto simp: meter_step_def dest: meter_add_operation)

lemma send_result:
  assumes "server_ok q s" "send_message_service (cr_sha q) (cr_jsonb q) now c n key v s = (r, s')"
  shows "(\<forall>m i. r = Inr (m, i) \<longrightarrow> named m) \<and> (\<forall>e f. r = Inl (e, Some f) \<longrightarrow> qf_operation f = None)"
proof -
  define work where "work = (\<lambda>b s1. (let m = quota_accounting now c s1 in
      ebind (send_message_in (cr_sha q) (cr_jsonb q) now b (ctx_ws c) n key v s1) (\<lambda>(r, s2).
      ebind (meter_step Queue_sends (if snd r then 1 else 0) None m) (\<lambda>m'. Inr (r, meter_commit m' s2)))))"
  have old: "\<forall>m\<in>set (lg_messages (bp_ledger s)). named m"
    using assms(1) reachable_named by (auto simp: server_ok_def)
  have sent: "named m" if pr: "bp_ledger s1 = bp_ledger s" "work b s1 = Inr ((m, i), s2)" for b s1 m i s2
  proof -
    obtain s3 where "send_message_in (cr_sha q) (cr_jsonb q) now b (ctx_ws c) n key v s1 = Inr ((m, i), s3)"
      using pr(2) by (auto simp: work_def Let_def ebind_Inr_iff)
    then obtain p bytes s4 where "call_queue now b (\<lambda>E. send_message (cr_sha q) E (ctx_ws c) n (Some key) (Some p)) s1
        = Inr ((m, i, bytes), s4)"
      by (cases "cr_jsonb q v") (auto simp: send_message_in_def ebind_Inr_iff Let_def)
    then obtain l where "send_message (cr_sha q) (env_of now b s1) (ctx_ws c) n (Some key) (Some p) (bp_ledger s)
        = Inr ((m, i, bytes), l)" using pr(1) by (auto elim: called)
    then show ?thesis using send_messages old by (metis (full_types))
  qed
  have over: "qf_operation f = None" if "work b s1 = Inl (Over_quota f)" for b s1 f
  proof -
    have "send_message_in (cr_sha q) (cr_jsonb q) now b (ctx_ws c) n key v s1 \<noteq> Inl (Over_quota f)"
      by (auto simp: send_message_in_def ensure_in_def queue_call_def call_queue_def ebind_Inl_iff Let_def
          split: option.splits sum.splits)
    then show ?thesis using that
      by (auto simp: work_def Let_def ebind_Inl_iff dest: meter_step_over)
  qed
  have run: "send_message_service (cr_sha q) (cr_jsonb q) now c n key v s =
     (case with_run_context now c work s of
        Inr (r, s') \<Rightarrow> (Inr r, s')
      | Inl (Over_quota q) \<Rightarrow> (Inl (''queue_unavailable'', Some q),
          record_rejection now (Some c) ''queue.send'' [n] ''quota_exceeded'' None s)
      | Inl e \<Rightarrow> (case queue_error e of (reason, state) \<Rightarrow>
          (Inl (reason, None), record_rejection now (Some c) ''queue.send'' [n] reason state s)))"
    unfolding send_message_service_def work_def ..
  show ?thesis
  proof (cases "bind_context now c s")
    case (Inl e)
    then show ?thesis using assms(2) unfolding run by (auto simp: with_run_context_def split: prod.splits)
  next
    case (Inr p)
    obtain b s1 where p: "p = (b, s1)" by (cases p)
    let ?s1 = "touch_run now (ctx_run c) s1"
    have l: "bp_ledger ?s1 = bp_ledger s" using bind_contextD(2) [OF Inr [unfolded p]] by simp
    show ?thesis
    proof (cases "work b ?s1")
      case (Inr x)
      obtain m i s2 where x: "x = ((m, i), s2)" by (cases x) auto
      have "r = Inr (m, i)" using assms(2) Inr x \<open>bind_context now c s = Inr p\<close> p unfolding run
        by (simp add: with_run_context_def)
      then show ?thesis using sent [OF l Inr [unfolded x]] by simp
    next
      case (Inl e)
      then show ?thesis using assms(2) over [of b ?s1] \<open>bind_context now c s = Inr p\<close> p unfolding run
        by (cases e) (auto simp: with_run_context_def split: prod.splits)
    qed
  qed
qed

lemma send_conforms:
  assumes "lawful k" "server_ok (he_crypto k) s"
  shows "conforms send_message_contract (fst (send_message_handler k now rq c s))"
proof -
  obtain r s' where r: "send_message_service (cr_sha (he_crypto k)) (cr_jsonb (he_crypto k)) now c (param ''queue'' rq)
      (body_text ''idempotencyKey'' rq) (the (jfield ''payload'' (rq_body rq))) s = (r, s')" by fastforce
  show ?thesis using send_result [OF assms(2) r] valid_message(1) [OF assms(1)] valid_quota [of _ k]
    by (cases r)
      (auto simp: send_message_handler_def r send_message_contract_def post_contract_def split: option.splits)
qed

lemma get_message_conforms:
  assumes "lawful k" "server_ok (he_crypto k) s"
  shows "conforms get_message_contract (fst (get_message_handler k now rq who s))"
proof -
  have "named m" if "get_message_service now w n i s = Inr (m, b)" for w n i m b
  proof -
    have "m \<in> set (lg_messages (bp_ledger s))" using that
      by (auto simp: get_message_service_def find_Some_iff in_set_conv_nth split: option.splits sum.splits)
    then show ?thesis using assms(2) reachable_named by (auto simp: server_ok_def)
  qed
  then show ?thesis using valid_message(2) [OF assms(1)]
    by (auto simp: get_message_handler_def get_message_contract_def split: option.splits sum.splits)
qed

lemma delegation_result:
  assumes "set_delegation_service now c p e s = (Inr x, s')"
  shows "x = (p, e)"
proof -
  obtain b s1 where "set_delegation_in now c p e b s1 = Inr (x, s')"
    using assms unfolding set_delegation_service_def by (elim settled_run)
  then obtain q where q: "(case set_reconciliation_delegation (env_of now b s1) (ctx_ws c) q e (bp_ctl s1) of
      Inl e \<Rightarrow> Inl (Sql e)
    | Inr (changed, ct) \<Rightarrow> (let s1 = s1\<lparr>bp_ctl := ct\<rparr> in Inr ((p, e), (case changed of None \<Rightarrow> s1
        | Some m \<Rightarrow> snd (emit now b ''reconciliation.delegation'' [p] (Some 1)
            [(''enabled'', JBool e), (''memberId'', JStr m)] s1))))) = Inr (x, s')"
    by (auto simp: set_delegation_in_def Let_def with_uuid_Inr split: if_splits)
  then show ?thesis
    by (cases "set_reconciliation_delegation (env_of now b s1) (ctx_ws c) q e (bp_ctl s1)") (auto simp: Let_def)
qed

lemma delegation_conforms:
  assumes "validates delegation_contract rq"
  shows "conforms delegation_contract (fst (delegation_handler k now rq u s))"
  unfolding delegation_handler_def
proof (intro for_user_conforms answer_conforms)
  have "valid delegation_params (rq_params rq)"
    using assms by (simp add: validates_def delegation_contract_def run_contract_defs)
  then have p: "valid s_uuid (JStr (param ''principalId'' rq))"
    by (auto simp: delegation_params_def required_def param_def s_uuid_def split: jval.splits option.splits)
  fix w x s' assume "set_delegation_service now (User_context w u) (param ''principalId'' rq) (body_bool ''enabled'' False rq) s
      = (Inr x, s')"
  then have "x = (param ''principalId'' rq, body_bool ''enabled'' False rq)" by (rule delegation_result)
  then show "valid delegation_response ((\<lambda>(p, e). JObj [(''principalId'', JStr p), (''enabled'', JBool e)]) x)"
    using p by (simp add: delegation_response_def required_def)
qed (simp_all add: delegation_contract_def run_contract_defs)

section \<open>The routes keep their contracts\<close>

lemma run_route_contract:
  assumes "{400, 401, 403, 422, 503} \<subseteq> set (rt_errors c)" "\<And>rq n e. pre rq = Some (n, e) \<Longrightarrow> n = 422"
    and "\<And>rq x s. server_ok q s \<Longrightarrow> conforms c (fst (h rq x s))" "\<And>rq x s. server_ok q s \<Longrightarrow> server_ok q (snd (h rq x s))"
  shows "route_contract c pre (run_of k now) h (server_ok q)"
proof
  show "n \<in> set (rt_errors c)" if "fst (run_of k now rq s) = Inl (n, e)" for rq s n e
    using sessions_declared(1) [OF that] assms(1) by auto
  show "n \<in> set (rt_errors c)" if "pre rq = Some (n, e)" for rq n e using assms(1) assms(2) [OF that] by simp
qed (use assms in \<open>auto simp: sessions_inv\<close>)

lemma user_route_contract:
  assumes "rt_errors c = queue_errors"
    and "\<And>rq x s. server_ok q s \<Longrightarrow> validates c rq \<Longrightarrow> conforms c (fst (h rq x s))"
    and "\<And>rq x s. server_ok q s \<Longrightarrow> server_ok q (snd (h rq x s))"
  shows "route_contract c (no_authorization t) (user_of k) h (server_ok q)"
proof
  show "n \<in> set (rt_errors c)" if "fst (user_of k rq s) = Inl (n, e)" for rq s n e
    using sessions_declared(3) [OF that] assms(1) by (auto simp: queue_errors_def)
  show "n \<in> set (rt_errors c)" if "no_authorization t rq = Some (n, e)" for rq n e
    using no_authorization_status [OF that] assms(1) by (simp add: queue_errors_def)
qed (use assms in \<open>auto simp: sessions_inv queue_errors_def\<close>)

lemma no_transform_status: "no_transform rq = Some (n, e) \<Longrightarrow> n = 422"
  by (simp add: no_transform_def)

lemma payload_present_status: "payload_present rq = Some (n, e) \<Longrightarrow> n = 422"
  by (simp add: payload_present_def split: if_splits)

locale lawful_server =
  fixes k :: http_env and now :: time
  assumes env_lawful: "lawful k"

sublocale lawful_server \<subseteq> ack: route_contract ack_contract no_transform "run_of k now" "ack_handler k now" "server_ok (he_crypto k)"
  by (rule run_route_contract [OF _ no_transform_status ack_conforms [OF env_lawful]])
    (simp_all add: ack_contract_def run_contract_defs queue_errors_def ack_handler_def service_inv)

sublocale lawful_server \<subseteq> nack: route_contract nack_contract no_transform "run_of k now" "nack_handler k now" "server_ok (he_crypto k)"
  by (rule run_route_contract [OF _ no_transform_status nack_conforms [OF env_lawful]])
    (simp_all add: nack_contract_def run_contract_defs queue_errors_def nack_handler_def service_inv)

sublocale lawful_server \<subseteq> renew: route_contract renew_contract no_transform "run_of k now" "renew_handler k now" "server_ok (he_crypto k)"
  by (rule run_route_contract [OF _ no_transform_status renew_conforms [OF env_lawful]])
    (simp_all add: renew_contract_def run_contract_defs queue_errors_def renew_handler_def service_inv)

sublocale lawful_server \<subseteq> hold: route_contract hold_contract no_transform "run_of k now" "hold_handler k now" "server_ok (he_crypto k)"
  by (rule run_route_contract [OF _ no_transform_status hold_conforms [OF env_lawful]])
    (simp_all add: hold_contract_def run_contract_defs queue_errors_def hold_handler_def service_inv)

sublocale lawful_server \<subseteq> begin_effect: route_contract begin_effect_contract no_transform "run_of k now" "begin_effect_handler k now" "server_ok (he_crypto k)"
  by (rule run_route_contract [OF _ no_transform_status begin_effect_conforms [OF env_lawful]])
    (simp_all add: begin_effect_contract_def run_contract_defs queue_errors_def begin_effect_handler_def service_inv)

sublocale lawful_server \<subseteq> claim: route_contract claim_contract no_transform "run_of k now" "claim_handler k now" "server_ok (he_crypto k)"
  by (rule run_route_contract [OF _ no_transform_status claim_conforms [OF env_lawful]])
    (simp_all add: claim_contract_def run_contract_defs queue_errors_def claim_handler_def service_inv)

sublocale lawful_server \<subseteq> recover: route_contract recover_contract no_transform "run_of k now" "recover_handler k now" "server_ok (he_crypto k)"
  by (rule run_route_contract [OF _ no_transform_status recover_conforms])
    (simp_all add: recover_contract_def run_contract_defs queue_errors_def recover_handler_def service_inv)

lemma create_handler_inv: "server_ok (he_crypto k) s \<Longrightarrow> server_ok (he_crypto k) (snd (create_queue_handler k now rq c s))"
  using service_inv(8) [of "he_crypto k" s now c "body_text ''name'' rq"]
  by (auto simp: create_queue_handler_def split: prod.splits sum.splits)

lemma send_handler_inv:
  assumes "server_ok (he_crypto k) s"
  shows "server_ok (he_crypto k) (snd (send_message_handler k now rq c s))"
proof -
  obtain r s' where r: "send_message_service (cr_sha (he_crypto k)) (cr_jsonb (he_crypto k)) now c (param ''queue'' rq)
      (body_text ''idempotencyKey'' rq) (the (jfield ''payload'' (rq_body rq))) s = (r, s')" by fastforce
  have "server_ok (he_crypto k) s'"
    using service_inv(9) [OF assms, of now c "param ''queue'' rq" "body_text ''idempotencyKey'' rq"
      "the (jfield ''payload'' (rq_body rq))"] by (simp add: r)
  then show ?thesis by (cases r) (auto simp: send_message_handler_def r split: option.splits)
qed

sublocale lawful_server \<subseteq> create: route_contract create_queue_contract no_transform "run_of k now" "create_queue_handler k now" "server_ok (he_crypto k)"
  by (rule run_route_contract [OF _ no_transform_status create_queue_conforms [OF env_lawful] create_handler_inv])
    (simp_all add: create_queue_contract_def post_contract_def bare_errors_def)

sublocale lawful_server \<subseteq> send: route_contract send_message_contract payload_present "run_of k now" "send_message_handler k now" "server_ok (he_crypto k)"
  by (rule run_route_contract [OF _ payload_present_status send_conforms [OF env_lawful] send_handler_inv])
    (simp_all add: send_message_contract_def post_contract_def)

sublocale lawful_server \<subseteq> get: route_contract get_message_contract no_transform "principal_of k now" "get_message_handler k now" "server_ok (he_crypto k)"
proof
  show "n \<in> set (rt_errors get_message_contract)" if "fst (principal_of k now rq s) = Inl (n, e)" for rq s n e
    using sessions_declared(2) [OF that] by (auto simp: get_message_contract_def)
  show "server_ok (he_crypto k) (snd (get_message_handler k now rq a s))" if "server_ok (he_crypto k) s" for rq a s
    using that by (auto simp: get_message_handler_def split: option.splits sum.splits)
qed (use get_message_conforms [OF env_lawful] in \<open>auto simp: sessions_inv get_message_contract_def no_transform_def\<close>)

sublocale lawful_server \<subseteq> cancel: route_contract cancel_contract "no_authorization ''recovery_forbidden''" "user_of k" "cancel_handler k now" "server_ok (he_crypto k)"
  by (rule user_route_contract [OF _ cancel_conforms [OF env_lawful]])
    (simp_all add: cancel_contract_def run_contract_defs cancel_handler_def for_user_inv service_inv)

sublocale lawful_server \<subseteq> replay: route_contract replay_contract "no_authorization ''recovery_forbidden''" "user_of k" "replay_handler k now" "server_ok (he_crypto k)"
  by (rule user_route_contract [OF _ replay_conforms [OF env_lawful]])
    (simp_all add: replay_contract_def run_contract_defs replay_handler_def for_user_inv service_inv)

sublocale lawful_server \<subseteq> release: route_contract release_contract "no_authorization ''recovery_forbidden''" "user_of k" "release_handler k now" "server_ok (he_crypto k)"
  by (rule user_route_contract [OF _ release_conforms [OF env_lawful]])
    (simp_all add: release_contract_def run_contract_defs release_handler_def for_user_inv service_inv)

sublocale lawful_server \<subseteq> delegate: route_contract delegation_contract "no_authorization ''reconciliation_forbidden''" "user_of k" "delegation_handler k now" "server_ok (he_crypto k)"
  by (rule user_route_contract [OF _ delegation_conforms])
    (simp_all add: delegation_contract_def run_contract_defs delegation_handler_def for_user_inv service_inv)

section \<open>All routes\<close>

datatype queue_route =
    Route_ack | Route_nack | Route_renew | Route_hold | Route_begin_effect | Route_claim | Route_recover
  | Route_create | Route_send | Route_get | Route_cancel | Route_replay | Route_release | Route_delegate

fun contract_of :: "queue_route \<Rightarrow> contract" where
  "contract_of Route_ack = ack_contract"
| "contract_of Route_nack = nack_contract"
| "contract_of Route_renew = renew_contract"
| "contract_of Route_hold = hold_contract"
| "contract_of Route_begin_effect = begin_effect_contract"
| "contract_of Route_claim = claim_contract"
| "contract_of Route_recover = recover_contract"
| "contract_of Route_create = create_queue_contract"
| "contract_of Route_send = send_message_contract"
| "contract_of Route_get = get_message_contract"
| "contract_of Route_cancel = cancel_contract"
| "contract_of Route_replay = replay_contract"
| "contract_of Route_release = release_contract"
| "contract_of Route_delegate = delegation_contract"

fun answer_route :: "http_env \<Rightarrow> time \<Rightarrow> queue_route \<Rightarrow> request \<Rightarrow> backplane \<Rightarrow> jval reply \<times> backplane" where
  "answer_route k now Route_ack = ack_route k now"
| "answer_route k now Route_nack = nack_route k now"
| "answer_route k now Route_renew = renew_route k now"
| "answer_route k now Route_hold = hold_route k now"
| "answer_route k now Route_begin_effect = begin_effect_route k now"
| "answer_route k now Route_claim = claim_route k now"
| "answer_route k now Route_recover = recover_route k now"
| "answer_route k now Route_create = create_queue_route k now"
| "answer_route k now Route_send = send_message_route k now"
| "answer_route k now Route_get = get_message_route k now"
| "answer_route k now Route_cancel = cancel_route k now"
| "answer_route k now Route_replay = replay_route k now"
| "answer_route k now Route_release = release_route k now"
| "answer_route k now Route_delegate = delegation_route k now"

lemma read_chunks_eq:
  "read_chunks limit bytes cs acc =
     (if limit < bytes + octets (concat cs) \<and> cs \<noteq> [] then None else Some (acc @ cs))"
  if "bytes \<le> limit"
  using that
proof (induction cs arbitrary: bytes acc)
  case (Cons c cs)
  show ?case
  proof (cases "limit < bytes + octets c")
    case True
    then show ?thesis by (simp add: octets_def)
  next
    case False
    then show ?thesis using Cons.IH [of "bytes + octets c" "acc @ [c]"]
      by (cases cs) (auto simp: octets_def algebra_simps)
  qed
qed simp

lemma parse_send_status: "parse_send k rq = Inl (n, e) \<Longrightarrow> n \<in> {413, 422}"
  by (auto simp: parse_send_def of_option_Inl_iff split: if_splits option.splits)

context lawful_server
begin

lemma send_route_conforms:
  assumes "server_ok (he_crypto k) s"
  shows "conforms send_message_contract (fst (send_message_route k now rq s))
    \<and> server_ok (he_crypto k) (snd (send_message_route k now rq s))"
proof (cases "parse_send k rq")
  case (Inl x)
  obtain n e where "x = (n, e)" by (cases x)
  then show ?thesis using Inl parse_send_status [of k rq n e] assms
    by (auto simp: send_message_route_def send_message_contract_def post_contract_def)
next
  case (Inr v)
  then show ?thesis using send.served_conforms [OF assms] by (simp add: send_message_route_def)
qed

lemma routes_conform:
  assumes "server_ok (he_crypto k) s"
  shows "conforms (contract_of r) (fst (answer_route k now r rq s)) \<and> server_ok (he_crypto k) (snd (answer_route k now r rq s))"
  by (cases r; simp only: contract_of.simps answer_route.simps)
    (simp_all only: ack_route_def nack_route_def renew_route_def hold_route_def begin_effect_route_def claim_route_def
      recover_route_def create_queue_route_def get_message_route_def cancel_route_def replay_route_def release_route_def
      delegation_route_def ack.served_conforms [OF assms] nack.served_conforms [OF assms] renew.served_conforms [OF assms]
      hold.served_conforms [OF assms] begin_effect.served_conforms [OF assms] claim.served_conforms [OF assms]
      recover.served_conforms [OF assms] create.served_conforms [OF assms] get.served_conforms [OF assms]
      cancel.served_conforms [OF assms] replay.served_conforms [OF assms] release.served_conforms [OF assms]
      delegate.served_conforms [OF assms] send_route_conforms [OF assms])

end

section \<open>A worked server\<close>

definition zeros :: "nat \<Rightarrow> string" where
  "zeros n = replicate n (CHR ''0'')"

definition demo_env :: http_env where
  "demo_env = \<lparr>he_crypto = \<lparr>cr_sha = (\<lambda>t. zeros 64), cr_digest = (\<lambda>t. zeros 32), cr_jsonb = (\<lambda>v. None)\<rparr>,
     he_cookie = (\<lambda>rq. Some ''ann''), he_trusted = ''https://backplane.test'', he_time = (\<lambda>t. ''2026-01-01T00:00:00.000000+00:00''),
     he_iso = (\<lambda>t. ''2026-01-01T00:00:00.000Z''), he_json = (\<lambda>t. None), he_random = ''receipt''\<rparr>"

interpretation demo: lawful_server demo_env 7
  by unfold_locales (simp add: lawful_def demo_env_def date_time_format_def clock_shape_def zone_ok_def is_digit_def
      hex64_def zeros_def is_hex_def numeral_eq_Suc)

definition demo_keyed :: backplane where
  "demo_keyed = (fresh_backplane demo_control)\<lparr>bp_ctl := demo_control, bp_deployed := [], bp_tokens := [],
     bp_keys := [\<lparr>ky_prefix = zeros 24, ky_ws = 1, ky_principal = 10, ky_hash = zeros 32, ky_created = 0,
                  ky_rotated = None, ky_used = None, ky_revoked = None\<rparr>], bp_quotas := []\<rparr>"

definition demo_create :: request where
  "demo_create = \<lparr>rq_method = ''POST'', rq_path = [], rq_headers =
       [(''authorization'', ''Bearer bp_'' @ zeros 24 @ ''_'' @ zeros 64), (''x-backplane-run'', uuid_text 20)],
     rq_params = JObj [(''workspaceId'', JStr (uuid_text 1))], rq_query = JNull,
     rq_body = JObj [(''name'', JStr ''jobs'')], rq_chunks = None, rq_admitted = True\<rparr>"

lemma demo_created: "fst (answer_route demo_env 7 Route_create demo_create demo_keyed) =
   Reply 201 (JObj [(''workspaceId'', JStr (uuid_text 1)), (''name'', JStr ''jobs''), (''createdAt'', JStr ''2026-01-01T00:00:00.000Z'')])"
  by code_simp

end
