(* ===== verification/RouteProps.thy ===== *)
theory RouteProps
  imports QueueReplies
begin

text \<open>The properties of the HTTP boundary of the queue.\<close>



section \<open>Authentication\<close>

lemma key_session_key:
  assumes "fst (key_session digest now rq ws s) = Inr (w, p, h)"
  obtains prefix secret key where "h = None" "parse_principal_key (header ''authorization'' rq) = Some (prefix, secret)"
    "key \<in> set (bp_keys s)" "ky_prefix key = prefix" "ky_ws key = w" "ky_principal key = p" "ky_revoked key = None"
    "ky_hash key = digest (unhex secret)" "to_lower ws = uuid_text w"
    "list_ex (\<lambda>x. pr_ws x = w \<and> pr_id x = p \<and> pr_active x) (ct_principals (bp_ctl s))"
proof -
  obtain prefix secret where ps: "parse_principal_key (header ''authorization'' rq) = Some (prefix, secret)"
    using assms by (cases "parse_principal_key (header ''authorization'' rq)") (auto simp: key_session_def)
  let ?row = "query_principal_key s prefix"
  have dec: "decide_principal_key ?row (verify_principal_secret digest secret (map_option kf_hash ?row)) = Key_authenticated p w"
    "h = None" "to_lower ws = uuid_text w"
    using assms ps by (auto simp: key_session_def Let_def split: key_decision.splits if_splits)
  then obtain f where f: "?row = Some f" "verify_principal_secret digest secret (Some (kf_hash f))" "kf_active f"
    "kf_revoked f = None" "kf_principal f = p" "kf_ws f = w"
    by (cases ?row) (auto simp: decide_principal_key_def split: if_splits)
  then obtain key x where k: "find (\<lambda>k. ky_prefix k = prefix) (bp_keys s) = Some key"
    "find (\<lambda>p. pr_ws p = ky_ws key \<and> pr_id p = ky_principal key) (ct_principals (bp_ctl s)) = Some x"
    "f = \<lparr>kf_principal = ky_principal key, kf_ws = ky_ws key, kf_active = pr_active x,
          kf_revoked = ky_revoked key, kf_hash = ky_hash key\<rparr>"
    by (auto simp: query_principal_key_def split: option.splits)
  have "key \<in> set (bp_keys s)" "ky_prefix key = prefix" "x \<in> set (ct_principals (bp_ctl s))" "pr_ws x = ky_ws key" "pr_id x = ky_principal key"
    using k(1,2) by (auto simp: find_Some_iff in_set_conv_nth)
  then show ?thesis
    by (intro that [of prefix secret key])
      (use k(3) f ps dec in \<open>auto simp: verify_principal_secret_def hash_principal_secret_def list_ex_iff\<close>)
qed

text \<open>What a caller proves: a key that is not revoked with the secret of its hash, or an unexpired
  invocation token of this restore epoch, for a Principal that is active.\<close>

definition proves_identity :: "(string \<Rightarrow> string) \<Rightarrow> time \<Rightarrow> request \<Rightarrow> backplane \<Rightarrow> uuid \<Rightarrow> uuid \<Rightarrow> string option \<Rightarrow> bool" where
  "proves_identity digest now rq s w p h \<longleftrightarrow>
     list_ex (\<lambda>x. pr_ws x = w \<and> pr_id x = p \<and> pr_active x) (ct_principals (bp_ctl s))
     \<and> (case h of
          None \<Rightarrow> (\<exists>prefix secret key. parse_principal_key (header ''authorization'' rq) = Some (prefix, secret)
            \<and> key \<in> set (bp_keys s) \<and> ky_prefix key = prefix \<and> ky_ws key = w \<and> ky_principal key = p
            \<and> ky_revoked key = None \<and> ky_hash key = digest (unhex secret))
        | Some x \<Rightarrow> (\<exists>t\<in>set (bp_tokens s). tk_hash t = x \<and> now < tk_expires t
            \<and> map_option to_lower (header ''x-backplane-run'' rq) = Some (uuid_text (tk_run t))
            \<and> x = digest (drop 7 (the (header ''authorization'' rq))) \<and> invocation_scope rq))"

lemma find_member: "find P xs = Some x \<Longrightarrow> x \<in> set xs \<and> P x"
  by (auto simp: find_Some_iff in_set_conv_nth)

lemma invocation_proves:
  assumes "invocation_credential digest now rq ws s = Invocation_of w p h"
  shows "proves_identity digest now rq s w p (Some h) \<and> uuid_text w = to_lower ws"
proof -
  obtain r where r: "invocation_row now h s = Some (w, p, r)" "h = digest (drop 7 (the (header ''authorization'' rq)))"
    "uuid_text w = to_lower ws" "map_option to_lower (header ''x-backplane-run'' rq) = Some (uuid_text r)" "invocation_scope rq"
    using assms by (auto simp: invocation_credential_def Let_def split: if_splits option.splits)
  obtain t where t: "find (\<lambda>t. tk_hash t = h \<and> now < tk_expires t) (bp_tokens s) = Some t"
    "map_of (ct_runs (bp_ctl s)) r = Some (w, p)" "tk_run t = r"
    "list_ex (\<lambda>x. pr_ws x = w \<and> pr_id x = p \<and> pr_active x) (ct_principals (bp_ctl s))"
    using r(1) by (auto simp: invocation_row_def split: option.splits if_splits)
  show ?thesis using r t find_member [OF t(1)] by (auto simp: proves_identity_def)
qed

lemma key_proves:
  assumes "fst (key_session digest now rq ws s) = Inr (w, p, h)"
  shows "proves_identity digest now rq s w p h \<and> uuid_text w = to_lower ws"
  by (rule key_session_key [OF assms]) (auto simp: proves_identity_def)

lemma principal_proves:
  assumes "fst (resolve_principal digest now rq s) = Inr (w, p, h)"
  shows "proves_identity digest now rq s w p h \<and> uuid_text w = to_lower (param ''workspaceId'' rq)"
proof (cases "invocation_credential digest now rq (param ''workspaceId'' rq) s")
  case (Invocation_of w' p' h')
  then show ?thesis using assms invocation_proves [OF Invocation_of] by (auto simp: resolve_principal_def)
qed (use assms key_proves in \<open>auto simp: resolve_principal_def\<close>)

lemma session_ctl: "bp_ctl (snd (resolve_principal digest now rq s)) = bp_ctl s"
  by (auto simp: resolve_principal_def key_session_def touch_principal_key_def Let_def
      split: invocation_check.splits option.splits prod.splits key_decision.splits)

lemma admission_Inr: "fst (admission rq r) = Inr c \<Longrightarrow> fst r = Inr c \<and> rq_admitted rq"
  by (auto simp: admission_def split: prod.splits sum.splits if_splits)

lemma resolve_run_owner: "resolve_run rq (w, p, h) s = Inr c \<Longrightarrow>
    \<exists>r. c = Principal_context w p r h \<and> map_of (ct_runs (bp_ctl s)) r = Some (w, p)"
  by (auto simp: resolve_run_def Let_def run_access_def query_run_access_def
      split: run_header.splits option.splits if_splits)

text \<open>C14: a handler of a Run route only runs for a caller that the server admitted and that proved
  its identity: the Workspace is the one of the path, and the Run it acts under is its own.\<close>

theorem run_session_authentic:
  assumes "fst (run_session digest now rq s) = Inr c"
  shows "\<exists>w p r h. c = Principal_context w p r h \<and> proves_identity digest now rq s w p h
    \<and> uuid_text w = to_lower (param ''workspaceId'' rq) \<and> map_of (ct_runs (bp_ctl s)) r = Some (w, p) \<and> rq_admitted rq"
proof -
  obtain x s' where x: "resolve_principal digest now rq s = (x, s')" by fastforce
  note a = admission_Inr [OF assms [unfolded run_session_def x]]
  then obtain w p h where w: "x = Inr (w, p, h)" by (cases x) auto
  obtain r where r: "c = Principal_context w p r h" "map_of (ct_runs (bp_ctl s')) r = Some (w, p)"
    using a w resolve_run_owner [of rq w p h s' c] by auto
  have "bp_ctl s' = bp_ctl s" using session_ctl [of digest now rq s] x by simp
  then show ?thesis using principal_proves [of digest now rq s w p h] x w r a by auto
qed

theorem run_session_authentic_witness:
  "fst (run_session (cr_digest (he_crypto demo_env)) 7 demo_create demo_keyed) = Inr (Principal_context 1 10 20 None)
   \<and> proves_identity (cr_digest (he_crypto demo_env)) 7 demo_create demo_keyed 1 10 None"
proof -
  have "fst (run_session (cr_digest (he_crypto demo_env)) 7 demo_create demo_keyed) = Inr (Principal_context 1 10 20 None)"
    by code_simp
  from this run_session_authentic [OF this] show ?thesis by auto
qed

section \<open>Bodies and quotas\<close>

text \<open>C15: reading the body chunk by chunk under the limit is the same as reading all of it first: a
  JSON request whose body exceeds 524288 bytes is \<open>payload_too_large\<close> wherever the chunks end, and
  any other body is parsed as the whole text.\<close>

theorem send_body_bounded:
  shows "parse_send k rq =
     (if map_option (takeWhile (\<lambda>c. c \<noteq> CHR '';'')) (header ''content-type'' rq) = Some ''application/json'' \<and> rq_chunks rq \<noteq> None
      then (let text = concat (the (rq_chunks rq)) in
        if 524288 < octets text then Inl (413, ''payload_too_large'')
        else of_option (422, ''invalid_input'') (he_json k text))
      else Inl (422, ''invalid_input''))"
proof (cases "rq_chunks rq")
  case (Some cs)
  have "read_chunks 524288 0 cs [] = (if 524288 < octets (concat cs) then None else Some cs)"
    by (cases cs) (simp_all add: read_chunks_eq octets_def)
  then show ?thesis using Some by (auto simp: parse_send_def Let_def)
qed (simp add: parse_send_def)

text \<open>C16: what a transaction commits to the usage of the minute is exactly what it added, and it
  keeps every resource it used within the limit of the Workspace.\<close>

theorem quota_respected:
  assumes "serving q s" "meter_adds cs (quota_accounting now (Principal_context w p u h) s) = Inr m"
  shows "used_of w p (resource_text r) (minute_start now) (bp_usage (meter_commit m s))
       = used_of w p (resource_text r) (minute_start now) (bp_usage s) + total_cost r cs
     \<and> (costs r cs \<longrightarrow> used_of w p (resource_text r) (minute_start now) (bp_usage (meter_commit m s))
       \<le> limit_of (read_quotas s w) r)"
proof -
  have "distinct (usage_keys (bp_usage s))" using serving_ok [OF assms(1)] by (simp add: server_ok_def)
  from quota_commit(1,2) [OF this assms(2)] show ?thesis by blast
qed

definition demo_meter :: meter where
  "demo_meter = (case meter_adds [(Queue_sends, 1, None), (Queue_sends, 2, None)]
     (quota_accounting 7 (Principal_context 1 10 20 None) demo_served) of Inr m \<Rightarrow> m | Inl q \<Rightarrow> undefined)"

theorem quota_respected_witness:
  "used_of 1 10 ''queue_sends'' (minute_start 7) (bp_usage (meter_commit demo_meter demo_served))
     = used_of 1 10 ''queue_sends'' (minute_start 7) (bp_usage demo_served) + 3
   \<and> used_of 1 10 ''queue_sends'' (minute_start 7) (bp_usage (meter_commit demo_meter demo_served)) \<le> 600"
proof -
  have s: "serving demo_crypto demo_served" unfolding demo_served_def by (intro serving.intros)
  have "\<not> isl (meter_adds [(Queue_sends, 1, None), (Queue_sends, 2, None)]
     (quota_accounting 7 (Principal_context 1 10 20 None) demo_served))" by code_simp
  then have "meter_adds [(Queue_sends, 1, None), (Queue_sends, 2, None)]
     (quota_accounting 7 (Principal_context 1 10 20 None) demo_served) = Inr demo_meter"
    unfolding demo_meter_def by (auto split: sum.splits)
  note R = quota_respected [OF s this, of Queue_sends]
  have "limit_of (read_quotas demo_served 1) Queue_sends = 600" by code_simp
  then show ?thesis using R by (simp add: costs_def)
qed

end
