(* ===== verification/Listing.thy ===== *)
theory Listing
  imports QueueReplies
begin

text \<open>The listings: pages of rows in the order of a key, continued by a cursor that names the last
  key of the page.  Cursors are base64url JSON bound to what is listed; reading and writing base64url
  JSON are the parameters \<open>cd_decode\<close> and \<open>cd_encode\<close>, the texts of timestamps with
  microseconds \<open>cd_stamp\<close> and \<open>cd_time\<close>.  SQL row comparison is the lexicographic order.\<close>

section \<open>Pages\<close>

text \<open>\<open>WHERE key > cursor ORDER BY key LIMIT limit + 1\<close>, of which \<open>limit\<close> are shown; the next
  cursor names the last shown when there was one more.\<close>

definition fetch :: "('r \<Rightarrow> 'k::linorder) \<Rightarrow> nat \<Rightarrow> 'k option \<Rightarrow> 'r list \<Rightarrow> 'r list" where
  "fetch key n cursor rows = take n (filter (\<lambda>r. case cursor of None \<Rightarrow> True | Some c \<Rightarrow> c < key r) (sort_key key rows))"

definition page :: "('r \<Rightarrow> 'k::linorder) \<Rightarrow> ('k \<Rightarrow> 'c) \<Rightarrow> nat \<Rightarrow> 'k option \<Rightarrow> 'r list \<Rightarrow> 'r list \<times> 'c option" where
  "page key enc limit cursor rows =
     (let found = fetch key (limit + 1) cursor rows; items = take limit found in
      (items, if limit < length found \<and> items \<noteq> [] then Some (enc (key (last items))) else None))"

text \<open>A client that follows the cursors; the number bounds how many pages it asks for.\<close>

fun walk :: "nat \<Rightarrow> ('c option \<Rightarrow> 'e + ('v list \<times> 'c option)) \<Rightarrow> 'c option \<Rightarrow> 'v list option" where
  "walk 0 serve cursor = None"
| "walk (Suc n) serve cursor =
     (case serve cursor of
        Inl e \<Rightarrow> None
      | Inr (items, None) \<Rightarrow> Some items
      | Inr (items, Some c) \<Rightarrow> map_option (\<lambda>rest. items @ rest) (walk n serve (Some c)))"

lemma sorted_filter_gt:
  assumes "sorted (map key xs)" "distinct (map key xs)" "i < length xs"
  shows "filter (\<lambda>r. key (xs ! i) < key r) xs = drop (Suc i) xs"
  using assms
proof (induction xs arbitrary: i)
  case (Cons x xs)
  show ?case
  proof (cases i)
    case 0
    have "key x < key r" if "r \<in> set xs" for r using Cons.prems(1,2) that by (auto simp: order.strict_iff_order)
    then show ?thesis using 0 by simp
  next
    case (Suc j)
    then have j: "j < length xs" using Cons.prems(3) by simp
    then have "xs ! j \<in> set xs" by simp
    then have "\<not> key (xs ! j) < key x" using Cons.prems(1) by (auto simp: not_less)
    then show ?thesis using Suc j Cons.IH [of j] Cons.prems by simp
  qed
qed simp

locale listing =
  fixes rows :: "'r list" and key :: "'r \<Rightarrow> 'k::linorder" and enc :: "'k \<Rightarrow> 'c" and limit :: nat
    and view :: "'r \<Rightarrow> 'v" and serve :: "'c option \<Rightarrow> 'e + ('v list \<times> 'c option)"
  assumes keys: "distinct (map key rows)" and limit: "0 < limit"
    and first: "serve None = Inr (map_prod (map view) id (page key enc limit None rows))"
    and onward: "r \<in> set rows \<Longrightarrow> serve (Some (enc (key r))) = Inr (map_prod (map view) id (page key enc limit (Some (key r)) rows))"
begin

definition ordered :: "'r list" where
  "ordered = sort_key key rows"

lemma ordered: "sorted (map key ordered)" "distinct (map key ordered)" "length ordered = length rows" "set ordered = set rows"
  using keys by (simp_all add: ordered_def distinct_map)

text \<open>The cursor after the first \<open>i\<close> rows, and the page it selects.\<close>

definition cursor_at :: "nat \<Rightarrow> 'c option" where
  "cursor_at i = (case i of 0 \<Rightarrow> None | Suc j \<Rightarrow> Some (enc (key (ordered ! j))))"

lemma served:
  assumes "i \<le> length rows"
  shows "serve (cursor_at i) = Inr (map view (take limit (drop i ordered)),
      if i + limit < length rows then cursor_at (i + limit) else None)"
proof -
  let ?found = "take (limit + 1) (drop i ordered)"
  have found: "fetch key (limit + 1) c rows = ?found"
    if "c = (case i of 0 \<Rightarrow> None | Suc j \<Rightarrow> Some (key (ordered ! j)))" for c
    using that sorted_filter_gt [OF ordered(1,2)] assms ordered(3)
    by (cases i) (simp_all add: fetch_def ordered_def [symmetric])
  have tk: "take limit ?found = take limit (drop i ordered)" by simp
  have more: "limit < length ?found \<longleftrightarrow> i + limit < length rows" using ordered(3) by auto
  have lst: "last (take limit (drop i ordered)) = ordered ! (i + limit - 1)" "take limit (drop i ordered) \<noteq> []"
    if "i + limit < length rows"
    using that limit ordered(3) by (auto simp: last_conv_nth)
  have nx: "cursor_at (i + limit) = Some (enc (key (ordered ! (i + limit - 1))))"
    using limit by (cases "i + limit") (auto simp: cursor_at_def)
  have pg: "page key enc limit c rows = (take limit (drop i ordered), if i + limit < length rows then cursor_at (i + limit) else None)"
    if "c = (case i of 0 \<Rightarrow> None | Suc j \<Rightarrow> Some (key (ordered ! j)))" for c
    unfolding page_def Let_def found [OF that] tk more using lst nx by auto
  show ?thesis
  proof (cases i)
    case 0
    then show ?thesis using first pg by (simp add: cursor_at_def)
  next
    case (Suc j)
    then have "ordered ! j \<in> set rows" using assms ordered(3,4) nth_mem [of j ordered] by simp
    from onward [OF this] show ?thesis using Suc pg by (simp add: cursor_at_def)
  qed
qed

lemma walk_from:
  assumes "i \<le> length rows" "length rows < n + i"
  shows "walk n serve (cursor_at i) = Some (map view (drop i ordered))"
  using assms
proof (induction n arbitrary: i)
  case (Suc n)
  show ?case
  proof (cases "i + limit < length rows")
    case True
    then have "walk n serve (cursor_at (i + limit)) = Some (map view (drop (i + limit) ordered))"
      using Suc.IH [of "i + limit"] Suc.prems limit by simp
    moreover obtain c where "cursor_at (i + limit) = Some c"
      using limit by (cases "i + limit") (auto simp: cursor_at_def)
    moreover have "drop i ordered = take limit (drop i ordered) @ drop (i + limit) ordered"
      by (metis append_take_drop_id drop_drop add.commute)
    ultimately show ?thesis using served [OF Suc.prems(1)] True
      by (simp add: map_append [symmetric] del: map_append)
  next
    case False
    then show ?thesis using served [OF Suc.prems(1)] ordered(3) by simp
  qed
qed simp

text \<open>Following the cursors shows every row once, in order, whatever the page size.\<close>

lemma walk_all: "walk (Suc (length rows)) serve None = Some (map view (sort_key key rows))"
  using walk_from [of 0 "Suc (length rows)"] by (simp add: cursor_at_def ordered_def)

end

section \<open>Cursors\<close>

record cursor_codec =
  cd_encode :: "jval \<Rightarrow> string"
  cd_decode :: "string \<Rightarrow> jval option"
  cd_canonical :: "string \<Rightarrow> bool"
  cd_stamp :: "time \<Rightarrow> string"
  cd_time :: "string \<Rightarrow> time option"

definition is_base64url :: "string \<Rightarrow> bool" where
  "is_base64url t \<longleftrightarrow> t \<noteq> [] \<and> list_all (\<lambda>c. is_upper c \<or> is_lower c \<or> is_digit c \<or> c = CHR ''_'' \<or> c = CHR ''-'') t"

definition is_uuid_lower :: "string \<Rightarrow> bool" where
  "is_uuid_lower s = list_all2 (\<lambda>p c. if p = CHR ''-'' then c = CHR ''-'' else is_hex c) uuid_pattern s"

definition digits_value :: "string \<Rightarrow> nat" where
  "digits_value t = foldl (\<lambda>n c. 10 * n + hex_value c) 0 t"

definition days_in_month :: "nat \<Rightarrow> nat \<Rightarrow> nat" where
  "days_in_month y m = (if m \<in> {4, 6, 9, 11} then 30
     else if m = 2 then (if y mod 4 = 0 \<and> (y mod 100 \<noteq> 0 \<or> y mod 400 = 0) then 29 else 28) else 31)"

text \<open>\<open>/^\d{4}-\d{2}-\d{2}T\d{2}:\d{2}:\d{2}\.\d{6}Z$/\<close>, a finite \<open>Date.parse\<close>, and
  \<open>toISOString()\<close> giving back the same second: a date of the calendar.\<close>

definition is_stamp :: "string \<Rightarrow> bool" where
  "is_stamp t \<longleftrightarrow> clock_shape ''dddd-dd-ddTdd:dd:dd.ddddddZ'' t
     \<and> (let y = digits_value (take 4 t); m = digits_value (take 2 (drop 5 t)); d = digits_value (take 2 (drop 8 t)) in
        1 \<le> m \<and> m \<le> 12 \<and> 1 \<le> d \<and> d \<le> days_in_month y m
        \<and> digits_value (take 2 (drop 11 t)) < 24 \<and> digits_value (take 2 (drop 14 t)) < 60
        \<and> digits_value (take 2 (drop 17 t)) < 60)"

definition field_is :: "string \<Rightarrow> jval \<Rightarrow> jval \<Rightarrow> bool" where
  "field_is k x v \<longleftrightarrow> jfield k v = Some x"

definition text_field :: "string \<Rightarrow> (string \<Rightarrow> bool) \<Rightarrow> jval \<Rightarrow> string option" where
  "text_field k P v = (case Option.bind (jfield k v) jstring of None \<Rightarrow> None | Some t \<Rightarrow> if P t then Some t else None)"

text \<open>The cursor of a listing by creation time: the scope it was made for, the time and the id.\<close>

definition stamped_cursor :: "(string \<times> jval) list \<Rightarrow> jval \<Rightarrow> (string \<times> string) option" where
  "stamped_cursor scope v =
     (if list_all (\<lambda>f. field_is (fst f) (snd f) v) scope
      then (case (text_field ''createdAt'' is_stamp v, text_field ''id'' is_uuid_lower v) of
              (Some t, Some i) \<Rightarrow> Some (t, i) | _ \<Rightarrow> None)
      else None)"

definition id_cursor :: "(string \<times> jval) list \<Rightarrow> jval \<Rightarrow> string option" where
  "id_cursor scope v = (if list_all (\<lambda>f. field_is (fst f) (snd f) v) scope then text_field ''id'' is_uuid_lower v else None)"

section \<open>Deliveries\<close>

definition delivery_scope :: "string \<Rightarrow> string \<Rightarrow> string option \<Rightarrow> (string \<times> jval) list" where
  "delivery_scope ws queue state =
     [(''workspaceId'', JStr ws), (''queue'', JStr queue), (''state'', case state of None \<Rightarrow> JNull | Some t \<Rightarrow> JStr t)]"

definition decode_delivery_cursor :: "cursor_codec \<Rightarrow> string \<Rightarrow> string \<Rightarrow> string \<Rightarrow> string option \<Rightarrow> (string \<times> string) option" where
  "decode_delivery_cursor cd token ws queue state =
     Option.bind (cd_decode cd token) (stamped_cursor (delivery_scope ws queue state))"

definition stamped_key :: "cursor_codec \<Rightarrow> string \<times> string \<Rightarrow> (time \<times> uuid) option" where
  "stamped_key cd c = (case (cd_time cd (fst c), parse_uuid (snd c)) of (Some t, Some i) \<Rightarrow> Some (t, i) | _ \<Rightarrow> None)"

definition stamped_json :: "cursor_codec \<Rightarrow> (string \<times> jval) list \<Rightarrow> time \<times> uuid \<Rightarrow> string" where
  "stamped_json cd scope k = cd_encode cd (JObj (scope @ [(''createdAt'', JStr (cd_stamp cd (fst k))), (''id'', j_uuid (snd k))]))"

definition delivery_rows :: "ledger \<Rightarrow> uuid \<Rightarrow> string \<Rightarrow> string option \<Rightarrow> delivery list" where
  "delivery_rows l w queue state = filter (\<lambda>d. dl_ws d = w \<and> dl_queue d = queue
     \<and> (case state of None \<Rightarrow> True | Some t \<Rightarrow> dstate_text (dl_state d) = t)) (lg_deliveries l)"

definition delivery_key :: "delivery \<Rightarrow> time \<times> uuid" where
  "delivery_key d = (dl_created d, dl_id d)"

definition list_deliveries ::
  "cursor_codec \<Rightarrow> string \<Rightarrow> string \<Rightarrow> string option \<Rightarrow> nat option \<Rightarrow> backplane \<Rightarrow> string option
   \<Rightarrow> string + (delivery_envelope list \<times> string option)" where
  "list_deliveries cd ws queue state limit s token =
     (let lower = to_lower ws; scope = delivery_scope lower queue state;
          cursor = Option.bind token (\<lambda>a. decode_delivery_cursor cd a lower queue state) in
      if token \<noteq> None \<and> cursor = None then Inl ''invalid_input''
      else (case parse_uuid ws of
         None \<Rightarrow> Inl ''invalid_input''
       | Some w \<Rightarrow>
           if queue_of (bp_ledger s) w queue = None then Inl ''queue_not_found''
           else (case map_option (stamped_key cd) cursor of
                   Some None \<Rightarrow> Inl ''queue_unavailable''
                 | c \<Rightarrow> Inr (map_prod (map serialize_delivery) id
                     (page delivery_key (stamped_json cd scope) (case limit of None \<Rightarrow> 50 | Some n \<Rightarrow> n)
                       (Option.bind c id) (delivery_rows (bp_ledger s) w queue state))))))"

section \<open>Workspaces and Principals\<close>

record workspace_row =
  wk_id :: uuid
  wk_org :: string
  wk_name :: string
  wk_created :: time

definition decode_workspace_cursor :: "cursor_codec \<Rightarrow> string \<Rightarrow> string \<Rightarrow> string option" where
  "decode_workspace_cursor cd token user =
     (if is_base64url token \<and> cd_canonical cd token
      then Option.bind (cd_decode cd token) (id_cursor [(''v'', JInt 1), (''userId'', JStr user)]) else None)"

definition workspace_cursor :: "cursor_codec \<Rightarrow> string \<Rightarrow> uuid \<Rightarrow> string" where
  "workspace_cursor cd user i = cd_encode cd (JObj [(''v'', JInt 1), (''userId'', JStr user), (''id'', j_uuid i)])"

definition visible_workspaces :: "workspace_row list \<Rightarrow> member list \<Rightarrow> string \<Rightarrow> workspace_row list" where
  "visible_workspaces ws ms user = filter (\<lambda>w. list_ex (\<lambda>m. mb_org m = wk_org w \<and> mb_user m = user) ms) ws"

definition list_workspaces ::
  "cursor_codec \<Rightarrow> workspace_row list \<Rightarrow> member list \<Rightarrow> string \<Rightarrow> nat option \<Rightarrow> string option
   \<Rightarrow> string + (workspace_row list \<times> string option)" where
  "list_workspaces cd ws ms user limit token =
     (let cursor = Option.bind token (\<lambda>a. decode_workspace_cursor cd a user) in
      if token \<noteq> None \<and> cursor = None then Inl ''invalid_input''
      else Inr (page wk_id (workspace_cursor cd user) (case limit of None \<Rightarrow> 50 | Some n \<Rightarrow> n)
        (Option.bind cursor parse_uuid) (visible_workspaces ws ms user)))"

record principal_row =
  pw_id :: uuid
  pw_ws :: uuid
  pw_name :: string
  pw_active :: bool
  pw_system :: "string option"

record principal_view =
  pv_id :: uuid
  pv_ws :: uuid
  pv_name :: string
  pv_active :: bool
  pv_key :: "principal_key option"

definition decode_principal_cursor :: "cursor_codec \<Rightarrow> string \<Rightarrow> string \<Rightarrow> string option" where
  "decode_principal_cursor cd token ws =
     (if is_base64url token \<and> cd_canonical cd token
      then Option.bind (cd_decode cd token) (id_cursor [(''v'', JInt 1), (''workspaceId'', JStr ws)]) else None)"

definition principal_cursor :: "cursor_codec \<Rightarrow> string \<Rightarrow> uuid \<Rightarrow> string" where
  "principal_cursor cd ws i = cd_encode cd (JObj [(''v'', JInt 1), (''workspaceId'', JStr ws), (''id'', j_uuid i)])"

definition show_principal :: "principal_key list \<Rightarrow> principal_row \<Rightarrow> principal_view" where
  "show_principal ks p = \<lparr>pv_id = pw_id p, pv_ws = pw_ws p, pv_name = pw_name p, pv_active = pw_active p,
     pv_key = find (\<lambda>k. ky_ws k = pw_ws p \<and> ky_principal k = pw_id p) ks\<rparr>"

definition listed_principals :: "principal_row list \<Rightarrow> uuid \<Rightarrow> principal_row list" where
  "listed_principals ps w = filter (\<lambda>p. pw_ws p = w \<and> pw_system p = None) ps"

definition list_principals ::
  "cursor_codec \<Rightarrow> principal_row list \<Rightarrow> control \<Rightarrow> principal_key list \<Rightarrow> string \<Rightarrow> string \<Rightarrow> nat option \<Rightarrow> string option
   \<Rightarrow> string + (principal_view list \<times> string option)" where
  "list_principals cd ps ct ks user ws limit token =
     (let lower = to_lower ws; cursor = Option.bind token (\<lambda>a. decode_principal_cursor cd a lower) in
      if token \<noteq> None \<and> cursor = None then Inl ''invalid_input''
      else (case parse_uuid lower of
         None \<Rightarrow> Inl ''principal_list_failed''
       | Some w \<Rightarrow>
           if \<not> query_workspace_access ct user (Some w) then Inl ''workspace_forbidden''
           else Inr (map_prod (map (show_principal ks)) id
             (page pw_id (principal_cursor cd lower) (case limit of None \<Rightarrow> 50 | Some n \<Rightarrow> n)
               (Option.bind cursor parse_uuid) (listed_principals ps w)))))"

section \<open>Migrations and audit events\<close>

record migration_row =
  mg_ws :: uuid
  mg_revision :: nat
  mg_name :: string
  mg_sql :: string
  mg_hash :: string
  mg_statements :: nat
  mg_destructive :: bool
  mg_by :: uuid
  mg_run :: uuid
  mg_at :: time

record migrations_page =
  mp_ws :: string
  mp_current :: nat
  mp_migrations :: "migration_row list"
  mp_next :: "nat option"

definition ledger_of :: "migration_row list \<Rightarrow> uuid \<Rightarrow> migration_row list" where
  "ledger_of ms w = filter (\<lambda>m. mg_ws m = w) ms"

definition list_migrations :: "migration_row list \<Rightarrow> string \<Rightarrow> uuid \<Rightarrow> nat \<Rightarrow> nat option \<Rightarrow> nat option \<Rightarrow> migrations_page" where
  "list_migrations ms ws w through limit token =
     (let rows = ledger_of ms w;
          pg = page mg_revision id (case limit of None \<Rightarrow> 50 | Some n \<Rightarrow> n) (Some (case token of None \<Rightarrow> 0 | Some r \<Rightarrow> r))
            (filter (\<lambda>m. mg_revision m \<le> through) rows)
      in \<lparr>mp_ws = to_lower ws, mp_current = foldr max (map mg_revision rows) 0, mp_migrations = fst pg, mp_next = snd pg\<rparr>)"

text \<open>\<open>readAudit\<close> answers the position of the last event, or the cursor it was given.\<close>

definition read_audit :: "backplane \<Rightarrow> uuid \<Rightarrow> uuid option \<Rightarrow> nat \<Rightarrow> nat \<Rightarrow> audit_event list \<times> nat" where
  "read_audit s w run limit token =
     (let evs = fetch ae_position limit (Some token)
            (filter (\<lambda>e. ae_ws e = w \<and> (run = None \<or> ae_run e = run)) (bp_events s))
      in (evs, if evs = [] then token else ae_position (last evs)))"

end
