(* ===== verification/ListingProps.thy ===== *)
theory ListingProps
  imports Listing "HOL-Library.Countable"
begin

text \<open>The listings show every row once: the contract of \<open>listing\<close> for Deliveries, Workspaces,
  Principals and Migrations, and the gapless reading of the audit ledger.\<close>

section \<open>Uuids survive their text\<close>

lemma hex_value_nth: "k < 16 \<Longrightarrow> hex_value (''0123456789abcdef'' ! k) = k"
  unfolding numeral_eq_Suc pred_numeral_simps BitM.simps less_Suc_eq
  by (elim disjE; simp add: hex_value_def upt_rec)

lemma hex_value_digit: "hex_value (hex_digit m) = nat (m mod 16)"
  unfolding hex_digit_def by (rule hex_value_nth) simp

lemma foldl_hex_digits:
  "0 \<le> n \<Longrightarrow> foldl (\<lambda>a c. 16 * a + hex_value c) 0 (hex_digits k n) = nat (n mod 16 ^ k)"
proof (induction k arbitrary: n)
  case (Suc k)
  have "nat (n mod 16 ^ Suc k) = 16 * nat (n div 16 mod 16 ^ k) + nat (n mod 16)"
  proof -
    have "n mod (16 * 16 ^ k) = 16 * (n div 16 mod 16 ^ k) + n mod 16" by (rule zmod_zmult2_eq) simp
    then show ?thesis using Suc.prems by (simp add: nat_add_distrib nat_mult_distrib)
  qed
  then show ?case using Suc by (simp add: hex_value_digit)
qed simp

lemma filter_hex: "list_all is_hex t \<Longrightarrow> filter (\<lambda>c. c \<noteq> CHR ''-'') t = t"
  by (induction t) (auto simp: is_hex_def)

lemma parse_uuid_text: "n < 2 ^ 128 \<Longrightarrow> parse_uuid (uuid_text n) = Some n"
proof -
  assume n: "n < 2 ^ 128"
  define h where "h = hex_digits 32 (int n)"
  have h: "list_all is_hex h" "length h = 32" using hex_digits_ok [of 32 "int n"] by (simp_all add: h_def)
  have sub: "filter (\<lambda>c. c \<noteq> CHR ''-'') t = t" if "set t \<subseteq> set h" for t
    by (rule filter_hex) (use h(1) that in \<open>auto simp: list_all_iff\<close>)
  have part: "filter (\<lambda>c. c \<noteq> CHR ''-'') (take i (drop j h)) = take i (drop j h)" for i j
    by (rule sub) (meson set_drop_subset set_take_subset subset_trans)
  have "filter (\<lambda>c. c \<noteq> CHR ''-'') (uuid_text n) = take 8 h @ take 4 (drop 8 h) @ take 4 (drop 12 h) @ take 4 (drop 16 h) @ drop 20 h"
    using part [of 8 0] part [of 4 8] part [of 4 12] part [of 4 16] sub [OF set_drop_subset [of 20 h]]
    unfolding uuid_text_def Let_def h_def [symmetric] filter_append by simp
  also have "\<dots> = h"
  proof -
    have e: "take 8 h @ drop 8 h = h" "take 4 (drop 8 h) @ drop 12 h = drop 8 h"
      "take 4 (drop 12 h) @ drop 16 h = drop 12 h" "take 4 (drop 16 h) @ drop 20 h = drop 16 h"
      using append_take_drop_id [of 4 "drop 8 h"] append_take_drop_id [of 4 "drop 12 h"]
        append_take_drop_id [of 4 "drop 16 h"] by simp_all
    show ?thesis unfolding e by simp
  qed
  finally have f: "filter (\<lambda>c. c \<noteq> CHR ''-'') (uuid_text n) = h" .
  have "int n < 16 ^ 32" using n by simp
  then have "nat (int n mod 16 ^ 32) = n" by simp
  then show ?thesis
    using uuid_text_is_uuid [of n] foldl_hex_digits [of "int n" 32] by (simp add: parse_uuid_def f h_def)
qed

lemma uuid_text_lower: "is_uuid_lower (uuid_text n)"
  unfolding is_uuid_lower_def by (rule uuid_text_pattern)

section \<open>Cursors survive their encoding\<close>

definition codec_lawful :: "cursor_codec \<Rightarrow> bool" where
  "codec_lawful cd \<longleftrightarrow> (\<forall>v. cd_decode cd (cd_encode cd v) = Some v)
     \<and> (\<forall>v. is_base64url (cd_encode cd v) \<and> cd_canonical cd (cd_encode cd v))"

definition prints_times :: "cursor_codec \<Rightarrow> time list \<Rightarrow> bool" where
  "prints_times cd ts \<longleftrightarrow> (\<forall>t\<in>set ts. is_stamp (cd_stamp cd t) \<and> cd_time cd (cd_stamp cd t) = Some t)"

lemma delivery_cursor_roundtrip:
  assumes "codec_lawful cd" "is_stamp (cd_stamp cd t)"
  shows "decode_delivery_cursor cd (stamped_json cd (delivery_scope ws queue state) (t, i)) ws queue state
    = Some (cd_stamp cd t, uuid_text i)"
  using assms uuid_text_lower [of i]
  by (simp add: decode_delivery_cursor_def stamped_json_def delivery_scope_def stamped_cursor_def field_is_def
      text_field_def j_uuid_def codec_lawful_def)

lemma stamped_key_roundtrip:
  "cd_time cd (cd_stamp cd t) = Some t \<Longrightarrow> i < 2 ^ 128 \<Longrightarrow> stamped_key cd (cd_stamp cd t, uuid_text i) = Some (t, i)"
  using parse_uuid_text by (simp add: stamped_key_def)

lemma workspace_cursor_roundtrip:
  "codec_lawful cd \<Longrightarrow> decode_workspace_cursor cd (workspace_cursor cd user i) user = Some (uuid_text i)"
  using uuid_text_lower [of i]
  by (simp add: decode_workspace_cursor_def workspace_cursor_def id_cursor_def field_is_def text_field_def
      j_uuid_def codec_lawful_def)

lemma principal_cursor_roundtrip:
  "codec_lawful cd \<Longrightarrow> decode_principal_cursor cd (principal_cursor cd ws i) ws = Some (uuid_text i)"
  using uuid_text_lower [of i]
  by (simp add: decode_principal_cursor_def principal_cursor_def id_cursor_def field_is_def text_field_def
      j_uuid_def codec_lawful_def)

section \<open>Every listing shows every row once\<close>

definition uuids :: "uuid list \<Rightarrow> bool" where
  "uuids is \<longleftrightarrow> (\<forall>i\<in>set is. i < 2 ^ 128)"

lemma filter_upt_gt: "filter ((<) n) [1..<k] = [Suc n..<k]"
  by (induction k) (auto simp: less_Suc_eq_le not_less)

lemma take_upt_min: "take limit [Suc n..<Suc k] = [Suc n..<Suc (min (n + limit) k)]"
  by (cases "n + limit \<le> k") (simp_all add: take_upt min_def del: upt_Suc)

locale delivery_listing =
  fixes cd :: cursor_codec and s :: backplane and ws queue :: string and w :: uuid and state :: "string option" and n :: nat
  assumes codec: "codec_lawful cd" "prints_times cd (map dl_created (lg_deliveries (bp_ledger s)))"
    and ledger: "ledger_ok (bp_ledger s)" and small: "uuids (map dl_id (lg_deliveries (bp_ledger s)))"
    and here: "parse_uuid ws = Some w" "queue_of (bp_ledger s) w queue \<noteq> None" and size: "0 < n"

sublocale delivery_listing \<subseteq> listing "delivery_rows (bp_ledger s) w queue state" delivery_key
    "stamped_json cd (delivery_scope (to_lower ws) queue state)" n serialize_delivery
    "list_deliveries cd ws queue state (Some n) s"
proof
  have "distinct (map dl_id (lg_deliveries (bp_ledger s)))"
    using rows_okD(1) [OF ledger_okD(3) [OF ledger]] .
  then show "distinct (map delivery_key (delivery_rows (bp_ledger s) w queue state))"
    by (auto simp: delivery_rows_def delivery_key_def distinct_map inj_on_def)
  show "0 < n" by (rule size)
  show "list_deliveries cd ws queue state (Some n) s None = Inr (map_prod (map serialize_delivery) id
      (page delivery_key (stamped_json cd (delivery_scope (to_lower ws) queue state)) n None (delivery_rows (bp_ledger s) w queue state)))"
    using here by (simp add: list_deliveries_def Let_def)
  fix r assume r: "r \<in> set (delivery_rows (bp_ledger s) w queue state)"
  have i: "dl_id r < 2 ^ 128" using r small by (auto simp: uuids_def delivery_rows_def)
  have t: "is_stamp (cd_stamp cd (dl_created r))" "cd_time cd (cd_stamp cd (dl_created r)) = Some (dl_created r)"
    using r codec(2) by (auto simp: prints_times_def delivery_rows_def)
  show "list_deliveries cd ws queue state (Some n) s (Some (stamped_json cd (delivery_scope (to_lower ws) queue state) (delivery_key r)))
      = Inr (map_prod (map serialize_delivery) id (page delivery_key (stamped_json cd (delivery_scope (to_lower ws) queue state)) n
          (Some (delivery_key r)) (delivery_rows (bp_ledger s) w queue state)))"
    using here stamped_key_roundtrip [OF t(2) i]
    by (simp add: list_deliveries_def Let_def delivery_key_def delivery_cursor_roundtrip [OF codec(1) t(1)])
qed

lemma map_prod_ident [simp]: "map_prod (\<lambda>x. x) id p = p"
  by (cases p) simp

context delivery_listing
begin

lemma walk_pages: "walk (Suc (length (delivery_rows (bp_ledger s) w queue state))) (list_deliveries cd ws queue state (Some n) s) None
    = Some (map serialize_delivery (sort_key delivery_key (delivery_rows (bp_ledger s) w queue state)))"
  by (rule walk_all)

end

locale workspace_listing =
  fixes cd :: cursor_codec and ws :: "workspace_row list" and ms :: "member list" and user :: string and n :: nat
  assumes codec: "codec_lawful cd" and ids: "distinct (map wk_id ws)" "uuids (map wk_id ws)" and size: "0 < n"

sublocale workspace_listing \<subseteq> listing "visible_workspaces ws ms user" wk_id "workspace_cursor cd user" n "\<lambda>r. r"
    "list_workspaces cd ws ms user (Some n)"
proof
  show "distinct (map wk_id (visible_workspaces ws ms user))"
    using ids(1) by (simp add: visible_workspaces_def distinct_map_filter)
  fix r assume "r \<in> set (visible_workspaces ws ms user)"
  then have "wk_id r < 2 ^ 128" using ids(2) by (auto simp: visible_workspaces_def uuids_def)
  then show "list_workspaces cd ws ms user (Some n) (Some (workspace_cursor cd user (wk_id r)))
      = Inr (map_prod (map (\<lambda>r. r)) id (page wk_id (workspace_cursor cd user) n (Some (wk_id r)) (visible_workspaces ws ms user)))"
    by (simp add: list_workspaces_def Let_def workspace_cursor_roundtrip [OF codec] parse_uuid_text)
qed (simp_all add: size list_workspaces_def Let_def)

locale principal_listing =
  fixes cd :: cursor_codec and ps :: "principal_row list" and ct :: control and ks :: "principal_key list"
    and user ws :: string and w :: uuid and n :: nat
  assumes codec: "codec_lawful cd" and ids: "distinct (map (\<lambda>p. (pw_ws p, pw_id p)) ps)" "uuids (map pw_id ps)"
    and here: "parse_uuid (to_lower ws) = Some w" "query_workspace_access ct user (Some w)" and size: "0 < n"

sublocale principal_listing \<subseteq> listing "listed_principals ps w" pw_id "principal_cursor cd (to_lower ws)" n "show_principal ks"
    "list_principals cd ps ct ks user ws (Some n)"
proof
  show "distinct (map pw_id (listed_principals ps w))"
    using ids(1) by (auto simp: listed_principals_def distinct_map inj_on_def)
  fix r assume "r \<in> set (listed_principals ps w)"
  then have "pw_id r < 2 ^ 128" using ids(2) by (auto simp: listed_principals_def uuids_def)
  then show "list_principals cd ps ct ks user ws (Some n) (Some (principal_cursor cd (to_lower ws) (pw_id r)))
      = Inr (map_prod (map (show_principal ks)) id (page pw_id (principal_cursor cd (to_lower ws)) n (Some (pw_id r)) (listed_principals ps w)))"
    using here by (simp add: list_principals_def Let_def principal_cursor_roundtrip [OF codec] parse_uuid_text)
qed (use here in \<open>simp_all add: size list_principals_def Let_def\<close>)

locale migration_listing =
  fixes ms :: "migration_row list" and ws :: string and w :: uuid and n :: nat
  assumes revisions: "distinct (map mg_revision (ledger_of ms w))" "\<forall>m\<in>set (ledger_of ms w). 0 < mg_revision m" and size: "0 < n"
begin

definition serve :: "nat option \<Rightarrow> unit + (migration_row list \<times> nat option)" where
  "serve c = (let p = list_migrations ms ws w 2147483647 (Some n) c in Inr (mp_migrations p, mp_next p))"

end

sublocale migration_listing \<subseteq> listing "filter (\<lambda>m. mg_revision m \<le> 2147483647) (ledger_of ms w)" mg_revision "\<lambda>r. r" n "\<lambda>r. r" serve
proof
  let ?rows = "filter (\<lambda>m. mg_revision m \<le> 2147483647) (ledger_of ms w)"
  show "distinct (map mg_revision ?rows)" using revisions(1) by (simp add: distinct_map_filter)
  have "filter (\<lambda>r. 0 < mg_revision r) (sort_key mg_revision ?rows) = sort_key mg_revision ?rows"
    using revisions(2) by (intro filter_True) auto
  then have zero: "page mg_revision id n (Some 0) ?rows = page mg_revision id n None ?rows"
    by (simp add: page_def fetch_def)
  show "serve None = Inr (map_prod (map (\<lambda>r. r)) id (page mg_revision (\<lambda>r. r) n None ?rows))"
    using zero by (simp add: serve_def list_migrations_def Let_def id_def)
qed (simp_all add: size serve_def list_migrations_def Let_def id_def)

section \<open>A codec\<close>

instance jval :: countable
  by countable_datatype

definition demo_stamp :: "time \<Rightarrow> string" where
  "demo_stamp t = ''2026-01-01T00:00:00.'' @ map (\<lambda>i. digit_char (nat (t div 10 ^ (5 - i)) mod 10)) [0..<6] @ ''Z''"

definition demo_codec :: cursor_codec where
  "demo_codec = \<lparr>cd_encode = (\<lambda>v. replicate (Suc (to_nat v)) (CHR ''A'')), cd_decode = (\<lambda>t. Some (from_nat (length t - 1))),
     cd_canonical = (\<lambda>t. True), cd_stamp = demo_stamp, cd_time = (\<lambda>t. Some (int (digits_value (take 6 (drop 20 t)))))\<rparr>"

lemma demo_codec_lawful: "codec_lawful demo_codec"
  by (simp add: codec_lawful_def demo_codec_def is_base64url_def is_upper_def list_all_iff)

text \<open>A server on which a Principal created a Queue and sent three Messages.\<close>

definition demo_sender :: crypto where
  "demo_sender = \<lparr>cr_sha = id, cr_digest = id, cr_jsonb = (\<lambda>v. Some ''{}'')\<rparr>"

fun demo_run :: "queue_request list \<Rightarrow> time \<Rightarrow> backplane" where
  "demo_run [] t = fresh_backplane demo_control"
| "demo_run (rq # rqs) t = snd (serve_queue demo_sender t (Principal_context 1 10 20 None) rq (demo_run rqs (t - 1)))"

definition demo_sent_server :: backplane where
  "demo_sent_server = demo_run [Rq_send ''jobs'' ''c'' JNull, Rq_send ''jobs'' ''b'' JNull, Rq_send ''jobs'' ''a'' JNull, Rq_create ''jobs''] 5"

lemma demo_run_serving: "serving demo_sender (demo_run rqs t)"
  by (induction rqs t rule: demo_run.induct) (auto intro: serving.intros)

lemma demo_sent_facts:
  "map dl_created (lg_deliveries (bp_ledger demo_sent_server)) = [3, 4, 5]"
  "map dl_id (lg_deliveries (bp_ledger demo_sent_server)) = [1, 4, 7]"
  "queue_of (bp_ledger demo_sent_server) 1 ''jobs'' \<noteq> None"
  by code_simp+

lemma demo_sent_serving: "serving demo_sender demo_sent_server"
  unfolding demo_sent_server_def by (rule demo_run_serving)

lemma demo_sent_ok: "ledger_ok (bp_ledger demo_sent_server)"
  by (rule server_ledger_ok [OF serving_ok [OF demo_sent_serving]])

lemma demo_sent_uuids: "uuids (map dl_id (lg_deliveries (bp_ledger demo_sent_server)))"
  unfolding demo_sent_facts by (simp add: uuids_def)

lemma demo_sent_rows: "Suc (length (delivery_rows (bp_ledger demo_sent_server) 1 ''jobs'' None)) = 4"
  by code_simp

lemma demo_sent_times:
  "prints_times demo_codec (map dl_created (lg_deliveries (bp_ledger demo_sent_server)))"
  unfolding demo_sent_facts by code_simp

interpretation sent: delivery_listing demo_codec demo_sent_server "uuid_text 1" "''jobs''" 1 None 2
  by unfold_locales
    (use demo_codec_lawful demo_sent_times demo_sent_ok demo_sent_facts(2,3) in
      \<open>auto simp: uuids_def parse_uuid_text simp del: One_nat_def\<close>)

interpretation shown: workspace_listing demo_codec "[\<lparr>wk_id = 1, wk_org = ''o'', wk_name = ''w'', wk_created = 0\<rparr>]"
    "ct_members demo_control" "''u''" 1
  by unfold_locales (simp_all add: demo_codec_lawful uuids_def)

interpretation staff: principal_listing demo_codec "[\<lparr>pw_id = 10, pw_ws = 1, pw_name = ''p'', pw_active = True, pw_system = None\<rparr>]"
    demo_control "[]" "''ann''" "uuid_text 1" 1 1
proof
  show "parse_uuid (to_lower (uuid_text 1)) = Some 1" by code_simp
  show "query_workspace_access demo_control ''ann'' (Some 1)" by code_simp
qed (simp_all add: demo_codec_lawful uuids_def)

definition demo_migrations :: "migration_row list" where
  "demo_migrations = map (\<lambda>n. \<lparr>mg_ws = 1, mg_revision = n, mg_name = ''m'', mg_sql = ''s'', mg_hash = ''h'', mg_statements = 1,
     mg_destructive = False, mg_by = 10, mg_run = 20, mg_at = 0\<rparr>) [1, 2, 3]"

interpretation applied: migration_listing demo_migrations "uuid_text 1" 1 2
  by unfold_locales (simp_all add: demo_migrations_def ledger_of_def)

section \<open>The properties\<close>

text \<open>C17: following the cursors of the Delivery listing shows every Delivery of the Queue with that
  state exactly once, oldest first, whatever the page size, and ends.\<close>

theorem deliveries_listed_once:
  assumes "codec_lawful cd" "prints_times cd (map dl_created (lg_deliveries (bp_ledger s)))"
    and "ledger_ok (bp_ledger s)" "uuids (map dl_id (lg_deliveries (bp_ledger s)))"
    and "parse_uuid ws = Some w" "queue_of (bp_ledger s) w queue \<noteq> None" "0 < n"
  shows "walk (Suc (length (delivery_rows (bp_ledger s) w queue state))) (list_deliveries cd ws queue state (Some n) s) None
    = Some (map serialize_delivery (sort_key delivery_key (delivery_rows (bp_ledger s) w queue state)))"
  by (rule delivery_listing.walk_pages) (use assms in \<open>simp add: delivery_listing_def\<close>)

theorem deliveries_listed_once_witness:
  "walk 4 (list_deliveries demo_codec (uuid_text 1) ''jobs'' None (Some 2) demo_sent_server) None
   = Some (map serialize_delivery (sort_key delivery_key (delivery_rows (bp_ledger demo_sent_server) 1 ''jobs'' None)))"
proof -
  have w: "parse_uuid (uuid_text 1) = Some 1" by (rule parse_uuid_text) simp
  show ?thesis
    using deliveries_listed_once [OF demo_codec_lawful demo_sent_times demo_sent_ok demo_sent_uuids w demo_sent_facts(3), of 2 None]
    unfolding demo_sent_rows by simp
qed

text \<open>Reading the audit ledger from a position returns the events that follow it in order,
  as many as the limit allows, and the position to go on from: no position is skipped.\<close>

theorem audit_read_gapless:
  assumes "serving q s"
  shows "case read_audit s w None limit from of (evs, next) \<Rightarrow>
      map ae_position evs = [Suc from..<Suc (min (from + limit) (last_position s w))]
      \<and> (evs \<noteq> [] \<longrightarrow> next = min (from + limit) (last_position s w)) \<and> (evs = [] \<longrightarrow> next = from)"
proof -
  let ?evs = "filter (\<lambda>e. ae_ws e = w) (bp_events s)" and ?last = "last_position s w"
  have p: "map ae_position ?evs = [1..<Suc ?last]"
    using serving_ok [OF assms] by (simp add: server_ok_def audit_ok_def positions_def)
  then have "sort_key ae_position ?evs = ?evs" by (intro sort_key_id_if_sorted) (simp only: p sorted_upt)
  then have f: "fetch ae_position limit (Some from) ?evs = take limit (filter (\<lambda>e. from < ae_position e) ?evs)"
    by (simp add: fetch_def)
  have "map ae_position (filter (\<lambda>e. from < ae_position e) ?evs) = filter ((<) from) (map ae_position ?evs)"
    unfolding filter_map comp_def ..
  also have "\<dots> = [Suc from..<Suc ?last]" unfolding p by (rule filter_upt_gt)
  finally have "map ae_position (fetch ae_position limit (Some from) ?evs) = take limit [Suc from..<Suc ?last]"
    unfolding f by (simp only: take_map [symmetric])
  also have "\<dots> = [Suc from..<Suc (min (from + limit) ?last)]" by (rule take_upt_min)
  finally have m: "map ae_position (fetch ae_position limit (Some from) ?evs) = [Suc from..<Suc (min (from + limit) ?last)]" .
  have "ae_position (last (fetch ae_position limit (Some from) ?evs)) = min (from + limit) ?last"
    if "fetch ae_position limit (Some from) ?evs \<noteq> []"
  proof -
    have "[Suc from..<Suc (min (from + limit) ?last)] \<noteq> []" using m that by (metis map_is_Nil_conv)
    then show ?thesis using m last_map [OF that, of ae_position] by (auto split: if_splits)
  qed
  then show ?thesis using m by (auto simp: read_audit_def Let_def)
qed

theorem audit_read_gapless_witness:
  "case read_audit demo_sent_server 1 None 2 1 of (evs, next) \<Rightarrow>
      map ae_position evs = [2, 3] \<and> next = 3"
proof -
  have last: "last_position demo_sent_server 1 = 7" by code_simp
  have up: "[Suc 1..<Suc (min (1 + 2) 7)] = [2, 3]" by code_simp
  obtain evs nx where r: "read_audit demo_sent_server 1 None 2 1 = (evs, nx)" by fastforce
  have "map ae_position evs = [2, 3] \<and> (evs \<noteq> [] \<longrightarrow> nx = 3)"
    using audit_read_gapless [where s = demo_sent_server and w = 1 and limit = 2 and ?from = 1, OF demo_sent_serving]
    unfolding r prod.case last up by (simp only: min_def) simp
  then show ?thesis unfolding r by auto
qed

end
