(* ===== verification/JsonText.thy ===== *)
theory JsonText
  imports Prelude "HOL-Library.Char_ord" "HOL-Library.List_Lexorder"
begin

text \<open>The text of a JSON value: what \<open>JSON.stringify\<close> writes, and the canonical text with sorted
  keys that requests are hashed under.  The text determines the value.  A fraction is written in
  plain decimal; the exponent notation of very large and very small numbers is not modelled.\<close>

section \<open>Numbers\<close>

definition int_text :: "int \<Rightarrow> string" where
  "int_text n = (if n < 0 then CHR ''-'' # nat_text (nat (- n)) else nat_text (nat n))"

fun fixed_text :: "nat \<Rightarrow> nat \<Rightarrow> string" where
  "fixed_text 0 n = []"
| "fixed_text (Suc k) n = fixed_text k (n div 10) @ [digit_char (n mod 10)]"

definition frac_text :: "int \<Rightarrow> nat \<Rightarrow> string" where
  "frac_text n k = (if n < 0 then ''-'' else []) @ nat_text (nat \<bar>n\<bar> div 10 ^ k) @ CHR ''.'' # fixed_text k (nat \<bar>n\<bar>)"

definition digits_nat :: "string \<Rightarrow> nat" where
  "digits_nat t = foldl (\<lambda>n c. 10 * n + (of_char c - 48)) 0 t"

lemma digit_char_ok:
  assumes "n < 10"
  shows "is_digit (digit_char n)" "of_char (digit_char n) = n + (48::nat)"
proof -
  have "n \<in> {0, 1, 2, 3, 4, 5, 6, 7, 8, 9}" using assms by auto
  then show "is_digit (digit_char n)" "of_char (digit_char n) = n + (48::nat)"
    by (auto simp: digit_char_def is_digit_def)
qed

declare nat_text.simps [simp del]

lemma nat_text_digits: "list_all is_digit (nat_text n)" "nat_text n \<noteq> []"
  by (induction n rule: nat_text.induct) (subst nat_text.simps, simp add: digit_char_ok)+

lemma fixed_text_digits: "list_all is_digit (fixed_text k n)" "length (fixed_text k n) = k"
  by (induction k arbitrary: n) (simp_all add: digit_char_ok)

lemma digits_nat_text: "digits_nat (nat_text n) = n"
proof (induction n rule: nat_text.induct)
  case (1 n)
  then show ?case by (subst nat_text.simps) (simp add: digits_nat_def digit_char_ok)
qed

lemma digits_fixed_text: "digits_nat (fixed_text k n) = n mod 10 ^ k"
proof (induction k arbitrary: n)
  case (Suc k)
  have "n mod (10 * 10 ^ k) = 10 * (n div 10 mod 10 ^ k) + n mod 10" by (rule mod_mult2_eq)
  then show ?case using Suc [of "n div 10"] by (simp add: digits_nat_def digit_char_ok)
qed (simp add: digits_nat_def)

text \<open>A text of digits ends at the first other character.\<close>

definition no_digit :: "string \<Rightarrow> bool" where
  "no_digit x \<longleftrightarrow> x = [] \<or> \<not> is_digit (hd x)"

lemma digits_cut:
  assumes "s @ x = t @ y" "list_all is_digit s" "list_all is_digit t" "no_digit x" "no_digit y"
  shows "s = t" "x = y"
proof -
  have "takeWhile is_digit (u @ z) = u" if "list_all is_digit u" "no_digit z" for u z
    using that by (induction u) (cases z, auto simp: no_digit_def)
  from this [OF assms(2,4)] this [OF assms(3,5)] show "s = t" using assms(1) by simp
  then show "x = y" using assms(1) by simp
qed

lemma nat_text_cut: "nat_text n @ x = nat_text m @ y \<Longrightarrow> no_digit x \<Longrightarrow> no_digit y \<Longrightarrow> n = m \<and> x = y"
  using digits_cut [OF _ nat_text_digits(1) nat_text_digits(1)] digits_nat_text by metis

lemma fixed_text_cut:
  "fixed_text k n @ x = fixed_text l m @ y \<Longrightarrow> no_digit x \<Longrightarrow> no_digit y
   \<Longrightarrow> k = l \<and> n mod 10 ^ k = m mod 10 ^ k \<and> x = y"
  using digits_cut [OF _ fixed_text_digits(1) fixed_text_digits(1)] digits_fixed_text fixed_text_digits(2) by metis

section \<open>Strings\<close>

definition escapes :: "(char \<times> char) list" where
  "escapes = [(CHR 0x22, CHR 0x22), (CHR 0x5C, CHR 0x5C), (CHR 0x08, CHR ''b''), (CHR 0x0C, CHR ''f''),
     (CHR 0x0A, CHR ''n''), (CHR 0x0D, CHR ''r''), (CHR 0x09, CHR ''t'')]"

definition escape :: "char \<Rightarrow> string" where
  "escape c = (case map_of escapes c of
     Some d \<Rightarrow> [CHR 0x5C, d]
   | None \<Rightarrow> if of_char c < (32::int)
       then CHR 0x5C # ''u00'' @ [hex_digit (of_char c div 16), hex_digit (of_char c)] else [c])"

definition quote :: "string \<Rightarrow> string" where
  "quote s = CHR 0x22 # concat (map escape s) @ [CHR 0x22]"

lemma hex_digit_eq: "hex_digit a = hex_digit b \<Longrightarrow> a mod 16 = b mod 16"
proof -
  have d: "distinct ''0123456789abcdef''" by simp
  assume "hex_digit a = hex_digit b"
  then have "nat (a mod 16) = nat (b mod 16)"
    using nth_eq_iff_index_eq [OF d, of "nat (a mod 16)" "nat (b mod 16)"] by (simp add: hex_digit_def)
  then show ?thesis by (simp add: eq_nat_nat_iff)
qed

lemma escapes_Some: "map_of escapes c = Some d \<Longrightarrow> d \<noteq> CHR ''u''"
  by (auto simp: escapes_def split: if_splits)

lemma escapes_inj: "map_of escapes c = Some e \<Longrightarrow> map_of escapes d = Some e \<Longrightarrow> c = d"
  by (auto simp: escapes_def split: if_splits)

lemma escapes_None: "map_of escapes c = None \<Longrightarrow> c \<noteq> CHR 0x5C \<and> c \<noteq> CHR 0x22"
  by (auto simp: escapes_def split: if_splits)

lemma two_digits:
  fixes a b :: int
  assumes "a div 16 mod 16 = b div 16 mod 16" "a mod 16 = b mod 16" "0 \<le> a" "a < 256" "0 \<le> b" "b < 256"
  shows "a = b"
proof -
  have "a div 16 mod 16 = a div 16" "b div 16 mod 16 = b div 16"
    using assms(3-6) by (intro mod_pos_pos_trivial; linarith)+
  then show ?thesis using assms(1,2) by (metis mult_div_mod_eq)
qed

text \<open>The three shapes of an escaped character.\<close>

lemma escape_cases:
  obtains (short) d where "escape c = [CHR 0x5C, d]" "map_of escapes c = Some d" "d \<noteq> CHR ''u''"
  | (control) "escape c = [CHR 0x5C, CHR ''u'', CHR ''0'', CHR ''0'', hex_digit (of_char c div 16), hex_digit (of_char c)]"
      "of_char c < (32::int)"
  | (plain) "escape c = [c]" "c \<noteq> CHR 0x5C" "c \<noteq> CHR 0x22"
proof (cases "map_of escapes c")
  case None
  then show ?thesis using that(2,3) escapes_None [OF None] by (cases "of_char c < (32::int)") (simp_all add: escape_def)
next
  case (Some d)
  then show ?thesis using that(1) [of d] escapes_Some [OF Some] by (simp add: escape_def)
qed

lemma control_inj:
  assumes "hex_digit (of_char c div 16) = hex_digit (of_char d div 16)" "hex_digit (of_char c) = hex_digit (of_char d)"
    "of_char c < (32::int)" "of_char d < (32::int)"
  shows "c = d"
proof -
  have "0 \<le> (of_char c :: int)" "0 \<le> (of_char d :: int)" by (metis of_nat_of_char of_nat_0_le_iff)+
  then have "of_char c = (of_char d :: int)"
    using two_digits [OF hex_digit_eq [OF assms(1)] hex_digit_eq [OF assms(2)]] assms(3,4) by linarith
  then show ?thesis by simp
qed

lemma escape_cut: "escape c @ x = escape d @ y \<Longrightarrow> c = d \<and> x = y"
proof (cases c rule: escape_cases; cases d rule: escape_cases)
  fix e f assume "escape c @ x = escape d @ y" "escape c = [CHR 0x5C, e]" "map_of escapes c = Some e"
    "escape d = [CHR 0x5C, f]" "map_of escapes d = Some f"
  then show ?thesis using escapes_inj by (metis append_Cons append_Nil list.inject)
next
  assume a: "escape c @ x = escape d @ y"
    "escape c = [CHR 0x5C, CHR ''u'', CHR ''0'', CHR ''0'', hex_digit (of_char c div 16), hex_digit (of_char c)]"
    "escape d = [CHR 0x5C, CHR ''u'', CHR ''0'', CHR ''0'', hex_digit (of_char d div 16), hex_digit (of_char d)]"
    "of_char c < (32::int)" "of_char d < (32::int)"
  have "hex_digit (of_char c div 16) = hex_digit (of_char d div 16)" "hex_digit (of_char c) = hex_digit (of_char d)" "x = y"
    using a(1) unfolding a(2,3) append_Cons append_Nil list.inject by blast+
  then show ?thesis using control_inj a(4,5) by blast
qed auto

lemma escape_hd: "escape c @ x \<noteq> CHR 0x22 # y"
  by (cases c rule: escape_cases) auto

lemma quoted_cut: "concat (map escape s) @ CHR 0x22 # x = concat (map escape t) @ CHR 0x22 # y \<Longrightarrow> s = t \<and> x = y"
proof (induction s arbitrary: t)
  case Nil
  show ?case
  proof (cases t)
    case (Cons d u)
    show ?thesis using Nil escape_hd [of d "concat (map escape u) @ CHR 0x22 # y" x]
      unfolding Cons by (simp only: concat.simps list.map append_assoc append_Nil)
  next
    case N: Nil
    show ?thesis using Nil unfolding N by (simp only: concat.simps list.map append_Nil list.inject simp_thms)
  qed
next
  case (Cons c s)
  show ?case
  proof (cases t)
    case Nil
    show ?thesis using Cons.prems escape_hd [of c "concat (map escape s) @ CHR 0x22 # x" y]
      unfolding Nil by (simp only: concat.simps list.map append_assoc append_Nil)
  next
    case t: (Cons d u)
    have "escape c @ (concat (map escape s) @ CHR 0x22 # x) = escape d @ (concat (map escape u) @ CHR 0x22 # y)"
      using Cons.prems unfolding t by (simp only: concat.simps list.map append_assoc)
    from escape_cut [OF this] show ?thesis using Cons.IH [of u] t by blast
  qed
qed

lemma quote_cut: "quote s @ x = quote t @ y \<Longrightarrow> s = t \<and> x = y"
  by (rule quoted_cut) (simp add: quote_def)

section \<open>Values\<close>

fun commas :: "string list \<Rightarrow> string" where
  "commas [] = []"
| "commas (t # ts) = t @ concat (map (\<lambda>u. CHR '','' # u) ts)"

lemma size_pair_list [termination_simp]:
  "f \<in> set fs \<Longrightarrow> size (snd f) < Suc (size_list (size_prod (\<lambda>x. 0) size) fs)"
  by (induction fs) auto

fun json_text :: "jval \<Rightarrow> string" where
  "json_text JNull = ''null''"
| "json_text (JBool b) = (if b then ''true'' else ''false'')"
| "json_text (JInt n) = int_text n"
| "json_text (JFrac n k) = frac_text n k"
| "json_text (JStr s) = quote s"
| "json_text (JArr vs) = CHR ''['' # commas (map json_text vs) @ '']''"
| "json_text (JObj fs) = CHR ''{'' # commas (map (\<lambda>f. quote (fst f) @ CHR '':'' # json_text (snd f)) fs) @ ''}''"

text \<open>A value ends where its context goes on: with a comma, a bracket or nothing.\<close>

definition stops :: "string \<Rightarrow> bool" where
  "stops x \<longleftrightarrow> x = [] \<or> hd x \<in> {CHR '','', CHR '']'', CHR ''}''}"

lemma stops_no_digit: "stops x \<Longrightarrow> no_digit x"
  by (auto simp: stops_def no_digit_def is_digit_def)

definition lead :: "char \<Rightarrow> nat" where
  "lead c = (if c = CHR ''n'' then 0 else if c \<in> {CHR ''t'', CHR ''f''} then 1 else if c = CHR ''-'' \<or> is_digit c then 2
     else if c = CHR 0x22 then 3 else if c = CHR ''['' then 4 else if c = CHR ''{'' then 5 else 6)"

fun shape :: "jval \<Rightarrow> nat" where
  "shape JNull = 0" | "shape (JBool b) = 1" | "shape (JInt n) = 2" | "shape (JFrac n k) = 2"
| "shape (JStr s) = 3" | "shape (JArr vs) = 4" | "shape (JObj fs) = 5"

lemma nat_text_lead: "\<exists>c t. nat_text n = c # t \<and> is_digit c \<and> lead c = 2"
  using nat_text_digits [of n] by (cases "nat_text n") (auto simp: lead_def is_digit_def)

lemma lead_simps [simp]:
  "lead (CHR ''n'') = 0" "lead (CHR ''t'') = 1" "lead (CHR ''f'') = 1" "lead (CHR ''-'') = 2" "lead (CHR 0x22) = 3"
  "lead (CHR ''['') = 4" "lead (CHR ''{'') = 5" "lead (CHR '']'') = 6"
  by code_simp+

lemma json_text_lead: "\<exists>c t. json_text v = c # t \<and> lead c = shape v"
proof (cases v)
  case (JInt n)
  obtain c t where "nat_text (nat n) = c # t" "lead c = 2" using nat_text_lead by blast
  then show ?thesis unfolding JInt by (simp add: int_text_def)
next
  case (JFrac n k)
  obtain c t where "nat_text (nat \<bar>n\<bar> div 10 ^ k) = c # t" "lead c = 2" using nat_text_lead by blast
  then show ?thesis unfolding JFrac by (simp add: frac_text_def)
qed (simp_all add: quote_def)

lemma json_text_shape: "json_text a @ x = json_text b @ y \<Longrightarrow> shape a = shape b"
  using json_text_lead [of a] json_text_lead [of b] by auto

lemma json_text_not_close: "json_text v @ x \<noteq> CHR '']'' # y"
proof -
  obtain c t where "json_text v = c # t" "lead c = shape v" using json_text_lead by blast
  moreover have "shape v < 6" by (cases v) simp_all
  ultimately show ?thesis using lead_simps(8) by (metis append_Cons less_irrefl list.inject)
qed

text \<open>A text that ends in its own code: a list of such texts after commas, closed by a bracket,
  determines its members.\<close>

definition coded :: "('a \<Rightarrow> string) \<Rightarrow> 'a \<Rightarrow> bool" where
  "coded f v \<longleftrightarrow> (\<forall>w x y. f v @ x = f w @ y \<longrightarrow> stops x \<longrightarrow> stops y \<longrightarrow> v = w \<and> x = y)"

lemma tail_cut:
  assumes "\<forall>v\<in>set vs. coded f v" "e \<in> {CHR '']'', CHR ''}''}"
    and "concat (map (\<lambda>v. CHR '','' # f v) vs) @ e # x = concat (map (\<lambda>v. CHR '','' # f v) ws) @ e # y"
  shows "vs = ws \<and> x = y"
  using assms(1,3)
proof (induction vs arbitrary: ws)
  case Nil
  then show ?case using assms(2) by (cases ws) auto
next
  case (Cons v vs)
  obtain w us where ws: "ws = w # us" using Cons.prems(2) assms(2) by (cases ws) auto
  let ?tail = "\<lambda>us z. concat (map (\<lambda>v. CHR '','' # f v) us) @ e # z"
  have "stops (?tail us z)" for us z using assms(2) by (cases us) (auto simp: stops_def)
  moreover have "f v @ ?tail vs x = f w @ ?tail us y" using Cons.prems(2) ws by simp
  ultimately have "v = w \<and> ?tail vs x = ?tail us y" using Cons.prems(1) unfolding coded_def by (meson list.set_intros(1))
  then show ?case using Cons.IH [of us] Cons.prems(1) ws by simp
qed

lemma commas_cut:
  assumes "\<forall>v\<in>set vs. coded f v" "e \<in> {CHR '']'', CHR ''}''}" "\<And>w z y. f w @ z \<noteq> e # y"
    and "commas (map f vs) @ e # x = commas (map f ws) @ e # y"
  shows "vs = ws \<and> x = y"
proof (cases vs)
  case Nil
  then show ?thesis using assms(3,4) by (cases ws) (auto simp: not_sym [OF assms(3)])
next
  case (Cons v us)
  let ?tail = "\<lambda>us z. concat (map (\<lambda>v. CHR '','' # f v) us) @ e # z"
  obtain w ts where ws: "ws = w # ts" using assms(3,4) Cons by (cases ws) auto
  have eq: "f v @ ?tail us x = f w @ ?tail ts y" using assms(4) Cons ws by (simp add: comp_def)
  have "stops (?tail us z)" for us z using assms(2) by (cases us) (auto simp: stops_def)
  then have "v = w \<and> ?tail us x = ?tail ts y" using eq assms(1) Cons unfolding coded_def by (meson list.set_intros(1))
  then show ?thesis using tail_cut [of us f e x ts y] assms(1,2) Cons ws by auto
qed

lemma sign_cut:
  assumes "(if n < 0 then ''-'' else []) @ nat_text a @ x = (if m < 0 then ''-'' else []) @ nat_text b @ y"
    and "no_digit x" "no_digit y"
  shows "(n < 0 \<longleftrightarrow> m < 0) \<and> a = b \<and> x = y"
proof -
  obtain c t d u where "nat_text a = c # t" "is_digit c" "nat_text b = d # u" "is_digit d"
    using nat_text_lead by metis
  then have s: "n < 0 \<longleftrightarrow> m < 0" using assms(1) by (auto simp: is_digit_def split: if_splits)
  then have "nat_text a @ x = nat_text b @ y" using assms(1) by (simp split: if_splits)
  then show ?thesis using s nat_text_cut assms(2,3) by blast
qed

lemma int_text_sign: "int_text n = (if n < 0 then ''-'' else []) @ nat_text (nat \<bar>n\<bar>)"
  by (simp add: int_text_def)

lemma number_cut:
  assumes "shape a = 2" "json_text a @ x = json_text b @ y" "stops x" "stops y"
  shows "a = b \<and> x = y"
proof -
  have "shape b = 2" using json_text_shape [OF assms(2)] assms(1) by simp
  then consider n m where "a = JInt n" "b = JInt m" | n m l where "a = JInt n" "b = JFrac m l"
    | n k m where "a = JFrac n k" "b = JInt m" | n k m l where "a = JFrac n k" "b = JFrac m l"
    using assms(1) by (cases a; cases b) auto
  then show ?thesis
  proof cases
    case (1 n m)
    then show ?thesis using sign_cut [of n "nat \<bar>n\<bar>" x m "nat \<bar>m\<bar>" y] assms by (auto simp: int_text_sign stops_no_digit)
  next
    case (2 n m l)
    then show ?thesis using sign_cut [of n "nat \<bar>n\<bar>" x m _ "CHR ''.'' # fixed_text l (nat \<bar>m\<bar>) @ y"] assms
      by (auto simp: int_text_sign frac_text_def stops_no_digit no_digit_def is_digit_def stops_def)
  next
    case (3 n k m)
    then have "y = CHR ''.'' # fixed_text k (nat \<bar>n\<bar>) @ x"
      using sign_cut [of n "nat \<bar>n\<bar> div 10 ^ k" "CHR ''.'' # fixed_text k (nat \<bar>n\<bar>) @ x" m "nat \<bar>m\<bar>" y]
        assms(2) stops_no_digit [OF assms(4)] by (simp add: int_text_sign frac_text_def) (simp add: no_digit_def is_digit_def)
    then show ?thesis using assms(4) by (simp add: stops_def)
  next
    case (4 n k m l)
    let ?a = "nat \<bar>n\<bar>" and ?b = "nat \<bar>m\<bar>"
    have c: "(n < 0 \<longleftrightarrow> m < 0)" "?a div 10 ^ k = ?b div 10 ^ l" "fixed_text k ?a @ x = fixed_text l ?b @ y"
      using sign_cut [of n "?a div 10 ^ k" "CHR ''.'' # fixed_text k ?a @ x" m "?b div 10 ^ l" "CHR ''.'' # fixed_text l ?b @ y"]
        assms(2) 4 by (simp_all add: frac_text_def no_digit_def is_digit_def)
    then have "k = l" "?a mod 10 ^ k = ?b mod 10 ^ l" "x = y" using fixed_text_cut assms(3,4) stops_no_digit by blast+
    then have "?a = ?b" using c(2) by (metis div_mult_mod_eq)
    then show ?thesis using c(1) \<open>k = l\<close> \<open>x = y\<close> 4 by auto
  qed
qed

lemma json_text_coded: "coded json_text v"
proof (induction v)
  case (JArr vs)
  show ?case unfolding coded_def
  proof (intro allI impI)
    fix w x y assume a: "json_text (JArr vs) @ x = json_text w @ y" "stops x" "stops y"
    obtain ws where w: "w = JArr ws" using json_text_shape [OF a(1)] by (cases w) auto
    have "commas (map json_text vs) @ CHR '']'' # x = commas (map json_text ws) @ CHR '']'' # y" using a(1) w by simp
    from commas_cut [OF _ _ json_text_not_close this] JArr w show "JArr vs = w \<and> x = y" by simp
  qed
next
  case (JObj fs)
  let ?f = "\<lambda>f :: string \<times> jval. quote (fst f) @ CHR '':'' # json_text (snd f)"
  have entry: "coded ?f f" if "f \<in> set fs" for f
    unfolding coded_def
  proof (intro allI impI)
    fix g x y assume a: "?f f @ x = ?f g @ y" "stops x" "stops y"
    have "quote (fst f) @ CHR '':'' # json_text (snd f) @ x = quote (fst g) @ CHR '':'' # json_text (snd g) @ y" using a(1) by simp
    from quote_cut [OF this] have "fst f = fst g" "json_text (snd f) @ x = json_text (snd g) @ y" by simp_all
    moreover have "coded json_text (snd f)" using JObj that by (cases f) auto
    ultimately show "f = g \<and> x = y" using a(2,3) unfolding coded_def by (metis prod.collapse)
  qed
  show ?case unfolding coded_def
  proof (intro allI impI)
    fix w x y assume a: "json_text (JObj fs) @ x = json_text w @ y" "stops x" "stops y"
    obtain gs where w: "w = JObj gs" using json_text_shape [OF a(1)] by (cases w) auto
    have "commas (map ?f fs) @ CHR ''}'' # x = commas (map ?f gs) @ CHR ''}'' # y" using a(1) w by simp
    from commas_cut [OF _ _ _ this] entry w show "JObj fs = w \<and> x = y" by (simp add: quote_def)
  qed
next
  case (JInt n)
  show ?case using number_cut [of "JInt n"] unfolding coded_def by auto
next
  case (JFrac n k)
  show ?case using number_cut [of "JFrac n k"] unfolding coded_def by auto
next
  case (JStr s)
  show ?case unfolding coded_def
  proof (intro allI impI)
    fix w x y assume a: "json_text (JStr s) @ x = json_text w @ y"
    obtain t where w: "w = JStr t" using json_text_shape [OF a] by (cases w) auto
    then show "JStr s = w \<and> x = y" using a quote_cut [of s x t y] by simp
  qed
next
  case JNull
  show ?case unfolding coded_def
  proof (intro allI impI)
    fix w x y assume a: "json_text JNull @ x = json_text w @ y"
    then show "JNull = w \<and> x = y" using json_text_shape [OF a] by (cases w) auto
  qed
next
  case (JBool b)
  show ?case unfolding coded_def
  proof (intro allI impI)
    fix w x y assume a: "json_text (JBool b) @ x = json_text w @ y"
    then show "JBool b = w \<and> x = y" using json_text_shape [OF a] by (cases w) (auto split: if_splits)
  qed
qed

lemma json_text_inj: "json_text v = json_text w \<longleftrightarrow> v = w"
  using json_text_coded [of v] unfolding coded_def by (metis append_Nil2 stops_def)

section \<open>Canonical text\<close>

function canonical :: "jval \<Rightarrow> string" where
  "canonical (JArr vs) = CHR ''['' # commas (map canonical vs) @ '']''"
| "canonical (JObj fs) = CHR ''{'' # commas (map (\<lambda>f. quote (fst f) @ CHR '':'' # canonical (snd f)) (sort_key fst fs)) @ ''}''"
| "canonical JNull = ''null''"
| "canonical (JBool b) = json_text (JBool b)"
| "canonical (JInt n) = json_text (JInt n)"
| "canonical (JFrac n k) = json_text (JFrac n k)"
| "canonical (JStr s) = json_text (JStr s)"
  by pat_completeness auto

termination canonical
  by (relation "measure size") (auto simp: size_pair_list less_Suc_eq_le size_list_estimation')

text \<open>The value whose fields are sorted at every level.\<close>

fun sorted_fields :: "jval \<Rightarrow> jval" where
  "sorted_fields (JArr vs) = JArr (map sorted_fields vs)"
| "sorted_fields (JObj fs) = JObj (sort_key fst (map (\<lambda>f. (fst f, sorted_fields (snd f))) fs))"
| "sorted_fields v = v"

lemma sort_key_map: "sort_key f (map g xs) = map g (sort_key (\<lambda>x. f (g x)) xs)"
proof -
  have "insort_key f (g x) (map g ys) = map g (insort_key (\<lambda>x. f (g x)) x ys)" for x ys
    by (induction ys) auto
  then show ?thesis by (induction xs) auto
qed

lemma canonical_sorted: "canonical v = json_text (sorted_fields v)"
proof (induction v rule: canonical.induct)
  case (2 fs)
  then have "map (\<lambda>f. quote (fst f) @ CHR '':'' # canonical (snd f)) (sort_key fst fs)
      = map (\<lambda>f. quote (fst f) @ CHR '':'' # json_text (sorted_fields (snd f))) (sort_key fst fs)"
    by (intro map_cong) auto
  then show ?case unfolding canonical.simps sorted_fields.simps json_text.simps sort_key_map map_map comp_def fst_conv snd_conv
    by (simp only:)
qed (auto simp: comp_def cong: map_cong)

lemma canonical_eq: "canonical v = canonical w \<longleftrightarrow> sorted_fields v = sorted_fields w"
  by (simp add: canonical_sorted json_text_inj)

end
