(* ===== verification/StatementPolicy.thy ===== *)
theory StatementPolicy
  imports JsonText
begin

text \<open>\<open>sql/statement-policy.ts\<close>: the closed policy over the syntax tree of a statement.  The
  parser (libpg-query) is the parameter \<open>parser\<close>: it reads a statement to a JSON tree or fails.
  The walk of the source is \<open>walk\<close>, its state the record \<open>policy\<close>; \<open>visits\<close> lists the
  typed nodes of a tree with the common table expressions in scope, and \<open>walk\<close> is the inspection
  of that list in order.\<close>

section \<open>Tables of the policy\<close>

fun words :: "string \<Rightarrow> string list" where
  "words [] = [[]]"
| "words (c # cs) = (if c = CHR '' '' then [] # words cs else (case words cs of [] \<Rightarrow> [[c]] | w # ws \<Rightarrow> (c # w) # ws))"

definition node_fields :: "(string \<times> string) list" where
  "node_fields =
    [(''SelectStmt'', ''targetList fromClause whereClause groupClause havingClause sortClause limitOffset limitCount limitOption withClause valuesLists op''),
     (''InsertStmt'', ''relation cols selectStmt onConflictClause returningClause withClause override''),
     (''UpdateStmt'', ''relation targetList whereClause fromClause returningClause withClause''),
     (''DeleteStmt'', ''relation usingClause whereClause returningClause withClause''),
     (''RangeVar'', ''schemaname relname inh relpersistence alias''),
     (''Alias'', ''aliasname colnames''),
     (''ResTarget'', ''name val''),
     (''ColumnRef'', ''fields''),
     (''A_Star'', ''''),
     (''ParamRef'', ''number''),
     (''A_Const'', ''ival fval sval boolval bsval isnull''),
     (''A_Expr'', ''kind name lexpr rexpr''),
     (''BoolExpr'', ''boolop args''),
     (''NullTest'', ''arg nulltesttype argisrow''),
     (''BooleanTest'', ''arg booltesttype''),
     (''CaseExpr'', ''arg args defresult''),
     (''CaseWhen'', ''expr result''),
     (''CoalesceExpr'', ''args''),
     (''JoinExpr'', ''jointype isNatural larg rarg usingClause join_using_alias quals alias''),
     (''RangeSubselect'', ''subquery alias''),
     (''SortBy'', ''node sortby_dir sortby_nulls''),
     (''TypeCast'', ''arg typeName''),
     (''TypeName'', ''names typemod''),
     (''SubLink'', ''subLinkType testexpr operName subselect''),
     (''CommonTableExpr'', ''ctename aliascolnames ctematerialized ctequery''),
     (''WithClause'', ''ctes''),
     (''List'', ''items''),
     (''String'', ''sval''),
     (''Integer'', ''ival''),
     (''Float'', ''fval''),
     (''Boolean'', ''boolval''),
     (''BitString'', ''bsval''),
     (''SetToDefault'', ''''),
     (''OnConflictClause'', ''action infer targetList whereClause''),
     (''InferClause'', ''conname''),
     (''ReturningList'', ''exprs''),
     (''FuncCall'', ''funcname args agg_star agg_distinct funcformat''),
     (''SQLValueFunction'', ''op typmod'')]"

text \<open>A missing node type is the empty text.\<close>

definition implicit_type :: "string \<Rightarrow> string" where
  "implicit_type k = (case map_of
    [(''relation'', ''RangeVar''), (''alias'', ''Alias''), (''join_using_alias'', ''Alias''), (''withClause'', ''WithClause''),
     (''typeName'', ''TypeName''), (''onConflictClause'', ''OnConflictClause''), (''infer'', ''InferClause''), (''returningClause'', ''ReturningList'')] k of
    None \<Rightarrow> '''' | Some t \<Rightarrow> t)"

definition operators :: "string list" where
  "operators = words ''= <> < <= > >= + - * / % || -> ->> @> ?''"

definition aggregates :: "string list" where
  "aggregates = [''count'', ''sum'', ''min'', ''max'', ''avg'', ''jsonb_agg'']"

definition sql_functions :: "string list" where
  "sql_functions = aggregates @ [''coalesce'', ''nullif'', ''lower'', ''upper'', ''length'', ''trim'', ''now'',
     ''clock_timestamp'', ''gen_random_uuid'', ''jsonb_build_object'', ''to_jsonb'', ''date_trunc'']"

definition sql_types :: "string list" where
  "sql_types = [''text'', ''int4'', ''int8'', ''numeric'', ''bool'', ''uuid'', ''bytea'', ''jsonb'', ''timestamptz'', ''date'']"

definition names :: "jval option \<Rightarrow> string option list" where
  "names v = (case v of
     Some (JArr ps) \<Rightarrow> map (\<lambda>p. case jfield ''String'' p of None \<Rightarrow> None | Some s \<Rightarrow> Option.bind (jfield ''sval'' s) jstring) ps
   | _ \<Rightarrow> [])"

definition catalog_name :: "jval option \<Rightarrow> string" where
  "catalog_name v = (case names v of
     [Some t] \<Rightarrow> t
   | [Some q, Some t] \<Rightarrow> if q = ''pg_catalog'' then t else ''''
   | _ \<Rightarrow> '''')"

definition constant_or_param :: "jval option \<Rightarrow> bool" where
  "constant_or_param v = (case v of None \<Rightarrow> True | Some x \<Rightarrow> has_field ''A_Const'' x \<or> has_field ''ParamRef'' x)"

fun truthy :: "jval option \<Rightarrow> bool" where
  "truthy None = False"
| "truthy (Some JNull) = False"
| "truthy (Some (JBool b)) = b"
| "truthy (Some (JInt n)) = (n \<noteq> 0)"
| "truthy (Some (JStr s)) = (s \<noteq> [])"
| "truthy _ = True"

section \<open>The walk\<close>

record policy =
  po_forbidden :: "string option"
  po_relations :: "string list"
  po_parameters :: "int list"

definition reject :: "string \<Rightarrow> policy \<Rightarrow> policy" where
  "reject node p = (if po_forbidden p = None then p\<lparr>po_forbidden := Some node\<rparr> else p)"

definition add_relation :: "string \<Rightarrow> policy \<Rightarrow> policy" where
  "add_relation r p = (if r \<in> set (po_relations p) then p else p\<lparr>po_relations := po_relations p @ [r]\<rparr>)"

definition add_parameter :: "int \<Rightarrow> policy \<Rightarrow> policy" where
  "add_parameter k p = (if k \<in> set (po_parameters p) then p else p\<lparr>po_parameters := po_parameters p @ [k]\<rparr>)"

text \<open>The first field the node may not have decides what is reported.\<close>

definition bad_field :: "string \<Rightarrow> (string \<times> jval) list \<Rightarrow> string option" where
  "bad_field t fs = (case map_of node_fields t of
     None \<Rightarrow> Some t
   | Some allowed \<Rightarrow>
       map_option (\<lambda>f. if fst f = ''lockingClause'' then ''LockingClause'' else if fst f = ''intoClause'' then ''IntoClause''
            else if fst f = ''over'' then ''WindowDef''
            else (case snd f of JObj ((k, x) # gs) \<Rightarrow> k | _ \<Rightarrow> t))
         (find (\<lambda>f. fst f \<noteq> ''location'' \<and> fst f \<notin> set (words allowed)) fs))"

definition operator_ok :: "jval option \<Rightarrow> bool" where
  "operator_ok v = (case names v of [Some t] \<Rightarrow> t \<in> set operators | _ \<Rightarrow> False)"

definition relation_ok :: "string \<Rightarrow> (string \<times> jval) list \<Rightarrow> bool" where
  "relation_ok schema fs = (case map_of fs ''relname'' of
     Some (JStr r) \<Rightarrow> take 3 r \<noteq> ''pg_''
       \<and> (case map_of fs ''schemaname'' of None \<Rightarrow> True
          | Some s \<Rightarrow> s = JStr schema \<and> s \<noteq> JStr ''pg_catalog'' \<and> s \<noteq> JStr ''information_schema'')
   | _ \<Rightarrow> False)"

definition node_ok :: "string \<Rightarrow> int \<Rightarrow> string \<Rightarrow> (string \<times> jval) list \<Rightarrow> bool" where
  "node_ok schema n t fs =
    (let value = map_of fs; text = (\<lambda>k s. map_of fs k = Some (JStr s)) in
     if t = ''SelectStmt'' then text ''op'' ''SETOP_NONE'' \<and> constant_or_param (value ''limitCount'')
       \<and> constant_or_param (value ''limitOffset'')
       \<and> (text ''limitOption'' ''LIMIT_OPTION_DEFAULT'' \<or> text ''limitOption'' ''LIMIT_OPTION_COUNT'')
     else if t = ''InsertStmt'' then text ''override'' ''OVERRIDING_NOT_SET''
     else if t = ''RangeVar'' then relation_ok schema fs
     else if t = ''ParamRef'' then (case value ''number'' of Some (JInt k) \<Rightarrow> 1 \<le> k \<and> k \<le> n | _ \<Rightarrow> False)
     else if t = ''A_Expr'' then operator_ok (value ''name'') \<and> (text ''kind'' ''AEXPR_OP'' \<or> text ''kind'' ''AEXPR_NULLIF'')
     else if t = ''JoinExpr'' then text ''jointype'' ''JOIN_INNER'' \<or> text ''jointype'' ''JOIN_LEFT''
     else if t = ''TypeName'' then catalog_name (value ''names'') \<in> set sql_types
     else if t = ''SubLink'' then value ''operName'' = None \<or> operator_ok (value ''operName'')
     else if t = ''OnConflictClause'' then text ''action'' ''ONCONFLICT_NOTHING''
       \<or> (text ''action'' ''ONCONFLICT_UPDATE''
          \<and> (case value ''infer'' of Some x \<Rightarrow> Option.bind (jfield ''conname'' x) jstring \<noteq> None | None \<Rightarrow> False))
     else if t = ''FuncCall'' then
       (let name = catalog_name (value ''funcname'');
            trim = text ''funcformat'' ''COERCE_SQL_SYNTAX'' \<and> name \<in> {''btrim'', ''ltrim'', ''rtrim''} in
        (name \<in> set sql_functions \<or> trim)
        \<and> (truthy (value ''agg_star'') \<or> truthy (value ''agg_distinct'') \<longrightarrow> name \<in> set aggregates))
     else if t = ''SQLValueFunction'' then text ''op'' ''SVFOP_CURRENT_TIMESTAMP''
     else if t = ''CommonTableExpr'' then
       (case value ''ctequery'' of Some x \<Rightarrow> (case jfield ''SelectStmt'' x of Some y \<Rightarrow> is_object y | None \<Rightarrow> False) | None \<Rightarrow> False)
     else True)"

text \<open>What a node that passes contributes: the table a RangeVar names unless it is a common table
  expression in scope, the number of a parameter.\<close>

definition record_node :: "string list \<Rightarrow> string \<Rightarrow> (string \<times> jval) list \<Rightarrow> policy \<Rightarrow> policy" where
  "record_node scope t fs =
     (if t = ''RangeVar'' then
        (case map_of fs ''relname'' of
           Some (JStr r) \<Rightarrow> if map_of fs ''schemaname'' \<noteq> None \<or> r \<notin> set scope then add_relation r else id
         | _ \<Rightarrow> id)
      else if t = ''ParamRef'' then (case map_of fs ''number'' of Some (JInt k) \<Rightarrow> add_parameter k | _ \<Rightarrow> id)
      else id)"

definition check_node :: "string \<Rightarrow> int \<Rightarrow> string list \<Rightarrow> string \<Rightarrow> (string \<times> jval) list \<Rightarrow> policy \<Rightarrow> policy" where
  "check_node schema n scope t fs p = (if node_ok schema n t fs then record_node scope t fs p else reject t p)"

definition cte_name :: "jval \<Rightarrow> string list" where
  "cte_name cte = (case jfield ''CommonTableExpr'' cte of
     None \<Rightarrow> [] | Some c \<Rightarrow> (case jfield ''ctename'' c of Some (JStr t) \<Rightarrow> [t] | _ \<Rightarrow> []))"

definition ends_stmt :: "string \<Rightarrow> bool" where
  "ends_stmt t \<longleftrightarrow> 4 \<le> length t \<and> drop (length t - 4) t = ''Stmt''"

fun with_object :: "string \<Rightarrow> (string \<times> jval) list \<Rightarrow> jval option" where
  "with_object t fs = (case map_of fs ''withClause'' of Some (JObj gs) \<Rightarrow> if ends_stmt t then Some (JObj gs) else None | _ \<Rightarrow> None)"

fun cte_list :: "jval \<Rightarrow> jval list" where
  "cte_list v = (case jfield ''ctes'' v of Some (JArr cs) \<Rightarrow> cs | _ \<Rightarrow> [])"

lemma cte_name_iff:
  "r \<in> set (cte_name c) \<longleftrightarrow> (\<exists>x. jfield ''CommonTableExpr'' c = Some x \<and> jfield ''ctename'' x = Some (JStr r))"
  by (auto simp: cte_name_def split: option.split jval.split) metis

lemma cte_list_iff: "c \<in> set (cte_list v) \<longleftrightarrow> (\<exists>cs. jfield ''ctes'' v = Some (JArr cs) \<and> c \<in> set cs)"
  by (auto split: option.split jval.split) metis

definition local_scope :: "string \<Rightarrow> (string \<times> jval) list \<Rightarrow> string list \<Rightarrow> string list" where
  "local_scope t fs scope = (case with_object t fs of None \<Rightarrow> scope | Some w \<Rightarrow> scope @ concat (map cte_name (cte_list w)))"

definition skipped :: "string \<Rightarrow> string \<Rightarrow> bool" where
  "skipped t k \<longleftrightarrow> k = ''location'' \<or> (k = ''withClause'' \<and> ends_stmt t)"

definition with_ctes :: "string \<Rightarrow> (string \<times> jval) list \<Rightarrow> jval list option" where
  "with_ctes t fs = (if t = ''WithClause'' then (case map_of fs ''ctes'' of Some (JArr cs) \<Rightarrow> Some cs | _ \<Rightarrow> None) else None)"

lemma size_field: "map_of fs k = Some x \<Longrightarrow> size x < Suc (size_list (size_prod (\<lambda>x. 0) size) fs)"
  using size_pair_list [of "(k, x)"] by (auto dest: map_of_SomeD)

lemma size_with: "with_object t fs = Some x \<Longrightarrow> size x < Suc (size_list (size_prod (\<lambda>x. 0) size) fs)"
  by (auto split: option.splits jval.splits if_splits dest: size_field)

lemma size_cte: "with_ctes t fs = Some cs \<Longrightarrow> c \<in> set cs \<Longrightarrow> size c < Suc (size_list (size_prod (\<lambda>x. 0) size) fs)"
  using size_list_estimation' [of c cs "size c" size]
  by (auto simp: with_ctes_def split: option.splits jval.splits if_splits dest!: size_field)

function walk_node :: "string \<Rightarrow> int \<Rightarrow> jval \<Rightarrow> string list \<Rightarrow> nat \<Rightarrow> string \<Rightarrow> policy \<Rightarrow> policy" where
  "walk_node schema n v scope depth t p =
     (if po_forbidden p \<noteq> None \<or> v = JNull then p
      else if 128 < depth then reject (if t = '''' then ''List'' else t) p
      else (case v of
        JArr vs \<Rightarrow> fold (\<lambda>c. walk_node schema n c scope (Suc depth) '''') vs p
      | JObj fs \<Rightarrow>
          if t = '''' then fold (\<lambda>f. walk_node schema n (snd f) scope (Suc depth) (fst f)) fs p
          else (case bad_field t fs of
             Some node \<Rightarrow> reject node p
           | None \<Rightarrow>
               let p = check_node schema n scope t fs p in
               if t = ''A_Const'' then p
               else (case with_ctes t fs of
                   Some cs \<Rightarrow> snd (fold (\<lambda>c (pre, p). (pre @ cte_name c, walk_node schema n c pre (Suc depth) '''' p)) cs (scope, p))
                 | None \<Rightarrow>
                     let p = (case with_object t fs of None \<Rightarrow> p | Some w \<Rightarrow> walk_node schema n w scope (Suc depth) ''WithClause'' p)
                     in fold (\<lambda>f p. if skipped t (fst f) then p
                            else walk_node schema n (snd f) (if fst f = ''relation'' then [] else local_scope t fs scope) (Suc depth)
                              (implicit_type (fst f)) p) fs p))
      | _ \<Rightarrow> p))"
  by pat_completeness auto

termination walk_node
  by (relation "measure (\<lambda>(schema, n, v, scope, depth, t, p). size v)")
    (auto simp: less_Suc_eq_le size_list_estimation' intro: size_pair_list [unfolded less_Suc_eq_le]
      size_with [unfolded less_Suc_eq_le] size_cte [unfolded less_Suc_eq_le] simp del: with_object.simps)

declare walk_node.simps [simp del]

section \<open>The decision\<close>

text \<open>The text the fingerprint hashes: without source positions, and with every constant reduced
  to its kind.\<close>

definition constant_kind :: "jval \<Rightarrow> string" where
  "constant_kind v = (if truthy (jfield ''isnull'' v) then ''null'' else if has_field ''ival'' v then ''integer''
     else if has_field ''fval'' v then ''numeric'' else if has_field ''sval'' v then ''string''
     else if has_field ''boolval'' v then ''boolean'' else ''bitstring'')"

fun normalized :: "jval \<Rightarrow> jval" where
  "normalized (JArr vs) = JArr (map normalized vs)"
| "normalized (JObj fs) = JObj (map (\<lambda>f. (fst f,
       if fst f = ''A_Const'' \<and> is_object (snd f) then JStr (constant_kind (snd f)) else normalized (snd f)))
     (filter (\<lambda>f. fst f \<noteq> ''location'') fs))"
| "normalized v = v"

datatype statement_kind = Select_statement | Insert_statement | Update_statement | Delete_statement

record statement_decision =
  sd_kind :: statement_kind
  sd_relations :: "string list"
  sd_fingerprint :: string
  sd_write :: "string option"
  sd_insert_only :: "bool option"

definition root_kind :: "jval \<Rightarrow> statement_kind option" where
  "root_kind root = (if has_field ''SelectStmt'' root then Some Select_statement
     else if has_field ''InsertStmt'' root then Some Insert_statement
     else if has_field ''UpdateStmt'' root then Some Update_statement
     else if has_field ''DeleteStmt'' root then Some Delete_statement else None)"

fun first_key :: "jval \<Rightarrow> string" where
  "first_key (JObj (f # fs)) = fst f"
| "first_key _ = ''RawStmt''"

definition write_table :: "jval \<Rightarrow> string option" where
  "write_table root =
     (let mutation = (if has_field ''UpdateStmt'' root then jfield ''UpdateStmt'' root
          else if has_field ''DeleteStmt'' root then jfield ''DeleteStmt'' root else jfield ''InsertStmt'' root)
      in case Option.bind (Option.bind (Option.bind mutation (jfield ''relation'')) (jfield ''relname'')) jstring of
           Some t \<Rightarrow> if t = [] then None else Some t | None \<Rightarrow> None)"

definition insert_only :: "jval \<Rightarrow> bool" where
  "insert_only root \<longleftrightarrow> has_field ''InsertStmt'' root
     \<and> Option.bind (Option.bind (jfield ''InsertStmt'' root) (jfield ''onConflictClause'')) (jfield ''action'') \<noteq> Some (JStr ''ONCONFLICT_UPDATE'')"

definition single_statement :: "jval \<Rightarrow> jval option" where
  "single_statement parsed = (case jfield ''stmts'' parsed of Some (JArr [s]) \<Rightarrow> Some s | _ \<Rightarrow> None)"

definition walk_root :: "string \<Rightarrow> int \<Rightarrow> jval \<Rightarrow> policy" where
  "walk_root schema n root =
     (let p = walk_node schema n root [] 0 '''' \<lparr>po_forbidden = None, po_relations = [], po_parameters = []\<rparr>
      in if int (length (po_parameters p)) \<noteq> n then reject ''ParamRef'' p else p)"

definition statement_policy ::
  "(string \<Rightarrow> jval option) \<Rightarrow> (string \<Rightarrow> string) \<Rightarrow> string \<Rightarrow> string \<Rightarrow> int \<Rightarrow> string \<times> string option + statement_decision" where
  "statement_policy parser sha statement schema n =
     (case parser statement of
        None \<Rightarrow> Inl (''sql_syntax_error'', None)
      | Some parsed \<Rightarrow>
          (case single_statement parsed of
             None \<Rightarrow> Inl (''sql_multiple_statements'', None)
           | Some s \<Rightarrow>
               (case jfield ''stmt'' s of
                  Some (JObj fs) \<Rightarrow>
                    let root = JObj fs in
                    (case root_kind root of
                       None \<Rightarrow> Inl (''sql_statement_forbidden'', Some (first_key root))
                     | Some kind \<Rightarrow>
                         let p = walk_root schema n root in
                         (case po_forbidden p of
                            Some node \<Rightarrow> Inl (''sql_statement_forbidden'', Some node)
                          | None \<Rightarrow> Inr \<lparr>sd_kind = kind, sd_relations = sort (po_relations p),
                              sd_fingerprint = sha (json_text (normalized root)), sd_write = write_table root,
                              sd_insert_only = (if kind = Insert_statement then Some (insert_only root) else None)\<rparr>))
                | _ \<Rightarrow> Inl (''sql_syntax_error'', None))))"

section \<open>The walk is the inspection of the visited nodes in order\<close>

datatype visit = Node string "(string \<times> jval) list" "string list" | Too_deep string

fun scopes :: "string list \<Rightarrow> jval list \<Rightarrow> (jval \<times> string list) list" where
  "scopes scope [] = []"
| "scopes scope (c # cs) = (c, scope) # scopes (scope @ cte_name c) cs"

lemma scopes_fst: "x \<in> set (scopes scope cs) \<Longrightarrow> fst x \<in> set cs"
  by (induction cs arbitrary: scope) auto

lemma size_scopes: "with_ctes t fs = Some cs \<Longrightarrow> x \<in> set (scopes scope cs) \<Longrightarrow> size (fst x) < Suc (size_list (size_prod (\<lambda>x. 0) size) fs)"
  by (blast intro: size_cte scopes_fst)

function visits :: "jval \<Rightarrow> string list \<Rightarrow> nat \<Rightarrow> string \<Rightarrow> visit list" where
  "visits v scope depth t =
     (if v = JNull then []
      else if 128 < depth then [Too_deep (if t = '''' then ''List'' else t)]
      else (case v of
        JArr vs \<Rightarrow> concat (map (\<lambda>c. visits c scope (Suc depth) '''') vs)
      | JObj fs \<Rightarrow>
          if t = '''' then concat (map (\<lambda>f. visits (snd f) scope (Suc depth) (fst f)) fs)
          else Node t fs scope #
            (if t = ''A_Const'' then []
             else (case with_ctes t fs of
                 Some cs \<Rightarrow> concat (map (\<lambda>x. visits (fst x) (snd x) (Suc depth) '''') (scopes scope cs))
               | None \<Rightarrow> (case with_object t fs of None \<Rightarrow> [] | Some w \<Rightarrow> visits w scope (Suc depth) ''WithClause'')
                   @ concat (map (\<lambda>f. if skipped t (fst f) then []
                       else visits (snd f) (if fst f = ''relation'' then [] else local_scope t fs scope) (Suc depth) (implicit_type (fst f))) fs)))
      | _ \<Rightarrow> []))"
  by pat_completeness auto

termination visits
  by (relation "measure (\<lambda>(v, scope, depth, t). size v)")
    (auto simp: less_Suc_eq_le size_list_estimation' intro: size_pair_list [unfolded less_Suc_eq_le]
      size_with [unfolded less_Suc_eq_le] size_scopes [unfolded less_Suc_eq_le] simp del: with_object.simps)

declare visits.simps [simp del]

text \<open>One step of the walk and of the list, constructor by constructor.\<close>

lemmas walk_eqs = walk_node.simps [of _ _ JNull] walk_node.simps [of _ _ "JBool b"] walk_node.simps [of _ _ "JInt i"] walk_node.simps [of _ _ "JFrac i k"]
  walk_node.simps [of _ _ "JStr s"] walk_node.simps [of _ _ "JArr vs"] walk_node.simps [of _ _ "JObj fs"] for b i k s vs fs

lemmas visits_eqs = visits.simps [of JNull] visits.simps [of "JBool b"] visits.simps [of "JInt i"] visits.simps [of "JFrac i k"]
  visits.simps [of "JStr s"] visits.simps [of "JArr vs"] visits.simps [of "JObj fs"] for b i k s vs fs

definition inspect :: "string \<Rightarrow> int \<Rightarrow> visit \<Rightarrow> policy \<Rightarrow> policy" where
  "inspect schema n x p = (if po_forbidden p \<noteq> None then p else (case x of
     Too_deep t \<Rightarrow> reject t p
   | Node t fs scope \<Rightarrow> (case bad_field t fs of Some node \<Rightarrow> reject node p | None \<Rightarrow> check_node schema n scope t fs p)))"

lemma inspect_stopped [simp]: "po_forbidden p \<noteq> None \<Longrightarrow> fold (inspect schema n) xs p = p"
  by (induction xs) (simp_all add: inspect_def)

lemma fold_concat_map: "fold f (concat (map g xs)) p = fold (\<lambda>x. fold f (g x)) xs p"
  by (induction xs arbitrary: p) simp_all

lemma fold_scopes:
  "snd (fold (\<lambda>c (pre, p). (pre @ cte_name c, f c pre p)) cs (scope, p)) = fold (\<lambda>x. f (fst x) (snd x)) (scopes scope cs) p"
  by (induction cs arbitrary: scope p) simp_all

lemma walk_visits: "walk_node schema n v scope depth t p = fold (inspect schema n) (visits v scope depth t) p"
proof (induction v arbitrary: scope depth t p rule: measure_induct_rule [of size])
  case (less v)
  show ?case
  proof (cases "po_forbidden p \<noteq> None \<or> v = JNull \<or> 128 < depth")
    case True
    then consider "po_forbidden p \<noteq> None" | "po_forbidden p = None" "v = JNull" | "po_forbidden p = None" "v \<noteq> JNull" "128 < depth"
      by blast
    then show ?thesis
      by cases (simp_all add: walk_node.simps [of _ _ v] visits.simps [of v] walk_eqs visits_eqs inspect_def [of _ _ "Too_deep _"])
  next
    case go: False
    then have p: "po_forbidden p = None" and d: "\<not> 128 < depth" and v: "v \<noteq> JNull" by auto
    show ?thesis
    proof (cases v)
      case (JArr vs)
      have "fold (\<lambda>c. walk_node schema n c scope (Suc depth) '''') vs p
          = fold (\<lambda>c. fold (inspect schema n) (visits c scope (Suc depth) '''')) vs p"
        using less JArr by (intro fold_cong) (auto simp: less_Suc_eq_le size_list_estimation')
      then show ?thesis using p d by (simp add: walk_eqs visits_eqs JArr fold_concat_map)
    next
      case (JObj fs)
      have field: "walk_node schema n (snd f) s k u q = fold (inspect schema n) (visits (snd f) s k u) q" if "f \<in> set fs" for f s k u q
        using less JObj size_pair_list [OF that] by simp
      have cte: "walk_node schema n (fst x) s k u q = fold (inspect schema n) (visits (fst x) s k u) q"
        if "with_ctes t fs = Some cs" "x \<in> set (scopes scope cs)" for x cs s k u q
        using less JObj size_scopes [OF that] by simp
      have obj: "walk_node schema n w s k u q = fold (inspect schema n) (visits w s k u) q" if "with_object t fs = Some w" for w s k u q
        using less JObj size_with [OF that] by simp
      show ?thesis
      proof (cases "t = ''''")
        case True
        have "fold (\<lambda>f. walk_node schema n (snd f) scope (Suc depth) (fst f)) fs p
            = fold (\<lambda>f. fold (inspect schema n) (visits (snd f) scope (Suc depth) (fst f))) fs p"
          by (intro fold_cong) (auto simp: field [of "(a, b)" for a b, simplified])
        then show ?thesis using p d True by (simp add: walk_eqs visits_eqs JObj fold_concat_map)
      next
        case t: False
        have head: "inspect schema n (Node t fs scope) p
            = (case bad_field t fs of Some node \<Rightarrow> reject node p | None \<Rightarrow> check_node schema n scope t fs p)"
          using p by (simp add: inspect_def)
        show ?thesis
        proof (cases "bad_field t fs")
          case (Some node)
          have "po_forbidden (reject node p) \<noteq> None" using p by (simp add: reject_def)
          then show ?thesis using Some p d t head
            by (simp add: walk_eqs visits_eqs JObj)
        next
          case None
          let ?q = "check_node schema n scope t fs p"
          have ctes: "snd (fold (\<lambda>c (pre, p). (pre @ cte_name c, walk_node schema n c pre (Suc depth) '''' p)) cs (scope, ?q))
              = fold (\<lambda>x. fold (inspect schema n) (visits (fst x) (snd x) (Suc depth) '''')) (scopes scope cs) ?q"
            if "with_ctes t fs = Some cs" for cs
            unfolding fold_scopes by (intro fold_cong) (auto simp: cte [OF that, of "(a, b)" for a b, simplified])
          have kids: "fold (\<lambda>f p. if skipped t (fst f) then p
                else walk_node schema n (snd f) (if fst f = ''relation'' then [] else local_scope t fs scope) (Suc depth) (implicit_type (fst f)) p) fs q
              = fold (\<lambda>f. fold (inspect schema n) (if skipped t (fst f) then []
                else visits (snd f) (if fst f = ''relation'' then [] else local_scope t fs scope) (Suc depth) (implicit_type (fst f)))) fs q" for q
            by (intro fold_cong) (auto simp: field)
          show ?thesis using None p d t head
            by (cases "with_ctes t fs"; cases "with_object t fs")
              (simp_all add: walk_eqs visits_eqs JObj Let_def ctes kids obj fold_concat_map del: with_object.simps)
        qed
      qed
    qed (use p d in \<open>simp_all add: walk_eqs visits_eqs\<close>)
  qed
qed

end
