(* ===== verification/StatementProps.thy ===== *)
theory StatementProps
  imports StatementPolicy
begin

text \<open>What an accepted statement can contain.\<close>

section \<open>Accepted visits\<close>

fun passes :: "string \<Rightarrow> int \<Rightarrow> visit \<Rightarrow> bool" where
  "passes schema n (Node t fs scope) = (bad_field t fs = None \<and> node_ok schema n t fs)"
| "passes schema n (Too_deep t) = False"

fun reads :: "visit \<Rightarrow> string list" where
  "reads (Node t fs scope) = (case map_of fs ''relname'' of
     Some (JStr r) \<Rightarrow> if t = ''RangeVar'' \<and> (map_of fs ''schemaname'' \<noteq> None \<or> r \<notin> set scope) then [r] else []
   | _ \<Rightarrow> [])"
| "reads (Too_deep t) = []"

fun binds :: "visit \<Rightarrow> int list" where
  "binds (Node t fs scope) = (case map_of fs ''number'' of Some (JInt k) \<Rightarrow> if t = ''ParamRef'' then [k] else [] | _ \<Rightarrow> [])"
| "binds (Too_deep t) = []"

lemma add_fields [simp]:
  "po_forbidden (add_relation r p) = po_forbidden p" "po_forbidden (add_parameter k p) = po_forbidden p"
  "set (po_relations (add_relation r p)) = insert r (set (po_relations p))" "po_relations (add_parameter k p) = po_relations p"
  "po_parameters (add_relation r p) = po_parameters p" "set (po_parameters (add_parameter k p)) = insert k (set (po_parameters p))"
  "distinct (po_parameters (add_parameter k p)) = distinct (po_parameters p)"
  by (auto simp: add_relation_def add_parameter_def)

lemma record_node_fields:
  "po_forbidden (record_node scope t fs p) = po_forbidden p"
  "set (po_relations (record_node scope t fs p)) = set (reads (Node t fs scope)) \<union> set (po_relations p)"
  "set (po_parameters (record_node scope t fs p)) = set (binds (Node t fs scope)) \<union> set (po_parameters p)"
  "distinct (po_parameters (record_node scope t fs p)) = distinct (po_parameters p)"
  by (auto simp: record_node_def split: option.splits jval.splits)

lemma inspect_passes:
  assumes "po_forbidden p = None"
  shows "po_forbidden (inspect schema n x p) = None \<longleftrightarrow> passes schema n x"
    and "passes schema n x \<Longrightarrow> set (po_relations (inspect schema n x p)) = set (reads x) \<union> set (po_relations p)"
    and "passes schema n x \<Longrightarrow> set (po_parameters (inspect schema n x p)) = set (binds x) \<union> set (po_parameters p)"
    and "passes schema n x \<Longrightarrow> distinct (po_parameters (inspect schema n x p)) = distinct (po_parameters p)"
  using assms by (cases x; simp add: inspect_def check_node_def reject_def record_node_fields split: option.splits)+

lemma fold_inspect:
  assumes "po_forbidden p = None" "po_forbidden (fold (inspect schema n) xs p) = None"
  shows "(\<forall>x\<in>set xs. passes schema n x)
    \<and> set (po_relations (fold (inspect schema n) xs p)) = set (concat (map reads xs)) \<union> set (po_relations p)
    \<and> set (po_parameters (fold (inspect schema n) xs p)) = set (concat (map binds xs)) \<union> set (po_parameters p)
    \<and> distinct (po_parameters (fold (inspect schema n) xs p)) = distinct (po_parameters p)"
  using assms
proof (induction xs arbitrary: p)
  case (Cons x xs)
  show ?case
  proof (cases "passes schema n x")
    case True
    then show ?thesis using Cons.IH [of "inspect schema n x p"] Cons.prems inspect_passes [OF Cons.prems(1), of schema n x] by auto
  next
    case False
    then have "po_forbidden (inspect schema n x p) \<noteq> None" using inspect_passes(1) [OF Cons.prems(1)] by blast
    then show ?thesis using Cons.prems(2) by simp
  qed
qed simp

section \<open>Names in scope are common table expressions of the statement\<close>

definition declares :: "string \<Rightarrow> visit list \<Rightarrow> bool" where
  "declares r xs \<longleftrightarrow> (\<exists>fs scope. Node ''CommonTableExpr'' fs scope \<in> set xs \<and> map_of fs ''ctename'' = Some (JStr r))"

definition shallow :: "visit list \<Rightarrow> bool" where
  "shallow xs \<longleftrightarrow> (\<forall>t. Too_deep t \<notin> set xs)"

lemma declares_mono: "declares r xs \<Longrightarrow> set xs \<subseteq> set ys \<Longrightarrow> declares r ys"
  by (auto simp: declares_def)

lemma shallow_mono: "shallow ys \<Longrightarrow> set xs \<subseteq> set ys \<Longrightarrow> shallow xs"
  by (auto simp: shallow_def)

lemma cte_declares:
  assumes "r \<in> set (cte_name c)" "shallow (visits c scope depth '''')"
  shows "declares r (visits c scope depth '''')"
proof -
  obtain x where x: "jfield ''CommonTableExpr'' c = Some x" "jfield ''ctename'' x = Some (JStr r)"
    using assms(1) unfolding cte_name_iff by blast
  then obtain fs gs where c: "c = JObj fs" "map_of fs ''CommonTableExpr'' = Some (JObj gs)" "map_of gs ''ctename'' = Some (JStr r)"
    by (cases c; cases x) simp_all
  have d: "\<not> 128 < depth" using assms(2) c(1) by (auto simp: visits_eqs shallow_def)
  have sub: "set (visits (JObj gs) scope (Suc depth) ''CommonTableExpr'') \<subseteq> set (visits c scope depth '''')"
    using d c(1) map_of_SomeD [OF c(2)] by (force simp: visits_eqs)
  have "\<not> 128 < Suc depth" using shallow_mono [OF assms(2) sub] by (auto simp: visits_eqs shallow_def)
  then have "Node ''CommonTableExpr'' gs scope \<in> set (visits (JObj gs) scope (Suc depth) ''CommonTableExpr'')"
    by (simp add: visits_eqs)
  then show ?thesis using sub c(3) unfolding declares_def by blast
qed

lemma scopes_names: "x \<in> set (scopes scope cs) \<Longrightarrow> r \<in> set (snd x) \<Longrightarrow> r \<in> set scope \<or> (\<exists>c\<in>set cs. r \<in> set (cte_name c))"
  by (induction cs arbitrary: scope) fastforce+

lemma scopes_all: "c \<in> set cs \<Longrightarrow> \<exists>s. (c, s) \<in> set (scopes scope cs)"
  by (induction cs arbitrary: scope) auto

lemma ctes_declare:
  assumes "with_ctes ''WithClause'' fs = Some cs" "c \<in> set cs" "r \<in> set (cte_name c)"
    and "shallow (visits (JObj fs) scope depth ''WithClause'')"
  shows "declares r (visits (JObj fs) scope depth ''WithClause'')"
proof -
  have d: "\<not> 128 < depth" using assms(4) by (auto simp: visits_eqs shallow_def)
  obtain s where s: "(c, s) \<in> set (scopes scope cs)" using scopes_all [OF assms(2)] by blast
  have sub: "set (visits c s (Suc depth) '''') \<subseteq> set (visits (JObj fs) scope depth ''WithClause'')"
    using d assms(1) s by (force simp: visits_eqs)
  show ?thesis using cte_declares [OF assms(3) shallow_mono [OF assms(4) sub]] declares_mono [OF _ sub] by blast
qed

lemma scope_declared:
  assumes "Node u gs sc \<in> set (visits v scope depth t)" "r \<in> set sc" "shallow (visits v scope depth t)"
  shows "r \<in> set scope \<or> declares r (visits v scope depth t)"
  using assms
proof (induction v arbitrary: scope depth t rule: measure_induct_rule [of size])
  case (less v)
  have v: "v \<noteq> JNull" "\<not> 128 < depth"
    using less.prems(1) by (cases v; simp add: visits_eqs split: if_splits)+
  show ?case
  proof (cases v)
    case (JArr vs)
    then obtain c where c: "c \<in> set vs" "Node u gs sc \<in> set (visits c scope (Suc depth) '''')"
      using less.prems(1) v by (auto simp: visits_eqs)
    have sub: "set (visits c scope (Suc depth) '''') \<subseteq> set (visits v scope depth t)"
      using JArr v(2) c(1) by (force simp: visits_eqs)
    have "size c < size v" using c(1) JArr by (auto simp: less_Suc_eq_le size_list_estimation')
    from less.IH [OF this c(2) less.prems(2) shallow_mono [OF less.prems(3) sub]] show ?thesis using declares_mono [OF _ sub] by blast
  next
    case (JObj fs)
    show ?thesis
    proof (cases "t = ''''")
      case True
      then obtain f where f: "f \<in> set fs" "Node u gs sc \<in> set (visits (snd f) scope (Suc depth) (fst f))"
        using less.prems(1) v JObj by (auto simp: visits_eqs)
      have sub: "set (visits (snd f) scope (Suc depth) (fst f)) \<subseteq> set (visits v scope depth t)"
        using JObj v(2) f(1) True by (force simp: visits_eqs)
      have "size (snd f) < size v" using size_pair_list [OF f(1)] JObj by simp
      from less.IH [OF this f(2) less.prems(2) shallow_mono [OF less.prems(3) sub]] show ?thesis using declares_mono [OF _ sub] by blast
    next
      case t: False
      consider (here) "sc = scope"
        | (cte) cs x where "with_ctes t fs = Some cs" "t \<noteq> ''A_Const''" "x \<in> set (scopes scope cs)" "Node u gs sc \<in> set (visits (fst x) (snd x) (Suc depth) '''')"
        | (clause) w where "with_ctes t fs = None" "t \<noteq> ''A_Const''" "with_object t fs = Some w" "Node u gs sc \<in> set (visits w scope (Suc depth) ''WithClause'')"
        | (field) f where "with_ctes t fs = None" "t \<noteq> ''A_Const''" "f \<in> set fs" "\<not> skipped t (fst f)"
            "Node u gs sc \<in> set (visits (snd f) (if fst f = ''relation'' then [] else local_scope t fs scope) (Suc depth) (implicit_type (fst f)))"
        using less.prems(1) v t JObj
        by (cases "with_ctes t fs"; cases "with_object t fs")
          (auto simp: visits_eqs simp del: with_object.simps split: if_splits)
      then show ?thesis
      proof cases
        case here
        then show ?thesis using less.prems(2) by simp
      next
        case (cte cs x)
        have wt: "t = ''WithClause''" using cte(1) by (simp add: with_ctes_def split: if_splits)
        have sub: "set (visits (fst x) (snd x) (Suc depth) '''') \<subseteq> set (visits v scope depth t)"
          using JObj v(2) t cte(1,2,3) by (force simp: visits_eqs)
        have "size (fst x) < size v" using size_scopes [OF cte(1,3)] JObj by simp
        from less.IH [OF this cte(4) less.prems(2) shallow_mono [OF less.prems(3) sub]]
        consider "r \<in> set (snd x)" | "declares r (visits v scope depth t)" using declares_mono [OF _ sub] by blast
        then show ?thesis
        proof cases
          case 1
          from scopes_names [OF cte(3) this] show ?thesis
            using ctes_declare [OF cte(1) [unfolded wt]] less.prems(3) JObj wt by blast
        qed simp
      next
        case (clause w)
        have sub: "set (visits w scope (Suc depth) ''WithClause'') \<subseteq> set (visits v scope depth t)"
          using JObj v(2) t clause(1,2,3) by (auto simp: visits_eqs simp del: with_object.simps)
        have "size w < size v" using size_with [OF clause(3)] JObj by simp
        from less.IH [OF this clause(4) less.prems(2) shallow_mono [OF less.prems(3) sub]] show ?thesis using declares_mono [OF _ sub] by blast
      next
        case (field f)
        let ?s = "if fst f = ''relation'' then [] else local_scope t fs scope"
        have sub: "set (visits (snd f) ?s (Suc depth) (implicit_type (fst f))) \<subseteq> set (visits v scope depth t)"
          using JObj v(2) t field(1,2,3,4) by (cases "with_object t fs") (force simp: visits_eqs simp del: with_object.simps)+
        have "size (snd f) < size v" using size_pair_list [OF field(3)] JObj by simp
        from less.IH [OF this field(5) less.prems(2) shallow_mono [OF less.prems(3) sub]]
        consider "r \<in> set (local_scope t fs scope)" | "declares r (visits v scope depth t)"
          using declares_mono [OF _ sub] by (auto split: if_splits)
        then show ?thesis
        proof cases
          case 1
          show ?thesis
          proof (cases "with_object t fs")
            case None
            then show ?thesis using 1 by (simp add: local_scope_def del: with_object.simps)
          next
            case (Some w)
            then obtain ws where w: "w = JObj ws" by (auto split: option.splits jval.splits if_splits)
            have wsub: "set (visits w scope (Suc depth) ''WithClause'') \<subseteq> set (visits v scope depth t)"
              using JObj v(2) t field(1,2) Some by (auto simp: visits_eqs simp del: with_object.simps)
            consider "r \<in> set scope" | c where "c \<in> set (cte_list w)" "r \<in> set (cte_name c)"
              using 1 Some by (auto simp: local_scope_def simp del: with_object.simps cte_list.simps)
            then show ?thesis
            proof cases
              case (2 c)
              then obtain cs where "with_ctes ''WithClause'' ws = Some cs" "c \<in> set cs"
                using w unfolding cte_list_iff by (auto simp: with_ctes_def)
              from ctes_declare [OF this 2(2)] shallow_mono [OF less.prems(3) wsub] show ?thesis
                using declares_mono [OF _ wsub] w by blast
            qed simp
          qed
        qed simp
      qed
    qed
  qed (use less.prems(1) v in \<open>simp_all add: visits_eqs\<close>)
qed

section \<open>The properties\<close>

lemma parameters_exact:
  assumes "distinct ps" "int (length ps) = n" "\<forall>k\<in>set ps. 1 \<le> k \<and> k \<le> n"
  shows "set ps = {1..n}"
proof -
  have "set ps \<subseteq> {1..n}" using assms(3) by auto
  moreover have "card (set ps) = card {1..n}" using assms(1,2) distinct_card [of ps] by simp
  ultimately show ?thesis by (simp add: card_subset_eq)
qed

lemma statement_policy_Inr:
  assumes "statement_policy parser sha statement schema n = Inr d"
  obtains parsed s fs where "parser statement = Some parsed" "single_statement parsed = Some s" "jfield ''stmt'' s = Some (JObj fs)"
    and "root_kind (JObj fs) = Some (sd_kind d)" "po_forbidden (walk_root schema n (JObj fs)) = None"
    and "sd_relations d = sort (po_relations (walk_root schema n (JObj fs)))"
    and "sd_fingerprint d = sha (json_text (normalized (JObj fs)))"
    and "sd_write d = write_table (JObj fs)"
    and "sd_insert_only d = (if sd_kind d = Insert_statement then Some (insert_only (JObj fs)) else None)"
  using assms by (auto simp: statement_policy_def Let_def split: option.splits jval.splits)

lemma parameter_node: "node_ok schema n ''ParamRef'' fs \<Longrightarrow> map_of fs ''number'' = Some (JInt k) \<Longrightarrow> 1 \<le> k \<and> k \<le> n"
  by (simp add: node_ok_def Let_def)

lemma binds_node: "k \<in> set (binds x) \<longleftrightarrow> (\<exists>fs scope. x = Node ''ParamRef'' fs scope \<and> map_of fs ''number'' = Some (JInt k))"
  by (cases x) (auto split: option.splits jval.splits)

lemma reads_node: "r \<in> set (reads x) \<longleftrightarrow> (\<exists>fs scope. x = Node ''RangeVar'' fs scope \<and> map_of fs ''relname'' = Some (JStr r)
    \<and> (map_of fs ''schemaname'' \<noteq> None \<or> r \<notin> set scope))"
  by (cases x) (auto split: option.splits jval.splits)

lemma walk_root_fold:
  assumes "po_forbidden (walk_root schema n root) = None"
  shows "walk_root schema n root = fold (inspect schema n) (visits root [] 0 '''') \<lparr>po_forbidden = None, po_relations = [], po_parameters = []\<rparr>"
    and "int (length (po_parameters (walk_root schema n root))) = n"
  using assms unfolding walk_root_def walk_visits Let_def by (simp_all add: reject_def split: if_splits)

lemma walk_root_accepted:
  assumes "po_forbidden (walk_root schema n root) = None"
  shows "\<forall>x\<in>set (visits root [] 0 ''''). passes schema n x"
    and "set (po_relations (walk_root schema n root)) = set (concat (map reads (visits root [] 0 '''')))"
    and "set (concat (map binds (visits root [] 0 ''''))) = {1..n}"
proof -
  let ?p = "\<lparr>po_forbidden = None, po_relations = [], po_parameters = []\<rparr>" and ?xs = "visits root [] 0 ''''"
  let ?q = "fold (inspect schema n) ?xs ?p"
  note q = walk_root_fold [OF assms]
  have q3: "po_forbidden ?q = None" using assms unfolding q(1) .
  have pass: "\<forall>x\<in>set ?xs. passes schema n x" and rel: "set (po_relations ?q) = set (concat (map reads ?xs))"
    and b: "set (po_parameters ?q) = set (concat (map binds ?xs))" "distinct (po_parameters ?q)"
    using fold_inspect [of ?p schema n ?xs, OF _ q3] by simp_all
  show "\<forall>x\<in>set ?xs. passes schema n x" by (rule pass)
  show "set (po_relations (walk_root schema n root)) = set (concat (map reads ?xs))" unfolding q(1) by (rule rel)
  have "1 \<le> k \<and> k \<le> n" if k: "k \<in> set (po_parameters ?q)" for k
  proof -
    obtain x where x: "x \<in> set ?xs" "k \<in> set (binds x)" using k unfolding b(1) by auto
    then obtain fs scope where y: "x = Node ''ParamRef'' fs scope" "map_of fs ''number'' = Some (JInt k)" unfolding binds_node by blast
    have "node_ok schema n ''ParamRef'' fs" using bspec [OF pass x(1)] y(1) by simp
    from parameter_node [OF this y(2)] show ?thesis .
  qed
  then show "set (concat (map binds ?xs)) = {1..n}"
    using parameters_exact [OF b(2), of n] q(2) unfolding q(1) b(1) [symmetric] by blast
qed

lemma relation_node:
  assumes "node_ok schema n ''RangeVar'' fs"
  obtains r where "map_of fs ''relname'' = Some (JStr r)" "take 3 r \<noteq> ''pg_''" "map_of fs ''schemaname'' \<in> {None, Some (JStr schema)}"
  using assms by (auto simp: node_ok_def relation_ok_def Let_def split: option.splits jval.splits)

text \<open>C18: a statement the policy accepts is confined.  Every node of its syntax tree is of an
  allowed kind with allowed fields (only the listed functions, operators and types); every table it
  names is in the schema of the Workspace, outside pg_*, and is among the relations whose catalog
  facts are checked unless it is a common table expression of the statement itself; the relations
  are nothing else; and the parameters it uses are exactly those supplied.\<close>

theorem accepted_statement_confined:
  assumes "statement_policy parser sha statement schema n = Inr d"
  shows "\<exists>parsed s root. parser statement = Some parsed \<and> single_statement parsed = Some s \<and> jfield ''stmt'' s = Some root
    \<and> (\<forall>t fs scope. Node t fs scope \<in> set (visits root [] 0 '''') \<longrightarrow> bad_field t fs = None \<and> node_ok schema n t fs)
    \<and> (\<forall>fs scope. Node ''RangeVar'' fs scope \<in> set (visits root [] 0 '''') \<longrightarrow>
         (\<exists>r. map_of fs ''relname'' = Some (JStr r) \<and> take 3 r \<noteq> ''pg_'' \<and> map_of fs ''schemaname'' \<in> {None, Some (JStr schema)}
            \<and> (r \<in> set (sd_relations d) \<or> map_of fs ''schemaname'' = None \<and> declares r (visits root [] 0 ''''))))
    \<and> (\<forall>r\<in>set (sd_relations d). \<exists>fs scope. Node ''RangeVar'' fs scope \<in> set (visits root [] 0 '''')
         \<and> map_of fs ''relname'' = Some (JStr r))
    \<and> {k. \<exists>fs scope. Node ''ParamRef'' fs scope \<in> set (visits root [] 0 '''') \<and> map_of fs ''number'' = Some (JInt k)} = {1..n}"
proof -
  obtain parsed s gs where d: "parser statement = Some parsed" "single_statement parsed = Some s" "jfield ''stmt'' s = Some (JObj gs)"
    "po_forbidden (walk_root schema n (JObj gs)) = None" "sd_relations d = sort (po_relations (walk_root schema n (JObj gs)))"
    using statement_policy_Inr [OF assms] by metis
  let ?xs = "visits (JObj gs) [] 0 ''''"
  note w = walk_root_accepted [OF d(4)]
  have nodes: "bad_field t fs = None \<and> node_ok schema n t fs" if "Node t fs scope \<in> set ?xs" for t fs scope
    using w(1) that by fastforce
  have flat: "shallow ?xs" using w(1) by (fastforce simp: shallow_def)
  have rel: "r \<in> set (sd_relations d) \<longleftrightarrow> (\<exists>x\<in>set ?xs. r \<in> set (reads x))" for r using d(5) w(2) by auto
  have tables: "\<exists>r. map_of fs ''relname'' = Some (JStr r) \<and> take 3 r \<noteq> ''pg_'' \<and> map_of fs ''schemaname'' \<in> {None, Some (JStr schema)}
      \<and> (r \<in> set (sd_relations d) \<or> map_of fs ''schemaname'' = None \<and> declares r ?xs)" if x: "Node ''RangeVar'' fs scope \<in> set ?xs" for fs scope
  proof -
    obtain r where r: "map_of fs ''relname'' = Some (JStr r)" "take 3 r \<noteq> ''pg_''" "map_of fs ''schemaname'' \<in> {None, Some (JStr schema)}"
      using relation_node nodes [OF x] by blast
    show ?thesis
    proof (cases "map_of fs ''schemaname'' = None \<and> r \<in> set scope")
      case True
      then show ?thesis using scope_declared [OF x _ flat] r by auto
    next
      case False
      then have "r \<in> set (reads (Node ''RangeVar'' fs scope))" unfolding reads_node using r(1) by blast
      then show ?thesis using rel x r by blast
    qed
  qed
  have named: "\<exists>fs scope. Node ''RangeVar'' fs scope \<in> set ?xs \<and> map_of fs ''relname'' = Some (JStr r)" if "r \<in> set (sd_relations d)" for r
    using that unfolding rel reads_node by blast
  have "{k. \<exists>fs scope. Node ''ParamRef'' fs scope \<in> set ?xs \<and> map_of fs ''number'' = Some (JInt k)} = {k. \<exists>x\<in>set ?xs. k \<in> set (binds x)}"
    unfolding binds_node by blast
  also have "\<dots> = set (concat (map binds ?xs))" by auto
  finally have params: "{k. \<exists>fs scope. Node ''ParamRef'' fs scope \<in> set ?xs \<and> map_of fs ''number'' = Some (JInt k)} = {1..n}"
    unfolding w(3) .
  show ?thesis using d(1-3) nodes tables named params by blast
qed

text \<open>The tree of \<open>WITH late AS (SELECT id FROM tasks) DELETE FROM talks WHERE id = $1\<close>.\<close>

definition j_text :: "string \<Rightarrow> jval" where
  "j_text t = JObj [(''String'', JObj [(''sval'', JStr t)])]"

definition j_column :: "string \<Rightarrow> jval" where
  "j_column t = JObj [(''ColumnRef'', JObj [(''fields'', JArr [j_text t]), (''location'', JInt 3)])]"

definition demo_fields :: "(string \<times> jval) list" where
  "demo_fields = [(''DeleteStmt'', JObj [
     (''relation'', JObj [(''relname'', JStr ''talks''), (''inh'', JBool True)]),
     (''whereClause'', JObj [(''A_Expr'', JObj [(''kind'', JStr ''AEXPR_OP''), (''name'', JArr [j_text ''='']),
        (''lexpr'', j_column ''id''), (''rexpr'', JObj [(''ParamRef'', JObj [(''number'', JInt 1)])])])]),
     (''withClause'', JObj [(''ctes'', JArr [JObj [(''CommonTableExpr'', JObj [(''ctename'', JStr ''late''),
        (''ctequery'', JObj [(''SelectStmt'', JObj [(''targetList'', JArr [JObj [(''ResTarget'', JObj [(''val'', j_column ''id'')])]]),
           (''fromClause'', JArr [JObj [(''RangeVar'', JObj [(''relname'', JStr ''tasks'')])]]),
           (''limitOption'', JStr ''LIMIT_OPTION_DEFAULT''), (''op'', JStr ''SETOP_NONE'')])])])]])])])]"

definition demo_tree :: jval where
  "demo_tree = JObj [(''stmts'', JArr [JObj [(''stmt'', JObj demo_fields)]])]"

lemma demo_walk: "walk_root ''ws_1'' 1 (JObj demo_fields) = \<lparr>po_forbidden = None, po_relations = [''tasks'', ''talks''], po_parameters = [1]\<rparr>"
  by code_simp

lemma demo_kind: "root_kind (JObj demo_fields) = Some Delete_statement"
  by code_simp

lemma demo_tree_accepted: "\<exists>d. statement_policy (\<lambda>t. Some demo_tree) id ''DELETE'' ''ws_1'' 1 = Inr d"
  by (simp add: statement_policy_def demo_tree_def single_statement_def demo_walk demo_kind Let_def)

theorem accepted_statement_confined_witness:
  "{k. \<exists>fs scope. Node ''ParamRef'' fs scope \<in> set (visits (JObj demo_fields) [] 0 '''') \<and> map_of fs ''number'' = Some (JInt k)} = {1..1}"
proof -
  obtain d where "statement_policy (\<lambda>t. Some demo_tree) id ''DELETE'' ''ws_1'' 1 = Inr d" using demo_tree_accepted by blast
  from accepted_statement_confined [OF this]
  obtain parsed s root where r: "Some demo_tree = Some parsed" "single_statement parsed = Some s" "jfield ''stmt'' s = Some root"
    "{k. \<exists>fs scope. Node ''ParamRef'' fs scope \<in> set (visits root [] 0 '''') \<and> map_of fs ''number'' = Some (JInt k)} = {1..1}" by blast
  then have "root = JObj demo_fields" by (auto simp: demo_tree_def single_statement_def)
  then show ?thesis using r(4) by blast
qed

end
