(* ===== verification/TransactionPolicy.thy ===== *)
theory TransactionPolicy
  imports StatementProps Listing
begin

text \<open>What is decided before a writing transaction is borrowed: \<open>sql/prepare-sql.ts\<close>,
  \<open>sql/relation-contract.ts\<close> and \<open>tx/transaction-policy.ts\<close>.  The parser and sha256 are
  parameters.  A body is the typed request; its JSON is \<open>transaction_json\<close>.\<close>

section \<open>Prepared statements\<close>

record sql_input =
  si_statement :: string
  si_params :: "jval list"
  si_expect :: "int option"
  si_approval :: "string option"

record prepared_sql =
  ps_schema :: string
  ps_decision :: statement_decision
  ps_input :: sql_input

record engine =
  eg_parse :: "string \<Rightarrow> jval option"
  eg_sha :: "string \<Rightarrow> string"

definition workspace_schema :: "string \<Rightarrow> string" where
  "workspace_schema ws = ''ws_'' @ filter (\<lambda>c. c \<noteq> CHR ''-'') ws"

definition prepare_sql :: "engine \<Rightarrow> string \<Rightarrow> sql_input \<Rightarrow> string + prepared_sql" where
  "prepare_sql g ws q =
     (let schema = workspace_schema ws in
      case statement_policy (eg_parse g) (eg_sha g) (si_statement q) schema (int (length (si_params q))) of
        Inl e \<Rightarrow> Inl (fst e)
      | Inr d \<Rightarrow> if 65536 < octets (si_statement q) \<or> 100 < length (si_params q) then Inl ''invalid_input''
                 else Inr \<lparr>ps_schema = schema, ps_decision = d, ps_input = q\<rparr>)"

lemma prepare_sql_Inr:
  "prepare_sql g ws q = Inr p \<longleftrightarrow> ps_schema p = workspace_schema ws \<and> ps_input p = q \<and> ps_decision p \<in> {d. True}
     \<and> statement_policy (eg_parse g) (eg_sha g) (si_statement q) (workspace_schema ws) (int (length (si_params q))) = Inr (ps_decision p)
     \<and> octets (si_statement q) \<le> 65536 \<and> length (si_params q) \<le> 100"
  by (cases p) (auto simp: prepare_sql_def Let_def not_less split: sum.splits)

record relation_facts =
  rf_schema :: string
  rf_name :: string
  rf_kind :: string
  rf_owner :: string
  rf_principal_uuid :: "bool option"
  rf_principal_not_null :: "bool option"
  rf_run_uuid :: "bool option"
  rf_run_not_null :: "bool option"
  rf_generated :: bool
  rf_triggers :: nat
  rf_stamp_enabled :: "string option"
  rf_stamp_function :: "bool option"
  rf_rules :: bool
  rf_policies :: bool

definition relation_stamped :: "relation_facts \<Rightarrow> bool" where
  "relation_stamped r \<longleftrightarrow> rf_kind r = ''r'' \<and> rf_owner r = ''bp_executor''
     \<and> rf_principal_uuid r = Some True \<and> rf_principal_not_null r = Some True
     \<and> rf_run_uuid r = Some True \<and> rf_run_not_null r = Some True \<and> \<not> rf_generated r
     \<and> rf_triggers r = 1 \<and> rf_stamp_enabled r = Some ''A'' \<and> rf_stamp_function r = Some True
     \<and> \<not> rf_rules r \<and> \<not> rf_policies r"

definition relation_contract :: "string \<Rightarrow> string list \<Rightarrow> relation_facts list \<Rightarrow> bool" where
  "relation_contract schema relations facts =
     list_all (\<lambda>name. case find (\<lambda>f. rf_schema f = schema \<and> rf_name f = name) facts of
         None \<Rightarrow> False | Some r \<Rightarrow> relation_stamped r) relations"

section \<open>Atomic handoffs\<close>

datatype tx_operation =
    Op_sql sql_input
  | Op_send string string jval
  | Op_ack string string
  | Op_hold string string

record tx_input =
  ti_key :: string
  ti_operations :: "tx_operation list"

record tx_failure =
  tf_status :: nat
  tf_error :: string
  tf_index :: "nat option"
  tf_sqlstate :: "string option"
  tf_quota :: "quota_failure option"
  tf_target :: "jval option"

fun operation_json :: "tx_operation \<Rightarrow> jval" where
  "operation_json (Op_sql q) = JObj [(''sql'', JObj ([(''statement'', JStr (si_statement q)), (''params'', JArr (si_params q))]
     @ (case si_approval q of None \<Rightarrow> [] | Some a \<Rightarrow> [(''approvalId'', JStr a)])
     @ (case si_expect q of None \<Rightarrow> [] | Some n \<Rightarrow> [(''expectRows'', JInt n)])))]"
| "operation_json (Op_send queue key body) = JObj [(''send'', JObj [(''queue'', JStr queue), (''idempotencyKey'', JStr key), (''payload'', body)])]"
| "operation_json (Op_ack d r) = JObj [(''ack'', JObj [(''deliveryId'', JStr d), (''receipt'', JStr r)])]"
| "operation_json (Op_hold d r) = JObj [(''hold'', JObj [(''deliveryId'', JStr d), (''receipt'', JStr r)])]"

definition transaction_json :: "tx_input \<Rightarrow> jval" where
  "transaction_json t = JObj [(''idempotencyKey'', JStr (ti_key t)), (''operations'', JArr (map operation_json (ti_operations t)))]"

text \<open>The SQL of an operation is prepared; the others are kept.\<close>

datatype planned = Planned_sql prepared_sql | Planned tx_operation

record tx_plan =
  tp_operations :: "planned list"
  tp_deliveries :: "string list"
  tp_values :: "(nat \<times> bool \<times> jval) list"

definition tx_invalid :: "string \<Rightarrow> nat option \<Rightarrow> tx_failure" where
  "tx_invalid e i = \<lparr>tf_status = 422, tf_error = e, tf_index = i, tf_sqlstate = None, tf_quota = None, tf_target = None\<rparr>"

definition safe_integer :: "int \<Rightarrow> bool" where
  "safe_integer n \<longleftrightarrow> - 9007199254740991 \<le> n \<and> n \<le> 9007199254740991"

fun tx_delivery :: "tx_operation \<Rightarrow> string option" where
  "tx_delivery (Op_ack d r) = Some (to_lower d)"
| "tx_delivery (Op_hold d r) = Some (to_lower d)"
| "tx_delivery _ = None"

definition json_bytes :: "jval \<Rightarrow> int" where
  "json_bytes v = octets (json_text v)"

definition add_planned :: "planned \<Rightarrow> (nat \<times> bool \<times> jval) list \<Rightarrow> string list \<Rightarrow> tx_plan \<Rightarrow> tx_plan" where
  "add_planned op vs ds p = p\<lparr>tp_operations := tp_operations p @ [op], tp_values := tp_values p @ vs, tp_deliveries := tp_deliveries p @ ds\<rparr>"

fun plan_operations :: "engine \<Rightarrow> string \<Rightarrow> nat \<Rightarrow> int \<Rightarrow> int \<Rightarrow> tx_operation list \<Rightarrow> tx_plan \<Rightarrow> tx_failure + tx_plan" where
  "plan_operations g ws i statements bytes [] p = Inr p"
| "plan_operations g ws i statements bytes (Op_sql q # ops) p =
     (let statements = statements + octets (si_statement q); bytes = bytes + json_bytes (JArr (si_params q)) in
      if 65536 < statements \<or> 1048576 < bytes then Inl (tx_invalid ''transaction_bounds_exceeded'' (Some i))
      else (case prepare_sql g ws q of
          Inl e \<Rightarrow> Inl (tx_invalid e (Some i))
        | Inr s \<Rightarrow>
            if (case si_expect q of None \<Rightarrow> False
                | Some n \<Rightarrow> sd_kind (ps_decision s) = Select_statement \<or> \<not> safe_integer n \<or> n < 0)
            then Inl (tx_invalid ''invalid_input'' (Some i))
            else plan_operations g ws (Suc i) statements bytes ops
                   (add_planned (Planned_sql s) [(i, False, JArr (si_params q))] [] p)))"
| "plan_operations g ws i statements bytes (Op_send queue key body # ops) p =
     (let size = json_bytes body; bytes = bytes + size in
      if 262144 < size \<or> 1048576 < bytes then Inl (tx_invalid ''transaction_bounds_exceeded'' (Some i))
      else if octets key < 1 \<or> 256 < octets key then Inl (tx_invalid ''invalid_input'' (Some i))
      else plan_operations g ws (Suc i) statements bytes ops
             (add_planned (Planned (Op_send queue key body)) [(i, True, body)] [] p))"
| "plan_operations g ws i statements bytes (op # ops) p =
     (let d = the (tx_delivery op) in
      if d \<in> set (tp_deliveries p) then Inl (tx_invalid ''invalid_input'' (Some i))
      else plan_operations g ws (Suc i) statements bytes ops (add_planned (Planned op) [] [d] p))"

definition request_preimage :: "string \<Rightarrow> string \<Rightarrow> tx_input \<Rightarrow> string" where
  "request_preimage ws who t = canonical (JObj [(''version'', JInt 1), (''workspaceId'', JStr ws),
     (''principalId'', JStr who), (''request'', transaction_json t)])"

definition request_hash :: "engine \<Rightarrow> string \<Rightarrow> string \<Rightarrow> tx_input \<Rightarrow> string" where
  "request_hash g ws who t = eg_sha g (request_preimage ws who t)"

definition transaction_policy :: "engine \<Rightarrow> string \<Rightarrow> string \<Rightarrow> tx_input \<Rightarrow> tx_failure + (tx_plan \<times> string)" where
  "transaction_policy g ws who t =
     (if length (ti_operations t) < 1 \<or> 16 < length (ti_operations t) \<or> octets (ti_key t) < 1 \<or> 256 < octets (ti_key t)
      then Inl (tx_invalid ''invalid_input'' None)
      else if 2097152 < json_bytes (transaction_json t) then Inl (tx_invalid ''transaction_bounds_exceeded'' None)
      else (case plan_operations g ws 0 0 0 (ti_operations t) \<lparr>tp_operations = [], tp_deliveries = [], tp_values = []\<rparr> of
          Inl f \<Rightarrow> Inl f
        | Inr p \<Rightarrow> Inr (p\<lparr>tp_deliveries := sort (tp_deliveries p)\<rparr>, request_hash g ws who t)))"

section \<open>What an accepted plan is\<close>

fun planned_of :: "planned \<Rightarrow> tx_operation" where
  "planned_of (Planned_sql s) = Op_sql (ps_input s)"
| "planned_of (Planned op) = op"

definition planned_ok :: "engine \<Rightarrow> string \<Rightarrow> planned \<Rightarrow> bool" where
  "planned_ok g ws p = (case p of
     Planned_sql s \<Rightarrow> prepare_sql g ws (ps_input s) = Inr s
       \<and> (\<forall>n. si_expect (ps_input s) = Some n \<longrightarrow> sd_kind (ps_decision s) \<noteq> Select_statement \<and> 0 \<le> n \<and> safe_integer n)
   | Planned (Op_sql q) \<Rightarrow> False
   | Planned (Op_send queue key body) \<Rightarrow> json_bytes body \<le> 262144 \<and> 1 \<le> octets key \<and> octets key \<le> 256
   | Planned op \<Rightarrow> True)"

fun op_deliveries :: "tx_operation list \<Rightarrow> string list" where
  "op_deliveries ops = List.map_filter tx_delivery ops"

fun op_statement_bytes :: "tx_operation \<Rightarrow> int" where
  "op_statement_bytes (Op_sql q) = octets (si_statement q)"
| "op_statement_bytes _ = 0"

fun op_value_bytes :: "tx_operation \<Rightarrow> int" where
  "op_value_bytes (Op_sql q) = json_bytes (JArr (si_params q))"
| "op_value_bytes (Op_send queue key body) = json_bytes body"
| "op_value_bytes _ = 0"

lemma plan_operations_ok:
  assumes "plan_operations g ws i st by ops p = Inr p'" "distinct (tp_deliveries p)" "list_all (planned_ok g ws) (tp_operations p)"
    and "st \<le> 65536" "by \<le> 1048576"
  shows "map planned_of (tp_operations p') = map planned_of (tp_operations p) @ ops
    \<and> list_all (planned_ok g ws) (tp_operations p')
    \<and> distinct (tp_deliveries p') \<and> tp_deliveries p' = tp_deliveries p @ op_deliveries ops
    \<and> st + (\<Sum>op\<leftarrow>ops. op_statement_bytes op) \<le> 65536 \<and> by + (\<Sum>op\<leftarrow>ops. op_value_bytes op) \<le> 1048576"
  using assms
proof (induction g ws i st "by" ops p rule: plan_operations.induct)
  case (2 g ws i st b q ops p)
  obtain s where s: "prepare_sql g ws q = Inr s" using 2(2) by (auto simp: Let_def split: if_splits sum.splits)
  then have i: "ps_input s = q" by (simp add: prepare_sql_Inr)
  have "planned_ok g ws (Planned_sql s)" using 2(2) s i by (auto simp: planned_ok_def Let_def not_less split: if_splits option.splits)
  moreover have b: "st + octets (si_statement q) \<le> 65536" "b + json_bytes (JArr (si_params q)) \<le> 1048576"
    and ex: "\<not> (case si_expect q of None \<Rightarrow> False | Some n \<Rightarrow> sd_kind (ps_decision s) = Select_statement \<or> \<not> safe_integer n \<or> n < 0)"
    using 2(2) s by (auto simp: Let_def not_less split: if_splits)
  ultimately show ?case using 2(1) [OF refl refl _ s ex] 2(2-4) s i
    by (auto simp: Let_def add_planned_def map_filter_simps not_less)
next
  case (3 g ws i st b queue key body ops p)
  have b: "json_bytes body \<le> 262144" "b + json_bytes body \<le> 1048576" "1 \<le> octets key" "octets key \<le> 256"
    using 3(2) by (auto simp: Let_def not_less split: if_splits)
  then show ?case using 3(1) [OF refl refl] 3(2-5)
    by (auto simp: Let_def add_planned_def map_filter_simps not_less planned_ok_def)
qed (auto simp: Let_def add_planned_def map_filter_simps planned_ok_def split: if_splits)

end
