(* ===== verification/Platform.thy ===== *)
theory Platform
  imports TransactionPolicy
begin

text \<open>The state the SQL, transaction and approval services share: the server, the tables of schema
  control they own, and the tables of the Workspaces.  What PostgreSQL does with the latter is the
  parameter \<open>workspace_db\<close>: the catalog it reports, the rows it finds, and the execution of a
  query.  Errors are values of \<open>problem\<close>.\<close>

section \<open>Tables\<close>

record approval =
  ap_id :: uuid
  ap_ws :: uuid
  ap_kind :: string
  ap_target :: string
  ap_version :: string
  ap_by :: uuid
  ap_run :: uuid
  ap_epoch :: "uuid option"
  ap_hash :: "string option"
  ap_table :: "string option"
  ap_key :: "jval option"
  ap_preview :: "nat option"
  ap_created :: time
  ap_expires :: time
  ap_decision :: "string option"
  ap_reason :: "string option"
  ap_position :: "nat option"
  ap_released :: "uuid option"
  ap_consumed :: "nat option"

record approval_gate =
  ga_ws :: uuid
  ga_kind :: string
  ga_selector :: string
  ga_enabled :: bool
  ga_epoch :: uuid
  ga_by :: string

record tx_response =
  tr_position :: nat
  tr_results :: "jval list"

record tx_receipt =
  rx_ws :: uuid
  rx_principal :: uuid
  rx_key :: string
  rx_hash :: string
  rx_response :: tx_response

record 'w platform =
  pl_server :: backplane
  pl_approvals :: "approval list"
  pl_gates :: "approval_gate list"
  pl_settings :: "(uuid \<times> bool) list"
  pl_delegations :: "delegation list"
  pl_migrations :: "migration_row list"
  pl_receipts :: "tx_receipt list"
  pl_next :: uuid
  pl_world :: 'w

section \<open>Problems\<close>

text \<open>What a service can fail with: an error of the queue schema, a \<open>RAISE EXCEPTION\<close> of another
  function, an error of the engine with its SQLSTATE and constraint, a \<open>GateError\<close> with its target,
  the two marker classes of the SQL executor, a refused transaction, any other error.\<close>

datatype problem =
    Failed failure
  | Raise string
  | Pg string "string option"
  | Gate string "jval option"
  | Result_too_large
  | Relation_contract
  | Refused tx_failure
  | Other string

fun problem_message :: "problem \<Rightarrow> string" where
  "problem_message (Failed f) = failure_message f"
| "problem_message (Raise m) = m"
| "problem_message (Pg s c) = ''ERROR''"
| "problem_message (Gate m t) = m"
| "problem_message Result_too_large = ''''"
| "problem_message Relation_contract = ''''"
| "problem_message (Refused r) = tf_error r"
| "problem_message (Other m) = m"

fun problem_sqlstate :: "problem \<Rightarrow> string option" where
  "problem_sqlstate (Failed f) = failure_sqlstate f"
| "problem_sqlstate (Raise m) = Some ''P0001''"
| "problem_sqlstate (Pg s c) = Some s"
| "problem_sqlstate _ = None"

fun problem_constraint :: "problem \<Rightarrow> string option" where
  "problem_constraint (Failed f) = failure_constraint f"
| "problem_constraint (Pg s c) = c"
| "problem_constraint _ = None"

fun problem_target :: "problem \<Rightarrow> jval option" where
  "problem_target (Gate m t) = t"
| "problem_target _ = None"

definition queue_problem :: "problem \<Rightarrow> string \<times> string option" where
  "queue_problem e =
     (let state = problem_sqlstate e in
      if problem_message e \<in> set queue_codes then (problem_message e, state)
      else if state = Some ''23505'' \<and> problem_constraint e = Some ''queues_pkey'' then (''queue_exists'', state)
      else if state \<in> {Some ''23514'', Some ''23502'', Some ''22P02'', Some ''22P05'', Some ''22021''}
      then (''invalid_input'', state)
      else (''queue_unavailable'', state))"

lemma queue_problem_Failed: "queue_problem (Failed f) = queue_error f"
  by (simp add: queue_problem_def queue_error_def Let_def)

section \<open>Approval errors\<close>

definition approval_statuses :: "(string \<times> nat) list" where
  "approval_statuses =
    [(''unauthorized'', 401), (''workspace_forbidden'', 403), (''run_forbidden'', 403), (''approval_forbidden'', 403),
     (''approval_self_forbidden'', 403), (''receipt_foreign'', 403), (''approval_not_found'', 404),
     (''delivery_not_found'', 404), (''principal_not_found'', 404), (''approval_decided'', 409),
     (''approval_expired'', 409), (''approval_stale'', 409), (''approval_exists'', 409), (''receipt_stale'', 409),
     (''receipt_expired'', 409), (''delivery_conflict'', 409), (''payload_expired'', 410), (''invalid_input'', 422),
     (''approval_required'', 422), (''approval_target_unsupported'', 422), (''approval_gate_conflict'', 422),
     (''approval_target_not_found'', 404), (''approval_gate_not_found'', 404), (''approval_consumed'', 409),
     (''approval_not_approved'', 409), (''approval_mismatch'', 409),
     (''approval_unavailable'', 503), (''queue_unavailable'', 503)]"

definition approval_error :: "problem \<Rightarrow> string \<times> string option" where
  "approval_error e =
     (let state = problem_sqlstate e in
      if problem_message e = ''principal_revoked'' then (''unauthorized'', state)
      else if problem_message e \<in> fst ` set approval_statuses then (problem_message e, state)
      else if state = Some ''23505'' \<and> problem_constraint e = Some ''approvals_target_unique'' then (''approval_exists'', state)
      else if state \<in> {Some ''23514'', Some ''23502'', Some ''22P02'', Some ''22P05'', Some ''22021''} then (''invalid_input'', state)
      else (''approval_unavailable'', state))"

definition approval_status :: "string \<Rightarrow> nat" where
  "approval_status r = the (map_of approval_statuses r)"

section \<open>SQL and transaction errors\<close>

definition sql_failed :: "nat \<Rightarrow> string \<Rightarrow> string option \<Rightarrow> tx_failure" where
  "sql_failed status e state =
     \<lparr>tf_status = status, tf_error = e, tf_index = None, tf_sqlstate = state, tf_quota = None, tf_target = None\<rparr>"

definition sql_state_code :: "string option \<Rightarrow> string option" where
  "sql_state_code s = (case s of None \<Rightarrow> None
     | Some t \<Rightarrow> if length t = 5 \<and> list_all (\<lambda>c. is_digit c \<or> is_upper c) t then Some t else None)"

fun quota_of :: "problem \<Rightarrow> quota_failure option" where
  "quota_of (Failed (Over_quota q)) = Some q"
| "quota_of _ = None"

definition sql_failure :: "problem \<Rightarrow> tx_failure" where
  "sql_failure e =
     (case quota_of e of
        Some q \<Rightarrow> (sql_failed 429 ''quota_exceeded'' None)\<lparr>tf_quota := Some q\<rparr>
      | None \<Rightarrow>
          let reason = fst (approval_error e); status = approval_status reason; code = sql_state_code (problem_sqlstate e) in
          if take 9 reason = ''approval_'' \<and> status \<in> {404, 409, 422}
          then (sql_failed status reason None)\<lparr>tf_target := problem_target e\<rparr>
          else if e = Result_too_large then sql_failed 422 ''sql_result_too_large'' None
          else if e = Relation_contract then sql_failed 422 ''sql_relation_contract'' None
          else if code = Some ''57014'' then sql_failed 408 ''sql_statement_timeout'' code
          else if code = Some ''55P03'' then sql_failed 408 ''sql_lock_timeout'' code
          else if code = Some ''42501'' then sql_failed 403 ''sql_permission_denied'' code
          else if code = Some ''42P01'' \<or> code = Some ''42703'' then sql_failed 422 ''sql_unknown_object'' code
          else if code \<noteq> None \<and> take 2 (the code) \<in> {''42'', ''22'', ''23''} then sql_failed 422 ''sql_error'' code
          else sql_failed 503 ''sql_unavailable'' None)"

fun refusal :: "problem \<Rightarrow> tx_failure option" where
  "refusal (Refused r) = Some r"
| "refusal _ = None"

definition transaction_failure :: "problem \<Rightarrow> tx_failure" where
  "transaction_failure e =
     (case refusal e of
        Some r \<Rightarrow> r
      | None \<Rightarrow>
          let q = queue_problem e; sql = sql_failure e; reason = fst q in
          if snd q = Some ''40P01'' then sql_failed 409 ''transaction_deadlock'' (snd q)
          else if snd q = Some ''25P04'' then sql_failed 408 ''sql_transaction_timeout'' (snd q)
          else if tf_status sql \<noteq> 503 then sql
          else if reason = ''receipt_foreign'' then sql_failed 403 reason None
          else if reason \<in> {''queue_not_found'', ''delivery_not_found''} then sql_failed 404 reason None
          else if reason \<in> {''idempotency_conflict'', ''receipt_stale'', ''receipt_expired'', ''delivery_conflict''} then sql_failed 409 reason None
          else if reason = ''payload_too_large'' then sql_failed 422 ''transaction_bounds_exceeded'' None
          else if reason = ''invalid_input'' then sql_failed 422 reason None
          else sql_failed 503 ''transaction_unavailable'' None)"

section \<open>Bound transactions on the platform\<close>

definition on_server :: "(backplane \<Rightarrow> failure + ('a \<times> backplane)) \<Rightarrow> 'w platform \<Rightarrow> problem + ('a \<times> 'w platform)" where
  "on_server f s = (case f (pl_server s) of Inl e \<Rightarrow> Inl (Failed e) | Inr (x, b) \<Rightarrow> Inr (x, s\<lparr>pl_server := b\<rparr>))"

definition emit_on :: "time \<Rightarrow> bound_context \<Rightarrow> string \<Rightarrow> string list \<Rightarrow> int option \<Rightarrow> (string \<times> jval) list \<Rightarrow> 'w platform
    \<Rightarrow> nat \<times> 'w platform" where
  "emit_on now b kind objects rows meta s =
     (case emit now b kind objects rows meta (pl_server s) of (n, t) \<Rightarrow> (n, s\<lparr>pl_server := t\<rparr>))"

definition with_platform ::
  "time \<Rightarrow> run_context \<Rightarrow> (bound_context \<Rightarrow> 'w platform \<Rightarrow> 'e + ('a \<times> 'w platform)) \<Rightarrow> (problem \<Rightarrow> 'e) \<Rightarrow> 'w platform
   \<Rightarrow> 'e + ('a \<times> 'w platform)" where
  "with_platform now c work wrap s =
     (case bind_context now c (pl_server s) of
        Inl e \<Rightarrow> Inl (wrap (Failed (Sql e)))
      | Inr (b, s1) \<Rightarrow> work b (s\<lparr>pl_server := touch_run now (ctx_run c) s1\<rparr>))"

definition reject_on :: "time \<Rightarrow> run_context \<Rightarrow> string \<Rightarrow> string list \<Rightarrow> string \<Rightarrow> string option \<Rightarrow> 'w platform \<Rightarrow> 'w platform" where
  "reject_on now c kind objects reason sqlstate s =
     s\<lparr>pl_server := record_rejection now (Some c) kind objects reason sqlstate (pl_server s)\<rparr>"

text \<open>\<open>approvalWrite\<close>: one bound transaction, and a recorded rejection after its rollback.\<close>

definition approval_write ::
  "time \<Rightarrow> run_context \<Rightarrow> string \<Rightarrow> string list \<Rightarrow> (bound_context \<Rightarrow> 'w platform \<Rightarrow> problem + ('a \<times> 'w platform)) \<Rightarrow> 'w platform
   \<Rightarrow> (string + 'a) \<times> 'w platform" where
  "approval_write now c kind objects work s =
     (case with_platform now c work id s of
        Inr (x, s') \<Rightarrow> (Inr x, s')
      | Inl e \<Rightarrow> (case approval_error e of (reason, state) \<Rightarrow> (Inl reason, reject_on now c kind objects reason state s)))"

end
