(* ===== verification/ProposalPolicy.thy ===== *)
theory ProposalPolicy
  imports Platform
begin

text \<open>\<open>approvals/proposal-policy.ts\<close>: which updates and deletes name exactly one row by its primary
  key, so that an Approval of that row can cover them.  \<open>undefined\<close> is \<open>None\<close>, \<open>null\<close> is
  \<open>JNull\<close>.\<close>

section \<open>Columns and literals\<close>

definition nullish :: "jval option \<Rightarrow> bool" where
  "nullish v \<longleftrightarrow> v = None \<or> v = Some JNull"

definition or_else :: "jval option \<Rightarrow> jval \<Rightarrow> jval" where
  "or_else v d = (if nullish v then d else the v)"

definition object_field :: "string \<Rightarrow> jval \<Rightarrow> jval option" where
  "object_field k v = (case jfield k v of Some x \<Rightarrow> if is_object x then Some x else None | None \<Rightarrow> None)"

definition column_part :: "jval \<Rightarrow> jval option" where
  "column_part p =
     (if has_field ''A_Star'' p then Some (JStr ''*'')
      else (case object_field ''String'' p of Some s \<Rightarrow> jfield ''sval'' s | None \<Rightarrow> Some JNull))"

definition column :: "jval option \<Rightarrow> jval option \<Rightarrow> jval option" where
  "column alias v = (case Option.bind v (object_field ''ColumnRef'') of
     None \<Rightarrow> None
   | Some c \<Rightarrow> (case jfield ''fields'' c of
        Some (JArr [p]) \<Rightarrow> column_part p
      | Some (JArr [q, p]) \<Rightarrow> if column_part q = alias then column_part p else None
      | _ \<Rightarrow> None))"

definition cast_types :: "string list" where
  "cast_types = [''text'', ''int4'', ''int8'', ''numeric'', ''bool'', ''uuid'', ''jsonb'']"

definition pure_functions :: "string list" where
  "pure_functions = [''lower'', ''upper'', ''length'', ''trim'', ''btrim'', ''ltrim'', ''rtrim'', ''jsonb_build_object'', ''to_jsonb'']"

definition pure_object :: "jval option \<Rightarrow> jval \<Rightarrow> bool" where
  "pure_object alias v \<longleftrightarrow>
     \<not> list_ex (\<lambda>k. has_field k v) [''SelectStmt'', ''SubLink'', ''RangeSubselect'', ''WithClause'', ''SQLValueFunction'', ''SetToDefault'']
     \<and> (case object_field ''TypeCast'' v of None \<Rightarrow> True
        | Some c \<Rightarrow> (case object_field ''typeName'' c of None \<Rightarrow> False
            | Some t \<Rightarrow> catalog_name (jfield ''names'' t) \<in> set cast_types))
     \<and> (case object_field ''FuncCall'' v of None \<Rightarrow> True | Some f \<Rightarrow> catalog_name (jfield ''funcname'' f) \<in> set pure_functions)
     \<and> (object_field ''ColumnRef'' v \<noteq> None \<longrightarrow> column alias (Some v) \<noteq> None)"

fun deterministic :: "jval option \<Rightarrow> jval \<Rightarrow> bool" where
  "deterministic alias (JArr vs) = list_all (deterministic alias) vs"
| "deterministic alias (JObj fs) = (pure_object alias (JObj fs) \<and> list_all (\<lambda>f. deterministic alias (snd f)) fs)"
| "deterministic alias _ = True"

text \<open>\<open>params[n - 1]\<close>.\<close>

definition param :: "jval list \<Rightarrow> jval option \<Rightarrow> jval option" where
  "param params v = (case v of Some (JInt n) \<Rightarrow> if 1 \<le> n \<and> nat (n - 1) < length params then Some (params ! nat (n - 1)) else None | _ \<Rightarrow> None)"

definition is_number :: "jval option \<Rightarrow> bool" where
  "is_number v \<longleftrightarrow> (case v of Some (JInt n) \<Rightarrow> True | Some (JFrac n k) \<Rightarrow> True | _ \<Rightarrow> False)"

text \<open>The parts of \<open>/^\d{4}-\d{2}-\d{2}(?:[ T]\d{2}:\d{2}(?::\d{2}(?:\.\d+)?)?(?:Z|[+-]\d{2}(?::?\d{2})?)?)?$/\<close>.\<close>

definition zone_literal :: "string \<Rightarrow> bool" where
  "zone_literal r \<longleftrightarrow> r = [] \<or> r = ''Z''
     \<or> hd r \<in> {CHR ''+'', CHR ''-''} \<and> list_ex (\<lambda>shape. clock_shape shape (tl r)) [''dd'', ''dddd'', ''dd:dd'']"

definition seconds_literal :: "string \<Rightarrow> bool" where
  "seconds_literal r =
     (if clock_shape '':dd'' (take 3 r)
      then (if take 1 (drop 3 r) = ''.'' then
              (let f = drop 4 r in takeWhile is_digit f \<noteq> [] \<and> zone_literal (dropWhile is_digit f))
            else zone_literal (drop 3 r))
      else zone_literal r)"

definition date_literal :: "string \<Rightarrow> bool" where
  "date_literal t \<longleftrightarrow> clock_shape ''dddd-dd-dd'' (take 10 t)
     \<and> (let r = drop 10 t in r = [] \<or> hd r \<in> {CHR '' '', CHR ''T''} \<and> clock_shape ''dd:dd'' (take 5 (tl r)) \<and> seconds_literal (drop 6 r))"

definition literal_of :: "jval list \<Rightarrow> jval \<Rightarrow> jval option" where
  "literal_of params v =
     (case object_field ''ParamRef'' v of
        Some p \<Rightarrow> if is_number (jfield ''number'' p) then param params (jfield ''number'' p)
          else (case object_field ''A_Const'' v of None \<Rightarrow> None
             | Some c \<Rightarrow> if truthy (jfield ''isnull'' c) then Some JNull else Option.bind (object_field ''sval'' c) (jfield ''sval''))
      | None \<Rightarrow> (case object_field ''A_Const'' v of None \<Rightarrow> None
             | Some c \<Rightarrow> if truthy (jfield ''isnull'' c) then Some JNull else Option.bind (object_field ''sval'' c) (jfield ''sval'')))"

definition temporal_value :: "jval list \<Rightarrow> jval option \<Rightarrow> string list \<Rightarrow> jval option \<Rightarrow> bool" where
  "temporal_value params alias temporal v \<longleftrightarrow>
     (case column alias v of Some (JStr n) \<Rightarrow> n \<in> set temporal | _ \<Rightarrow> False)
     \<or> (case v of Some (JObj fs) \<Rightarrow> (case literal_of params (JObj fs) of
          Some JNull \<Rightarrow> True | Some (JStr t) \<Rightarrow> date_literal t | _ \<Rightarrow> False) | _ \<Rightarrow> False)"

section \<open>The key of a proposal\<close>

text \<open>The targets of an update; \<open>String(name)\<close> is the name, which the parser always gives as text.\<close>

definition target_names :: "jval \<Rightarrow> (string \<times> jval option) list" where
  "target_names m = (case jfield ''targetList'' m of
     Some (JArr ts) \<Rightarrow> List.map_filter (\<lambda>t. map_option (\<lambda>r.
        (case jfield ''name'' r of Some (JStr n) \<Rightarrow> n | None \<Rightarrow> ''undefined'' | Some x \<Rightarrow> json_text x, jfield ''val'' r))
        (object_field ''ResTarget'' t)) ts
   | _ \<Rightarrow> [])"

record proposal =
  pp_params :: "jval list"
  pp_alias :: "jval option"
  pp_keys :: "string list"

definition constant_value :: "jval \<Rightarrow> jval option" where
  "constant_value c =
     (case object_field ''ival'' c of Some x \<Rightarrow> Some (or_else (jfield ''ival'' x) (JInt 0))
      | None \<Rightarrow> (case object_field ''fval'' c of Some x \<Rightarrow> jfield ''fval'' x
      | None \<Rightarrow> (case object_field ''sval'' c of Some x \<Rightarrow> Some (or_else (jfield ''sval'' x) (JStr ''''))
      | None \<Rightarrow> (case object_field ''boolval'' c of Some x \<Rightarrow> Some (or_else (jfield ''boolval'' x) (JBool False))
      | None \<Rightarrow> Some JNull))))"

definition bound_value :: "proposal \<Rightarrow> jval \<Rightarrow> jval option" where
  "bound_value x bound =
     (case object_field ''ParamRef'' bound of
        Some p \<Rightarrow> if is_number (jfield ''number'' p) then param (pp_params x) (jfield ''number'' p)
          else Option.bind (object_field ''A_Const'' bound) constant_value
      | None \<Rightarrow> Option.bind (object_field ''A_Const'' bound) constant_value)"

definition single_equality :: "proposal \<Rightarrow> jval \<Rightarrow> (string \<times> jval) list \<Rightarrow> (string \<times> jval) list option" where
  "single_equality x v key =
     (case object_field ''A_Expr'' v of
        None \<Rightarrow> None
      | Some e \<Rightarrow>
          if jfield ''kind'' e \<noteq> Some (JStr ''AEXPR_OP'') \<or> names (jfield ''name'' e) \<noteq> [Some ''=''] then None
          else let left = column (pp_alias x) (jfield ''lexpr'' e); right = column (pp_alias x) (jfield ''rexpr'' e);
                 name = (if nullish left then right else left); bound = jfield (if left = None then ''lexpr'' else ''rexpr'') e in
            (case (name, bound) of
               (Some (JStr n), Some (JObj fs)) \<Rightarrow>
                 if n \<notin> set (pp_keys x) \<or> map_of key n \<noteq> None then None
                 else (case bound_value x (JObj fs) of
                     None \<Rightarrow> None
                   | Some y \<Rightarrow> if y = JNull then None else Some (key @ [(n, y)]))
             | _ \<Rightarrow> None))"

lemma size_args:
  assumes "map_of fs ''BoolExpr'' = Some (JObj bs)" "map_of bs ''args'' = Some (JArr xs)" "v \<in> set xs"
  shows "size v \<le> size_list (size_prod (\<lambda>x. 0) size) fs"
  using size_field [OF assms(1)] size_field [OF assms(2)] size_list_estimation' [OF assms(3), of "size v" size] by simp

function equality :: "proposal \<Rightarrow> jval \<Rightarrow> (string \<times> jval) list \<Rightarrow> (string \<times> jval) list option" where
  "equality x (JObj fs) key =
     (case map_of fs ''BoolExpr'' of
        Some (JObj bs) \<Rightarrow>
          if map_of bs ''boolop'' = Some (JStr ''AND_EXPR'')
          then (case map_of bs ''args'' of
              Some (JArr vs) \<Rightarrow> fold (\<lambda>v k. case k of None \<Rightarrow> None | Some k' \<Rightarrow> equality x v k') vs (Some key)
            | _ \<Rightarrow> None)
          else None
      | _ \<Rightarrow> single_equality x (JObj fs) key)"
| "equality x JNull key = None"
| "equality x (JBool b) key = None"
| "equality x (JInt n) key = None"
| "equality x (JFrac n k) key = None"
| "equality x (JStr t) key = None"
| "equality x (JArr vs) key = None"
  by pat_completeness auto

termination equality
  by (relation "measure (\<lambda>(x, v, key). size v)") (auto simp: size_args less_Suc_eq_le)

definition mutation_of :: "jval \<Rightarrow> jval option" where
  "mutation_of root = (if has_field ''UpdateStmt'' root then object_field ''UpdateStmt'' root
     else if has_field ''DeleteStmt'' root then object_field ''DeleteStmt'' root else None)"

definition proposal_root :: "(string \<Rightarrow> jval option) \<Rightarrow> string \<Rightarrow> jval option" where
  "proposal_root parser statement = (case Option.bind (parser statement) (jfield ''stmts'') of
     Some (JArr (s # ss)) \<Rightarrow> object_field ''stmt'' s | _ \<Rightarrow> None)"

definition gated_proposal ::
  "(string \<Rightarrow> jval option) \<Rightarrow> string \<Rightarrow> jval list \<Rightarrow> string \<Rightarrow> string list \<Rightarrow> string list \<Rightarrow> (string \<times> jval) list option" where
  "gated_proposal parser statement params table pk temporal =
     (case Option.bind (proposal_root parser statement) mutation_of of
        None \<Rightarrow> None
      | Some m \<Rightarrow>
          (case object_field ''relation'' m of
             None \<Rightarrow> None
           | Some r \<Rightarrow>
               if jfield ''relname'' r \<noteq> Some (JStr table) \<or> truthy (jfield ''fromClause'' m)
                 \<or> truthy (jfield ''usingClause'' m) \<or> truthy (jfield ''withClause'' m) then None
               else let alias = (case object_field ''alias'' r of Some a \<Rightarrow> jfield ''aliasname'' a | None \<Rightarrow> Some (JStr table)) in
                 if \<not> deterministic alias m then None
                 else if list_ex (\<lambda>t. fst t \<in> set temporal \<and> \<not> temporal_value params alias temporal (snd t)) (target_names m) then None
                 else if list_ex (\<lambda>t. fst t \<in> set pk) (target_names m) then None
                 else (case Option.bind (jfield ''whereClause'' m)
                           (\<lambda>w. equality \<lparr>pp_params = params, pp_alias = alias, pp_keys = pk\<rparr> w []) of
                     None \<Rightarrow> None
                   | Some key \<Rightarrow> if length key = length pk then Some key else None)))"

section \<open>What a proposal pins\<close>

text \<open>When a condition built from equalities holds of a row: each side of an equality has one value,
  whichever way the side is read (a column of the row, a parameter, a constant).\<close>

definition operand_is :: "proposal \<Rightarrow> (string \<Rightarrow> jval option) \<Rightarrow> jval option \<Rightarrow> jval \<Rightarrow> bool" where
  "operand_is x row v y \<longleftrightarrow> (\<forall>n. column (pp_alias x) v = Some (JStr n) \<longrightarrow> row n = Some y)
     \<and> (\<forall>w z. v = Some w \<longrightarrow> bound_value x w = Some z \<longrightarrow> z = y)"

inductive condition_true :: "proposal \<Rightarrow> (string \<Rightarrow> jval option) \<Rightarrow> jval \<Rightarrow> bool" for x row where
  conj: "map_of fs ''BoolExpr'' = Some (JObj bs) \<Longrightarrow> map_of bs ''args'' = Some (JArr vs)
    \<Longrightarrow> \<forall>v\<in>set vs. condition_true x row v \<Longrightarrow> condition_true x row (JObj fs)"
| equal: "object_field ''BoolExpr'' (JObj fs) = None \<Longrightarrow> object_field ''A_Expr'' (JObj fs) = Some e
    \<Longrightarrow> operand_is x row (jfield ''lexpr'' e) y \<Longrightarrow> operand_is x row (jfield ''rexpr'' e) y
    \<Longrightarrow> condition_true x row (JObj fs)"

inductive_cases condition_trueE: "condition_true x row (JObj fs)"

definition keyed :: "string list \<Rightarrow> (string \<times> jval) list \<Rightarrow> bool" where
  "keyed pk key \<longleftrightarrow> distinct (map fst key) \<and> set (map fst key) \<subseteq> set pk \<and> (\<forall>f\<in>set key. snd f \<noteq> JNull)"

definition agrees :: "(string \<Rightarrow> jval option) \<Rightarrow> (string \<times> jval) list \<Rightarrow> bool" where
  "agrees row key \<longleftrightarrow> (\<forall>f\<in>set key. row (fst f) = Some (snd f))"

lemma single_equality_pins:
  assumes "single_equality x v key = Some key'" "keyed (pp_keys x) key"
  shows "keyed (pp_keys x) key'"
    and "object_field ''A_Expr'' v = Some e \<Longrightarrow> operand_is x row (jfield ''lexpr'' e) y \<Longrightarrow> operand_is x row (jfield ''rexpr'' e) y
      \<Longrightarrow> agrees row key \<Longrightarrow> agrees row key'"
proof -
  obtain e where e: "object_field ''A_Expr'' v = Some e" using assms(1) by (auto simp: single_equality_def split: option.splits)
  let ?left = "column (pp_alias x) (jfield ''lexpr'' e)" and ?right = "column (pp_alias x) (jfield ''rexpr'' e)"
  obtain n fs z where n: "(if nullish ?left then ?right else ?left) = Some (JStr n)" "n \<in> set (pp_keys x)" "map_of key n = None"
    and b: "jfield (if ?left = None then ''lexpr'' else ''rexpr'') e = Some (JObj fs)" "bound_value x (JObj fs) = Some z" "z \<noteq> JNull"
    and k: "key' = key @ [(n, z)]"
    using assms(1) e by (auto simp: single_equality_def Let_def split: option.splits jval.splits if_splits)
  have "n \<notin> set (map fst key)" using n(3) by (simp add: map_of_eq_None_iff)
  then show "keyed (pp_keys x) key'" using assms(2) n(2) b(3) k by (auto simp: keyed_def)
  show "agrees row key'" if h: "object_field ''A_Expr'' v = Some e'" "operand_is x row (jfield ''lexpr'' e') y" "operand_is x row (jfield ''rexpr'' e') y" "agrees row key" for e' y
  proof -
    have e': "e' = e" using h(1) e by simp
    have "z = y" using b(1,2) h(2,3) unfolding e' by (auto simp: operand_is_def split: if_splits)
    moreover have "row n = Some y" using n(1) h(2,3) unfolding e' by (auto simp: operand_is_def split: if_splits)
    ultimately show ?thesis using h(4) k by (auto simp: agrees_def)
  qed
qed

lemma fold_stopped: "fold (\<lambda>v k. case k of None \<Rightarrow> None | Some k' \<Rightarrow> f v k') vs None = None"
  by (induction vs) simp_all

lemma equality_pins:
  "equality x v key = Some key' \<Longrightarrow> keyed (pp_keys x) key
   \<Longrightarrow> keyed (pp_keys x) key' \<and> (condition_true x row v \<longrightarrow> agrees row key \<longrightarrow> agrees row key')"
proof (induction x v key arbitrary: key' rule: equality.induct)
  case (1 x fs key)
  show ?case
  proof (cases "object_field ''BoolExpr'' (JObj fs)")
    case None
    then have "single_equality x (JObj fs) key = Some key'"
      using 1(2) by (auto simp: object_field_def split: option.splits jval.splits)
    note s = single_equality_pins [OF this 1(3)]
    show ?thesis using s(1) s(2) None by (auto elim!: condition_trueE simp: object_field_def)
  next
    case (Some b)
    then obtain bs where bs: "map_of fs ''BoolExpr'' = Some (JObj bs)" by (cases b) (auto simp: object_field_def split: option.splits if_splits)
    then obtain vs where vs: "map_of bs ''boolop'' = Some (JStr ''AND_EXPR'')" "map_of bs ''args'' = Some (JArr vs)"
      and f: "fold (\<lambda>v k. case k of None \<Rightarrow> None | Some k' \<Rightarrow> equality x v k') vs (Some key) = Some key'"
      using 1(2) by (auto split: option.splits jval.splits if_splits)
    have all: "\<forall>v\<in>set vs. condition_true x row v" if "condition_true x row (JObj fs)"
      using that bs vs(2) by (auto elim!: condition_trueE simp: object_field_def)
    have "keyed (pp_keys x) key' \<and> ((\<forall>v\<in>set vs. condition_true x row v) \<longrightarrow> agrees row k \<longrightarrow> agrees row key')"
      if "fold (\<lambda>v k. case k of None \<Rightarrow> None | Some k' \<Rightarrow> equality x v k') us (Some k) = Some key'" "set us \<subseteq> set vs" "keyed (pp_keys x) k" for us k
      using that
    proof (induction us arbitrary: k)
      case (Cons u us)
      obtain k2 where k2: "equality x u k = Some k2" using Cons.prems(1) by (cases "equality x u k") (simp_all add: fold_stopped)
      have u: "u \<in> set vs" using Cons.prems(2) by simp
      note step = 1(1) [OF bs refl vs(1) vs(2) refl u k2 Cons.prems(3)]
      then show ?case using Cons.IH [of k2] Cons.prems k2 u by auto
    qed simp
    then show ?thesis using f 1(3) all by blast
  qed
qed simp_all

lemma gated_proposal_Some:
  assumes "gated_proposal parser st params table pk temporal = Some key"
  obtains m r w al where "Option.bind (proposal_root parser st) mutation_of = Some m" "object_field ''relation'' m = Some r"
    "jfield ''relname'' r = Some (JStr table)" "jfield ''whereClause'' m = Some w"
    "equality \<lparr>pp_params = params, pp_alias = al, pp_keys = pk\<rparr> w [] = Some key" "length key = length pk"
    "al = (case object_field ''alias'' r of Some a \<Rightarrow> jfield ''aliasname'' a | None \<Rightarrow> Some (JStr table))"
    "deterministic al m" "\<forall>t\<in>set (target_names m). fst t \<notin> set pk"
    "\<not> truthy (jfield ''fromClause'' m)" "\<not> truthy (jfield ''usingClause'' m)" "\<not> truthy (jfield ''withClause'' m)"
  using assms by (auto simp: gated_proposal_def Let_def list_ex_iff bind_eq_Some_conv split: option.splits if_splits)


text \<open>\<open>UPDATE talks SET title = $1 WHERE id = $2\<close>.\<close>

definition demo_update :: "(string \<times> jval) list" where
  "demo_update = [(''UpdateStmt'', JObj [
     (''relation'', JObj [(''relname'', JStr ''talks'')]),
     (''targetList'', JArr [JObj [(''ResTarget'', JObj [(''name'', JStr ''title''), (''val'', JObj [(''ParamRef'', JObj [(''number'', JInt 1)])])])]]),
     (''whereClause'', JObj [(''A_Expr'', JObj [(''kind'', JStr ''AEXPR_OP''), (''name'', JArr [j_text ''='']),
        (''lexpr'', j_column ''id''), (''rexpr'', JObj [(''ParamRef'', JObj [(''number'', JInt 2)])])])])])]"

definition demo_parser :: "string \<Rightarrow> jval option" where
  "demo_parser st = Some (JObj [(''stmts'', JArr [JObj [(''stmt'', JObj demo_update)]])])"

lemma demo_proposal: "gated_proposal demo_parser ''u'' [JStr ''t'', JInt 7] ''talks'' [''id''] [] = Some [(''id'', JInt 7)]"
  by code_simp


end
