(* ===== verification/RowGates.thy ===== *)
theory RowGates
  imports ProposalPolicy
begin

text \<open>\<open>approvals/row-target.ts\<close>, \<open>approvals/gate-policy.ts\<close>, \<open>approvals/migration-target.ts\<close>,
  \<open>approvals/approval-migration-policy.ts\<close> and \<open>approvals/consume-in.ts\<close>: what an Approval is
  bound to, and its consumption inside the transaction that executes the approved action.\<close>

section \<open>The Workspace database\<close>

text \<open>\<open>wd_relations\<close>: what \<open>checkSqlRelations\<close> reads of a schema.  \<open>wd_exists\<close>: the oid of a
  table.  \<open>wd_shape\<close>: the key and temporal columns of a table row Approvals support.  \<open>wd_typed\<close>: the
  key after its cast to the types of the table.  \<open>wd_row\<close>: the row with a key.  \<open>wd_role\<close>: the role
  \<open>control.prepare_sql_roles\<close> returns.  \<open>wd_query\<close>: the execution of a query in a schema.\<close>

record sql_row =
  sr_row :: jval
  sr_n :: int
  sr_bytes :: int
  sr_affected :: int

record 'w workspace_db =
  wd_relations :: "'w \<Rightarrow> string \<Rightarrow> relation_facts list"
  wd_exists :: "'w \<Rightarrow> string \<Rightarrow> string \<Rightarrow> string option"
  wd_shape :: "'w \<Rightarrow> string \<Rightarrow> string \<Rightarrow> (string list \<times> string list) option"
  wd_typed :: "'w \<Rightarrow> string \<Rightarrow> string \<Rightarrow> jval \<Rightarrow> problem + jval"
  wd_row :: "'w \<Rightarrow> string \<Rightarrow> string \<Rightarrow> jval \<Rightarrow> jval option"
  wd_role :: "'w \<Rightarrow> string option"
  wd_query :: "string \<Rightarrow> string \<Rightarrow> jval list \<Rightarrow> 'w \<Rightarrow> problem + ((sql_row list \<times> int) \<times> 'w)"

section \<open>Row targets\<close>

record row_target =
  rt_id :: string
  rt_version :: string
  rt_table :: string
  rt_key :: jval
  rt_epoch :: uuid

definition schema_of :: "uuid \<Rightarrow> string" where
  "schema_of w = workspace_schema (uuid_text w)"

definition row_table :: "uuid \<Rightarrow> string \<Rightarrow> string" where
  "row_table w table =
     (let prefix = schema_of w @ ''.'' in if take (length prefix) table = prefix then drop (length prefix) table else table)"

definition enabled_gate :: "'w platform \<Rightarrow> uuid \<Rightarrow> string \<Rightarrow> string \<Rightarrow> approval_gate option" where
  "enabled_gate s w kind selector = find (\<lambda>g. ga_ws g = w \<and> ga_kind g = kind \<and> ga_selector g = selector \<and> ga_enabled g) (pl_gates s)"

definition current_revision :: "'w platform \<Rightarrow> uuid \<Rightarrow> nat" where
  "current_revision s w = foldr max (map mg_revision (ledger_of (pl_migrations s) w)) 0"

definition last_consumed :: "'w platform \<Rightarrow> uuid \<Rightarrow> string \<Rightarrow> nat option" where
  "last_consumed s w target =
     (case List.map_filter ap_consumed (filter (\<lambda>a. ap_ws a = w \<and> ap_kind a = ''row'' \<and> ap_target a = target) (pl_approvals s)) of
        [] \<Rightarrow> None | n # ns \<Rightarrow> Some (foldr max ns n))"

definition j_option :: "('a \<Rightarrow> jval) \<Rightarrow> 'a option \<Rightarrow> jval" where
  "j_option f v = (case v of None \<Rightarrow> JNull | Some x \<Rightarrow> f x)"

definition jsonb_hash :: "crypto \<Rightarrow> jval \<Rightarrow> string" where
  "jsonb_hash cr v = cr_sha cr (case cr_jsonb cr v of None \<Rightarrow> '''' | Some t \<Rightarrow> t)"

text \<open>\<open>control.lock_approval_row\<close> without and with a key.\<close>

definition lock_table :: "'w workspace_db \<Rightarrow> 'w platform \<Rightarrow> uuid \<Rightarrow> string \<Rightarrow> problem + (string list \<times> string list)" where
  "lock_table db s w table = of_option (Raise ''approval_target_unsupported'') (wd_shape db (pl_world s) (schema_of w) table)"

definition lock_row :: "crypto \<Rightarrow> 'w workspace_db \<Rightarrow> 'w platform \<Rightarrow> uuid \<Rightarrow> string \<Rightarrow> jval \<Rightarrow> problem + row_target" where
  "lock_row cr db s w table key =
     (let schema = schema_of w in
      ebind (lock_table db s w table) (\<lambda>(pk, temporal).
        case key of
          JObj fs \<Rightarrow>
            guardE (set (map fst fs) \<noteq> set pk) (Raise ''approval_mismatch'') (
            ebind (wd_typed db (pl_world s) schema table key) (\<lambda>typed.
            guardE (case typed of JObj ts \<Rightarrow> list_ex (\<lambda>f. snd f = JNull) ts | _ \<Rightarrow> True) (Raise ''approval_mismatch'') (
            ebind (of_option (Raise ''approval_gate_not_found'') (enabled_gate s w ''row'' (schema @ ''.'' @ table))) (\<lambda>g.
              let target = jsonb_hash cr (JArr [JInt 1, JStr schema, JStr table, typed]) in
              ebind (of_option (Raise ''approval_target_not_found'') (wd_row db (pl_world s) schema table typed)) (\<lambda>row.
                Inr \<lparr>rt_id = target,
                     rt_version = jsonb_hash cr (JArr [JInt 1, typed, JInt (int (current_revision s w)),
                       j_option JStr (wd_exists db (pl_world s) schema table), JStr (uuid_text (ga_epoch g)),
                       j_option (\<lambda>n. JInt (int n)) (last_consumed s w target), row]),
                     rt_table = schema @ ''.'' @ table, rt_key = typed, rt_epoch = ga_epoch g\<rparr>)))))
        | _ \<Rightarrow> Inl (Raise ''approval_mismatch'')))"

definition row_target :: "crypto \<Rightarrow> 'w workspace_db \<Rightarrow> 'w platform \<Rightarrow> uuid \<Rightarrow> string \<Rightarrow> jval \<Rightarrow> problem + row_target" where
  "row_target cr db s w table key = lock_row cr db s w (row_table w table) key"

definition proposal_target :: "engine \<Rightarrow> crypto \<Rightarrow> 'w workspace_db \<Rightarrow> 'w platform \<Rightarrow> uuid \<Rightarrow> prepared_sql \<Rightarrow> problem + row_target" where
  "proposal_target g cr db s w p =
     (case sd_write (ps_decision p) of
        None \<Rightarrow> Inl (Gate ''approval_target_unsupported'' None)
      | Some table \<Rightarrow>
          ebind (lock_table db s w table) (\<lambda>(pk, temporal).
            case gated_proposal (eg_parse g) (si_statement (ps_input p)) (si_params (ps_input p)) table pk temporal of
              None \<Rightarrow> Inl (Gate ''approval_target_unsupported'' None)
            | Some key \<Rightarrow> row_target cr db s w table (JObj key)))"

definition row_descriptor :: "crypto \<Rightarrow> row_target \<Rightarrow> jval" where
  "row_descriptor cr t = JObj [(''targetKind'', JStr ''row''), (''targetId'', JStr (rt_id t)), (''targetVersion'', JStr (rt_version t)),
     (''table'', JStr (rt_table t)), (''primaryKey'', j_option JStr (cr_jsonb cr (rt_key t)))]"

text \<open>The hash of the action: \<open>expectRows\<close> is absent from the text when undefined is refused, so
  the hash of an action without it is an error of the caller.\<close>

definition action_hash :: "engine \<Rightarrow> sql_input \<Rightarrow> string \<Rightarrow> problem + string" where
  "action_hash g q target = (case si_expect q of
     None \<Rightarrow> Inl (Gate ''invalid_input'' None)
   | Some n \<Rightarrow> Inr (eg_sha g (canonical (JObj [(''version'', JInt 1), (''statement'', JStr (si_statement q)),
       (''params'', JArr (si_params q)), (''expectRows'', JInt n), (''targetId'', JStr target)]))))"

section \<open>Migration targets\<close>

record migration_gate =
  mt_epoch :: "uuid option"
  mt_version :: string

definition migration_target :: "'w platform \<Rightarrow> uuid \<Rightarrow> migration_gate" where
  "migration_target s w = \<lparr>mt_epoch = map_option ga_epoch (enabled_gate s w ''migration'' ''migration''),
     mt_version = nat_text (current_revision s w)\<rparr>"

definition migration_revision_policy :: "string \<Rightarrow> int \<Rightarrow> string option" where
  "migration_revision_policy current expected = (if current = int_text expected then None else Some ''revision_stale'')"

definition migration_request_policy :: "migration_gate \<Rightarrow> bool \<Rightarrow> int \<Rightarrow> string option" where
  "migration_request_policy t preview expected =
     (if mt_epoch t = None then Some ''approval_gate_not_found''
      else if migration_revision_policy (mt_version t) expected \<noteq> None then Some ''approval_stale''
      else if preview then None else Some ''approval_mismatch'')"

record apply_input =
  ay_name :: string
  ay_sql :: string
  ay_hash :: string
  ay_expected :: int
  ay_preview :: nat
  ay_confirm :: bool
  ay_approval :: "uuid option"

definition migration_consumption_policy ::
  "time \<Rightarrow> migration_gate \<Rightarrow> apply_input \<Rightarrow> uuid \<Rightarrow> approval option \<Rightarrow> string option" where
  "migration_consumption_policy now gate q who a =
     (case migration_revision_policy (mt_version gate) (ay_expected q) of
        Some r \<Rightarrow> Some r
      | None \<Rightarrow> (case a of
          None \<Rightarrow> Some ''approval_not_found''
        | Some p \<Rightarrow>
            if ap_by p \<noteq> who \<or> ap_kind p \<noteq> ''migration'' \<or> ap_target p \<noteq> ay_hash q \<or> ap_hash p \<noteq> Some (ay_hash q)
            then Some ''approval_mismatch''
            else if ap_consumed p \<noteq> None then Some ''approval_consumed''
            else if ap_expires p \<le> now then Some ''approval_expired''
            else if mt_epoch gate = None \<or> ap_epoch p \<noteq> mt_epoch gate \<or> ap_version p \<noteq> mt_version gate then Some ''approval_stale''
            else if ap_preview p \<noteq> Some (ay_preview q) then Some ''approval_mismatch''
            else if ap_decision p \<noteq> Some ''approve'' then Some ''approval_not_approved''
            else None))"

section \<open>Consumption\<close>

definition find_approval :: "'w platform \<Rightarrow> uuid \<Rightarrow> uuid \<Rightarrow> approval option" where
  "find_approval s w i = find (\<lambda>a. ap_ws a = w \<and> ap_id a = i) (pl_approvals s)"

definition put_approval :: "approval \<Rightarrow> 'w platform \<Rightarrow> 'w platform" where
  "put_approval a s = s\<lparr>pl_approvals := tput (\<lambda>x. (ap_ws x, ap_id x)) a (pl_approvals s)\<rparr>"

text \<open>\<open>lockRowApprovals\<close>: every named Approval exists, and the rows of those that could be consumed
  are locked in the order of their table and key.\<close>

definition consumable :: "time \<Rightarrow> 'w workspace_db \<Rightarrow> 'w platform \<Rightarrow> uuid \<Rightarrow> approval \<Rightarrow> bool" where
  "consumable now db s w a \<longleftrightarrow> ap_kind a = ''row'' \<and> ap_consumed a = None \<and> ap_decision a = Some ''approve'' \<and> now < ap_expires a
     \<and> (case ap_table a of None \<Rightarrow> False | Some t \<Rightarrow> enabled_gate s w ''row'' t \<noteq> None
         \<and> take (length (schema_of w) + 1) t = schema_of w @ ''.'' \<and> wd_exists db (pl_world s) (schema_of w) (row_table w t) \<noteq> None)"

fun lock_targets :: "crypto \<Rightarrow> 'w workspace_db \<Rightarrow> 'w platform \<Rightarrow> uuid \<Rightarrow> approval list \<Rightarrow> problem option" where
  "lock_targets cr db s w [] = None"
| "lock_targets cr db s w (a # as) =
     (case row_target cr db s w (the (ap_table a)) (case ap_key a of None \<Rightarrow> JNull | Some k \<Rightarrow> k) of
        Inl e \<Rightarrow> Some (if problem_message e = ''approval_target_not_found'' then Gate ''approval_stale'' None else e)
      | Inr t \<Rightarrow> lock_targets cr db s w as)"

definition lock_row_approvals :: "time \<Rightarrow> crypto \<Rightarrow> 'w workspace_db \<Rightarrow> 'w platform \<Rightarrow> uuid \<Rightarrow> uuid list \<Rightarrow> problem option" where
  "lock_row_approvals now cr db s w ids =
     (let rows = filter (\<lambda>a. ap_ws a = w \<and> ap_id a \<in> set ids) (pl_approvals s);
          targets = sort_key (\<lambda>a. (case wd_exists db (pl_world s) (schema_of w) (row_table w (the (ap_table a))) of None \<Rightarrow> '''' | Some oid \<Rightarrow> oid,
              case Option.bind (ap_key a) (cr_jsonb cr) of None \<Rightarrow> '''' | Some k \<Rightarrow> k))
            (filter (consumable now db s w) rows) in
      if length rows \<noteq> card (set ids) then Some (Gate ''approval_not_found'' None)
      else lock_targets cr db s w targets)"

text \<open>\<open>checkRowApproval\<close>: the Approval a statement must consume, if any.\<close>

definition check_row_approval ::
  "engine \<Rightarrow> crypto \<Rightarrow> time \<Rightarrow> 'w workspace_db \<Rightarrow> 'w platform \<Rightarrow> run_context \<Rightarrow> prepared_sql \<Rightarrow> problem + approval option" where
  "check_row_approval g cr now db s c p =
     (let w = ctx_ws c; d = ps_decision p; q = ps_input p;
          gate = Option.bind (sd_write d) (\<lambda>t. enabled_gate s w ''row'' (ps_schema p @ ''.'' @ t)) in
      if sd_insert_only d = Some True then Inr None
      else if gate = None \<and> si_approval q = None then Inr None
      else
        ebind (case si_approval q of
            None \<Rightarrow> Inr None
          | Some t \<Rightarrow> (case parse_uuid t of
                None \<Rightarrow> Inl (Failed (Sql Invalid_text))
              | Some i \<Rightarrow> (case find_approval s w i of None \<Rightarrow> Inl (Gate ''approval_not_found'' None) | Some a \<Rightarrow> Inr (Some a)))) (\<lambda>approval.
        ebind (case approval of
            None \<Rightarrow> Inr ()
          | Some a \<Rightarrow>
              guardE (ctx_principal c = None \<or> ctx_principal c \<noteq> Some (ap_by a) \<or> ap_kind a \<noteq> ''row'') (Gate ''approval_mismatch'' None) (
              guardE (gate = None) (Gate (if ap_table a = Some (ps_schema p @ ''.'' @ (case sd_write d of Some t \<Rightarrow> t | None \<Rightarrow> ''undefined''))
                  then ''approval_stale'' else ''approval_mismatch'') None) (
              guardE (ap_consumed a \<noteq> None) (Gate ''approval_consumed'' None) (
              guardE (ap_expires a \<le> now) (Gate ''approval_expired'' None) (
              guardE (ap_decision a \<noteq> Some ''approve'') (Gate ''approval_not_approved'' None) (
              guardE (si_expect q \<noteq> Some 1) (Gate ''approval_mismatch'' None) (
              ebind (action_hash g q (ap_target a)) (\<lambda>h.
              guardE (ap_hash a \<noteq> Some h) (Gate ''approval_mismatch'' None) (Inr ()))))))))) (\<lambda>u.
        ebind (case proposal_target g cr db s w p of
            Inr t \<Rightarrow> Inr t
          | Inl e \<Rightarrow> Inl (if approval = None \<and> problem_message e = ''approval_target_not_found''
                then Gate ''approval_target_unsupported'' None else e)) (\<lambda>t.
        case approval of
          None \<Rightarrow> Inl (Gate ''approval_required'' (Some (row_descriptor cr t)))
        | Some a \<Rightarrow>
            guardE (ap_target a \<noteq> rt_id t) (Gate ''approval_mismatch'' None) (
            guardE (ap_epoch a \<noteq> Some (rt_epoch t) \<or> ap_version a \<noteq> rt_version t) (Gate ''approval_stale'' None) (
              Inr (Some a)))))))"

definition consume_row_approval ::
  "time \<Rightarrow> bound_context \<Rightarrow> approval \<Rightarrow> int \<Rightarrow> nat \<Rightarrow> 'w platform \<Rightarrow> problem + 'w platform" where
  "consume_row_approval now b a rows operation s =
     guardE (rows \<noteq> 1) (Gate ''approval_mismatch'' None)
       (case emit_on now b ''approval.consume'' [uuid_text (ap_id a)] (Some 1)
            [(''approvalId'', JStr (uuid_text (ap_id a))), (''targetKind'', JStr ''row''), (''targetId'', JStr (ap_target a)),
             (''targetVersion'', JStr (ap_version a)), (''actionHash'', j_option JStr (ap_hash a)),
             (''decisionPosition'', j_option (\<lambda>n. JStr (nat_text n)) (ap_position a)), (''operationIndex'', JInt (int operation))] s of
          (n, s1) \<Rightarrow> Inr (put_approval (a\<lparr>ap_consumed := Some n\<rparr>) s1))"

definition consume_migration_approval ::
  "time \<Rightarrow> bound_context \<Rightarrow> run_context \<Rightarrow> apply_input \<Rightarrow> uuid \<Rightarrow> migration_gate \<Rightarrow> 'w platform \<Rightarrow> problem + 'w platform" where
  "consume_migration_approval now b c q i gate s =
     (let a = find_approval s (ctx_ws c) i in
      case migration_consumption_policy now gate q (case ctx_principal c of Some p \<Rightarrow> p | None \<Rightarrow> 0) a of
        Some r \<Rightarrow> Inl (Gate r None)
      | None \<Rightarrow> (case a of
          None \<Rightarrow> Inl (Other ''approval_unavailable'')
        | Some p \<Rightarrow> (case emit_on now b ''approval.consume'' [uuid_text i] (Some 1)
              [(''approvalId'', JStr (uuid_text i)), (''targetKind'', JStr ''migration''), (''targetId'', JStr (ap_target p)),
               (''targetVersion'', JStr (ap_version p)), (''actionHash'', j_option JStr (ap_hash p)),
               (''decisionPosition'', j_option (\<lambda>n. JStr (nat_text n)) (ap_position p)),
               (''previewPosition'', j_option (\<lambda>n. JStr (nat_text n)) (ap_preview p))] s of
            (n, s1) \<Rightarrow> Inr (put_approval (p\<lparr>ap_consumed := Some n\<rparr>) s1))))"

end
