(* ===== verification/SqlExecution.thy ===== *)
theory SqlExecution
  imports RowGates
begin

text \<open>\<open>sql/execute-sql-in.ts\<close> and \<open>sql/execute-sql.ts\<close>: a prepared statement runs inside a bound
  transaction, after its Approval and its relations are checked, under the role and search path of
  the Workspace; the result is bounded, an audit event is emitted, the Approval is consumed.\<close>

record sql_response =
  sp_rows :: "jval list"
  sp_count :: int
  sp_truncated :: bool

definition response_json :: "sql_response \<Rightarrow> jval" where
  "response_json r = JObj [(''rows'', JArr (sp_rows r)), (''rowCount'', JStr (int_text (sp_count r))), (''truncated'', JBool (sp_truncated r))]"

text \<open>The text between the offsets of the parser.\<close>

definition statement_slice :: "jval \<Rightarrow> string \<Rightarrow> string" where
  "statement_slice raw t =
     (let start = (case jfield ''stmt_location'' raw of Some (JInt n) \<Rightarrow> nat n | _ \<Rightarrow> 0);
          len = (case jfield ''stmt_len'' raw of Some (JInt n) \<Rightarrow> nat n | _ \<Rightarrow> 0)
      in if len = 0 then drop start t else take len (drop start t))"

definition first_statement :: "jval \<Rightarrow> jval option" where
  "first_statement parsed = (case jfield ''stmts'' parsed of Some (JArr (s # ss)) \<Rightarrow> Some s | _ \<Rightarrow> None)"

definition has_returning :: "jval \<Rightarrow> bool" where
  "has_returning root = (case root of JObj ((k, x) # fs) \<Rightarrow> has_field ''returningClause'' x | _ \<Rightarrow> False)"

definition bounded_query :: "bool \<Rightarrow> string \<Rightarrow> string \<Rightarrow> string" where
  "bounded_query returning source statement =
     ''WITH '' @ source @ '' AS ('' @ statement @ [CHR 0x0A] @ ''),
    __bp_s AS (SELECT to_jsonb('' @ source @ '') AS row FROM '' @ source @ '' LIMIT 1001),
    __bp_t AS (SELECT '' @ (if returning then ''(SELECT count(*) FROM __bp_c) AS affected,'' else '''') @ ''
      count(*) AS n, coalesce(sum(octet_length(row::text)), 0) AS bytes FROM __bp_s)
    SELECT CASE WHEN __bp_t.bytes > 1048576 THEN NULL ELSE __bp_s.row END AS row,
      __bp_t.n, __bp_t.bytes '' @ (if returning then '', __bp_t.affected'' else '''') @ ''
    FROM __bp_s CROSS JOIN __bp_t''"

definition is_identifier :: "string \<Rightarrow> bool" where
  "is_identifier t \<longleftrightarrow> t \<noteq> [] \<and> list_all (\<lambda>c. is_lower c \<or> is_digit c \<or> c = CHR ''_'') t
     \<or> (let word = (\<lambda>u. length u = 22 \<and> list_all (\<lambda>c. is_lower c \<or> is_upper c \<or> is_digit c \<or> c = CHR ''_'' \<or> c = CHR ''-'') u) in
        length t = 50 \<and> take 5 t = ''bp_p_'' \<and> word (take 22 (drop 5 t)) \<and> t ! 27 = CHR ''_'' \<and> word (drop 28 t))"

fun decode_rows :: "sql_row list \<Rightarrow> jval list option" where
  "decode_rows [] = Some []"
| "decode_rows (r # rs) = (if is_object (sr_row r) then map_option (\<lambda>vs. sr_row r # vs) (decode_rows rs) else None)"

definition check_sql_relations :: "'w workspace_db \<Rightarrow> 'w platform \<Rightarrow> prepared_sql \<Rightarrow> bool" where
  "check_sql_relations db s p =
     relation_contract (ps_schema p) (sd_relations (ps_decision p))
       (filter (\<lambda>f. rf_schema f = ps_schema p \<and> rf_name f \<in> set (sd_relations (ps_decision p))) (wd_relations db (pl_world s) (ps_schema p)))"

text \<open>What the result of the query becomes.\<close>

definition shape_result :: "statement_kind \<Rightarrow> bool \<Rightarrow> sql_row list \<times> int \<Rightarrow> problem + sql_response" where
  "shape_result kind returning res =
     (let returns_rows = (kind = Select_statement \<or> returning);
          first = (\<lambda>f. case fst res of [] \<Rightarrow> 0 | r # rs \<Rightarrow> f r);
          n = first sr_n in
      if returns_rows \<and> 1048576 < first sr_bytes then Inl Result_too_large
      else (let count = (if returning then first sr_affected else if returns_rows then min n 1000 else snd res) in
        (case decode_rows (if returns_rows then take 1000 (fst res) else []) of
           None \<Rightarrow> Inl (Other ''sql_result_invalid'')
         | Some rows \<Rightarrow>
             let r = \<lparr>sp_rows = rows, sp_count = count, sp_truncated = (returns_rows \<and> 1000 < n)\<rparr> in
             if 1024 * 1024 < json_bytes (response_json r) then Inl Result_too_large else Inr r)))"

fun kind_text :: "statement_kind \<Rightarrow> string" where
  "kind_text Select_statement = ''select''"
| "kind_text Insert_statement = ''insert''"
| "kind_text Update_statement = ''update''"
| "kind_text Delete_statement = ''delete''"

definition execute_sql_in ::
  "engine \<Rightarrow> crypto \<Rightarrow> time \<Rightarrow> 'w workspace_db \<Rightarrow> bound_context \<Rightarrow> run_context \<Rightarrow> prepared_sql \<Rightarrow> nat \<Rightarrow> 'w platform
   \<Rightarrow> problem + (sql_response \<times> 'w platform)" where
  "execute_sql_in g cr now db b c p operation s =
     guardE (ps_schema p \<noteq> schema_of (ctx_ws c)) (Other ''sql_identifier_invalid'') (
     ebind (of_option (Other ''sql_unavailable'') (Option.bind (eg_parse g (si_statement (ps_input p))) first_statement)) (\<lambda>raw.
     ebind (of_option (Other ''sql_unavailable'') (jfield ''stmt'' raw)) (\<lambda>root.
       let statement = statement_slice raw (si_statement (ps_input p));
           kind = sd_kind (ps_decision p); returning = has_returning root;
           query = (if kind = Select_statement \<or> returning
             then bounded_query returning (if kind = Select_statement then ''__bp_q'' else ''__bp_c'') statement else statement) in
       ebind (check_row_approval g cr now db s c p) (\<lambda>approval.
       guardE (\<not> check_sql_relations db s p) Relation_contract (
       ebind (of_option (Other ''sql_unavailable'') (wd_role db (pl_world s))) (\<lambda>role.
       guardE (\<not> is_identifier role \<or> \<not> is_identifier (ps_schema p)) (Other ''sql_identifier_invalid'') (
       ebind (wd_query db (ps_schema p) query (si_params (ps_input p)) (pl_world s)) (\<lambda>(res, world).
       ebind (shape_result kind returning res) (\<lambda>r.
         let s1 = snd (emit_on now b ''sql.execute'' (sd_relations (ps_decision p)) (Some (sp_count r))
               [(''fingerprint'', JStr (sd_fingerprint (ps_decision p))), (''kind'', JStr (kind_text kind))] (s\<lparr>pl_world := world\<rparr>)) in
         (case approval of
            None \<Rightarrow> Inr (r, s1)
          | Some a \<Rightarrow> ebind (consume_row_approval now b a (sp_count r) operation s1) (\<lambda>s2. Inr (r, s2))))))))))))"

definition meter_on :: "resource \<Rightarrow> int \<Rightarrow> nat option \<Rightarrow> meter \<Rightarrow> problem + meter" where
  "meter_on r n i m = map_sum Failed id (meter_step r n i m)"

definition commit_on :: "meter \<Rightarrow> 'w platform \<Rightarrow> 'w platform" where
  "commit_on m s = s\<lparr>pl_server := meter_commit m (pl_server s)\<rparr>"

definition execute_sql ::
  "engine \<Rightarrow> crypto \<Rightarrow> time \<Rightarrow> 'w workspace_db \<Rightarrow> run_context \<Rightarrow> sql_input \<Rightarrow> 'w platform \<Rightarrow> (tx_failure + sql_response) \<times> 'w platform" where
  "execute_sql g cr now db c q s =
     (case prepare_sql g (uuid_text (ctx_ws c)) q of
        Inl e \<Rightarrow> (Inl (sql_failed 422 e None), reject_on now c ''sql.execute'' [] e None s)
      | Inr p \<Rightarrow>
          (case with_platform now c (\<lambda>b s1.
                  ebind (meter_on Sql_statement_bytes (octets (si_statement q)) None (quota_accounting now c (pl_server s1))) (\<lambda>m.
                  ebind (execute_sql_in g cr now db b c p 0 s1) (\<lambda>(r, s2).
                  ebind (meter_on Sql_rows (sp_count r) None m) (\<lambda>m'. Inr (r, commit_on m' s2))))) id s of
             Inr (r, s') \<Rightarrow> (Inr r, s')
           | Inl e \<Rightarrow> (let f = sql_failure e in
               (Inl f, reject_on now c ''sql.execute'' [] (tf_error f) (tf_sqlstate f) s))))"

section \<open>What an execution did\<close>

lemma check_row_approval_gated:
  assumes "check_row_approval g cr now db s c p = Inr r" "sd_insert_only (ps_decision p) \<noteq> Some True"
    and "sd_write (ps_decision p) = Some t" "enabled_gate s (ctx_ws c) ''row'' (ps_schema p @ ''.'' @ t) \<noteq> None"
  obtains a i where "r = Some a" "si_approval (ps_input p) = Some i" "Option.bind (parse_uuid i) (find_approval s (ctx_ws c)) = Some a"
    "ctx_principal c = Some (ap_by a)" "ap_kind a = ''row''" "ap_consumed a = None" "now < ap_expires a" "ap_decision a = Some ''approve''"
    "action_hash g (ps_input p) (ap_target a) = Inr (the (ap_hash a))" "ap_hash a \<noteq> None"
proof -
  have "\<exists>a i. r = Some a \<and> si_approval (ps_input p) = Some i \<and> Option.bind (parse_uuid i) (find_approval s (ctx_ws c)) = Some a
      \<and> ctx_principal c = Some (ap_by a) \<and> ap_kind a = ''row'' \<and> ap_consumed a = None \<and> now < ap_expires a \<and> ap_decision a = Some ''approve''
      \<and> action_hash g (ps_input p) (ap_target a) = Inr (the (ap_hash a)) \<and> ap_hash a \<noteq> None"
    using assms
    by (auto simp: check_row_approval_def Let_def ebind_Inr_iff not_le split: option.splits sum.splits if_splits)
  then show thesis using that by blast
qed

end
