(* ===== verification/Handoff.thy ===== *)
theory Handoff
  imports SqlExecution
begin

text \<open>\<open>tx/execute-transaction.ts\<close>: the atomic handoff.  A plan runs inside one bound transaction:
  the receipt of an earlier commit answers a repeated request, otherwise the quotas are charged, the
  Deliveries and row Approvals are locked, the operations run in order, and the commit is recorded
  with its response.  An error carries the operation it belongs to.\<close>

type_synonym tx_problem = "problem \<times> nat option"

definition at_index :: "nat option \<Rightarrow> problem + 'a \<Rightarrow> tx_problem + 'a" where
  "at_index i r = map_sum (\<lambda>e. (e, i)) id r"

lemma at_index_Inr_iff [simp]: "at_index i r = Inr x \<longleftrightarrow> r = Inr x"
  by (cases r) (simp_all add: at_index_def)

section \<open>Before the transaction\<close>

fun sized_values :: "crypto \<Rightarrow> int \<Rightarrow> (nat \<times> bool \<times> jval) list \<Rightarrow> problem option" where
  "sized_values cr sofar [] = None"
| "sized_values cr sofar ((i, send, v) # vs) =
     (let size = (case cr_jsonb cr v of None \<Rightarrow> 0 | Some t \<Rightarrow> octets t); sofar = sofar + size in
      if 1048576 < sofar \<or> send \<and> 262144 < size then Some (Refused (tx_invalid ''transaction_bounds_exceeded'' (Some i)))
      else sized_values cr sofar vs)"

definition value_problem :: "crypto \<Rightarrow> (nat \<times> bool \<times> jval) list \<Rightarrow> problem option" where
  "value_problem cr vs =
     (if list_ex (\<lambda>x. cr_jsonb cr (snd (snd x)) = None) vs then Some (Pg ''22P05'' None) else sized_values cr 0 vs)"

section \<open>Inside the transaction\<close>

fun charge_operations :: "nat \<Rightarrow> planned list \<Rightarrow> meter \<Rightarrow> problem + meter" where
  "charge_operations i [] m = Inr m"
| "charge_operations i (p # ps) m =
     ebind (meter_on Transaction_operations 1 (Some i) m) (\<lambda>m.
     ebind (case p of Planned_sql q \<Rightarrow> meter_on Sql_statement_bytes (octets (si_statement (ps_input q))) (Some i) m | Planned op \<Rightarrow> Inr m) (\<lambda>m.
       charge_operations (Suc i) ps m))"

fun index_of :: "nat \<Rightarrow> ('a \<Rightarrow> bool) \<Rightarrow> 'a list \<Rightarrow> nat option" where
  "index_of i P [] = None"
| "index_of i P (x # xs) = (if P x then Some i else index_of (Suc i) P xs)"

definition lock_delivery :: "uuid \<Rightarrow> string \<Rightarrow> 'w platform \<Rightarrow> problem option" where
  "lock_delivery w t s = (case parse_uuid t of
     None \<Rightarrow> Some (Failed (Sql Invalid_text))
   | Some i \<Rightarrow> if list_ex (\<lambda>d. dl_ws d = w \<and> dl_id d = i) (lg_deliveries (bp_ledger (pl_server s))) then None
              else Some (Failed (Sql Delivery_not_found)))"

fun lock_deliveries :: "uuid \<Rightarrow> tx_operation list \<Rightarrow> string list \<Rightarrow> 'w platform \<Rightarrow> tx_problem option" where
  "lock_deliveries w ops [] s = None"
| "lock_deliveries w ops (t # ts) s =
     (case lock_delivery w t s of
        Some e \<Rightarrow> Some (e, index_of 0 (\<lambda>op. tx_delivery op = Some t) ops)
      | None \<Rightarrow> lock_deliveries w ops ts s)"

fun approval_ids :: "planned list \<Rightarrow> string list" where
  "approval_ids [] = []"
| "approval_ids (Planned_sql q # ps) = (case si_approval (ps_input q) of None \<Rightarrow> approval_ids ps | Some t \<Rightarrow> to_lower t # approval_ids ps)"
| "approval_ids (Planned op # ps) = approval_ids ps"

definition lock_approvals :: "time \<Rightarrow> crypto \<Rightarrow> 'w workspace_db \<Rightarrow> 'w platform \<Rightarrow> uuid \<Rightarrow> string list \<Rightarrow> problem option" where
  "lock_approvals now cr db s w ts =
     (if list_ex (\<lambda>t. parse_uuid t = None) ts then Some (Failed (Sql Invalid_text))
      else lock_row_approvals now cr db s w (List.map_filter parse_uuid ts))"

record tx_env =
  te_engine :: engine
  te_crypto :: crypto
  te_now :: time

definition run_operation ::
  "tx_env \<Rightarrow> 'w workspace_db \<Rightarrow> bound_context \<Rightarrow> run_context \<Rightarrow> nat \<Rightarrow> planned \<Rightarrow> meter \<Rightarrow> 'w platform
   \<Rightarrow> problem + ((jval \<times> string \<times> meter) \<times> 'w platform)" where
  "run_operation E db b c i p m s =
     (let now = te_now E; cr = te_crypto E; w = ctx_ws c in
      case p of
        Planned_sql q \<Rightarrow>
          ebind (execute_sql_in (te_engine E) cr now db b c q i s) (\<lambda>(r, s1).
          ebind (meter_on Sql_rows (sp_count r) (Some i) m) (\<lambda>m'.
          guardE (si_expect (ps_input q) \<noteq> None \<and> si_expect (ps_input q) \<noteq> Some (sp_count r)) (Refused (tx_invalid ''assertion_failed'' (Some i))) (
            Inr ((JObj [(''sql'', JObj [(''rowCount'', JStr (int_text (sp_count r))), (''truncated'', JBool (sp_truncated r))])], ''sql'', m'), s1))))
      | Planned (Op_send queue key body) \<Rightarrow>
          ebind (on_server (send_message_in (cr_sha cr) (cr_jsonb cr) now b w queue key body) s) (\<lambda>((msg, inserted), s1).
          ebind (meter_on Queue_sends (if inserted then 1 else 0) (Some i) m) (\<lambda>m'.
            Inr ((JObj [(''send'', JObj [(''messageId'', JStr (uuid_text (ms_id msg))), (''inserted'', JBool inserted)])], ''send'', m'), s1)))
      | Planned (Op_ack d r) \<Rightarrow>
          ebind (on_server (receipt_verb_in (cr_digest cr) now b w d r Ack) s) (\<lambda>(x, s1).
            Inr ((JObj [(''ack'', JObj [(''deliveryId'', JStr (uuid_text (dl_id x))), (''state'', JStr (dstate_text (dl_state x)))])], ''ack'', m), s1))
      | Planned (Op_hold d r) \<Rightarrow>
          ebind (on_server (hold_in (cr_digest cr) now b w d r) s) (\<lambda>(x, s1).
            Inr ((JObj [(''hold'', JObj [(''deliveryId'', JStr (uuid_text (de_id x))), (''state'', JStr ''held'')])], ''hold'', m), s1))
      | Planned (Op_sql q) \<Rightarrow> Inl (Other ''unplanned''))"

fun run_operations ::
  "tx_env \<Rightarrow> 'w workspace_db \<Rightarrow> bound_context \<Rightarrow> run_context \<Rightarrow> nat \<Rightarrow> planned list \<Rightarrow> meter \<Rightarrow> 'w platform
   \<Rightarrow> tx_problem + ((jval list \<times> string list \<times> meter) \<times> 'w platform)" where
  "run_operations E db b c i [] m s = Inr (([], [], m), s)"
| "run_operations E db b c i (p # ps) m s =
     ebind (at_index (Some i) (run_operation E db b c i p m s)) (\<lambda>((r, k, m1), s1).
     ebind (run_operations E db b c (Suc i) ps m1 s1) (\<lambda>((rs, ks, m2), s2). Inr ((r # rs, k # ks, m2), s2)))"

definition same_receipt :: "run_context \<Rightarrow> string \<Rightarrow> tx_receipt \<Rightarrow> bool" where
  "same_receipt c key r \<longleftrightarrow> rx_ws r = ctx_ws c \<and> Some (rx_principal r) = ctx_principal c \<and> rx_key r = key"

definition tx_response_json :: "tx_response \<Rightarrow> jval" where
  "tx_response_json r = JObj [(''committed'', JBool True), (''position'', JStr (nat_text (tr_position r))), (''results'', JArr (tr_results r))]"

definition store_receipt :: "crypto \<Rightarrow> tx_receipt \<Rightarrow> 'w platform \<Rightarrow> problem + 'w platform" where
  "store_receipt cr r s =
     guardE (case cr_jsonb cr (tx_response_json (rx_response r)) of None \<Rightarrow> True | Some t \<Rightarrow> 16384 < octets t) (Pg ''23514'' None)
       (Inr (s\<lparr>pl_receipts := pl_receipts s @ [r]\<rparr>))"

definition transaction_in ::
  "tx_env \<Rightarrow> 'w workspace_db \<Rightarrow> run_context \<Rightarrow> tx_input \<Rightarrow> tx_plan \<Rightarrow> string \<Rightarrow> bound_context \<Rightarrow> 'w platform
   \<Rightarrow> tx_problem + (tx_response \<times> 'w platform)" where
  "transaction_in E db c t plan hash b s =
     (case find (same_receipt c (ti_key t)) (pl_receipts s) of
        Some r \<Rightarrow> if rx_hash r \<noteq> hash then Inl (Refused (sql_failed 409 ''idempotency_conflict'' None), None) else Inr (rx_response r, s)
      | None \<Rightarrow>
          ebind (at_index None (charge_operations 0 (tp_operations plan) (quota_accounting (te_now E) c (pl_server s)))) (\<lambda>m.
          case lock_deliveries (ctx_ws c) (ti_operations t) (tp_deliveries plan) s of
            Some e \<Rightarrow> Inl e
          | None \<Rightarrow>
              (case lock_approvals (te_now E) (te_crypto E) db s (ctx_ws c) (approval_ids (tp_operations plan)) of
                 Some e \<Rightarrow> Inl (e, None)
               | None \<Rightarrow>
                   ebind (run_operations E db b c 0 (tp_operations plan) m s) (\<lambda>((results, kinds, m'), s1).
                     (case emit_on (te_now E) b ''transaction.committed'' kinds None
                          [(''operations'', JInt (int (length results))), (''idempotency_key_present'', JBool True)] (commit_on m' s1) of
                        (n, s2) \<Rightarrow>
                          let r = \<lparr>tr_position = n, tr_results = results\<rparr> in
                          ebind (at_index None (store_receipt (te_crypto E) \<lparr>rx_ws = ctx_ws c,
                              rx_principal = (case ctx_principal c of Some p \<Rightarrow> p | None \<Rightarrow> 0),
                              rx_key = ti_key t, rx_hash = hash, rx_response = r\<rparr> s2)) (\<lambda>s3. Inr (r, s3)))))))"

definition transaction_attempt ::
  "tx_env \<Rightarrow> 'w workspace_db \<Rightarrow> run_context \<Rightarrow> tx_input \<Rightarrow> 'w platform \<Rightarrow> tx_problem + (tx_response \<times> 'w platform)" where
  "transaction_attempt E db c t s =
     (case transaction_policy (te_engine E) (uuid_text (ctx_ws c)) (uuid_text (case ctx_principal c of Some p \<Rightarrow> p | None \<Rightarrow> 0)) t of
        Inl f \<Rightarrow> Inl (Refused f, None)
      | Inr (plan, hash) \<Rightarrow>
          (case value_problem (te_crypto E) (tp_values plan) of
             Some e \<Rightarrow> Inl (e, None)
           | None \<Rightarrow> with_platform (te_now E) c (transaction_in E db c t plan hash) (\<lambda>e. (e, None)) s))"

definition operation_object :: "nat \<Rightarrow> string" where
  "operation_object i = ''operation.'' @ nat_text i"

definition execute_transaction ::
  "tx_env \<Rightarrow> 'w workspace_db \<Rightarrow> run_context \<Rightarrow> tx_input \<Rightarrow> 'w platform \<Rightarrow> (tx_failure + tx_response) \<times> 'w platform" where
  "execute_transaction E db c t s =
     (case transaction_attempt E db c t s of
        Inr (r, s') \<Rightarrow> (Inr r, s')
      | Inl (e, i) \<Rightarrow>
          (let f = transaction_failure e; f = (if i = None then f else f\<lparr>tf_index := i\<rparr>) in
           (Inl f, reject_on (te_now E) c ''transaction.committed''
              (case tf_index f of None \<Rightarrow> [] | Some n \<Rightarrow> [operation_object n]) (tf_error f) (tf_sqlstate f) s)))"

end
