(* ===== verification/Approvals.thy ===== *)
theory Approvals
  imports Handoff
begin

text \<open>The Approval services: \<open>request.ts\<close>, \<open>decide.ts\<close>, \<open>decision-policy.ts\<close>, \<open>set-gate.ts\<close>,
  \<open>set-settings.ts\<close>, \<open>set-delegation.ts\<close> and \<open>list-approvals.ts\<close> of apps/server/approvals.
  \<open>ae_clock\<close> is the text PostgreSQL gives a timestamp inside a delivery envelope, \<open>ae_jsonb\<close> the
  value of a JSON text.\<close>

record approval_env =
  ae_engine :: engine
  ae_crypto :: crypto
  ae_clock :: "time \<Rightarrow> string"
  ae_jsonb :: "string \<Rightarrow> jval option"
  ae_now :: time

definition raise_error :: "string \<Rightarrow> problem" where
  "raise_error m = Other m"

section \<open>Requests\<close>

datatype request_input =
    Request_message string string "int option"
  | Request_row string jval string sql_input "int option"
  | Request_migration int string nat "int option"

text \<open>The target an Approval is inserted with.\<close>

record approval_target =
  at_kind :: string
  at_id :: string
  at_version :: string
  at_epoch :: "uuid option"
  at_hash :: "string option"
  at_table :: "string option"
  at_key :: "jval option"
  at_preview :: "nat option"

definition new_approval :: "time \<Rightarrow> uuid \<Rightarrow> run_context \<Rightarrow> approval_target \<Rightarrow> int option \<Rightarrow> approval" where
  "new_approval now i c t ttl =
     \<lparr>ap_id = i, ap_ws = ctx_ws c, ap_kind = at_kind t, ap_target = at_id t, ap_version = at_version t,
      ap_by = (case ctx_principal c of Some p \<Rightarrow> p | None \<Rightarrow> 0), ap_run = (case ctx_run c of Some r \<Rightarrow> r | None \<Rightarrow> 0),
      ap_epoch = at_epoch t, ap_hash = at_hash t, ap_table = at_table t, ap_key = at_key t, ap_preview = at_preview t,
      ap_created = now, ap_expires = now + seconds (case ttl of None \<Rightarrow> 3600 | Some n \<Rightarrow> n),
      ap_decision = None, ap_reason = None, ap_position = None, ap_released = None, ap_consumed = None\<rparr>"

text \<open>The INSERT with the CHECK constraints of the table and the unique index of Message targets.\<close>

definition insert_approval :: "approval \<Rightarrow> 'w platform \<Rightarrow> problem + 'w platform" where
  "insert_approval a s =
     guardE (\<not> (ap_created a < ap_expires a \<and> ap_expires a \<le> ap_created a + seconds 86400)
         \<or> ap_target a = [] \<or> 512 < length (ap_target a) \<or> ap_version a = [] \<or> 128 < length (ap_version a)) (Pg ''23514'' None) (
     guardE (ap_kind a = ''message'' \<and> list_ex (\<lambda>x. ap_ws x = ap_ws a \<and> ap_kind x = ''message'' \<and> ap_target x = ap_target a
         \<and> ap_version x = ap_version a) (pl_approvals s)) (Pg ''23505'' (Some ''approvals_target_unique''))
       (Inr (s\<lparr>pl_approvals := pl_approvals s @ [a], pl_next := Suc (pl_next s)\<rparr>)))"

definition preview_matches :: "'w platform \<Rightarrow> run_context \<Rightarrow> int \<Rightarrow> string \<Rightarrow> nat \<Rightarrow> bool" where
  "preview_matches s c expected hash position \<longleftrightarrow> position \<le> 9223372036854775807
     \<and> list_ex (\<lambda>e. ae_ws e = ctx_ws c \<and> ae_position e = position \<and> ae_kind e = ''migration.previewed''
         \<and> ae_principal e = ctx_principal c \<and> map_of (ae_metadata e) ''revision'' = Some (JInt expected)
         \<and> map_of (ae_metadata e) ''sqlHash'' = Some (JStr hash) \<and> map_of (ae_metadata e) ''policyVersion'' = Some (JInt 1))
       (bp_events (pl_server s))"

text \<open>A primary key given as text is JSON.\<close>

definition key_value :: "approval_env \<Rightarrow> jval \<Rightarrow> problem + jval" where
  "key_value E key = (case key of JStr t \<Rightarrow> of_option (Pg ''22P02'' None) (ae_jsonb E t) | _ \<Rightarrow> Inr key)"

definition resolve_target :: "approval_env \<Rightarrow> 'w workspace_db \<Rightarrow> run_context \<Rightarrow> request_input \<Rightarrow> 'w platform \<Rightarrow> problem + approval_target" where
  "resolve_target E db c q s =
     (case q of
        Request_migration expected hash position ttl \<Rightarrow>
          let t = migration_target s (ctx_ws c) in
          (case migration_request_policy t (preview_matches s c expected hash position) expected of
             Some r \<Rightarrow> Inl (raise_error r)
           | None \<Rightarrow> Inr \<lparr>at_kind = ''migration'', at_id = hash, at_version = mt_version t, at_epoch = mt_epoch t,
               at_hash = Some hash, at_table = None, at_key = None, at_preview = Some position\<rparr>)
      | Request_row table key version sql ttl \<Rightarrow>
          (case prepare_sql (ae_engine E) (uuid_text (ctx_ws c)) sql of
             Inl e \<Rightarrow> Inl (raise_error ''approval_target_unsupported'')
           | Inr p \<Rightarrow>
               ebind (proposal_target (ae_engine E) (ae_crypto E) db s (ctx_ws c) p) (\<lambda>t.
               ebind (key_value E key) (\<lambda>k.
               ebind (row_target (ae_crypto E) db s (ctx_ws c) table k) (\<lambda>r.
               guardE (rt_id t \<noteq> rt_id r) (raise_error ''approval_mismatch'') (
               guardE (rt_version t \<noteq> version) (raise_error ''approval_stale'') (
               ebind (action_hash (ae_engine E) sql (rt_id t)) (\<lambda>h.
                 Inr \<lparr>at_kind = ''row'', at_id = rt_id t, at_version = rt_version t, at_epoch = Some (rt_epoch t),
                   at_hash = Some h, at_table = Some (rt_table t), at_key = Some (rt_key t), at_preview = None\<rparr>)))))))
      | Request_message d receipt ttl \<Rightarrow> Inl (raise_error ''approval_unavailable''))"

fun request_ttl :: "request_input \<Rightarrow> int option" where
  "request_ttl (Request_message d r ttl) = ttl"
| "request_ttl (Request_row t k v q ttl) = ttl"
| "request_ttl (Request_migration e h p ttl) = ttl"

definition delivery_version :: "approval_env \<Rightarrow> 'w platform \<Rightarrow> uuid \<Rightarrow> string \<Rightarrow> (bool \<times> string \<times> string option) option" where
  "delivery_version E s w t = (case parse_uuid t of None \<Rightarrow> None
     | Some i \<Rightarrow> map_option (\<lambda>d. (dl_current d, dstate_text (dl_state d), map_option (ae_clock E) (dl_held_at d)))
         (find (\<lambda>d. dl_ws d = w \<and> dl_id d = i) (lg_deliveries (bp_ledger (pl_server s)))))"

definition request_message_in ::
  "approval_env \<Rightarrow> run_context \<Rightarrow> string \<Rightarrow> string \<Rightarrow> int option \<Rightarrow> bound_context \<Rightarrow> 'w platform \<Rightarrow> problem + (approval \<times> 'w platform)" where
  "request_message_in E c d receipt ttl b s =
     ebind (on_server (hold_in (cr_digest (ae_crypto E)) (ae_now E) b (ctx_ws c) d receipt) s) (\<lambda>(x, s1).
     case delivery_version E s1 (ctx_ws c) d of
       Some (cur, st, Some v) \<Rightarrow>
         let a = new_approval (ae_now E) (pl_next s1) c \<lparr>at_kind = ''message'', at_id = d, at_version = v, at_epoch = None,
             at_hash = None, at_table = None, at_key = None, at_preview = None\<rparr> ttl in
         ebind (insert_approval a s1) (\<lambda>s2.
           Inr (a, snd (emit_on (ae_now E) b ''approval.request'' [uuid_text (ap_id a), d] (Some 1)
             [(''targetKind'', JStr (ap_kind a)), (''targetVersion'', JStr (ap_version a)), (''expiresAt'', JInt (ap_expires a))] s2)))
     | _ \<Rightarrow> Inl (raise_error ''approval_unavailable''))"

definition request_target_in ::
  "approval_env \<Rightarrow> 'w workspace_db \<Rightarrow> run_context \<Rightarrow> request_input \<Rightarrow> bound_context \<Rightarrow> 'w platform \<Rightarrow> problem + (approval \<times> 'w platform)" where
  "request_target_in E db c q b s =
     ebind (resolve_target E db c q s) (\<lambda>t.
       let a = new_approval (ae_now E) (pl_next s) c t (request_ttl q) in
       ebind (insert_approval a s) (\<lambda>s1.
         Inr (a, snd (emit_on (ae_now E) b ''approval.request'' [uuid_text (ap_id a)] (Some 1)
           [(''targetKind'', JStr (ap_kind a)), (''targetId'', JStr (ap_target a)), (''targetVersion'', JStr (ap_version a)),
            (''actionHash'', j_option JStr (ap_hash a))] s1))))"

definition request_approval ::
  "approval_env \<Rightarrow> 'w workspace_db \<Rightarrow> run_context \<Rightarrow> request_input \<Rightarrow> 'w platform \<Rightarrow> (string + approval) \<times> 'w platform" where
  "request_approval E db c q s =
     (case q of
        Request_message t receipt ttl \<Rightarrow>
          approval_write (ae_now E) c ''approval.request'' [to_lower t] (request_message_in E c (to_lower t) receipt ttl) s
      | _ \<Rightarrow> approval_write (ae_now E) c ''approval.request'' [] (request_target_in E db c q) s)"

section \<open>Decisions\<close>

record decision_facts =
  df_kind :: string
  df_decided :: bool
  df_expired :: bool
  df_current :: bool
  df_state :: "string option"
  df_version :: string
  df_held :: "string option"
  df_self :: bool
  df_principal :: "uuid option"
  df_by :: uuid
  df_run_principal :: uuid

definition decision_policy :: "decision_facts \<Rightarrow> string option" where
  "decision_policy f =
     (if df_decided f then Some ''approval_decided''
      else if df_expired f then Some ''approval_expired''
      else if \<not> df_current f \<or> (df_kind f = ''message'' \<and> df_state f \<noteq> Some ''held'') \<or> Some (df_version f) \<noteq> df_held f
      then Some ''approval_stale''
      else if \<not> df_self f \<and> (df_principal f = Some (df_by f) \<or> df_principal f = Some (df_run_principal f))
      then Some ''approval_self_forbidden''
      else None)"

text \<open>The User whose membership lets the caller decide: the caller, or the grantor of a delegation.\<close>

definition decider :: "run_context \<Rightarrow> 'w platform \<Rightarrow> problem + string option" where
  "decider c s =
     (let ct = bp_ctl (pl_server s); w = ctx_ws c in
      case c of
        User_context _ u \<Rightarrow> if approval_member ct w u = None then Inl (raise_error ''workspace_forbidden'') else Inr None
      | Principal_context _ p _ _ \<Rightarrow>
          (case find (\<lambda>d. dg_ws d = w \<and> dg_principal d = p
              \<and> list_ex (\<lambda>m. mb_id m = dg_member d) (workspace_member ct w (dg_granted_by d))) (pl_delegations s) of
             None \<Rightarrow> Inl (raise_error ''approval_forbidden'')
           | Some d \<Rightarrow> Inr (Some (dg_granted_by d))))"

definition self_allowed :: "'w platform \<Rightarrow> uuid \<Rightarrow> bool" where
  "self_allowed s w = (case map_of (pl_settings s) w of None \<Rightarrow> False | Some b \<Rightarrow> b)"

definition target_facts :: "approval_env \<Rightarrow> 'w workspace_db \<Rightarrow> 'w platform \<Rightarrow> approval \<Rightarrow> problem + bool \<times> string option \<times> string option" where
  "target_facts E db s a =
     (if ap_kind a = ''row'' then
        (case row_target (ae_crypto E) db s (ap_ws a) (the (ap_table a)) (case ap_key a of None \<Rightarrow> JNull | Some k \<Rightarrow> k) of
           Inl e \<Rightarrow> Inl (if problem_message e \<in> {''approval_gate_not_found'', ''approval_target_not_found''} then raise_error ''approval_stale'' else e)
         | Inr t \<Rightarrow> Inr (True, None, Some (rt_version t)))
      else if ap_kind a = ''migration'' then
        (let t = migration_target s (ap_ws a) in
         if mt_epoch t = None \<or> mt_epoch t \<noteq> ap_epoch a then Inl (raise_error ''approval_stale'') else Inr (True, None, Some (mt_version t)))
      else (case delivery_version E s (ap_ws a) (ap_target a) of
           None \<Rightarrow> Inr (False, None, None)
         | Some (cur, st, v) \<Rightarrow> Inr (cur, Some st, v)))"

definition run_owner :: "'w platform \<Rightarrow> uuid \<Rightarrow> uuid option" where
  "run_owner s r = map_option snd (map_of (ct_runs (bp_ctl (pl_server s))) r)"

definition reason_code :: "string \<Rightarrow> bool" where
  "reason_code t \<longleftrightarrow> starts_then is_lower (\<lambda>c. is_lower c \<or> is_digit c \<or> c = CHR ''_'') t \<and> length t \<le> 64"

definition decision_target ::
  "approval_env \<Rightarrow> 'w workspace_db \<Rightarrow> run_context \<Rightarrow> uuid \<Rightarrow> 'w platform \<Rightarrow> problem + (string option \<times> approval)" where
  "decision_target E db c i s =
     ebind (decider c s) (\<lambda>delegate.
     case Option.bind (find_approval s (ctx_ws c) i) (\<lambda>a. map_option (Pair a) (run_owner s (ap_run a))) of
       None \<Rightarrow> Inl (raise_error ''approval_not_found'')
     | Some (a, owner) \<Rightarrow>
         guardE (ap_decision a \<noteq> None) (raise_error ''approval_decided'') (
         guardE (ap_expires a \<le> ae_now E) (raise_error ''approval_expired'') (
         ebind (target_facts E db s a) (\<lambda>(cur, st, held).
         case decision_policy \<lparr>df_kind = ap_kind a, df_decided = ap_decision a \<noteq> None, df_expired = ap_expires a \<le> ae_now E,
             df_current = cur, df_state = st, df_version = ap_version a, df_held = held, df_self = self_allowed s (ctx_ws c),
             df_principal = ctx_principal c, df_by = ap_by a, df_run_principal = owner\<rparr> of
           Some r \<Rightarrow> Inl (raise_error r)
         | None \<Rightarrow> Inr (delegate, a)))))"

definition release_approved ::
  "approval_env \<Rightarrow> run_context \<Rightarrow> string \<Rightarrow> approval \<Rightarrow> bound_context \<Rightarrow> 'w platform \<Rightarrow> problem + (uuid option \<times> 'w platform)" where
  "release_approved E c verdict a b s =
     (if verdict = ''approve'' \<and> ap_kind a = ''message''
      then ebind (on_server (release_in (ae_now E) b (ctx_ws c) (ap_target a)) s) (\<lambda>(d, s1). Inr (Some (de_id d), s1))
      else Inr (None, s))"

definition decide_in ::
  "approval_env \<Rightarrow> 'w workspace_db \<Rightarrow> run_context \<Rightarrow> uuid \<Rightarrow> string \<Rightarrow> string \<Rightarrow> bound_context \<Rightarrow> 'w platform
   \<Rightarrow> problem + (uuid option \<times> 'w platform)" where
  "decide_in E db c i verdict reason b s =
     ebind (decision_target E db c i s) (\<lambda>(delegate, a).
     ebind (release_approved E c verdict a b s) (\<lambda>(released, s1).
     case emit_on (ae_now E) b ''approval.decide'' [uuid_text i, ap_target a] (Some 1)
         [(''targetKind'', JStr (ap_kind a)), (''targetVersion'', JStr (ap_version a)), (''decision'', JStr verdict), (''reason'', JStr reason),
          (''releasedDeliveryId'', j_option (\<lambda>u. JStr (uuid_text u)) released), (''allowSelfApproval'', JBool (self_allowed s (ctx_ws c))),
          (''delegatedByUserId'', j_option JStr delegate)] s1 of
       (n, s2) \<Rightarrow>
         guardE (verdict \<notin> {''approve'', ''reject''} \<or> \<not> reason_code reason) (Pg ''23514'' None) (
           Inr (released, put_approval (a\<lparr>ap_decision := Some verdict, ap_reason := Some reason, ap_position := Some n,
             ap_released := released\<rparr>) s2))))"

definition decide_approval ::
  "approval_env \<Rightarrow> 'w workspace_db \<Rightarrow> run_context \<Rightarrow> uuid \<Rightarrow> string \<Rightarrow> string \<Rightarrow> 'w platform \<Rightarrow> (string + uuid option) \<times> 'w platform" where
  "decide_approval E db c i verdict reason s =
     approval_write (ae_now E) c ''approval.decide'' [uuid_text i] (decide_in E db c i verdict reason) s"

section \<open>Policy writes of a User\<close>

definition member_of :: "run_context \<Rightarrow> 'w platform \<Rightarrow> problem + string" where
  "member_of c s = (case c of
     User_context w u \<Rightarrow> of_option (raise_error ''workspace_forbidden'') (approval_member (bp_ctl (pl_server s)) w u)
   | Principal_context w p r h \<Rightarrow> Inl (raise_error ''workspace_forbidden''))"

definition gate_key :: "approval_gate \<Rightarrow> uuid \<times> string \<times> string" where
  "gate_key g = (ga_ws g, ga_kind g, ga_selector g)"

text \<open>The upsert of a gate: a change of \<open>enabled\<close> starts a new epoch.\<close>

definition upsert_gate :: "uuid \<Rightarrow> approval_gate \<Rightarrow> approval_gate list \<Rightarrow> approval_gate option \<times> approval_gate list" where
  "upsert_gate fresh g gs =
     (case tget gate_key (gate_key g) gs of
        None \<Rightarrow> (Some (g\<lparr>ga_epoch := fresh\<rparr>), gs @ [g\<lparr>ga_epoch := fresh\<rparr>])
      | Some old \<Rightarrow> if ga_enabled old = ga_enabled g then (None, gs)
                    else (let new = old\<lparr>ga_enabled := ga_enabled g, ga_epoch := fresh, ga_by := ga_by g\<rparr> in (Some new, tput gate_key new gs)))"

definition set_gate_in ::
  "approval_env \<Rightarrow> 'w workspace_db \<Rightarrow> run_context \<Rightarrow> string \<Rightarrow> string \<Rightarrow> bool \<Rightarrow> bound_context \<Rightarrow> 'w platform
   \<Rightarrow> problem + (approval_gate \<times> 'w platform)" where
  "set_gate_in E db c kind selector enabled b s =
     ebind (member_of c s) (\<lambda>m.
     let w = ctx_ws c; table = row_table w selector in
     guardE (kind = ''migration'' \<and> selector \<noteq> ''migration'') (raise_error ''invalid_input'') (
     ebind (if kind = ''row'' then map_sum id (\<lambda>x. ()) (lock_table db s w table) else Inr ()) (\<lambda>u.
     let name = (if kind = ''migration'' then ''migration'' else schema_of w @ ''.'' @ table);
         g = \<lparr>ga_ws = w, ga_kind = kind, ga_selector = name, ga_enabled = enabled, ga_epoch = 0,
              ga_by = (case ctx_user c of Some x \<Rightarrow> x | None \<Rightarrow> '''')\<rparr> in
     (case upsert_gate (pl_next s) g (pl_gates s) of
        (Some new, gs) \<Rightarrow> Inr (new, snd (emit_on (ae_now E) b ''approval.gate'' [] (Some 1)
          [(''targetKind'', JStr kind), (''epoch'', JStr (uuid_text (ga_epoch new))), (''enabled'', JBool enabled)]
          (s\<lparr>pl_gates := gs, pl_next := Suc (pl_next s)\<rparr>)))
      | (None, gs) \<Rightarrow> ebind (of_option (raise_error ''approval_unavailable'') (tget gate_key (gate_key g) gs)) (\<lambda>old. Inr (old, s))))))"

definition set_gate ::
  "approval_env \<Rightarrow> 'w workspace_db \<Rightarrow> run_context \<Rightarrow> string \<Rightarrow> string \<Rightarrow> bool \<Rightarrow> 'w platform \<Rightarrow> (string + approval_gate) \<times> 'w platform" where
  "set_gate E db c kind selector enabled s =
     approval_write (ae_now E) c ''approval.gate'' [] (set_gate_in E db c kind selector enabled) s"

definition set_settings_in ::
  "approval_env \<Rightarrow> run_context \<Rightarrow> bool \<Rightarrow> bound_context \<Rightarrow> 'w platform \<Rightarrow> problem + (bool \<times> 'w platform)" where
  "set_settings_in E c allow b s =
     ebind (member_of c s) (\<lambda>m.
       if self_allowed s (ctx_ws c) \<noteq> allow
       then Inr (allow, snd (emit_on (ae_now E) b ''approval.settings'' [uuid_text (ctx_ws c)] (Some 1) [(''allowSelfApproval'', JBool allow)]
         (s\<lparr>pl_settings := AList.update (ctx_ws c) allow (pl_settings s)\<rparr>)))
       else Inr (allow, s))"

definition set_settings :: "approval_env \<Rightarrow> run_context \<Rightarrow> bool \<Rightarrow> 'w platform \<Rightarrow> (string + bool) \<times> 'w platform" where
  "set_settings E c allow s =
     approval_write (ae_now E) c ''approval.settings'' [uuid_text (ctx_ws c)] (set_settings_in E c allow) s"

definition delegation_key :: "delegation \<Rightarrow> uuid \<times> uuid" where
  "delegation_key d = (dg_ws d, dg_principal d)"

definition change_delegation :: "bool \<Rightarrow> delegation \<Rightarrow> delegation list \<Rightarrow> delegation option \<times> delegation list" where
  "change_delegation enabled d ds =
     (case tget delegation_key (delegation_key d) ds of
        None \<Rightarrow> if enabled then (Some d, ds @ [d]) else (None, ds)
      | Some old \<Rightarrow> if enabled
          then (if dg_granted_by old = dg_granted_by d \<and> dg_member old = dg_member d then (None, ds) else (Some d, tput delegation_key d ds))
          else (Some old, filter (\<lambda>x. delegation_key x \<noteq> delegation_key d) ds))"

definition set_delegation_for ::
  "approval_env \<Rightarrow> run_context \<Rightarrow> uuid \<Rightarrow> bool \<Rightarrow> bound_context \<Rightarrow> 'w platform \<Rightarrow> problem + ((uuid \<times> bool) \<times> 'w platform)" where
  "set_delegation_for E c p enabled b s =
     ebind (member_of c s) (\<lambda>m.
     guardE (\<not> list_ex (\<lambda>x. pr_ws x = ctx_ws c \<and> pr_id x = p \<and> pr_system x = None \<and> (\<not> enabled \<or> pr_active x))
         (ct_principals (bp_ctl (pl_server s)))) (raise_error ''principal_not_found'') (
     (case change_delegation enabled \<lparr>dg_ws = ctx_ws c, dg_principal = p,
          dg_granted_by = (case ctx_user c of Some x \<Rightarrow> x | None \<Rightarrow> ''''), dg_member = m\<rparr> (pl_delegations s) of
        (Some d, ds) \<Rightarrow> Inr ((p, enabled), snd (emit_on (ae_now E) b ''approval.delegation'' [uuid_text p] (Some 1)
          [(''enabled'', JBool enabled), (''memberId'', JStr (dg_member d))] (s\<lparr>pl_delegations := ds\<rparr>)))
      | (None, ds) \<Rightarrow> Inr ((p, enabled), s))))"

definition set_delegation ::
  "approval_env \<Rightarrow> run_context \<Rightarrow> uuid \<Rightarrow> bool \<Rightarrow> 'w platform \<Rightarrow> (string + (uuid \<times> bool)) \<times> 'w platform" where
  "set_delegation E c p enabled s =
     approval_write (ae_now E) c ''approval.delegation'' [uuid_text p] (set_delegation_for E c p enabled) s"

end
