(* ===== verification/PlatformFrames.thy ===== *)
theory PlatformFrames
  imports Approvals
begin

text \<open>What the services leave alone: only the consumption and the decision of an Approval change its
  row, only a commit adds a receipt.\<close>

section \<open>Approvals only advance\<close>

text \<open>A row that is decided keeps its decision, one that is consumed keeps its position, and only an
  approved row or migration is consumed.\<close>

definition advanced :: "approval \<Rightarrow> approval \<Rightarrow> bool" where
  "advanced a b \<longleftrightarrow>
     (ap_id b, ap_ws b, ap_kind b, ap_target b, ap_version b, ap_by b, ap_run b, ap_epoch b, ap_hash b, ap_table b, ap_key b,
      ap_preview b, ap_created b, ap_expires b)
       = (ap_id a, ap_ws a, ap_kind a, ap_target a, ap_version a, ap_by a, ap_run a, ap_epoch a, ap_hash a, ap_table a, ap_key a,
      ap_preview a, ap_created a, ap_expires a)
     \<and> (ap_decision a \<noteq> None \<longrightarrow> (ap_decision b, ap_reason b, ap_position b, ap_released b)
          = (ap_decision a, ap_reason a, ap_position a, ap_released a))
     \<and> (ap_consumed a \<noteq> None \<longrightarrow> ap_consumed b = ap_consumed a)
     \<and> (ap_consumed a = None \<and> ap_consumed b \<noteq> None \<longrightarrow> ap_decision a = Some ''approve'' \<or> ap_decision b = Some ''approve'')"

lemma advanced_refl [simp, intro]: "advanced a a"
  by (cases "ap_consumed a") (simp_all add: advanced_def)

definition approval_key :: "approval \<Rightarrow> uuid \<times> uuid" where
  "approval_key a = (ap_ws a, ap_id a)"

lemma advanced_key: "advanced a b \<Longrightarrow> approval_key b = approval_key a"
  by (simp add: advanced_def approval_key_def)

text \<open>Every row is still there, advanced.\<close>

definition advance :: "approval list \<Rightarrow> approval list \<Rightarrow> bool" where
  "advance as bs \<longleftrightarrow> (\<forall>a\<in>set as. \<exists>b\<in>set bs. advanced a b)"

lemma advance_refl [simp, intro]: "advance as as"
  by (auto simp: advance_def)

lemma advance_append [simp, intro]: "advance as (as @ bs)"
  by (auto simp: advance_def)

lemma advanced_trans:
  assumes "advanced a b" "advanced b c"
  shows "advanced a c"
  using assms by (cases "ap_decision a"; cases "ap_consumed a"; cases "ap_consumed b") (auto simp: advanced_def)

lemma advance_trans: "advance as bs \<Longrightarrow> advance bs cs \<Longrightarrow> advance as cs"
  unfolding advance_def using advanced_trans by metis

lemma advance_tput:
  assumes "distinct (map approval_key as)" "a \<in> set as" "advanced a b"
  shows "advance as (tput approval_key b as)"
  unfolding advance_def
proof
  fix x assume x: "x \<in> set as"
  show "\<exists>y\<in>set (tput approval_key b as). advanced x y"
  proof (cases "approval_key x = approval_key b")
    case True
    then have "x = a" using assms x advanced_key [OF assms(3)] by (metis distinct_map inj_on_def)
    moreover have "b \<in> set (tput approval_key b as)" using x True unfolding in_set_tput by (metis image_eqI)
    ultimately show ?thesis using assms(3) by blast
  next
    case False
    then show ?thesis using x by (auto simp: in_set_tput)
  qed
qed

text \<open>Keys are never reused: ids come from the counter.\<close>

definition keyed_rows :: "'w platform \<Rightarrow> bool" where
  "keyed_rows s \<longleftrightarrow> distinct (map approval_key (pl_approvals s)) \<and> (\<forall>a\<in>set (pl_approvals s). ap_id a < pl_next s)"

definition row_sound :: "approval \<Rightarrow> bool" where
  "row_sound a \<longleftrightarrow>
     (ap_consumed a \<noteq> None \<longrightarrow> ap_kind a \<in> {''row'', ''migration''} \<and> ap_decision a = Some ''approve'')
     \<and> (ap_decision a = None \<longrightarrow> ap_reason a = None \<and> ap_position a = None \<and> ap_released a = None)
     \<and> (ap_decision a \<noteq> None \<longrightarrow> ap_decision a \<in> {Some ''approve'', Some ''reject''} \<and> ap_reason a \<noteq> None \<and> ap_position a \<noteq> None
          \<and> (ap_released a \<noteq> None \<longleftrightarrow> ap_kind a = ''message'' \<and> ap_decision a = Some ''approve''))"

definition approvals_ok :: "'w platform \<Rightarrow> bool" where
  "approvals_ok s \<longleftrightarrow> keyed_rows s \<and> (\<forall>a\<in>set (pl_approvals s). row_sound a)"

text \<open>A step that keeps the invariant and only advances.\<close>

definition sound :: "'w platform \<Rightarrow> 'w platform \<Rightarrow> bool" where
  "sound s s' \<longleftrightarrow> (approvals_ok s \<longrightarrow> approvals_ok s' \<and> advance (pl_approvals s) (pl_approvals s'))"

lemma sound_refl [simp, intro]: "sound s s"
  by (simp add: sound_def)

lemma sound_trans: "sound s t \<Longrightarrow> sound t u \<Longrightarrow> sound s u"
  unfolding sound_def using advance_trans by blast

lemma sound_same: "pl_approvals s' = pl_approvals s \<Longrightarrow> pl_next s \<le> pl_next s' \<Longrightarrow> sound s s'"
  by (fastforce simp: sound_def approvals_ok_def keyed_rows_def)

lemma emit_on_frame [simp]:
  "pl_approvals (snd (emit_on now b k os r m s)) = pl_approvals s" "pl_next (snd (emit_on now b k os r m s)) = pl_next s"
  "pl_receipts (snd (emit_on now b k os r m s)) = pl_receipts s" "pl_gates (snd (emit_on now b k os r m s)) = pl_gates s"
  "pl_world (snd (emit_on now b k os r m s)) = pl_world s" "pl_migrations (snd (emit_on now b k os r m s)) = pl_migrations s"
  by (simp_all add: emit_on_def split: prod.split)

lemma emit_on_snd: "emit_on now b k os r m s = (n, s') \<Longrightarrow> s' = snd (emit_on now b k os r m s)"
  by simp

lemma on_server_frame:
  assumes "on_server f s = Inr (x, s')"
  shows "pl_approvals s' = pl_approvals s" "pl_next s' = pl_next s" "pl_receipts s' = pl_receipts s" "pl_gates s' = pl_gates s"
    "pl_world s' = pl_world s" "pl_migrations s' = pl_migrations s"
  using assms by (auto simp: on_server_def split: sum.splits)

lemma on_server_sound: "on_server f s = Inr (x, s') \<Longrightarrow> sound s s'"
  by (rule sound_same) (simp_all add: on_server_frame)

lemma sound_put:
  assumes "find_approval s w i = Some a" "advanced a b" "row_sound a \<Longrightarrow> row_sound b"
    and "pl_approvals t = pl_approvals s" "pl_next t = pl_next s"
  shows "sound s (put_approval b t)"
proof -
  have a: "a \<in> set (pl_approvals s)" using assms(1) by (auto simp: find_approval_def find_Some_iff in_set_conv_nth)
  have key: "(\<lambda>x. (ap_ws x, ap_id x)) = approval_key" by (simp add: approval_key_def fun_eq_iff)
  have rows: "pl_approvals (put_approval b t) = tput approval_key b (pl_approvals s)" "pl_next (put_approval b t) = pl_next s"
    using assms(4,5) by (simp_all add: put_approval_def key)
  have same: "ap_id b = ap_id a" using assms(2) by (auto simp: advanced_def)
  have member: "x \<in> set (pl_approvals s) \<or> x = b" if "x \<in> set (pl_approvals (put_approval b t))" for x
    using that unfolding rows in_set_tput by blast
  show ?thesis unfolding sound_def
  proof (intro impI conjI)
    assume ok: "approvals_ok s"
    then have d: "distinct (map approval_key (pl_approvals s))" by (simp add: approvals_ok_def keyed_rows_def)
    show "advance (pl_approvals s) (pl_approvals (put_approval b t))" unfolding rows using advance_tput [OF d a assms(2)] .
    have "distinct (map approval_key (pl_approvals (put_approval b t)))" unfolding rows map_key_tput using d .
    moreover have "ap_id x < pl_next (put_approval b t)" if "x \<in> set (pl_approvals (put_approval b t))" for x
      using member [OF that] ok a same unfolding rows(2) approvals_ok_def keyed_rows_def by metis
    moreover have "row_sound x" if "x \<in> set (pl_approvals (put_approval b t))" for x
      using member [OF that] ok a assms(3) unfolding approvals_ok_def by metis
    ultimately show "approvals_ok (put_approval b t)" unfolding approvals_ok_def keyed_rows_def by blast
  qed
qed

lemma sound_insert:
  assumes "insert_approval a s = Inr s'" "ap_id a = pl_next s" "row_sound a"
  shows "sound s s'"
proof -
  have r: "pl_approvals s' = pl_approvals s @ [a]" "pl_next s' = Suc (pl_next s)"
    using assms(1) by (auto simp: insert_approval_def)
  show ?thesis
  proof (unfold sound_def, intro impI conjI)
    assume ok: "approvals_ok s"
    have "approval_key a \<notin> approval_key ` set (pl_approvals s)"
      using ok assms(2) by (fastforce simp: approvals_ok_def keyed_rows_def approval_key_def)
    then show "approvals_ok s'" using ok assms(2,3)
      by (fastforce simp: approvals_ok_def keyed_rows_def r)
  qed (simp add: r)
qed

section \<open>Execution\<close>

lemma check_row_approval_found:
  assumes "check_row_approval g cr now db s c p = Inr (Some a)"
  shows "\<exists>i. find_approval s (ctx_ws c) i = Some a" "ap_kind a = ''row''" "ap_consumed a = None" "ap_decision a = Some ''approve''"
    "now < ap_expires a" "ctx_principal c = Some (ap_by a)"
  using assms by (auto simp: check_row_approval_def Let_def ebind_Inr_iff not_le split: option.splits sum.splits if_splits)

lemma consume_row_sound:
  assumes "consume_row_approval now b a n i t = Inr s'" "find_approval s w k = Some a" "ap_kind a = ''row''" "ap_consumed a = None"
    "ap_decision a = Some ''approve''" "pl_approvals t = pl_approvals s" "pl_next t = pl_next s"
  shows "sound s s'"
proof -
  obtain m where s': "s' = put_approval (a\<lparr>ap_consumed := Some m\<rparr>) (snd (emit_on now b ''approval.consume'' [uuid_text (ap_id a)] (Some 1)
      [(''approvalId'', JStr (uuid_text (ap_id a))), (''targetKind'', JStr ''row''), (''targetId'', JStr (ap_target a)),
       (''targetVersion'', JStr (ap_version a)), (''actionHash'', j_option JStr (ap_hash a)),
       (''decisionPosition'', j_option (\<lambda>n. JStr (nat_text n)) (ap_position a)), (''operationIndex'', JInt (int i))] t))"
    using assms(1) by (auto simp: consume_row_approval_def split: prod.splits)
  show ?thesis unfolding s' using assms(2-7) by (intro sound_put [OF assms(2)]) (auto simp: advanced_def row_sound_def)
qed

lemma execute_sql_in_cases:
  assumes "execute_sql_in g cr now db b c p i s = Inr (r, s')"
  obtains (free) t where "check_row_approval g cr now db s c p = Inr None" "s' = t" "pl_approvals t = pl_approvals s" "pl_next t = pl_next s"
      "pl_receipts t = pl_receipts s"
    | (approved) a t where "check_row_approval g cr now db s c p = Inr (Some a)" "consume_row_approval now b a (sp_count r) i t = Inr s'"
      "pl_approvals t = pl_approvals s" "pl_next t = pl_next s" "pl_receipts t = pl_receipts s"
proof -
  let ?ev = "\<lambda>q. emit_on now b ''sql.execute'' (sd_relations (ps_decision p)) (Some (sp_count q))
               [(''fingerprint'', JStr (sd_fingerprint (ps_decision p))), (''kind'', JStr (kind_text (sd_kind (ps_decision p))))]"
  obtain approval world q where a: "check_row_approval g cr now db s c p = Inr approval"
    and s': "(case approval of
            None \<Rightarrow> Inr (q, snd (?ev q (s\<lparr>pl_world := world\<rparr>)))
          | Some a \<Rightarrow> ebind (consume_row_approval now b a (sp_count q) i (snd (?ev q (s\<lparr>pl_world := world\<rparr>)))) (\<lambda>s2. Inr (q, s2)))
         = Inr (r, s')"
    using assms by (auto simp: execute_sql_in_def Let_def ebind_Inr_iff)
  show thesis
  proof (cases approval)
    case None
    then show thesis using free [OF _ refl] a s' by auto
  next
    case (Some x)
    then show thesis using approved a s' by (auto simp: ebind_Inr_iff)
  qed
qed

lemma execute_sql_in_sound: "execute_sql_in g cr now db b c p i s = Inr (r, s') \<Longrightarrow> sound s s'"
proof (erule execute_sql_in_cases)
  fix a t assume a: "check_row_approval g cr now db s c p = Inr (Some a)" "consume_row_approval now b a (sp_count r) i t = Inr s'"
    "pl_approvals t = pl_approvals s" "pl_next t = pl_next s"
  obtain k where "find_approval s (ctx_ws c) k = Some a" using check_row_approval_found(1) [OF a(1)] by blast
  then show "sound s s'" using consume_row_sound [OF a(2) _ _ _ _ a(3,4)] check_row_approval_found [OF a(1)] by blast
qed (simp add: sound_same)

lemma consume_row_receipts: "consume_row_approval now b a n i t = Inr s' \<Longrightarrow> pl_receipts s' = pl_receipts t"
  by (auto simp: consume_row_approval_def put_approval_def split: prod.splits dest!: emit_on_snd)

lemma execute_sql_in_receipts: "execute_sql_in g cr now db b c p i s = Inr (r, s') \<Longrightarrow> pl_receipts s' = pl_receipts s"
  by (erule execute_sql_in_cases) (auto dest: consume_row_receipts)

lemma run_operation_frame:
  assumes "run_operation E db b c i p m s = Inr (x, s')"
  shows "sound s s'" "pl_receipts s' = pl_receipts s"
proof -
  show "sound s s'"
    using assms by (cases p; cases x)
      (auto simp: run_operation_def Let_def ebind_Inr_iff split: tx_operation.splits
        dest: execute_sql_in_sound on_server_sound)
  show "pl_receipts s' = pl_receipts s"
    using assms by (cases p; cases x)
      (auto simp: run_operation_def Let_def ebind_Inr_iff split: tx_operation.splits
        dest: execute_sql_in_receipts on_server_frame(3))
qed

lemma run_operations_frame:
  "run_operations E db b c i ps m s = Inr (x, s') \<Longrightarrow> sound s s' \<and> pl_receipts s' = pl_receipts s"
proof (induction ps arbitrary: i m s x s')
  case (Cons p ps)
  obtain y s1 z where "run_operation E db b c i p m s = Inr (y, s1)"
    and "run_operations E db b c (Suc i) ps (snd (snd y)) s1 = Inr (z, s')"
    using Cons.prems by (auto simp: ebind_Inr_iff)
  then show ?case using run_operation_frame [of E db b c i p m s y s1] Cons.IH sound_trans by metis
qed simp

end
