(* ===== verification/TransactionProps.thy ===== *)
theory TransactionProps
  imports PlatformFrames
begin

text \<open>The plan of an atomic handoff is bounded, its request hash binds the request, and a request
  commits once: the receipts are a map from Workspace, Principal and idempotency key to the hash and
  the response of the first commit.\<close>

section \<open>Plans\<close>

text \<open>What a planned handoff is.  Its operations are those of the request, in order, each prepared
  and within its own bounds; there are one to sixteen of them; the Deliveries it will lock are those it
  acknowledges or holds, each once, in the order every handoff locks them; the statements stay within
  64 KiB and the values within 1 MiB together.\<close>

theorem transaction_plan_bounded:
  assumes "transaction_policy g ws who t = Inr (plan, hash)"
  shows "map planned_of (tp_operations plan) = ti_operations t
    \<and> 1 \<le> length (tp_operations plan) \<and> length (tp_operations plan) \<le> 16
    \<and> list_all (planned_ok g ws) (tp_operations plan)
    \<and> sorted (tp_deliveries plan) \<and> distinct (tp_deliveries plan)
    \<and> set (tp_deliveries plan) = set (op_deliveries (ti_operations t))
    \<and> length (tp_deliveries plan) = length (op_deliveries (ti_operations t))
    \<and> (\<Sum>op\<leftarrow>ti_operations t. op_statement_bytes op) \<le> 65536 \<and> (\<Sum>op\<leftarrow>ti_operations t. op_value_bytes op) \<le> 1048576"
proof -
  let ?p0 = "\<lparr>tp_operations = [], tp_deliveries = [], tp_values = []\<rparr>"
  obtain p where p: "plan_operations g ws 0 0 0 (ti_operations t) ?p0 = Inr p" "plan = p\<lparr>tp_deliveries := sort (tp_deliveries p)\<rparr>"
    and n: "1 \<le> length (ti_operations t)" "length (ti_operations t) \<le> 16"
    using assms by (auto simp: transaction_policy_def not_less not_le Suc_le_eq split: if_splits sum.splits)
  have ok: "map planned_of (tp_operations p) = ti_operations t" "list_all (planned_ok g ws) (tp_operations p)" "distinct (tp_deliveries p)"
    "tp_deliveries p = op_deliveries (ti_operations t)" "(\<Sum>op\<leftarrow>ti_operations t. op_statement_bytes op) \<le> 65536"
    "(\<Sum>op\<leftarrow>ti_operations t. op_value_bytes op) \<le> 1048576"
    using plan_operations_ok [OF p(1)] by (auto simp del: op_deliveries.simps)
  have "length (tp_operations p) = length (ti_operations t)" using ok(1) by (metis length_map)
  then show ?thesis using ok p(2) n by (simp del: op_deliveries.simps)
qed

definition demo_plan_engine :: engine where
  "demo_plan_engine = \<lparr>eg_parse = (\<lambda>t. Some demo_tree), eg_sha = id\<rparr>"

definition demo_handoff :: tx_input where
  "demo_handoff = \<lparr>ti_key = ''k1'', ti_operations = [Op_ack ''D2'' ''r'', Op_send ''jobs'' ''m1'' (JInt 7), Op_hold ''d1'' ''r'']\<rparr>"

theorem transaction_plan_bounded_witness:
  "\<exists>plan. transaction_policy demo_plan_engine ''w'' ''p'' demo_handoff = Inr (plan, request_hash demo_plan_engine ''w'' ''p'' demo_handoff)
    \<and> tp_deliveries plan = [''d1'', ''d2''] \<and> map planned_of (tp_operations plan) = ti_operations demo_handoff"
proof -
  define plan where "plan = \<lparr>tp_operations = map Planned (ti_operations demo_handoff), tp_deliveries = [''d1'', ''d2''],
    tp_values = [(1, True, JInt 7)]\<rparr>"
  have "transaction_policy demo_plan_engine ''w'' ''p'' demo_handoff = Inr (plan, request_hash demo_plan_engine ''w'' ''p'' demo_handoff)"
    unfolding plan_def by code_simp
  then show ?thesis using transaction_plan_bounded [of demo_plan_engine "''w''" "''p''" demo_handoff plan] by (auto simp: plan_def)
qed

section \<open>The hashed request\<close>

text \<open>A request up to the order of the fields of its JSON values.\<close>

fun normal_operation :: "tx_operation \<Rightarrow> tx_operation" where
  "normal_operation (Op_sql q) = Op_sql (q\<lparr>si_params := map sorted_fields (si_params q)\<rparr>)"
| "normal_operation (Op_send queue key body) = Op_send queue key (sorted_fields body)"
| "normal_operation op = op"

lemma sql_input_eq:
  "(q::sql_input) = r \<longleftrightarrow> si_statement q = si_statement r \<and> si_params q = si_params r \<and> si_expect q = si_expect r \<and> si_approval q = si_approval r"
  by (cases q; cases r) auto

lemma operation_json_eq:
  "sorted_fields (operation_json p) = sorted_fields (operation_json q) \<longleftrightarrow> normal_operation p = normal_operation q"
  by (cases p; cases q) (auto simp: sql_input_eq split: option.splits)

lemma operations_json_eq:
  "map (sorted_fields \<circ> operation_json) ps = map (sorted_fields \<circ> operation_json) qs \<longleftrightarrow> map normal_operation ps = map normal_operation qs"
  by (induction ps arbitrary: qs; case_tac qs) (auto simp: operation_json_eq)

text \<open>C23: the text whose hash a receipt stores binds the request.  Two requests have the same text
  exactly when they come from the same Principal of the same Workspace, under the same idempotency key,
  with the same operations in the same order, their JSON values equal up to the order of fields.\<close>

theorem request_preimage_binds:
  "request_preimage ws who t = request_preimage ws' who' t' \<longleftrightarrow>
     ws = ws' \<and> who = who' \<and> ti_key t = ti_key t' \<and> map normal_operation (ti_operations t) = map normal_operation (ti_operations t')"
  unfolding request_preimage_def canonical_eq transaction_json_def by (auto simp: operations_json_eq)

section \<open>A request commits once\<close>

type_synonym 'k commits = "'k \<Rightarrow> (string \<times> tx_response) option"

definition receipts :: "'w platform \<Rightarrow> (uuid \<times> uuid \<times> string) commits" where
  "receipts s k = map_option (\<lambda>r. (rx_hash r, rx_response r)) (find (\<lambda>r. (rx_ws r, rx_principal r, rx_key r) = k) (pl_receipts s))"

text \<open>The abstract operation: look the key up, or install the response of the first commit.\<close>

definition commits_once :: "'k \<Rightarrow> string \<Rightarrow> 'e + tx_response \<Rightarrow> 'k commits \<Rightarrow> 'k commits \<Rightarrow> bool" where
  "commits_once k hash out m m' \<longleftrightarrow>
     (case out of
        Inl e \<Rightarrow> m' = m
      | Inr r \<Rightarrow> (case m k of None \<Rightarrow> m' = m(k \<mapsto> (hash, r)) | Some x \<Rightarrow> x = (hash, r) \<and> m' = m))"

text \<open>What a request that does not commit leaves alone: everything but the record of its rejection.\<close>

definition untouched :: "'w platform \<Rightarrow> 'w platform \<Rightarrow> bool" where
  "untouched s s' \<longleftrightarrow> (\<exists>b. s' = s\<lparr>pl_server := b\<rparr> \<and> bp_ledger b = bp_ledger (pl_server s) \<and> bp_events b = bp_events (pl_server s)
     \<and> bp_usage b = bp_usage (pl_server s) \<and> bp_ctl b = bp_ctl (pl_server s))"

lemma receipts_installed:
  assumes "pl_receipts s' = pl_receipts s @ [r]" "receipts s (rx_ws r, rx_principal r, rx_key r) = None"
  shows "receipts s' = (receipts s)((rx_ws r, rx_principal r, rx_key r) \<mapsto> (rx_hash r, rx_response r))"
  using assms by (auto simp: receipts_def fun_eq_iff find_snoc split: option.splits)

lemma with_platform_cases:
  assumes "with_platform now c work wrap s = Inr (x, s')"
  obtains b where "bound_by c b" "work b (s\<lparr>pl_server := touch_run now (ctx_run c) (lock_workspace (ctx_ws c) (pl_server s))\<rparr>) = Inr (x, s')"
proof (cases "bind_context now c (pl_server s)")
  case (Inr p)
  obtain b s1 where "p = (b, s1)" by (cases p)
  then show thesis using that [of b] bind_contextD [of now c "pl_server s" b s1] Inr assms by (simp add: with_platform_def)
qed (use assms in \<open>simp add: with_platform_def\<close>)

lemma reject_untouched: "untouched s (reject_on now c k os e t s)"
  by (auto simp: untouched_def reject_on_def record_rejection_def intro!: exI)

lemma store_receipt_appends: "store_receipt cr r s = Inr s' \<Longrightarrow> pl_receipts s' = pl_receipts s @ [r]"
  by (auto simp: store_receipt_def)

lemma transaction_in_commits:
  fixes w p run iv
  defines "c \<equiv> Principal_context w p run iv"
  assumes "transaction_in E db c t plan hash b s = Inr (r, s')"
  shows "commits_once (w, p, ti_key t) hash (Inr r) (receipts s) (receipts s')"
    and "receipts s (w, p, ti_key t) \<noteq> None \<Longrightarrow> s' = s"
proof -
  have k: "same_receipt c (ti_key t) = (\<lambda>x. (rx_ws x, rx_principal x, rx_key x) = (w, p, ti_key t))"
    by (auto simp: same_receipt_def c_def)
  have "commits_once (w, p, ti_key t) hash (Inr r) (receipts s) (receipts s') \<and> (receipts s (w, p, ti_key t) \<noteq> None \<longrightarrow> s' = s)"
  proof (cases "find (same_receipt c (ti_key t)) (pl_receipts s)")
    case (Some x)
    then have "receipts s (w, p, ti_key t) = Some (rx_hash x, rx_response x)" by (simp add: receipts_def k)
    then show ?thesis using assms(2) Some by (auto simp: transaction_in_def commits_once_def split: if_splits)
  next
    case None
    then have none: "receipts s (w, p, ti_key t) = None" by (simp add: receipts_def k)
    obtain m s1 y where run: "run_operations E db b c 0 (tp_operations plan) m s = Inr (y, s1)"
      and "pl_receipts s' = pl_receipts s1 @ [\<lparr>rx_ws = w, rx_principal = p, rx_key = ti_key t, rx_hash = hash, rx_response = r\<rparr>]"
      using assms(2) None
      by (auto simp: transaction_in_def ebind_Inr_iff Let_def c_def commit_on_def split_beta split: option.splits dest!: store_receipt_appends)
    then have "pl_receipts s' = pl_receipts s @ [\<lparr>rx_ws = w, rx_principal = p, rx_key = ti_key t, rx_hash = hash, rx_response = r\<rparr>]"
      using run_operations_frame [OF run] by simp
    then have "receipts s' = (receipts s)((w, p, ti_key t) \<mapsto> (hash, r))" using receipts_installed none by fastforce
    then show ?thesis using none by (simp add: commits_once_def)
  qed
  then show "commits_once (w, p, ti_key t) hash (Inr r) (receipts s) (receipts s')" "receipts s (w, p, ti_key t) \<noteq> None \<Longrightarrow> s' = s" by auto
qed

lemma transaction_policy_hash: "transaction_policy g ws who t = Inr (plan, hash) \<Longrightarrow> hash = request_hash g ws who t"
  by (auto simp: transaction_policy_def split: if_splits sum.splits)

text \<open>C19: an atomic handoff refines an operation on a map of commits.  Under its idempotency key a
  request that succeeds either finds the response of the commit with the same request hash and returns
  it, or installs its own; a different request under the key is refused.  A request that fails, or
  that was committed before, touches no table, no ledger, no audit event and no usage.\<close>

theorem transaction_once:
  assumes "execute_transaction E db (Principal_context w p run iv) t s = (out, s')"
  shows "commits_once (w, p, ti_key t) (request_hash (te_engine E) (uuid_text w) (uuid_text p) t) out (receipts s) (receipts s')
    \<and> (isl out \<or> receipts s (w, p, ti_key t) \<noteq> None \<longrightarrow> untouched s s')"
proof -
  let ?c = "Principal_context w p run iv"
  show ?thesis
  proof (cases "transaction_attempt E db ?c t s")
    case (Inl e)
    then obtain f ob where out: "out = Inl f" and s': "s' = reject_on (te_now E) ?c ''transaction.committed'' ob (tf_error f) (tf_sqlstate f) s"
      using assms by (cases e) (auto simp: execute_transaction_def Let_def)
    have "receipts s' = receipts s" unfolding s' by (simp add: receipts_def reject_on_def fun_eq_iff)
    then show ?thesis using out reject_untouched unfolding s' by (auto simp: commits_once_def)
  next
    case (Inr x)
    then obtain r where out: "out = Inr r" and at: "transaction_attempt E db ?c t s = Inr (r, s')"
      using assms by (cases x) (auto simp: execute_transaction_def)
    obtain plan hash where pol: "transaction_policy (te_engine E) (uuid_text w) (uuid_text p) t = Inr (plan, hash)"
      and wp: "with_platform (te_now E) ?c (transaction_in E db ?c t plan hash) (\<lambda>e. (e, None)) s = Inr (r, s')"
      using at by (auto simp: transaction_attempt_def split: sum.splits prod.splits option.splits)
    let ?s1 = "s\<lparr>pl_server := touch_run (te_now E) (ctx_run ?c) (lock_workspace (ctx_ws ?c) (pl_server s))\<rparr>"
    obtain b where "transaction_in E db ?c t plan hash b ?s1 = Inr (r, s')" using with_platform_cases [OF wp] by blast
    from transaction_in_commits [OF this] have "commits_once (w, p, ti_key t) hash (Inr r) (receipts ?s1) (receipts s')"
      "receipts ?s1 (w, p, ti_key t) \<noteq> None \<Longrightarrow> s' = ?s1" by auto
    moreover have "receipts ?s1 = receipts s" by (simp add: receipts_def fun_eq_iff)
    moreover have "untouched s ?s1" unfolding untouched_def
      by (intro exI [of _ "touch_run (te_now E) (ctx_run ?c) (lock_workspace (ctx_ws ?c) (pl_server s))"]) simp
    ultimately show ?thesis using out transaction_policy_hash [OF pol] by auto
  qed
qed

definition demo_env :: tx_env where
  "demo_env = \<lparr>te_engine = demo_plan_engine, te_crypto = \<lparr>cr_sha = id, cr_digest = id, cr_jsonb = (\<lambda>v. Some ''{}'')\<rparr>, te_now = 9\<rparr>"

definition demo_db :: "unit workspace_db" where
  "demo_db = \<lparr>wd_relations = (\<lambda>w s. []), wd_exists = (\<lambda>w s t. None), wd_shape = (\<lambda>w s t. None), wd_typed = (\<lambda>w s t v. Inr v),
     wd_row = (\<lambda>w s t v. None), wd_role = (\<lambda>w. None), wd_query = (\<lambda>s q ps w. Inl (Pg ''42501'' None))\<rparr>"

definition demo_platform :: "unit platform" where
  "demo_platform = \<lparr>pl_server = demo_served, pl_approvals = [], pl_gates = [], pl_settings = [], pl_delegations = [],
     pl_migrations = [], pl_receipts = [], pl_next = 1, pl_world = ()\<rparr>"

definition demo_commit :: tx_input where
  "demo_commit = \<lparr>ti_key = ''k1'', ti_operations = [Op_send ''jobs'' ''m1'' (JInt 7)]\<rparr>"

definition demo_once :: "(tx_failure + tx_response) \<times> unit platform" where
  "demo_once = execute_transaction demo_env demo_db (Principal_context 1 10 20 None) demo_commit demo_platform"

definition demo_twice :: "(tx_failure + tx_response) \<times> unit platform" where
  "demo_twice = execute_transaction demo_env demo_db (Principal_context 1 10 20 None) demo_commit (snd demo_once)"

lemma demo_commits:
  "isl (fst demo_once) = False \<and> receipts (snd demo_once) (1, 10, ''k1'') \<noteq> None \<and> isl (fst demo_twice) = False"
  by code_simp

theorem transaction_once_witness:
  "fst demo_twice = fst demo_once \<and> untouched (snd demo_once) (snd demo_twice)
   \<and> receipts (snd demo_twice) = receipts (snd demo_once) \<and> receipts (snd demo_once) (1, 10, ''k1'') \<noteq> None"
proof -
  let ?k = "(1::uuid, 10::uuid, ''k1'')" and ?c = "Principal_context 1 10 20 None"
  have key: "ti_key demo_commit = ''k1''" by (simp add: demo_commit_def)
  obtain r r' where r: "fst demo_once = Inr r" "fst demo_twice = Inr r'" using demo_commits by (cases "fst demo_once"; cases "fst demo_twice") auto
  have once: "execute_transaction demo_env demo_db ?c demo_commit demo_platform = (Inr r, snd demo_once)"
    using r(1) by (metis demo_once_def prod.collapse)
  have twice: "execute_transaction demo_env demo_db ?c demo_commit (snd demo_once) = (Inr r', snd demo_twice)"
    using r(2) by (metis demo_twice_def prod.collapse)
  note A = transaction_once [OF once, unfolded key]
  note B = transaction_once [OF twice, unfolded key]
  have start: "receipts demo_platform ?k = None" by (simp add: receipts_def demo_platform_def)
  then have "receipts (snd demo_once) ?k = Some (request_hash (te_engine demo_env) (uuid_text 1) (uuid_text 10) demo_commit, r)"
    using A by (simp add: commits_once_def)
  then show ?thesis using B r by (simp add: commits_once_def)
qed

end
