(* ===== verification/MigrationPolicy.thy ===== *)
theory MigrationPolicy
  imports SqlExecution
begin

text \<open>\<open>schema/migration-policy.ts\<close>: which statements a Migration may hold.  The parser, its error
  position and its scanner are parameters.  The closures of the source that push targets, add tables
  and mark reserved columns are checks that thread the state \<open>scan\<close>; \<open>&&\<close> and \<open>every\<close> stop at
  the first failure, as \<open>both\<close> and \<open>each\<close> do.\<close>

section \<open>Expressions\<close>

definition mig_types :: "string list" where
  "mig_types = [''text'', ''int4'', ''int8'', ''numeric'', ''bool'', ''uuid'', ''jsonb'', ''timestamptz'', ''date'', ''bytea'']"

definition mig_operators :: "string list" where
  "mig_operators = words ''= <> < <= > >= + - * / % || -> ->> @> ?''"

definition mig_functions :: "string list" where
  "mig_functions = [''count'', ''sum'', ''min'', ''max'', ''avg'', ''jsonb_agg'', ''coalesce'', ''nullif'', ''lower'', ''upper'', ''length'',
     ''trim'', ''now'', ''clock_timestamp'', ''gen_random_uuid'', ''jsonb_build_object'', ''to_jsonb'', ''date_trunc'']"

definition expression_fields :: "(string \<times> string) list" where
  "expression_fields =
    [(''A_Expr'', ''kind name lexpr rexpr''), (''BoolExpr'', ''boolop args''), (''NullTest'', ''arg nulltesttype argisrow''),
     (''BooleanTest'', ''arg booltesttype''), (''CaseExpr'', ''arg args defresult''), (''CaseWhen'', ''expr result''), (''CoalesceExpr'', ''args''),
     (''ColumnRef'', ''fields''), (''A_Star'', ''''), (''String'', ''sval''), (''List'', ''items''),
     (''FuncCall'', ''funcname args agg_star agg_distinct funcformat''), (''SQLValueFunction'', ''op typmod''), (''TypeCast'', ''arg typeName'')]"

fun only_fields :: "string \<Rightarrow> jval \<Rightarrow> bool" where
  "only_fields allowed (JObj fs) = list_all (\<lambda>f. fst f = ''location'' \<or> fst f \<in> set (words allowed)) fs"
| "only_fields allowed _ = False"

definition identifier_parts :: "jval option \<Rightarrow> string list" where
  "identifier_parts v = (case v of
     Some (JArr ps) \<Rightarrow> List.map_filter (\<lambda>p. case Option.bind (object_field ''String'' p) (jfield ''sval'') of Some (JStr t) \<Rightarrow> Some t | _ \<Rightarrow> None) ps
   | _ \<Rightarrow> [])"

definition mig_catalog_name :: "jval option \<Rightarrow> string option" where
  "mig_catalog_name v = (case identifier_parts v of
     [p] \<Rightarrow> Some p | [q, p] \<Rightarrow> if q = ''pg_catalog'' then Some p else None | _ \<Rightarrow> None)"

definition type_name :: "jval option \<Rightarrow> bool" where
  "type_name v \<longleftrightarrow> (case v of Some t \<Rightarrow> only_fields ''names typemod'' t
     \<and> (case mig_catalog_name (jfield ''names'' t) of Some n \<Rightarrow> n \<in> set mig_types | None \<Rightarrow> False) | None \<Rightarrow> False)"

function const_node :: "jval \<Rightarrow> bool" where
  "const_node (JObj fs) = (object_field ''A_Const'' (JObj fs) \<noteq> None
     \<or> (case map_of fs ''TypeCast'' of
          Some (JObj cs) \<Rightarrow> only_fields ''arg typeName'' (JObj cs) \<and> type_name (map_of cs ''typeName'')
            \<and> (case map_of cs ''arg'' of Some a \<Rightarrow> const_node a | None \<Rightarrow> False)
        | _ \<Rightarrow> False))"
| "const_node JNull = False" | "const_node (JBool b) = False" | "const_node (JInt n) = False" | "const_node (JFrac n k) = False"
| "const_node (JStr t) = False" | "const_node (JArr vs) = False"
  by pat_completeness auto

termination const_node
  by (relation "measure size") (fastforce dest!: size_field)+

definition constant_value_of :: "jval option \<Rightarrow> bool" where
  "constant_value_of v = (case v of Some x \<Rightarrow> const_node x | None \<Rightarrow> False)"

text \<open>The checks of one node before its fields are walked.\<close>

definition expression_node :: "string \<Rightarrow> jval \<Rightarrow> bool" where
  "expression_node kind node \<longleftrightarrow>
     (case map_of expression_fields kind of None \<Rightarrow> False | Some allowed \<Rightarrow> only_fields allowed node)
     \<and> (kind = ''TypeCast'' \<longrightarrow> type_name (jfield ''typeName'' node))
     \<and> (kind = ''A_Expr'' \<longrightarrow> jfield ''kind'' node \<in> {Some (JStr ''AEXPR_OP''), Some (JStr ''AEXPR_NULLIF'')}
          \<and> (case identifier_parts (jfield ''name'' node) of [p] \<Rightarrow> p \<in> set mig_operators | _ \<Rightarrow> False))
     \<and> (kind = ''FuncCall'' \<longrightarrow>
          (let name = (case mig_catalog_name (jfield ''funcname'' node) of Some n \<Rightarrow> n | None \<Rightarrow> '''') in
           (name \<in> set mig_functions \<or> jfield ''funcformat'' node = Some (JStr ''COERCE_SQL_SYNTAX'') \<and> name \<in> {''btrim'', ''ltrim'', ''rtrim''})
           \<and> (truthy (jfield ''agg_star'' node) \<or> truthy (jfield ''agg_distinct'' node) \<longrightarrow>
                name \<in> {''count'', ''sum'', ''min'', ''max'', ''avg'', ''jsonb_agg''})))
     \<and> (kind = ''SQLValueFunction'' \<longrightarrow> jfield ''op'' node = Some (JStr ''SVFOP_CURRENT_TIMESTAMP''))"

text \<open>\<open>expression\<close>: of a type cast only the argument is walked.\<close>

fun node_children :: "string \<Rightarrow> jval \<Rightarrow> jval list" where
  "node_children kind (JObj ns) = (if kind = ''TypeCast'' then (case map_of ns ''arg'' of Some a \<Rightarrow> [a] | None \<Rightarrow> [])
     else map snd (filter (\<lambda>f. fst f \<noteq> ''location'') ns))"
| "node_children kind _ = []"

lemma size_children: "f \<in> set fs \<Longrightarrow> c \<in> set (node_children (fst f) (snd f)) \<Longrightarrow> size c < Suc (size_list (size_prod (\<lambda>x. 0) size) fs)"
proof -
  assume f: "f \<in> set fs" "c \<in> set (node_children (fst f) (snd f))"
  have "size c < size (snd f)" using f(2)
    by (cases "snd f") (auto dest: size_field [OF sym] size_field size_pair_list split: if_splits option.splits)
  then show ?thesis using size_pair_list [OF f(1)] by simp
qed

function expression :: "jval \<Rightarrow> nat \<Rightarrow> bool" where
  "expression v depth =
     (if 128 < depth then False
      else (case v of
         JArr vs \<Rightarrow> list_all (\<lambda>c. expression c (Suc depth)) vs
       | JObj fs \<Rightarrow> list_all (\<lambda>f. is_object (snd f) \<and> (fst f = ''A_Const''
            \<or> expression_node (fst f) (snd f) \<and> (fst f = ''TypeCast'' \<and> node_children (fst f) (snd f) = [] \<longrightarrow> depth < 128)
              \<and> list_all (\<lambda>c. expression c (Suc depth)) (node_children (fst f) (snd f)))) fs
       | _ \<Rightarrow> True))"
  by pat_completeness auto

termination expression
  by (relation "measure (\<lambda>(v, d). size v)") (auto simp: less_Suc_eq_le size_list_estimation' dest: size_children [of "(a, b)" for a b, simplified, unfolded less_Suc_eq_le])

declare expression.simps [simp del]

definition is_reserved :: "jval option \<Rightarrow> bool" where
  "is_reserved v \<longleftrightarrow> v \<in> {Some (JStr ''principal_id''), Some (JStr ''run_id'')}"

definition reserved_name :: "string \<Rightarrow> bool" where
  "reserved_name t \<longleftrightarrow> t \<in> {''principal_id'', ''run_id''}"

function safe_nodes :: "jval \<Rightarrow> nat \<Rightarrow> bool" where
  "safe_nodes v depth =
     (if 128 < depth then False
      else (case v of
         JArr vs \<Rightarrow> list_all (\<lambda>c. safe_nodes c (Suc depth)) vs
       | JObj fs \<Rightarrow> \<not> has_field ''FuncCall'' v \<and> \<not> has_field ''SQLValueFunction'' v
            \<and> (case object_field ''ColumnRef'' v of None \<Rightarrow> True
               | Some c \<Rightarrow> (case rev (identifier_parts (jfield ''fields'' c)) of [] \<Rightarrow> True | p # ps \<Rightarrow> \<not> reserved_name p))
            \<and> list_all (\<lambda>f. safe_nodes (snd f) (Suc depth)) fs
       | _ \<Rightarrow> True))"
  by pat_completeness auto

termination safe_nodes
  by (relation "measure (\<lambda>(v, d). size v)") (auto simp: less_Suc_eq_le size_list_estimation' intro: size_pair_list [unfolded less_Suc_eq_le])

declare safe_nodes.simps [simp del]

definition expression_of :: "jval option \<Rightarrow> bool" where
  "expression_of v = (case v of None \<Rightarrow> True | Some x \<Rightarrow> expression x 0)"

definition check_expression :: "jval option \<Rightarrow> bool" where
  "check_expression v = (expression_of v \<and> (case v of None \<Rightarrow> True | Some x \<Rightarrow> safe_nodes x 0))"

section \<open>Checks of a statement\<close>

record scan =
  sc_reserved :: bool
  sc_targets :: "string list"
  sc_tables :: "string list"
  sc_destructive :: bool

type_synonym check = "scan \<Rightarrow> bool \<times> scan"

definition test :: "bool \<Rightarrow> check" where
  "test b s = (b, s)"

definition both :: "check \<Rightarrow> check \<Rightarrow> check" where
  "both f g s = (case f s of (b, s') \<Rightarrow> if b then g s' else (False, s'))"

fun each :: "('a \<Rightarrow> check) \<Rightarrow> 'a list \<Rightarrow> check" where
  "each f [] s = (True, s)"
| "each f (x # xs) s = both (f x) (each f xs) s"

definition mark_reserved :: "bool \<Rightarrow> check" where
  "mark_reserved b s = (True, if b then s\<lparr>sc_reserved := True\<rparr> else s)"

definition mark_destructive :: check where
  "mark_destructive s = (True, s\<lparr>sc_destructive := True\<rparr>)"

definition add_target :: "bool \<Rightarrow> string \<Rightarrow> check" where
  "add_target table t s = (True, s\<lparr>sc_targets := sc_targets s @ [t], sc_tables := (if table then List.insert t (sc_tables s) else sc_tables s)\<rparr>)"

definition array_of :: "jval option \<Rightarrow> jval list option" where
  "array_of v = (case v of Some (JArr vs) \<Rightarrow> Some vs | _ \<Rightarrow> None)"

definition each_of :: "(jval \<Rightarrow> check) \<Rightarrow> jval option \<Rightarrow> check" where
  "each_of f v = (case array_of v of Some vs \<Rightarrow> each f vs | None \<Rightarrow> test False)"

definition is_text :: "jval option \<Rightarrow> bool" where
  "is_text v \<longleftrightarrow> (case v of Some (JStr t) \<Rightarrow> True | _ \<Rightarrow> False)"

definition workspace_relation :: "string \<Rightarrow> jval option \<Rightarrow> check" where
  "workspace_relation schema v =
     (case v of
        Some r \<Rightarrow> (case jfield ''relname'' r of
            Some (JStr n) \<Rightarrow>
              if only_fields ''schemaname relname inh relpersistence'' r \<and> take 3 n \<noteq> ''pg_''
                \<and> jfield ''schemaname'' r \<in> {None, Some (JStr schema)} \<and> jfield ''relpersistence'' r = Some (JStr ''p'')
              then add_target True n else test False
          | _ \<Rightarrow> test False)
      | None \<Rightarrow> test False)"

definition object_path :: "string \<Rightarrow> bool \<Rightarrow> bool \<Rightarrow> jval option \<Rightarrow> check" where
  "object_path schema suffix table v =
     (case Option.bind v (object_field ''List'') of
        None \<Rightarrow> test False
      | Some l \<Rightarrow>
          let all = identifier_parts (jfield ''items'' l); parts = (if suffix then butlast all else all) in
          both (mark_reserved (suffix \<and> all \<noteq> [] \<and> reserved_name (last all)))
            (if parts = [] \<or> 2 < length parts \<or> (length parts = 2 \<and> hd parts \<noteq> schema) \<or> last parts = '''' \<or> take 3 (last parts) = ''pg_''
             then test False else add_target table (last parts)))"

definition constraint_fields :: string where
  "constraint_fields = ''contype conname is_enforced initially_valid raw_expr keys pktable fk_attrs pk_attrs fk_matchtype fk_upd_action fk_del_action''"

definition restrictive :: "jval option \<Rightarrow> bool" where
  "restrictive v \<longleftrightarrow> v \<in> {Some (JStr ''a''), Some (JStr ''r'')}"

definition constraint_ok :: "string \<Rightarrow> jval \<Rightarrow> check" where
  "constraint_ok schema v =
     (case object_field ''Constraint'' v of
        None \<Rightarrow> test False
      | Some c \<Rightarrow>
          both (test (only_fields constraint_fields c \<and> jfield ''is_enforced'' c \<noteq> Some (JBool False) \<and> jfield ''initially_valid'' c \<noteq> Some (JBool False)))
          (both (mark_reserved (list_ex reserved_name (identifier_parts (jfield ''keys'' c) @ identifier_parts (jfield ''fk_attrs'' c)
              @ identifier_parts (jfield ''pk_attrs'' c))))
            (case jfield ''contype'' c of
               Some (JStr t) \<Rightarrow>
                 if t \<in> {''CONSTR_NULL'', ''CONSTR_NOTNULL'', ''CONSTR_UNIQUE'', ''CONSTR_PRIMARY''} then test True
                 else if t = ''CONSTR_DEFAULT'' then test (constant_value_of (jfield ''raw_expr'' c))
                 else if t = ''CONSTR_CHECK'' then test (check_expression (jfield ''raw_expr'' c))
                 else if t = ''CONSTR_FOREIGN'' then both (workspace_relation schema (jfield ''pktable'' c))
                   (test (restrictive (jfield ''fk_upd_action'' c) \<and> restrictive (jfield ''fk_del_action'' c)
                      \<and> jfield ''fk_matchtype'' c = Some (JStr ''s'')))
                 else test False
             | _ \<Rightarrow> test False)))"

definition column_ok :: "string \<Rightarrow> bool \<Rightarrow> jval option \<Rightarrow> check" where
  "column_ok schema altering v =
     (case Option.bind v (object_field ''ColumnDef'') of
        None \<Rightarrow> test False
      | Some c \<Rightarrow>
          both (test (only_fields ''colname typeName is_local constraints'' c))
          (both (if altering then test True else both (mark_reserved (is_reserved (jfield ''colname'' c))) (test (is_text (jfield ''colname'' c))))
          (both (test (type_name (jfield ''typeName'' c)))
             (if jfield ''constraints'' c = None then test True else each_of (constraint_ok schema) (jfield ''constraints'' c)))))"

section \<open>Kinds of statement\<close>

definition table_element :: "string \<Rightarrow> jval \<Rightarrow> check" where
  "table_element schema e = (if has_field ''ColumnDef'' e then column_ok schema False (Some e) else constraint_ok schema e)"

definition create_ok :: "string \<Rightarrow> jval \<Rightarrow> check" where
  "create_ok schema node =
     both (test (only_fields ''relation tableElts oncommit if_not_exists'' node))
     (both (workspace_relation schema (jfield ''relation'' node))
     (both (test (jfield ''oncommit'' node = Some (JStr ''ONCOMMIT_NOOP'')))
       (if jfield ''tableElts'' node = None then test True
        else each_of (table_element schema) (jfield ''tableElts'' node))))"

definition command_ok :: "string \<Rightarrow> jval \<Rightarrow> check" where
  "command_ok schema v =
     (case object_field ''AlterTableCmd'' v of
        None \<Rightarrow> test False
      | Some c \<Rightarrow>
          both (test (only_fields ''subtype name def behavior missing_ok'' c \<and> jfield ''behavior'' c = Some (JStr ''DROP_RESTRICT'')))
          (both (mark_reserved (jfield ''subtype'' c \<notin> {Some (JStr ''AT_AddConstraint''), Some (JStr ''AT_DropConstraint'')} \<and> is_reserved (jfield ''name'' c)))
            (case jfield ''subtype'' c of
               Some (JStr t) \<Rightarrow>
                 if t = ''AT_AddColumn'' then column_ok schema False (jfield ''def'' c)
                 else if t = ''AT_ColumnDefault'' then test (jfield ''def'' c = None \<or> constant_value_of (jfield ''def'' c))
                 else if t \<in> {''AT_SetNotNull'', ''AT_DropNotNull''} then test True
                 else if t = ''AT_AlterColumnType'' then both mark_destructive (column_ok schema True (jfield ''def'' c))
                 else if t = ''AT_AddConstraint'' then (case jfield ''def'' c of Some d \<Rightarrow> constraint_ok schema d | None \<Rightarrow> test False)
                 else if t \<in> {''AT_DropConstraint'', ''AT_DropColumn''} then mark_destructive
                 else test False
             | _ \<Rightarrow> test False)))"

definition alter_ok :: "string \<Rightarrow> jval \<Rightarrow> check" where
  "alter_ok schema node =
     both (test (only_fields ''relation cmds objtype missing_ok'' node))
     (both (workspace_relation schema (jfield ''relation'' node))
     (both (test (jfield ''objtype'' node = Some (JStr ''OBJECT_TABLE'')))
       (each_of (command_ok schema) (jfield ''cmds'' node))))"

definition index_element :: "jval \<Rightarrow> bool" where
  "index_element e = (case object_field ''IndexElem'' e of None \<Rightarrow> False
     | Some i \<Rightarrow> only_fields ''name ordering nulls_ordering'' i \<and> is_text (jfield ''name'' i))"

definition index_ok :: "string \<Rightarrow> jval \<Rightarrow> check" where
  "index_ok schema node =
     both (test (only_fields ''idxname relation accessMethod indexParams whereClause unique if_not_exists'' node
        \<and> jfield ''accessMethod'' node = Some (JStr ''btree'')))
     (both (workspace_relation schema (jfield ''relation'' node))
     (both (each_of (\<lambda>e. test (index_element e)) (jfield ''indexParams'' node))
       (test (expression_of (jfield ''whereClause'' node)))))"

definition drop_ok :: "string \<Rightarrow> jval \<Rightarrow> check" where
  "drop_ok schema node =
     both mark_destructive
     (both (test (only_fields ''objects removeType behavior missing_ok'' node \<and> jfield ''behavior'' node = Some (JStr ''DROP_RESTRICT'')
        \<and> jfield ''removeType'' node \<in> {Some (JStr ''OBJECT_TABLE''), Some (JStr ''OBJECT_INDEX'')}))
       (each_of (\<lambda>t. object_path schema False (jfield ''removeType'' node = Some (JStr ''OBJECT_TABLE'')) (Some t)) (jfield ''objects'' node)))"

definition comment_ok :: "string \<Rightarrow> jval \<Rightarrow> check" where
  "comment_ok schema node =
     (let t = jfield ''objtype'' node in
      both (test (only_fields ''objtype object comment'' node
        \<and> t \<in> {Some (JStr ''OBJECT_TABLE''), Some (JStr ''OBJECT_INDEX''), Some (JStr ''OBJECT_COLUMN''), Some (JStr ''OBJECT_TABCONSTRAINT'')}))
        (object_path schema (t \<in> {Some (JStr ''OBJECT_COLUMN''), Some (JStr ''OBJECT_TABCONSTRAINT'')}) (t \<noteq> Some (JStr ''OBJECT_INDEX''))
          (jfield ''object'' node)))"

definition writes_reserved :: "jval option \<Rightarrow> bool" where
  "writes_reserved v = (case array_of v of None \<Rightarrow> False
     | Some ts \<Rightarrow> list_ex (\<lambda>t. case object_field ''ResTarget'' t of Some r \<Rightarrow> is_reserved (jfield ''name'' r) | None \<Rightarrow> False) ts)"

definition conflict_clause :: "jval \<Rightarrow> jval option" where
  "conflict_clause node = object_field ''onConflictClause'' node"

definition upserts :: "jval \<Rightarrow> bool" where
  "upserts node = (case conflict_clause node of Some c \<Rightarrow> jfield ''action'' c = Some (JStr ''ONCONFLICT_UPDATE'') | None \<Rightarrow> False)"

definition write_ok :: "engine \<Rightarrow> string \<Rightarrow> string \<Rightarrow> string \<Rightarrow> jval \<Rightarrow> check" where
  "write_ok g schema text kind node s =
     (let decision = statement_policy (eg_parse g) (eg_sha g) text schema 0;
          reserved = (writes_reserved (jfield ''cols'' node) \<or> kind = ''UpdateStmt'' \<and> writes_reserved (jfield ''targetList'' node)
            \<or> (case conflict_clause node of Some c \<Rightarrow> writes_reserved (jfield ''targetList'' c) | None \<Rightarrow> False));
          columns = (case array_of (jfield ''cols'' node) of Some cs \<Rightarrow> cs \<noteq> [] | None \<Rightarrow> False);
          target = Option.bind (object_field ''relation'' node) (jfield ''relname'') in
      (\<not> isl decision \<and> jfield ''returningClause'' node = None \<and> (kind \<noteq> ''InsertStmt'' \<or> jfield ''selectStmt'' node = None \<or> columns),
       s\<lparr>sc_reserved := reserved, sc_destructive := kind \<noteq> ''InsertStmt'' \<or> upserts node,
         sc_tables := (case decision of Inr d \<Rightarrow> fold List.insert (sd_relations d) (sc_tables s) | Inl e \<Rightarrow> sc_tables s),
         sc_targets := sc_targets s @ (case target of Some (JStr t) \<Rightarrow> [t] | _ \<Rightarrow> [])\<rparr>))"

section \<open>The decision\<close>

text \<open>The scanner: its tokens with their end offsets, and the position of a syntax error in code
  points.\<close>

record scanner =
  sn_error :: "string \<Rightarrow> int"
  sn_tokens :: "string \<Rightarrow> (string \<times> nat) list option"

text \<open>The bytes of the first code points of a text: continuation bytes belong to the point before.\<close>

fun prefix_bytes :: "nat \<Rightarrow> string \<Rightarrow> nat" where
  "prefix_bytes n [] = 0"
| "prefix_bytes n (c # cs) =
     (if of_char c div 64 = (2::nat) then Suc (prefix_bytes n cs)
      else if n = 0 then 0 else Suc (prefix_bytes (n - 1) cs))"

definition syntax_index :: "scanner \<Rightarrow> string \<Rightarrow> nat" where
  "syntax_index k sql =
     (let position = sn_error k sql in
      if position \<le> 0 then 0
      else (case sn_tokens k sql of
          None \<Rightarrow> 0
        | Some ts \<Rightarrow> length (filter (\<lambda>t. fst t = '';'' \<and> snd t \<le> prefix_bytes (nat position) sql) ts)))"

record migration_statement =
  mt_kind :: string
  mt_target :: string
  mt_destructive :: bool

record migration_plan =
  mp_statements :: "migration_statement list"
  mp_destructive :: bool
  mp_tables :: "string list"

fun stmt_kind :: "jval \<Rightarrow> string" where
  "stmt_kind (JObj ((k, v) # fs)) = k"
| "stmt_kind _ = ''''"

definition stmt_node :: "jval \<Rightarrow> jval option" where
  "stmt_node root = object_field (stmt_kind root) root"

definition statement_root :: "jval \<Rightarrow> jval" where
  "statement_root raw = (case jfield ''stmt'' raw of Some r \<Rightarrow> r | None \<Rightarrow> JNull)"

definition statement_check :: "engine \<Rightarrow> string \<Rightarrow> string \<Rightarrow> string \<Rightarrow> jval \<Rightarrow> check" where
  "statement_check g schema text kind node =
     (if kind = ''CreateStmt'' then create_ok schema node
      else if kind = ''AlterTableStmt'' then alter_ok schema node
      else if kind = ''IndexStmt'' then index_ok schema node
      else if kind = ''DropStmt'' then drop_ok schema node
      else if kind = ''CommentStmt'' then comment_ok schema node
      else if kind \<in> {''InsertStmt'', ''UpdateStmt'', ''DeleteStmt''} then write_ok g schema text kind node
      else test False)"

fun joined :: "string list \<Rightarrow> string" where
  "joined [] = ''''"
| "joined [t] = t"
| "joined (t # ts) = t @ CHR '','' # joined ts"

definition statement_entry :: "string \<Rightarrow> scan \<Rightarrow> migration_statement" where
  "statement_entry kind s = \<lparr>mt_kind = kind,
     mt_target = (if kind = ''DropStmt'' then joined (sc_targets s) else case sc_targets s of [] \<Rightarrow> '''' | t # ts \<Rightarrow> t),
     mt_destructive = sc_destructive s\<rparr>"

fun check_statements :: "engine \<Rightarrow> string \<Rightarrow> string \<Rightarrow> nat \<Rightarrow> jval list \<Rightarrow> string list \<Rightarrow> (string \<times> nat) + (migration_statement list \<times> string list)" where
  "check_statements g schema sql i [] tables = Inr ([], tables)"
| "check_statements g schema sql i (raw # raws) tables =
     (let root = statement_root raw; kind = stmt_kind root;
          start = \<lparr>sc_reserved = False, sc_targets = [], sc_tables = tables, sc_destructive = False\<rparr>;
          (valid, s) = (case stmt_node root of Some node \<Rightarrow> statement_check g schema (statement_slice raw sql) kind node start | None \<Rightarrow> (False, start)) in
      if sc_reserved s then Inl (''migration_reserved_column'', i)
      else if \<not> valid then Inl (''migration_statement_forbidden'', i)
      else map_sum id (\<lambda>(es, ts). (statement_entry kind s # es, ts)) (check_statements g schema sql (Suc i) raws (sc_tables s)))"

definition parsed_statements :: "jval \<Rightarrow> jval list" where
  "parsed_statements parsed = (case jfield ''stmts'' parsed of Some (JArr ss) \<Rightarrow> ss | _ \<Rightarrow> [])"

definition migration_policy :: "engine \<Rightarrow> scanner \<Rightarrow> string \<Rightarrow> string \<Rightarrow> (string \<times> nat) + migration_plan" where
  "migration_policy g k sql schema =
     (case eg_parse g sql of
        None \<Rightarrow> Inl (''migration_syntax_error'', syntax_index k sql)
      | Some parsed \<Rightarrow>
          let raws = parsed_statements parsed in
          if 100 < length raws then Inl (''migration_too_many_statements'', 100)
          else if raws = [] then Inl (''migration_syntax_error'', 0)
          else map_sum id (\<lambda>(es, ts). \<lparr>mp_statements = es, mp_destructive = list_ex mt_destructive es, mp_tables = sort ts\<rparr>)
                 (check_statements g schema sql 0 raws []))"

end
