(* ===== verification/MigrationProps.thy ===== *)
theory MigrationProps
  imports MigrationPolicy
begin

text \<open>What an accepted Migration is: its statements, the relations they name, the columns they write
  and which of them lose data.\<close>

section \<open>Checks that pass\<close>

definition grows :: "scan \<Rightarrow> scan \<Rightarrow> bool" where
  "grows s s' \<longleftrightarrow> (sc_reserved s \<longrightarrow> sc_reserved s') \<and> set (sc_tables s) \<subseteq> set (sc_tables s')"

definition quiet :: "check \<Rightarrow> bool" where
  "quiet f \<longleftrightarrow> (\<forall>s. grows s (snd (f s)) \<and> sc_destructive (snd (f s)) = sc_destructive s)"

lemma grows_refl [simp]: "grows s s"
  by (simp add: grows_def)

lemma grows_trans: "grows s t \<Longrightarrow> grows t u \<Longrightarrow> grows s u"
  by (auto simp: grows_def)

lemma both_passes: "both f g s = (True, s') \<longleftrightarrow> (\<exists>t. f s = (True, t) \<and> g t = (True, s'))"
  by (auto simp: both_def split: prod.splits if_splits)

lemma test_passes [simp]: "test b s = (True, s') \<longleftrightarrow> b \<and> s' = s"
  by (auto simp: test_def)

lemma mark_reserved_passes [simp]: "mark_reserved b s = (True, s') \<longleftrightarrow> s' = (if b then s\<lparr>sc_reserved := True\<rparr> else s)"
  by (auto simp: mark_reserved_def)

lemma mark_destructive_passes [simp]: "mark_destructive s = (True, s') \<longleftrightarrow> s' = s\<lparr>sc_destructive := True\<rparr>"
  by (auto simp: mark_destructive_def)

lemma quietD: "quiet f \<Longrightarrow> f s = (b, s') \<Longrightarrow> grows s s' \<and> sc_destructive s' = sc_destructive s"
  by (metis quiet_def snd_conv)

lemma quiet_both [simp]:
  assumes "quiet f" "quiet g"
  shows "quiet (both f g)"
  unfolding quiet_def
proof
  fix s
  obtain b t where f: "f s = (b, t)" by fastforce
  obtain c u where g: "g t = (c, u)" by fastforce
  show "grows s (snd (both f g s)) \<and> sc_destructive (snd (both f g s)) = sc_destructive s"
    using quietD [OF assms(1) f] quietD [OF assms(2) g] by (auto simp: both_def f g intro: grows_trans)
qed

lemma quiet_test [simp]: "quiet (test b)"
  by (simp add: quiet_def test_def)

lemma quiet_mark [simp]: "quiet (mark_reserved b)"
  by (simp add: quiet_def mark_reserved_def grows_def)

lemma quiet_target [simp]: "quiet (add_target b t)"
  by (auto simp: quiet_def add_target_def grows_def)

lemma quiet_each: "(\<And>x. x \<in> set xs \<Longrightarrow> quiet (f x)) \<Longrightarrow> quiet (each f xs)"
proof (induction xs)
  case Nil
  then show ?case by (simp add: quiet_def)
next
  case (Cons x xs)
  have "each f (x # xs) = both (f x) (each f xs)" by (rule ext) simp
  then show ?case using Cons by (simp add: quiet_both)
qed

lemma quiet_each_of [simp]: "(\<And>x. quiet (f x)) \<Longrightarrow> quiet (each_of f v)"
  by (simp add: each_of_def quiet_each split: option.split)

lemma quiet_relation [simp]: "quiet (workspace_relation schema v)"
  by (simp add: workspace_relation_def split: option.split jval.split)

lemma quiet_path [simp]: "quiet (object_path schema suffix table v)"
  by (simp add: object_path_def Let_def split: option.split)

lemma quiet_constraint [simp]: "quiet (constraint_ok schema v)"
  by (simp add: constraint_ok_def split: option.split jval.split)

lemma quiet_column [simp]: "quiet (column_ok schema altering v)"
  by (simp add: column_ok_def split: option.split)

text \<open>Every element of a list passes in a state between the first and the last.\<close>

lemma each_passes:
  assumes "each f xs s = (True, s')" "x \<in> set xs" and quiet: "\<And>y t t'. f y t = (True, t') \<Longrightarrow> grows t t'"
  obtains t t' where "grows s t" "f x t = (True, t')" "grows t' s'"
proof -
  have grow: "each f ys t = (True, t') \<Longrightarrow> grows t t'" for ys t t'
    by (induction ys arbitrary: t) (auto simp: both_passes dest!: quiet intro: grows_trans)
  have "\<exists>t t'. grows s t \<and> f x t = (True, t') \<and> grows t' s'"
    using assms(1,2)
  proof (induction xs arbitrary: s)
    case (Cons y xs)
    then obtain m where m: "f y s = (True, m)" "each f xs m = (True, s')" by (auto simp: both_passes)
    show ?case
    proof (cases "x = y")
      case True
      then show ?thesis using m grow grows_refl by blast
    next
      case False
      then show ?thesis using Cons.IH [OF m(2)] Cons.prems(2) quiet [OF m(1)] by (auto intro: grows_trans)
    qed
  qed simp
  then show thesis using that by blast
qed

section \<open>What a statement does\<close>

text \<open>Stated over the syntax tree, without the policy's state.\<close>

definition command_of :: "jval \<Rightarrow> string" where
  "command_of v = (case Option.bind (object_field ''AlterTableCmd'' v) (jfield ''subtype'') of Some (JStr t) \<Rightarrow> t | _ \<Rightarrow> [])"

definition loses_data :: "string \<Rightarrow> jval \<Rightarrow> bool" where
  "loses_data kind node \<longleftrightarrow>
     kind \<in> {''DropStmt'', ''UpdateStmt'', ''DeleteStmt''} \<or> kind = ''InsertStmt'' \<and> upserts node
     \<or> kind = ''AlterTableStmt'' \<and> (\<exists>cs. jfield ''cmds'' node = Some (JArr cs)
         \<and> (\<exists>c\<in>set cs. command_of c \<in> {''AT_AlterColumnType'', ''AT_DropConstraint'', ''AT_DropColumn''}))"

definition column_name :: "jval \<Rightarrow> jval option" where
  "column_name v = Option.bind (object_field ''ColumnDef'' v) (jfield ''colname'')"

text \<open>The columns a statement declares, alters, drops or assigns.\<close>

definition command_columns :: "jval \<Rightarrow> jval option set" where
  "command_columns v = (case object_field ''AlterTableCmd'' v of None \<Rightarrow> {}
     | Some c \<Rightarrow> (if command_of v \<in> {''AT_AddConstraint'', ''AT_DropConstraint''} then {} else {jfield ''name'' c})
         \<union> (if command_of v = ''AT_AddColumn'' then (case jfield ''def'' c of Some d \<Rightarrow> {column_name d} | None \<Rightarrow> {}) else {}))"

definition assigned :: "jval option \<Rightarrow> jval option set" where
  "assigned v = (case v of Some (JArr ts) \<Rightarrow> (\<lambda>t. Option.bind (object_field ''ResTarget'' t) (jfield ''name'')) ` set ts | _ \<Rightarrow> {})"

definition elements :: "jval option \<Rightarrow> jval set" where
  "elements v = (case v of Some (JArr xs) \<Rightarrow> set xs | _ \<Rightarrow> {})"

definition touched_columns :: "string \<Rightarrow> jval \<Rightarrow> jval option set" where
  "touched_columns kind node =
     (if kind = ''CreateStmt'' then column_name ` elements (jfield ''tableElts'' node)
      else if kind = ''AlterTableStmt'' then \<Union> (command_columns ` elements (jfield ''cmds'' node))
      else if kind = ''InsertStmt'' then assigned (jfield ''cols'' node)
        \<union> (case conflict_clause node of Some c \<Rightarrow> assigned (jfield ''targetList'' c) | None \<Rightarrow> {})
      else if kind = ''UpdateStmt'' then assigned (jfield ''targetList'' node)
      else {})"

text \<open>The table a schema change names: in the Workspace's schema, outside the catalogue, persistent.\<close>

definition workspace_table :: "string \<Rightarrow> string list \<Rightarrow> jval \<Rightarrow> bool" where
  "workspace_table schema tables node \<longleftrightarrow>
     (\<exists>r n. jfield ''relation'' node = Some r \<and> jfield ''relname'' r = Some (JStr n) \<and> n \<in> set tables \<and> take 3 n \<noteq> ''pg_''
        \<and> jfield ''schemaname'' r \<in> {None, Some (JStr schema)} \<and> jfield ''relpersistence'' r = Some (JStr ''p''))"

definition statement_kinds :: "string list" where
  "statement_kinds = [''CreateStmt'', ''AlterTableStmt'', ''IndexStmt'', ''DropStmt'', ''CommentStmt'', ''InsertStmt'', ''UpdateStmt'', ''DeleteStmt'']"

definition statement_safe :: "engine \<Rightarrow> string \<Rightarrow> string list \<Rightarrow> string \<Rightarrow> string \<Rightarrow> jval \<Rightarrow> bool" where
  "statement_safe g schema tables text kind node \<longleftrightarrow>
     kind \<in> set statement_kinds
     \<and> touched_columns kind node \<inter> {Some (JStr ''principal_id''), Some (JStr ''run_id'')} = {}
     \<and> (kind \<in> {''CreateStmt'', ''AlterTableStmt'', ''IndexStmt''} \<longrightarrow> workspace_table schema tables node)
     \<and> (kind = ''DropStmt'' \<longrightarrow> jfield ''behavior'' node = Some (JStr ''DROP_RESTRICT''))
     \<and> (kind \<in> {''InsertStmt'', ''UpdateStmt'', ''DeleteStmt''} \<longrightarrow>
          (\<exists>d. statement_policy (eg_parse g) (eg_sha g) text schema 0 = Inr d \<and> set (sd_relations d) \<subseteq> set tables))"

section \<open>Kind by kind\<close>

lemma grew: "quiet f \<Longrightarrow> f s = (b, s') \<Longrightarrow> grows s s'"
  by (simp add: quietD)

lemma grownD: "grows s s' \<Longrightarrow> \<not> sc_reserved s' \<Longrightarrow> \<not> sc_reserved s \<and> set (sc_tables s) \<subseteq> set (sc_tables s')"
  by (auto simp: grows_def)

lemma relation_passes:
  assumes "workspace_relation schema (jfield ''relation'' node) s = (True, t)" "grows t s'"
  shows "workspace_table schema (sc_tables s') node"
  using assms by (auto simp: workspace_relation_def workspace_table_def add_target_def grows_def
      split: option.splits jval.splits if_splits)

lemma column_passes:
  assumes "column_ok schema False (Some d) s = (True, t)" "\<not> sc_reserved t"
  shows "column_name d \<notin> {Some (JStr ''principal_id''), Some (JStr ''run_id'')}"
proof -
  obtain c where c: "object_field ''ColumnDef'' d = Some c" using assms(1)
    by (auto simp: column_ok_def split: option.splits)
  show ?thesis
  proof (rule ccontr)
    assume "\<not> ?thesis"
    then have r: "is_reserved (jfield ''colname'' c)" by (auto simp: column_name_def is_reserved_def c)
    define rest where "rest = both (test (type_name (jfield ''typeName'' c)))
             (if jfield ''constraints'' c = None then test True else each_of (constraint_ok schema) (jfield ''constraints'' c))"
    have "quiet rest" by (simp add: rest_def)
    then have "sc_reserved t" using assms(1) r
      by (auto simp: column_ok_def c both_passes grows_def simp flip: rest_def dest!: grew)
    then show False using assms(2) by simp
  qed
qed

lemma image_avoids: "(\<And>e. e \<in> E \<Longrightarrow> f e \<notin> A) \<Longrightarrow> f ` E \<inter> A = {}"
  by blast

lemma create_passes:
  assumes "create_ok schema node s = (True, s')" "\<not> sc_reserved s'"
  shows "workspace_table schema (sc_tables s') node" "sc_destructive s' = sc_destructive s"
    "column_name ` elements (jfield ''tableElts'' node) \<inter> {Some (JStr ''principal_id''), Some (JStr ''run_id'')} = {}"
    "set (sc_tables s) \<subseteq> set (sc_tables s')"
proof -
  have q: "quiet (table_element schema e)" for e by (simp add: table_element_def)
  define rest where "rest = (if jfield ''tableElts'' node = None then test True else each_of (table_element schema) (jfield ''tableElts'' node))"
  have qr: "quiet rest" using q by (simp add: rest_def)
  obtain t where t: "workspace_relation schema (jfield ''relation'' node) s = (True, t)" "rest t = (True, s')"
    using assms(1) by (auto simp: create_ok_def both_passes rest_def)
  show "workspace_table schema (sc_tables s') node" using t qr by (blast intro: relation_passes grew)
  show "sc_destructive s' = sc_destructive s" using t quietD [OF qr t(2)] quietD [OF quiet_relation t(1)] by simp
  show "column_name ` elements (jfield ''tableElts'' node) \<inter> {Some (JStr ''principal_id''), Some (JStr ''run_id'')} = {}"
  proof -
    have "column_name e \<notin> {Some (JStr ''principal_id''), Some (JStr ''run_id'')}" if e: "e \<in> elements (jfield ''tableElts'' node)" for e
    proof -
      obtain es where es: "jfield ''tableElts'' node = Some (JArr es)" "e \<in> set es"
        using e by (auto simp: elements_def split: option.splits jval.splits)
      then have run: "each (table_element schema) es t = (True, s')" using t(2) by (simp add: rest_def each_of_def array_of_def)
      obtain u u' where u: "table_element schema e u = (True, u')" "grows u' s'"
        by (rule each_passes [OF run es(2)]) (auto intro: grew q)
      show ?thesis
      proof (cases "has_field ''ColumnDef'' e")
        case True
        then show ?thesis using u(1) column_passes [of schema e u u'] grownD [OF u(2) assms(2)] by (simp add: table_element_def)
      next
        case False
        then have "column_name e = None" by (simp add: column_name_def object_field_def has_field_def)
        then show ?thesis by simp
      qed
    qed
    then show ?thesis by (rule image_avoids)
  qed
  show "set (sc_tables s) \<subseteq> set (sc_tables s')"
    using quietD [OF qr t(2)] quietD [OF quiet_relation t(1)] by (auto simp: grows_def)
qed

lemma command_passes:
  assumes "command_ok schema v s = (True, s')"
  shows "grows s s'" "sc_destructive s' \<longleftrightarrow> sc_destructive s \<or> command_of v \<in> {''AT_AlterColumnType'', ''AT_DropConstraint'', ''AT_DropColumn''}"
    "\<not> sc_reserved s' \<Longrightarrow> command_columns v \<inter> {Some (JStr ''principal_id''), Some (JStr ''run_id'')} = {}"
proof -
  obtain c t where c: "object_field ''AlterTableCmd'' v = Some c" "jfield ''subtype'' c = Some (JStr t)"
    using assms by (auto simp: command_ok_def both_passes split: option.splits jval.splits)
  have sub: "command_of v = t" by (simp add: command_of_def c)
  define marks where "marks = mark_reserved (t \<notin> {''AT_AddConstraint'', ''AT_DropConstraint''} \<and> is_reserved (jfield ''name'' c))"
  define body where "body = (if t = ''AT_AddColumn'' then column_ok schema False (jfield ''def'' c)
                 else if t = ''AT_ColumnDefault'' then test (jfield ''def'' c = None \<or> constant_value_of (jfield ''def'' c))
                 else if t \<in> {''AT_SetNotNull'', ''AT_DropNotNull''} then test True
                 else if t = ''AT_AlterColumnType'' then both mark_destructive (column_ok schema True (jfield ''def'' c))
                 else if t = ''AT_AddConstraint'' then (case jfield ''def'' c of Some d \<Rightarrow> constraint_ok schema d | None \<Rightarrow> test False)
                 else if t \<in> {''AT_DropConstraint'', ''AT_DropColumn''} then mark_destructive
                 else test False)"
  obtain m where m: "marks s = (True, m)" "body m = (True, s')"
    using assms unfolding command_ok_def c option.case both_passes jval.case by (auto simp: marks_def body_def)
  have body: "grows m s' \<and> (sc_destructive s' \<longleftrightarrow> sc_destructive m \<or> t \<in> {''AT_AlterColumnType'', ''AT_DropConstraint'', ''AT_DropColumn''})"
    using m(2) by (auto simp: body_def both_passes grows_def split: if_splits option.splits dest!: quietD [rotated])
  have marks: "grows s m \<and> sc_destructive m = sc_destructive s" using quietD [of marks s True m] m(1) by (simp add: marks_def)
  show "grows s s'" using marks body by (blast intro: grows_trans)
  show "sc_destructive s' \<longleftrightarrow> sc_destructive s \<or> command_of v \<in> {''AT_AlterColumnType'', ''AT_DropConstraint'', ''AT_DropColumn''}"
    using marks body by (simp add: sub)
  assume r: "\<not> sc_reserved s'"
  have "\<not> sc_reserved m" using body r by (auto simp: grows_def)
  then have name: "t \<in> {''AT_AddConstraint'', ''AT_DropConstraint''} \<or> \<not> is_reserved (jfield ''name'' c)"
    using m(1) by (auto simp: marks_def split: if_splits)
  have "t = ''AT_AddColumn'' \<Longrightarrow> jfield ''def'' c = Some d \<Longrightarrow> column_name d \<notin> {Some (JStr ''principal_id''), Some (JStr ''run_id'')}" for d
    using m(2) r column_passes [of schema d m s'] by (simp add: body_def)
  then show "command_columns v \<inter> {Some (JStr ''principal_id''), Some (JStr ''run_id'')} = {}"
    using name by (auto simp: command_columns_def c sub is_reserved_def split: option.splits)
qed

lemma each_drops:
  assumes "each (command_ok schema) cs s = (True, s')"
  shows "sc_destructive s' \<longleftrightarrow> sc_destructive s \<or> (\<exists>c\<in>set cs. command_of c \<in> {''AT_AlterColumnType'', ''AT_DropConstraint'', ''AT_DropColumn''})"
  using assms
proof (induction cs arbitrary: s)
  case (Cons c cs)
  then obtain m where m: "command_ok schema c s = (True, m)" "each (command_ok schema) cs m = (True, s')" by (auto simp: both_passes)
  then show ?case using Cons.IH [OF m(2)] command_passes(2) [OF m(1)] by auto
qed simp

lemma alter_passes:
  assumes "alter_ok schema node s = (True, s')" "\<not> sc_reserved s'" "\<not> sc_destructive s"
  shows "workspace_table schema (sc_tables s') node" "sc_destructive s' = loses_data ''AlterTableStmt'' node"
    "\<Union> (command_columns ` elements (jfield ''cmds'' node)) \<inter> {Some (JStr ''principal_id''), Some (JStr ''run_id'')} = {}"
    "set (sc_tables s) \<subseteq> set (sc_tables s')"
proof -
  obtain t cs where t: "workspace_relation schema (jfield ''relation'' node) s = (True, t)"
      "jfield ''cmds'' node = Some (JArr cs)" "each (command_ok schema) cs t = (True, s')"
    using assms(1) by (auto simp: alter_ok_def both_passes each_of_def array_of_def split: option.splits jval.splits)
  have grow: "each (command_ok schema) ds u = (True, u') \<Longrightarrow> grows u u'" for ds u u'
    by (induction ds arbitrary: u) (auto simp: both_passes dest!: command_passes(1) intro: grows_trans)
  show "workspace_table schema (sc_tables s') node" using t(1) grow [OF t(3)] by (rule relation_passes)
  show "set (sc_tables s) \<subseteq> set (sc_tables s')"
    using grow [OF t(3)] quietD [OF quiet_relation t(1)] by (auto simp: grows_def)
  show "sc_destructive s' = loses_data ''AlterTableStmt'' node"
    using each_drops [OF t(3)] quietD [OF quiet_relation t(1)] assms(3) t(2) by (simp add: loses_data_def)
  have "command_columns c \<inter> {Some (JStr ''principal_id''), Some (JStr ''run_id'')} = {}" if c: "c \<in> set cs" for c
  proof -
    obtain u u' where u: "command_ok schema c u = (True, u')" "grows u' s'"
      by (rule each_passes [OF t(3) c]) (auto dest: command_passes(1))
    then show ?thesis using command_passes(3) [OF u(1)] assms(2) by (auto simp: grows_def)
  qed
  then show "\<Union> (command_columns ` elements (jfield ''cmds'' node)) \<inter> {Some (JStr ''principal_id''), Some (JStr ''run_id'')} = {}"
    by (auto simp: t(2) elements_def)
qed

text \<open>Every kind of statement, checked from the state its predecessors leave.\<close>

lemma quiet_index: "quiet (index_ok schema node)"
  by (simp add: index_ok_def)

lemma quiet_comment: "quiet (comment_ok schema node)"
  by (simp add: comment_ok_def Let_def)

lemma drop_passes:
  assumes "drop_ok schema node s = (True, s')"
  shows "sc_destructive s'" "jfield ''behavior'' node = Some (JStr ''DROP_RESTRICT'')" "grows s s'"
  using assms unfolding drop_ok_def
  by (auto simp: both_passes grows_def
      dest!: quietD [of "each_of (\<lambda>t. object_path schema False b (Some t)) v" for b v, rotated])

lemma index_passes:
  assumes "index_ok schema node s = (True, s')"
  shows "workspace_table schema (sc_tables s') node"
proof -
  define rest where "rest = both (each_of (\<lambda>e. test (index_element e)) (jfield ''indexParams'' node)) (test (expression_of (jfield ''whereClause'' node)))"
  obtain t where "workspace_relation schema (jfield ''relation'' node) s = (True, t)" "rest t = (True, s')"
    using assms unfolding index_ok_def rest_def [symmetric] by (auto simp: both_passes)
  moreover have "quiet rest" by (simp add: rest_def)
  ultimately show ?thesis by (blast intro: relation_passes grew)
qed

lemma assigned_unreserved: "\<not> writes_reserved v \<Longrightarrow> assigned v \<inter> {Some (JStr ''principal_id''), Some (JStr ''run_id'')} = {}"
  by (fastforce simp: writes_reserved_def assigned_def array_of_def is_reserved_def list_ex_iff split: option.splits jval.splits bind_splits)

lemma write_passes:
  assumes "write_ok g schema text kind node s = (True, s')" "\<not> sc_reserved s'" "kind \<in> {''InsertStmt'', ''UpdateStmt'', ''DeleteStmt''}"
  shows "statement_safe g schema (sc_tables s') text kind node \<and> sc_destructive s' = loses_data kind node \<and> set (sc_tables s) \<subseteq> set (sc_tables s')"
proof -
  obtain d where d: "statement_policy (eg_parse g) (eg_sha g) text schema 0 = Inr d"
    using assms(1) by (cases "statement_policy (eg_parse g) (eg_sha g) text schema 0") (auto simp: write_ok_def Let_def)
  have s': "sc_tables s' = fold List.insert (sd_relations d) (sc_tables s)" "sc_destructive s' = (kind \<noteq> ''InsertStmt'' \<or> upserts node)"
    "\<not> writes_reserved (jfield ''cols'' node)" "kind = ''UpdateStmt'' \<Longrightarrow> \<not> writes_reserved (jfield ''targetList'' node)"
    "\<And>c. conflict_clause node = Some c \<Longrightarrow> \<not> writes_reserved (jfield ''targetList'' c)"
    using assms(1,2) by (auto simp: write_ok_def Let_def d)
  have "set (fold List.insert xs ys) = set xs \<union> set ys" for xs ys :: "string list"
    by (induction xs arbitrary: ys) auto
  moreover have "touched_columns kind node \<inter> {Some (JStr ''principal_id''), Some (JStr ''run_id'')} = {}"
    using assms(3) assigned_unreserved [OF s'(3)] assigned_unreserved [OF s'(4)] assigned_unreserved [OF s'(5)]
    by (auto simp: touched_columns_def Int_Un_distrib2 split: option.split)
  moreover have "sc_destructive s' = loses_data kind node" using assms(3) s'(2) by (auto simp: loses_data_def)
  moreover have "kind \<notin> {''CreateStmt'', ''AlterTableStmt'', ''IndexStmt'', ''DropStmt''} \<and> kind \<in> set statement_kinds"
    using assms(3) by (auto simp: statement_kinds_def)
  ultimately show ?thesis using s'(1) d by (simp add: statement_safe_def)
qed

lemma kind_passes:
  assumes "statement_check g schema text kind node s = (True, s')" "\<not> sc_reserved s'" "\<not> sc_destructive s"
  shows "statement_safe g schema (sc_tables s') text kind node \<and> sc_destructive s' = loses_data kind node \<and> set (sc_tables s) \<subseteq> set (sc_tables s')"
proof -
  consider "kind = ''CreateStmt''" "create_ok schema node s = (True, s')" | "kind = ''AlterTableStmt''" "alter_ok schema node s = (True, s')"
    | "kind = ''IndexStmt''" "index_ok schema node s = (True, s')" | "kind = ''DropStmt''" "drop_ok schema node s = (True, s')"
    | "kind = ''CommentStmt''" "comment_ok schema node s = (True, s')"
    | "kind \<in> {''InsertStmt'', ''UpdateStmt'', ''DeleteStmt''}" "write_ok g schema text kind node s = (True, s')"
    using assms(1) by (auto simp: statement_check_def split: if_splits)
  then show ?thesis
  proof cases
    case 1
    then show ?thesis using create_passes [OF 1(2) assms(2)] assms(3)
      by (auto simp: statement_safe_def statement_kinds_def touched_columns_def loses_data_def)
  next
    case 2
    then show ?thesis using alter_passes [OF 2(2) assms(2,3)] assms(1)
      by (auto simp: statement_safe_def statement_kinds_def touched_columns_def)
  next
    case 3
    then show ?thesis using index_passes [OF 3(2)] quietD [OF quiet_index 3(2)] assms(3)
      by (auto simp: statement_safe_def statement_kinds_def touched_columns_def loses_data_def grows_def)
  next
    case 4
    then show ?thesis using drop_passes [OF 4(2)]
      by (auto simp: statement_safe_def statement_kinds_def touched_columns_def loses_data_def grows_def)
  next
    case 5
    then show ?thesis using quietD [OF quiet_comment 5(2)] assms(3)
      by (auto simp: statement_safe_def statement_kinds_def touched_columns_def loses_data_def grows_def)
  next
    case 6
    then show ?thesis using write_passes [OF 6(2) assms(2) 6(1)] by blast
  qed
qed

section \<open>The decision\<close>

lemma safe_grows:
  assumes "statement_safe g schema tables text kind node" "set tables \<subseteq> set ts"
  shows "statement_safe g schema ts text kind node"
proof -
  have "workspace_table schema tables node \<Longrightarrow> workspace_table schema ts node"
    using assms(2) unfolding workspace_table_def by blast
  moreover have "set rs \<subseteq> set tables \<Longrightarrow> set rs \<subseteq> set ts" for rs
    using assms(2) by blast
  ultimately show ?thesis using assms(1) unfolding statement_safe_def by iprover
qed

definition entry_sound :: "engine \<Rightarrow> string \<Rightarrow> string \<Rightarrow> string list \<Rightarrow> jval \<Rightarrow> migration_statement \<Rightarrow> bool" where
  "entry_sound g schema sql tables raw st \<longleftrightarrow>
     (\<exists>node. stmt_node (statement_root raw) = Some node \<and> mt_kind st = stmt_kind (statement_root raw)
        \<and> statement_safe g schema tables (statement_slice raw sql) (mt_kind st) node
        \<and> (mt_destructive st \<longleftrightarrow> loses_data (mt_kind st) node))"

lemma sound_grows: "entry_sound g schema sql tables raw st \<Longrightarrow> set tables \<subseteq> set ts \<Longrightarrow> entry_sound g schema sql ts raw st"
  unfolding entry_sound_def by (blast intro: safe_grows)

lemma map_sum_Inr: "map_sum f h x = Inr y \<longleftrightarrow> (\<exists>z. x = Inr z \<and> y = h z)"
  by (cases x) auto

lemma statements_pass:
  assumes "check_statements g schema sql i raws tables = Inr (es, ts)"
  shows "set tables \<subseteq> set ts \<and> list_all2 (entry_sound g schema sql ts) raws es"
  using assms
proof (induction g schema sql i raws tables arbitrary: es ts rule: check_statements.induct)
  case (2 g schema sql i raw raws tables)
  let ?kind = "stmt_kind (statement_root raw)" and ?start = "\<lparr>sc_reserved = False, sc_targets = [], sc_tables = tables, sc_destructive = False\<rparr>"
  obtain valid s where s: "(case stmt_node (statement_root raw) of Some node \<Rightarrow> statement_check g schema (statement_slice raw sql) ?kind node ?start
      | None \<Rightarrow> (False, ?start)) = (valid, s)" by fastforce
  note run = "2.prems" [unfolded check_statements.simps Let_def s prod.case]
  have ok: "\<not> sc_reserved s" "valid" using run by (simp_all split: if_splits)
  then obtain es' where es: "es = statement_entry ?kind s # es'"
      "check_statements g schema sql (Suc i) raws (sc_tables s) = Inr (es', ts)"
    using run by (auto simp: map_sum_Inr)
  obtain node where node: "stmt_node (statement_root raw) = Some node"
      "statement_check g schema (statement_slice raw sql) ?kind node ?start = (True, s)"
    using s ok by (auto split: option.splits)
  have IH: "set (sc_tables s) \<subseteq> set ts \<and> list_all2 (entry_sound g schema sql ts) raws es'"
    by (rule "2.IH" [OF refl refl refl s [symmetric] refl ok(1) _ es(2)]) (simp add: ok)
  note passed = kind_passes [OF node(2) ok(1)]
  have kind: "mt_kind (statement_entry ?kind s) = ?kind" "mt_destructive (statement_entry ?kind s) = sc_destructive s"
    by (simp_all add: statement_entry_def)
  have "entry_sound g schema sql ts raw (statement_entry ?kind s)"
    unfolding entry_sound_def kind using node(1) passed IH by (intro exI conjI) (auto elim: safe_grows)
  then show ?case using IH passed by (simp add: es(1)) (metis subset_trans)
qed simp


definition demo_migration :: jval where
  "demo_migration =
    (let text = (\<lambda>t. JObj [(''String'', JObj [(''sval'', JStr t)])]);
         table = (\<lambda>t. JObj [(''relname'', JStr t), (''inh'', JBool True), (''relpersistence'', JStr ''p'')]);
         raw = (\<lambda>kind fs. JObj [(''stmt'', JObj [(kind, JObj fs)])]) in
     JObj [(''stmts'', JArr
       [raw ''CreateStmt'' [(''relation'', table ''notes''),
          (''tableElts'', JArr [JObj [(''ColumnDef'', JObj [(''colname'', JStr ''body''),
             (''typeName'', JObj [(''names'', JArr [text ''text''])])])]]), (''oncommit'', JStr ''ONCOMMIT_NOOP'')],
        raw ''DropStmt'' [(''objects'', JArr [JObj [(''List'', JObj [(''items'', JArr [text ''drafts''])])]]),
          (''removeType'', JStr ''OBJECT_TABLE''), (''behavior'', JStr ''DROP_RESTRICT'')]])])"

definition demo_migration_engine :: engine where
  "demo_migration_engine = \<lparr>eg_parse = (\<lambda>t. Some demo_migration), eg_sha = id\<rparr>"

definition demo_scanner :: scanner where
  "demo_scanner = \<lparr>sn_error = (\<lambda>t. 0), sn_tokens = (\<lambda>t. None)\<rparr>"

definition demo_migration_plan :: migration_plan where
  "demo_migration_plan = \<lparr>mp_statements = [\<lparr>mt_kind = ''CreateStmt'', mt_target = ''notes'', mt_destructive = False\<rparr>,
     \<lparr>mt_kind = ''DropStmt'', mt_target = ''drafts'', mt_destructive = True\<rparr>], mp_destructive = True, mp_tables = [''drafts'', ''notes'']\<rparr>"


end
