(* ===== verification/Migrations.thy ===== *)
theory Migrations
  imports MigrationProps Approvals
begin

text \<open>\<open>schema/execute-migration.ts\<close>, \<open>workspace-contract.ts\<close>, \<open>preview-migration.ts\<close>,
  \<open>apply-migration.ts\<close> and \<open>rebuild-migration-projection.ts\<close>: a Migration is executed statement by
  statement between two checks of the attribution contract; a preview rolls it back and leaves an audit
  event; an apply is a compare-and-swap on the revision that names that event.\<close>

section \<open>The schema of a Workspace\<close>

text \<open>What the services read of the catalog: the relations with their oids, the shape
  \<open>verifyContract\<close> checks, the defaults, the columns; and what they execute: the roles, schema and
  grants before a Migration, a statement under \<open>bp_executor\<close>, the columns and trigger of the
  contract.  \<open>md_locks\<close>: the relation locks the transaction holds.  \<open>md_collate\<close>: the collation key of
  \<open>localeCompare\<close>.\<close>

record class_row =
  cl_oid :: nat
  cl_name :: string
  cl_kind :: string
  cl_table :: "string option"

record relation_shape =
  sh_kind :: string
  sh_owner :: string
  sh_persistence :: string
  sh_attribution :: nat
  sh_generated :: bool
  sh_triggers :: nat
  sh_stamp :: bool
  sh_rules :: bool
  sh_policies :: bool

record 'w migration_db =
  md_prepare :: "bound_context \<Rightarrow> string \<Rightarrow> 'w \<Rightarrow> problem + 'w"
  md_shapes :: "'w \<Rightarrow> string \<Rightarrow> relation_shape list"
  md_defaults :: "'w \<Rightarrow> string \<Rightarrow> string list"
  md_classes :: "'w \<Rightarrow> string \<Rightarrow> class_row list"
  md_statement :: "string \<Rightarrow> string \<Rightarrow> 'w \<Rightarrow> problem + 'w"
  md_locks :: "'w \<Rightarrow> (nat \<times> string) list"
  md_columns :: "'w \<Rightarrow> string \<Rightarrow> string \<Rightarrow> string list"
  md_occupied :: "'w \<Rightarrow> string \<Rightarrow> string \<Rightarrow> bool"
  md_stamped :: "'w \<Rightarrow> string \<Rightarrow> string \<Rightarrow> bool"
  md_add_column :: "string \<Rightarrow> string \<Rightarrow> string \<Rightarrow> 'w \<Rightarrow> problem + 'w"
  md_create_stamp :: "string \<Rightarrow> string \<Rightarrow> 'w \<Rightarrow> problem + 'w"
  md_enable_stamp :: "string \<Rightarrow> string \<Rightarrow> 'w \<Rightarrow> problem + 'w"
  md_grant :: "string \<Rightarrow> string \<Rightarrow> 'w \<Rightarrow> problem + 'w"
  md_collate :: "string \<Rightarrow> string"

record migration_env =
  me_engine :: engine
  me_scanner :: scanner
  me_now :: time

section \<open>The attribution contract\<close>

fun add_columns :: "'w migration_db \<Rightarrow> string \<Rightarrow> string \<Rightarrow> string list \<Rightarrow> 'w \<Rightarrow> problem + 'w" where
  "add_columns md schema table [] w = Inr w"
| "add_columns md schema table (n # ns) w = ebind (md_add_column md schema table n w) (add_columns md schema table ns)"

definition install_contract :: "'w migration_db \<Rightarrow> string \<Rightarrow> string \<Rightarrow> 'w \<Rightarrow> problem + 'w" where
  "install_contract md schema table w =
     (let missing = filter (\<lambda>n. n \<notin> set (md_columns md w schema table)) [''principal_id'', ''run_id''] in
      guardE (missing \<noteq> [] \<and> md_occupied md w schema table) (Other ''workspace_contract_invalid'') (
      ebind (add_columns md schema table missing w) (\<lambda>w1.
      ebind (if md_stamped md w1 schema table then Inr w1 else md_create_stamp md schema table w1) (\<lambda>w2.
      ebind (md_enable_stamp md schema table w2) (md_grant md schema table)))))"

definition shape_valid :: "relation_shape \<Rightarrow> bool" where
  "shape_valid r \<longleftrightarrow> sh_kind r = ''r'' \<and> sh_owner r = ''bp_executor'' \<and> sh_persistence r = ''p'' \<and> sh_attribution r = 2
     \<and> \<not> sh_generated r \<and> sh_triggers r = 1 \<and> sh_stamp r \<and> \<not> sh_rules r \<and> \<not> sh_policies r"

definition contract_holds :: "migration_env \<Rightarrow> 'w migration_db \<Rightarrow> string \<Rightarrow> 'w \<Rightarrow> bool" where
  "contract_holds E md schema w \<longleftrightarrow>
     list_all shape_valid (filter (\<lambda>r. sh_kind r \<in> {''r'', ''p'', ''v'', ''m'', ''f''}) (md_shapes md w schema))
     \<and> list_all (\<lambda>e. \<not> isl (migration_policy (me_engine E) (me_scanner E)
          (''ALTER TABLE contract_check ALTER COLUMN value SET DEFAULT '' @ e) schema)) (md_defaults md w schema)"

definition verify_contract :: "migration_env \<Rightarrow> 'w migration_db \<Rightarrow> string \<Rightarrow> 'w \<Rightarrow> problem + unit" where
  "verify_contract E md schema w = guardE (\<not> contract_holds E md schema w) (Other ''workspace_contract_invalid'') (Inr ())"

section \<open>Execution\<close>

text \<open>The indexes a statement drops or comments on.\<close>

definition last_item :: "jval \<Rightarrow> string option" where
  "last_item target = (case Option.bind (jfield ''List'' target) (jfield ''items'') of
     Some (JArr xs) \<Rightarrow> (if xs = [] then None else Option.bind (jfield ''String'' (last xs)) (\<lambda>t. Option.bind (jfield ''sval'' t) jstring))
   | _ \<Rightarrow> None)"

definition index_targets :: "jval \<Rightarrow> string list" where
  "index_targets raw =
     (let drops = jfield ''DropStmt'' (statement_root raw); comment = jfield ''CommentStmt'' (statement_root raw);
          index = (\<lambda>k v. case v of Some d \<Rightarrow> jfield k d = Some (JStr ''OBJECT_INDEX'') | None \<Rightarrow> False);
          targets = (if index ''removeType'' drops then (case Option.bind drops (jfield ''objects'') of Some (JArr xs) \<Rightarrow> xs | _ \<Rightarrow> [])
            else if index ''objtype'' comment then (case Option.bind comment (jfield ''object'') of Some x \<Rightarrow> [x] | None \<Rightarrow> [])
            else []) in
      List.map_filter last_item targets)"

record 'w migration_run =
  mr_world :: 'w
  mr_names :: "(nat \<times> string) list"
  mr_tables :: "string list"
  mr_locks :: "(string \<times> string list) list"

definition name_all :: "class_row list \<Rightarrow> (nat \<times> string) list \<Rightarrow> (nat \<times> string) list" where
  "name_all cs known = fold (\<lambda>c. AList.update (cl_oid c) (cl_name c)) cs known"

fun install_new :: "'w migration_db \<Rightarrow> string \<Rightarrow> nat list \<Rightarrow> class_row list \<Rightarrow> 'w \<Rightarrow> problem + 'w" where
  "install_new md schema old [] w = Inr w"
| "install_new md schema old (c # cs) w =
     ebind (if cl_kind c = ''r'' \<and> cl_oid c \<notin> set old then install_contract md schema (cl_name c) w else Inr w)
       (install_new md schema old cs)"

definition hold_lock :: "(nat \<times> string) list \<Rightarrow> nat \<times> string \<Rightarrow> (string \<times> string list) list \<Rightarrow> (string \<times> string list) list" where
  "hold_lock known l locks = (case map_of known (fst l) of
     None \<Rightarrow> locks
   | Some r \<Rightarrow> AList.update r (List.insert (snd l) (case map_of locks r of None \<Rightarrow> [] | Some ms \<Rightarrow> ms)) locks)"

definition run_statement ::
  "'w migration_db \<Rightarrow> string \<Rightarrow> string \<Rightarrow> jval \<Rightarrow> string \<Rightarrow> 'w migration_run \<Rightarrow> problem + 'w migration_run" where
  "run_statement md schema sql raw kind r =
     (let old = md_classes md (mr_world r) schema;
          known = name_all old (mr_names r);
          indexed = List.map_filter (\<lambda>n. Option.bind (find (\<lambda>c. cl_name c = n) old) cl_table) (index_targets raw) in
      ebind (md_statement md schema (statement_slice raw sql) (mr_world r)) (\<lambda>w1.
      let rows = md_classes md w1 schema; known' = name_all rows known in
      ebind (if kind = ''CreateStmt'' then install_new md schema (map cl_oid old) rows w1 else Inr w1) (\<lambda>w2.
        Inr \<lparr>mr_world = w2, mr_names = known', mr_tables = fold List.insert (filter (\<lambda>t. t \<noteq> '''') indexed) (mr_tables r),
             mr_locks = fold (hold_lock known') (md_locks md w2) (mr_locks r)\<rparr>)))"

fun run_statements ::
  "'w migration_db \<Rightarrow> string \<Rightarrow> string \<Rightarrow> (jval \<times> string) list \<Rightarrow> 'w migration_run \<Rightarrow> problem + 'w migration_run" where
  "run_statements md schema sql [] r = Inr r"
| "run_statements md schema sql ((raw, kind) # rs) r = ebind (run_statement md schema sql raw kind r) (run_statements md schema sql rs)"

record migration_facts =
  mf_tables :: "string list"
  mf_locks :: "(string \<times> string list) list"

text \<open>The elapsed time is measured, not modelled.\<close>

definition execute_migration ::
  "migration_env \<Rightarrow> 'w migration_db \<Rightarrow> bound_context \<Rightarrow> string \<Rightarrow> string \<Rightarrow> migration_plan \<Rightarrow> 'w \<Rightarrow> problem + (migration_facts \<times> 'w)" where
  "execute_migration E md b schema sql plan w =
     ebind (md_prepare md b schema w) (\<lambda>w1.
     ebind (verify_contract E md schema w1) (\<lambda>u.
     ebind (of_option (Other ''migration_unavailable'') (eg_parse (me_engine E) sql)) (\<lambda>parsed.
     ebind (run_statements md schema sql (zip (parsed_statements parsed) (map mt_kind (mp_statements plan) @ replicate (length (parsed_statements parsed)) []))
         \<lparr>mr_world = w1, mr_names = [], mr_tables = mp_tables plan, mr_locks = []\<rparr>) (\<lambda>r.
     ebind (verify_contract E md schema (mr_world r)) (\<lambda>u.
       Inr (\<lparr>mf_tables = sort (mr_tables r), mf_locks = map (\<lambda>(n, ms). (n, sort ms)) (sort_key (\<lambda>l. md_collate md (fst l)) (mr_locks r))\<rparr>,
            mr_world r))))))"

section \<open>Failures\<close>

definition migration_failure :: "bool \<Rightarrow> problem \<Rightarrow> tx_failure" where
  "migration_failure applying e =
     (let code = sql_state_code (problem_sqlstate e); m = problem_message e in
      case refusal e of
        Some r \<Rightarrow> r
      | None \<Rightarrow>
          if applying \<and> (case e of Gate g t \<Rightarrow> approval_status (fst (approval_error e)) \<in> {404, 409, 422} | _ \<Rightarrow> False)
          then sql_failed (approval_status (fst (approval_error e))) (fst (approval_error e)) None
          else if m = ''revision_stale'' then sql_failed 409 m None
          else if applying \<and> m = ''preview_mismatch'' then sql_failed 409 m None
          else if m = ''workspace_contract_invalid'' then sql_failed 422 m None
          else if code = Some ''57014'' then sql_failed 408 ''sql_statement_timeout'' code
          else if code = Some ''55P03'' then sql_failed 408 ''sql_lock_timeout'' code
          else if code = Some ''25P04'' then sql_failed 408 ''sql_transaction_timeout'' code
          else if code \<noteq> None then sql_failed 422 ''migration_error'' code
          else sql_failed 503 ''migration_unavailable'' None)"

definition migration_refused :: "string \<Rightarrow> problem" where
  "migration_refused m = Refused (sql_failed 422 m None)"

section \<open>Preview\<close>

record preview_input =
  pi_name :: string
  pi_sql :: string
  pi_expected :: int
  pi_confirm :: bool

record preview_response =
  pr_revision :: int
  pr_hash :: string
  pr_position :: nat
  pr_statements :: "migration_statement list"
  pr_destructive :: bool
  pr_locks :: "(string \<times> string list) list"

text \<open>The checks both services make of the plan, in order.\<close>

definition check_plan :: "string \<Rightarrow> bool \<Rightarrow> (string \<times> nat) + migration_plan \<Rightarrow> problem + migration_plan" where
  "check_plan sql confirmed plan =
     (if 65536 < octets sql then Inl (migration_refused ''invalid_input'')
      else (case plan of
          Inl (e, i) \<Rightarrow> Inl (Refused ((sql_failed 422 e None)\<lparr>tf_index := Some i\<rparr>))
        | Inr p \<Rightarrow> if mp_destructive p \<and> \<not> confirmed then Inl (migration_refused ''migration_destructive_unflagged'') else Inr p))"

definition migration_metadata :: "int \<Rightarrow> string \<Rightarrow> bool \<Rightarrow> (string \<times> jval) list" where
  "migration_metadata revision hash destructive =
     [(''revision'', JInt revision), (''sqlHash'', JStr hash), (''destructive'', JBool destructive), (''policyVersion'', JInt 1)]"

definition preview_in ::
  "migration_env \<Rightarrow> 'w migration_db \<Rightarrow> run_context \<Rightarrow> preview_input \<Rightarrow> bound_context \<Rightarrow> 'w platform \<Rightarrow> problem + (preview_response \<times> 'w platform)" where
  "preview_in E md c q b s =
     (let schema = schema_of (ctx_ws c); hash = eg_sha (me_engine E) (pi_sql q) in
      guardE (int (current_revision s (ctx_ws c)) \<noteq> pi_expected q) (Other ''revision_stale'') (
      ebind (check_plan (pi_sql q) (pi_confirm q) (migration_policy (me_engine E) (me_scanner E) (pi_sql q) schema)) (\<lambda>plan.
      ebind (execute_migration E md b schema (pi_sql q) plan (pl_world s)) (\<lambda>(facts, w).
        case emit_on (me_now E) b ''migration.previewed'' (mf_tables facts) (Some (int (length (mp_statements plan))))
            (migration_metadata (pi_expected q) hash (mp_destructive plan)) s of
          (n, s1) \<Rightarrow> Inr (\<lparr>pr_revision = pi_expected q, pr_hash = hash, pr_position = n, pr_statements = mp_statements plan,
              pr_destructive = mp_destructive plan, pr_locks = mf_locks facts\<rparr>, s1)))))"

definition preview_migration ::
  "migration_env \<Rightarrow> 'w migration_db \<Rightarrow> run_context \<Rightarrow> preview_input \<Rightarrow> 'w platform \<Rightarrow> (tx_failure + preview_response) \<times> 'w platform" where
  "preview_migration E md c q s =
     (case with_platform (me_now E) c (preview_in E md c q) id s of
        Inr (r, s') \<Rightarrow> (Inr r, s')
      | Inl e \<Rightarrow> (let f = migration_failure False e in
          (Inl f, reject_on (me_now E) c ''migration.previewed'' [] (tf_error f) (tf_sqlstate f) s)))"

section \<open>Apply\<close>

definition preview_event :: "'w platform \<Rightarrow> run_context \<Rightarrow> apply_input \<Rightarrow> string \<Rightarrow> bool \<Rightarrow> bool" where
  "preview_event s c q hash destructive \<longleftrightarrow>
     list_ex (\<lambda>e. ae_ws e = ctx_ws c \<and> ae_position e = ay_preview q \<and> ae_kind e = ''migration.previewed'' \<and> ae_principal e = ctx_principal c
         \<and> list_all (\<lambda>f. map_of (ae_metadata e) (fst f) = Some (snd f)) (migration_metadata (ay_expected q) hash destructive))
       (bp_events (pl_server s))"

text \<open>A row gate on a table the Migration touches, or on the table of an index it touches.\<close>

definition gate_conflict :: "'w migration_db \<Rightarrow> 'w platform \<Rightarrow> uuid \<Rightarrow> string list \<Rightarrow> bool" where
  "gate_conflict md s w touched \<longleftrightarrow>
     list_ex (\<lambda>c. cl_name c \<in> set touched
         \<and> enabled_gate s w ''row'' (schema_of w @ ''.'' @ (case cl_table c of Some t \<Rightarrow> t | None \<Rightarrow> cl_name c)) \<noteq> None)
       (md_classes md (pl_world s) (schema_of w))"

definition white :: "char \<Rightarrow> bool" where
  "white c \<longleftrightarrow> c \<in> {CHR '' '', CHR 0x09, CHR 0x0A, CHR 0x0B, CHR 0x0C, CHR 0x0D}"

definition trim_white :: "string \<Rightarrow> string" where
  "trim_white t = rev (dropWhile white (rev (dropWhile white t)))"

definition code_points :: "string \<Rightarrow> nat" where
  "code_points t = length (filter (\<lambda>c. of_char c div 64 \<noteq> (2::nat)) t)"

text \<open>The INSERT with the constraints on the name and the revision.\<close>

definition insert_migration :: "migration_row \<Rightarrow> 'w platform \<Rightarrow> problem + 'w platform" where
  "insert_migration m s =
     guardE (trim (mg_name m) = [] \<or> 120 < code_points (trim (mg_name m)) \<or> mg_revision m = 0 \<or> mg_statements m = 0 \<or> 100 < mg_statements m)
       (Pg ''23514'' None) (
     guardE (mg_revision m \<in> mg_revision ` set (ledger_of (pl_migrations s) (mg_ws m))) (Pg ''23505'' (Some ''workspace_migrations_pkey''))
       (Inr (s\<lparr>pl_migrations := pl_migrations s @ [m]\<rparr>)))"

definition consume_for_apply :: "migration_env \<Rightarrow> bound_context \<Rightarrow> run_context \<Rightarrow> apply_input \<Rightarrow> string \<Rightarrow> 'w platform \<Rightarrow> problem + 'w platform" where
  "consume_for_apply E b c q hash s =
     (let gate = migration_target s (ctx_ws c) in
      guardE (mt_epoch gate \<noteq> None \<and> ay_approval q = None)
        (Refused ((sql_failed 422 ''approval_required'' None)\<lparr>tf_target := Some (JObj [(''targetKind'', JStr ''migration''),
           (''targetId'', JStr hash), (''targetVersion'', JStr (int_text (ay_expected q)))])\<rparr>)) (
      case ay_approval q of
        None \<Rightarrow> Inr s
      | Some i \<Rightarrow> consume_migration_approval (me_now E) b c q i gate s))"

definition apply_in ::
  "migration_env \<Rightarrow> 'w migration_db \<Rightarrow> run_context \<Rightarrow> apply_input \<Rightarrow> bound_context \<Rightarrow> 'w platform \<Rightarrow> problem + (migration_row \<times> 'w platform)" where
  "apply_in E md c q b s =
     (let w = ctx_ws c; schema = schema_of w; hash = eg_sha (me_engine E) (ay_sql q) in
      ebind (case migration_revision_policy (nat_text (current_revision s w)) (ay_expected q) of Some r \<Rightarrow> Inl (Other r) | None \<Rightarrow> Inr ()) (\<lambda>u.
      ebind (check_plan (ay_sql q) (ay_confirm q) (migration_policy (me_engine E) (me_scanner E) (ay_sql q) schema)) (\<lambda>plan.
      guardE (ay_hash q \<noteq> hash \<or> 9223372036854775807 < int (ay_preview q) \<or> \<not> preview_event s c q hash (mp_destructive plan)) (Other ''preview_mismatch'') (
      ebind (of_option (Other ''migration_unavailable'') (eg_parse (me_engine E) (ay_sql q))) (\<lambda>parsed.
      guardE (gate_conflict md s w (mp_tables plan @ filter (\<lambda>t. t \<noteq> '''') (concat (map index_targets (parsed_statements parsed)))))
        (migration_refused ''approval_gate_conflict'') (
      ebind (consume_for_apply E b c q hash s) (\<lambda>s1.
      ebind (execute_migration E md b schema (ay_sql q) plan (pl_world s1)) (\<lambda>(facts, world).
      let m = \<lparr>mg_ws = w, mg_revision = nat (ay_expected q + 1), mg_name = trim_white (ay_name q), mg_sql = ay_sql q, mg_hash = hash,
               mg_statements = length (mp_statements plan), mg_destructive = mp_destructive plan,
               mg_by = (case ctx_principal c of Some p \<Rightarrow> p | None \<Rightarrow> 0), mg_run = (case ctx_run c of Some r \<Rightarrow> r | None \<Rightarrow> 0), mg_at = me_now E\<rparr> in
      ebind (insert_migration m (s1\<lparr>pl_world := world\<rparr>)) (\<lambda>s2.
        Inr (m, snd (emit_on (me_now E) b ''migration.applied'' (mf_tables facts) (Some (int (length (mp_statements plan))))
          (migration_metadata (ay_expected q + 1) hash (mp_destructive plan)) s2)))))))))))"

definition apply_migration ::
  "migration_env \<Rightarrow> 'w migration_db \<Rightarrow> run_context \<Rightarrow> apply_input \<Rightarrow> 'w platform \<Rightarrow> (tx_failure + migration_row) \<times> 'w platform" where
  "apply_migration E md c q s =
     (case with_platform (me_now E) c (apply_in E md c q) id s of
        Inr (r, s') \<Rightarrow> (Inr r, s')
      | Inl e \<Rightarrow> (let f = migration_failure True e in
          (Inl f, reject_on (me_now E) c ''migration.applied'' [] (tf_error f) (tf_sqlstate f) s)))"

section \<open>The projection request\<close>

text \<open>A User asks for the projection; the request is audited before the projection runs.\<close>

definition projection_requested :: "time \<Rightarrow> run_context \<Rightarrow> 'w platform \<Rightarrow> (string + unit) \<times> 'w platform" where
  "projection_requested now c s =
     (let allowed = (\<lambda>t. case ctx_user c of None \<Rightarrow> False | Some u \<Rightarrow> query_workspace_access (bp_ctl (pl_server t)) u (Some (ctx_ws c))) in
      case with_platform now c (\<lambda>b s1. if \<not> allowed s1 then Inl (Other ''workspace_forbidden'')
          else Inr ((), snd (emit_on now b ''migration.projection_requested'' [] (Some 0) [] s1))) id s of
        Inr (u, s') \<Rightarrow> (Inr (), s')
      | Inl e \<Rightarrow> if e = Other ''workspace_forbidden''
          then (Inl ''workspace_forbidden'', reject_on now c ''migration.projection_requested'' [] ''workspace_forbidden'' None s)
          else (Inl ''projection_unavailable'', s))"

end
