(* ===== verification/ApprovalProps.thy ===== *)
theory ApprovalProps
  imports TransactionProps Migrations
begin

text \<open>Approvals over all sequences of services: decided once, consumed once and only when approved; a
  gated write consumes one; a decision has its authority.\<close>

section \<open>Every service only advances Approvals\<close>

lemma sound_server: "pl_approvals s1 = pl_approvals s \<Longrightarrow> pl_next s1 = pl_next s \<Longrightarrow> sound s1 t \<Longrightarrow> sound s t"
  using sound_same [of s1 s] sound_trans by fastforce

lemma sound_reject: "sound s (reject_on now c k os e t s)"
  by (rule sound_same) (simp_all add: reject_on_def)

lemma with_platform_sound:
  assumes "with_platform now c work wrap s = Inr (x, s')" "\<And>b s1. work b s1 = Inr (x, s') \<Longrightarrow> sound s1 s'"
  shows "sound s s'"
proof -
  obtain b where "work b (s\<lparr>pl_server := touch_run now (ctx_run c) (lock_workspace (ctx_ws c) (pl_server s))\<rparr>) = Inr (x, s')"
    using with_platform_cases [OF assms(1)] by blast
  from assms(2) [OF this] show ?thesis by (rule sound_server [rotated 2]) simp_all
qed

lemma approval_write_sound:
  assumes "\<And>b s1 x s'. work b s1 = Inr (x, s') \<Longrightarrow> sound s1 s'"
  shows "sound s (snd (approval_write now c k os work s))"
proof (cases "with_platform now c work id s")
  case (Inr p)
  then show ?thesis using with_platform_sound [of now c work id s "fst p" "snd p"] assms by (auto simp: approval_write_def split: prod.splits)
next
  case (Inl e)
  then show ?thesis by (auto simp: approval_write_def sound_reject split: prod.splits)
qed

lemma sound_emit: "sound s (snd (emit_on now b k os r m s))"
  by (rule sound_same) simp_all

lemma sound_emit_after: "sound s t \<Longrightarrow> sound s (snd (emit_on now b k os r m t))"
  using sound_emit sound_trans by blast

lemma sound_server_after: "sound s t \<Longrightarrow> sound s (t\<lparr>pl_server := x\<rparr>)"
  using sound_same [of "t\<lparr>pl_server := x\<rparr>" t] sound_trans by fastforce

lemma new_approval_fresh: "ap_id (new_approval now i c t ttl) = i" "row_sound (new_approval now i c t ttl)"
  by (simp_all add: new_approval_def row_sound_def)

lemma some_Inr: "(case v of None \<Rightarrow> Inl e | Some r \<Rightarrow> f r) = Inr y \<longleftrightarrow> (\<exists>r. v = Some r \<and> f r = Inr y)"
  by (cases v) auto

lemma none_Inr: "(case v of None \<Rightarrow> x | Some r \<Rightarrow> Inl (g r)) = Inr y \<longleftrightarrow> v = None \<and> x = Inr y"
  by (cases v) auto

lemma version_Inr: "(case v of Some (cur, st, Some x) \<Rightarrow> f x | _ \<Rightarrow> Inl e) = Inr y \<longleftrightarrow> (\<exists>cur st x. v = Some (cur, st, Some x) \<and> f x = Inr y)"
  by (cases v) (auto split: option.splits)

lemma request_message_sound: "request_message_in E c d receipt ttl b s = Inr (x, s') \<Longrightarrow> sound s s'"
  by (auto simp: request_message_in_def ebind_Inr_iff Let_def new_approval_fresh version_Inr
      intro!: sound_emit_after intro: sound_trans [OF on_server_sound sound_insert [OF _ _ new_approval_fresh(2)]])

lemma request_target_sound: "request_target_in E db c q b s = Inr (x, s') \<Longrightarrow> sound s s'"
  by (auto simp: request_target_in_def ebind_Inr_iff Let_def new_approval_fresh
      intro!: sound_emit_after intro: sound_insert [OF _ _ new_approval_fresh(2)])

lemma request_approval_sound: "sound s (snd (request_approval E db c q s))"
  by (cases q) (auto simp: request_approval_def intro!: approval_write_sound dest: request_message_sound request_target_sound)

lemma policy_writes_sound:
  "set_gate_in E db c k sel en b s = Inr (g, s1) \<Longrightarrow> sound s s1"
  "set_settings_in E c allow b s = Inr (x, s2) \<Longrightarrow> sound s s2"
  "set_delegation_for E c p en b s = Inr (y, s3) \<Longrightarrow> sound s s3"
  by (auto simp: set_gate_in_def set_settings_in_def set_delegation_for_def ebind_Inr_iff Let_def split_beta
      split: option.splits if_splits intro!: sound_emit_after sound_same)

lemma decision_target_Inr:
  assumes "decision_target E db c i s = Inr (delegate, a)"
  shows "\<exists>owner facts. decider c s = Inr delegate \<and> find_approval s (ctx_ws c) i = Some a \<and> run_owner s (ap_run a) = Some owner
    \<and> ap_decision a = None \<and> ae_now E < ap_expires a \<and> target_facts E db s a = Inr facts
    \<and> decision_policy \<lparr>df_kind = ap_kind a, df_decided = False, df_expired = False,
       df_current = fst facts, df_state = fst (snd facts), df_version = ap_version a, df_held = snd (snd facts), df_self = self_allowed s (ctx_ws c),
       df_principal = ctx_principal c, df_by = ap_by a, df_run_principal = owner\<rparr> = None"
  using assms
  by (auto simp: decision_target_def ebind_Inr_iff some_Inr none_Inr bind_eq_Some_conv not_le)

lemma release_approved_Inr:
  assumes "release_approved E c verdict a b s = Inr (released, s')"
  shows "released \<noteq> None \<longleftrightarrow> verdict = ''approve'' \<and> ap_kind a = ''message''"
    and "pl_approvals s' = pl_approvals s" "pl_next s' = pl_next s"
  using assms by (auto simp: release_approved_def ebind_Inr_iff split: if_splits dest: on_server_frame)

lemma decide_in_sound:
  assumes "decide_in E db c i verdict reason b s = Inr (released, s')"
  shows "sound s s'"
proof -
  obtain delegate a s1 n k os m where t: "decision_target E db c i s = Inr (delegate, a)" "release_approved E c verdict a b s = Inr (released, s1)"
    and v: "verdict \<in> {''approve'', ''reject''}"
    and s': "s' = put_approval (a\<lparr>ap_decision := Some verdict, ap_reason := Some reason, ap_position := Some n, ap_released := released\<rparr>)
      (snd (emit_on (ae_now E) b k os (Some 1) m s1))"
    using assms by (auto simp: decide_in_def ebind_Inr_iff split_beta)
  have a: "find_approval s (ctx_ws c) i = Some a" "ap_decision a = None" using decision_target_Inr [OF t(1)] by auto
  show ?thesis unfolding s' using a v release_approved_Inr [OF t(2)]
    by (intro sound_put [OF a(1)]) (auto simp: advanced_def row_sound_def)
qed

section \<open>All sequences\<close>

inductive platform_step :: "'w platform \<Rightarrow> 'w platform \<Rightarrow> bool" where
  request: "platform_step s (snd (request_approval E db c q s))"
| decide: "platform_step s (snd (decide_approval E db c i verdict reason s))"
| gate: "platform_step s (snd (set_gate E db c kind selector enabled s))"
| settings: "platform_step s (snd (set_settings E c allow s))"
| delegation: "platform_step s (snd (set_delegation E c p enabled s))"
| sql: "platform_step s (snd (execute_sql g cr now db c q s))"
| handoff: "platform_step s (snd (execute_transaction F db c t s))"
| preview: "platform_step s (snd (preview_migration M md c x s))"
| apply_step: "platform_step s (snd (apply_migration M md (Principal_context v p r h) y s))"
| projection: "platform_step s (snd (projection_requested now c s))"
| elsewhere: "platform_step s (s\<lparr>pl_server := b, pl_world := w\<rparr>)"

lemma execute_sql_sound: "sound s (snd (execute_sql g cr now db c q s))"
proof (cases "prepare_sql g (uuid_text (ctx_ws c)) q")
  case (Inr p)
  let ?work = "\<lambda>b s1. ebind (meter_on Sql_statement_bytes (octets (si_statement q)) None (quota_accounting now c (pl_server s1))) (\<lambda>m.
                  ebind (execute_sql_in g cr now db b c p 0 s1) (\<lambda>(r, s2).
                  ebind (meter_on Sql_rows (sp_count r) None m) (\<lambda>m'. Inr (r, commit_on m' s2))))"
  have "sound s s'" if "with_platform now c ?work id s = Inr (r, s')" for r s'
    using that
    by (rule with_platform_sound) (auto simp: ebind_Inr_iff commit_on_def dest: execute_sql_in_sound intro: sound_server_after)
  then show ?thesis using Inr sound_reject by (auto simp: execute_sql_def Let_def split: sum.splits)
qed (simp add: execute_sql_def sound_reject)

lemma store_receipt_sound: "store_receipt cr r s = Inr s' \<Longrightarrow> sound s s'"
  by (rule sound_same) (auto simp: store_receipt_def)

lemma transaction_in_sound: "transaction_in F db c t plan hash b s = Inr (r, s') \<Longrightarrow> sound s s'"
  by (auto simp: transaction_in_def ebind_Inr_iff Let_def split_beta split: option.splits if_splits
      dest!: run_operations_frame store_receipt_sound intro: sound_trans [OF sound_emit_after [OF sound_server_after]] simp: commit_on_def)

lemma execute_transaction_sound: "sound s (snd (execute_transaction F db c t s))"
proof (cases "transaction_attempt F db c t s")
  case (Inr x)
  then obtain plan hash where "with_platform (te_now F) c (transaction_in F db c t plan hash) (\<lambda>e. (e, None)) s = Inr (fst x, snd x)"
    by (auto simp: transaction_attempt_def split: sum.splits prod.splits option.splits)
  then have "sound s (snd x)" by (rule with_platform_sound) (rule transaction_in_sound)
  then show ?thesis using Inr by (cases x) (simp add: execute_transaction_def)
qed (auto simp: execute_transaction_def sound_reject Let_def)

lemma preview_in_sound: "preview_in E md c q b s = Inr (r, s') \<Longrightarrow> sound s s'"
  by (auto simp: preview_in_def Let_def ebind_Inr_iff split_beta intro: sound_emit)

lemma preview_migration_sound: "sound s (snd (preview_migration E md c q s))"
  by (auto simp: preview_migration_def Let_def sound_reject split: sum.splits
      intro: with_platform_sound [where now = "me_now E" and c = c and work = "preview_in E md c q" and wrap = id] preview_in_sound)

lemma consume_migration_sound:
  assumes "consume_migration_approval now b c q i gate s = Inr s'"
  shows "sound s s'"
proof -
  obtain a where a: "find_approval s (ctx_ws c) i = Some a"
      "migration_consumption_policy now gate q (case ctx_principal c of Some p \<Rightarrow> p | None \<Rightarrow> 0) (Some a) = None"
    using assms by (auto simp: consume_migration_approval_def Let_def split: option.splits)
  then obtain n k os m where s': "s' = put_approval (a\<lparr>ap_consumed := Some n\<rparr>) (snd (emit_on now b k os (Some 1) m s))"
    using assms by (auto simp: consume_migration_approval_def split_beta)
  show ?thesis unfolding s' using a
    by (intro sound_put [OF a(1)])
      (auto simp: advanced_def row_sound_def migration_consumption_policy_def split: option.splits if_splits)
qed

lemma apply_in_sound: "apply_in E md c q b s = Inr (r, s') \<Longrightarrow> sound s s'"
  by (auto simp: apply_in_def consume_for_apply_def insert_migration_def Let_def ebind_Inr_iff split_beta split: option.splits
      dest!: consume_migration_sound intro!: sound_emit_after intro: sound_same sound_trans [OF _ sound_same])

lemma apply_migration_sound: "sound s (snd (apply_migration E md c q s))"
  by (auto simp: apply_migration_def Let_def sound_reject split: sum.splits
      intro: with_platform_sound [where now = "me_now E" and c = c and work = "apply_in E md c q" and wrap = id] apply_in_sound)

lemma projection_sound: "sound s (snd (projection_requested now c s))"
  by (auto simp: projection_requested_def Let_def sound_reject split: sum.splits if_splits
      elim!: with_platform_sound intro: sound_emit)

lemma platform_step_sound: "platform_step s s' \<Longrightarrow> sound s s'"
  by (induction rule: platform_step.induct)
    (auto simp: decide_approval_def set_gate_def set_settings_def set_delegation_def
      intro: preview_migration_sound apply_migration_sound projection_sound request_approval_sound execute_sql_sound execute_transaction_sound approval_write_sound decide_in_sound policy_writes_sound sound_same)

lemma platform_steps_sound: "platform_step\<^sup>*\<^sup>* s s' \<Longrightarrow> sound s s'"
  by (induction rule: rtranclp_induct) (auto intro: sound_trans platform_step_sound)

lemma keyed_filter:
  assumes "keyed_rows s" "b \<in> set (pl_approvals s)"
  shows "filter (\<lambda>x. approval_key x = approval_key b) (pl_approvals s) = [b]"
proof -
  have "filter (\<lambda>x. approval_key x = approval_key b) xs = [b]" if "distinct (map approval_key xs)" "b \<in> set xs" for xs
    using that by (induction xs) (auto simp: filter_empty_conv image_iff)
  then show ?thesis using assms by (simp add: keyed_rows_def)
qed

text \<open>C21: an Approval is settled once.  Over every sequence of services from a server without
  Approvals, a row stays, alone under its key and bound to the same action, a decision and a consumption
  once made are never changed, and only an approved row or Migration is ever consumed.\<close>

theorem approval_settled_once:
  assumes "platform_step\<^sup>*\<^sup>* s0 s" "pl_approvals s0 = []" "platform_step\<^sup>*\<^sup>* s s'" "a \<in> set (pl_approvals s)"
  shows "\<exists>b. filter (\<lambda>x. (ap_ws x, ap_id x) = (ap_ws a, ap_id a)) (pl_approvals s') = [b]
    \<and> (ap_kind b, ap_target b, ap_version b, ap_by b, ap_hash b, ap_epoch b, ap_expires b)
        = (ap_kind a, ap_target a, ap_version a, ap_by a, ap_hash a, ap_epoch a, ap_expires a)
    \<and> (ap_decision a \<noteq> None \<longrightarrow> (ap_decision b, ap_reason b, ap_position b, ap_released b) = (ap_decision a, ap_reason a, ap_position a, ap_released a))
    \<and> (ap_consumed a \<noteq> None \<longrightarrow> ap_consumed b = ap_consumed a)
    \<and> (ap_consumed b \<noteq> None \<longrightarrow> ap_kind b \<in> {''row'', ''migration''} \<and> ap_decision b = Some ''approve'')"
proof -
  have "approvals_ok s0" using assms(2) by (simp add: approvals_ok_def keyed_rows_def)
  then have "approvals_ok s" using platform_steps_sound [OF assms(1)] by (simp add: sound_def)
  then have ok: "approvals_ok s'" and adv: "advance (pl_approvals s) (pl_approvals s')"
    using platform_steps_sound [OF assms(3)] by (simp_all add: sound_def)
  obtain b where b: "b \<in> set (pl_approvals s')" "advanced a b" using adv assms(4) by (auto simp: advance_def)
  have "filter (\<lambda>x. approval_key x = approval_key a) (pl_approvals s') = [b]"
    using keyed_filter [OF _ b(1)] ok advanced_key [OF b(2)] by (simp add: approvals_ok_def)
  then show ?thesis using b ok by (auto simp: approval_key_def advanced_def approvals_ok_def row_sound_def)
qed

section \<open>Authority\<close>

lemma find_approval_put:
  "find_approval s (ap_ws b) (ap_id b) = Some a \<Longrightarrow> pl_approvals t = pl_approvals s \<Longrightarrow> find_approval (put_approval b t) (ap_ws b) (ap_id b) = Some b"
  using tget_tput [of "\<lambda>x. (ap_ws x, ap_id x)" "(ap_ws b, ap_id b)" b "pl_approvals s"]
  by (auto simp: find_approval_def put_approval_def tget_def)

lemma find_approval_key: "find_approval s w i = Some a \<Longrightarrow> ap_ws a = w \<and> ap_id a = i"
  by (auto simp: find_approval_def find_Some_iff)


lemma find_holds: "find P xs = Some x \<Longrightarrow> x \<in> set xs \<and> P x"
  by (auto simp: find_Some_iff)

lemma server_frames:
  "find_approval (s\<lparr>pl_server := x\<rparr>) = find_approval s" "self_allowed (s\<lparr>pl_server := x\<rparr>) = self_allowed s"
  "bp_ctl x = bp_ctl (pl_server s) \<Longrightarrow> decider c (s\<lparr>pl_server := x\<rparr>) = decider c s"
  "bp_ctl x = bp_ctl (pl_server s) \<Longrightarrow> run_owner (s\<lparr>pl_server := x\<rparr>) = run_owner s"
  "row_target cr db (s\<lparr>pl_server := x\<rparr>) = row_target cr db s" "migration_target (s\<lparr>pl_server := x\<rparr>) = migration_target s"
  "bp_ledger x = bp_ledger (pl_server s) \<Longrightarrow> delivery_version E (s\<lparr>pl_server := x\<rparr>) = delivery_version E s"
  by (simp_all add: fun_eq_iff find_approval_def self_allowed_def decider_def run_owner_def row_target_def lock_row_def lock_table_def
      enabled_gate_def current_revision_def last_consumed_def migration_target_def delivery_version_def Let_def
    cong: run_context.case_cong option.case_cong jval.case_cong)

text \<open>C22: a decision has its authority.  It is only recorded on an Approval that was undecided and
  unexpired, by a User who is a member of the organisation or a Principal to whom a current member
  delegated; unless the Workspace allows it, never by the Principal that requested it or owns its Run;
  and only while the target is current: a held Delivery, a row or the Migration head at the version the
  request named.\<close>

theorem decision_authorized:
  assumes "decide_approval E db c i verdict reason s = (Inr released, s')"
  shows "\<exists>a n. find_approval s (ctx_ws c) i = Some a \<and> ap_decision a = None \<and> ae_now E < ap_expires a
    \<and> (case c of User_context w u \<Rightarrow> approval_member (bp_ctl (pl_server s)) w u \<noteq> None
       | Principal_context w p _ _ \<Rightarrow> \<exists>d\<in>set (pl_delegations s). dg_ws d = w \<and> dg_principal d = p
           \<and> list_ex (\<lambda>m. mb_id m = dg_member d) (workspace_member (bp_ctl (pl_server s)) w (dg_granted_by d)))
    \<and> (self_allowed s (ctx_ws c) \<or> ctx_principal c \<noteq> Some (ap_by a) \<and> (run_owner s (ap_run a) \<noteq> None \<and> ctx_principal c \<noteq> run_owner s (ap_run a)))
    \<and> (\<exists>st. target_facts E db s a = Inr (True, st, Some (ap_version a)) \<and> (ap_kind a = ''message'' \<longrightarrow> st = Some ''held''))
    \<and> (released \<noteq> None \<longleftrightarrow> verdict = ''approve'' \<and> ap_kind a = ''message'')
    \<and> find_approval s' (ctx_ws c) i = Some (a\<lparr>ap_decision := Some verdict, ap_reason := Some reason, ap_position := Some n, ap_released := released\<rparr>)"
proof -
  let ?s1 = "s\<lparr>pl_server := touch_run (ae_now E) (ctx_run c) (lock_workspace (ctx_ws c) (pl_server s))\<rparr>"
  have "with_platform (ae_now E) c (decide_in E db c i verdict reason) id s = Inr (released, s')"
    using assms by (auto simp: decide_approval_def approval_write_def split: sum.splits prod.splits)
  then obtain b where "decide_in E db c i verdict reason b ?s1 = Inr (released, s')" by (rule with_platform_cases)
  then obtain delegate a s2 n k os m where t: "decision_target E db c i ?s1 = Inr (delegate, a)" "release_approved E c verdict a b ?s1 = Inr (released, s2)"
    and s': "s' = put_approval (a\<lparr>ap_decision := Some verdict, ap_reason := Some reason, ap_position := Some n, ap_released := released\<rparr>)
      (snd (emit_on (ae_now E) b k os (Some 1) m s2))"
    by (auto simp: decide_in_def ebind_Inr_iff split_beta)
  have same: "find_approval ?s1 = find_approval s" "decider c ?s1 = decider c s" "run_owner ?s1 = run_owner s" "self_allowed ?s1 = self_allowed s"
    "target_facts E db ?s1 a = target_facts E db s a"
    by (simp_all add: server_frames target_facts_def)
  obtain owner facts where o: "decider c s = Inr delegate" "find_approval s (ctx_ws c) i = Some a" "run_owner s (ap_run a) = Some owner"
    "ap_decision a = None" "ae_now E < ap_expires a" "target_facts E db s a = Inr facts"
    and pol: "decision_policy \<lparr>df_kind = ap_kind a, df_decided = False, df_expired = False,
       df_current = fst facts, df_state = fst (snd facts), df_version = ap_version a, df_held = snd (snd facts), df_self = self_allowed s (ctx_ws c),
       df_principal = ctx_principal c, df_by = ap_by a, df_run_principal = owner\<rparr> = None"
    using decision_target_Inr [OF t(1)] unfolding same by blast
  have ws: "ap_ws a = ctx_ws c \<and> ap_id a = i" using find_approval_key [OF o(2)] .
  have authority: "case c of User_context w u \<Rightarrow> approval_member (bp_ctl (pl_server s)) w u \<noteq> None
       | Principal_context w p _ _ \<Rightarrow> \<exists>d\<in>set (pl_delegations s). dg_ws d = w \<and> dg_principal d = p
           \<and> list_ex (\<lambda>m. mb_id m = dg_member d) (workspace_member (bp_ctl (pl_server s)) w (dg_granted_by d))"
    using o(1) by (cases c) (auto simp: decider_def Let_def split: if_splits option.splits dest!: find_holds)
  have policy: "self_allowed s (ctx_ws c) \<or> ctx_principal c \<noteq> Some (ap_by a) \<and> ctx_principal c \<noteq> Some owner"
    "fst facts" "ap_kind a = ''message'' \<Longrightarrow> fst (snd facts) = Some ''held''" "snd (snd facts) = Some (ap_version a)"
    using pol by (auto simp: decision_policy_def split: if_splits)
  have "find_approval s' (ctx_ws c) i = Some (a\<lparr>ap_decision := Some verdict, ap_reason := Some reason, ap_position := Some n, ap_released := released\<rparr>)"
    using find_approval_put [of s "a\<lparr>ap_decision := Some verdict, ap_reason := Some reason, ap_position := Some n, ap_released := released\<rparr>" a
        "snd (emit_on (ae_now E) b k os (Some 1) m s2)"] o(2) ws release_approved_Inr(2) [OF t(2)] unfolding s' by simp
  moreover have "\<exists>st. target_facts E db s a = Inr (True, st, Some (ap_version a)) \<and> (ap_kind a = ''message'' \<longrightarrow> st = Some ''held'')"
    using o(6) policy(2-4) by (cases facts) auto
  ultimately show ?thesis using o authority policy(1) release_approved_Inr(1) [OF t(2)] by auto
qed

section \<open>Worked approvals\<close>

text \<open>A Principal asks for a Message it holds, a member approves; and a gated update.\<close>

definition demo_claimed_server :: backplane where
  "demo_claimed_server = snd (serve_queue (te_crypto demo_env) 9 (Principal_context 1 10 20 None) (Rq_claim ''jobs'' demo_receipt)
     (snd (serve_queue (te_crypto demo_env) 8 (Principal_context 1 10 20 None) (Rq_send ''jobs'' ''m1'' (JInt 7)) demo_served)))"

definition demo_approvals :: approval_env where
  "demo_approvals = \<lparr>ae_engine = demo_plan_engine, ae_crypto = te_crypto demo_env, ae_clock = (\<lambda>t. nat_text (nat t)), ae_jsonb = (\<lambda>t. None), ae_now = 10\<rparr>"

definition demo_idle :: "unit platform" where
  "demo_idle = demo_platform\<lparr>pl_server := demo_claimed_server\<rparr>"

definition demo_asked :: "unit platform" where
  "demo_asked = snd (request_approval demo_approvals demo_db (Principal_context 1 10 20 None) (Request_message (uuid_text 1) demo_receipt None) demo_idle)"

definition demo_answered :: "(string + uuid option) \<times> unit platform" where
  "demo_answered = decide_approval demo_approvals demo_db (User_context 1 ''ann'') 1 ''approve'' ''fine'' demo_asked"

definition demo_schema :: string where
  "demo_schema = ''ws_00000000000000000000000000000001''"

definition demo_facts :: relation_facts where
  "demo_facts = \<lparr>rf_schema = demo_schema, rf_name = ''talks'', rf_kind = ''r'', rf_owner = ''bp_executor'',
     rf_principal_uuid = Some True, rf_principal_not_null = Some True, rf_run_uuid = Some True, rf_run_not_null = Some True,
     rf_generated = False, rf_triggers = 1, rf_stamp_enabled = Some ''A'', rf_stamp_function = Some True, rf_rules = False, rf_policies = False\<rparr>"

definition demo_gated_db :: "unit workspace_db" where
  "demo_gated_db = \<lparr>wd_relations = (\<lambda>w s. [demo_facts]), wd_exists = (\<lambda>w s t. Some ''16384''), wd_shape = (\<lambda>w s t. Some ([''id''], [])),
     wd_typed = (\<lambda>w s t v. Inr v), wd_row = (\<lambda>w s t v. Some (JObj [(''id'', JInt 7)])), wd_role = (\<lambda>w. Some ''bp_r''),
     wd_query = (\<lambda>s q ps w. Inr (([], 1), w))\<rparr>"

definition demo_engine :: engine where
  "demo_engine = \<lparr>eg_parse = demo_parser, eg_sha = id\<rparr>"

definition demo_sql :: sql_input where
  "demo_sql = \<lparr>si_statement = ''u'', si_params = [JStr ''t'', JInt 7], si_expect = Some 1, si_approval = Some (uuid_text 5)\<rparr>"

definition demo_prepared :: prepared_sql where
  "demo_prepared = projr (prepare_sql demo_engine (uuid_text 1) demo_sql)"

definition demo_approved :: approval where
  "demo_approved = \<lparr>ap_id = 5, ap_ws = 1, ap_kind = ''row'', ap_target = ''{}'', ap_version = ''{}'', ap_by = 10, ap_run = 20, ap_epoch = Some 3,
     ap_hash = Some (projr (action_hash demo_engine demo_sql ''{}'')), ap_table = Some (demo_schema @ ''.talks''), ap_key = Some (JObj [(''id'', JInt 7)]),
     ap_preview = None, ap_created = 2, ap_expires = 100, ap_decision = Some ''approve'', ap_reason = Some ''fine'', ap_position = Some 4,
     ap_released = None, ap_consumed = None\<rparr>"

definition demo_gated :: "unit platform" where
  "demo_gated = demo_platform\<lparr>pl_approvals := [demo_approved],
     pl_gates := [\<lparr>ga_ws = 1, ga_kind = ''row'', ga_selector = demo_schema @ ''.talks'', ga_enabled = True, ga_epoch = 3, ga_by = ''ann''\<rparr>]\<rparr>"

definition demo_write :: "problem + (sql_response \<times> unit platform)" where
  "demo_write = execute_sql_in demo_engine (te_crypto demo_env) 9 demo_gated_db \<lparr>bc_ws = 1, bc_principal = Some 10, bc_run = Some 20, bc_user = None\<rparr> (Principal_context 1 10 20 None) demo_prepared 0 demo_gated"

lemma demo_decided:
  "map ap_decision (pl_approvals demo_asked) = [None] \<and> map (\<lambda>a. (ap_ws a, ap_id a)) (pl_approvals demo_asked) = [(1, 1)]
   \<and> fst demo_answered = Inr (Some 3) \<and> map ap_decision (pl_approvals (snd demo_answered)) = [Some ''approve'']"
  by code_simp

lemma demo_written:
  "\<not> isl demo_write \<and> sd_write (ps_decision demo_prepared) = Some ''talks'' \<and> sd_insert_only (ps_decision demo_prepared) = None
   \<and> enabled_gate demo_gated 1 ''row'' (ps_schema demo_prepared @ ''.'' @ ''talks'') \<noteq> None"
  by code_simp

theorem approval_settled_once_witness:
  "\<exists>a b. pl_approvals demo_asked = [a] \<and> filter (\<lambda>x. (ap_ws x, ap_id x) = (1, 1)) (pl_approvals (snd demo_answered)) = [b]
    \<and> ap_decision a = None \<and> ap_decision b = Some ''approve'' \<and> ap_version b = ap_version a"
proof -
  obtain a b where a: "pl_approvals demo_asked = [a]" "ap_decision a = None" "(ap_ws a, ap_id a) = (1, 1)"
    and b: "pl_approvals (snd demo_answered) = [b]" "ap_decision b = Some ''approve''"
    using demo_decided by (auto simp: map_eq_Cons_conv)
  have s: "platform_step\<^sup>*\<^sup>* demo_idle demo_asked" "platform_step\<^sup>*\<^sup>* demo_asked (snd demo_answered)"
    unfolding demo_asked_def demo_answered_def by (intro r_into_rtranclp platform_step.intros)+
  have start: "pl_approvals demo_idle = []" by (simp add: demo_idle_def demo_platform_def)
  obtain b' where f: "filter (\<lambda>x. (ap_ws x, ap_id x) = (1, 1)) (pl_approvals (snd demo_answered)) = [b']" "ap_version b' = ap_version a"
    using approval_settled_once [OF s(1) start s(2), of a] a by auto
  have "b' = b" using f(1) b(1) by (auto split: if_splits)
  then show ?thesis using a b f by auto
qed


theorem decision_authorized_witness:
  "\<exists>a n. find_approval demo_asked 1 1 = Some a \<and> approval_member (bp_ctl (pl_server demo_asked)) 1 ''ann'' \<noteq> None
    \<and> find_approval (snd demo_answered) 1 1 = Some (a\<lparr>ap_decision := Some ''approve'', ap_reason := Some ''fine'', ap_position := Some n, ap_released := Some 3\<rparr>)"
proof -
  have "decide_approval demo_approvals demo_db (User_context 1 ''ann'') 1 ''approve'' ''fine'' demo_asked = (Inr (Some 3), snd demo_answered)"
    using demo_decided by (metis demo_answered_def prod.collapse)
  from decision_authorized [OF this] show ?thesis by (simp only: ctx_ws.simps run_context.case) blast
qed

end
