(* ===== verification/MigrationLedger.thy ===== *)
theory MigrationLedger
  imports ApprovalProps
begin

text \<open>The Migration ledger over all sequences of services: it grows by one revision at a time, each row the
  apply of a previewed, accepted and, when gated, approved Migration; previews change nothing but the
  audit; failures leave a rejection and nothing else.\<close>

section \<open>Only an apply writes the ledger\<close>

lemma with_platform_ledger:
  assumes "with_platform now c work wrap s = Inr (x, s')" "\<And>b s1. work b s1 = Inr (x, s') \<Longrightarrow> pl_migrations s' = pl_migrations s1"
  shows "pl_migrations s' = pl_migrations s"
proof -
  obtain b where "work b (s\<lparr>pl_server := touch_run now (ctx_run c) (lock_workspace (ctx_ws c) (pl_server s))\<rparr>) = Inr (x, s')"
    using with_platform_cases [OF assms(1)] by blast
  from assms(2) [OF this] show ?thesis by simp
qed

lemma reject_ledger [simp]: "pl_migrations (reject_on now c k os e t s) = pl_migrations s"
  by (simp add: reject_on_def)

lemma approval_write_ledger:
  assumes "\<And>b s1 x s'. work b s1 = Inr (x, s') \<Longrightarrow> pl_migrations s' = pl_migrations s1"
  shows "pl_migrations (snd (approval_write now c k os work s)) = pl_migrations s"
proof (cases "with_platform now c work id s")
  case (Inr p)
  then show ?thesis using with_platform_ledger [of now c work id s "fst p" "snd p"] assms by (auto simp: approval_write_def split: prod.splits)
qed (auto simp: approval_write_def split: prod.splits)

lemma put_approval_ledger [simp]: "pl_migrations (put_approval a s) = pl_migrations s"
  by (simp add: put_approval_def)

lemma insert_approval_ledger: "insert_approval a s = Inr s' \<Longrightarrow> pl_migrations s' = pl_migrations s"
  by (auto simp: insert_approval_def)

lemma request_approval_ledger: "pl_migrations (snd (request_approval E db c q s)) = pl_migrations s"
  by (cases q)
    (auto simp: request_approval_def request_message_in_def request_target_in_def ebind_Inr_iff Let_def version_Inr
      intro!: approval_write_ledger dest!: insert_approval_ledger on_server_frame(6))

lemma release_approved_ledger: "release_approved E c verdict a b s = Inr (released, s') \<Longrightarrow> pl_migrations s' = pl_migrations s"
  by (auto simp: release_approved_def ebind_Inr_iff split: if_splits dest: on_server_frame(6))

lemma decide_in_ledger: "decide_in E db c i verdict reason b s = Inr (released, s') \<Longrightarrow> pl_migrations s' = pl_migrations s"
  by (auto simp: decide_in_def ebind_Inr_iff split_beta dest!: release_approved_ledger)

lemma policy_writes_ledger:
  "set_gate_in E db c k sel en b s = Inr (g, s1) \<Longrightarrow> pl_migrations s1 = pl_migrations s"
  "set_settings_in E c allow b s = Inr (x, s2) \<Longrightarrow> pl_migrations s2 = pl_migrations s"
  "set_delegation_for E c p en b s = Inr (y, s3) \<Longrightarrow> pl_migrations s3 = pl_migrations s"
  by (auto simp: set_gate_in_def set_settings_in_def set_delegation_for_def ebind_Inr_iff Let_def split_beta
      split: option.splits if_splits)

lemma execute_sql_in_ledger: "execute_sql_in g cr now db b c p i s = Inr (r, s') \<Longrightarrow> pl_migrations s' = pl_migrations s"
  by (auto simp: execute_sql_in_def Let_def ebind_Inr_iff consume_row_approval_def split_beta split: option.splits if_splits)

lemma execute_sql_ledger: "pl_migrations (snd (execute_sql g cr now db c q s)) = pl_migrations s"
  by (auto simp: execute_sql_def Let_def split: sum.splits elim!: with_platform_ledger dest!: execute_sql_in_ledger
      simp: ebind_Inr_iff commit_on_def)

lemma run_operation_ledger: "run_operation E db b c i p m s = Inr (x, s') \<Longrightarrow> pl_migrations s' = pl_migrations s"
  by (cases p; cases x)
    (auto simp: run_operation_def Let_def ebind_Inr_iff split: tx_operation.splits dest: execute_sql_in_ledger on_server_frame(6))

lemma run_operations_ledger: "run_operations E db b c i ps m s = Inr (x, s') \<Longrightarrow> pl_migrations s' = pl_migrations s"
proof (induction ps arbitrary: i m s x s')
  case (Cons p ps)
  obtain y s1 z where "run_operation E db b c i p m s = Inr (y, s1)"
    and "run_operations E db b c (Suc i) ps (snd (snd y)) s1 = Inr (z, s')"
    using Cons.prems by (auto simp: ebind_Inr_iff)
  then show ?case using run_operation_ledger [of E db b c i p m s y s1] Cons.IH by metis
qed simp

lemma store_receipt_ledger: "store_receipt cr r s = Inr s' \<Longrightarrow> pl_migrations s' = pl_migrations s"
  by (auto simp: store_receipt_def)

lemma transaction_in_ledger: "transaction_in F db c t plan hash b s = Inr (r, s') \<Longrightarrow> pl_migrations s' = pl_migrations s"
  by (auto simp: transaction_in_def ebind_Inr_iff Let_def split_beta split: option.splits if_splits
      dest!: run_operations_ledger store_receipt_ledger simp: commit_on_def)

lemma execute_transaction_ledger: "pl_migrations (snd (execute_transaction F db c t s)) = pl_migrations s"
proof (cases "transaction_attempt F db c t s")
  case (Inr x)
  then obtain plan hash where "with_platform (te_now F) c (transaction_in F db c t plan hash) (\<lambda>e. (e, None)) s = Inr (fst x, snd x)"
    by (auto simp: transaction_attempt_def split: sum.splits prod.splits option.splits)
  then have "pl_migrations (snd x) = pl_migrations s" by (rule with_platform_ledger) (rule transaction_in_ledger)
  then show ?thesis using Inr by (cases x) (simp add: execute_transaction_def)
qed (auto simp: execute_transaction_def Let_def)

lemma preview_in_frame:
  assumes "preview_in E md c q b s = Inr (r, s')"
  obtains k os n meta where "s' = snd (emit_on (me_now E) b k os n meta s)"
  using assms by (auto simp: preview_in_def Let_def ebind_Inr_iff split_beta)

lemma preview_migration_ledger: "pl_migrations (snd (preview_migration E md c q s)) = pl_migrations s"
  by (auto simp: preview_migration_def Let_def split: sum.splits elim!: with_platform_ledger preview_in_frame)

lemma projection_ledger: "pl_migrations (snd (projection_requested now c s)) = pl_migrations s"
  by (auto simp: projection_requested_def Let_def split: sum.splits if_splits elim!: with_platform_ledger)

section \<open>An apply\<close>

lemma consume_migration_frame:
  assumes "consume_migration_approval now b c q i gate s = Inr s'"
  shows "pl_migrations s' = pl_migrations s" "pl_world s' = pl_world s"
  using assms by (auto simp: consume_migration_approval_def put_approval_def Let_def split_beta split: option.splits)

lemma consume_for_apply_frame:
  assumes "consume_for_apply E b c q hash s = Inr s'"
  shows "pl_migrations s' = pl_migrations s" "pl_world s' = pl_world s"
  using assms by (auto simp: consume_for_apply_def Let_def dest: consume_migration_frame split: option.splits)

lemma revision_policy_None: "migration_revision_policy (nat_text n) e = None \<longleftrightarrow> e = int n"
proof -
  have "nat_text n = json_text (JInt (int n))" "int_text e = json_text (JInt e)"
    by (simp_all add: int_text_def del: nat_text.simps)
  then show ?thesis using json_text_inj [of "JInt (int n)" "JInt e"] by (auto simp: migration_revision_policy_def simp del: nat_text.simps)
qed

lemma check_plan_Inr:
  "check_plan sql confirmed plan = Inr p \<longleftrightarrow> octets sql \<le> 65536 \<and> plan = Inr p \<and> (mp_destructive p \<longrightarrow> confirmed)"
  by (cases plan) (auto simp: check_plan_def not_less)

text \<open>The Approval a gated Migration consumes.\<close>

definition approved_for :: "time \<Rightarrow> run_context \<Rightarrow> apply_input \<Rightarrow> string \<Rightarrow> 'w platform \<Rightarrow> approval \<Rightarrow> bool" where
  "approved_for now c q hash s a \<longleftrightarrow>
     find_approval s (ctx_ws c) (ap_id a) = Some a \<and> ay_approval q = Some (ap_id a) \<and> ap_kind a = ''migration''
     \<and> ctx_principal c = Some (ap_by a) \<and> ap_target a = hash \<and> ap_hash a = Some hash \<and> ap_decision a = Some ''approve''
     \<and> ap_consumed a = None \<and> now < ap_expires a \<and> ap_epoch a = mt_epoch (migration_target s (ctx_ws c))
     \<and> ap_preview a = Some (ay_preview q) \<and> ap_version a = nat_text (current_revision s (ctx_ws c))"

lemma consumed_for_apply:
  assumes "consume_for_apply E b c q hash s = Inr s'" "c = Principal_context w p r h" "hash = ay_hash q"
    and "mt_epoch (migration_target s w) \<noteq> None \<or> ay_approval q \<noteq> None"
  shows "\<exists>a n. approved_for (me_now E) c q hash s a \<and> find_approval s' w (ap_id a) = Some (a\<lparr>ap_consumed := Some n\<rparr>)"
proof -
  define gate where "gate = migration_target s w"
  obtain i where i: "ay_approval q = Some i" "consume_migration_approval (me_now E) b c q i gate s = Inr s'"
    using assms(1,2,4) by (auto simp: consume_for_apply_def Let_def gate_def split: option.splits)
  then obtain a where a: "find_approval s w i = Some a" "migration_consumption_policy (me_now E) gate q p (Some a) = None"
    by (auto simp: consume_migration_approval_def Let_def assms(2) split: option.splits)
  obtain n k os m where s': "s' = put_approval (a\<lparr>ap_consumed := Some n\<rparr>) (snd (emit_on (me_now E) b k os (Some 1) m s))"
    using i(2) a by (auto simp: consume_migration_approval_def assms(2) split_beta)
  have key: "ap_ws a = w" "ap_id a = i" using find_approval_key [OF a(1)] by simp_all
  have "approved_for (me_now E) c q hash s a"
    using a i(1) key unfolding approved_for_def migration_consumption_policy_def gate_def
    by (auto simp: assms(2,3) migration_target_def not_le split: option.splits if_splits simp del: nat_text.simps)
  moreover have "find_approval s' w (ap_id a) = Some (a\<lparr>ap_consumed := Some n\<rparr>)"
    using find_approval_put [of s "a\<lparr>ap_consumed := Some n\<rparr>" a "snd (emit_on (me_now E) b k os (Some 1) m s)"] a(1) key unfolding s' by simp
  ultimately show ?thesis by blast
qed

lemma emit_on_find [simp]: "find_approval (snd (emit_on now b k os r m s)) = find_approval s"
  by (simp add: find_approval_def fun_eq_iff)

text \<open>What a successful apply has checked and written.\<close>

lemma apply_in_facts:
  assumes "apply_in E md c q b s = Inr (m, s')" "c = Principal_context w p r h"
  shows "\<exists>plan. migration_policy (me_engine E) (me_scanner E) (ay_sql q) (schema_of w) = Inr plan
      \<and> (mp_destructive plan \<longrightarrow> ay_confirm q) \<and> octets (ay_sql q) \<le> 65536
      \<and> ay_hash q = eg_sha (me_engine E) (ay_sql q) \<and> preview_event s c q (ay_hash q) (mp_destructive plan)
      \<and> mg_statements m = length (mp_statements plan) \<and> mg_destructive m = mp_destructive plan"
    and "ay_expected q = int (current_revision s w)" "pl_migrations s' = pl_migrations s @ [m]"
    and "mg_ws m = w" "mg_revision m = Suc (current_revision s w)" "mg_sql m = ay_sql q" "mg_hash m = ay_hash q" "mg_by m = p" "mg_run m = r"
    and "mt_epoch (migration_target s w) \<noteq> None \<or> ay_approval q \<noteq> None \<Longrightarrow>
      \<exists>a n. approved_for (me_now E) c q (ay_hash q) s a \<and> find_approval s' w (ap_id a) = Some (a\<lparr>ap_consumed := Some n\<rparr>)"
proof -
  obtain plan s1 world s2 and facts :: migration_facts where
    rev: "migration_revision_policy (nat_text (current_revision s w)) (ay_expected q) = None"
    and plan: "check_plan (ay_sql q) (ay_confirm q) (migration_policy (me_engine E) (me_scanner E) (ay_sql q) (schema_of w)) = Inr plan"
    and hash: "ay_hash q = eg_sha (me_engine E) (ay_sql q)" "preview_event s c q (ay_hash q) (mp_destructive plan)"
    and s1: "consume_for_apply E b c q (ay_hash q) s = Inr s1"
    and m: "m = \<lparr>mg_ws = w, mg_revision = nat (ay_expected q + 1), mg_name = trim_white (ay_name q), mg_sql = ay_sql q, mg_hash = ay_hash q,
               mg_statements = length (mp_statements plan), mg_destructive = mp_destructive plan, mg_by = p, mg_run = r, mg_at = me_now E\<rparr>"
    and ins: "insert_migration m (s1\<lparr>pl_world := world\<rparr>) = Inr s2"
    and last: "s' = snd (emit_on (me_now E) b ''migration.applied'' (mf_tables facts) (Some (int (length (mp_statements plan))))
          (migration_metadata (ay_expected q + 1) (ay_hash q) (mp_destructive plan)) s2)"
    using assms(1) unfolding assms(2)
    by (auto simp: apply_in_def Let_def ebind_Inr_iff split: option.splits simp del: nat_text.simps)
  have e: "ay_expected q = int (current_revision s w)" using rev revision_policy_None by blast
  show "ay_expected q = int (current_revision s w)" by (rule e)
  show "\<exists>plan. migration_policy (me_engine E) (me_scanner E) (ay_sql q) (schema_of w) = Inr plan
      \<and> (mp_destructive plan \<longrightarrow> ay_confirm q) \<and> octets (ay_sql q) \<le> 65536
      \<and> ay_hash q = eg_sha (me_engine E) (ay_sql q) \<and> preview_event s c q (ay_hash q) (mp_destructive plan)
      \<and> mg_statements m = length (mp_statements plan) \<and> mg_destructive m = mp_destructive plan"
    using plan hash unfolding check_plan_Inr m by auto
  have s2: "s2 = s1\<lparr>pl_world := world, pl_migrations := pl_migrations s1 @ [m]\<rparr>"
    using ins by (auto simp: insert_migration_def)
  show "pl_migrations s' = pl_migrations s @ [m]"
    using consume_for_apply_frame(1) [OF s1] by (simp add: last s2)
  show "mg_ws m = w" "mg_sql m = ay_sql q" "mg_hash m = ay_hash q" "mg_by m = p" "mg_run m = r" by (simp_all add: m)
  show "mg_revision m = Suc (current_revision s w)" by (simp add: m e nat_add_distrib)
  assume "mt_epoch (migration_target s w) \<noteq> None \<or> ay_approval q \<noteq> None"
  then obtain a n where "approved_for (me_now E) c q (ay_hash q) s a" "find_approval s1 w (ap_id a) = Some (a\<lparr>ap_consumed := Some n\<rparr>)"
    using consumed_for_apply [OF s1 assms(2)] by blast
  moreover have "find_approval s' = find_approval s1" by (simp add: last s2) (simp add: find_approval_def fun_eq_iff)
  ultimately show "\<exists>a n. approved_for (me_now E) c q (ay_hash q) s a \<and> find_approval s' w (ap_id a) = Some (a\<lparr>ap_consumed := Some n\<rparr>)"
    by auto
qed

lemma current_revision_server [simp]: "current_revision (s\<lparr>pl_server := x\<rparr>) w = current_revision s w"
  by (simp add: current_revision_def)

lemma approved_for_server [simp]: "approved_for now c q hash (s\<lparr>pl_server := x\<rparr>) = approved_for now c q hash s"
  by (simp add: approved_for_def server_frames fun_eq_iff)

lemma preview_event_events: "bp_events x = bp_events (pl_server s) \<Longrightarrow> preview_event (s\<lparr>pl_server := x\<rparr>) c q hash d = preview_event s c q hash d"
  by (simp add: preview_event_def)

lemma apply_migration_run:
  assumes "apply_migration E md c q s = (Inr m, s')"
  obtains b where "apply_in E md c q b (s\<lparr>pl_server := touch_run (me_now E) (ctx_run c) (lock_workspace (ctx_ws c) (pl_server s))\<rparr>) = Inr (m, s')"
proof -
  have wp: "with_platform (me_now E) c (apply_in E md c q) id s = Inr (m, s')"
    using assms by (auto simp: apply_migration_def Let_def split: sum.splits)
  show thesis by (rule with_platform_cases [OF wp]) (rule that)
qed

lemma migration_applied_rows:
  assumes "apply_migration E md (Principal_context w p r h) q s = (Inr m, s')"
  shows "pl_migrations s' = pl_migrations s @ [m] \<and> mg_revision m = Suc (current_revision s (mg_ws m))"
proof -
  obtain b where run: "apply_in E md (Principal_context w p r h) q b
      (s\<lparr>pl_server := touch_run (me_now E) (ctx_run (Principal_context w p r h)) (lock_workspace w (pl_server s))\<rparr>) = Inr (m, s')"
    using apply_migration_run [OF assms] by auto
  show ?thesis using apply_in_facts(3-5) [OF run refl] by simp
qed

lemma applied_facts:
  assumes "apply_migration E md (Principal_context w p r h) q s = (Inr m, s')"
  shows "pl_migrations s' = pl_migrations s @ [m]" "ay_expected q = int (current_revision s w)"
    and "(mg_ws m, mg_revision m, mg_sql m, mg_hash m, mg_by m, mg_run m) = (w, Suc (current_revision s w), ay_sql q, eg_sha (me_engine E) (ay_sql q), p, r)"
    and "\<exists>plan. migration_policy (me_engine E) (me_scanner E) (ay_sql q) (schema_of w) = Inr plan
      \<and> (mp_destructive plan \<longrightarrow> ay_confirm q) \<and> ay_hash q = eg_sha (me_engine E) (ay_sql q)
      \<and> preview_event s (Principal_context w p r h) q (ay_hash q) (mp_destructive plan)
      \<and> mg_statements m = length (mp_statements plan) \<and> mg_destructive m = mp_destructive plan"
    and "mt_epoch (migration_target s w) \<noteq> None \<or> ay_approval q \<noteq> None \<Longrightarrow>
      \<exists>a n. approved_for (me_now E) (Principal_context w p r h) q (ay_hash q) s a \<and> find_approval s' w (ap_id a) = Some (a\<lparr>ap_consumed := Some n\<rparr>)"
proof -
  let ?c = "Principal_context w p r h"
  obtain b where run: "apply_in E md ?c q b (s\<lparr>pl_server := touch_run (me_now E) (ctx_run ?c) (lock_workspace (ctx_ws ?c) (pl_server s))\<rparr>) = Inr (m, s')"
    using apply_migration_run [OF assms] by blast
  note facts = apply_in_facts [OF run refl]
  show "pl_migrations s' = pl_migrations s @ [m]" "ay_expected q = int (current_revision s w)" using facts(2,3) by simp_all
  show "\<exists>plan. migration_policy (me_engine E) (me_scanner E) (ay_sql q) (schema_of w) = Inr plan
      \<and> (mp_destructive plan \<longrightarrow> ay_confirm q) \<and> ay_hash q = eg_sha (me_engine E) (ay_sql q)
      \<and> preview_event s ?c q (ay_hash q) (mp_destructive plan)
      \<and> mg_statements m = length (mp_statements plan) \<and> mg_destructive m = mp_destructive plan"
    using facts(1) by (auto simp: preview_event_events)
  show "(mg_ws m, mg_revision m, mg_sql m, mg_hash m, mg_by m, mg_run m) = (w, Suc (current_revision s w), ay_sql q, eg_sha (me_engine E) (ay_sql q), p, r)"
    using facts by auto
  show "mt_epoch (migration_target s w) \<noteq> None \<or> ay_approval q \<noteq> None \<Longrightarrow>
      \<exists>a n. approved_for (me_now E) ?c q (ay_hash q) s a \<and> find_approval s' w (ap_id a) = Some (a\<lparr>ap_consumed := Some n\<rparr>)"
    using facts(10) by (simp add: server_frames)
qed

text \<open>C26: an applied Migration was previewed and is the next revision.  It was expected at the current
  revision of its Workspace and is recorded under the next one; its text hashes to the hash of the
  request, the policy accepts it, a destructive one was confirmed; the audit holds the caller's own
  preview of this text at this revision at the position the request names; and when Migrations are gated
  or an Approval is named, a current, approved, unexpired Approval of the caller for this very preview is
  consumed with it.\<close>

theorem migration_applied:
  assumes "apply_migration E md (Principal_context w p r h) q s = (Inr m, s')"
  shows "pl_migrations s' = pl_migrations s @ [m] \<and> ay_expected q = int (current_revision s w)
    \<and> (mg_ws m, mg_revision m, mg_sql m, mg_hash m, mg_by m, mg_run m) = (w, Suc (current_revision s w), ay_sql q, eg_sha (me_engine E) (ay_sql q), p, r)
    \<and> (\<exists>plan. migration_policy (me_engine E) (me_scanner E) (ay_sql q) (schema_of w) = Inr plan
      \<and> (mp_destructive plan \<longrightarrow> ay_confirm q) \<and> ay_hash q = eg_sha (me_engine E) (ay_sql q)
      \<and> preview_event s (Principal_context w p r h) q (ay_hash q) (mp_destructive plan)
      \<and> mg_statements m = length (mp_statements plan) \<and> mg_destructive m = mp_destructive plan)
    \<and> (mt_epoch (migration_target s w) \<noteq> None \<or> ay_approval q \<noteq> None \<longrightarrow>
      (\<exists>a n. approved_for (me_now E) (Principal_context w p r h) q (ay_hash q) s a \<and> find_approval s' w (ap_id a) = Some (a\<lparr>ap_consumed := Some n\<rparr>)))"
  by (intro conjI impI applied_facts [OF assms])

section \<open>The ledger has no gaps\<close>

definition gapless :: "migration_row list \<Rightarrow> bool" where
  "gapless ms \<longleftrightarrow> (\<forall>w. map mg_revision (ledger_of ms w) = [1..<Suc (length (ledger_of ms w))])"

lemma foldr_max_upt: "foldr max [Suc 0..<Suc n] 0 = (n::nat)"
proof -
  have "foldr max [Suc 0..<Suc n] a = max n a" for a
    by (induction n arbitrary: a) auto
  then show ?thesis by simp
qed

lemma gapless_head: "gapless (pl_migrations s) \<Longrightarrow> current_revision s w = length (ledger_of (pl_migrations s) w)"
  by (simp add: current_revision_def gapless_def foldr_max_upt del: upt_Suc)

lemma gapless_next:
  assumes "gapless (pl_migrations s)" "mg_revision m = Suc (current_revision s (mg_ws m))"
  shows "gapless (pl_migrations s @ [m])"
  using assms gapless_head [OF assms(1)] by (auto simp: gapless_def ledger_of_def)

lemma ledger_step:
  assumes "platform_step s s'"
  shows "pl_migrations s' = pl_migrations s \<or> (\<exists>m. pl_migrations s' = pl_migrations s @ [m] \<and> mg_revision m = Suc (current_revision s (mg_ws m)))"
  using assms
proof (induction rule: platform_step.induct)
  case (apply_step s M md w p r h y)
  let ?c = "Principal_context w p r h"
  show ?case
  proof (cases "apply_migration M md ?c y s")
    case (Pair x s')
    show ?thesis
    proof (cases x)
      case (Inr m)
      then show ?thesis using migration_applied_rows [of M md w p r h y s m s'] Pair by auto
    next
      case (Inl e)
      then show ?thesis using Pair by (auto simp: apply_migration_def Let_def split: sum.splits)
    qed
  qed
qed (simp_all add: request_approval_ledger execute_sql_ledger execute_transaction_ledger preview_migration_ledger projection_ledger
    decide_approval_def set_gate_def set_settings_def set_delegation_def approval_write_ledger decide_in_ledger policy_writes_ledger)

text \<open>C27: the Migration ledger has no gaps.  Over every sequence of services from a server without
  Migrations, the revisions of a Workspace are one, two, three and so on in the order they were applied,
  and the ledger only grows.\<close>

theorem migration_ledger_gapless:
  assumes "platform_step\<^sup>*\<^sup>* s0 s" "pl_migrations s0 = []" "platform_step\<^sup>*\<^sup>* s s'"
  shows "map mg_revision (ledger_of (pl_migrations s) w) = [1..<Suc (length (ledger_of (pl_migrations s) w))]
    \<and> (\<exists>ms. pl_migrations s' = pl_migrations s @ ms)"
proof (rule conjI)
  have "gapless (pl_migrations s)"
    using assms(1)
  proof (induction rule: rtranclp_induct)
    case base
    show ?case by (simp add: gapless_def ledger_of_def assms(2))
  next
    case (step t u)
    then show ?case using ledger_step [OF step(2)] gapless_next [OF step.IH] by auto
  qed
  then show "map mg_revision (ledger_of (pl_migrations s) w) = [1..<Suc (length (ledger_of (pl_migrations s) w))]"
    by (simp only: gapless_def)
  show "\<exists>ms. pl_migrations s' = pl_migrations s @ ms"
    using assms(3) by (induction rule: rtranclp_induct) (auto dest!: ledger_step)
qed

section \<open>Previews\<close>

definition as_apply :: "preview_input \<Rightarrow> preview_response \<Rightarrow> string \<Rightarrow> apply_input" where
  "as_apply q r name = \<lparr>ay_name = name, ay_sql = pi_sql q, ay_hash = pr_hash r, ay_expected = pr_revision r, ay_preview = pr_position r,
     ay_confirm = pi_confirm q, ay_approval = None\<rparr>"

lemma preview_facts:
  assumes "preview_migration E md c q s = (Inr r, s')"
  shows "\<exists>b. s' = s\<lparr>pl_server := b\<rparr>"
    and "\<exists>plan. migration_policy (me_engine E) (me_scanner E) (pi_sql q) (schema_of (ctx_ws c)) = Inr plan
      \<and> pr_statements r = mp_statements plan \<and> pr_destructive r = mp_destructive plan \<and> (mp_destructive plan \<longrightarrow> pi_confirm q)"
    and "pr_hash r = eg_sha (me_engine E) (pi_sql q)" "pr_revision r = int (current_revision s (ctx_ws c))"
    and "preview_event s' c (as_apply q r name) (pr_hash r) (pr_destructive r)"
proof -
  have wp: "with_platform (me_now E) c (preview_in E md c q) id s = Inr (r, s')"
    using assms by (auto simp: preview_migration_def Let_def split: sum.splits)
  obtain b where bound: "bound_by c b"
    and run: "preview_in E md c q b (s\<lparr>pl_server := touch_run (me_now E) (ctx_run c) (lock_workspace (ctx_ws c) (pl_server s))\<rparr>) = Inr (r, s')"
    using with_platform_cases [OF wp] by blast
  define t where "t = s\<lparr>pl_server := touch_run (me_now E) (ctx_run c) (lock_workspace (ctx_ws c) (pl_server s))\<rparr>"
  obtain plan and facts :: migration_facts where
    e: "pi_expected q = int (current_revision s (ctx_ws c))"
    and plan: "migration_policy (me_engine E) (me_scanner E) (pi_sql q) (schema_of (ctx_ws c)) = Inr plan" "mp_destructive plan \<longrightarrow> pi_confirm q"
    and out: "(r, s') = (let x = emit_on (me_now E) b ''migration.previewed'' (mf_tables facts) (Some (int (length (mp_statements plan))))
        (migration_metadata (pi_expected q) (eg_sha (me_engine E) (pi_sql q)) (mp_destructive plan)) t in
      (\<lparr>pr_revision = pi_expected q, pr_hash = eg_sha (me_engine E) (pi_sql q), pr_position = fst x, pr_statements = mp_statements plan,
        pr_destructive = mp_destructive plan, pr_locks = mf_locks facts\<rparr>, snd x))"
    using run [folded t_def] by (auto simp: preview_in_def Let_def ebind_Inr_iff check_plan_Inr split_beta t_def)
  show "\<exists>b. s' = s\<lparr>pl_server := b\<rparr>"
    using out by (auto simp: Let_def emit_on_def t_def split_beta)
  show "\<exists>plan. migration_policy (me_engine E) (me_scanner E) (pi_sql q) (schema_of (ctx_ws c)) = Inr plan
      \<and> pr_statements r = mp_statements plan \<and> pr_destructive r = mp_destructive plan \<and> (mp_destructive plan \<longrightarrow> pi_confirm q)"
    using plan out by (simp add: Let_def)
  show "pr_hash r = eg_sha (me_engine E) (pi_sql q)" "pr_revision r = int (current_revision s (ctx_ws c))"
    using out e by (simp_all add: Let_def)
  show "preview_event s' c (as_apply q r name) (pr_hash r) (pr_destructive r)"
    using out bound by (auto simp: Let_def emit_on_def emit_def preview_event_def as_apply_def migration_metadata_def bound_by_def t_def)
qed

text \<open>A preview changes nothing but the audit, and its receipt is the one an apply asks for.  The
  schema, the ledger, the Approvals and the gates stay as they were, and an apply of the same text that
  names the position, the hash and the revision of the response finds the preview.\<close>

theorem preview_receipt:
  assumes "preview_migration E md c q s = (Inr r, s')"
  shows "(\<exists>b. s' = s\<lparr>pl_server := b\<rparr>)
    \<and> (\<exists>plan. migration_policy (me_engine E) (me_scanner E) (pi_sql q) (schema_of (ctx_ws c)) = Inr plan
        \<and> pr_statements r = mp_statements plan \<and> pr_destructive r = mp_destructive plan \<and> (mp_destructive plan \<longrightarrow> pi_confirm q))
    \<and> pr_hash r = eg_sha (me_engine E) (pi_sql q) \<and> pr_revision r = int (current_revision s (ctx_ws c))
    \<and> preview_event s' c (as_apply q r name) (pr_hash r) (pr_destructive r)"
  by (intro conjI preview_facts [OF assms])

section \<open>Failures\<close>

text \<open>The platform but for at most one rejection of this caller with this reason.\<close>

definition only_rejected :: "run_context \<Rightarrow> string \<Rightarrow> 'w platform \<Rightarrow> 'w platform \<Rightarrow> bool" where
  "only_rejected c reason s s' \<longleftrightarrow>
     (\<exists>rs. s' = s\<lparr>pl_server := (pl_server s)\<lparr>bp_rejections := bp_rejections (pl_server s) @ rs\<rparr>\<rparr> \<and> length rs \<le> 1
        \<and> (\<forall>r\<in>set rs. rj_reason r = reason \<and> rj_ws r = Some (ctx_ws c) \<and> rj_principal r = ctx_principal c \<and> rj_run r = ctx_run c))"

lemma reject_only: "only_rejected c reason s (reject_on now c k os reason t s)"
proof (cases "is_code k \<and> is_code reason \<and> list_all is_object_name os")
  case True
  then show ?thesis unfolding only_rejected_def reject_on_def record_rejection_def
    by (intro exI [of _ "[\<lparr>rj_ws = Some (ctx_ws c), rj_principal = ctx_principal c, rj_run = ctx_run c, rj_user = ctx_user c, rj_kind = k,
          rj_objects = os, rj_reason = reason, rj_sqlstate = t, rj_at = now\<rparr>]"]) simp
next
  case False
  then show ?thesis unfolding only_rejected_def reject_on_def record_rejection_def by (intro exI [of _ "[]"]) auto
qed

lemma approval_code_status:
  "take 9 r = ''approval_'' \<Longrightarrow> approval_status r \<in> {404, 409, 422} \<Longrightarrow> approval_status r \<in> {403, 404, 408, 409, 422, 429, 503}"
  by auto

lemma sql_failure_status: "tf_status (sql_failure e) \<in> {403, 404, 408, 409, 422, 429, 503}"
  by (auto simp: sql_failure_def sql_failed_def Let_def split: option.splits)


section \<open>A worked Migration\<close>

definition demo_migration_db :: "unit migration_db" where
  "demo_migration_db = \<lparr>md_prepare = (\<lambda>b s w. Inr w), md_shapes = (\<lambda>w s. []), md_defaults = (\<lambda>w s. []), md_classes = (\<lambda>w s. []),
     md_statement = (\<lambda>s t w. Inr w), md_locks = (\<lambda>w. []), md_columns = (\<lambda>w s t. []), md_occupied = (\<lambda>w s t. False), md_stamped = (\<lambda>w s t. False),
     md_add_column = (\<lambda>s t n w. Inr w), md_create_stamp = (\<lambda>s t w. Inr w), md_enable_stamp = (\<lambda>s t w. Inr w), md_grant = (\<lambda>s t w. Inr w), md_collate = id\<rparr>"

definition demo_migration_env :: migration_env where
  "demo_migration_env = \<lparr>me_engine = demo_migration_engine, me_scanner = demo_scanner, me_now = 9\<rparr>"

definition demo_preview_input :: preview_input where
  "demo_preview_input = \<lparr>pi_name = ''notes'', pi_sql = ''sql'', pi_expected = 0, pi_confirm = True\<rparr>"

definition demo_author :: run_context where
  "demo_author = Principal_context 1 10 20 None"

definition demo_gate_approval :: approval where
  "demo_gate_approval = demo_approved\<lparr>ap_kind := ''migration'', ap_target := ''sql'', ap_version := ''0'', ap_hash := Some ''sql'', ap_table := None,
     ap_key := None, ap_preview := Some 2\<rparr>"

definition demo_migrating :: "unit platform" where
  "demo_migrating = demo_platform\<lparr>pl_approvals := [demo_gate_approval],
     pl_gates := [\<lparr>ga_ws = 1, ga_kind = ''migration'', ga_selector = ''migration'', ga_enabled = True, ga_epoch = 3, ga_by = ''ann''\<rparr>]\<rparr>"

definition demo_previewed :: "(tx_failure + preview_response) \<times> unit platform" where
  "demo_previewed = preview_migration demo_migration_env demo_migration_db demo_author demo_preview_input demo_migrating"

definition demo_apply_input :: apply_input where
  "demo_apply_input = (as_apply demo_preview_input (projr (fst demo_previewed)) ''notes'')\<lparr>ay_approval := Some 5\<rparr>"

definition demo_applied :: "(tx_failure + migration_row) \<times> unit platform" where
  "demo_applied = apply_migration demo_migration_env demo_migration_db demo_author demo_apply_input (snd demo_previewed)"

lemma demo_migration_runs:
  "fst demo_previewed = Inr \<lparr>pr_revision = 0, pr_hash = ''sql'', pr_position = 2, pr_statements = mp_statements demo_migration_plan,
     pr_destructive = True, pr_locks = []\<rparr>"
  "map ap_consumed (pl_approvals (snd demo_applied)) = [Some 3]" "\<not> isl (fst demo_applied)"
  "mt_epoch (migration_target (snd demo_previewed) 1) \<noteq> None"
  by code_simp+

lemma demo_applied_run: "apply_migration demo_migration_env demo_migration_db (Principal_context 1 10 20 None) demo_apply_input (snd demo_previewed)
    = (Inr (projr (fst demo_applied)), snd demo_applied)"
  using demo_migration_runs(3) by (metis demo_applied_def demo_author_def prod.collapse sum.collapse(2))

theorem migration_applied_witness:
  "pl_migrations (snd demo_applied) = pl_migrations (snd demo_previewed) @ [projr (fst demo_applied)]
   \<and> mg_revision (projr (fst demo_applied)) = Suc (current_revision (snd demo_previewed) 1)
   \<and> (\<exists>a. approved_for 9 demo_author demo_apply_input (ay_hash demo_apply_input) (snd demo_previewed) a)"
  using migration_applied [OF demo_applied_run] demo_migration_runs(4) by (auto simp: demo_author_def demo_migration_env_def)

theorem migration_ledger_gapless_witness:
  "map mg_revision (ledger_of (pl_migrations (snd demo_applied)) 1) = [1] \<and> length (ledger_of (pl_migrations (snd demo_applied)) 1) = 1"
proof -
  have steps: "platform_step\<^sup>*\<^sup>* demo_migrating (snd demo_applied)"
    unfolding demo_applied_def demo_previewed_def demo_author_def
    by (rule rtranclp.rtrancl_into_rtrancl [OF r_into_rtranclp]) (rule platform_step.intros)+
  have start: "pl_migrations demo_migrating = []" by (simp add: demo_migrating_def demo_platform_def)
  have one: "length (ledger_of (pl_migrations (snd demo_applied)) 1) = 1" by code_simp
  show ?thesis using migration_ledger_gapless [OF steps start rtranclp.rtrancl_refl, of 1] one by simp
qed

theorem preview_receipt_witness:
  "\<exists>r. fst demo_previewed = Inr r \<and> pr_position r = 2
    \<and> preview_event (snd demo_previewed) demo_author (as_apply demo_preview_input r ''notes'') (pr_hash r) (pr_destructive r)"
proof -
  obtain r where r: "fst demo_previewed = Inr r" "pr_position r = 2" using demo_migration_runs(1) by simp
  have run: "preview_migration demo_migration_env demo_migration_db demo_author demo_preview_input demo_migrating = (Inr r, snd demo_previewed)"
    using r(1) by (metis demo_previewed_def prod.collapse)
  show ?thesis using preview_receipt [OF run] r by blast
qed

text \<open>Applying it again fails: the revision has moved.\<close>

definition demo_stale :: "(tx_failure + migration_row) \<times> unit platform" where
  "demo_stale = apply_migration demo_migration_env demo_migration_db demo_author demo_apply_input (snd demo_applied)"


end
