(* ===== verification/StreamInput.thy ===== *)
theory StreamInput
  imports ListingProps JsonText
begin

text \<open>\<open>events/stream-audit-input.ts\<close> and \<open>events/stream-admission.ts\<close>: the cursor of an audit
  stream, its check against the state of the audit, and the admission of a stream.  A position is read
  from its decimal text; a generation and a Workspace are uuid texts.\<close>

section \<open>Decimal positions\<close>

definition max_position :: int where
  "max_position = 9223372036854775807"

text \<open>The pattern \<open>/^(0|[1-9][0-9]*)$/\<close>.\<close>

definition is_decimal :: "string \<Rightarrow> bool" where
  "is_decimal t \<longleftrightarrow> t = ''0'' \<or> starts_then (\<lambda>c. is_digit c \<and> c \<noteq> CHR ''0'') is_digit t"

definition parse_position :: "string \<Rightarrow> nat option" where
  "parse_position t = (if is_decimal t \<and> length t \<le> 19 \<and> int (digits_nat t) \<le> max_position then Some (digits_nat t) else None)"

section \<open>Cursors\<close>

record stream_cursor =
  sc_after :: nat
  sc_generation :: "string option"
  sc_workspace :: "string option"

record cursor_state =
  cs_generation :: string
  cs_head :: nat
  cs_floor :: nat

datatype stream_error = Stream_error string | Cursor_expired cursor_state

text \<open>\<open>text.split(":")\<close>.\<close>

fun split_colon :: "string \<Rightarrow> string list" where
  "split_colon [] = [[]]"
| "split_colon (c # cs) = (if c = CHR '':'' then [] # split_colon cs else
     (case split_colon cs of [] \<Rightarrow> [[c]] | w # ws \<Rightarrow> (c # w) # ws))"

definition cursor_parts :: "string option \<Rightarrow> (string \<times> string) list \<Rightarrow> (string \<times> string option \<times> string option) option" where
  "cursor_parts token query =
     (case token of
        None \<Rightarrow> Some ((case map_of query ''since'' of Some t \<Rightarrow> t | None \<Rightarrow> ''0''), map_of query ''generation'', None)
      | Some t \<Rightarrow> (case split_colon t of
          [v, w, g, n] \<Rightarrow> if v = ''v1'' \<and> length w = 36 \<and> is_uuid w then Some (n, Some g, Some w) else None
        | _ \<Rightarrow> None))"

definition parse_stream_cursor :: "string option \<Rightarrow> (string \<times> string) list \<Rightarrow> stream_cursor option" where
  "parse_stream_cursor token query =
     (if list_ex (\<lambda>k. fst k \<noteq> ''since'' \<and> fst k \<noteq> ''generation'') query then None
      else (case cursor_parts token query of
          None \<Rightarrow> None
        | Some (t, g, w) \<Rightarrow>
            (case parse_position t of
               None \<Rightarrow> None
             | Some n \<Rightarrow>
                 if (case g of Some x \<Rightarrow> length x \<noteq> 36 \<or> \<not> is_uuid x | None \<Rightarrow> False) \<or> t \<noteq> ''0'' \<and> g = None then None
                 else Some \<lparr>sc_after = n, sc_generation = map_option to_lower g, sc_workspace = map_option to_lower w\<rparr>)))"

definition validate_stream_cursor :: "stream_cursor \<Rightarrow> string \<Rightarrow> cursor_state \<Rightarrow> stream_error option" where
  "validate_stream_cursor c ws st =
     (if (sc_workspace c \<noteq> None \<and> sc_workspace c \<noteq> Some ws) \<or> (sc_generation c \<noteq> None \<and> sc_generation c \<noteq> Some (cs_generation st))
        \<or> sc_after c < cs_floor st \<or> cs_head st < sc_after c then Some (Cursor_expired st) else None)"

fun stream_error_status :: "stream_error \<Rightarrow> nat" where
  "stream_error_status (Cursor_expired st) = 409"
| "stream_error_status (Stream_error e) =
     (if e = ''invalid_input'' then 422 else if e = ''unauthorized'' then 401
      else if e = ''workspace_forbidden'' \<or> e = ''invocation_scope_forbidden'' then 403
      else if e = ''stream_limit_exceeded'' then 429 else 503)"

text \<open>The id of a frame.\<close>

definition event_id :: "string \<Rightarrow> string \<Rightarrow> nat \<Rightarrow> string" where
  "event_id ws gen n = ''v1:'' @ ws @ '':'' @ gen @ '':'' @ nat_text n"

section \<open>Admission\<close>

record stream_counts =
  sn_app :: nat
  sn_workspace :: nat
  sn_actor :: nat

definition admit_stream :: "stream_counts \<Rightarrow> stream_counts \<Rightarrow> bool" where
  "admit_stream counts limits \<longleftrightarrow> sn_app counts < sn_app limits \<and> sn_workspace counts < sn_workspace limits \<and> sn_actor counts < sn_actor limits"

section \<open>An id is a cursor\<close>

lemma split_colon_none: "CHR '':'' \<notin> set t \<Longrightarrow> split_colon t = [t]"
  by (induction t) auto

lemma split_colon_append: "CHR '':'' \<notin> set t \<Longrightarrow> split_colon (t @ CHR '':'' # u) = t # split_colon u"
  by (induction t) auto

lemma uuid_text_chars: "c \<in> set (uuid_text n) \<Longrightarrow> c = CHR ''-'' \<or> is_hex c"
  using uuid_text_lower [of n] unfolding is_uuid_lower_def
  by (auto simp: list_all2_conv_all_nth in_set_conv_nth split: if_splits)

lemma hex_char: "\<not> is_hex (CHR '':'')" "\<not> is_digit (CHR '':'')" "lower_char (CHR ''-'') = CHR ''-''"
  by code_simp+

lemma lower_hex_char: "is_hex c \<Longrightarrow> lower_char c = c"
proof -
  have "list_all (\<lambda>c. lower_char c = c) ''0123456789abcdef''" by code_simp
  then show "is_hex c \<Longrightarrow> lower_char c = c" unfolding is_hex_def list_all_iff by blast
qed

lemma no_colon_uuid: "CHR '':'' \<notin> set (uuid_text n)"
proof
  assume "CHR '':'' \<in> set (uuid_text n)"
  from uuid_text_chars [OF this] show False using hex_char(1) by simp
qed

lemma lower_text: "to_lower (uuid_text n) = uuid_text n"
  unfolding to_lower_def by (rule map_idI) (metis uuid_text_chars lower_hex_char hex_char(3))

lemma no_colon_nat: "CHR '':'' \<notin> set (nat_text n)"
  using nat_text_digits(1) [of n] hex_char(2) unfolding list_all_iff by metis

lemma nat_text_length: "n < 10 ^ k \<Longrightarrow> 0 < k \<Longrightarrow> length (nat_text n) \<le> k"
proof (induction k arbitrary: n)
  case (Suc k)
  show ?case
  proof (cases "n < 10")
    case False
    then have "k \<noteq> 0" using Suc.prems by (cases k) auto
    moreover have "n div 10 < 10 ^ k" using Suc.prems(1) by (simp add: less_mult_imp_div_less mult.commute)
    ultimately have "length (nat_text (n div 10)) \<le> k" using Suc.IH [of "n div 10"] by simp
    then show ?thesis using False by (subst nat_text.simps) simp
  qed (subst nat_text.simps, simp)
qed simp

lemma nat_text_decimal: "is_decimal (nat_text n)"
proof (cases "n = 0")
  case True
  then show ?thesis by (subst nat_text.simps) (simp add: is_decimal_def digit_char_def)
next
  case False
  then have "starts_then (\<lambda>c. is_digit c \<and> c \<noteq> CHR ''0'') is_digit (nat_text n)"
  proof (induction n rule: nat_text.induct)
    case (1 n)
    show ?case
    proof (cases "n < 10")
      case True
      then have "n \<in> {1, 2, 3, 4, 5, 6, 7, 8, 9}" using "1.prems" by auto
      then show ?thesis using True by (subst nat_text.simps) (auto simp: digit_char_def is_digit_def)
    next
      case False
      then have "starts_then (\<lambda>c. is_digit c \<and> c \<noteq> CHR ''0'') is_digit (nat_text (n div 10))" using "1.IH" by auto
      then show ?thesis using False by (subst nat_text.simps, cases "nat_text (n div 10)") (auto simp: digit_char_ok)
    qed
  qed
  then show ?thesis by (simp add: is_decimal_def)
qed

lemma parse_position_text: "int n \<le> max_position \<Longrightarrow> parse_position (nat_text n) = Some n"
  using nat_text_length [of n 19] by (simp add: parse_position_def nat_text_decimal digits_nat_text max_position_def del: nat_text.simps)

text \<open>The id of a frame is the cursor after it.  A client that reconnects with the id of the last
  event it saw asks for the events after that position, of that generation and Workspace.\<close>

theorem event_id_resumes:
  assumes "int n \<le> max_position"
  shows "parse_stream_cursor (Some (event_id (uuid_text w) (uuid_text g) n)) []
    = Some \<lparr>sc_after = n, sc_generation = Some (uuid_text g), sc_workspace = Some (uuid_text w)\<rparr>"
proof -
  have "split_colon (event_id (uuid_text w) (uuid_text g) n) = [''v1'', uuid_text w, uuid_text g, nat_text n]"
    by (simp add: event_id_def split_colon_append split_colon_none no_colon_uuid no_colon_nat del: nat_text.simps)
  moreover have "length (uuid_text w) = 36" "length (uuid_text g) = 36" using uuid_text_is_uuid is_uuid_length by blast+
  ultimately show ?thesis
    by (simp add: parse_stream_cursor_def cursor_parts_def uuid_text_is_uuid parse_position_text assms lower_text del: nat_text.simps)
qed

theorem event_id_resumes_witness:
  "parse_stream_cursor (Some (event_id (uuid_text 1) (uuid_text 2) 77)) []
    = Some \<lparr>sc_after = 77, sc_generation = Some (uuid_text 2), sc_workspace = Some (uuid_text 1)\<rparr>"
  by (rule event_id_resumes) (simp add: max_position_def)

end
