(* ===== verification/AuditStream.thy ===== *)
theory AuditStream
  imports StreamInput
begin

text \<open>\<open>events/stream-audit.ts\<close>: the snapshots an audit stream reads and the stream that sends them.  A
  snapshot is one query, a function of what the database holds when it runs; the stream is a record of
  its variables, and every callback of the source (tick, end of a query, pull, abort, cancel) is an
  operation on it.  The controller's queue holds the chunks not yet read; \<open>st_read\<close> those the
  consumer has taken.  Times are in milliseconds.\<close>

section \<open>Snapshots\<close>

definition stream_bytes :: int where
  "stream_bytes = 262144"

record audit_view =
  av_denied :: "string option"
  av_actor :: string
  av_gated :: bool
  av_generation :: "string option"
  av_head :: nat
  av_floor :: nat
  av_events :: "(nat \<times> string) list"

datatype snapshot = Snapshot_failed stream_error | Snapshot_ok string cursor_state "(nat \<times> string) list"

text \<open>The frames whose running total stays within the limit.\<close>

fun within_bytes :: "int \<Rightarrow> (nat \<times> string) list \<Rightarrow> (nat \<times> string) list" where
  "within_bytes n [] = []"
| "within_bytes n (x # xs) = (if octets (snd x) \<le> n then x # within_bytes (n - octets (snd x)) xs else [])"

definition candidates :: "audit_view \<Rightarrow> string \<Rightarrow> stream_cursor \<Rightarrow> (nat \<times> string) list" where
  "candidates v ws c =
     (if av_gated v \<or> sc_after c < av_floor v \<or> av_head v < sc_after c
        \<or> (sc_generation c \<noteq> None \<and> sc_generation c \<noteq> av_generation v) \<or> (sc_workspace c \<noteq> None \<and> sc_workspace c \<noteq> Some ws)
      then [] else take 100 (filter (\<lambda>x. sc_after c < fst x \<and> fst x \<le> av_head v) (av_events v)))"

definition audit_snapshot :: "audit_view \<Rightarrow> string \<Rightarrow> stream_cursor \<Rightarrow> bool \<Rightarrow> snapshot" where
  "audit_snapshot v ws c data =
     (let rows = (if data then candidates v ws c else []) in
      case av_denied v of
        Some d \<Rightarrow> Snapshot_failed (Stream_error d)
      | None \<Rightarrow>
          (case av_generation v of
             None \<Rightarrow> Snapshot_failed (Stream_error ''events_unavailable'')
           | Some g \<Rightarrow>
               let st = \<lparr>cs_generation = g, cs_head = av_head v, cs_floor = av_floor v\<rparr> in
               if av_gated v then Snapshot_failed (Cursor_expired st)
               else (case validate_stream_cursor c ws st of
                   Some e \<Rightarrow> Snapshot_failed e
                 | None \<Rightarrow> if (case rows of [] \<Rightarrow> False | x # xs \<Rightarrow> stream_bytes < octets (snd x)) then Snapshot_failed (Stream_error ''event_too_large'')
                     else Snapshot_ok (av_actor v) st (within_bytes stream_bytes rows))))"

section \<open>The stream\<close>

datatype chunk = Ready_chunk string | Audit_chunk nat string | Heartbeat_chunk | Error_chunk string

text \<open>A data tick waits for its query, then for the rest of its turn.\<close>

datatype data_tick = Idle | Querying time nat | Answered time snapshot

record audit_stream =
  st_state :: cursor_state
  st_actor :: string
  st_after :: nat
  st_frames :: "(nat \<times> string) list"
  st_offset :: nat
  st_closed :: bool
  st_data :: data_tick
  st_access :: "nat option"
  st_progress :: time
  st_heartbeat :: time
  st_queue :: "chunk list"
  st_read :: "chunk list"
  st_released :: bool

definition line :: "string \<Rightarrow> string" where
  "line t = t @ [CHR 0x0A]"

definition heartbeat_text :: string where
  "heartbeat_text = line ''event: heartbeat'' @ line ''data: {}'' @ line ''''"

fun error_json :: "stream_error \<Rightarrow> jval" where
  "error_json (Stream_error e) = JObj [(''error'', JStr e)]"
| "error_json (Cursor_expired st) = JObj [(''error'', JStr ''cursor_expired''), (''resync'', JBool True), (''generation'', JStr (cs_generation st)),
     (''head'', JStr (nat_text (cs_head st))), (''retentionFloor'', JStr (nat_text (cs_floor st)))]"

definition error_text :: "stream_error \<Rightarrow> string" where
  "error_text e = line ''event: error'' @ line (''data: '' @ json_text (error_json e)) @ line ''''"

definition ready_text :: "string \<Rightarrow> cursor_state \<Rightarrow> nat \<Rightarrow> string" where
  "ready_text ws st pos =
     line ''event: ready'' @ line (''id: '' @ event_id ws (cs_generation st) pos)
     @ line (''data: '' @ json_text (JObj [(''generation'', JStr (cs_generation st)), (''after'', JStr (nat_text pos)),
         (''head'', JStr (nat_text (cs_head st))), (''retentionFloor'', JStr (nat_text (cs_floor st)))])) @ line ''''"

fun chunk_text :: "chunk \<Rightarrow> string" where
  "chunk_text (Ready_chunk t) = t"
| "chunk_text (Audit_chunk n t) = t"
| "chunk_text Heartbeat_chunk = heartbeat_text"
| "chunk_text (Error_chunk t) = t"

definition queued :: "audit_stream \<Rightarrow> int" where
  "queued s = sum_list (map (\<lambda>c. octets (chunk_text c)) (st_queue s))"

definition desired_size :: "audit_stream \<Rightarrow> int" where
  "desired_size s = stream_bytes - queued s"

definition enqueue :: "chunk \<Rightarrow> audit_stream \<Rightarrow> audit_stream" where
  "enqueue c s = s\<lparr>st_queue := st_queue s @ [c]\<rparr>"

definition cleanup :: "audit_stream \<Rightarrow> audit_stream" where
  "cleanup s = (if st_closed s then s else s\<lparr>st_closed := True, st_frames := []\<rparr>)"

definition finish_stream :: "stream_error option \<Rightarrow> audit_stream \<Rightarrow> audit_stream" where
  "finish_stream e s =
     (if st_closed s then s
      else cleanup (case e of None \<Rightarrow> s
        | Some x \<Rightarrow> if octets (error_text x) \<le> desired_size s then enqueue (Error_chunk (error_text x)) s else s))"

fun flush_frames :: "time \<Rightarrow> (nat \<times> string) list \<Rightarrow> audit_stream \<Rightarrow> audit_stream" where
  "flush_frames now [] s = s"
| "flush_frames now (x # xs) s =
     (if desired_size s < octets (snd x) then s
      else flush_frames now xs (enqueue (Audit_chunk (fst x) (snd x))
             (s\<lparr>st_after := fst x, st_offset := Suc (st_offset s), st_progress := now\<rparr>)))"

definition flush :: "time \<Rightarrow> audit_stream \<Rightarrow> audit_stream" where
  "flush now s =
     (let s' = (if st_closed s then s else flush_frames now (drop (st_offset s) (st_frames s)) s) in
      if st_offset s' = length (st_frames s') then s'\<lparr>st_frames := [], st_offset := 0\<rparr> else s')"

text \<open>\<open>dataTick\<close> up to its query, and from its answer on.\<close>

definition data_begin :: "time \<Rightarrow> audit_stream \<Rightarrow> audit_stream" where
  "data_begin now s =
     (if st_closed s \<or> st_data s \<noteq> Idle then s
      else if 30000 \<le> now - st_progress s then finish_stream (Some (Stream_error ''slow_consumer'')) s
      else (let s1 = flush now s in
        if st_frames s1 \<noteq> [] \<or> desired_size s1 < stream_bytes then s1 else s1\<lparr>st_data := Querying now (st_after s1)\<rparr>))"

definition stream_view_for :: "string option \<Rightarrow> audit_view \<Rightarrow> audit_view" where
  "stream_view_for actor v = (case actor of None \<Rightarrow> v | Some a \<Rightarrow> v\<lparr>av_denied := None, av_actor := a\<rparr>)"

definition data_query :: "string \<Rightarrow> audit_view option \<Rightarrow> audit_stream \<Rightarrow> audit_stream" where
  "data_query ws v s =
     (case st_data s of
        Querying now n \<Rightarrow> s\<lparr>st_data := Answered now (case v of
            None \<Rightarrow> Snapshot_failed (Stream_error ''events_unavailable'')
          | Some x \<Rightarrow> audit_snapshot (stream_view_for (Some (st_actor s)) x) ws
              \<lparr>sc_after = n, sc_generation = Some (cs_generation (st_state s)), sc_workspace = None\<rparr> True)\<rparr>
      | _ \<Rightarrow> s)"

definition beat :: "time \<Rightarrow> audit_stream \<Rightarrow> audit_stream" where
  "beat now s =
     (if st_frames s = [] \<and> 15000 \<le> now - st_heartbeat s \<and> octets heartbeat_text \<le> desired_size s
      then (enqueue Heartbeat_chunk s)\<lparr>st_progress := now, st_heartbeat := now\<rparr> else s)"

definition data_end :: "time \<Rightarrow> audit_stream \<Rightarrow> audit_stream" where
  "data_end t s =
     (case st_data s of
        Answered now r \<Rightarrow>
          (let s1 = s\<lparr>st_data := Idle\<rparr> in
           if st_closed s then s1
           else (case r of
               Snapshot_failed e \<Rightarrow> finish_stream (Some e) s1
             | Snapshot_ok a st frames \<Rightarrow> beat now (flush t (s1\<lparr>st_frames := frames\<rparr>))))
      | _ \<Rightarrow> s)"

definition access_begin :: "audit_stream \<Rightarrow> audit_stream" where
  "access_begin s = (if st_closed s \<or> st_access s \<noteq> None then s else s\<lparr>st_access := Some (st_after s)\<rparr>)"

definition access_end :: "string \<Rightarrow> audit_view option \<Rightarrow> audit_stream \<Rightarrow> audit_stream" where
  "access_end ws v s =
     (case st_access s of
        None \<Rightarrow> s
      | Some n \<Rightarrow>
          (case (case v of None \<Rightarrow> Snapshot_failed (Stream_error ''events_unavailable'')
              | Some x \<Rightarrow> audit_snapshot x ws \<lparr>sc_after = n, sc_generation = Some (cs_generation (st_state s)), sc_workspace = None\<rparr> False) of
            Snapshot_failed e \<Rightarrow> finish_stream (Some e) (s\<lparr>st_access := None\<rparr>)
          | Snapshot_ok a st frames \<Rightarrow> s\<lparr>st_access := None\<rparr>))"

definition read_chunk :: "audit_stream \<Rightarrow> audit_stream" where
  "read_chunk s = (case st_queue s of [] \<Rightarrow> s | c # cs \<Rightarrow> s\<lparr>st_queue := cs, st_read := st_read s @ [c]\<rparr>)"

definition pull :: "time \<Rightarrow> audit_stream \<Rightarrow> audit_stream" where
  "pull now s = (if st_closed s then s else flush now s)"

definition cancel_stream :: "audit_stream \<Rightarrow> audit_stream" where
  "cancel_stream s = (cleanup s)\<lparr>st_queue := []\<rparr>"

text \<open>The admission is released when the work under way has settled.\<close>

definition release_stream :: "audit_stream \<Rightarrow> audit_stream" where
  "release_stream s = (if st_closed s \<and> st_data s = Idle \<and> st_access s = None then s\<lparr>st_released := True\<rparr> else s)"

definition open_stream :: "time \<Rightarrow> string \<Rightarrow> nat \<Rightarrow> string \<Rightarrow> cursor_state \<Rightarrow> (nat \<times> string) list \<Rightarrow> audit_stream" where
  "open_stream now ws pos actor st frames =
     \<lparr>st_state = st, st_actor = actor, st_after = pos, st_frames = frames, st_offset = 0, st_closed = False, st_data = Idle,
      st_access = None, st_progress = now, st_heartbeat = now, st_queue = [Ready_chunk (ready_text ws st pos)], st_read = [], st_released = False\<rparr>"

end
