(* ===== verification/AuditStreamProps.thy ===== *)
theory AuditStreamProps
  imports AuditStream "HOL-Library.Sublist"
begin

text \<open>An audit stream beside a serving Backplane: what the consumer has been sent is the audit log from
  the cursor on, without gap or repetition, in bounded memory; and an idle stream makes progress.\<close>

section \<open>The view of a server\<close>

text \<open>The text PostgreSQL gives a JSON value and a timestamp.\<close>

record stream_env =
  se_crypto :: crypto
  se_json :: "jval \<Rightarrow> string"
  se_clock :: "time \<Rightarrow> string"

definition uuid_json :: "uuid option \<Rightarrow> jval" where
  "uuid_json v = (case v of None \<Rightarrow> JNull | Some i \<Rightarrow> JStr (uuid_text i))"

definition frame_text :: "stream_env \<Rightarrow> string \<Rightarrow> string \<Rightarrow> audit_event \<Rightarrow> string" where
  "frame_text R ws gen e =
     line ''event: audit'' @ line (''id: '' @ event_id ws gen (ae_position e))
     @ line (''data: '' @ se_json R (JObj
        [(''position'', JStr (nat_text (ae_position e))), (''kind'', JStr (ae_kind e)), (''objects'', JArr (map JStr (ae_objects e))),
         (''row_count'', (case ae_rows e of None \<Rightarrow> JNull | Some n \<Rightarrow> JStr (int_text n))), (''occurred_at'', JStr (se_clock R (ae_at e))),
         (''principal_id'', uuid_json (ae_principal e)), (''run_id'', uuid_json (ae_run e)),
         (''user_id'', (case ae_user e of None \<Rightarrow> JNull | Some u \<Rightarrow> JStr u)), (''metadata'', JObj (ae_metadata e))])) @ line ''''"

text \<open>The facts of a snapshot that are not the log's: authorization, restore gate, generation, floor.\<close>

record stream_facts =
  fx_denied :: "string option"
  fx_actor :: string
  fx_gated :: bool
  fx_generation :: "string option"
  fx_floor :: nat

definition workspace_events :: "backplane \<Rightarrow> uuid \<Rightarrow> audit_event list" where
  "workspace_events s w = filter (\<lambda>e. ae_ws e = w) (bp_events s)"

definition server_view :: "stream_env \<Rightarrow> uuid \<Rightarrow> stream_facts \<Rightarrow> backplane \<Rightarrow> audit_view" where
  "server_view R w fx s =
     \<lparr>av_denied = fx_denied fx, av_actor = fx_actor fx, av_gated = fx_gated fx, av_generation = fx_generation fx,
      av_head = last_position s w, av_floor = fx_floor fx,
      av_events = map (\<lambda>e. (ae_position e, frame_text R (uuid_text w) (case fx_generation fx of Some g \<Rightarrow> g | None \<Rightarrow> []) e)) (workspace_events s w)\<rparr>"

text \<open>All interleavings of a serving Backplane and one stream of a Workspace opened at a cursor.\<close>

inductive streaming :: "stream_env \<Rightarrow> uuid \<Rightarrow> nat \<Rightarrow> backplane \<Rightarrow> audit_stream \<Rightarrow> bool" for R w a where
  opened: "serving (se_crypto R) s \<Longrightarrow>
    audit_snapshot (server_view R w fx s) (uuid_text w) \<lparr>sc_after = a, sc_generation = g, sc_workspace = v\<rparr> True = Snapshot_ok actor st frames
    \<Longrightarrow> streaming R w a s (open_stream now (uuid_text w) a actor st frames)"
| served: "streaming R w a s x \<Longrightarrow> streaming R w a (snd (serve_queue (se_crypto R) now c rq s)) x"
| controlled: "streaming R w a s x \<Longrightarrow> streaming R w a (s\<lparr>bp_ctl := ct, bp_deployed := dp, bp_tokens := tk, bp_keys := ky, bp_quotas := qt\<rparr>) x"
| tick: "streaming R w a s x \<Longrightarrow> streaming R w a s (data_begin now x)"
| query: "streaming R w a s x \<Longrightarrow> streaming R w a s (data_query (uuid_text w) (Some (server_view R w fx s)) x)"
| query_failed: "streaming R w a s x \<Longrightarrow> streaming R w a s (data_query (uuid_text w) None x)"
| answer: "streaming R w a s x \<Longrightarrow> streaming R w a s (data_end now x)"
| access: "streaming R w a s x \<Longrightarrow> streaming R w a s (access_begin x)"
| accessed: "streaming R w a s x \<Longrightarrow> streaming R w a s (access_end (uuid_text w) v x)"
| read: "streaming R w a s x \<Longrightarrow> streaming R w a s (read_chunk x)"
| pulled: "streaming R w a s x \<Longrightarrow> streaming R w a s (pull now x)"
| aborted: "streaming R w a s x \<Longrightarrow> streaming R w a s (finish_stream None x)"
| cancelled: "streaming R w a s x \<Longrightarrow> streaming R w a s (cancel_stream x)"
| released: "streaming R w a s x \<Longrightarrow> streaming R w a s (release_stream x)"

section \<open>The frames on the way\<close>

text \<open>The frames of the log, in the order of their positions.\<close>

definition log_frames :: "stream_env \<Rightarrow> uuid \<Rightarrow> string \<Rightarrow> backplane \<Rightarrow> (nat \<times> string) list" where
  "log_frames R w g s = map (\<lambda>e. (ae_position e, frame_text R (uuid_text w) g e)) (workspace_events s w)"

fun audit_chunks :: "chunk list \<Rightarrow> (nat \<times> string) list" where
  "audit_chunks [] = []"
| "audit_chunks (Audit_chunk n t # cs) = (n, t) # audit_chunks cs"
| "audit_chunks (c # cs) = audit_chunks cs"

lemma audit_chunks_append [simp]: "audit_chunks (cs @ ds) = audit_chunks cs @ audit_chunks ds"
  by (induction cs rule: audit_chunks.induct) auto

lemma audit_chunks_map [simp]: "audit_chunks (map (\<lambda>x. Audit_chunk (fst x) (snd x)) xs) = xs"
  by (induction xs) auto

text \<open>A log whose positions count from one.\<close>

definition counted :: "(nat \<times> string) list \<Rightarrow> bool" where
  "counted fs \<longleftrightarrow> map fst fs = [1..<Suc (length fs)]"

lemma counted_nth:
  assumes "counted fs" "i < length fs"
  shows "fst (fs ! i) = Suc i"
proof -
  have "map fst fs ! i = [1..<Suc (length fs)] ! i" using assms(1) by (simp add: counted_def)
  then show ?thesis using assms(2) by (simp add: nth_upt del: upt_Suc)
qed

lemma log_positions:
  assumes "serving (se_crypto R) s"
  shows "map fst (log_frames R w g s) = [1..<Suc (last_position s w)]"
  using serving_ok [OF assms]
  by (auto simp: server_ok_def audit_ok_def positions_def log_frames_def workspace_events_def comp_def simp del: upt_Suc)

lemma log_length: "serving (se_crypto R) s \<Longrightarrow> length (log_frames R w g s) = last_position s w"
  using arg_cong [OF log_positions, of R s length w g] by (simp del: upt_Suc)

lemma counted_log: "serving (se_crypto R) s \<Longrightarrow> counted (log_frames R w g s)"
  unfolding counted_def by (simp add: log_positions log_length del: upt_Suc)

lemma counted_filter_from:
  "map fst fs = [Suc b..<Suc (b + length fs)] \<Longrightarrow> filter (\<lambda>x. m < fst x \<and> fst x \<le> n) fs = drop (m - b) (take (n - b) fs)"
proof (induction fs arbitrary: b)
  case (Cons y ys)
  have "map fst (y # ys) = Suc b # [Suc (Suc b)..<Suc (Suc b + length ys)]"
    using Cons.prems by (simp add: upt_conv_Cons del: upt_Suc)
  then have y: "fst y = Suc b" and ys: "map fst ys = [Suc (Suc b)..<Suc (Suc b + length ys)]" by (simp_all del: upt_Suc)
  note IH = Cons.IH [OF ys]
  show ?case
  proof (cases "b < n")
    case True
    then have "n - b = Suc (n - Suc b)" by simp
    moreover have "b < m \<Longrightarrow> m - b = Suc (m - Suc b)" by simp
    ultimately show ?thesis using True y IH by (cases "b < m") (simp_all del: upt_Suc)
  next
    case False
    then show ?thesis using y IH by (simp del: upt_Suc)
  qed
qed simp

lemma counted_filter: "counted fs \<Longrightarrow> filter (\<lambda>x. m < fst x \<and> fst x \<le> n) fs = drop m (take n fs)"
  using counted_filter_from [of fs 0 m n] by (simp add: counted_def del: upt_Suc)

text \<open>What a stream holds, over the whole log: everything sent up to a position \<open>m\<close>, which is the
  cursor unless it was closed; the frames waiting behind the cursor continue the log, and so does an
  answer that is still to be taken.\<close>

definition answer_ok :: "(nat \<times> string) list \<Rightarrow> audit_stream \<Rightarrow> bool" where
  "answer_ok fs x \<longleftrightarrow> (case st_data x of
      Idle \<Rightarrow> True
    | Querying t n \<Rightarrow> st_frames x = [] \<and> n = st_after x
    | Answered t r \<Rightarrow> st_frames x = [] \<and> (case r of Snapshot_failed e \<Rightarrow> True | Snapshot_ok b st frames \<Rightarrow> prefix frames (drop (st_after x) fs)))"

definition sent_up_to :: "(nat \<times> string) list \<Rightarrow> nat \<Rightarrow> nat \<Rightarrow> audit_stream \<Rightarrow> bool" where
  "sent_up_to fs a m x \<longleftrightarrow> audit_chunks (st_read x @ st_queue x) = drop a (take m fs)"

definition sending :: "(nat \<times> string) list \<Rightarrow> nat \<Rightarrow> audit_stream \<Rightarrow> bool" where
  "sending fs a x \<longleftrightarrow> sent_up_to fs a (st_after x) x \<and> prefix (drop (st_offset x) (st_frames x)) (drop (st_after x) fs)
     \<and> st_offset x \<le> length (st_frames x) \<and> (st_frames x = [] \<longrightarrow> st_offset x = 0) \<and> answer_ok fs x"

definition stream_ok :: "(nat \<times> string) list \<Rightarrow> nat \<Rightarrow> audit_stream \<Rightarrow> bool" where
  "stream_ok fs a x \<longleftrightarrow> a \<le> st_after x \<and> st_after x \<le> length fs \<and> (\<exists>m\<le>st_after x. sent_up_to fs a m x)
     \<and> (\<not> st_closed x \<longrightarrow> sending fs a x)"

section \<open>Flushing\<close>

lemma flush_frames_run:
  "\<exists>k p. k \<le> length xs \<and> flush_frames now xs x = x\<lparr>st_after := (if k = 0 then st_after x else fst (xs ! (k - 1))),
     st_offset := st_offset x + k, st_progress := p, st_queue := st_queue x @ map (\<lambda>y. Audit_chunk (fst y) (snd y)) (take k xs)\<rparr>"
proof (induction xs arbitrary: x)
  case Nil
  show ?case by (intro exI [of _ 0] exI [of _ "st_progress x"]) simp
next
  case (Cons y ys)
  show ?case
  proof (cases "desired_size x < octets (snd y)")
    case True
    then show ?thesis by (intro exI [of _ 0] exI [of _ "st_progress x"]) simp
  next
    case False
    let ?x = "enqueue (Audit_chunk (fst y) (snd y)) (x\<lparr>st_after := fst y, st_offset := Suc (st_offset x), st_progress := now\<rparr>)"
    obtain k p where k: "k \<le> length ys" "flush_frames now ys ?x = ?x\<lparr>st_after := (if k = 0 then st_after ?x else fst (ys ! (k - 1))),
        st_offset := st_offset ?x + k, st_progress := p, st_queue := st_queue ?x @ map (\<lambda>y. Audit_chunk (fst y) (snd y)) (take k ys)\<rparr>"
      using Cons.IH [of ?x] by blast
    show ?thesis using False k by (intro exI [of _ "Suc k"] exI [of _ p]) (simp add: enqueue_def nth_Cons' )
  qed
qed

lemma flush_run:
  assumes "\<not> st_closed x" "st_offset x \<le> length (st_frames x)"
  obtains k p where "k \<le> length (st_frames x) - st_offset x"
    "flush now x = (let n = st_offset x + k; done = (n = length (st_frames x)) in
       x\<lparr>st_after := (if k = 0 then st_after x else fst (drop (st_offset x) (st_frames x) ! (k - 1))), st_progress := p,
         st_queue := st_queue x @ map (\<lambda>y. Audit_chunk (fst y) (snd y)) (take k (drop (st_offset x) (st_frames x))),
         st_frames := (if done then [] else st_frames x), st_offset := (if done then 0 else n)\<rparr>)"
proof -
  obtain k p where k: "k \<le> length (drop (st_offset x) (st_frames x))"
    "flush_frames now (drop (st_offset x) (st_frames x)) x = x\<lparr>st_after := (if k = 0 then st_after x else fst (drop (st_offset x) (st_frames x) ! (k - 1))),
     st_offset := st_offset x + k, st_progress := p, st_queue := st_queue x @ map (\<lambda>y. Audit_chunk (fst y) (snd y)) (take k (drop (st_offset x) (st_frames x)))\<rparr>"
    using flush_frames_run by blast
  show thesis using k assms by (intro that [of k p]) (simp_all add: flush_def Let_def)
qed

lemma prefix_nth: "prefix xs ys \<Longrightarrow> i < length xs \<Longrightarrow> xs ! i = ys ! i"
  by (auto simp: prefix_def nth_append)

lemma prefix_drop_take: "prefix xs (drop n fs) \<Longrightarrow> k \<le> length xs \<Longrightarrow> drop n (take (n + k) fs) = take k xs"
  by (auto simp: prefix_def drop_take)

lemma flush_sending:
  assumes log: "counted fs" and x: "\<not> st_closed x" "sending fs a x" "a \<le> st_after x" "st_after x \<le> length fs"
  shows "sending fs a (flush now x) \<and> st_after x \<le> st_after (flush now x) \<and> st_after (flush now x) \<le> length fs \<and> \<not> st_closed (flush now x)"
proof -
  let ?xs = "drop (st_offset x) (st_frames x)"
  have x': "sent_up_to fs a (st_after x) x" "prefix ?xs (drop (st_after x) fs)" "st_offset x \<le> length (st_frames x)"
    "st_frames x = [] \<longrightarrow> st_offset x = 0" "answer_ok fs x" using x(2) by (simp_all add: sending_def)
  obtain k p where k: "k \<le> length (st_frames x) - st_offset x" and f: "flush now x = (let n = st_offset x + k; done = (n = length (st_frames x)) in
       x\<lparr>st_after := (if k = 0 then st_after x else fst (?xs ! (k - 1))), st_progress := p,
         st_queue := st_queue x @ map (\<lambda>y. Audit_chunk (fst y) (snd y)) (take k ?xs),
         st_frames := (if done then [] else st_frames x), st_offset := (if done then 0 else n)\<rparr>)"
    using flush_run [OF x(1) x'(3)] by blast
  have kx: "k \<le> length ?xs" using k by simp
  have len: "st_after x + k \<le> length fs" using prefix_length_le [OF x'(2)] kx x(4) by simp
  have pos: "(if k = 0 then st_after x else fst (?xs ! (k - 1))) = st_after x + k"
  proof (cases "k = 0")
    case False
    then have "?xs ! (k - 1) = drop (st_after x) fs ! (k - 1)" using kx by (intro prefix_nth [OF x'(2)]) simp
    then show ?thesis using False len counted_nth [OF log, of "st_after x + (k - 1)"] by simp
  qed simp
  have sent: "drop a (take (st_after x) fs) @ take k ?xs = drop a (take (st_after x + k) fs)"
  proof -
    have "take k (drop (st_after x) fs) = take k ?xs" using x'(2) kx by (auto simp: prefix_def)
    then have "take (st_after x + k) fs = take (st_after x) fs @ take k ?xs" by (simp add: take_add)
    then show ?thesis using x(3,4) by simp
  qed
  have rest: "prefix (drop k ?xs) (drop (st_after x + k) fs)"
    using x'(2) kx by (auto simp: prefix_def add.commute simp flip: drop_drop)
  have after': "st_after (flush now x) = st_after x + k" using pos by (simp add: f Let_def)
  have "sent_up_to fs a (st_after x + k) (flush now x)"
    using x'(1) sent by (simp add: f Let_def sent_up_to_def flip: append_assoc)
  moreover have "prefix (drop (st_offset (flush now x)) (st_frames (flush now x))) (drop (st_after x + k) fs)"
    using rest by (simp add: f Let_def add.commute)
  moreover have "st_offset (flush now x) \<le> length (st_frames (flush now x)) \<and> (st_frames (flush now x) = [] \<longrightarrow> st_offset (flush now x) = 0)"
    using kx x'(3) by (auto simp: f Let_def)
  moreover have "answer_ok fs (flush now x)"
  proof (cases "st_frames x = []")
    case True
    then show ?thesis using x'(4,5) k by (auto simp: f Let_def answer_ok_def split: data_tick.splits snapshot.splits)
  next
    case False
    then have "st_data x = Idle" using x'(5) by (auto simp: answer_ok_def split: data_tick.splits)
    then show ?thesis by (simp add: f Let_def answer_ok_def)
  qed
  ultimately show ?thesis using len x(1) unfolding sending_def after' by (simp add: f Let_def)
qed

section \<open>Snapshots continue the log\<close>

lemma within_prefix: "prefix (within_bytes n xs) xs"
  by (induction n xs rule: within_bytes.induct) auto

lemma snapshot_ok_facts:
  assumes "audit_snapshot v ws c d = Snapshot_ok b st frames"
  shows "av_generation v = Some (cs_generation st)" "sc_generation c = None \<or> sc_generation c = Some (cs_generation st)"
    "prefix frames (filter (\<lambda>x. sc_after c < fst x \<and> fst x \<le> av_head v) (av_events v))" "sc_after c \<le> av_head v"
proof -
  let ?rows = "if d then candidates v ws c else []"
  have ok: "av_generation v = Some (cs_generation st)" "validate_stream_cursor c ws st = None" "frames = within_bytes stream_bytes ?rows"
    "cs_head st = av_head v"
    using assms by (auto simp: audit_snapshot_def Let_def split: option.splits if_splits)
  show "av_generation v = Some (cs_generation st)" by (rule ok)
  show "sc_generation c = None \<or> sc_generation c = Some (cs_generation st)" "sc_after c \<le> av_head v"
    using ok(2,4) by (auto simp: validate_stream_cursor_def split: if_splits)
  have "prefix ?rows (filter (\<lambda>x. sc_after c < fst x \<and> fst x \<le> av_head v) (av_events v))"
    by (simp add: candidates_def take_is_prefix)
  then show "prefix frames (filter (\<lambda>x. sc_after c < fst x \<and> fst x \<le> av_head v) (av_events v))"
    using within_prefix ok(3) prefix_order.trans by blast
qed

lemma server_snapshot:
  assumes "serving (se_crypto R) s" "audit_snapshot (stream_view_for actor (server_view R w fx s)) ws c d = Snapshot_ok b st frames"
  shows "prefix frames (drop (sc_after c) (log_frames R w (cs_generation st) s))" "sc_after c \<le> length (log_frames R w (cs_generation st) s)"
    "sc_generation c = None \<or> sc_generation c = Some (cs_generation st)"
proof -
  note f = snapshot_ok_facts [OF assms(2)]
  have g: "fx_generation fx = Some (cs_generation st)" using f(1) by (cases actor) (simp_all add: server_view_def stream_view_for_def)
  have v: "av_events (stream_view_for actor (server_view R w fx s)) = log_frames R w (cs_generation st) s"
    "av_head (stream_view_for actor (server_view R w fx s)) = length (log_frames R w (cs_generation st) s)"
    using g log_length [OF assms(1), of w "cs_generation st"]
    by (cases actor; simp add: server_view_def stream_view_for_def log_frames_def)+
  show "sc_generation c = None \<or> sc_generation c = Some (cs_generation st)" by (rule f(2))
  show "sc_after c \<le> length (log_frames R w (cs_generation st) s)" using f(4) v(2) by simp
  show "prefix frames (drop (sc_after c) (log_frames R w (cs_generation st) s))"
    using f(3) unfolding v by (simp add: counted_filter counted_log [OF assms(1)])
qed

section \<open>Every step keeps the stream on the log\<close>

lemma stream_okI: "a \<le> st_after x \<Longrightarrow> st_after x \<le> length fs \<Longrightarrow> sending fs a x \<Longrightarrow> stream_ok fs a x"
  by (auto simp: stream_ok_def sending_def)

lemma stream_ok_sending: "stream_ok fs a x \<Longrightarrow> \<not> st_closed x \<Longrightarrow> sending fs a x \<and> a \<le> st_after x \<and> st_after x \<le> length fs"
  by (simp add: stream_ok_def)

text \<open>A stream that has closed only lets the consumer read on.\<close>

lemma stream_ok_closed:
  "a \<le> st_after x \<Longrightarrow> st_after x \<le> length fs \<Longrightarrow> m \<le> st_after x \<Longrightarrow> sent_up_to fs a m x \<Longrightarrow> st_closed x \<Longrightarrow> stream_ok fs a x"
  by (auto simp: stream_ok_def)

lemma flush_ok: "counted fs \<Longrightarrow> stream_ok fs a x \<Longrightarrow> \<not> st_closed x \<Longrightarrow> stream_ok fs a (flush now x) \<and> \<not> st_closed (flush now x)"
  using flush_sending [of fs x a now] stream_ok_sending [of fs a x] by (fastforce intro: stream_okI)

lemma finish_ok: "stream_ok fs a x \<Longrightarrow> stream_ok fs a (finish_stream e x)"
  by (cases e) (auto simp: finish_stream_def cleanup_def enqueue_def stream_ok_def sending_def sent_up_to_def)

lemma beat_ok: "stream_ok fs a x \<Longrightarrow> stream_ok fs a (beat now x)"
  by (auto simp: beat_def enqueue_def stream_ok_def sending_def sent_up_to_def answer_ok_def split: data_tick.splits snapshot.splits)

lemma data_begin_ok: "counted fs \<Longrightarrow> stream_ok fs a x \<Longrightarrow> stream_ok fs a (data_begin now x)"
  using flush_ok [of fs a x now]
  by (auto simp: data_begin_def Let_def finish_ok) (auto simp: stream_ok_def sending_def sent_up_to_def answer_ok_def)

lemma read_ok: "stream_ok fs a x \<Longrightarrow> stream_ok fs a (read_chunk x)"
  by (auto simp: read_chunk_def stream_ok_def sending_def sent_up_to_def answer_ok_def simp flip: audit_chunks_append
      split: list.splits data_tick.splits snapshot.splits)

lemma pull_ok: "counted fs \<Longrightarrow> stream_ok fs a x \<Longrightarrow> stream_ok fs a (pull now x)"
  using flush_ok [of fs a x now] by (auto simp: pull_def)

lemma access_ok: "stream_ok fs a x \<Longrightarrow> stream_ok fs a (access_begin x)" "stream_ok fs a x \<Longrightarrow> stream_ok fs a (release_stream x)"
  "stream_ok fs a x \<Longrightarrow> stream_ok fs a (x\<lparr>st_access := b\<rparr>)"
  by (auto simp: access_begin_def release_stream_def stream_ok_def sending_def sent_up_to_def answer_ok_def split: data_tick.splits snapshot.splits)

lemma access_end_ok: "stream_ok fs a x \<Longrightarrow> stream_ok fs a (access_end ws v x)"
  by (auto simp: access_end_def access_ok finish_ok split: snapshot.splits option.splits)

lemma cancel_stream_ok:
  assumes "stream_ok fs a x"
  shows "stream_ok fs a (cancel_stream x)"
proof -
  obtain m where m: "m \<le> st_after x" "audit_chunks (st_read x) @ audit_chunks (st_queue x) = drop a (take m fs)"
    using assms by (auto simp: stream_ok_def sent_up_to_def)
  have len: "a \<le> st_after x" "st_after x \<le> length fs" using assms by (simp_all add: stream_ok_def)
  let ?n = "length (audit_chunks (st_read x))"
  have "audit_chunks (st_read x) = take ?n (drop a (take m fs))" using m(2) by (metis append_eq_conv_conj)
  also have "\<dots> = drop a (take (min m (a + ?n)) fs)" by (simp add: take_drop add.commute min.commute)
  finally have "sent_up_to fs a (min m (a + ?n)) (cancel_stream x)" by (simp add: sent_up_to_def cancel_stream_def cleanup_def)
  then show ?thesis using m(1) len by (intro stream_ok_closed [of _ _ _ "min m (a + ?n)"]) (auto simp: cancel_stream_def cleanup_def)
qed

lemma sent_grows: "m \<le> length fs \<Longrightarrow> sent_up_to (fs @ new) a m x = sent_up_to fs a m x"
  by (simp add: sent_up_to_def)

lemma ok_grows:
  assumes "stream_ok fs a x"
  shows "stream_ok (fs @ new) a x"
proof -
  have "st_after x \<le> length fs" using assms by (simp add: stream_ok_def)
  then show ?thesis using assms
    by (auto simp: stream_ok_def sending_def answer_ok_def sent_grows intro: exI [of _ m for m] prefix_prefix split: data_tick.splits snapshot.splits)
qed

lemma data_query_ok:
  assumes s: "serving (se_crypto R) s" and x: "stream_ok (log_frames R w (cs_generation (st_state x)) s) a x"
  shows "stream_ok (log_frames R w (cs_generation (st_state x)) s) a (data_query (uuid_text w) (map_option (\<lambda>fx. server_view R w fx s) v) x)"
proof (cases "st_data x")
  case (Querying now n)
  let ?fs = "log_frames R w (cs_generation (st_state x)) s" and ?c = "\<lparr>sc_after = n, sc_generation = Some (cs_generation (st_state x)), sc_workspace = None\<rparr>"
  let ?r = "case map_option (\<lambda>fx. server_view R w fx s) v of None \<Rightarrow> Snapshot_failed (Stream_error ''events_unavailable'')
          | Some y \<Rightarrow> audit_snapshot (stream_view_for (Some (st_actor x)) y) (uuid_text w) ?c True"
  have new: "data_query (uuid_text w) (map_option (\<lambda>fx. server_view R w fx s) v) x = x\<lparr>st_data := Answered now ?r\<rparr>"
    using Querying by (simp add: data_query_def)
  have "prefix frames (drop n ?fs)" if r: "?r = Snapshot_ok b st frames" for b st frames
  proof -
    obtain fx where fx: "audit_snapshot (stream_view_for (Some (st_actor x)) (server_view R w fx s)) (uuid_text w) ?c True = Snapshot_ok b st frames"
      using r by (cases v) auto
    note t = server_snapshot [OF s fx]
    show ?thesis using t(1,3) by simp
  qed
  then show ?thesis using x Querying unfolding new
    by (auto simp: stream_ok_def sending_def sent_up_to_def answer_ok_def split: snapshot.splits)
qed (use x in \<open>simp_all add: data_query_def\<close>)

lemma data_end_ok:
  assumes log: "counted fs" and x: "stream_ok fs a x"
  shows "stream_ok fs a (data_end t x)"
proof (cases "st_data x")
  case (Answered now r)
  let ?x = "x\<lparr>st_data := Idle\<rparr>"
  have idle: "stream_ok fs a ?x" using x by (auto simp: stream_ok_def sending_def sent_up_to_def answer_ok_def)
  show ?thesis
  proof (cases "st_closed x")
    case False
    show ?thesis
    proof (cases r)
      case (Snapshot_ok b st frames)
      have "stream_ok fs a (?x\<lparr>st_frames := frames\<rparr>)"
        using x False Answered Snapshot_ok by (auto simp: stream_ok_def sending_def sent_up_to_def answer_ok_def)
      then show ?thesis using flush_ok [OF log] False Answered Snapshot_ok by (simp add: data_end_def Let_def beat_ok)
    qed (use Answered False finish_ok [OF idle] in \<open>simp add: data_end_def Let_def\<close>)
  qed (use idle Answered in \<open>simp add: data_end_def Let_def\<close>)
qed (use x in \<open>simp_all add: data_end_def\<close>)

text \<open>The state a stream was opened with stays.\<close>

lemma flush_frames_state [simp]: "st_state (flush_frames now xs x) = st_state x"
  by (induction xs arbitrary: x) (simp_all add: enqueue_def)

lemma flush_state [simp]: "st_state (flush now x) = st_state x"
  by (simp add: flush_def Let_def)

lemma finish_state [simp]: "st_state (finish_stream e x) = st_state x"
  by (simp add: finish_stream_def cleanup_def enqueue_def split: option.splits)

lemma step_state [simp]:
  "st_state (data_begin now x) = st_state x" "st_state (data_query ws v x) = st_state x" "st_state (data_end now x) = st_state x"
  "st_state (access_begin x) = st_state x" "st_state (access_end ws v x) = st_state x" "st_state (read_chunk x) = st_state x"
  "st_state (pull now x) = st_state x" "st_state (cancel_stream x) = st_state x" "st_state (release_stream x) = st_state x"
  by (simp_all add: data_begin_def data_query_def data_end_def access_begin_def access_end_def read_chunk_def pull_def cancel_stream_def
      cleanup_def release_stream_def beat_def enqueue_def Let_def split: data_tick.splits option.splits snapshot.splits list.splits)

lemma served_frames:
  "\<exists>new. log_frames R w g (snd (serve_queue k now c rq s)) = log_frames R w g s @ new"
proof -
  obtain r s' where s': "serve_queue k now c rq s = (r, s')" by fastforce
  have "\<exists>new. bp_events s' = bp_events s @ new"
    using serve_queue_serves [of k now c s rq] s'
    by (auto simp: serves_def committed_def rejected_def split: option.splits)
  then show ?thesis using s' by (auto simp: log_frames_def workspace_events_def)
qed

lemma streaming_ok:
  assumes "streaming R w a s x"
  shows "serving (se_crypto R) s \<and> stream_ok (log_frames R w (cs_generation (st_state x)) s) a x"
  using assms
proof (induction rule: streaming.induct)
  case (opened s fx g v actor st frames now)
  have "audit_snapshot (stream_view_for None (server_view R w fx s)) (uuid_text w) \<lparr>sc_after = a, sc_generation = g, sc_workspace = v\<rparr> True
      = Snapshot_ok actor st frames" using opened by (simp add: stream_view_for_def)
  from server_snapshot [OF opened(1) this] show ?case
    using opened(1) by (auto simp: open_stream_def stream_ok_def sending_def sent_up_to_def answer_ok_def)
next
  case (served s x now c rq)
  then show ?case using served_frames [of R w "cs_generation (st_state x)" "se_crypto R" now c rq s] ok_grows serving.request by metis
next
  case (controlled s x ct dp tk ky qt)
  then show ?case by (auto intro: serving.control simp: log_frames_def workspace_events_def)
next
  case (query s x fx)
  then show ?case using data_query_ok [of R s w x a "Some fx"] by simp
next
  case (query_failed s x)
  then show ?case using data_query_ok [of R s w x a None] by simp
qed (simp_all add: data_begin_ok data_end_ok access_ok access_end_ok read_ok pull_ok finish_ok cancel_stream_ok counted_log)

section \<open>A stream of one Workspace\<close>

text \<open>A stream opened at the start of the log of a fresh Backplane, on which a queue is then created; the
  consumer has read the first message.\<close>

definition demo_stream_env :: stream_env where
  "demo_stream_env = \<lparr>se_crypto = demo_crypto, se_json = (\<lambda>v. ''{}''), se_clock = (\<lambda>t. ''now'')\<rparr>"

definition demo_stream_facts :: stream_facts where
  "demo_stream_facts = \<lparr>fx_denied = None, fx_actor = ''a'', fx_gated = False, fx_generation = Some (uuid_text 2), fx_floor = 0\<rparr>"

definition demo_stream :: audit_stream where
  "demo_stream = read_chunk (open_stream 0 (uuid_text 1) 0 ''a'' \<lparr>cs_generation = uuid_text 2, cs_head = 0, cs_floor = 0\<rparr> [])"

lemma demo_streaming: "streaming demo_stream_env 1 0 demo_served demo_stream"
proof -
  have "audit_snapshot (server_view demo_stream_env 1 demo_stream_facts (fresh_backplane demo_control)) (uuid_text 1)
      \<lparr>sc_after = 0, sc_generation = None, sc_workspace = None\<rparr> True
    = Snapshot_ok ''a'' \<lparr>cs_generation = uuid_text 2, cs_head = 0, cs_floor = 0\<rparr> []"
    by (simp add: audit_snapshot_def server_view_def demo_stream_facts_def fresh_backplane_def last_position_def candidates_def
        validate_stream_cursor_def workspace_events_def)
  from streaming.opened [OF serving.fresh this] have "streaming demo_stream_env 1 0 (fresh_backplane demo_control)
      (open_stream 0 (uuid_text 1) 0 ''a'' \<lparr>cs_generation = uuid_text 2, cs_head = 0, cs_floor = 0\<rparr> [])" .
  from streaming.read [OF streaming.served [OF this, of 7 "Principal_context 1 10 20 None" "Rq_create ''jobs''"]] show ?thesis
    unfolding demo_stream_def demo_served_def by (simp only: demo_stream_env_def stream_env.simps)
qed

lemma demo_frame: "octets (snd (log_frames demo_stream_env 1 (uuid_text 2) demo_served ! 0)) \<le> stream_bytes" "last_position demo_served 1 = 1"
  by code_simp+

definition demo_stream_sent :: audit_stream where
  "demo_stream_sent = data_end 1001 (data_query (uuid_text 1) (Some (server_view demo_stream_env 1 demo_stream_facts demo_served)) (data_begin 1000 demo_stream))"

lemma demo_stream_sending: "streaming demo_stream_env 1 0 demo_served demo_stream_sent"
  unfolding demo_stream_sent_def by (intro streaming.answer streaming.query streaming.tick demo_streaming)

section \<open>What the consumer is sent\<close>

text \<open>C29: a stream sends the log.  At every moment of every interleaving of requests, control changes,
  ticks, queries and reads, the frames the consumer has read and those queued for it are exactly the
  frames of the Workspace's events behind the cursor it was opened at, in the order of their positions
  and up to the stream's position, without a gap or a repetition; a stream that was cancelled stopped at
  a position before.\<close>

theorem stream_gapless:
  assumes "streaming R w a s x"
  shows "\<exists>m\<le>st_after x. (st_closed x \<or> m = st_after x) \<and> st_after x \<le> last_position s w
    \<and> audit_chunks (st_read x @ st_queue x)
      = map (\<lambda>e. (ae_position e, frame_text R (uuid_text w) (cs_generation (st_state x)) e))
          (filter (\<lambda>e. a < ae_position e \<and> ae_position e \<le> m) (workspace_events s w))"
proof -
  let ?fs = "log_frames R w (cs_generation (st_state x)) s"
  have s: "serving (se_crypto R) s" and x: "stream_ok ?fs a x" using streaming_ok [OF assms] by blast+
  have "\<exists>m\<le>st_after x. (st_closed x \<or> m = st_after x) \<and> sent_up_to ?fs a m x"
    using x by (cases "st_closed x") (auto simp: stream_ok_def sending_def)
  moreover have "map (\<lambda>e. (ae_position e, frame_text R (uuid_text w) (cs_generation (st_state x)) e))
      (filter (\<lambda>e. a < ae_position e \<and> ae_position e \<le> m) (workspace_events s w)) = drop a (take m ?fs)" for m
    using counted_filter [OF counted_log [OF s], of a m w "cs_generation (st_state x)"]
    by (simp add: log_frames_def filter_map comp_def)
  moreover have "st_after x \<le> last_position s w" using x log_length [OF s] by (simp add: stream_ok_def)
  ultimately show ?thesis by (auto simp: sent_up_to_def)
qed

section \<open>Memory and release\<close>

definition settled_down :: "audit_stream \<Rightarrow> bool" where
  "settled_down x \<longleftrightarrow> (st_released x \<longrightarrow> st_closed x \<and> st_data x = Idle \<and> st_access x = None)"

definition frames_size :: "(nat \<times> string) list \<Rightarrow> int" where
  "frames_size xs = sum_list (map (\<lambda>y. octets (snd y)) xs)"

definition answer_small :: "data_tick \<Rightarrow> bool" where
  "answer_small d \<longleftrightarrow> (case d of Answered t (Snapshot_ok b st frames) \<Rightarrow> frames_size frames \<le> stream_bytes | _ \<Rightarrow> True)"

definition bounded :: "audit_stream \<Rightarrow> bool" where
  "bounded x \<longleftrightarrow> queued x \<le> stream_bytes \<and> frames_size (st_frames x) \<le> stream_bytes \<and> answer_small (st_data x) \<and> settled_down x"

lemma octets_nonneg [simp]: "0 \<le> octets t"
  by (simp add: octets_def)

lemma octets_drop: "octets t + n \<le> m \<Longrightarrow> n \<le> m"
  using octets_nonneg [of t] by linarith

lemma frames_size_simps [simp]: "frames_size [] = 0" "frames_size (y # ys) = octets (snd y) + frames_size ys"
  by (simp_all add: frames_size_def)

lemma within_bytes_size: "0 \<le> n \<Longrightarrow> frames_size (within_bytes n xs) \<le> n"
  by (induction n xs rule: within_bytes.induct) auto

lemma snapshot_size: "audit_snapshot v ws c d = Snapshot_ok b st frames \<Longrightarrow> frames_size frames \<le> stream_bytes"
  using within_bytes_size [of stream_bytes]
  by (auto simp: audit_snapshot_def Let_def stream_bytes_def split: option.splits if_splits)

lemma queued_enqueue: "queued (enqueue c x) = queued x + octets (chunk_text c)"
  by (simp add: queued_def enqueue_def)

lemma stream_bytes_pos [simp]: "0 \<le> stream_bytes"
  by (simp add: stream_bytes_def)

lemma bounded_enqueue: "bounded x \<Longrightarrow> octets (chunk_text c) \<le> desired_size x \<Longrightarrow> bounded (enqueue c x)"
  by (simp add: bounded_def queued_enqueue desired_size_def) (simp add: enqueue_def settled_down_def)

lemma bounded_cleanup: "bounded x \<Longrightarrow> bounded (cleanup x)"
  by (auto simp: cleanup_def bounded_def queued_def settled_down_def)

lemma bounded_finish: "bounded x \<Longrightarrow> bounded (finish_stream e x)"
  by (auto simp: finish_stream_def intro!: bounded_cleanup bounded_enqueue split: option.splits)

lemma bounded_progress: "bounded (x\<lparr>st_after := n, st_offset := k, st_progress := t\<rparr>) = bounded x"
  "desired_size (x\<lparr>st_after := n, st_offset := k, st_progress := t\<rparr>) = desired_size x"
  by (simp_all add: bounded_def queued_def settled_down_def desired_size_def)

lemma bounded_flush_frames: "bounded x \<Longrightarrow> bounded (flush_frames now xs x)"
proof (induction xs arbitrary: x)
  case (Cons y ys)
  then show ?case by (auto simp: bounded_progress intro!: Cons.IH bounded_enqueue)
qed simp

lemma bounded_flush: "bounded x \<Longrightarrow> bounded (flush now x)"
  using bounded_flush_frames [of x now "drop (st_offset x) (st_frames x)"]
  by (auto simp: flush_def Let_def bounded_def queued_def settled_down_def)

lemma flush_frames_fixed [simp]:
  "st_closed (flush_frames now xs x) = st_closed x" "st_data (flush_frames now xs x) = st_data x" "st_released (flush_frames now xs x) = st_released x"
  by (induction xs arbitrary: x) (simp_all add: enqueue_def)

lemma flush_fixed [simp]: "st_closed (flush now x) = st_closed x" "st_data (flush now x) = st_data x" "st_released (flush now x) = st_released x"
  by (simp_all add: flush_def Let_def)

lemma bounded_begin:
  assumes "bounded x"
  shows "bounded (data_begin now x)"
proof -
  have "bounded (flush now x\<lparr>st_data := Querying now n\<rparr>)" if "\<not> st_closed x" for n
    using bounded_flush [OF assms, of now] that by (auto simp: bounded_def queued_def settled_down_def answer_small_def)
  then show ?thesis using assms by (auto simp: data_begin_def Let_def bounded_finish bounded_flush)
qed

lemma bounded_query: "bounded x \<Longrightarrow> bounded (data_query ws v x)"
  by (auto simp: data_query_def bounded_def queued_def settled_down_def answer_small_def dest: snapshot_size
      split: data_tick.splits option.splits snapshot.splits)

lemma bounded_beat: "bounded x \<Longrightarrow> bounded (beat now x)"
  using bounded_enqueue [of x Heartbeat_chunk] by (auto simp: beat_def bounded_def queued_def settled_down_def)

lemma bounded_end:
  assumes "bounded x"
  shows "bounded (data_end t x)"
proof -
  have "bounded (x\<lparr>st_data := Idle\<rparr>)" using assms by (auto simp: bounded_def queued_def settled_down_def answer_small_def)
  moreover have "bounded (x\<lparr>st_data := Idle, st_frames := frames\<rparr>)" if "st_data x = Answered now (Snapshot_ok b st frames)" for now b st frames
    using assms that by (auto simp: bounded_def queued_def settled_down_def answer_small_def)
  ultimately show ?thesis using assms
    by (auto simp: data_end_def Let_def intro!: bounded_beat bounded_flush bounded_finish split: data_tick.splits snapshot.splits)
qed

lemma bounded_access: "bounded x \<Longrightarrow> bounded (access_begin x)" "bounded x \<Longrightarrow> bounded (x\<lparr>st_access := None\<rparr>)"
  "bounded x \<Longrightarrow> bounded (release_stream x)" "bounded x \<Longrightarrow> bounded (read_chunk x)"
  by (auto simp: access_begin_def release_stream_def read_chunk_def bounded_def queued_def settled_down_def
      dest: octets_drop split: list.splits)

lemma bounded_cancel: "bounded x \<Longrightarrow> bounded (cancel_stream x)"
  using bounded_cleanup [of x] by (auto simp: cancel_stream_def bounded_def queued_def settled_down_def)

lemma bounded_access_end: "bounded x \<Longrightarrow> bounded (access_end ws v x)"
  by (auto simp: access_end_def bounded_access bounded_finish split: option.splits snapshot.splits)

lemma streaming_bounded:
  assumes "streaming R w a s x"
  shows "octets (ready_text (uuid_text w) (st_state x) a) \<le> stream_bytes \<longrightarrow> bounded x"
  using assms
proof (induction rule: streaming.induct)
  case (opened s fx g v actor st frames now)
  then show ?case using snapshot_size [OF opened(2)]
    by (auto simp: open_stream_def bounded_def queued_def settled_down_def answer_small_def)
qed (simp_all add: bounded_begin bounded_query bounded_end bounded_access bounded_access_end bounded_cancel bounded_finish bounded_flush pull_def)

theorem stream_gapless_witness:
  "audit_chunks (st_read demo_stream_sent @ st_queue demo_stream_sent)
    = map (\<lambda>e. (ae_position e, frame_text demo_stream_env (uuid_text 1) (uuid_text 2) e)) (workspace_events demo_served 1)"
proof -
  have facts: "st_after demo_stream_sent = 1" "\<not> st_closed demo_stream_sent" "cs_generation (st_state demo_stream_sent) = uuid_text 2"
    "list_all (\<lambda>e. ae_position e = 1) (workspace_events demo_served 1)" by code_simp+
  from facts(4) have "filter (\<lambda>e. 0 < ae_position e \<and> ae_position e \<le> 1) (workspace_events demo_served 1) = workspace_events demo_served 1"
    by (auto simp: list_all_iff filter_id_conv)
  then show ?thesis using stream_gapless [OF demo_stream_sending] facts(1-3) by auto
qed

text \<open>C30: a stream holds a bounded part of the log.  Whatever the consumer does, its queue never holds
  more than \<open>STREAM_BYTES\<close>, and neither do the frames taken from the database and not yet sent,
  as long as the first message of the stream is no longer than that.\<close>

theorem stream_memory_bounded:
  assumes "streaming R w a s x" and "octets (ready_text (uuid_text w) (st_state x) a) \<le> stream_bytes"
  shows "max (queued x) (sum_list (map (\<lambda>y. octets (snd y)) (st_frames x))) \<le> stream_bytes"
  using streaming_bounded [OF assms(1)] assms(2) by (simp add: bounded_def frames_size_def)

theorem stream_memory_bounded_witness: "max (queued demo_stream) (sum_list (map (\<lambda>y. octets (snd y)) (st_frames demo_stream))) \<le> stream_bytes"
  by (rule stream_memory_bounded [OF demo_streaming]) code_simp

section \<open>Progress\<close>

lemma flush_frames_after:
  "counted fs \<Longrightarrow> prefix xs (drop (st_after x) fs) \<Longrightarrow> st_after x \<le> st_after (flush_frames now xs x)"
proof (induction xs arbitrary: x)
  case (Cons y ys)
  have len: "st_after x < length fs" using Cons.prems(2) by (cases "st_after x < length fs") auto
  then have d: "drop (st_after x) fs = fs ! st_after x # drop (Suc (st_after x)) fs" by (rule Cons_nth_drop_Suc [symmetric])
  then have y: "fst y = Suc (st_after x)" "prefix ys (drop (Suc (st_after x)) fs)"
    using Cons.prems counted_nth [OF Cons.prems(1) len] by auto
  let ?x = "enqueue (Audit_chunk (fst y) (snd y)) (x\<lparr>st_after := fst y, st_offset := Suc (st_offset x), st_progress := now\<rparr>)"
  have "st_after ?x \<le> st_after (flush_frames now ys ?x)" using Cons.prems(1) y by (intro Cons.IH) (simp_all add: enqueue_def)
  then show ?case using y(1) by (simp add: enqueue_def)
qed simp

text \<open>With room for it, the next frame leaves.\<close>

lemma flush_advances:
  assumes log: "counted fs" and len: "st_after x < length fs" and x: "\<not> st_closed x" "st_queue x = []" "octets (snd (fs ! st_after x)) \<le> stream_bytes"
    "drop (st_offset x) (st_frames x) = y # ys" "prefix (y # ys) (drop (st_after x) fs)"
  shows "st_after x < st_after (flush now x)"
proof -
  have "drop (st_after x) fs = fs ! st_after x # drop (Suc (st_after x)) fs" using len by (rule Cons_nth_drop_Suc [symmetric])
  then have y: "y = fs ! st_after x" "fst y = Suc (st_after x)" "prefix ys (drop (Suc (st_after x)) fs)"
    using x(5) counted_nth [OF log len] by auto
  let ?x = "enqueue (Audit_chunk (fst y) (snd y)) (x\<lparr>st_after := fst y, st_offset := Suc (st_offset x), st_progress := now\<rparr>)"
  have "\<not> desired_size x < octets (snd y)" using x(2,3) y(1) by (simp add: desired_size_def queued_def)
  then have "flush_frames now (y # ys) x = flush_frames now ys ?x" by simp
  moreover have "st_after ?x \<le> st_after (flush_frames now ys ?x)" using y by (intro flush_frames_after [OF log]) (simp add: enqueue_def)
  moreover have "st_after ?x = Suc (st_after x)" using y(2) by (simp add: enqueue_def)
  ultimately show ?thesis using x(1,4) by (simp add: flush_def Let_def)
qed

lemma data_query_after [simp]: "st_after (data_query ws v x) = st_after x"
  by (simp add: data_query_def split: data_tick.splits)

lemma finish_after [simp]: "st_after (finish_stream e x) = st_after x" "st_after (beat now x) = st_after x"
  by (simp_all add: finish_stream_def cleanup_def enqueue_def beat_def split: option.splits)

lemma data_end_after:
  assumes log: "counted fs" and x: "stream_ok fs a x"
  shows "st_after x \<le> st_after (data_end t x)"
proof -
  have "st_after x \<le> st_after (flush t (x\<lparr>st_data := Idle, st_frames := frames\<rparr>))"
    if "st_data x = Answered now (Snapshot_ok b st frames)" "\<not> st_closed x" for now b st frames
  proof -
    let ?x = "x\<lparr>st_data := Idle, st_frames := frames\<rparr>"
    have "stream_ok fs a ?x" using x that by (auto simp: stream_ok_def sending_def sent_up_to_def answer_ok_def)
    from flush_sending [OF log, of ?x a t] stream_ok_sending [OF this] that(2) show ?thesis by simp
  qed
  then show ?thesis by (simp add: data_end_def Let_def split: data_tick.splits snapshot.splits)
qed

lemma next_candidate:
  assumes s: "serving (se_crypto R) s" and len: "n < last_position s w"
    and fx: "fx_generation fx = Some g" "\<not> fx_gated fx" "fx_floor fx \<le> n"
    and small: "octets (snd (log_frames R w g s ! n)) \<le> stream_bytes"
  shows "\<exists>b st ys. audit_snapshot (stream_view_for (Some actor) (server_view R w fx s)) (uuid_text w)
      \<lparr>sc_after = n, sc_generation = Some g, sc_workspace = None\<rparr> True = Snapshot_ok b st (log_frames R w g s ! n # ys)"
proof -
  let ?fs = "log_frames R w g s"
  have "filter (\<lambda>x. n < fst x \<and> fst x \<le> last_position s w) ?fs = drop n ?fs"
    using log_length [OF s] counted_filter [OF counted_log [OF s], of n "last_position s w" w g] by simp
  moreover have "drop n ?fs = ?fs ! n # drop (Suc n) ?fs" using len log_length [OF s] by (intro Cons_nth_drop_Suc [symmetric]) simp
  ultimately have "candidates (stream_view_for (Some actor) (server_view R w fx s)) (uuid_text w)
      \<lparr>sc_after = n, sc_generation = Some g, sc_workspace = None\<rparr> = ?fs ! n # take 99 (drop (Suc n) ?fs)"
    using fx len by (simp add: candidates_def server_view_def stream_view_for_def flip: log_frames_def)
  then show ?thesis using fx len small
    by (simp add: audit_snapshot_def server_view_def stream_view_for_def validate_stream_cursor_def)
qed

text \<open>C31: an idle stream makes progress: when the consumer has read what was queued and the log has an
  event behind the position that fits the queue, one turn of the data timer moves the position on,
  provided the audit has kept its generation and the position is not below the retention floor.\<close>

theorem stream_progress:
  assumes x: "streaming R w a s x" "\<not> st_closed x" "st_data x = Idle" "st_queue x = []" "now - st_progress x < 30000"
    and log: "st_after x < last_position s w" "octets (snd (log_frames R w (cs_generation (st_state x)) s ! st_after x)) \<le> stream_bytes"
    and fx: "fx_generation fx = Some (cs_generation (st_state x))" "\<not> fx_gated fx" "fx_floor fx \<le> st_after x"
  shows "st_after x < st_after (data_end t (data_query (uuid_text w) (Some (server_view R w fx s)) (data_begin now x)))"
proof -
  let ?g = "cs_generation (st_state x)"
  let ?fs = "log_frames R w ?g s" and ?xs = "drop (st_offset x) (st_frames x)"
  have s: "serving (se_crypto R) s" and ok: "stream_ok ?fs a x" using streaming_ok [OF x(1)] by blast+
  have f: "prefix ?xs (drop (st_after x) ?fs)" "st_offset x \<le> length (st_frames x)" using ok x(2) by (simp_all add: stream_ok_def sending_def)
  note log' = counted_log [OF s, of w ?g]
  have len: "st_after x < length ?fs" using log(1) log_length [OF s] by simp
  show ?thesis
  proof (cases ?xs)
    case (Cons y ys)
    then have adv: "st_after x < st_after (flush now x)" using flush_advances [OF log' len x(2,4) log(2) Cons] f(1) by simp
    have "stream_ok ?fs a (data_query (uuid_text w) (Some (server_view R w fx s)) (data_begin now x))"
      using data_query_ok [OF s, of w "data_begin now x" a "Some fx"] data_begin_ok [OF log' ok, of now] by simp
    from data_end_after [OF log' this] have "st_after (data_begin now x)
        \<le> st_after (data_end t (data_query (uuid_text w) (Some (server_view R w fx s)) (data_begin now x)))" by simp
    moreover have "st_after (data_begin now x) = st_after (flush now x)" using x(2,3,5) by (simp add: data_begin_def Let_def)
    ultimately show ?thesis using adv by simp
  next
    case Nil
    then have fl: "flush now x = x\<lparr>st_frames := [], st_offset := 0\<rparr>" using x(2) f(2) by (simp add: flush_def)
    then have started: "data_begin now x = x\<lparr>st_frames := [], st_offset := 0, st_data := Querying now (st_after x)\<rparr>"
      using x by (simp add: data_begin_def desired_size_def queued_def)
    obtain b st ys where q: "audit_snapshot (stream_view_for (Some (st_actor x)) (server_view R w fx s)) (uuid_text w)
      \<lparr>sc_after = st_after x, sc_generation = Some ?g, sc_workspace = None\<rparr> True = Snapshot_ok b st (?fs ! st_after x # ys)"
      using next_candidate [OF s log(1) fx log(2)] by blast
    let ?x = "x\<lparr>st_frames := ?fs ! st_after x # ys, st_offset := 0, st_data := Idle\<rparr>"
    have order': "x\<lparr>st_offset := 0, st_data := Idle, st_frames := ?fs ! st_after x # ys\<rparr> = ?x" by (rule audit_stream.equality) simp_all
    have "prefix (?fs ! st_after x # ys) (drop (st_after x) ?fs)" using server_snapshot(1,3) [OF s q] by simp
    then have "st_after ?x < st_after (flush t ?x)" using x(2,4) len log(2) by (intro flush_advances [OF log']) simp_all
    moreover have "data_end t (data_query (uuid_text w) (Some (server_view R w fx s)) (data_begin now x)) = beat now (flush t ?x)"
      using q x(2) unfolding started by (simp add: data_query_def data_end_def flip: order')
    ultimately show ?thesis by (simp add: beat_def enqueue_def)
  qed
qed

theorem stream_progress_witness:
  "st_after demo_stream < st_after (data_end 1001 (data_query (uuid_text 1) (Some (server_view demo_stream_env 1 demo_stream_facts demo_served))
     (data_begin 1000 demo_stream)))"
proof (rule stream_progress [OF demo_streaming])
  show "octets (snd (log_frames demo_stream_env 1 (cs_generation (st_state demo_stream)) demo_served ! st_after demo_stream)) \<le> stream_bytes"
    using demo_frame(1) by (simp add: demo_stream_def open_stream_def read_chunk_def)
  show "st_after demo_stream < last_position demo_served 1" using demo_frame(2) by (simp add: demo_stream_def open_stream_def read_chunk_def)
qed (simp_all add: demo_stream_def open_stream_def read_chunk_def demo_stream_facts_def)

end
