(* ===== verification/Timeline.thy ===== *)
theory Timeline
  imports StreamInput
begin

text \<open>\<open>apps/web/client/audit-state.ts\<close>: the timeline of a Run in the console, a reducer over the actions
  of the stream adapter.  Positions are numbers; in the source they are their canonical decimal texts, so
  equality of texts is equality of numbers.  The map of events keeps the order of insertion.\<close>

section \<open>State\<close>

datatype tl_phase = Connecting | Live | Reconnecting | Resync

record timeline_event =
  tv_position :: nat
  tv_run :: "string option"
  tv_json :: jval

record timeline =
  tl_ws :: string
  tl_run :: string
  tl_epoch :: nat
  tl_phase :: tl_phase
  tl_generation :: "string option"
  tl_after :: nat
  tl_head :: nat
  tl_floor :: nat
  tl_resume :: "string option"
  tl_staged :: "timeline_event list option"
  tl_events :: "(string \<times> timeline_event) list"
  tl_error :: "string option"

record stream_ready =
  ry_generation :: string
  ry_after :: nat
  ry_head :: nat
  ry_floor :: nat

datatype timeline_action =
    History stream_ready "timeline_event list"
  | Ready stream_ready string
  | Audit timeline_event string
  | Disconnected
  | Expired
  | Failing string

datatype timeline_effect = Do_resync | Do_stop

definition initial_timeline :: "string \<Rightarrow> string \<Rightarrow> timeline" where
  "initial_timeline ws run = \<lparr>tl_ws = ws, tl_run = run, tl_epoch = 0, tl_phase = Connecting, tl_generation = None, tl_after = 0, tl_head = 0,
     tl_floor = 0, tl_resume = None, tl_staged = None, tl_events = [], tl_error = None\<rparr>"

section \<open>Equality of JSON values\<close>

function same_json :: "jval \<Rightarrow> jval \<Rightarrow> bool" where
  "same_json (JArr vs) w = (case w of JArr ws \<Rightarrow> length vs = length ws \<and> list_all (\<lambda>p. same_json (fst p) (snd p)) (zip vs ws) | _ \<Rightarrow> False)"
| "same_json (JObj fs) w = (case w of JObj gs \<Rightarrow> length fs = length gs
     \<and> list_all (\<lambda>f. case map_of gs (fst f) of Some x \<Rightarrow> same_json (snd f) x | None \<Rightarrow> False) fs | _ \<Rightarrow> False)"
| "same_json JNull w = (w = JNull)" | "same_json (JBool b) w = (w = JBool b)" | "same_json (JInt n) w = (w = JInt n)"
| "same_json (JFrac n k) w = (w = JFrac n k)" | "same_json (JStr t) w = (w = JStr t)"
  by pat_completeness auto

termination same_json
  by (relation "measure (\<lambda>(v, w). size v)")
    (auto simp: less_Suc_eq_le size_list_estimation' dest: set_zip_leftD size_pair_list intro: size_pair_list [unfolded less_Suc_eq_le])

section \<open>The reducer\<close>

definition expire :: "timeline \<Rightarrow> timeline \<times> timeline_effect list" where
  "expire s = ((initial_timeline (tl_ws s) (tl_run s))\<lparr>tl_epoch := Suc (tl_epoch s), tl_phase := Resync\<rparr>, [Do_resync])"

definition staged_events :: "timeline \<Rightarrow> string \<Rightarrow> timeline_event list \<Rightarrow> (string \<times> timeline_event) list" where
  "staged_events s g es = fold (\<lambda>e. AList.update (event_id (tl_ws s) g (tv_position e)) e)
     (filter (\<lambda>e. tv_run e = Some (tl_run s) \<and> tv_position e \<le> tl_after s) es) []"

definition reduce_ready :: "timeline \<Rightarrow> stream_ready \<Rightarrow> string \<Rightarrow> timeline \<times> timeline_effect list" where
  "reduce_ready s r i =
     (if Some (ry_generation r) \<noteq> tl_generation s \<or> ry_after r \<noteq> tl_after s \<or> i \<noteq> event_id (tl_ws s) (ry_generation r) (ry_after r)
        \<or> tl_after s < ry_floor r \<or> ry_head r < tl_after s \<or> (tl_staged s \<noteq> None \<and> ry_floor r \<noteq> tl_floor s)
      then expire s
      else (s\<lparr>tl_staged := None,
              tl_events := (case tl_staged s of None \<Rightarrow> tl_events s | Some es \<Rightarrow> staged_events s (ry_generation r) es),
              tl_head := ry_head r, tl_phase := (if ry_head r \<le> tl_after s then Live else Reconnecting)\<rparr>, []))"

definition reduce_event :: "timeline \<Rightarrow> timeline_event \<Rightarrow> string \<Rightarrow> timeline \<times> timeline_effect list" where
  "reduce_event s e i =
     (case tl_generation s of
        None \<Rightarrow> expire s
      | Some g \<Rightarrow>
          if g = [] \<or> tl_staged s \<noteq> None \<or> i \<noteq> event_id (tl_ws s) g (tv_position e) then expire s
          else (let existing = map_of (tl_events s) i in
            if (case existing of Some x \<Rightarrow> \<not> same_json (tv_json x) (tv_json e) | None \<Rightarrow> False)
            then (s\<lparr>tl_error := Some ''protocol_error''\<rparr>, [Do_stop])
            else (let advances = tl_after s < tv_position e; n = (if advances then tv_position e else tl_after s) in
              (s\<lparr>tl_events := (if existing = None \<and> tv_run e = Some (tl_run s) then AList.update i e (tl_events s) else tl_events s),
                 tl_after := n, tl_resume := (if advances then Some i else tl_resume s),
                 tl_phase := (if tl_head s \<le> n then Live else Reconnecting)\<rparr>, []))))"

definition reduce_audit :: "timeline \<Rightarrow> nat \<Rightarrow> timeline_action \<Rightarrow> timeline \<times> timeline_effect list" where
  "reduce_audit s epoch act =
     (if epoch \<noteq> tl_epoch s \<or> (case tl_error s of None \<Rightarrow> False | Some e \<Rightarrow> e \<noteq> []) then (s, [])
      else (case act of
          Expired \<Rightarrow> expire s
        | Failing e \<Rightarrow> (s\<lparr>tl_error := Some e\<rparr>, [Do_stop])
        | Disconnected \<Rightarrow> (s\<lparr>tl_epoch := Suc (tl_epoch s), tl_phase := (if tl_phase s = Resync then Resync else Reconnecting)\<rparr>, [])
        | History r es \<Rightarrow> (s\<lparr>tl_generation := Some (ry_generation r), tl_after := ry_head r, tl_head := ry_head r, tl_floor := ry_floor r,
            tl_staged := Some es, tl_resume := Some (event_id (tl_ws s) (ry_generation r) (ry_head r))\<rparr>, [])
        | Ready r i \<Rightarrow> reduce_ready s r i
        | Audit e i \<Rightarrow> reduce_event s e i))"

definition timeline_events :: "timeline \<Rightarrow> (string \<times> timeline_event) list" where
  "timeline_events s = sort_key (\<lambda>x. tv_position (snd x)) (tl_events s)"

section \<open>The timeline shows the log\<close>

text \<open>A log whose positions count from one and whose objects have distinct fields; the snapshot is a
  prefix of it, every event the stream delivers is the next one or one already delivered, and the stream
  may be lost and resumed at the cursor at any time.\<close>

fun json_distinct :: "jval \<Rightarrow> bool" where
  "json_distinct (JArr vs) \<longleftrightarrow> list_all json_distinct vs"
| "json_distinct (JObj fs) \<longleftrightarrow> distinct (map fst fs) \<and> list_all (\<lambda>f. json_distinct (snd f)) fs"
| "json_distinct v \<longleftrightarrow> True"

definition run_log :: "timeline_event list \<Rightarrow> bool" where
  "run_log es \<longleftrightarrow> map tv_position es = [1..<Suc (length es)] \<and> list_all (\<lambda>e. json_distinct (tv_json e)) es"

inductive following :: "timeline_event list \<Rightarrow> string \<Rightarrow> string \<Rightarrow> string \<Rightarrow> timeline \<Rightarrow> bool" for es ws run g where
  snapshot: "h \<le> length es \<Longrightarrow> f \<le> h \<Longrightarrow>
    following es ws run g (fst (reduce_audit (initial_timeline ws run) 0
      (History \<lparr>ry_generation = g, ry_after = a, ry_head = h, ry_floor = f\<rparr> (filter (\<lambda>e. tv_run e = Some run) (take h es)))))"
| ready: "following es ws run g s \<Longrightarrow> tl_after s \<le> h \<Longrightarrow> f \<le> tl_after s \<Longrightarrow> tl_staged s = None \<or> f = tl_floor s \<Longrightarrow>
    following es ws run g (fst (reduce_audit s (tl_epoch s)
      (Ready \<lparr>ry_generation = g, ry_after = tl_after s, ry_head = h, ry_floor = f\<rparr> (event_id ws g (tl_after s)))))"
| event: "following es ws run g s \<Longrightarrow> tl_staged s = None \<Longrightarrow> i \<le> tl_after s \<Longrightarrow> i < length es \<Longrightarrow>
    following es ws run g (fst (reduce_audit s (tl_epoch s) (Audit (es ! i) (event_id ws g (tv_position (es ! i))))))"
| lost: "following es ws run g s \<Longrightarrow> following es ws run g (fst (reduce_audit s (tl_epoch s) Disconnected))"
| stale: "following es ws run g s \<Longrightarrow> epoch \<noteq> tl_epoch s \<Longrightarrow> following es ws run g (fst (reduce_audit s epoch act))"

lemma same_json_refl: "json_distinct v \<Longrightarrow> same_json v v"
proof (induction v rule: measure_induct_rule [of size])
  case (less v)
  then show ?case
    by (cases v)
      (auto simp: list_all_iff zip_same_conv_map size_list_estimation' less_Suc_eq_le dest: size_pair_list)
qed

definition shown :: "string \<Rightarrow> string \<Rightarrow> string \<Rightarrow> timeline_event list \<Rightarrow> nat \<Rightarrow> (string \<times> timeline_event) list" where
  "shown ws run g es n = map (\<lambda>e. (event_id ws g (tv_position e), e)) (filter (\<lambda>e. tv_run e = Some run) (take n es))"

lemma nat_text_inj: "nat_text m = nat_text n \<Longrightarrow> m = n"
  by (drule arg_cong [of _ _ digits_nat]) (simp only: digits_nat_text)

lemma event_id_inj [simp]: "event_id ws g m = event_id ws g n \<longleftrightarrow> m = n"
  by (auto simp: event_id_def simp del: nat_text.simps dest: nat_text_inj)

lemma log_position:
  assumes "run_log es" "i < length es"
  shows "tv_position (es ! i) = Suc i"
proof -
  have "map tv_position es ! i = [1..<Suc (length es)] ! i" using assms(1) by (simp add: run_log_def)
  then show ?thesis using assms(2) by (simp add: nth_upt del: upt_Suc)
qed

lemma shown_0 [simp]: "shown ws run g es 0 = []"
  by (simp add: shown_def)

lemma shown_Suc: "n < length es \<Longrightarrow> shown ws run g es (Suc n)
    = shown ws run g es n @ (if tv_run (es ! n) = Some run then [(event_id ws g (tv_position (es ! n)), es ! n)] else [])"
  by (simp add: shown_def take_Suc_conv_app_nth)

lemma shown_lookup:
  assumes es: "run_log es" and i: "i < length es"
  shows "n \<le> length es \<Longrightarrow> map_of (shown ws run g es n) (event_id ws g (Suc i)) = (if i < n \<and> tv_run (es ! i) = Some run then Some (es ! i) else None)"
proof (induction n)
  case (Suc n)
  then have "tv_position (es ! n) = Suc n" using log_position [OF es] by simp
  then show ?case using Suc by (auto simp: shown_Suc map_add_def less_Suc_eq split: option.splits)
qed simp

lemma update_new: "k \<notin> fst ` set al \<Longrightarrow> AList.update k v al = al @ [(k, v)]"
  by (induction al) auto

lemma fold_update:
  "distinct (map fst acc @ map k xs) \<Longrightarrow> fold (\<lambda>e. AList.update (k e) e) xs acc = acc @ map (\<lambda>e. (k e, e)) xs"
proof (induction xs arbitrary: acc)
  case (Cons x xs)
  then have "AList.update (k x) x acc = acc @ [(k x, x)]" by (intro update_new) auto
  then show ?case using Cons.IH [of "acc @ [(k x, x)]"] Cons.prems by simp
qed simp

lemma log_distinct:
  assumes "run_log es"
  shows "distinct (map (\<lambda>e. event_id ws g (tv_position e)) (filter P (take n es)))"
proof -
  have "distinct (map tv_position es)" using assms by (simp add: run_log_def del: upt_Suc)
  then have inj: "inj_on tv_position (set es)" "distinct es" by (simp_all add: distinct_map)
  then have "inj_on (\<lambda>e. event_id ws g (tv_position e)) (set (filter P (take n es)))"
    by (auto simp: inj_on_def dest: in_set_takeD)
  then show ?thesis using inj(2) by (simp add: distinct_map)
qed

definition tracking :: "timeline_event list \<Rightarrow> string \<Rightarrow> string \<Rightarrow> string \<Rightarrow> timeline \<Rightarrow> bool" where
  "tracking es ws run g s \<longleftrightarrow> tl_ws s = ws \<and> tl_run s = run \<and> tl_generation s = Some g \<and> g \<noteq> [] \<and> tl_error s = None \<and> tl_after s \<le> length es
     \<and> (case tl_staged s of None \<Rightarrow> tl_events s = shown ws run g es (tl_after s)
        | Some xs \<Rightarrow> xs = filter (\<lambda>e. tv_run e = Some run) (take (tl_after s) es))"

lemma tracking_ready:
  assumes es: "run_log es" and s: "tracking es ws run g s" and r: "tl_after s \<le> h" "f \<le> tl_after s" "tl_staged s = None \<or> f = tl_floor s"
  shows "tracking es ws run g (fst (reduce_ready s \<lparr>ry_generation = g, ry_after = tl_after s, ry_head = h, ry_floor = f\<rparr> (event_id ws g (tl_after s))))"
proof (cases "tl_staged s")
  case None
  then show ?thesis using s r by (auto simp: tracking_def reduce_ready_def)
next
  case (Some xs)
  have xs: "xs = filter (\<lambda>e. tv_run e = Some run) (take (tl_after s) es)" using s Some by (simp add: tracking_def)
  have "tv_position e \<le> tl_after s" if e: "e \<in> set (take (tl_after s) es)" for e
  proof -
    obtain i where "i < length (take (tl_after s) es)" "take (tl_after s) es ! i = e" using e unfolding in_set_conv_nth by blast
    then show ?thesis using log_position [OF es, of i] by auto
  qed
  then have "filter (\<lambda>e. tv_run e = Some run \<and> tv_position e \<le> tl_after s) xs = xs" unfolding xs by (auto intro: filter_cong)
  then have "staged_events s g xs = shown ws run g es (tl_after s)"
    using s fold_update [of "[]" "\<lambda>e. event_id ws g (tv_position e)" xs] log_distinct [OF es, of ws g "\<lambda>e. tv_run e = Some run" "tl_after s"]
    by (simp add: staged_events_def tracking_def shown_def xs)
  then show ?thesis using s r Some by (auto simp: tracking_def reduce_ready_def)
qed

lemma tracking_event:
  assumes es: "run_log es" and s: "tracking es ws run g s" "tl_staged s = None" and i: "i \<le> tl_after s" "i < length es"
  shows "tracking es ws run g (fst (reduce_event s (es ! i) (event_id ws g (tv_position (es ! i)))))"
proof -
  have pos: "tv_position (es ! i) = Suc i" by (rule log_position [OF es i(2)])
  have same: "same_json (tv_json (es ! i)) (tv_json (es ! i))" using es i(2) by (intro same_json_refl) (auto simp: run_log_def list_all_iff)
  have ev: "tl_events s = shown ws run g es (tl_after s)" "tl_after s \<le> length es" using s by (simp_all add: tracking_def)
  have look: "map_of (tl_events s) (event_id ws g (Suc i)) = (if i < tl_after s \<and> tv_run (es ! i) = Some run then Some (es ! i) else None)"
    unfolding ev(1) by (rule shown_lookup [OF es i(2) ev(2)])
  show ?thesis
  proof (cases "i < tl_after s")
    case True
    then show ?thesis using s look same pos by (auto simp: tracking_def reduce_event_def Let_def)
  next
    case False
    then have a: "tl_after s = i" using i(1) by simp
    have "AList.update (event_id ws g (Suc i)) (es ! i) (tl_events s) = tl_events s @ [(event_id ws g (Suc i), es ! i)]"
      using look False by (intro update_new) (simp add: map_of_eq_None_iff split: if_splits)
    then show ?thesis using s look i(2) pos a by (auto simp: tracking_def reduce_event_def Let_def shown_Suc)
  qed
qed

lemma following_tracking:
  assumes "run_log es \<and> g \<noteq> []" "following es ws run g s"
  shows "tracking es ws run g s"
  using assms(2)
proof (induction rule: following.induct)
  case (snapshot h f a)
  then show ?case by (simp add: reduce_audit_def initial_timeline_def tracking_def assms(1))
next
  case (ready s h f)
  then show ?case using tracking_ready [OF conjunct1 [OF assms(1)], of ws run g s h f] by (simp add: reduce_audit_def tracking_def)
next
  case (event s i)
  then show ?case using tracking_event [OF conjunct1 [OF assms(1)], of ws run g s i] by (simp add: reduce_audit_def tracking_def)
next
  case (lost s)
  then show ?case by (auto simp: reduce_audit_def tracking_def split: option.splits)
next
  case (stale s epoch act)
  then show ?case by (simp add: reduce_audit_def)
qed

text \<open>C32: the console shows the Run's log.  However the stream is lost, resumed and repeated, once the
  snapshot is in place the timeline lists exactly the Run's events up to its cursor, each once and in the
  order of their positions.\<close>

theorem timeline_faithful:
  assumes "run_log es" and "g \<noteq> []" and "following es ws run g s" and "tl_staged s = None"
  shows "map snd (timeline_events s) = filter (\<lambda>e. tv_run e = Some run) (take (tl_after s) es)"
proof -
  let ?xs = "filter (\<lambda>e. tv_run e = Some run) (take (tl_after s) es)"
  have ev: "tl_events s = shown ws run g es (tl_after s)" using following_tracking [OF conjI [OF assms(1,2)] assms(3)] assms(4) by (simp add: tracking_def)
  have "sorted (map tv_position (take (tl_after s) es))" using assms(1) by (simp add: run_log_def sorted_wrt_take flip: take_map del: upt_Suc)
  then have "sorted (map tv_position ?xs)" by (rule sorted_filter)
  then show ?thesis unfolding timeline_events_def ev by (simp add: shown_def comp_def sort_key_id_if_sorted)
qed

definition demo_run_events :: "timeline_event list" where
  "demo_run_events = [\<lparr>tv_position = 1, tv_run = Some ''r'', tv_json = JNull\<rparr>, \<lparr>tv_position = 2, tv_run = None, tv_json = JNull\<rparr>,
     \<lparr>tv_position = 3, tv_run = Some ''r'', tv_json = JInt 7\<rparr>]"

text \<open>A snapshot of two events, the stream from its cursor, the third event twice.\<close>

definition demo_actions :: "timeline_action list" where
  "demo_actions =
     (let i = event_id ''w'' ''g'' in
      [History \<lparr>ry_generation = ''g'', ry_after = 0, ry_head = 2, ry_floor = 0\<rparr> [demo_run_events ! 0],
       Ready \<lparr>ry_generation = ''g'', ry_after = 2, ry_head = 3, ry_floor = 0\<rparr> (i 2), Audit (demo_run_events ! 2) (i 3), Audit (demo_run_events ! 2) (i 3)])"

definition demo_timeline :: "nat \<Rightarrow> timeline" where
  "demo_timeline n = fold (\<lambda>act s. fst (reduce_audit s (tl_epoch s) act)) (take n demo_actions) (initial_timeline ''w'' ''r'')"

theorem timeline_faithful_witness:
  "map snd (timeline_events (demo_timeline 4)) = [demo_run_events ! 0, demo_run_events ! 2]"
proof -
  have log: "run_log demo_run_events" by code_simp
  have at: "tl_after (demo_timeline 1) = 2" "tl_staged (demo_timeline 2) = None" "tl_after (demo_timeline 2) = 2" "tl_staged (demo_timeline 3) = None"
    "tl_after (demo_timeline 3) = 3" "tl_staged (demo_timeline 4) = None" "tl_after (demo_timeline 4) = 3" "tl_floor (demo_timeline 1) = 0" by code_simp+
  have "demo_timeline 1 = fst (reduce_audit (initial_timeline ''w'' ''r'') 0 (History \<lparr>ry_generation = ''g'', ry_after = 0, ry_head = 2, ry_floor = 0\<rparr>
      (filter (\<lambda>e. tv_run e = Some ''r'') (take 2 demo_run_events))))" by code_simp
  then have 1: "following demo_run_events ''w'' ''r'' ''g'' (demo_timeline 1)" using following.snapshot [of 2 demo_run_events 0 "''w''" "''r''" "''g''" 0]
    by (simp add: demo_run_events_def)
  have "demo_timeline 2 = fst (reduce_audit (demo_timeline 1) (tl_epoch (demo_timeline 1))
      (Ready \<lparr>ry_generation = ''g'', ry_after = tl_after (demo_timeline 1), ry_head = 3, ry_floor = 0\<rparr> (event_id ''w'' ''g'' (tl_after (demo_timeline 1)))))"
    by code_simp
  then have 2: "following demo_run_events ''w'' ''r'' ''g'' (demo_timeline 2)" using following.ready [OF 1, of 3 0] at by simp
  have 3: "following demo_run_events ''w'' ''r'' ''g'' (fst (reduce_audit s (tl_epoch s) (Audit (demo_run_events ! 2) (event_id ''w'' ''g'' 3))))"
    if "following demo_run_events ''w'' ''r'' ''g'' s" "tl_staged s = None" "2 \<le> tl_after s" for s
    using following.event [OF that] by (simp add: demo_run_events_def)
  have "demo_timeline 3 = fst (reduce_audit (demo_timeline 2) (tl_epoch (demo_timeline 2)) (Audit (demo_run_events ! 2) (event_id ''w'' ''g'' 3)))"
    "demo_timeline 4 = fst (reduce_audit (demo_timeline 3) (tl_epoch (demo_timeline 3)) (Audit (demo_run_events ! 2) (event_id ''w'' ''g'' 3)))"
    by (simp_all add: demo_timeline_def demo_actions_def Let_def)
  then have "following demo_run_events ''w'' ''r'' ''g'' (demo_timeline 4)" using 3 2 at by simp
  from timeline_faithful [OF log _ this at(6)] show ?thesis using at(7) by (simp add: demo_run_events_def)
qed

end
