(* ===== verification/BlobStores.thy ===== *)
theory BlobStores
  imports ListingProps "HOL-Library.List_Lexorder"
begin

text \<open>\<open>blobs/blob-store.ts\<close>, \<open>blobs/filesystem-store.ts\<close> and \<open>blobs/s3-store.ts\<close>: the private storage
  of the bytes of blobs.  A store is the record of its operations, as in the source; each returns an
  error message or its result, and the next store.  Storage fails: every store carries the outcomes of
  the calls to come, so that a statement about all stores is one about all failures.\<close>

section \<open>The interface\<close>

definition blob_limit :: int where
  "blob_limit = 4194304"

type_synonym blob_ref = "uuid \<times> bool"

type_synonym 'a stored_result = "string + 'a"

record 's blob_store =
  op_stage :: "uuid \<Rightarrow> uuid \<Rightarrow> string \<Rightarrow> 's \<Rightarrow> unit stored_result \<times> 's"
  op_promote :: "uuid \<Rightarrow> uuid \<Rightarrow> string \<Rightarrow> 's \<Rightarrow> unit stored_result \<times> 's"
  op_open :: "uuid \<Rightarrow> uuid \<Rightarrow> 's \<Rightarrow> string stored_result \<times> 's"
  op_remove :: "uuid \<Rightarrow> blob_ref \<Rightarrow> 's \<Rightarrow> unit stored_result \<times> 's"
  op_scan :: "uuid \<Rightarrow> 's \<Rightarrow> blob_ref list stored_result \<times> 's"

text \<open>The outcome of a call: done, refused, begun and left half done, or done and not acknowledged.\<close>

datatype io = Io_done | Io_refused string | Io_halfway nat string | Io_unacknowledged string

text \<open>What a request body delivers; after \<open>Part_late\<close> the ten seconds of the timer are over.\<close>

datatype body_part = Part string | Part_failing string | Part_late

text \<open>\<open>bufferBlob\<close>: the bytes of a body, at most \<open>BLOB_LIMIT\<close>.\<close>

fun buffer_parts :: "int \<Rightarrow> body_part list \<Rightarrow> string stored_result" where
  "buffer_parts n [] = Inr []"
| "buffer_parts n (Part b # ps) =
     (if blob_limit < n + octets b then Inl ''blob_too_large'' else map_sum id (\<lambda>t. b @ t) (buffer_parts (n + octets b) ps))"
| "buffer_parts n (Part_failing e # ps) = Inl e"
| "buffer_parts n (Part_late # ps) = Inl ''blob_timeout''"

definition buffer_blob :: "body_part list option \<Rightarrow> string stored_result" where
  "buffer_blob body = (case body of None \<Rightarrow> Inr [] | Some ps \<Rightarrow> buffer_parts 0 ps)"

lemma buffer_parts_limit: "buffer_parts n ps = Inr b \<Longrightarrow> n \<le> blob_limit \<Longrightarrow> n + octets b \<le> blob_limit"
proof (induction n ps arbitrary: b rule: buffer_parts.induct)
  case (2 n c ps)
  then obtain t where t: "buffer_parts (n + octets c) ps = Inr t" "b = c @ t" "\<not> blob_limit < n + octets c"
    by (cases "buffer_parts (n + octets c) ps") (auto split: if_splits)
  then show ?case using "2.IH" [of t] by (simp add: octets_def)
qed (auto simp: octets_def)

lemma buffer_blob_limit: "buffer_blob body = Inr b \<Longrightarrow> octets b \<le> blob_limit"
  using buffer_parts_limit [of 0] by (auto simp: buffer_blob_def blob_limit_def octets_def split: option.splits)

section \<open>The filesystem store\<close>

text \<open>The files below the root by Workspace and reference, the open directory scans, and the outcomes to
  come.  A file is written and renamed on one filesystem; what fails halfway is the write.\<close>

record filesystem =
  fs_files :: "((uuid \<times> blob_ref) \<times> string) list"
  fs_scans :: "(uuid \<times> blob_ref list) list"
  fs_faults :: "io list"

definition fs_next :: "filesystem \<Rightarrow> io \<times> filesystem" where
  "fs_next f = (case fs_faults f of [] \<Rightarrow> (Io_done, f) | x # xs \<Rightarrow> (x, f\<lparr>fs_faults := xs\<rparr>))"

definition fs_file :: "filesystem \<Rightarrow> uuid \<times> blob_ref \<Rightarrow> string option" where
  "fs_file f = map_of (fs_files f)"

definition fs_write :: "uuid \<times> blob_ref \<Rightarrow> string \<Rightarrow> filesystem \<Rightarrow> filesystem" where
  "fs_write k b f = f\<lparr>fs_files := AList.update k b (fs_files f)\<rparr>"

definition fs_unlink :: "uuid \<times> blob_ref \<Rightarrow> filesystem \<Rightarrow> filesystem" where
  "fs_unlink k f = f\<lparr>fs_files := AList.delete k (fs_files f)\<rparr>"

definition fs_stage :: "uuid \<Rightarrow> uuid \<Rightarrow> string \<Rightarrow> filesystem \<Rightarrow> unit stored_result \<times> filesystem" where
  "fs_stage w i b f0 =
     (let (x, f) = fs_next f0; k = (w, i, True) in
      case x of
        Io_refused e \<Rightarrow> (Inl e, f)
      | _ \<Rightarrow> if fs_file f k \<noteq> None then (Inl ''EEXIST'', f)
             else (case x of
                 Io_halfway n e \<Rightarrow> (Inl e, fs_write k (take n b) f)
               | Io_unacknowledged e \<Rightarrow> (Inl e, fs_write k b f)
               | _ \<Rightarrow> (Inr (), fs_write k b f)))"

definition fs_promote :: "uuid \<Rightarrow> uuid \<Rightarrow> string \<Rightarrow> filesystem \<Rightarrow> unit stored_result \<times> filesystem" where
  "fs_promote w i b f0 =
     (let (x, f) = fs_next f0 in
      case (fs_file f (w, i, True), fs_file f (w, i, False)) of
        (None, _) \<Rightarrow> (Inl ''ENOENT'', f)
      | (Some t, Some u) \<Rightarrow> (Inl ''blob_unavailable'', f)
      | (Some t, None) \<Rightarrow>
          (let f1 = fs_write (w, i, False) t (fs_unlink (w, i, True) f) in
           case x of
             Io_done \<Rightarrow> (Inr (), f1)
           | Io_unacknowledged e \<Rightarrow> (Inl e, f1)
           | Io_refused e \<Rightarrow> (Inl e, f)
           | Io_halfway n e \<Rightarrow> (Inl e, f)))"

definition io_error :: "io \<Rightarrow> string option" where
  "io_error x = (case x of Io_done \<Rightarrow> None | Io_refused e \<Rightarrow> Some e | Io_halfway n e \<Rightarrow> Some e | Io_unacknowledged e \<Rightarrow> Some e)"

definition fs_open :: "uuid \<Rightarrow> uuid \<Rightarrow> filesystem \<Rightarrow> string stored_result \<times> filesystem" where
  "fs_open w i f0 =
     (let (x, f) = fs_next f0 in
      case (io_error x, fs_file f (w, i, False)) of
        (Some e, _) \<Rightarrow> (Inl e, f)
      | (None, None) \<Rightarrow> (Inl ''ENOENT'', f)
      | (None, Some b) \<Rightarrow> (if blob_limit < octets b then Inl ''blob_unavailable'' else Inr b, f))"

definition fs_remove :: "uuid \<Rightarrow> blob_ref \<Rightarrow> filesystem \<Rightarrow> unit stored_result \<times> filesystem" where
  "fs_remove w r f0 =
     (let (x, f) = fs_next f0 in
      case x of
        Io_done \<Rightarrow> (Inr (), fs_unlink (w, r) f)
      | Io_unacknowledged e \<Rightarrow> (Inl e, fs_unlink (w, r) f)
      | Io_refused e \<Rightarrow> (Inl e, f)
      | Io_halfway n e \<Rightarrow> (Inl e, f))"

text \<open>A directory is read 64 entries at a time; the scan goes on where the last page ended.\<close>

definition fs_entries :: "uuid \<Rightarrow> filesystem \<Rightarrow> blob_ref list" where
  "fs_entries w f = map (snd \<circ> fst) (filter (\<lambda>x. fst (fst x) = w) (fs_files f))"

definition fs_scan :: "uuid \<Rightarrow> filesystem \<Rightarrow> blob_ref list stored_result \<times> filesystem" where
  "fs_scan w f0 =
     (let (x, f) = fs_next f0;
          dir = (case map_of (fs_scans f) w of Some d \<Rightarrow> d | None \<Rightarrow> fs_entries w f) in
      case io_error x of
        Some e \<Rightarrow> (Inl e, f\<lparr>fs_scans := AList.delete w (fs_scans f)\<rparr>)
      | None \<Rightarrow> (Inr (take 64 dir),
          f\<lparr>fs_scans := (if length dir < 64 then AList.delete w (fs_scans f) else AList.update w (drop 64 dir) (fs_scans f))\<rparr>))"

definition filesystem_store :: "filesystem blob_store" where
  "filesystem_store = \<lparr>op_stage = fs_stage, op_promote = fs_promote, op_open = fs_open, op_remove = fs_remove, op_scan = fs_scan\<rparr>"

section \<open>The S3 store\<close>

text \<open>Objects by key; a listing continues after the last key of its last page.\<close>

record s3 =
  s3_objects :: "((uuid \<times> blob_ref) \<times> string) list"
  s3_cursors :: "(uuid \<times> string) list"
  s3_faults :: "io list"

definition s3_key :: "uuid \<times> blob_ref \<Rightarrow> string" where
  "s3_key k = (case k of (w, i, staging) \<Rightarrow> uuid_text w @ ''/'' @ (if staging then ''staging/'' else []) @ uuid_text i)"

definition s3_object :: "s3 \<Rightarrow> uuid \<times> blob_ref \<Rightarrow> string option" where
  "s3_object f = map_of (s3_objects f)"

text \<open>\<open>transfer\<close>: one request; an object is replaced whole.\<close>

definition s3_request :: "(s3 \<Rightarrow> s3) \<Rightarrow> s3 \<Rightarrow> unit stored_result \<times> s3" where
  "s3_request change f0 =
     (let (x, f) = (case s3_faults f0 of [] \<Rightarrow> (Io_done, f0) | x # xs \<Rightarrow> (x, f0\<lparr>s3_faults := xs\<rparr>)) in
      case x of
        Io_done \<Rightarrow> (Inr (), change f)
      | Io_unacknowledged e \<Rightarrow> (Inl e, change f)
      | Io_refused e \<Rightarrow> (Inl e, f)
      | Io_halfway n e \<Rightarrow> (Inl e, f))"

definition s3_put :: "uuid \<times> blob_ref \<Rightarrow> string \<Rightarrow> s3 \<Rightarrow> unit stored_result \<times> s3" where
  "s3_put k b = s3_request (\<lambda>f. f\<lparr>s3_objects := AList.update k b (s3_objects f)\<rparr>)"

definition s3_delete :: "uuid \<times> blob_ref \<Rightarrow> s3 \<Rightarrow> unit stored_result \<times> s3" where
  "s3_delete k = s3_request (\<lambda>f. f\<lparr>s3_objects := AList.delete k (s3_objects f)\<rparr>)"

definition s3_stage :: "uuid \<Rightarrow> uuid \<Rightarrow> string \<Rightarrow> s3 \<Rightarrow> unit stored_result \<times> s3" where
  "s3_stage w i b = s3_put (w, i, True) b"

definition s3_promote :: "uuid \<Rightarrow> uuid \<Rightarrow> string \<Rightarrow> s3 \<Rightarrow> unit stored_result \<times> s3" where
  "s3_promote w i b f0 =
     (case s3_put (w, i, False) b f0 of
        (Inl e, f1) \<Rightarrow> (Inl e, f1)
      | (Inr u, f1) \<Rightarrow> s3_delete (w, i, True) f1)"

definition s3_open :: "uuid \<Rightarrow> uuid \<Rightarrow> s3 \<Rightarrow> string stored_result \<times> s3" where
  "s3_open w i f0 =
     (case s3_request id f0 of
        (Inl e, f1) \<Rightarrow> (Inl e, f1)
      | (Inr u, f1) \<Rightarrow>
          (case s3_object f1 (w, i, False) of
             None \<Rightarrow> (Inl ''blob_unavailable'', f1)
           | Some b \<Rightarrow> (if blob_limit < octets b then Inl ''blob_too_large'' else Inr b, f1)))"

definition s3_remove :: "uuid \<Rightarrow> blob_ref \<Rightarrow> s3 \<Rightarrow> unit stored_result \<times> s3" where
  "s3_remove w r = s3_delete (w, r)"

definition s3_listing :: "uuid \<Rightarrow> s3 \<Rightarrow> (string \<times> blob_ref) list" where
  "s3_listing w f = sort_key fst (map (\<lambda>x. (s3_key (fst x), snd (fst x))) (filter (\<lambda>x. fst (fst x) = w) (s3_objects f)))"

definition s3_scan :: "uuid \<Rightarrow> s3 \<Rightarrow> blob_ref list stored_result \<times> s3" where
  "s3_scan w f0 =
     (case s3_request id f0 of
        (Inl e, f1) \<Rightarrow> (Inl e, f1)
      | (Inr u, f1) \<Rightarrow>
          (let rest = (case map_of (s3_cursors f1) w of None \<Rightarrow> s3_listing w f1 | Some t \<Rightarrow> filter (\<lambda>x. t < fst x) (s3_listing w f1));
               page = take 64 rest in
           (Inr (map snd page),
            f1\<lparr>s3_cursors := (if length rest \<le> 64 then AList.delete w (s3_cursors f1) else AList.update w (fst (List.last page)) (s3_cursors f1))\<rparr>)))"

definition s3_store :: "s3 blob_store" where
  "s3_store = \<lparr>op_stage = s3_stage, op_promote = s3_promote, op_open = s3_open, op_remove = s3_remove, op_scan = s3_scan\<rparr>"

section \<open>What a store promises\<close>

text \<open>An operation only touches the objects it names, an acknowledged upload and an acknowledged
  promotion are there, what is read is what is there, and a quiet store, one with no failure to come,
  reads what it holds.\<close>

locale lawful_store =
  fixes S :: "'s blob_store" and stored :: "'s \<Rightarrow> uuid \<times> blob_ref \<Rightarrow> string option" and quiet :: "'s \<Rightarrow> bool"
  assumes stage_frame: "op_stage S w i b st = (r, st') \<Longrightarrow> k \<noteq> (w, i, True) \<Longrightarrow> stored st' k = stored st k"
    and stage_stored: "op_stage S w i b st = (Inr u, st') \<Longrightarrow> stored st' (w, i, True) = Some b"
    and promote_frame: "op_promote S w i b st = (r, st') \<Longrightarrow> k \<noteq> (w, i, True) \<Longrightarrow> k \<noteq> (w, i, False) \<Longrightarrow> stored st' k = stored st k"
    and promote_stored: "op_promote S w i b st = (Inr u, st') \<Longrightarrow> stored st (w, i, True) = Some b \<Longrightarrow> stored st' (w, i, False) = Some b"
    and open_stored: "op_open S w i st = (Inr b, st') \<Longrightarrow> stored st (w, i, False) = Some b"
    and open_keeps: "op_open S w i st = (opened, st') \<Longrightarrow> stored st' = stored st"
    and open_quiet: "quiet st \<Longrightarrow> stored st (w, i, False) = Some b \<Longrightarrow> octets b \<le> blob_limit \<Longrightarrow> fst (op_open S w i st) = Inr b"
    and remove_frame: "op_remove S w r' st = (removed, st') \<Longrightarrow> k \<noteq> (w, r') \<Longrightarrow> stored st' k = stored st k"
    and remove_quiet: "quiet st \<Longrightarrow> op_remove S w r' st = (removed, st') \<Longrightarrow> removed = Inr () \<and> stored st' (w, r') = None \<and> quiet st'"
    and scan_keeps: "op_scan S w st = (scanned, st') \<Longrightarrow> stored st' = stored st"

lemma fs_next_file [simp]: "fs_next f = (x, f') \<Longrightarrow> fs_file f' = fs_file f"
  by (auto simp: fs_next_def fs_file_def split: list.splits)

lemma fs_write_file [simp]: "fs_file (fs_write k b f) = (fs_file f)(k \<mapsto> b)"
  by (simp add: fs_file_def fs_write_def update_conv')

lemma fs_unlink_file [simp]: "fs_file (fs_unlink k f) = (fs_file f)(k := None)"
  by (simp add: fs_file_def fs_unlink_def delete_conv')

lemma fs_scans_file [simp]: "fs_file (f\<lparr>fs_scans := d\<rparr>) = fs_file f"
  by (simp add: fs_file_def)

lemma fs_quiet_next: "fs_faults f = [] \<Longrightarrow> fs_next f = (Io_done, f)"
  by (simp add: fs_next_def)

interpretation fs: lawful_store filesystem_store fs_file "\<lambda>f. fs_faults f = []"
proof
  show "op_stage filesystem_store w i b st = (r, st') \<Longrightarrow> k \<noteq> (w, i, True) \<Longrightarrow> fs_file st' k = fs_file st k" for w i b st r st' k
    by (auto simp: filesystem_store_def fs_stage_def Let_def split: prod.splits io.splits if_splits)
  show "op_stage filesystem_store w i b st = (Inr u, st') \<Longrightarrow> fs_file st' (w, i, True) = Some b" for w i b st u st'
    by (auto simp: filesystem_store_def fs_stage_def Let_def split: prod.splits io.splits if_splits)
  show "op_promote filesystem_store w i b st = (r, st') \<Longrightarrow> k \<noteq> (w, i, True) \<Longrightarrow> k \<noteq> (w, i, False) \<Longrightarrow> fs_file st' k = fs_file st k"
    for w i b st r st' k
    by (auto simp: filesystem_store_def fs_promote_def Let_def split: prod.splits io.splits option.splits)
  show "op_promote filesystem_store w i b st = (Inr u, st') \<Longrightarrow> fs_file st (w, i, True) = Some b \<Longrightarrow> fs_file st' (w, i, False) = Some b"
    for w i b st u st'
    by (auto simp: filesystem_store_def fs_promote_def Let_def split: prod.splits io.splits option.splits)
  show "op_open filesystem_store w i st = (Inr b, st') \<Longrightarrow> fs_file st (w, i, False) = Some b" for w i st b st'
    by (auto simp: filesystem_store_def fs_open_def Let_def split: prod.splits option.splits if_splits)
  show "op_open filesystem_store w i st = (r, st') \<Longrightarrow> fs_file st' = fs_file st" for w i st r st'
    by (auto simp: filesystem_store_def fs_open_def Let_def split: prod.splits option.splits)
  show "fs_faults st = [] \<Longrightarrow> fs_file st (w, i, False) = Some b \<Longrightarrow> octets b \<le> blob_limit \<Longrightarrow> fst (op_open filesystem_store w i st) = Inr b"
    for st w i b
    by (simp add: filesystem_store_def fs_open_def fs_quiet_next io_error_def)
  show "op_remove filesystem_store w r st = (x, st') \<Longrightarrow> k \<noteq> (w, r) \<Longrightarrow> fs_file st' k = fs_file st k" for w r st x st' k
    by (auto simp: filesystem_store_def fs_remove_def Let_def split: prod.splits io.splits)
  show "fs_faults st = [] \<Longrightarrow> op_remove filesystem_store w r st = (x, st') \<Longrightarrow> x = Inr () \<and> fs_file st' (w, r) = None \<and> fs_faults st' = []"
    for st w r x st'
    by (auto simp: filesystem_store_def fs_remove_def fs_quiet_next fs_unlink_def fs_file_def delete_conv')
  show "op_scan filesystem_store w st = (x, st') \<Longrightarrow> fs_file st' = fs_file st" for w st x st'
    by (auto simp: filesystem_store_def fs_scan_def Let_def split: prod.splits option.splits)
qed

lemma s3_request_cases:
  assumes "s3_request change f = (r, f')"
  obtains f1 where "s3_object f1 = s3_object f" "f' = f1 \<or> f' = change f1" "r = Inr () \<longrightarrow> f' = change f1"
proof -
  obtain x f1 where x: "(case s3_faults f of [] \<Rightarrow> (Io_done, f) | x # xs \<Rightarrow> (x, f\<lparr>s3_faults := xs\<rparr>)) = (x, f1)" by fastforce
  then have "s3_object f1 = s3_object f" by (auto simp: s3_object_def split: list.splits)
  then show thesis using assms x by (intro that [of f1]) (auto simp: s3_request_def Let_def split: io.splits)
qed

lemma s3_request_id:
  assumes "s3_request id f = (r, f')"
  shows "s3_object f' = s3_object f"
proof -
  obtain f1 where "s3_object f1 = s3_object f" "f' = f1 \<or> f' = id f1" by (rule s3_request_cases [OF assms])
  then show ?thesis by auto
qed

lemma s3_object_update [simp]: "s3_object (f\<lparr>s3_objects := AList.update k b (s3_objects f)\<rparr>) = (s3_object f)(k \<mapsto> b)"
  "s3_object (f\<lparr>s3_objects := AList.delete k (s3_objects f)\<rparr>) = (s3_object f)(k := None)" "s3_object (f\<lparr>s3_cursors := c\<rparr>) = s3_object f"
  by (simp_all add: s3_object_def update_conv' delete_conv')

lemma s3_put_object:
  assumes "s3_put k b f = (r, f')"
  shows "j \<noteq> k \<Longrightarrow> s3_object f' j = s3_object f j" "r = Inr () \<Longrightarrow> s3_object f' k = Some b"
proof -
  let ?change = "\<lambda>f. f\<lparr>s3_objects := AList.update k b (s3_objects f)\<rparr>"
  obtain f1 where f1: "s3_object f1 = s3_object f" "f' = f1 \<or> f' = ?change f1" "r = Inr () \<longrightarrow> f' = ?change f1"
    by (rule s3_request_cases [OF assms [unfolded s3_put_def]])
  have new: "s3_object (?change f1) = (s3_object f)(k \<mapsto> b)" using f1(1) by simp
  show "s3_object f' j = s3_object f j" if "j \<noteq> k" using f1(2)
  proof
    assume "f' = ?change f1"
    then show ?thesis using new that by (simp only: fun_upd_other not_False_eq_True)
  qed (simp only: f1(1))
  show "s3_object f' k = Some b" if "r = Inr ()"
    using new f1(3) that by (simp only: fun_upd_same simp_thms)
qed

lemma s3_delete_object:
  assumes "s3_delete k f = (r, f')"
  shows "j \<noteq> k \<Longrightarrow> s3_object f' j = s3_object f j" "r = Inr () \<Longrightarrow> s3_object f' k = None"
proof -
  let ?change = "\<lambda>f. f\<lparr>s3_objects := AList.delete k (s3_objects f)\<rparr>"
  obtain f1 where f1: "s3_object f1 = s3_object f" "f' = f1 \<or> f' = ?change f1" "r = Inr () \<longrightarrow> f' = ?change f1"
    by (rule s3_request_cases [OF assms [unfolded s3_delete_def]])
  have new: "s3_object (?change f1) = (s3_object f)(k := None)" using f1(1) by simp
  show "s3_object f' j = s3_object f j" if "j \<noteq> k" using f1(2)
  proof
    assume "f' = ?change f1"
    then show ?thesis using new that by (simp only: fun_upd_other not_False_eq_True)
  qed (simp only: f1(1))
  show "s3_object f' k = None" if "r = Inr ()"
    using new f1(3) that by (simp only: fun_upd_same simp_thms)
qed

lemma s3_promote_object:
  assumes "s3_promote w i b f = (r, f')"
  shows "k \<noteq> (w, i, True) \<Longrightarrow> k \<noteq> (w, i, False) \<Longrightarrow> s3_object f' k = s3_object f k" "r = Inr () \<Longrightarrow> s3_object f' (w, i, False) = Some b"
proof -
  obtain r1 f1 where 1: "s3_put (w, i, False) b f = (r1, f1)" by fastforce
  have "(s3_object f' = s3_object f1 \<and> r \<noteq> Inr ()) \<or> (r1 = Inr () \<and> s3_delete (w, i, True) f1 = (r, f'))"
    using assms 1 by (auto simp: s3_promote_def split: sum.splits)
  moreover have "s3_object f' j = s3_object f1 j" if "s3_delete (w, i, True) f1 = (r, f')" "j \<noteq> (w, i, True)" for j
    using s3_delete_object(1) [OF that] .
  ultimately have same: "s3_object f' j = s3_object f1 j" if "j \<noteq> (w, i, True)" for j using that by metis
  show "s3_object f' k = s3_object f k" if "k \<noteq> (w, i, True)" "k \<noteq> (w, i, False)"
    using same [OF that(1)] s3_put_object(1) [OF 1 that(2)] by (rule trans)
  show "s3_object f' (w, i, False) = Some b" if "r = Inr ()"
  proof -
    have "r1 = Inr ()" using assms 1 that by (auto simp: s3_promote_def split: sum.splits)
    then show ?thesis using same [of "(w, i, False)"] s3_put_object(2) [OF 1] by (metis Pair_inject)
  qed
qed

lemma s3_open_object:
  assumes "s3_open w i f = (r, f')"
  shows "s3_object f' = s3_object f" "r = Inr b \<Longrightarrow> s3_object f (w, i, False) = Some b"
proof -
  obtain r1 f1 where 1: "s3_request id f = (r1, f1)" by fastforce
  show "s3_object f' = s3_object f" "r = Inr b \<Longrightarrow> s3_object f (w, i, False) = Some b"
    using assms 1 s3_request_id [OF 1] by (auto simp: s3_open_def split: sum.splits option.splits if_splits)
qed

lemma s3_scan_object:
  assumes "s3_scan w f = (r, f')"
  shows "s3_object f' = s3_object f"
proof -
  obtain r1 f1 where 1: "s3_request id f = (r1, f1)" by fastforce
  have "f' = f1 \<or> (\<exists>c. f' = f1\<lparr>s3_cursors := c\<rparr>)"
    using assms by (cases r1) (simp_all only: s3_scan_def 1 Let_def prod.case sum.case prod.inject, blast+)
  then show ?thesis using s3_request_id [OF 1] by auto
qed

lemma s3_remove_quiet:
  assumes "s3_faults f = []" "s3_remove w r f = (x, f')"
  shows "x = Inr () \<and> s3_object f' (w, r) = None \<and> s3_faults f' = []"
proof -
  have f': "x = Inr ()" "f' = f\<lparr>s3_objects := AList.delete (w, r) (s3_objects f)\<rparr>"
    using assms by (auto simp: s3_remove_def s3_delete_def s3_request_def)
  then show ?thesis using assms(1) by simp
qed

interpretation s3: lawful_store s3_store s3_object "\<lambda>f. s3_faults f = []"
proof
  show "op_stage s3_store w i b st = (r, st') \<Longrightarrow> k \<noteq> (w, i, True) \<Longrightarrow> s3_object st' k = s3_object st k" for w i b st r st' k
    using s3_put_object(1) [of "(w, i, True)" b st r st' k] by (simp add: s3_store_def s3_stage_def)
  show "op_stage s3_store w i b st = (Inr u, st') \<Longrightarrow> s3_object st' (w, i, True) = Some b" for w i b st u st'
    using s3_put_object(2) [of "(w, i, True)" b st "Inr ()" st'] by (simp add: s3_store_def s3_stage_def)
  show "op_promote s3_store w i b st = (r, st') \<Longrightarrow> k \<noteq> (w, i, True) \<Longrightarrow> k \<noteq> (w, i, False) \<Longrightarrow> s3_object st' k = s3_object st k"
    for w i b st r st' k
    using s3_promote_object(1) [of w i b st r st' k] by (simp add: s3_store_def)
  show "op_promote s3_store w i b st = (Inr u, st') \<Longrightarrow> s3_object st (w, i, True) = Some b \<Longrightarrow> s3_object st' (w, i, False) = Some b"
    for w i b st u st'
    using s3_promote_object(2) [of w i b st "Inr ()" st'] by (simp add: s3_store_def)
  show "op_open s3_store w i st = (Inr b, st') \<Longrightarrow> s3_object st (w, i, False) = Some b" for w i st b st'
    using s3_open_object(2) [of w i st "Inr b" st' b] by (simp add: s3_store_def)
  show "op_open s3_store w i st = (r, st') \<Longrightarrow> s3_object st' = s3_object st" for w i st r st'
    using s3_open_object(1) [of w i st r st'] by (simp add: s3_store_def)
  show "s3_faults st = [] \<Longrightarrow> s3_object st (w, i, False) = Some b \<Longrightarrow> octets b \<le> blob_limit \<Longrightarrow> fst (op_open s3_store w i st) = Inr b"
    for st w i b
    by (simp add: s3_store_def s3_open_def s3_request_def)
  show "op_remove s3_store w r st = (x, st') \<Longrightarrow> k \<noteq> (w, r) \<Longrightarrow> s3_object st' k = s3_object st k" for w r st x st' k
    using s3_delete_object(1) [of "(w, r)" st x st' k] by (simp add: s3_store_def s3_remove_def)
  show "s3_faults st = [] \<Longrightarrow> op_remove s3_store w r st = (x, st') \<Longrightarrow> x = Inr () \<and> s3_object st' (w, r) = None \<and> s3_faults st' = []"
    for st w r x st'
    using s3_remove_quiet [of st w r x st'] by (simp add: s3_store_def)
  show "op_scan s3_store w st = (x, st') \<Longrightarrow> s3_object st' = s3_object st" for w st x st'
    using s3_scan_object [of w st x st'] by (simp add: s3_store_def)
qed

end
