(* ===== verification/Blobs.thy ===== *)
theory Blobs
  imports BlobStores
begin

text \<open>The blob services: \<open>put-blob.ts\<close>, \<open>get-blob.ts\<close>, \<open>delete-blob.ts\<close>, \<open>sweep-blobs.ts\<close>,
  \<open>blob-metadata.ts\<close> and \<open>blob-result.ts\<close> of apps/server/blobs, the table of migration 000024, and the
  part of \<open>retention/purge-payloads.ts\<close> that expires blobs.  The table is transactional and the store is
  not: a transaction that fails leaves what it did to the store, and an error at its commit leaves open
  whether it was committed.\<close>

section \<open>Rows\<close>

record blob_row =
  bl_ws :: uuid
  bl_id :: uuid
  bl_key :: string
  bl_size :: int
  bl_sha :: string
  bl_type :: string
  bl_principal :: uuid
  bl_run :: uuid
  bl_created :: time
  bl_expires :: time

record blob_db =
  bd_server :: backplane
  bd_rows :: "blob_row list"
  bd_retained :: "(uuid \<times> blob_ref) list"

definition blob_metadata :: "blob_db \<Rightarrow> uuid \<Rightarrow> uuid \<Rightarrow> blob_row option" where
  "blob_metadata d w i = find (\<lambda>r. bl_ws r = w \<and> bl_id r = i) (bd_rows d)"

definition key_char :: "char \<Rightarrow> bool" where
  "key_char c \<longleftrightarrow> is_lower c \<or> is_upper c \<or> is_digit c \<or> c = CHR ''_'' \<or> c = CHR ''-''"

fun split_slash :: "string \<Rightarrow> string list" where
  "split_slash [] = [[]]"
| "split_slash (c # cs) = (if c = CHR ''/'' then [] # split_slash cs else
     (case split_slash cs of [] \<Rightarrow> [[c]] | w # ws \<Rightarrow> (c # w) # ws))"

definition is_blob_key :: "string \<Rightarrow> bool" where
  "is_blob_key t \<longleftrightarrow> length t \<le> 256 \<and> length (split_slash t) \<le> 4
     \<and> list_all (\<lambda>u. starts_then key_char (\<lambda>c. key_char c \<or> c = CHR ''.'') u \<and> length u \<le> 64) (split_slash t)"

text \<open>The INSERT, with the trigger \<open>control.stamp_blob\<close>, the checks and the two unique keys.\<close>

definition insert_blob :: "time \<Rightarrow> bound_context \<Rightarrow> uuid \<Rightarrow> string \<Rightarrow> int \<Rightarrow> string \<Rightarrow> blob_db \<Rightarrow> failure + blob_db" where
  "insert_blob now b i key sz hash d =
     (case (bc_principal b, bc_run b) of
        (Some p, Some r) \<Rightarrow>
          guardE (\<not> is_blob_key key \<or> sz < 0 \<or> blob_limit < sz) (Sql Check_violation) (
          guardE (list_ex (\<lambda>x. bl_ws x = bc_ws b \<and> bl_id x = i) (bd_rows d)) (Sql (Unique_violation ''blobs_pkey'')) (
          guardE (list_ex (\<lambda>x. bl_ws x = bc_ws b \<and> bl_key x = key) (bd_rows d)) (Sql (Unique_violation ''blobs_workspace_id_key_key''))
            (Inr (d\<lparr>bd_rows := bd_rows d @ [\<lparr>bl_ws = bc_ws b, bl_id = i, bl_key = key, bl_size = sz, bl_sha = hash,
               bl_type = ''application/octet-stream'', bl_principal = p, bl_run = r, bl_created = now,
               bl_expires = now + seconds (case map_of (ct_retention (bp_ctl (bd_server d))) (bc_ws b) of None \<Rightarrow> 2592000 | Some n \<Rightarrow> n)\<rparr>]\<rparr>))))
      | _ \<Rightarrow> Inl (Thrown ''run_required''))"

definition delete_row :: "uuid \<Rightarrow> uuid \<Rightarrow> blob_db \<Rightarrow> blob_db" where
  "delete_row w i d = d\<lparr>bd_rows := filter (\<lambda>r. \<not> (bl_ws r = w \<and> bl_id r = i)) (bd_rows d)\<rparr>"

definition emit_blob :: "time \<Rightarrow> bound_context \<Rightarrow> string \<Rightarrow> string list \<Rightarrow> nat \<Rightarrow> (string \<times> jval) list \<Rightarrow> blob_db \<Rightarrow> blob_db" where
  "emit_blob now b kind objects rows meta d = d\<lparr>bd_server := snd (emit now b kind objects (Some (int rows)) meta (bd_server d))\<rparr>"

section \<open>Failures\<close>

definition blob_errors :: "string list" where
  "blob_errors = [''run_required'', ''run_invalid'', ''run_forbidden'', ''workspace_forbidden'', ''blob_forbidden'', ''blob_not_found'', ''blob_timeout'',
     ''blob_expired'', ''blob_too_large'', ''invalid_input'', ''blob_hash_mismatch'']"

definition blob_error :: "failure \<Rightarrow> string" where
  "blob_error e =
     (if failure_message e \<in> set blob_errors then failure_message e
      else (case e of Sql (Unique_violation c) \<Rightarrow> ''blob_key_conflict'' | _ \<Rightarrow> ''blob_unavailable''))"

text \<open>How a transaction ends once its work is done: it is acknowledged, it never reached the database, or
  its connection is lost at the commit, which has or has not taken effect.  An error keeps the result the
  work had before it.\<close>

datatype tx_outcome = Acknowledged | Unreached | Lost_kept | Lost_undone

definition blob_tx :: "tx_outcome \<Rightarrow> time \<Rightarrow> run_context \<Rightarrow> (bound_context \<Rightarrow> blob_db \<Rightarrow> 's \<Rightarrow> (failure + 'a) \<times> blob_db \<times> 's)
    \<Rightarrow> blob_db \<Rightarrow> 's \<Rightarrow> ((failure \<times> 'a option) + 'a) \<times> blob_db \<times> 's" where
  "blob_tx how now c work d st =
     (if how = Unreached then (Inl (Thrown ''connection_lost'', None), d, st)
      else (case bind_context now c (bd_server d) of
          Inl e \<Rightarrow> (Inl (Sql e, None), d, st)
        | Inr (b, s1) \<Rightarrow>
            (case work b (d\<lparr>bd_server := touch_run now (ctx_run c) s1\<rparr>) st of
               (Inl e, d1, st1) \<Rightarrow> (Inl (e, None), d, st1)
             | (Inr x, d1, st1) \<Rightarrow>
                 if how = Acknowledged then (Inr x, d1, st1)
                 else (Inl (Thrown ''connection_lost'', Some x), if how = Lost_kept then d1 else d, st1))))"

definition reject_blob :: "time \<Rightarrow> run_context \<Rightarrow> string \<Rightarrow> string list \<Rightarrow> string \<Rightarrow> blob_db \<Rightarrow> blob_db" where
  "reject_blob now c kind objects reason d = d\<lparr>bd_server := record_rejection now (Some c) kind objects reason None (bd_server d)\<rparr>"

definition member_only :: "run_context \<Rightarrow> blob_db \<Rightarrow> failure option" where
  "member_only c d =
     (case c of User_context w u \<Rightarrow> if approval_member (bp_ctl (bd_server d)) w u = None then Some (Thrown ''workspace_forbidden'') else None
      | Principal_context w p r h \<Rightarrow> None)"

section \<open>Cleanup\<close>

text \<open>The references of a sweep, until its deadline: \<open>n\<close> is how many it examines before.\<close>

fun sweep_refs :: "'s blob_store \<Rightarrow> uuid \<Rightarrow> blob_db \<Rightarrow> nat \<Rightarrow> blob_ref list \<Rightarrow> 's \<Rightarrow> nat \<times> bool \<times> 's" where
  "sweep_refs S w d n [] st = (0, False, st)"
| "sweep_refs S w d 0 (r # rs) st = (0, True, st)"
| "sweep_refs S w d (Suc n) (r # rs) st =
     (if (\<not> snd r \<and> blob_metadata d w (fst r) \<noteq> None) \<or> (w, r) \<in> set (bd_retained d) then sweep_refs S w d n rs st
      else (case op_remove S w r st of
          (Inl e, st1) \<Rightarrow> (case sweep_refs S w d n rs st1 of (m, p, st2) \<Rightarrow> (m, True, st2))
        | (Inr u, st1) \<Rightarrow> (case sweep_refs S w d n rs st1 of (m, p, st2) \<Rightarrow> (Suc m, p, st2))))"

definition sweep_page :: "'s blob_store \<Rightarrow> uuid \<Rightarrow> uuid list option \<Rightarrow> 's \<Rightarrow> blob_ref list stored_result \<times> 's" where
  "sweep_page S w ids st =
     (case ids of Some is \<Rightarrow> (Inr (concat (map (\<lambda>i. [(i, False), (i, True)]) is)), st) | None \<Rightarrow> op_scan S w st)"

definition sweep_blobs :: "'s blob_store \<Rightarrow> time \<Rightarrow> uuid list option \<Rightarrow> nat \<Rightarrow> bound_context \<Rightarrow> blob_db \<Rightarrow> 's \<Rightarrow> bool \<times> blob_db \<times> 's" where
  "sweep_blobs S now ids n b d st =
     (if (case ct_gate (bp_ctl (bd_server d)) of None \<Rightarrow> True | Some g \<Rightarrow> rg_active g) then (True, d, st)
      else (case sweep_page S (bc_ws b) ids st of
          (Inl e, st1) \<Rightarrow> (True, d, st1)
        | (Inr refs, st1) \<Rightarrow>
            (case sweep_refs S (bc_ws b) d n refs st1 of
               (m, p, st2) \<Rightarrow> (p, if m = 0 then d else emit_blob now b ''blob.cleanup'' [] m [] d, st2))))"

definition cleanup_in :: "'s blob_store \<Rightarrow> time \<Rightarrow> run_context \<Rightarrow> uuid list option \<Rightarrow> nat \<Rightarrow> bound_context \<Rightarrow> blob_db \<Rightarrow> 's
    \<Rightarrow> (failure + bool) \<times> blob_db \<times> 's" where
  "cleanup_in S now c ids n b d st =
     (case member_only c d of
        Some e \<Rightarrow> (Inl e, d, st)
      | None \<Rightarrow> (case sweep_blobs S now ids n b d st of (p, d1, st1) \<Rightarrow> (Inr p, d1, st1)))"

definition cleanup_blobs :: "'s blob_store option \<Rightarrow> tx_outcome \<Rightarrow> time \<Rightarrow> run_context \<Rightarrow> uuid list option \<Rightarrow> nat \<Rightarrow> blob_db \<Rightarrow> 's
    \<Rightarrow> bool \<times> blob_db \<times> 's" where
  "cleanup_blobs S how now c ids n d st =
     (case S of
        None \<Rightarrow> (case ids of None \<Rightarrow> False | Some is \<Rightarrow> is \<noteq> [], d, st)
      | Some T \<Rightarrow> (case blob_tx how now c (cleanup_in T now c ids n) d st of
          (Inl e, d1, st1) \<Rightarrow> (True, d1, st1)
        | (Inr p, d1, st1) \<Rightarrow> (p, d1, st1)))"

section \<open>Uploads\<close>

record put_request =
  pu_type :: "string option"
  pu_sha :: "string option"
  pu_body :: "body_part list option"

definition put_in :: "crypto \<Rightarrow> 's blob_store \<Rightarrow> time \<Rightarrow> uuid \<Rightarrow> string \<Rightarrow> string \<Rightarrow> bound_context \<Rightarrow> blob_db \<Rightarrow> 's
    \<Rightarrow> (failure + blob_row) \<times> blob_db \<times> 's" where
  "put_in k S now i key bytes b d st =
     (case op_stage S (bc_ws b) i bytes st of
        (Inl e, st1) \<Rightarrow> (Inl (Thrown e), d, st1)
      | (Inr u1, st1) \<Rightarrow>
          (case insert_blob now b i key (octets bytes) (cr_sha k bytes) d of
             Inl e \<Rightarrow> (Inl e, d, st1)
           | Inr d1 \<Rightarrow>
               let d2 = emit_blob now b ''blob.put'' [uuid_text i] 1 [(''size'', JInt (octets bytes))] d1 in
               (case op_promote S (bc_ws b) i bytes st1 of
                  (Inl e, st2) \<Rightarrow> (Inl (Thrown e), d2, st2)
                | (Inr u2, st2) \<Rightarrow>
                    (case op_open S (bc_ws b) i st2 of
                       (Inl e, st3) \<Rightarrow> (Inl (Thrown e), d2, st3)
                     | (Inr v, st3) \<Rightarrow>
                         if length v \<noteq> length bytes \<or> cr_sha k v \<noteq> cr_sha k bytes then (Inl (Thrown ''blob_unavailable''), d2, st3)
                         else (case blob_metadata d2 (bc_ws b) i of
                             None \<Rightarrow> (Inl (Thrown ''blob_unavailable''), d2, st3)
                           | Some r \<Rightarrow> (Inr r, d2, st3))))))"

text \<open>The check after an error: a committed row is the answer, otherwise the bytes go.\<close>

definition recheck_in :: "'s blob_store \<Rightarrow> time \<Rightarrow> uuid \<Rightarrow> nat \<Rightarrow> bound_context \<Rightarrow> blob_db \<Rightarrow> 's
    \<Rightarrow> (failure + blob_row option) \<times> blob_db \<times> 's" where
  "recheck_in S now i n b d st =
     (case blob_metadata d (bc_ws b) i of
        Some r \<Rightarrow> (Inr (Some r), d, st)
      | None \<Rightarrow> (case sweep_blobs S now (Some [i]) n b d st of (p, d1, st1) \<Rightarrow> (Inr None, d1, st1)))"

definition media_of :: "string option \<Rightarrow> string option" where
  "media_of t = map_option (\<lambda>x. to_lower (trim (takeWhile (\<lambda>c. c \<noteq> CHR '';'') x))) t"

text \<open>\<open>how\<close> gives the outcomes of the upload, of the check after an error and of the cleanup.\<close>

definition put_blob :: "crypto \<Rightarrow> 's blob_store option \<Rightarrow> (tx_outcome \<times> tx_outcome \<times> tx_outcome) \<Rightarrow> time \<Rightarrow> run_context \<Rightarrow> uuid \<Rightarrow> nat \<Rightarrow> string
    \<Rightarrow> put_request \<Rightarrow> blob_db \<Rightarrow> 's \<Rightarrow> (string + blob_row) \<times> blob_db \<times> 's" where
  "put_blob k S how now c i n key q d st =
     (case (S, buffer_blob (pu_body q)) of
        (None, _) \<Rightarrow> (Inl ''blob_unavailable'', d, st)
      | (Some T, body) \<Rightarrow>
          if media_of (pu_type q) \<noteq> Some ''application/octet-stream'' then (Inl ''invalid_input'', d, st)
          else (case body of
              Inl e \<Rightarrow> (Inl (blob_error (Thrown e)), d, st)
            | Inr bytes \<Rightarrow>
                if pu_sha q \<noteq> None \<and> pu_sha q \<noteq> Some (cr_sha k bytes) then (Inl ''blob_hash_mismatch'', d, st)
                else (case blob_tx (fst how) now c (put_in k T now i key bytes) d st of
                    (Inr r, d1, st1) \<Rightarrow>
                      (case cleanup_blobs S (snd (snd how)) now c None n d1 st1 of (p, d2, st2) \<Rightarrow> (Inr r, d2, st2))
                  | (Inl e, d1, st1) \<Rightarrow>
                      (case blob_tx (fst (snd how)) now c (recheck_in T now i n) d1 st1 of
                         (Inl f, d2, st2) \<Rightarrow> (Inl ''blob_unavailable'', d2, st2)
                       | (Inr (Some r), d2, st2) \<Rightarrow> (Inr r, d2, st2)
                       | (Inr None, d2, st2) \<Rightarrow>
                           (Inl (blob_error (fst e)), reject_blob now c ''blob.put'' [uuid_text i] (blob_error (fst e)) d2, st2)))))"

section \<open>Reads\<close>

text \<open>The row is looked up before the bytes are read and after.\<close>

definition get_blob :: "crypto \<Rightarrow> 's blob_store option \<Rightarrow> uuid \<Rightarrow> uuid \<Rightarrow> (time \<times> blob_db) \<Rightarrow> (time \<times> blob_db) \<Rightarrow> 's \<Rightarrow> (string + (string \<times> string)) \<times> 's" where
  "get_blob k S w i first second st =
     (case S of
        None \<Rightarrow> (Inl ''blob_unavailable'', st)
      | Some T \<Rightarrow>
          (case blob_metadata (snd first) w i of
             None \<Rightarrow> (Inl ''blob_not_found'', st)
           | Some r \<Rightarrow>
               if bl_expires r \<le> fst first then (Inl ''blob_expired'', st)
               else (case op_open T w i st of
                   (Inl e, st1) \<Rightarrow> (Inl (blob_error (Thrown e)), st1)
                 | (Inr bytes, st1) \<Rightarrow>
                     (if octets bytes \<noteq> bl_size r \<or> cr_sha k bytes \<noteq> bl_sha r then Inl ''blob_unavailable''
                      else (case blob_metadata (snd second) w i of
                          None \<Rightarrow> Inl ''blob_not_found''
                        | Some x \<Rightarrow> if bl_expires x \<le> fst second then Inl ''blob_expired'' else Inr (bytes, bl_type x)), st1))))"

section \<open>Deletion and expiry\<close>

definition delete_in :: "time \<Rightarrow> run_context \<Rightarrow> uuid \<Rightarrow> bound_context \<Rightarrow> blob_db \<Rightarrow> 's \<Rightarrow> (failure + string option) \<times> blob_db \<times> 's" where
  "delete_in now c i b d st =
     (case member_only c d of
        Some e \<Rightarrow> (Inl e, d, st)
      | None \<Rightarrow>
          (case blob_metadata d (ctx_ws c) i of
             None \<Rightarrow> (Inr (Some ''blob_not_found''), d, st)
           | Some r \<Rightarrow>
               if ctx_principal c \<noteq> None \<and> ctx_principal c \<noteq> Some (bl_principal r) then (Inr (Some ''blob_forbidden''), d, st)
               else (Inr None, emit_blob now b ''blob.delete'' [uuid_text i] 1 [] (delete_row (ctx_ws c) i d), st)))"

text \<open>After a lost commit a second transaction looks whether the row is gone.\<close>

definition gone_in :: "run_context \<Rightarrow> uuid \<Rightarrow> bound_context \<Rightarrow> blob_db \<Rightarrow> 's \<Rightarrow> (failure + bool) \<times> blob_db \<times> 's" where
  "gone_in c i b d st =
     (case member_only c d of Some e \<Rightarrow> (Inl e, d, st) | None \<Rightarrow> (Inr (blob_metadata d (ctx_ws c) i = None), d, st))"

definition delete_blob :: "'s blob_store option \<Rightarrow> (tx_outcome \<times> tx_outcome \<times> tx_outcome) \<Rightarrow> time \<Rightarrow> run_context \<Rightarrow> uuid \<Rightarrow> nat \<Rightarrow> blob_db \<Rightarrow> 's
    \<Rightarrow> (string + unit) \<times> blob_db \<times> 's" where
  "delete_blob S how now c i n d st =
     (if S = None then (Inl ''blob_unavailable'', d, st)
      else (let cleaned = (\<lambda>d1 st1. case cleanup_blobs S (snd (snd how)) now c (Some [i]) n d1 st1 of (p, d2, st2) \<Rightarrow> (Inr (), d2, st2)) in
        case blob_tx (fst how) now c (delete_in now c i) d st of
          (Inr (Some e), d1, st1) \<Rightarrow> (Inl e, reject_blob now c ''blob.delete'' [uuid_text i] e d1, st1)
        | (Inr None, d1, st1) \<Rightarrow> cleaned d1 st1
        | (Inl (e, ready), d1, st1) \<Rightarrow>
            (let r = blob_error e; (gone, d2, st2) = (if ready = Some None then blob_tx (fst (snd how)) now c (gone_in c i) d1 st1 else (Inr False, d1, st1)) in
             if gone = Inr True then cleaned d2 st2 else (Inl r, reject_blob now c ''blob.delete'' [uuid_text i] r d2, st2))))"

text \<open>A purge: \<open>P\<close> is the storage definer \<open>queue.purge_payloads\<close>, its counts and whether it left
  more; then the expired blobs, oldest first, within what is left of the limit.\<close>

definition expired_blobs :: "time \<Rightarrow> uuid \<Rightarrow> blob_db \<Rightarrow> blob_row list" where
  "expired_blobs now w d = sort_key (\<lambda>r. (bl_expires r, bl_id r)) (filter (\<lambda>r. bl_ws r = w \<and> bl_expires r \<le> now) (bd_rows d))"

fun expire_ids :: "time \<Rightarrow> bound_context \<Rightarrow> uuid list \<Rightarrow> blob_db \<Rightarrow> blob_db" where
  "expire_ids now b [] d = d"
| "expire_ids now b (i # is) d =
     expire_ids now b is (emit_blob now b ''blob.delete'' [uuid_text i] 1 [(''reason'', JStr ''expired'')] (delete_row (bc_ws b) i d))"

record purge_result =
  pg_counts :: "(string \<times> int) list"
  pg_more :: bool
  pg_ids :: "uuid list"

definition purge_in :: "(uuid \<Rightarrow> int \<Rightarrow> backplane \<Rightarrow> failure + (((string \<times> int) list \<times> bool) \<times> backplane)) \<Rightarrow> time \<Rightarrow> run_context \<Rightarrow> int
    \<Rightarrow> bound_context \<Rightarrow> blob_db \<Rightarrow> 's \<Rightarrow> (failure + purge_result) \<times> blob_db \<times> 's" where
  "purge_in P now c limit b d st =
     (case member_only c d of
        Some e \<Rightarrow> (Inl e, d, st)
      | None \<Rightarrow>
          (case P (ctx_ws c) limit (bd_server d) of
             Inl e \<Rightarrow> (Inl e, d, st)
           | Inr ((counts, more_left), s1) \<Rightarrow>
               let remaining = limit - sum_list (map snd counts);
                   expired = take (nat (remaining + 1)) (expired_blobs now (ctx_ws c) (d\<lparr>bd_server := s1\<rparr>));
                   ids = map bl_id (take (nat remaining) expired);
                   all = AList.update ''blobs'' (int (length ids)) counts in
               if remaining < -1 then (Inl (Thrown ''invalid_row_count_in_limit_clause''), d, st)
               else (Inr \<lparr>pg_counts = all, pg_more = (more_left \<or> remaining < int (length expired)), pg_ids = ids\<rparr>,
                 d\<lparr>bd_rows := bd_rows (expire_ids now b ids (d\<lparr>bd_server := s1\<rparr>)),
                   bd_server := snd (emit now b ''retention.purged'' [] (Some (sum_list (map snd all))) (map (\<lambda>x. (fst x, JInt (snd x))) all)
                     (bd_server (expire_ids now b ids (d\<lparr>bd_server := s1\<rparr>))))\<rparr>, st)))"

text \<open>\<open>retentionError\<close>: the status and the reason of a failure.\<close>

definition retention_error :: "failure \<Rightarrow> nat \<times> string" where
  "retention_error e =
     (let reason = failure_message e in
      if reason = ''payload_expired'' then (410, reason)
      else if reason = ''audit_event_not_found'' \<or> reason = ''payload_not_captured'' then (404, reason)
      else if reason = ''workspace_forbidden'' \<or> reason = ''retention_forbidden'' then (403, reason)
      else if failure_sqlstate e \<in> {Some ''57014'', Some ''55P03'', Some ''25P04''} then (408, ''retention_timeout'')
      else (503, if reason = ''payload_read_failed'' then reason else ''retention_unavailable''))"

definition purge_payloads :: "'s blob_store option \<Rightarrow> (tx_outcome \<times> tx_outcome \<times> tx_outcome)
    \<Rightarrow> (uuid \<Rightarrow> int \<Rightarrow> backplane \<Rightarrow> failure + (((string \<times> int) list \<times> bool) \<times> backplane)) \<Rightarrow> time \<Rightarrow> run_context \<Rightarrow> int \<Rightarrow> nat
    \<Rightarrow> blob_db \<Rightarrow> 's \<Rightarrow> ((nat \<times> string) + (purge_result \<times> bool)) \<times> blob_db \<times> 's" where
  "purge_payloads S how P now c limit n d st =
     (case blob_tx (fst how) now c (purge_in P now c limit) d st of
        (Inl e, d1, st1) \<Rightarrow>
          (Inl (retention_error (fst e)), reject_blob now c ''retention.purged'' [] (snd (retention_error (fst e))) d1, st1)
      | (Inr r, d1, st1) \<Rightarrow>
          (case cleanup_blobs S (fst (snd how)) now c (Some (pg_ids r)) n d1 st1 of (p1, d2, st2) \<Rightarrow>
            (case cleanup_blobs S (snd (snd how)) now c None n d2 st2 of (p2, d3, st3) \<Rightarrow> (Inr (r, p2 \<or> p1), d3, st3))))"

definition get_retention :: "blob_db \<Rightarrow> uuid \<Rightarrow> int" where
  "get_retention d w = (case map_of (ct_retention (bp_ctl (bd_server d))) w of None \<Rightarrow> 2592000 | Some n \<Rightarrow> n)"

end
