(* ===== verification/BlobProps.thy ===== *)
theory BlobProps
  imports Blobs
begin

text \<open>A committed blob is stored: over all interleavings of the transactions of uploads, deletions,
  cleanups and purges, whatever fails in the store, at a commit or between two transactions, every row of
  the table has its bytes in the store.\<close>

section \<open>Runs of the blob services\<close>

text \<open>The transactions the services are made of, in any order; every other service leaves the table and
  the store alone.  The last argument lists the uploads attempted.\<close>

type_synonym uploads = "((uuid \<times> uuid) \<times> string) list"

inductive blob_run :: "crypto \<Rightarrow> 's blob_store \<Rightarrow> blob_db \<Rightarrow> 's \<Rightarrow> uploads \<Rightarrow> bool" for k S where
  start: "bd_rows d = [] \<Longrightarrow> blob_run k S d st []"
| put: "blob_run k S d st ups \<Longrightarrow> octets bytes \<le> blob_limit \<Longrightarrow> blob_tx how now c (put_in k S now i key bytes) d st = (r, d', st')
    \<Longrightarrow> blob_run k S d' st' (((ctx_ws c, i), bytes) # ups)"
| recheck: "blob_run k S d st ups \<Longrightarrow> blob_tx how now c (recheck_in S now i n) d st = (r, d', st') \<Longrightarrow> blob_run k S d' st' ups"
| cleanup: "blob_run k S d st ups \<Longrightarrow> blob_tx how now c (cleanup_in S now c ids n) d st = (r, d', st') \<Longrightarrow> blob_run k S d' st' ups"
| delete: "blob_run k S d st ups \<Longrightarrow> blob_tx how now c (delete_in now c i) d st = (r, d', st') \<Longrightarrow> blob_run k S d' st' ups"
| gone: "blob_run k S d st ups \<Longrightarrow> blob_tx how now c (gone_in c i) d st = (r, d', st') \<Longrightarrow> blob_run k S d' st' ups"
| purge: "blob_run k S d st ups \<Longrightarrow> blob_tx how now c (purge_in P now c limit) d st = (r, d', st') \<Longrightarrow> blob_run k S d' st' ups"
| read: "blob_run k S d st ups \<Longrightarrow> op_open S w i st = (r, st') \<Longrightarrow> blob_run k S d st' ups"
| serve: "blob_run k S d st ups \<Longrightarrow> blob_run k S (d\<lparr>bd_server := s', bd_retained := kept\<rparr>) st ups"

section \<open>The services are such runs\<close>

lemma reject_run: "blob_run k S d st ups \<Longrightarrow> blob_run k S (reject_blob now c kind objects reason d) st ups"
  using blob_run.serve [of k S d st ups "bd_retained d" "record_rejection now (Some c) kind objects reason None (bd_server d)"]
  by (simp add: reject_blob_def)

lemma cleanup_run:
  assumes "blob_run k S d st ups" "cleanup_blobs (Some S) how now c ids n d st = (p, d', st')"
  shows "blob_run k S d' st' ups"
  using assms blob_run.cleanup by (fastforce simp: cleanup_blobs_def split: prod.splits sum.splits)

lemma put_blob_run:
  assumes "blob_run k S d st ups" "put_blob k (Some S) how now c i n key q d st = (r, d', st')"
  shows "\<exists>ups'. blob_run k S d' st' ups'"
proof (cases "media_of (pu_type q) = Some ''application/octet-stream'' \<and> (\<exists>b. buffer_blob (pu_body q) = Inr b \<and> (pu_sha q = None \<or> pu_sha q = Some (cr_sha k b)))")
  case False
  then have "d' = d" "st' = st" using assms(2) by (auto simp: put_blob_def split: sum.splits if_splits)
  then show ?thesis using assms(1) by blast
next
  case True
  then obtain b where b: "buffer_blob (pu_body q) = Inr b" "media_of (pu_type q) = Some ''application/octet-stream''"
    "\<not> (pu_sha q \<noteq> None \<and> pu_sha q \<noteq> Some (cr_sha k b))" by auto
  obtain r1 d1 st1 where 1: "blob_tx (fst how) now c (put_in k S now i key b) d st = (r1, d1, st1)" by (cases "blob_tx (fst how) now c (put_in k S now i key b) d st") auto
  note run1 = blob_run.put [OF assms(1) buffer_blob_limit [OF b(1)] 1]
  obtain r2 d2 st2 where 2: "blob_tx (fst (snd how)) now c (recheck_in S now i n) d1 st1 = (r2, d2, st2)"
    by (cases "blob_tx (fst (snd how)) now c (recheck_in S now i n) d1 st1") auto
  note run2 = blob_run.recheck [OF run1 2]
  obtain p d3 st3 where 3: "cleanup_blobs (Some S) (snd (snd how)) now c None n d1 st1 = (p, d3, st3)"
    by (cases "cleanup_blobs (Some S) (snd (snd how)) now c None n d1 st1") auto
  note run3 = cleanup_run [OF run1 3]
  have "blob_run k S d' st' (((ctx_ws c, i), b) # ups)" using assms(2) b 1 2 3 run2 run3 reject_run [OF run2]
    by (auto simp: put_blob_def split: sum.splits option.splits)
  then show ?thesis by blast
qed

lemma delete_blob_run:
  assumes "blob_run k S d st ups" "delete_blob (Some S) how now c i n d st = (r, d', st')"
  shows "blob_run k S d' st' ups"
proof -
  obtain r1 d1 st1 where 1: "blob_tx (fst how) now c (delete_in now c i) d st = (r1, d1, st1)"
    by (cases "blob_tx (fst how) now c (delete_in now c i) d st") auto
  note run1 = blob_run.delete [OF assms(1) 1]
  obtain r2 d2 st2 where 2: "blob_tx (fst (snd how)) now c (gone_in c i) d1 st1 = (r2, d2, st2)"
    by (cases "blob_tx (fst (snd how)) now c (gone_in c i) d1 st1") auto
  note run2 = blob_run.gone [OF run1 2]
  obtain p3 d3 st3 where 3: "cleanup_blobs (Some S) (snd (snd how)) now c (Some [i]) n d1 st1 = (p3, d3, st3)"
    by (cases "cleanup_blobs (Some S) (snd (snd how)) now c (Some [i]) n d1 st1") auto
  obtain p4 d4 st4 where 4: "cleanup_blobs (Some S) (snd (snd how)) now c (Some [i]) n d2 st2 = (p4, d4, st4)"
    by (cases "cleanup_blobs (Some S) (snd (snd how)) now c (Some [i]) n d2 st2") auto
  show ?thesis using assms(2) 1 2 3 4 reject_run [OF run1] reject_run [OF run2] cleanup_run [OF run1 3] cleanup_run [OF run2 4]
    by (auto simp: delete_blob_def Let_def split: sum.splits option.splits if_splits)
qed

lemma purge_run:
  assumes "blob_run k S d st ups" "purge_payloads (Some S) how P now c limit n d st = (r, d', st')"
  shows "blob_run k S d' st' ups"
proof -
  obtain r1 d1 st1 where 1: "blob_tx (fst how) now c (purge_in P now c limit) d st = (r1, d1, st1)"
    by (cases "blob_tx (fst how) now c (purge_in P now c limit) d st") auto
  note run1 = blob_run.purge [OF assms(1) 1]
  show ?thesis
  proof (cases r1)
    case (Inl e)
    then show ?thesis using assms(2) 1 reject_run [OF run1] by (auto simp: purge_payloads_def)
  next
    case (Inr x)
    obtain p2 d2 st2 where 2: "cleanup_blobs (Some S) (fst (snd how)) now c (Some (pg_ids x)) n d1 st1 = (p2, d2, st2)"
      by (cases "cleanup_blobs (Some S) (fst (snd how)) now c (Some (pg_ids x)) n d1 st1") auto
    obtain p3 d3 st3 where 3: "cleanup_blobs (Some S) (snd (snd how)) now c None n d2 st2 = (p3, d3, st3)"
      by (cases "cleanup_blobs (Some S) (snd (snd how)) now c None n d2 st2") auto
    show ?thesis using assms(2) 1 2 3 Inr cleanup_run [OF cleanup_run [OF run1 2] 3] by (auto simp: purge_payloads_def)
  qed
qed

section \<open>Every row is held\<close>

definition held :: "crypto \<Rightarrow> (uuid \<times> blob_ref \<Rightarrow> string option) \<Rightarrow> blob_db \<Rightarrow> uploads \<Rightarrow> bool" where
  "held k f d ups \<longleftrightarrow> (\<forall>r\<in>set (bd_rows d). \<exists>bytes. ((bl_ws r, bl_id r), bytes) \<in> set ups \<and> f (bl_ws r, bl_id r, False) = Some bytes
     \<and> octets bytes \<le> blob_limit \<and> bl_size r = octets bytes \<and> bl_sha r = cr_sha k bytes)"

lemma held_frame:
  assumes "held k f d ups" "set (bd_rows d') \<subseteq> set (bd_rows d)" "set ups \<subseteq> set ups'"
    and "\<And>r. r \<in> set (bd_rows d') \<Longrightarrow> f' (bl_ws r, bl_id r, False) = f (bl_ws r, bl_id r, False)"
  shows "held k f' d' ups'"
  unfolding held_def
proof
  fix r assume r: "r \<in> set (bd_rows d')"
  then obtain bytes where "((bl_ws r, bl_id r), bytes) \<in> set ups" "f (bl_ws r, bl_id r, False) = Some bytes"
    "octets bytes \<le> blob_limit" "bl_size r = octets bytes" "bl_sha r = cr_sha k bytes"
    using assms(1,2) unfolding held_def by blast
  then show "\<exists>bytes. ((bl_ws r, bl_id r), bytes) \<in> set ups' \<and> f' (bl_ws r, bl_id r, False) = Some bytes
     \<and> octets bytes \<le> blob_limit \<and> bl_size r = octets bytes \<and> bl_sha r = cr_sha k bytes"
    using assms(3,4) r by auto
qed

lemma metadata_None: "blob_metadata d w i = None \<longleftrightarrow> (\<forall>r\<in>set (bd_rows d). \<not> (bl_ws r = w \<and> bl_id r = i))"
  by (auto simp: blob_metadata_def find_None_iff)

lemma emit_rows [simp]: "bd_rows (emit_blob now b kind objs n meta d) = bd_rows d"
  by (simp add: emit_blob_def)

lemma emit_metadata [simp]: "blob_metadata (emit_blob now b kind objs n meta d) = blob_metadata d"
  by (simp add: blob_metadata_def fun_eq_iff)

lemma bind_workspace: "bind_context now c s = Inr (b, s1) \<Longrightarrow> bc_ws b = ctx_ws c"
  using bind_contextD(1) [of now c s b s1] by (auto simp: bound_by_def)

text \<open>What a transaction must keep: the rows it started from, should it be undone, and its own.\<close>

lemma tx_held:
  assumes tx: "blob_tx how now c work d st = (r, d', st')" and start: "held k (f st) d ups"
    and work: "\<And>b d0 x d1 st1. bc_ws b = ctx_ws c \<Longrightarrow> bd_rows d0 = bd_rows d \<Longrightarrow> work b d0 st = (x, d1, st1)
      \<Longrightarrow> held k (f st1) d ups \<and> (\<forall>y. x = Inr y \<longrightarrow> held k (f st1) d1 ups)"
  shows "held k (f st') d' ups"
proof (cases "how = Unreached \<or> (\<exists>e. bind_context now c (bd_server d) = Inl e)")
  case True
  then show ?thesis using tx start by (auto simp: blob_tx_def split: if_splits)
next
  case False
  then obtain b s1 where b: "how \<noteq> Unreached" "bind_context now c (bd_server d) = Inr (b, s1)"
    by (cases "bind_context now c (bd_server d)") auto
  let ?d = "d\<lparr>bd_server := touch_run now (ctx_run c) s1\<rparr>"
  obtain x d1 st1 where x: "work b ?d st = (x, d1, st1)" by (cases "work b ?d st") auto
  have "held k (f st1) d ups" "\<And>y. x = Inr y \<Longrightarrow> held k (f st1) d1 ups"
    using work [OF bind_workspace [OF b(2)] _ x] by auto
  then show ?thesis using tx b x by (cases x) (auto simp: blob_tx_def split: if_splits)
qed

context lawful_store
begin

lemma sweep_refs_keeps:
  "sweep_refs S w d n refs st = (m, p, st') \<Longrightarrow> blob_metadata d v i \<noteq> None \<Longrightarrow> stored st' (v, i, False) = stored st (v, i, False)"
proof (induction refs arbitrary: n st m p st')
  case (Cons r rs)
  show ?case
  proof (cases n)
    case (Suc n')
    show ?thesis
    proof (cases "(\<not> snd r \<and> blob_metadata d w (fst r) \<noteq> None) \<or> (w, r) \<in> set (bd_retained d)")
      case True
      then show ?thesis using Cons.IH [of n' st m p st'] Cons.prems Suc by simp
    next
      case False
      obtain x st1 where 1: "op_remove S w r st = (x, st1)" by fastforce
      obtain m2 p2 st2 where 2: "sweep_refs S w d n' rs st1 = (m2, p2, st2)" by (cases "sweep_refs S w d n' rs st1") auto
      have "(v, i, False) \<noteq> (w, r)" using False Cons.prems(2) by (cases r) auto
      then have "stored st1 (v, i, False) = stored st (v, i, False)" by (rule remove_frame [OF 1])
      moreover have "st' = st2" using Cons.prems(1) Suc False 1 2 by (cases x) auto
      ultimately show ?thesis using Cons.IH [OF 2 Cons.prems(2)] by simp
    qed
  qed (use Cons.prems in simp)
qed simp

lemma sweep_page_keeps: "sweep_page S w ids st = (x, st') \<Longrightarrow> stored st' = stored st"
  by (auto simp: sweep_page_def scan_keeps split: option.splits)

lemma sweep_blobs_keeps:
  assumes "sweep_blobs S now ids n b d st = (p, d', st')"
  shows "bd_rows d' = bd_rows d \<and> (\<forall>v i. blob_metadata d v i \<noteq> None \<longrightarrow> stored st' (v, i, False) = stored st (v, i, False))"
proof (cases "case ct_gate (bp_ctl (bd_server d)) of None \<Rightarrow> True | Some g \<Rightarrow> rg_active g")
  case True
  then show ?thesis using assms by (simp add: sweep_blobs_def)
next
  case False
  obtain x st1 where 1: "sweep_page S (bc_ws b) ids st = (x, st1)" by fastforce
  show ?thesis
  proof (cases x)
    case (Inl e)
    then show ?thesis using assms False 1 sweep_page_keeps [OF 1] by (simp add: sweep_blobs_def)
  next
    case (Inr refs)
    obtain m q st2 where 2: "sweep_refs S (bc_ws b) d n refs st1 = (m, q, st2)" by (cases "sweep_refs S (bc_ws b) d n refs st1") auto
    have "st' = st2" "bd_rows d' = bd_rows d" using assms False 1 2 Inr by (auto simp: sweep_blobs_def split: if_splits)
    then show ?thesis using sweep_refs_keeps [OF 2] sweep_page_keeps [OF 1] by simp
  qed
qed

text \<open>An upload only touches the objects of its own id, and a committed row with that id stops it before
  its promotion.\<close>

lemma insert_blob_Inr:
  assumes "insert_blob now b i key z h d = Inr d'"
  shows "\<exists>r. bd_rows d' = bd_rows d @ [r] \<and> bl_ws r = bc_ws b \<and> bl_id r = i \<and> bl_size r = z \<and> bl_sha r = h
    \<and> bl_type r = ''application/octet-stream'' \<and> blob_metadata d (bc_ws b) i = None"
  using assms by (auto simp: insert_blob_def guardE_Inr_iff metadata_None list_ex_iff split: option.splits)

lemma put_in_held:
  assumes put: "put_in k S now i key bytes b d0 st = (x, d1, st1)" and b: "octets bytes \<le> blob_limit"
    and d: "bd_rows d0 = bd_rows d" "held k (stored st) d ups"
  shows "held k (stored st1) d (((bc_ws b, i), bytes) # ups) \<and> (\<forall>y. x = Inr y \<longrightarrow> held k (stored st1) d1 (((bc_ws b, i), bytes) # ups))"
proof -
  let ?w = "bc_ws b" and ?ups = "((bc_ws b, i), bytes) # ups"
  obtain r2 st2 where 2: "op_stage S ?w i bytes st = (r2, st2)" by fastforce
  have stage: "stored st2 (v, j, False) = stored st (v, j, False)" for v j using stage_frame [OF 2] by simp
  then have held2: "held k (stored st2) d ?ups" by (intro held_frame [OF d(2)]) auto
  show ?thesis
  proof (cases "\<exists>u d2. r2 = Inr u \<and> insert_blob now b i key (octets bytes) (cr_sha k bytes) d0 = Inr d2")
    case False
    then have "st1 = st2" "\<forall>y. x \<noteq> Inr y" using put 2 by (auto simp: put_in_def split: sum.splits)
    then show ?thesis using held2 by simp
  next
    case True
    then obtain u d2 where ok: "r2 = Inr u" "insert_blob now b i key (octets bytes) (cr_sha k bytes) d0 = Inr d2" by blast
    obtain r where r: "bd_rows d2 = bd_rows d0 @ [r]" "bl_ws r = ?w" "bl_id r = i" "bl_size r = octets bytes" "bl_sha r = cr_sha k bytes"
      "blob_metadata d0 ?w i = None" using insert_blob_Inr [OF ok(2)] by blast
    have new: "\<not> (bl_ws y = ?w \<and> bl_id y = i)" if "y \<in> set (bd_rows d)" for y using r(6) that d(1) by (simp add: metadata_None)
    let ?d2 = "emit_blob now b ''blob.put'' [uuid_text i] 1 [(''size'', JInt (octets bytes))] d2"
    obtain r3 st3 where 3: "op_promote S ?w i bytes st2 = (r3, st3)" by fastforce
    have "stored st3 (bl_ws y, bl_id y, False) = stored st2 (bl_ws y, bl_id y, False)" if "y \<in> set (bd_rows d)" for y
      using promote_frame [OF 3] new [OF that] by auto
    then have held3: "held k (stored st3) d ?ups" by (intro held_frame [OF held2]) auto
    show ?thesis
    proof (cases r3)
      case (Inl e)
      then have "st1 = st3" "\<forall>y. x \<noteq> Inr y" using put 2 3 ok by (auto simp: put_in_def Let_def)
      then show ?thesis using held3 by simp
    next
      case (Inr u3)
      obtain r4 st4 where 4: "op_open S ?w i st3 = (r4, st4)" by fastforce
      have "st1 = st4" "\<And>y. x = Inr y \<Longrightarrow> d1 = ?d2" using put 2 3 4 ok Inr
        by (auto simp: put_in_def Let_def split: sum.splits if_splits option.splits)
      moreover have "stored st4 = stored st3" by (rule open_keeps [OF 4])
      moreover have "stored st3 (?w, i, False) = Some bytes"
        using promote_stored [OF 3 [unfolded Inr]] stage_stored [OF 2 [unfolded ok(1)]] .
      then have "held k (stored st3) ?d2 ?ups" using held3 r(1-5) d(1) b by (auto simp: held_def)
      ultimately show ?thesis using held3 by simp
    qed
  qed
qed

lemma purge_rows: "set (bd_rows (expire_ids now b is d)) \<subseteq> set (bd_rows d)"
proof (induction "is" arbitrary: d)
  case (Cons i "is")
  let ?d = "emit_blob now b ''blob.delete'' [uuid_text i] 1 [(''reason'', JStr ''expired'')] (delete_row (bc_ws b) i d)"
  have "set (bd_rows ?d) \<subseteq> set (bd_rows d)" by (auto simp: delete_row_def)
  then show ?case using Cons.IH [of ?d] by (simp only: expire_ids.simps)
qed simp

lemma purge_in_held:
  assumes "purge_in P now c limit b d0 st = (x, d1, st1)" "bd_rows d0 = bd_rows d" "held k (stored st) d ups"
  shows "held k (stored st1) d ups \<and> (\<forall>y. x = Inr y \<longrightarrow> held k (stored st1) d1 ups)"
proof -
  have "st1 = st" "set (bd_rows d1) \<subseteq> set (bd_rows d)"
    using assms(1,2) purge_rows by (auto simp: purge_in_def Let_def split: option.splits sum.splits if_splits prod.splits) fastforce+
  then show ?thesis using assms(3) held_frame [OF assms(3), of d1 ups "stored st"] by simp
qed

lemma blob_run_held: "blob_run k S d st ups \<Longrightarrow> held k (stored st) d ups"
proof (induction rule: blob_run.induct)
  case (start d st)
  then show ?case by (simp add: held_def)
next
  case (put d st ups bytes how now c i key r d' st')
  have start: "held k (stored st) d (((ctx_ws c, i), bytes) # ups)" by (rule held_frame [OF put.IH]) auto
  show ?case
  proof (rule tx_held [OF put.hyps(3), where f = stored, OF start])
    fix b d0 x d1 st1
    assume a: "bc_ws b = ctx_ws c" "bd_rows d0 = bd_rows d" "put_in k S now i key bytes b d0 st = (x, d1, st1)"
    show "held k (stored st1) d (((ctx_ws c, i), bytes) # ups) \<and> (\<forall>y. x = Inr y \<longrightarrow> held k (stored st1) d1 (((ctx_ws c, i), bytes) # ups))"
      using put_in_held [OF a(3) put.hyps(2) a(2) put.IH] a(1) by simp
  qed
next
  case (recheck d st ups how now c i n r d' st')
  show ?case
  proof (rule tx_held [OF recheck.hyps(2), where f = stored, OF recheck.IH])
    fix b d0 x d1 st1
    assume a: "bd_rows d0 = bd_rows d" "recheck_in S now i n b d0 st = (x, d1, st1)"
    then have k: "bd_rows d1 = bd_rows d0 \<and> (\<forall>v i. blob_metadata d0 v i \<noteq> None \<longrightarrow> stored st1 (v, i, False) = stored st (v, i, False))"
      by (auto simp: recheck_in_def split: option.splits prod.splits dest!: sweep_blobs_keeps)
    show "held k (stored st1) d ups \<and> (\<forall>y. x = Inr y \<longrightarrow> held k (stored st1) d1 ups)"
      using k a(1) by (intro conjI allI impI; intro held_frame [OF recheck.IH]) (auto simp: metadata_None)
  qed
next
  case (cleanup d st ups how now c ids n r d' st')
  show ?case
  proof (rule tx_held [OF cleanup.hyps(2), where f = stored, OF cleanup.IH])
    fix b d0 x d1 st1
    assume a: "bd_rows d0 = bd_rows d" "cleanup_in S now c ids n b d0 st = (x, d1, st1)"
    then have k: "bd_rows d1 = bd_rows d0 \<and> (\<forall>v i. blob_metadata d0 v i \<noteq> None \<longrightarrow> stored st1 (v, i, False) = stored st (v, i, False))"
      by (auto simp: cleanup_in_def split: option.splits prod.splits dest!: sweep_blobs_keeps)
    show "held k (stored st1) d ups \<and> (\<forall>y. x = Inr y \<longrightarrow> held k (stored st1) d1 ups)"
      using k a(1) by (intro conjI allI impI; intro held_frame [OF cleanup.IH]) (auto simp: metadata_None)
  qed
next
  case (delete d st ups how now c i r d' st')
  show ?case
  proof (rule tx_held [OF delete.hyps(2), where f = stored, OF delete.IH])
    fix b d0 x d1 st1
    assume a: "bd_rows d0 = bd_rows d" "delete_in now c i b d0 st = (x, d1, st1)"
    then have "st1 = st" "set (bd_rows d1) \<subseteq> set (bd_rows d)" by (auto simp: delete_in_def delete_row_def split: option.splits if_splits)
    then show "held k (stored st1) d ups \<and> (\<forall>y. x = Inr y \<longrightarrow> held k (stored st1) d1 ups)"
      using delete.IH held_frame [OF delete.IH, of d1 ups "stored st"] by simp
  qed
next
  case (gone d st ups how now c i r d' st')
  show ?case
  proof (rule tx_held [OF gone.hyps(2), where f = stored, OF gone.IH])
    fix b d0 x d1 st1
    assume a: "bd_rows d0 = bd_rows d" "gone_in c i b d0 st = (x, d1, st1)"
    then have "st1 = st" "bd_rows d1 = bd_rows d" by (auto simp: gone_in_def split: option.splits)
    then show "held k (stored st1) d ups \<and> (\<forall>y. x = Inr y \<longrightarrow> held k (stored st1) d1 ups)"
      using gone.IH by (simp add: held_def)
  qed
next
  case (purge d st ups how now c P limit r d' st')
  show ?case by (rule tx_held [OF purge.hyps(2), where f = stored, OF purge.IH]) (rule purge_in_held [OF _ _ purge.IH])
next
  case (read d st ups w i r st')
  then show ?case using open_keeps by simp
next
  case (serve d st ups s' kept)
  then show ?case by (simp add: held_def)
qed

text \<open>A row's bytes can be read.\<close>

lemma blob_run_read:
  assumes "blob_run k S d st ups" "blob_metadata d w i = Some r" "now < bl_expires r" "later < bl_expires r" "quiet st"
  shows "\<exists>bytes. ((w, i), bytes) \<in> set ups \<and> fst (get_blob k (Some S) w i (now, d) (later, d) st) = Inr (bytes, bl_type r)"
proof -
  have r: "r \<in> set (bd_rows d)" "bl_ws r = w" "bl_id r = i"
    using assms(2) by (auto simp: blob_metadata_def find_Some_iff)
  then obtain bytes where b: "((w, i), bytes) \<in> set ups" "stored st (w, i, False) = Some bytes" "octets bytes \<le> blob_limit"
    "bl_size r = octets bytes" "bl_sha r = cr_sha k bytes" using blob_run_held [OF assms(1)] unfolding held_def by blast
  obtain x st' where x: "op_open S w i st = (x, st')" by fastforce
  then have "x = Inr bytes" using open_quiet [OF assms(5) b(2,3)] by simp
  then show ?thesis using b x assms(2-4) by (auto simp: get_blob_def)
qed

end

section \<open>The properties\<close>

text \<open>C33: no committed blob is lost.  Whatever fails in the store, at a commit or between the transactions
  of uploads, deletions, cleanups and purges, in whatever order these run, the file of every row of the
  table holds bytes that were uploaded under its id, of the size and the hash the row records.\<close>

theorem blob_durable:
  assumes "blob_run k filesystem_store d st ups" and "r \<in> set (bd_rows d)"
  shows "\<exists>bytes. ((bl_ws r, bl_id r), bytes) \<in> set ups \<and> fs_file st (bl_ws r, bl_id r, False) = Some bytes
    \<and> bl_size r = octets bytes \<and> bl_sha r = cr_sha k bytes"
  using fs.blob_run_held [OF assms(1)] assms(2) unfolding held_def by blast

text \<open>C34: what was stored is what is read.  In every reachable state a blob that has not expired reads as
  the bytes uploaded under its id when the object store answers.\<close>

theorem blob_read_back:
  assumes "blob_run k s3_store d st ups" and "blob_metadata d w i = Some r" and "now \<le> later" and "later < bl_expires r" and "s3_faults st = []"
  shows "\<exists>bytes. ((w, i), bytes) \<in> set ups \<and> fst (get_blob k (Some s3_store) w i (now, d) (later, d) st) = Inr (bytes, bl_type r)"
  by (rule s3.blob_run_read [OF assms(1,2) le_less_trans [OF assms(3,4)] assms(4,5)])

section \<open>A worked run\<close>

text \<open>An upload whose commit is lost but took effect, answered by the check that follows.\<close>

definition demo_blob_db :: blob_db where
  "demo_blob_db = \<lparr>bd_server = fresh_backplane demo_control, bd_rows = [], bd_retained = []\<rparr>"

definition demo_upload :: put_request where
  "demo_upload = \<lparr>pu_type = Some ''application/octet-stream'', pu_sha = None, pu_body = Some [Part ''he'', Part ''llo'']\<rparr>"

definition demo_put :: "'s blob_store \<Rightarrow> 's \<Rightarrow> (string + blob_row) \<times> blob_db \<times> 's" where
  "demo_put S st = put_blob demo_crypto (Some S) (Lost_kept, Acknowledged, Acknowledged) 7 (Principal_context 1 10 20 None) 5 64 ''notes/a.txt''
     demo_upload demo_blob_db st"

definition demo_files :: filesystem where
  "demo_files = \<lparr>fs_files = [], fs_scans = [], fs_faults = []\<rparr>"

definition demo_objects :: s3 where
  "demo_objects = \<lparr>s3_objects = [], s3_cursors = [], s3_faults = []\<rparr>"

definition demo_blob_row :: blob_row where
  "demo_blob_row = \<lparr>bl_ws = 1, bl_id = 5, bl_key = ''notes/a.txt'', bl_size = 5, bl_sha = ''hello'', bl_type = ''application/octet-stream'',
     bl_principal = 10, bl_run = 20, bl_created = 7, bl_expires = 2592000000007\<rparr>"

lemma demo_put_fs:
  "fst (demo_put filesystem_store demo_files) = Inr demo_blob_row"
  "bd_rows (fst (snd (demo_put filesystem_store demo_files))) = [demo_blob_row]"
  by code_simp+

lemma demo_put_s3:
  "fst (demo_put s3_store demo_objects) = Inr demo_blob_row"
  "blob_metadata (fst (snd (demo_put s3_store demo_objects))) 1 5 = Some demo_blob_row" "s3_faults (snd (snd (demo_put s3_store demo_objects))) = []"
  by code_simp+

lemma demo_put_run: "\<exists>ups. blob_run demo_crypto S (fst (snd (demo_put S st))) (snd (snd (demo_put S st))) ups"
proof -
  have "blob_run demo_crypto S demo_blob_db st []" by (rule blob_run.start) (simp add: demo_blob_db_def)
  moreover have "put_blob demo_crypto (Some S) (Lost_kept, Acknowledged, Acknowledged) 7 (Principal_context 1 10 20 None) 5 64 ''notes/a.txt''
      demo_upload demo_blob_db st = (fst (demo_put S st), fst (snd (demo_put S st)), snd (snd (demo_put S st)))"
    by (simp only: demo_put_def prod.collapse)
  ultimately show ?thesis by (rule put_blob_run)
qed

theorem blob_durable_witness:
  "\<exists>bytes. fs_file (snd (snd (demo_put filesystem_store demo_files))) (1, 5, False) = Some bytes \<and> octets bytes = 5 \<and> cr_sha demo_crypto bytes = ''hello''"
proof -
  obtain ups where run: "blob_run demo_crypto filesystem_store (fst (snd (demo_put filesystem_store demo_files))) (snd (snd (demo_put filesystem_store demo_files))) ups"
    using demo_put_run [of filesystem_store demo_files] by blast
  show ?thesis using blob_durable [OF run, of demo_blob_row] demo_put_fs(2) by (auto simp: demo_blob_row_def)
qed

theorem blob_read_back_witness:
  "\<exists>bytes. fst (get_blob demo_crypto (Some s3_store) 1 5 (8, fst (snd (demo_put s3_store demo_objects))) (9, fst (snd (demo_put s3_store demo_objects)))
     (snd (snd (demo_put s3_store demo_objects)))) = Inr (bytes, ''application/octet-stream'')"
proof -
  obtain ups where run: "blob_run demo_crypto s3_store (fst (snd (demo_put s3_store demo_objects))) (snd (snd (demo_put s3_store demo_objects))) ups"
    using demo_put_run [of s3_store demo_objects] by blast
  show ?thesis using blob_read_back [OF run demo_put_s3(2), of 8 9] demo_put_s3(3) by (auto simp: demo_blob_row_def)
qed

end
