(* ===== verification/PrincipalGate.thy ===== *)
theory PrincipalGate
  imports Prelude
begin

text \<open>\<open>platform/principal-admission.ts\<close>: the gate of the Principal requests of one server.  Six requests
  run at a time, at most five of them no callbacks of a running function, so that a callback can always
  enter when the functions that wait for it hold all the other places.  A request is known by a number;
  whether it is a callback and whether it invokes a function is read from its headers and its path.\<close>

record gate_caller =
  cl_id :: nat
  cl_callback :: bool
  cl_invocation :: bool

record principal_gate =
  pg_active :: nat
  pg_others :: nat
  pg_waiting :: "gate_caller list"
  pg_holding :: "gate_caller list"
  pg_known :: "nat list"
  pg_answers :: "(nat \<times> bool) list"
  pg_minute :: int
  pg_rejected :: nat

definition new_gate :: principal_gate where
  "new_gate = \<lparr>pg_active = 0, pg_others = 0, pg_waiting = [], pg_holding = [], pg_known = [], pg_answers = [], pg_minute = -1, pg_rejected = 0\<rparr>"

text \<open>\<open>snapshot\<close> starts a new count with every minute; \<open>now\<close> is in milliseconds.\<close>

definition gate_snapshot :: "int \<Rightarrow> principal_gate \<Rightarrow> principal_gate" where
  "gate_snapshot now g = (if now div 60000 = pg_minute g then g else g\<lparr>pg_minute := now div 60000, pg_rejected := 0\<rparr>)"

definition gate_finish :: "int \<Rightarrow> bool \<Rightarrow> gate_caller \<Rightarrow> principal_gate \<Rightarrow> principal_gate" where
  "gate_finish now ok c g =
     (let g1 = g\<lparr>pg_waiting := remove1 c (pg_waiting g)\<rparr>;
          g2 = (if ok then g1\<lparr>pg_active := Suc (pg_active g1), pg_others := (if cl_callback c then pg_others g1 else Suc (pg_others g1)),
                    pg_holding := c # pg_holding g1\<rparr>
                else (gate_snapshot now g1)\<lparr>pg_rejected := Suc (pg_rejected (gate_snapshot now g1))\<rparr>) in
      g2\<lparr>pg_answers := (cl_id c, ok) # pg_answers g2\<rparr>)"

definition may_enter :: "nat \<Rightarrow> gate_caller \<Rightarrow> principal_gate \<Rightarrow> bool" where
  "may_enter limit c g \<longleftrightarrow> pg_active g < limit \<and> (cl_callback c \<or> pg_others g < limit - 1)"

definition gate_enter :: "nat \<Rightarrow> int \<Rightarrow> gate_caller \<Rightarrow> principal_gate \<Rightarrow> principal_gate" where
  "gate_enter limit now c g = (if may_enter limit c g then gate_finish now True c g else g)"

text \<open>A released place wakes the waiting requests in the order they came.\<close>

definition gate_release :: "nat \<Rightarrow> int \<Rightarrow> gate_caller \<Rightarrow> principal_gate \<Rightarrow> principal_gate" where
  "gate_release limit now c g =
     (if c \<notin> set (pg_holding g) then g
      else (let g1 = g\<lparr>pg_holding := remove1 c (pg_holding g), pg_active := pg_active g - 1,
              pg_others := (if cl_callback c then pg_others g else pg_others g - 1)\<rparr> in
            fold (gate_enter limit now) (pg_waiting g1) g1))"

text \<open>A request asks once, and may have been aborted before; its timer fires, it is aborted, its response
  is over.  An invocation keeps its place when it is aborted, until it is released.\<close>

datatype gate_step = Acquire gate_caller bool | Waited_long gate_caller | Aborted gate_caller | Released gate_caller

fun gate_do :: "nat \<Rightarrow> int \<times> gate_step \<Rightarrow> principal_gate \<Rightarrow> principal_gate" where
  "gate_do limit (now, Acquire c aborted) g =
     (if cl_id c \<in> set (pg_known g) then g
      else (let g1 = g\<lparr>pg_known := cl_id c # pg_known g\<rparr> in
            if aborted then gate_finish now False c g1 else gate_enter limit now c (g1\<lparr>pg_waiting := pg_waiting g1 @ [c]\<rparr>)))"
| "gate_do limit (now, Waited_long c) g = (if c \<in> set (pg_waiting g) then gate_finish now False c g else g)"
| "gate_do limit (now, Aborted c) g =
     (if c \<in> set (pg_waiting g) then gate_finish now False c g
      else if cl_invocation c then g else gate_release limit now c g)"
| "gate_do limit (now, Released c) g = gate_release limit now c g"

definition gate_run :: "nat \<Rightarrow> (int \<times> gate_step) list \<Rightarrow> principal_gate" where
  "gate_run limit steps = fold (gate_do limit) steps new_gate"

section \<open>The invariant\<close>

definition other_holders :: "principal_gate \<Rightarrow> gate_caller list" where
  "other_holders g = filter (\<lambda>c. \<not> cl_callback c) (pg_holding g)"

definition counted_gate :: "nat \<Rightarrow> principal_gate \<Rightarrow> bool" where
  "counted_gate limit g \<longleftrightarrow> pg_active g = length (pg_holding g) \<and> pg_others g = length (other_holders g) \<and> pg_active g \<le> limit \<and> pg_others g \<le> limit - 1
     \<and> distinct (map cl_id (pg_waiting g @ pg_holding g)) \<and> cl_id ` set (pg_waiting g @ pg_holding g) \<subseteq> set (pg_known g)"

definition none_left :: "nat \<Rightarrow> principal_gate \<Rightarrow> bool" where
  "none_left limit g \<longleftrightarrow> (\<forall>c\<in>set (pg_waiting g). \<not> may_enter limit c g)"

lemma finish_gate_fields [simp]:
  "pg_waiting (gate_finish now ok c g) = remove1 c (pg_waiting g)" "pg_known (gate_finish now ok c g) = pg_known g"
  "pg_holding (gate_finish now ok c g) = (if ok then c # pg_holding g else pg_holding g)"
  "pg_active (gate_finish now ok c g) = (if ok then Suc (pg_active g) else pg_active g)"
  "pg_others (gate_finish now ok c g) = (if ok \<and> \<not> cl_callback c then Suc (pg_others g) else pg_others g)"
  by (simp_all add: gate_finish_def Let_def gate_snapshot_def)

lemma may_enter_mono: "pg_active g \<le> pg_active h \<Longrightarrow> pg_others g \<le> pg_others h \<Longrightarrow> may_enter limit c h \<Longrightarrow> may_enter limit c g"
  by (auto simp: may_enter_def)

lemma distinct_ids_remove1:
  assumes "distinct (map cl_id (xs @ ys))" "c \<in> set xs"
  shows "distinct (map cl_id (remove1 c xs @ c # ys))"
proof -
  obtain us vs where xs: "xs = us @ c # vs" "c \<notin> set us" using assms(2) by (meson split_list_first)
  then have "remove1 c xs = us @ vs" by (simp add: remove1_append)
  then show ?thesis using assms(1) xs(1) by auto
qed

lemma enter_counted:
  assumes "counted_gate limit g" "c \<in> set (pg_waiting g)"
  shows "counted_gate limit (gate_enter limit now c g)"
proof (cases "may_enter limit c g")
  case True
  have "cl_id ` set (remove1 c (pg_waiting g) @ c # pg_holding g) \<subseteq> set (pg_known g)"
    using assms unfolding counted_gate_def by (auto dest!: subsetD [OF set_remove1_subset])
  then show ?thesis using True assms distinct_ids_remove1 [of "pg_waiting g" "pg_holding g" c]
    unfolding counted_gate_def gate_enter_def may_enter_def by (auto simp: other_holders_def simp del: append.simps)
qed (simp add: gate_enter_def assms)

lemma finish_False_counted: "counted_gate limit g \<Longrightarrow> counted_gate limit (gate_finish now False c g)"
  by (auto simp: counted_gate_def other_holders_def distinct_map intro: inj_on_subset dest!: subsetD [OF set_remove1_subset])

text \<open>After the waiting requests were woken none is left that may enter.\<close>

lemma wake_all:
  "counted_gate limit g \<Longrightarrow> set cs \<subseteq> set (pg_waiting g) \<Longrightarrow> distinct cs \<Longrightarrow> \<forall>c\<in>set (pg_waiting g) - set cs. \<not> may_enter limit c g
    \<Longrightarrow> counted_gate limit (fold (gate_enter limit now) cs g) \<and> none_left limit (fold (gate_enter limit now) cs g)"
proof (induction cs arbitrary: g)
  case Nil
  then show ?case by (simp add: none_left_def)
next
  case (Cons c cs)
  let ?g = "gate_enter limit now c g"
  have c: "c \<in> set (pg_waiting g)" using Cons.prems(2) by simp
  have w: "distinct (pg_waiting g)" using Cons.prems(1) by (simp add: counted_gate_def distinct_map)
  have "counted_gate limit ?g" by (rule enter_counted [OF Cons.prems(1) c])
  moreover have "set cs \<subseteq> set (pg_waiting ?g)" using Cons.prems(2,3) by (auto simp: gate_enter_def w)
  moreover have "\<not> may_enter limit x ?g" if "x \<in> set (pg_waiting ?g) - set cs" for x
  proof (cases "may_enter limit c g")
    case True
    then have "x \<in> set (pg_waiting g) - set (c # cs)" using that w by (auto simp: gate_enter_def)
    then have "\<not> may_enter limit x g" using Cons.prems(4) by blast
    moreover have "pg_active g \<le> pg_active ?g" "pg_others g \<le> pg_others ?g" using True by (simp_all add: gate_enter_def)
    ultimately show ?thesis using may_enter_mono by blast
  next
    case False
    then have g: "?g = g" by (simp add: gate_enter_def)
    then show ?thesis using that Cons.prems(4) False by (cases "x = c") auto
  qed
  ultimately show ?case using Cons.IH [of ?g] Cons.prems(3) by simp
qed

lemma release_ok:
  assumes "counted_gate limit g" "none_left limit g"
  shows "counted_gate limit (gate_release limit now c g) \<and> none_left limit (gate_release limit now c g)"
proof (cases "c \<in> set (pg_holding g)")
  case True
  let ?g = "g\<lparr>pg_holding := remove1 c (pg_holding g), pg_active := pg_active g - 1, pg_others := (if cl_callback c then pg_others g else pg_others g - 1)\<rparr>"
  have "length (filter (\<lambda>c. \<not> cl_callback c) (remove1 c (pg_holding g))) = (if cl_callback c then length (other_holders g) else length (other_holders g) - 1)"
    using True by (simp add: other_holders_def filter_remove1 length_remove1)
  moreover have "distinct (map cl_id (pg_waiting g @ remove1 c (pg_holding g)))" "cl_id ` set (pg_waiting g @ remove1 c (pg_holding g)) \<subseteq> set (pg_known g)"
    using assms(1) set_remove1_subset [of c "pg_holding g"] unfolding counted_gate_def
    by (auto simp: distinct_map intro: inj_on_subset)
  ultimately have "counted_gate limit ?g" using assms(1) True unfolding counted_gate_def
    by (auto simp: length_remove1 other_holders_def)
  moreover have "distinct (pg_waiting g)" using assms(1) by (simp add: counted_gate_def distinct_map)
  ultimately have "counted_gate limit (fold (gate_enter limit now) (pg_waiting ?g) ?g) \<and> none_left limit (fold (gate_enter limit now) (pg_waiting ?g) ?g)"
    by (intro wake_all) simp_all
  then show ?thesis using True by (simp add: gate_release_def Let_def)
qed (simp add: gate_release_def assms)

lemma none_left_finish: "none_left limit g \<Longrightarrow> none_left limit (gate_finish now False c g)"
  by (auto simp: none_left_def may_enter_def dest: notin_set_remove1)

lemma gate_do_ok: "counted_gate limit g \<Longrightarrow> none_left limit g \<Longrightarrow> counted_gate limit (gate_do limit st g) \<and> none_left limit (gate_do limit st g)"
proof (induction limit st g rule: gate_do.induct)
  case (1 limit now c aborted g)
  show ?case
  proof (cases "cl_id c \<in> set (pg_known g)")
    case False
    let ?g = "g\<lparr>pg_known := cl_id c # pg_known g\<rparr>"
    have g: "counted_gate limit ?g" "none_left limit ?g" using 1 by (auto simp: counted_gate_def none_left_def may_enter_def other_holders_def)
    show ?thesis
    proof (cases aborted)
      case True
      then show ?thesis using False finish_False_counted [OF g(1)] none_left_finish [OF g(2)] by simp
    next
      case no: False
      let ?h = "?g\<lparr>pg_waiting := pg_waiting g @ [c]\<rparr>"
      have "cl_id c \<notin> cl_id ` set (pg_waiting g @ pg_holding g)" using 1(1) False unfolding counted_gate_def by blast
      then have "counted_gate limit ?h" using g(1) by (auto simp: counted_gate_def other_holders_def)
      moreover have "\<forall>x\<in>set (pg_waiting ?h) - set [c]. \<not> may_enter limit x ?h" using 1(2) by (auto simp: none_left_def may_enter_def)
      ultimately have "counted_gate limit (fold (gate_enter limit now) [c] ?h) \<and> none_left limit (fold (gate_enter limit now) [c] ?h)"
        by (intro wake_all) simp_all
      then show ?thesis using False no by simp
    qed
  qed (use 1 in simp)
qed (simp_all add: release_ok finish_False_counted none_left_finish)

lemma gate_run_ok: "counted_gate limit (gate_run limit steps) \<and> none_left limit (gate_run limit steps)"
proof (induction steps rule: rev_induct)
  case Nil
  show ?case by (simp add: gate_run_def new_gate_def counted_gate_def none_left_def other_holders_def)
next
  case (snoc st steps)
  then show ?case using gate_do_ok [of limit "gate_run limit steps" st] by (simp add: gate_run_def)
qed

section \<open>A place is kept for callbacks, and none is left unused\<close>

definition must_wait :: "nat \<Rightarrow> principal_gate \<Rightarrow> gate_caller \<Rightarrow> bool" where
  "must_wait limit g c \<longleftrightarrow> length (pg_holding g) = limit \<or> (\<not> cl_callback c \<and> length (other_holders g) = limit - 1)"

text \<open>C37: whatever requests come, time out, are aborted or end, no more than the limit hold a place and
  one place is kept for callbacks; and a request waits only while it cannot have one: a callback while
  all places are taken, another request while all are or all but the one kept back.\<close>

theorem admission_reserves:
  "length (pg_holding (gate_run limit steps)) \<le> limit \<and> length (other_holders (gate_run limit steps)) \<le> limit - 1
    \<and> list_all (must_wait limit (gate_run limit steps)) (pg_waiting (gate_run limit steps))"
  using gate_run_ok [of limit steps] by (fastforce simp: counted_gate_def none_left_def may_enter_def list_all_iff must_wait_def)

end
