(* ===== verification/Tenancy.thy ===== *)
theory Tenancy
  imports RouteProps Migrations
begin

text \<open>The services that write tenants and credentials: \<open>create-workspace.ts\<close>, \<open>create-principal.ts\<close>,
  \<open>issue-principal-key.ts\<close> and \<open>revoke-principal.ts\<close> of apps/server/auth and \<open>runs/create-run.ts\<close>, with
  the constraints and triggers of migrations 000003, 000004, 000005 and 000028.  The random ids and key
  material are arguments.  The rows keep what the rest of the model reads; names and roles are only
  returned.  The credentials are those of Sessions.\<close>

section \<open>Shared steps\<close>

definition service_end :: "time \<Rightarrow> run_context \<Rightarrow> string \<Rightarrow> string list \<Rightarrow> (failure \<Rightarrow> string \<times> string option) \<Rightarrow> backplane
    \<Rightarrow> failure + ('a \<times> backplane) \<Rightarrow> (string + 'a) \<times> backplane" where
  "service_end now c kind objects classify s r =
     (case r of
        Inr (x, s') \<Rightarrow> (Inr x, s')
      | Inl e \<Rightarrow> (case classify e of (reason, state) \<Rightarrow> (Inl reason, record_rejection now (Some c) kind objects reason state s)))"

text \<open>An error thrown by the membership check keeps its name, every other becomes the general one.\<close>

definition tenancy_error :: "string \<Rightarrow> failure \<Rightarrow> string \<times> string option" where
  "tenancy_error general e = (if e = Thrown ''workspace_forbidden'' then (''workspace_forbidden'', None) else (general, failure_sqlstate e))"

definition with_access :: "string \<Rightarrow> uuid option \<Rightarrow> backplane \<Rightarrow> failure + 'a \<Rightarrow> failure + 'a" where
  "with_access u w s k = (if query_workspace_access (bp_ctl s) u w then k else Inl (Thrown ''workspace_forbidden''))"

definition name_ok :: "string \<Rightarrow> bool" where
  "name_ok n \<longleftrightarrow> trim n \<noteq> [] \<and> code_points (trim n) \<le> 120"

definition has_principal :: "backplane \<Rightarrow> uuid \<Rightarrow> uuid \<Rightarrow> bool" where
  "has_principal s w p = list_ex (\<lambda>x. pr_ws x = w \<and> pr_id x = p) (ct_principals (bp_ctl s))"

definition add_principal :: "principal \<Rightarrow> backplane \<Rightarrow> failure + backplane" where
  "add_principal p s =
     (if has_principal s (pr_ws p) (pr_id p) then Inl (Sql (Unique_violation ''principals_pkey''))
      else Inr (s\<lparr>bp_ctl := (bp_ctl s)\<lparr>ct_principals := ct_principals (bp_ctl s) @ [p]\<rparr>\<rparr>))"

section \<open>Workspaces and Principals\<close>

text \<open>A new Workspace gets the two system Principals, whose ids are those of the installation.\<close>

definition create_workspace_in :: "time \<Rightarrow> uuid \<times> uuid \<Rightarrow> uuid \<Rightarrow> string \<Rightarrow> string \<Rightarrow> bound_context \<Rightarrow> backplane
    \<Rightarrow> failure + ((uuid \<times> string \<times> string) \<times> backplane)" where
  "create_workspace_in now sys i u name b s =
     with_access u None s (
     guardE (\<not> name_ok (trim_white name)) (Sql Check_violation) (
     guardE (map_of (ct_workspaces (bp_ctl s)) i \<noteq> None) (Sql (Unique_violation ''workspaces_pkey'')) (
       let s1 = s\<lparr>bp_ctl := (bp_ctl s)\<lparr>ct_workspaces := ct_workspaces (bp_ctl s) @ [(i, ''default'')]\<rparr>\<rparr> in
       ebind (add_principal \<lparr>pr_id = fst sys, pr_ws = i, pr_active = True, pr_system = Some ''retention''\<rparr> s1) (\<lambda>s2.
       ebind (add_principal \<lparr>pr_id = snd sys, pr_ws = i, pr_active = True, pr_system = Some ''operations''\<rparr> s2) (\<lambda>s3.
         Inr ((i, ''default'', trim_white name), snd (emit now b ''workspace.created'' [uuid_text i] (Some 1) [] s3)))))))"

definition create_workspace :: "time \<Rightarrow> uuid \<times> uuid \<Rightarrow> uuid \<Rightarrow> string \<Rightarrow> string \<Rightarrow> backplane \<Rightarrow> (string + (uuid \<times> string \<times> string)) \<times> backplane" where
  "create_workspace now sys i u name s =
     service_end now (User_context i u) ''workspace.created'' [] (tenancy_error ''workspace_creation_failed'') s
       (with_run_context now (User_context i u) (create_workspace_in now sys i u name) s)"

text \<open>\<open>encode(uuid_send(id), 'base64')\<close> with the characters of the URL alphabet and without padding: 21
  digits of 6 bits and the last 2 bits.  The role of a Principal exists as long as its row.\<close>

definition base64_url :: "nat \<Rightarrow> char" where
  "base64_url n = (''ABCDEFGHIJKLMNOPQRSTUVWXYZ'' @ ''abcdefghijklmnopqrstuvwxyz'' @ ''0123456789-_'') ! n"

definition uuid_base64 :: "uuid \<Rightarrow> string" where
  "uuid_base64 i = map (\<lambda>k. base64_url (i * 16 div 64 ^ (21 - k) mod 64)) [0..<22]"

definition create_principal_role :: "uuid \<Rightarrow> uuid \<Rightarrow> backplane \<Rightarrow> failure + string" where
  "create_principal_role w i s =
     guardE (has_principal s w i) (Thrown ''duplicate_object'') (Inr (''bp_p_'' @ uuid_base64 w @ ''_'' @ uuid_base64 i))"

definition create_principal_in :: "time \<Rightarrow> uuid \<Rightarrow> string \<Rightarrow> uuid \<Rightarrow> string \<Rightarrow> bound_context \<Rightarrow> backplane
    \<Rightarrow> failure + ((uuid \<times> uuid \<times> string \<times> string) \<times> backplane)" where
  "create_principal_in now i u w name b s =
     with_access u (Some w) s (
       ebind (create_principal_role w i s) (\<lambda>role.
       guardE (\<not> name_ok (trim_white name)) (Sql Check_violation) (
       ebind (add_principal \<lparr>pr_id = i, pr_ws = w, pr_active = True, pr_system = None\<rparr> s) (\<lambda>s1.
         Inr ((i, w, trim_white name, role), snd (emit now b ''principal.created'' [uuid_text i] (Some 1) [] s1))))))"

definition create_principal :: "time \<Rightarrow> uuid \<Rightarrow> string \<Rightarrow> uuid \<Rightarrow> string \<Rightarrow> backplane \<Rightarrow> (string + (uuid \<times> uuid \<times> string \<times> string)) \<times> backplane" where
  "create_principal now i u w name s =
     service_end now (User_context w u) ''principal.created'' [] (tenancy_error ''principal_creation_failed'') s
       (with_run_context now (User_context w u) (create_principal_in now i u w name) s)"

section \<open>Keys\<close>

definition find_principal :: "backplane \<Rightarrow> uuid \<Rightarrow> uuid \<Rightarrow> principal option" where
  "find_principal s w p = find (\<lambda>x. pr_ws x = w \<and> pr_id x = p) (ct_principals (bp_ctl s))"

text \<open>The credential an issue returns; the key is the only place the secret appears in.\<close>

record issued_key =
  ik_key :: string
  ik_prefix :: string
  ik_created :: time
  ik_rotated :: "time option"

definition key_text :: "string \<Rightarrow> string \<Rightarrow> string" where
  "key_text prefix secret = ''bp_'' @ prefix @ ''_'' @ secret"

text \<open>The upsert of the one key of a Principal, with the trigger on system Principals and the unique prefix.\<close>

definition store_key :: "time \<Rightarrow> uuid \<Rightarrow> principal \<Rightarrow> string \<Rightarrow> string \<Rightarrow> backplane \<Rightarrow> failure + (principal_key \<times> backplane)" where
  "store_key now w p prefix hash s =
     guardE (pr_system p \<noteq> None) (Thrown ''system_principal_credential_forbidden'') (
     guardE (list_ex (\<lambda>k. ky_prefix k = prefix \<and> \<not> (ky_ws k = w \<and> ky_principal k = pr_id p)) (bp_keys s)) (Sql (Unique_violation ''principal_keys_prefix_key'')) (
       case find (\<lambda>k. ky_ws k = w \<and> ky_principal k = pr_id p) (bp_keys s) of
         None \<Rightarrow>
           let k = \<lparr>ky_prefix = prefix, ky_ws = w, ky_principal = pr_id p, ky_hash = hash, ky_created = now, ky_rotated = None,
             ky_used = None, ky_revoked = None\<rparr> in
           Inr (k, s\<lparr>bp_keys := bp_keys s @ [k]\<rparr>)
       | Some old \<Rightarrow>
           let k = old\<lparr>ky_prefix := prefix, ky_hash := hash, ky_rotated := Some now, ky_used := None\<rparr> in
           Inr (k, s\<lparr>bp_keys := map (\<lambda>x. if ky_ws x = w \<and> ky_principal x = pr_id p then k else x) (bp_keys s)\<rparr>)))"

definition issue_key_in :: "(string \<Rightarrow> string) \<Rightarrow> time \<Rightarrow> string \<times> string \<Rightarrow> string \<Rightarrow> uuid \<Rightarrow> uuid \<Rightarrow> bound_context \<Rightarrow> backplane
    \<Rightarrow> failure + (issued_key \<times> backplane)" where
  "issue_key_in digest now material u w p b s =
     with_access u (Some w) s (
       case find_principal s w p of
         None \<Rightarrow> Inl (Thrown ''principal_not_found'')
       | Some x \<Rightarrow>
           guardE (\<not> pr_active x) (Thrown ''principal_revoked'') (
           ebind (store_key now w x (fst material) (hash_principal_secret digest (snd material)) s) (\<lambda>(k, s1).
             Inr (\<lparr>ik_key = key_text (fst material) (snd material), ik_prefix = fst material, ik_created = ky_created k, ik_rotated = ky_rotated k\<rparr>,
               snd (emit now b (if ky_rotated k = None then ''principal.key_issued'' else ''principal.key_rotated'') [uuid_text p] (Some 1)
                 [(''prefix'', JStr (fst material))] s1)))))"

definition issue_error :: "failure \<Rightarrow> string \<times> string option" where
  "issue_error e =
     (if e \<in> {Thrown ''workspace_forbidden'', Thrown ''principal_not_found'', Thrown ''principal_revoked''} then failure_message e
      else if e = Thrown ''system_principal_credential_forbidden'' then ''principal_not_found'' else ''principal_key_issue_failed'', None)"

definition issue_principal_key :: "(string \<Rightarrow> string) \<Rightarrow> time \<Rightarrow> string \<times> string \<Rightarrow> string \<Rightarrow> uuid \<Rightarrow> uuid \<Rightarrow> backplane
    \<Rightarrow> (string + issued_key) \<times> backplane" where
  "issue_principal_key digest now material u w p s =
     service_end now (User_context w u) ''principal.key_issued'' [uuid_text p] issue_error s
       (with_run_context now (User_context w u) (issue_key_in digest now material u w p) s)"

section \<open>Revocation\<close>

definition deactivate :: "time \<Rightarrow> uuid \<Rightarrow> uuid \<Rightarrow> backplane \<Rightarrow> backplane" where
  "deactivate now w p s =
     s\<lparr>bp_ctl := (bp_ctl s)\<lparr>ct_principals := map (\<lambda>x. if pr_ws x = w \<and> pr_id x = p then x\<lparr>pr_active := False\<rparr> else x) (ct_principals (bp_ctl s))\<rparr>,
       bp_keys := map (\<lambda>k. if ky_ws k = w \<and> ky_principal k = p then k\<lparr>ky_revoked := Some now\<rparr> else k) (bp_keys s)\<rparr>"

definition revoke_in :: "time \<Rightarrow> string \<Rightarrow> uuid \<Rightarrow> uuid \<Rightarrow> bound_context \<Rightarrow> backplane \<Rightarrow> failure + (nat \<times> backplane)" where
  "revoke_in now u w p b s =
     with_access u (Some w) s (
       case find (\<lambda>x. pr_ws x = w \<and> pr_id x = p \<and> pr_system x = None) (ct_principals (bp_ctl s)) of
         None \<Rightarrow> Inl (Thrown ''principal_not_found'')
       | Some x \<Rightarrow>
           if \<not> pr_active x then Inr (0, s)
           else pause_effects_in now b w p (snd (emit now b ''principal.revoked'' [uuid_text p] (Some 1) [] (deactivate now w p s))))"

definition revoke_error :: "failure \<Rightarrow> string \<times> string option" where
  "revoke_error e =
     (if e \<in> {Thrown ''workspace_forbidden'', Thrown ''principal_not_found''} then failure_message e else ''principal_revocation_failed'', None)"

definition revoke_principal :: "time \<Rightarrow> string \<Rightarrow> uuid \<Rightarrow> uuid \<Rightarrow> backplane \<Rightarrow> (string + nat) \<times> backplane" where
  "revoke_principal now u w p s =
     service_end now (User_context w u) ''principal.revoked'' [uuid_text p] revoke_error s
       (with_run_context now (User_context w u) (revoke_in now u w p) s)"

section \<open>Runs\<close>

text \<open>\<open>withRunContext\<close> with \<open>newRun\<close>: the Run is inserted under the Workspace lock, then the context is
  bound to it.  A failure is not recorded.\<close>

definition create_run :: "time \<Rightarrow> uuid \<Rightarrow> principal_identity \<Rightarrow> backplane \<Rightarrow> (string + uuid) \<times> backplane" where
  "create_run now r who s =
     (let (w, p, h) = who; s1 = lock_workspace w s;
          done = (if map_of (ct_runs (bp_ctl s)) r \<noteq> None then Inl (Sql (Unique_violation ''runs_pkey''))
            else if find_principal s w p = None then Inl (Thrown ''foreign_key'')
            else with_run_context now (Principal_context w p r h) (\<lambda>b s2.
                Inr (r, snd (emit now b ''runs.created'' [uuid_text r] (Some 1) [] s2)))
              (s1\<lparr>bp_ctl := (bp_ctl s1)\<lparr>ct_runs := ct_runs (bp_ctl s1) @ [(r, w, p)]\<rparr>\<rparr>)) in
      case done of
        Inr (x, s') \<Rightarrow> (Inr x, s')
      | Inl e \<Rightarrow> (Inl (if failure_message e \<in> {''principal_revoked'', ''run_forbidden''} then failure_message e else ''run_creation_failed''), s))"

section \<open>A revoked Principal\<close>

text \<open>The Principal exists and no row of it is active.\<close>

definition dead :: "uuid \<Rightarrow> uuid \<Rightarrow> backplane \<Rightarrow> bool" where
  "dead w p s \<longleftrightarrow> has_principal s w p \<and> list_all (\<lambda>x. pr_ws x = w \<and> pr_id x = p \<longrightarrow> \<not> pr_active x) (ct_principals (bp_ctl s))"

text \<open>What may happen after a revocation: any service of this theory, and any other change that leaves the
  table of Principals alone; no other code of the repository writes it.\<close>

inductive tenancy_run :: "backplane \<Rightarrow> backplane \<Rightarrow> bool" for s where
  refl: "tenancy_run s s"
| workspace: "tenancy_run s s1 \<Longrightarrow> tenancy_run s (snd (create_workspace now sys i u name s1))"
| principal: "tenancy_run s s1 \<Longrightarrow> tenancy_run s (snd (create_principal now i u w name s1))"
| key: "tenancy_run s s1 \<Longrightarrow> tenancy_run s (snd (issue_principal_key digest now material u w p s1))"
| revoke: "tenancy_run s s1 \<Longrightarrow> tenancy_run s (snd (revoke_principal now u w p s1))"
| "run": "tenancy_run s s1 \<Longrightarrow> tenancy_run s (snd (create_run now r who s1))"
| elsewhere: "tenancy_run s s1 \<Longrightarrow> ct_principals (bp_ctl s2) = ct_principals (bp_ctl s1) \<Longrightarrow> tenancy_run s s2"

lemma emit_ctl [simp]: "bp_ctl (snd (emit now b k os r m s)) = bp_ctl s"
  by (simp add: emit_def Let_def)

lemma emit_all_ctl [simp]: "bp_ctl (emit_delivery_events now b es s) = bp_ctl s"
  by (induction es arbitrary: s) auto

lemma rejection_ctl [simp]: "bp_ctl (record_rejection now c k os r st s) = bp_ctl s"
  by (simp add: record_rejection_def)

lemma pause_ctl: "pause_effects_in now b w p s = Inr (n, s') \<Longrightarrow> bp_ctl s' = bp_ctl s"
  by (auto simp: pause_effects_in_def call_queue_def ebind_Inr_iff split: sum.splits prod.splits)

lemma dead_on:
  assumes "dead w p s" "ct_principals (bp_ctl s') = ct_principals (bp_ctl s)"
  shows "dead w p s'"
  using assms(1) unfolding dead_def has_principal_def assms(2) .

lemma with_access_Inr: "with_access u w s k = Inr x \<longleftrightarrow> query_workspace_access (bp_ctl s) u w \<and> k = Inr x"
  by (simp add: with_access_def)

lemma run_contextE:
  assumes "with_run_context now c work s = Inr (x, s')"
  obtains b s1 where "work b s1 = Inr (x, s')" "bp_ctl s1 = bp_ctl s" "bound_by c b"
proof (cases "bind_context now c s")
  case (Inl e)
  then show ?thesis using assms by (simp add: with_run_context_def)
next
  case (Inr y)
  obtain b s1 where "y = (b, s1)" by fastforce
  then show ?thesis using assms Inr bind_contextD [of now c s b s1]
    by (intro that [of b "touch_run now (ctx_run c) s1"]) (simp_all add: with_run_context_def)
qed

text \<open>A service changes the Principals only when it succeeds.\<close>

lemma service_end_keeps:
  assumes "\<And>x s'. r = Inr (x, s') \<Longrightarrow> dead w p s'" "dead w p s"
  shows "dead w p (snd (service_end now c kind objects classify s r))"
proof (cases r)
  case (Inl e)
  obtain a st where "classify e = (a, st)" by fastforce
  then have "snd (service_end now c kind objects classify s r) = record_rejection now (Some c) kind objects a st s"
    using Inl by (simp add: service_end_def)
  then show ?thesis using dead_on [OF assms(2)] by simp
next
  case (Inr y)
  then show ?thesis using assms(1) by (cases y) (simp add: service_end_def)
qed

lemma add_principal_dead:
  assumes "add_principal x s = Inr s'" "dead w p s"
  shows "dead w p s'"
proof -
  have "\<not> has_principal s (pr_ws x) (pr_id x)" "ct_principals (bp_ctl s') = ct_principals (bp_ctl s) @ [x]"
    using assms(1) by (auto simp: add_principal_def split: if_splits)
  moreover have "has_principal s w p" using assms(2) by (simp add: dead_def)
  ultimately show ?thesis using assms(2) by (auto simp: dead_def has_principal_def)
qed

lemma create_workspace_dead:
  assumes "dead w p s"
  shows "dead w p (snd (create_workspace now sys i u name s))"
  unfolding create_workspace_def
proof (rule service_end_keeps [OF _ assms])
  fix x s' assume "with_run_context now (User_context i u) (create_workspace_in now sys i u name) s = Inr (x, s')"
  then obtain b s1 where s1: "create_workspace_in now sys i u name b s1 = Inr (x, s')" "bp_ctl s1 = bp_ctl s"
    by (rule run_contextE)
  let ?s = "s1\<lparr>bp_ctl := (bp_ctl s1)\<lparr>ct_workspaces := ct_workspaces (bp_ctl s1) @ [(i, ''default'')]\<rparr>\<rparr>"
  have "dead w p ?s" by (rule dead_on [OF assms]) (simp add: s1(2))
  moreover obtain a a2 s2 s3 where "add_principal a ?s = Inr s2" "add_principal a2 s2 = Inr s3" "bp_ctl s' = bp_ctl s3"
    using s1(1) by (auto simp: create_workspace_in_def with_access_Inr ebind_Inr_iff Let_def split: if_splits)
  ultimately show "dead w p s'" using dead_on [of w p s3 s'] add_principal_dead [of a ?s s2 w p] add_principal_dead [of a2 s2 s3 w p]
    by simp
qed

lemma create_principal_dead:
  assumes "dead w p s"
  shows "dead w p (snd (create_principal now i u v name s))"
  unfolding create_principal_def
proof (rule service_end_keeps [OF _ assms])
  fix x s' assume "with_run_context now (User_context v u) (create_principal_in now i u v name) s = Inr (x, s')"
  then obtain b s1 where s1: "create_principal_in now i u v name b s1 = Inr (x, s')" "bp_ctl s1 = bp_ctl s"
    by (rule run_contextE)
  obtain a s2 where "add_principal a s1 = Inr s2" "bp_ctl s' = bp_ctl s2"
    using s1(1) by (auto simp: create_principal_in_def with_access_Inr ebind_Inr_iff split: if_splits)
  then show "dead w p s'"
    using dead_on [OF assms, of s1] s1(2) add_principal_dead [of a s1 s2 w p] dead_on [of w p s2 s'] by simp
qed

lemma store_key_ctl: "store_key now w p prefix hash s = Inr (k, s') \<Longrightarrow> bp_ctl s' = bp_ctl s"
  by (auto simp: store_key_def Let_def split: if_splits option.splits)

lemma issue_key_dead:
  assumes "dead w p s"
  shows "dead w p (snd (issue_principal_key digest now material u v q s))"
  unfolding issue_principal_key_def
proof (rule service_end_keeps [OF _ assms])
  fix x s' assume "with_run_context now (User_context v u) (issue_key_in digest now material u v q) s = Inr (x, s')"
  then obtain b s1 where s1: "issue_key_in digest now material u v q b s1 = Inr (x, s')" "bp_ctl s1 = bp_ctl s"
    by (rule run_contextE)
  then have "bp_ctl s' = bp_ctl s1"
    by (auto simp: issue_key_in_def with_access_Inr ebind_Inr_iff split: if_splits option.splits prod.splits dest: store_key_ctl)
  then show "dead w p s'" using s1(2) by (intro dead_on [OF assms]) simp
qed

lemma has_deactivated [simp]: "has_principal (deactivate now v q s) w p = has_principal s w p"
proof -
  have "list_ex (\<lambda>x. pr_ws x = w \<and> pr_id x = p) (map (\<lambda>x. if pr_ws x = v \<and> pr_id x = q then x\<lparr>pr_active := False\<rparr> else x) xs)
      = list_ex (\<lambda>x. pr_ws x = w \<and> pr_id x = p) xs" for xs
    by (induction xs) auto
  then show ?thesis by (simp add: has_principal_def deactivate_def)
qed

lemma deactivated_rows:
  "ct_principals (bp_ctl (deactivate now v q s))
   = map (\<lambda>x. if pr_ws x = v \<and> pr_id x = q then x\<lparr>pr_active := False\<rparr> else x) (ct_principals (bp_ctl s))"
  by (simp add: deactivate_def)

lemma deactivate_dead: "has_principal s w p \<Longrightarrow> dead w p (deactivate now w p s)"
  unfolding dead_def deactivated_rows list.pred_map has_deactivated
  by (rule conjI, assumption) (auto simp: list_all_iff)

lemma deactivate_keeps: "dead w p s \<Longrightarrow> dead w p (deactivate now v q s)"
  unfolding dead_def deactivated_rows list.pred_map has_deactivated
  by (auto elim!: list.pred_mono_strong)

text \<open>The primary key of the table.\<close>

definition one_row_each :: "backplane \<Rightarrow> bool" where
  "one_row_each s \<longleftrightarrow> distinct (map (\<lambda>x. (pr_ws x, pr_id x)) (ct_principals (bp_ctl s)))"

lemma revoke_in_cases:
  assumes "revoke_in now u v q b s = Inr (n, s')"
  obtains x where "x \<in> set (ct_principals (bp_ctl s))" "pr_ws x = v" "pr_id x = q"
    "(\<not> pr_active x \<and> s' = s) \<or> bp_ctl s' = bp_ctl (deactivate now v q s)"
proof -
  obtain x where x: "find (\<lambda>x. pr_ws x = v \<and> pr_id x = q \<and> pr_system x = None) (ct_principals (bp_ctl s)) = Some x"
    "if \<not> pr_active x then (n, s') = (0, s) else
       pause_effects_in now b v q (snd (emit now b ''principal.revoked'' [uuid_text q] (Some 1) [] (deactivate now v q s))) = Inr (n, s')"
    using assms by (auto simp: revoke_in_def with_access_Inr split: option.splits if_splits)
  show ?thesis using find_member [OF x(1)] x(2) by (intro that [of x]) (auto dest: pause_ctl split: if_splits)
qed

lemma revoke_dead:
  assumes "dead w p s"
  shows "dead w p (snd (revoke_principal now u v q s))"
  unfolding revoke_principal_def
proof (rule service_end_keeps [OF _ assms])
  fix n s' assume "with_run_context now (User_context v u) (revoke_in now u v q) s = Inr (n, s')"
  then obtain b s1 where s1: "revoke_in now u v q b s1 = Inr (n, s')" "bp_ctl s1 = bp_ctl s" by (rule run_contextE)
  have d: "dead w p s1" by (rule dead_on [OF assms]) (simp add: s1(2))
  show "dead w p s'"
    by (rule revoke_in_cases [OF s1(1)]) (use d dead_on [OF deactivate_keeps [OF d, of now v q], of s'] in auto)
qed

lemma unique_inactive:
  assumes "one_row_each s" "x \<in> set (ct_principals (bp_ctl s))" "pr_ws x = w" "pr_id x = p" "\<not> pr_active x"
  shows "dead w p s"
proof -
  have "y = x" if "y \<in> set (ct_principals (bp_ctl s))" "pr_ws y = w" "pr_id y = p" for y
    using assms(1-4) that by (metis (mono_tags, lifting) distinct_map inj_onD one_row_each_def)
  then have "list_all (\<lambda>y. pr_ws y = w \<and> pr_id y = p \<longrightarrow> \<not> pr_active y) (ct_principals (bp_ctl s))"
    using assms(5) by (auto simp: list_all_iff)
  moreover have "has_principal s w p" using assms(2-4) by (auto simp: has_principal_def list_ex_iff)
  ultimately show ?thesis by (simp add: dead_def)
qed

lemma revoked_dead:
  assumes "one_row_each s" "revoke_principal now u w p s = (Inr n, s')"
  shows "dead w p s'"
proof -
  have "with_run_context now (User_context w u) (revoke_in now u w p) s = Inr (n, s')"
    using assms(2) by (auto simp: revoke_principal_def service_end_def split: sum.splits prod.splits)
  then obtain b s1 where s1: "revoke_in now u w p b s1 = Inr (n, s')" "bp_ctl s1 = bp_ctl s" by (rule run_contextE)
  obtain x where x: "x \<in> set (ct_principals (bp_ctl s1))" "pr_ws x = w" "pr_id x = p"
    "(\<not> pr_active x \<and> s' = s1) \<or> bp_ctl s' = bp_ctl (deactivate now w p s1)"
    by (rule revoke_in_cases [OF s1(1)])
  from x(4) show ?thesis
  proof
    assume "\<not> pr_active x \<and> s' = s1"
    then show ?thesis using unique_inactive [of s1 x w p] x assms(1) s1(2) by (simp add: one_row_each_def)
  next
    assume e: "bp_ctl s' = bp_ctl (deactivate now w p s1)"
    have "has_principal s1 w p" using x by (auto simp: has_principal_def list_ex_iff)
    then show ?thesis using e by (intro dead_on [OF deactivate_dead [of s1 w p now], of s']) simp_all
  qed
qed

lemma create_run_dead:
  assumes "dead w p s"
  shows "dead w p (snd (create_run now r who s))"
proof (cases "create_run now r who s")
  case (Pair x s')
  obtain v q h where who: "who = (v, q, h)" using prod_cases3 by blast
  let ?s = "(lock_workspace v s)\<lparr>bp_ctl := (bp_ctl (lock_workspace v s))\<lparr>ct_runs := ct_runs (bp_ctl (lock_workspace v s)) @ [(r, v, q)]\<rparr>\<rparr>"
  have "ct_principals (bp_ctl s') = ct_principals (bp_ctl s)"
  proof (cases x)
    case (Inl e)
    then show ?thesis using Pair by (auto simp: create_run_def who Let_def split: sum.splits prod.splits)
  next
    case (Inr y)
    then have "with_run_context now (Principal_context v q r h)
        (\<lambda>b s2. Inr (r, snd (emit now b ''runs.created'' [uuid_text r] (Some 1) [] s2))) ?s = Inr (y, s')"
      using Pair by (auto simp: create_run_def who Let_def split: sum.splits prod.splits if_splits)
    then show ?thesis by (rule run_contextE) auto
  qed
  then show ?thesis using dead_on [OF assms] Pair by simp
qed

lemma run_dead: "tenancy_run s s' \<Longrightarrow> dead w p s \<Longrightarrow> dead w p s'"
  by (induction rule: tenancy_run.induct)
    (auto simp: create_workspace_dead create_principal_dead issue_key_dead revoke_dead create_run_dead intro: dead_on)

lemma dead_not_active: "dead w p s \<Longrightarrow> \<not> list_ex (\<lambda>x. pr_ws x = w \<and> pr_id x = p \<and> pr_active x) (ct_principals (bp_ctl s))"
  by (auto simp: dead_def list_all_iff list_ex_iff)

text \<open>C35: once a User has revoked a Principal, then whatever Workspaces, Principals, keys and Runs are created
  after it and whatever else happens in the system, no request resolves to that Principal, with a key or with
  an invocation credential, and no transaction is bound to it.\<close>

theorem revoked_stays_out:
  assumes "one_row_each s" "revoke_principal now u w p s = (Inr n, s1)" "tenancy_run s1 s2"
  shows "fst (resolve_principal digest later rq s2) \<noteq> Inr (w, p, h)
    \<and> bind_context later (Principal_context w p r h) s2 \<noteq> Inr b"
proof -
  have out: "\<not> list_ex (\<lambda>x. pr_ws x = w \<and> pr_id x = p \<and> pr_active x) (ct_principals (bp_ctl s2))"
    using dead_not_active run_dead [OF assms(3) revoked_dead [OF assms(1,2)]] by blast
  then have "fst (resolve_principal digest later rq s2) \<noteq> Inr (w, p, h)"
    using principal_proves [of digest later rq s2 w p h] by (auto simp: proves_identity_def)
  moreover have "bind_context later (Principal_context w p r h) s2 \<noteq> Inr b"
    using out by (auto simp: bind_context_def Let_def ebind_def split: sum.splits)
  ultimately show ?thesis by blast
qed

lemma demo_revoked: "fst (revoke_principal 8 ''ann'' 1 10 demo_keyed) = Inr 0"
  by code_simp

lemma demo_one_row: "one_row_each demo_keyed"
  by code_simp

theorem revoked_stays_out_witness:
  "fst (resolve_principal (cr_digest (he_crypto demo_env)) 7 demo_create demo_keyed) = Inr (1, 10, None)
   \<and> fst (resolve_principal (cr_digest (he_crypto demo_env)) 9 demo_create (snd (revoke_principal 8 ''ann'' 1 10 demo_keyed))) \<noteq> Inr (1, 10, None)"
proof -
  have "revoke_principal 8 ''ann'' 1 10 demo_keyed = (Inr 0, snd (revoke_principal 8 ''ann'' 1 10 demo_keyed))"
    using demo_revoked by (metis prod.collapse)
  from revoked_stays_out [OF demo_one_row this tenancy_run.refl]
  have "fst (resolve_principal (cr_digest (he_crypto demo_env)) 9 demo_create (snd (revoke_principal 8 ''ann'' 1 10 demo_keyed))) \<noteq> Inr (1, 10, None)"
    by blast
  moreover have "fst (resolve_principal (cr_digest (he_crypto demo_env)) 7 demo_create demo_keyed) = Inr (1, 10, None)"
    by code_simp
  ultimately show ?thesis by blast
qed

section \<open>An issued key\<close>

text \<open>A revoked key belongs to a Principal that stays revoked; every service keeps this.\<close>

definition keys_follow :: "backplane \<Rightarrow> bool" where
  "keys_follow s \<longleftrightarrow> (\<forall>k\<in>set (bp_keys s). ky_revoked k \<noteq> None \<longrightarrow> dead (ky_ws k) (ky_principal k) s)"

lemma stored_rows:
  assumes "store_key now w x prefix hash s = Inr (k, s')"
  shows "ky_prefix k = prefix" "ky_hash k = hash" "ky_ws k = w" "ky_principal k = pr_id x" "k \<in> set (bp_keys s')"
    "\<forall>y\<in>set (bp_keys s'). y = k \<or> (y \<in> set (bp_keys s) \<and> ky_prefix y \<noteq> prefix \<and> \<not> (ky_ws y = w \<and> ky_principal y = pr_id x))"
    "ky_revoked k \<noteq> None \<longrightarrow> (\<exists>old\<in>set (bp_keys s). ky_ws old = w \<and> ky_principal old = pr_id x \<and> ky_revoked old \<noteq> None)"
proof -
  let ?mine = "\<lambda>k. ky_ws k = w \<and> ky_principal k = pr_id x"
  have other: "ky_prefix y \<noteq> prefix" if "y \<in> set (bp_keys s)" "\<not> ?mine y" for y
    using assms that by (auto simp: store_key_def list_ex_iff)
  have "ky_prefix k = prefix \<and> ky_hash k = hash \<and> ?mine k \<and> k \<in> set (bp_keys s')
    \<and> (\<forall>y\<in>set (bp_keys s'). y = k \<or> (y \<in> set (bp_keys s) \<and> \<not> ?mine y))
    \<and> (ky_revoked k \<noteq> None \<longrightarrow> (\<exists>old\<in>set (bp_keys s). ?mine old \<and> ky_revoked old \<noteq> None))"
  proof (cases "find ?mine (bp_keys s)")
    case None
    then have "\<forall>y\<in>set (bp_keys s). \<not> ?mine y" by (simp add: find_None_iff)
    then show ?thesis using assms None by (auto simp: store_key_def Let_def)
  next
    case (Some old)
    then have o: "old \<in> set (bp_keys s)" "?mine old" using find_member by fast+
    have k: "k = old\<lparr>ky_prefix := prefix, ky_hash := hash, ky_rotated := Some now, ky_used := None\<rparr>"
      "bp_keys s' = map (\<lambda>y. if ?mine y then k else y) (bp_keys s)"
      using assms Some by (auto simp: store_key_def Let_def)
    have "k \<in> set (bp_keys s')" unfolding k(2) set_map by (rule image_eqI [OF _ o(1)]) (use o(2) in simp)
    moreover have "\<forall>y\<in>set (bp_keys s'). y = k \<or> (y \<in> set (bp_keys s) \<and> \<not> ?mine y)"
      unfolding k(2) by auto
    moreover have "ky_revoked k = ky_revoked old" "ky_prefix k = prefix" "ky_hash k = hash" "?mine k"
      using k(1) o(2) by simp_all
    ultimately show ?thesis using o by metis
  qed
  then show "ky_prefix k = prefix" "ky_hash k = hash" "ky_ws k = w" "ky_principal k = pr_id x" "k \<in> set (bp_keys s')"
    "\<forall>y\<in>set (bp_keys s'). y = k \<or> (y \<in> set (bp_keys s) \<and> ky_prefix y \<noteq> prefix \<and> \<not> (ky_ws y = w \<and> ky_principal y = pr_id x))"
    "ky_revoked k \<noteq> None \<longrightarrow> (\<exists>old\<in>set (bp_keys s). ky_ws old = w \<and> ky_principal old = pr_id x \<and> ky_revoked old \<noteq> None)"
    using other by blast+
qed

lemma issue_inE:
  assumes "issue_key_in digest now material u w p b s = Inr (c, s')"
  obtains x k s1 where "find_principal s w p = Some x" "pr_active x"
    "store_key now w x (fst material) (hash_principal_secret digest (snd material)) s = Inr (k, s1)"
    "ik_key c = key_text (fst material) (snd material)" "bp_ctl s' = bp_ctl s1" "bp_keys s' = bp_keys s1"
proof -
  obtain x k s1 where "find_principal s w p = Some x" "pr_active x"
    "store_key now w x (fst material) (hash_principal_secret digest (snd material)) s = Inr (k, s1)"
    "Inr (c, s') = (Inr (\<lparr>ik_key = key_text (fst material) (snd material), ik_prefix = fst material, ik_created = ky_created k, ik_rotated = ky_rotated k\<rparr>,
       snd (emit now b (if ky_rotated k = None then ''principal.key_issued'' else ''principal.key_rotated'') [uuid_text p] (Some 1)
         [(''prefix'', JStr (fst material))] s1)) :: failure + issued_key \<times> backplane)"
    using assms by (auto simp: issue_key_in_def with_access_Inr ebind_Inr_iff split: option.splits prod.splits)
  then show ?thesis by (intro that [of x k s1]) (auto simp: emit_def Let_def)
qed

lemma live_not_dead: "find_principal s w p = Some x \<Longrightarrow> pr_active x \<Longrightarrow> \<not> dead w p s"
  by (auto simp: find_principal_def dead_def list_all_iff dest!: find_member)

lemma issue_step:
  assumes "issue_key_in digest now material u w p b s = Inr (c, s')" "keys_follow s"
  obtains k x where "find_principal s' w p = Some x" "pr_active x" "ky_prefix k = fst material"
    "ky_hash k = hash_principal_secret digest (snd material)" "ky_ws k = w" "ky_principal k = p" "ky_revoked k = None"
    "k \<in> set (bp_keys s')" "ik_key c = key_text (fst material) (snd material)" "bp_ctl s' = bp_ctl s"
    "\<forall>y\<in>set (bp_keys s'). y = k \<or> (y \<in> set (bp_keys s) \<and> ky_prefix y \<noteq> fst material \<and> \<not> (ky_ws y = w \<and> ky_principal y = p))"
proof -
  obtain x k s1 where i: "find_principal s w p = Some x" "pr_active x"
    "store_key now w x (fst material) (hash_principal_secret digest (snd material)) s = Inr (k, s1)"
    "ik_key c = key_text (fst material) (snd material)" "bp_ctl s' = bp_ctl s1" "bp_keys s' = bp_keys s1"
    by (rule issue_inE [OF assms(1)])
  have x: "pr_id x = p" using i(1) by (auto simp: find_principal_def dest!: find_member)
  note st = stored_rows [OF i(3), unfolded x]
  have "ky_revoked k = None"
  proof (rule ccontr)
    assume "ky_revoked k \<noteq> None"
    then have "dead w p s" using st(7) assms(2) by (auto simp: keys_follow_def)
    then show False using live_not_dead [OF i(1,2)] by simp
  qed
  moreover have "find_principal s' w p = Some x" using i(1,5) store_key_ctl [OF i(3)] by (simp add: find_principal_def)
  ultimately show ?thesis using st i store_key_ctl [OF i(3)] by (intro that [of x k]) simp_all
qed

lemma issued_parts:
  assumes "issue_principal_key digest now material u w p s = (Inr c, s')" "keys_follow s"
  obtains k x where "find_principal s' w p = Some x" "pr_active x" "ky_prefix k = fst material"
    "ky_hash k = hash_principal_secret digest (snd material)" "ky_ws k = w" "ky_principal k = p" "ky_revoked k = None"
    "k \<in> set (bp_keys s')" "ik_key c = key_text (fst material) (snd material)"
    "\<forall>y\<in>set (bp_keys s'). y = k \<or> (ky_prefix y \<noteq> fst material \<and> \<not> (ky_ws y = w \<and> ky_principal y = p))"
proof -
  have "with_run_context now (User_context w u) (issue_key_in digest now material u w p) s = Inr (c, s')"
    using assms(1) by (auto simp: issue_principal_key_def service_end_def split: sum.splits prod.splits)
  then obtain b s1 where s1: "issue_key_in digest now material u w p b s1 = Inr (c, s')" "bp_ctl s1 = bp_ctl s"
    "bp_keys s1 = bp_keys s"
    by (auto simp: with_run_context_def bind_context_def Let_def touch_run_def lock_workspace_def split: if_splits)
  have "keys_follow s1" using assms(2) s1(2,3) by (simp add: keys_follow_def dead_def has_principal_def)
  show ?thesis by (rule issue_step [OF s1(1) \<open>keys_follow s1\<close>]) (rule that; (assumption | blast))
qed

lemma parse_key_text:
  assumes "length pre = 24" "length sec = 64" "list_all is_hex pre" "list_all is_hex sec"
  shows "parse_principal_key (Some (''Bearer '' @ key_text pre sec)) = Some (pre, sec)"
  using assms by (simp add: parse_principal_key_def key_text_def nth_append nth_Cons')

text \<open>C36: the key an issue returns is the credential of its Principal from then on: a request that carries it as
  its bearer in the Workspace resolves to the Principal, and no other secret does, neither of the key it replaces
  nor of any other.\<close>

theorem issued_key_authenticates:
  assumes "issue_principal_key digest now (pre, sec) u w p s = (Inr c, s')" "keys_follow s"
    and "length pre = 24" "length sec = 64" "list_all is_hex pre" "list_all is_hex sec" "to_lower ws = uuid_text w"
  shows "(header ''authorization'' rq = Some (''Bearer '' @ ik_key c) \<longrightarrow> fst (key_session digest later rq ws s') = Inr (w, p, None))
    \<and> (fst (key_session digest later rq ws s') = Inr (w, p, None) \<longrightarrow>
        (\<exists>other. header ''authorization'' rq \<noteq> None \<and> parse_principal_key (header ''authorization'' rq) = Some (pre, other)
          \<and> digest (unhex other) = digest (unhex sec)))"
proof -
  obtain k x where k: "find_principal s' w p = Some x" "pr_active x" "ky_prefix k = pre"
    "ky_hash k = hash_principal_secret digest sec" "ky_ws k = w" "ky_principal k = p" "ky_revoked k = None"
    "k \<in> set (bp_keys s')" "ik_key c = key_text pre sec"
    "\<forall>y\<in>set (bp_keys s'). y = k \<or> (ky_prefix y \<noteq> pre \<and> \<not> (ky_ws y = w \<and> ky_principal y = p))"
    by (rule issued_parts [OF assms(1,2)]) auto
  have "find (\<lambda>y. ky_prefix y = pre) (bp_keys s') = Some k"
  proof (cases "find (\<lambda>y. ky_prefix y = pre) (bp_keys s')")
    case None
    then show ?thesis using k(3,8) by (auto simp: find_None_iff)
  next
    case (Some y)
    then have "y \<in> set (bp_keys s')" "ky_prefix y = pre" using find_member by fast+
    then show ?thesis using Some k(10) by metis
  qed
  then have row: "query_principal_key s' pre = Some \<lparr>kf_principal = p, kf_ws = w, kf_active = True, kf_revoked = None,
      kf_hash = hash_principal_secret digest sec\<rparr>"
    using k(1,2,4-7) by (simp add: query_principal_key_def find_principal_def)
  have "fst (key_session digest later rq ws s') = Inr (w, p, None)"
    if "header ''authorization'' rq = Some (''Bearer '' @ ik_key c)"
    using that assms(7) parse_key_text [OF assms(3-6)] row k(9)
    by (simp add: key_session_def decide_principal_key_def verify_principal_secret_def)
  moreover have "\<exists>other. header ''authorization'' rq \<noteq> None \<and> parse_principal_key (header ''authorization'' rq) = Some (pre, other)
      \<and> digest (unhex other) = digest (unhex sec)"
    if "fst (key_session digest later rq ws s') = Inr (w, p, None)"
  proof (rule key_session_key [OF that])
    fix prefix secret key
    assume a: "parse_principal_key (header ''authorization'' rq) = Some (prefix, secret)" "key \<in> set (bp_keys s')"
      "ky_prefix key = prefix" "ky_ws key = w" "ky_principal key = p" "ky_hash key = digest (unhex secret)"
    then have "key = k" using k(10) by metis
    then show ?thesis using a k(3,4) by (auto simp: hash_principal_secret_def parse_principal_key_def split: option.splits)
  qed
  ultimately show ?thesis by blast
qed

text \<open>Every service keeps the precondition.\<close>

lemma rejection_keys [simp]: "bp_keys (record_rejection now c k os r st s) = bp_keys s"
  by (simp add: record_rejection_def)

lemma keys_follow_on:
  assumes "keys_follow s" "\<And>w p. dead w p s \<Longrightarrow> dead w p s'"
    "\<And>k. k \<in> set (bp_keys s') \<Longrightarrow> ky_revoked k \<noteq> None \<Longrightarrow> k \<in> set (bp_keys s) \<or> dead (ky_ws k) (ky_principal k) s'"
  shows "keys_follow s'"
  using assms unfolding keys_follow_def by blast

lemma emit_keys [simp]: "bp_keys (snd (emit now b k os r m s)) = bp_keys s"
  by (simp add: emit_def Let_def)

lemma emit_all_keys [simp]: "bp_keys (emit_delivery_events now b es s) = bp_keys s"
  by (induction es arbitrary: s) auto

lemma pause_keys: "pause_effects_in now b w p s = Inr (n, s') \<Longrightarrow> bp_keys s' = bp_keys s"
  by (auto simp: pause_effects_in_def call_queue_def ebind_Inr_iff split: sum.splits prod.splits)

lemma context_keysE:
  assumes "with_run_context now c work s = Inr (x, s')"
  obtains b s1 where "work b s1 = Inr (x, s')" "bp_ctl s1 = bp_ctl s" "bp_keys s1 = bp_keys s"
  using assms bind_contextD [of now c s]
  by (auto simp: with_run_context_def touch_run_def lock_workspace_def split: sum.splits prod.splits option.splits)

lemma service_keys:
  assumes "keys_follow s" "\<And>x s'. r = Inr (x, s') \<Longrightarrow> keys_follow s'"
  shows "keys_follow (snd (service_end now c kind objects classify s r))"
proof (cases r)
  case (Inl e)
  obtain a st where "classify e = (a, st)" by fastforce
  then have "snd (service_end now c kind objects classify s r) = record_rejection now (Some c) kind objects a st s"
    using Inl by (simp add: service_end_def)
  then show ?thesis using assms(1) by (simp add: keys_follow_def dead_def has_principal_def)
next
  case (Inr y)
  then show ?thesis using assms(2) by (cases y) (simp add: service_end_def)
qed

lemma keys_follow_same: "keys_follow s \<Longrightarrow> bp_keys s' = bp_keys s \<Longrightarrow> (\<And>w p. dead w p s \<Longrightarrow> dead w p s') \<Longrightarrow> keys_follow s'"
  unfolding keys_follow_def by simp

lemma keys_follow_context: "keys_follow s \<Longrightarrow> bp_ctl s1 = bp_ctl s \<Longrightarrow> bp_keys s1 = bp_keys s \<Longrightarrow> keys_follow s1"
  by (simp add: keys_follow_def dead_def has_principal_def)

lemma issue_key_follow: "keys_follow s \<Longrightarrow> keys_follow (snd (issue_principal_key digest now material u v q s))"
  unfolding issue_principal_key_def
proof (rule service_keys)
  fix c s' assume s: "keys_follow s"
  assume "with_run_context now (User_context v u) (issue_key_in digest now material u v q) s = Inr (c, s')"
  then obtain b s1 where s1: "issue_key_in digest now material u v q b s1 = Inr (c, s')" "bp_ctl s1 = bp_ctl s" "bp_keys s1 = bp_keys s"
    by (rule context_keysE)
  have f: "keys_follow s1" by (rule keys_follow_context [OF s s1(2,3)])
  show "keys_follow s'"
    by (rule issue_step [OF s1(1) f], rule keys_follow_on [OF f]) (auto simp: dead_def has_principal_def)
qed

lemma revoke_follow: "keys_follow s \<Longrightarrow> keys_follow (snd (revoke_principal now u v q s))"
  unfolding revoke_principal_def
proof (rule service_keys)
  fix n s' assume s: "keys_follow s"
  assume "with_run_context now (User_context v u) (revoke_in now u v q) s = Inr (n, s')"
  then obtain b s1 where s1: "revoke_in now u v q b s1 = Inr (n, s')" "bp_ctl s1 = bp_ctl s" "bp_keys s1 = bp_keys s"
    by (rule context_keysE)
  have f: "keys_follow s1" by (rule keys_follow_context [OF s s1(2,3)])
  obtain x where x: "find (\<lambda>x. pr_ws x = v \<and> pr_id x = q \<and> pr_system x = None) (ct_principals (bp_ctl s1)) = Some x"
    "if \<not> pr_active x then (n, s') = (0, s1) else
       pause_effects_in now b v q (snd (emit now b ''principal.revoked'' [uuid_text q] (Some 1) [] (deactivate now v q s1))) = Inr (n, s')"
    using s1(1) by (auto simp: revoke_in_def with_access_Inr split: option.splits if_splits)
  show "keys_follow s'"
  proof (cases "pr_active x")
    case True
    then have s': "bp_ctl s' = bp_ctl (deactivate now v q s1)" "bp_keys s' = bp_keys (deactivate now v q s1)"
      using x(2) by (auto dest: pause_ctl pause_keys)
    have "has_principal s1 v q" using find_member [OF x(1)] by (auto simp: has_principal_def list_ex_iff)
    then have d: "dead v q s'" using deactivate_dead dead_on s'(1) by metis
    have keep: "dead w p s1 \<Longrightarrow> dead w p s'" for w p using deactivate_keeps dead_on s'(1) by metis
    show ?thesis
      by (rule keys_follow_on [OF f keep]) (use d in \<open>auto simp: s'(2) deactivate_def split: if_splits\<close>)
  qed (use x(2) f in simp)
qed

lemma service_same_keys:
  assumes "\<And>x s'. r = Inr (x, s') \<Longrightarrow> bp_keys s' = bp_keys s"
  shows "bp_keys (snd (service_end now c kind objects classify s r)) = bp_keys s"
  using assms by (auto simp: service_end_def split: sum.splits prod.splits)

lemma add_principal_keys: "add_principal x s = Inr s' \<Longrightarrow> bp_keys s' = bp_keys s"
  by (auto simp: add_principal_def split: if_splits)

lemma create_workspace_follow: "keys_follow s \<Longrightarrow> keys_follow (snd (create_workspace now sys i u name s))"
proof (rule keys_follow_same [OF _ _ create_workspace_dead], assumption)
  show "bp_keys (snd (create_workspace now sys i u name s)) = bp_keys s"
    unfolding create_workspace_def
  proof (rule service_same_keys)
    fix x s' assume "with_run_context now (User_context i u) (create_workspace_in now sys i u name) s = Inr (x, s')"
    then obtain b s1 where s1: "create_workspace_in now sys i u name b s1 = Inr (x, s')" "bp_keys s1 = bp_keys s" by (rule context_keysE)
    let ?s = "s1\<lparr>bp_ctl := (bp_ctl s1)\<lparr>ct_workspaces := ct_workspaces (bp_ctl s1) @ [(i, ''default'')]\<rparr>\<rparr>"
    obtain a a2 s2 s3 where "add_principal a ?s = Inr s2" "add_principal a2 s2 = Inr s3" "bp_keys s' = bp_keys s3"
      using s1(1) by (auto simp: create_workspace_in_def with_access_Inr ebind_Inr_iff Let_def split: if_splits)
    then show "bp_keys s' = bp_keys s" using s1(2) by (auto dest!: add_principal_keys)
  qed
qed

lemma create_principal_follow: "keys_follow s \<Longrightarrow> keys_follow (snd (create_principal now i u v name s))"
proof (rule keys_follow_same [OF _ _ create_principal_dead], assumption)
  show "bp_keys (snd (create_principal now i u v name s)) = bp_keys s"
    unfolding create_principal_def
  proof (rule service_same_keys)
    fix x s' assume "with_run_context now (User_context v u) (create_principal_in now i u v name) s = Inr (x, s')"
    then obtain b s1 where s1: "create_principal_in now i u v name b s1 = Inr (x, s')" "bp_keys s1 = bp_keys s" by (rule context_keysE)
    then show "bp_keys s' = bp_keys s"
      by (auto simp: create_principal_in_def with_access_Inr ebind_Inr_iff split: if_splits dest: add_principal_keys)
  qed
qed

lemma demo_key_issued:
  "map_sum id ik_key (fst (issue_principal_key id 8 (replicate 24 (CHR ''a''), replicate 64 (CHR ''b'')) ''ann'' 1 10 demo_keyed))
   = Inr (''bp_'' @ replicate 24 (CHR ''a'') @ ''_'' @ replicate 64 (CHR ''b''))"
  by code_simp

lemma demo_keys_follow: "keys_follow demo_keyed"
  by (simp add: keys_follow_def demo_keyed_def)

definition demo_bearer :: request where
  "demo_bearer = demo_create\<lparr>rq_headers := [(''authorization'', ''Bearer bp_'' @ replicate 24 (CHR ''a'') @ ''_'' @ replicate 64 (CHR ''b''))]\<rparr>"

theorem issued_key_authenticates_witness:
  "fst (key_session id 9 demo_bearer (uuid_text 1)
     (snd (issue_principal_key id 8 (replicate 24 (CHR ''a''), replicate 64 (CHR ''b'')) ''ann'' 1 10 demo_keyed))) = Inr (1, 10, None)"
proof -
  let ?r = "issue_principal_key id 8 (replicate 24 (CHR ''a''), replicate 64 (CHR ''b'')) ''ann'' 1 10 demo_keyed"
  obtain c where c: "fst ?r = Inr c" "ik_key c = ''bp_'' @ replicate 24 (CHR ''a'') @ ''_'' @ replicate 64 (CHR ''b'')"
    using demo_key_issued by (cases "fst ?r") auto
  have r: "?r = (Inr c, snd ?r)" using c(1) by (metis prod.collapse)
  have "header ''authorization'' demo_bearer = Some (''Bearer '' @ ik_key c)" unfolding c(2) by code_simp
  moreover have "list_all is_hex (replicate 24 (CHR ''a''))" "list_all is_hex (replicate 64 (CHR ''b''))"
    "to_lower (uuid_text 1) = uuid_text 1"
    by code_simp+
  ultimately show ?thesis
    using issued_key_authenticates [OF r demo_keys_follow, of "uuid_text 1" demo_bearer 9] by simp
qed

end
