(* ===== verification/Functions.thy ===== *)
theory Functions
  imports RouteProps JsonText
begin

text \<open>Deployment and activation of functions (apps/server/compute): \<open>deploy-function.ts\<close>,
  \<open>activate-function.ts\<close>, \<open>deployment-config.ts\<close>, \<open>deployment-query.ts\<close> and \<open>compute-error.ts\<close>, with the tables
  and triggers of migrations 000023, 000029 and 000033.  The launcher (a service), the URL parser of the
  platform and the digest are parameters; texts are their UTF-8 bytes.\<close>

section \<open>State\<close>

datatype deployment_status = Registered | Active | Retired

record deployment =
  dp_ws :: uuid
  dp_name :: string
  dp_id :: uuid
  dp_bundle :: string
  dp_urls :: "string list"
  dp_config :: string
  dp_runtime :: string
  dp_principal :: uuid
  dp_run :: uuid
  dp_created :: time
  dp_status :: deployment_status

record fn_row =
  fn_ws :: uuid
  fn_name :: string
  fn_principal :: uuid

text \<open>A Run made by an invocation: its deployment and the Run that called.\<close>

record invocation =
  iv_ws :: uuid
  iv_run :: uuid
  iv_deployment :: uuid
  iv_parent :: uuid

text \<open>\<open>cs_cursor\<close> is the cursor of the reconciliation, in the memory of the server.\<close>

record compute =
  cs_server :: backplane
  cs_functions :: "fn_row list"
  cs_deployments :: "deployment list"
  cs_invocations :: "invocation list"
  cs_pending :: "(uuid \<times> time) list"
  cs_cursor :: "(time \<times> uuid) option"

section \<open>Failures\<close>

text \<open>A refusal rolls the transaction back and is returned; an exception is one PostgreSQL raises itself or
  one \<open>RAISE EXCEPTION\<close> names.\<close>

datatype fn_failure = Fn_refused string | Fn_sql raised | Fn_raised string

fun fn_message :: "fn_failure \<Rightarrow> string" where
  "fn_message (Fn_refused m) = m"
| "fn_message (Fn_sql e) = raised_message e"
| "fn_message (Fn_raised m) = m"

fun fn_sqlstate :: "fn_failure \<Rightarrow> string option" where
  "fn_sqlstate (Fn_refused m) = None"
| "fn_sqlstate (Fn_sql e) = Some (raised_sqlstate e)"
| "fn_sqlstate (Fn_raised m) = Some ''P0001''"

definition compute_statuses :: "(string \<times> nat) list" where
  "compute_statuses = [(''run_required'', 400), (''run_invalid'', 400), (''unauthorized'', 401), (''workspace_forbidden'', 403),
     (''run_forbidden'', 403), (''function_forbidden'', 403), (''origin_forbidden'', 403), (''deployment_not_found'', 404),
     (''deployment_conflict'', 409), (''activation_conflict'', 409), (''deployment_retired'', 409), (''bundle_too_large'', 413),
     (''invalid_input'', 422), (''bundle_invalid'', 422), (''compute_timeout'', 408), (''compute_disabled'', 503),
     (''compute_unavailable'', 503), (''compute_quota_exceeded'', 429)]"

definition compute_reason :: "fn_failure \<Rightarrow> string" where
  "compute_reason e =
     (let m = fn_message e in
      if map_of compute_statuses m \<noteq> None then m else if m = ''principal_revoked'' then ''unauthorized'' else ''compute_unavailable'')"

definition compute_error :: "time \<Rightarrow> run_context \<Rightarrow> string \<Rightarrow> string list \<Rightarrow> fn_failure \<Rightarrow> compute \<Rightarrow> (nat \<times> string) \<times> compute" where
  "compute_error now c kind objects e s =
     (let reason = compute_reason e in
      ((the (map_of compute_statuses reason), reason),
       s\<lparr>cs_server := record_rejection now (Some c) kind objects reason (fn_sqlstate e) (cs_server s)\<rparr>))"

section \<open>Steps of a transaction\<close>

definition fn_context :: "time \<Rightarrow> run_context \<Rightarrow> (bound_context \<Rightarrow> compute \<Rightarrow> fn_failure + ('a \<times> compute)) \<Rightarrow> compute
    \<Rightarrow> fn_failure + ('a \<times> compute)" where
  "fn_context now c work s =
     (case bind_context now c (cs_server s) of
        Inl e \<Rightarrow> Inl (Fn_sql e)
      | Inr (b, v) \<Rightarrow> work b (s\<lparr>cs_server := touch_run now (ctx_run c) v\<rparr>))"

definition fn_emit :: "time \<Rightarrow> bound_context \<Rightarrow> string \<Rightarrow> string list \<Rightarrow> (string \<times> jval) list \<Rightarrow> compute \<Rightarrow> compute" where
  "fn_emit now b kind objects meta s = s\<lparr>cs_server := snd (emit now b kind objects (Some 1) meta (cs_server s))\<rparr>"

definition live_function_key :: "backplane \<Rightarrow> uuid \<Rightarrow> uuid \<Rightarrow> bool" where
  "live_function_key s w p =
     (list_ex (\<lambda>k. ky_ws k = w \<and> ky_principal k = p \<and> ky_revoked k = None) (bp_keys s)
      \<and> list_ex (\<lambda>x. pr_ws x = w \<and> pr_id x = p \<and> pr_active x) (ct_principals (bp_ctl s)))"

definition query_deployment :: "compute \<Rightarrow> uuid \<Rightarrow> uuid \<Rightarrow> deployment option" where
  "query_deployment s w i = find (\<lambda>d. dp_ws d = w \<and> dp_id d = i) (cs_deployments s)"

definition active_deployment :: "compute \<Rightarrow> uuid \<Rightarrow> string \<Rightarrow> deployment option" where
  "active_deployment s w name = find (\<lambda>d. dp_ws d = w \<and> dp_name d = name \<and> dp_status d = Active) (cs_deployments s)"

definition find_function :: "compute \<Rightarrow> uuid \<Rightarrow> string \<Rightarrow> fn_row option" where
  "find_function s w name = find (\<lambda>f. fn_ws f = w \<and> fn_name f = name) (cs_functions s)"

text \<open>\<open>control.guard_function_write\<close>, which stamps an insertion with the Principal of the context.\<close>

definition guard_insert :: "bound_context \<Rightarrow> compute \<Rightarrow> (uuid \<Rightarrow> uuid \<Rightarrow> fn_failure + 'a) \<Rightarrow> fn_failure + 'a" where
  "guard_insert b s k =
     guardE (is_system (bp_ctl (cs_server s)) (bc_ws b) (bc_principal b)) (Fn_raised ''function_forbidden'') (
       case (bc_principal b, bc_run b) of
         (Some p, Some r) \<Rightarrow> k p r
       | _ \<Rightarrow> Inl (Fn_raised ''run_required''))"

definition fn_name_ok :: "string \<Rightarrow> bool" where
  "fn_name_ok n \<longleftrightarrow> starts_then is_lower (\<lambda>c. is_lower c \<or> is_digit c \<or> c = CHR ''-'') n \<and> length n \<le> 63"

definition insert_function :: "bound_context \<Rightarrow> string \<Rightarrow> compute \<Rightarrow> fn_failure + compute" where
  "insert_function b name s =
     guard_insert b s (\<lambda>p r.
     guardE (\<not> fn_name_ok name) (Fn_sql Check_violation) (
     guardE (find_function s (bc_ws b) name \<noteq> None) (Fn_sql (Unique_violation ''functions_pkey'')) (
       Inr (s\<lparr>cs_functions := cs_functions s @ [\<lparr>fn_ws = bc_ws b, fn_name = name, fn_principal = p\<rparr>]\<rparr>))))"

definition digest_ok :: "string \<Rightarrow> bool" where
  "digest_ok t = (let hex = (if take 22 t = ''workerd-binary-sha256:'' then drop 22 t else t) in length hex = 64 \<and> list_all is_hex hex)"

definition insert_deployment :: "time \<Rightarrow> bound_context \<Rightarrow> string \<Rightarrow> uuid \<Rightarrow> string \<Rightarrow> string list \<Rightarrow> string \<Rightarrow> string \<Rightarrow> compute
    \<Rightarrow> fn_failure + compute" where
  "insert_deployment now b name i bundle urls config runtime s =
     guard_insert b s (\<lambda>p r.
     guardE (bundle = [] \<or> 4194304 < octets bundle \<or> 16 < length urls \<or> \<not> digest_ok runtime) (Fn_sql Check_violation) (
     guardE (query_deployment s (bc_ws b) i \<noteq> None) (Fn_sql (Unique_violation ''deployments_pkey'')) (
     guardE (\<not> list_ex (\<lambda>f. fn_ws f = bc_ws b \<and> fn_name f = name \<and> fn_principal f = p) (cs_functions s)
         \<or> \<not> list_ex (\<lambda>k. ky_ws k = bc_ws b \<and> ky_principal k = p) (bp_keys (cs_server s))) (Fn_raised ''foreign_key'') (
       Inr (s\<lparr>cs_deployments := cs_deployments s @ [\<lparr>dp_ws = bc_ws b, dp_name = name, dp_id = i, dp_bundle = bundle, dp_urls = urls,
         dp_config = config, dp_runtime = runtime, dp_principal = p, dp_run = r, dp_created = now, dp_status = Registered\<rparr>]\<rparr>)))))"

definition status_may_become :: "deployment_status \<Rightarrow> deployment_status \<Rightarrow> bool" where
  "status_may_become old new \<longleftrightarrow> (old = Registered \<and> new = Active) \<or> (old = Active \<and> new = Retired)"

definition update_status :: "bound_context \<Rightarrow> uuid \<Rightarrow> deployment_status \<Rightarrow> compute \<Rightarrow> fn_failure + compute" where
  "update_status b i new s =
     (case query_deployment s (bc_ws b) i of
        None \<Rightarrow> Inr s
      | Some d \<Rightarrow>
          guardE (is_system (bp_ctl (cs_server s)) (bc_ws b) (bc_principal b)
              \<or> bc_user b = None \<and> bc_principal b \<noteq> Some (dp_principal d)) (Fn_raised ''function_forbidden'') (
          guardE (\<not> status_may_become (dp_status d) new) (Fn_raised ''deployment_immutable'') (
          guardE (new = Active \<and> active_deployment s (bc_ws b) (dp_name d) \<noteq> None) (Fn_sql (Unique_violation ''deployment_active'')) (
            Inr (s\<lparr>cs_deployments := map (\<lambda>x. if dp_ws x = bc_ws b \<and> dp_id x = i then x\<lparr>dp_status := new\<rparr> else x) (cs_deployments s)\<rparr>)))))"

section \<open>Deployment\<close>

text \<open>What the platform's URL parser finds in a text.\<close>

record url =
  ur_protocol :: string
  ur_username :: string
  ur_password :: string
  ur_hash :: string
  ur_href :: string

definition normalize_urls :: "(string \<Rightarrow> url option) \<Rightarrow> string list \<Rightarrow> string list option" where
  "normalize_urls parse us =
     (let ok = (\<lambda>t. case parse t of None \<Rightarrow> False
          | Some u \<Rightarrow> ur_protocol u = ''https:'' \<and> ur_username u = [] \<and> ur_password u = [] \<and> ur_hash u = []) in
      if list_all ok us then Some (sort (remdups (map (\<lambda>t. ur_href (the (parse t))) us))) else None)"

definition compatibility_date :: string where
  "compatibility_date = ''2026-01-01''"

definition check_source :: string where
  "check_source = ''import {WorkerEntrypoint} from \"cloudflare:workers\";'' @ [CHR 0x0A]
     @ ''import handler from \"./bundle.js\";'' @ [CHR 0x0A]
     @ ''export class Check extends WorkerEntrypoint {'' @ [CHR 0x0A]
     @ ''  check() { return handler !== null && typeof handler === \"object\" && typeof handler.fetch === \"function\"; }'' @ [CHR 0x0A]
     @ ''}''"

definition config_hash :: "(string \<Rightarrow> string) \<Rightarrow> uuid \<Rightarrow> uuid \<Rightarrow> string \<Rightarrow> string list \<Rightarrow> string \<Rightarrow> string" where
  "config_hash sha w p bundle urls runtime =
     sha (json_text (JArr [JInt 1, JStr (sha bundle), JStr ''default'', JStr compatibility_date, JArr (map JStr urls),
       JArr [JStr (uuid_text w), JStr (uuid_text p)], JStr runtime, JStr (sha check_source)]))"

text \<open>The launcher: its digest, whether it verifies now (a failure answers as \<open>None\<close>), what preparing a
  deployment answers, its time limit and whether it can invoke.\<close>

record launcher =
  lc_digest :: string
  lc_verify :: "jval option"
  lc_prepare :: "deployment \<Rightarrow> string + jval"
  lc_timeout :: "int option"
  lc_invokes :: bool

record fn_env =
  fe_now :: time
  fe_sha :: "string \<Rightarrow> string"
  fe_url :: "string \<Rightarrow> url option"

definition deploy_in :: "fn_env \<Rightarrow> string \<Rightarrow> uuid \<Rightarrow> string \<Rightarrow> string list \<Rightarrow> string \<Rightarrow> launcher \<Rightarrow> jval \<Rightarrow> bound_context \<Rightarrow> compute
    \<Rightarrow> fn_failure + ((bool \<times> deployment) \<times> compute)" where
  "deploy_in E name i bundle urls hash l artifact b s =
     (let w = bc_ws b; p = the (bc_principal b); owner = find_function s w name in
      guardE (\<not> live_function_key (cs_server s) w p) (Fn_refused ''function_forbidden'') (
      guardE (case owner of None \<Rightarrow> False | Some f \<Rightarrow> fn_principal f \<noteq> p) (Fn_refused ''function_forbidden'') (
        case query_deployment s w i of
          Some d \<Rightarrow>
            if dp_name d \<noteq> name \<or> dp_config d \<noteq> hash then Inl (Fn_refused ''deployment_conflict'') else Inr ((False, d), s)
        | None \<Rightarrow>
            ebind (if owner = None then insert_function b name s else Inr s) (\<lambda>s1.
            ebind (insert_deployment (fe_now E) b name i bundle urls hash (lc_digest l) s1) (\<lambda>s2.
              let s3 = fn_emit (fe_now E) b ''function.deploy'' [name, uuid_text i]
                    [(''bundleSha256'', JStr (fe_sha E bundle)), (''configHash'', JStr hash), (''runtimeDigest'', JStr (lc_digest l)), (''artifact'', artifact)] s2 in
              case query_deployment s3 w i of
                None \<Rightarrow> Inl (Fn_refused ''deployment_missing_after_insert'')
              | Some d \<Rightarrow> Inr ((True, d), s3))))))"

definition deploy_function :: "fn_env \<Rightarrow> run_context \<Rightarrow> string \<Rightarrow> uuid \<Rightarrow> string \<Rightarrow> string list \<Rightarrow> launcher option \<Rightarrow> compute
    \<Rightarrow> fn_failure + ((bool \<times> deployment) \<times> compute)" where
  "deploy_function E c name i bundle outbound l s =
     guardE (4194304 < octets bundle) (Fn_refused ''bundle_too_large'') (
     guardE (bundle = []) (Fn_refused ''bundle_invalid'') (
       case normalize_urls (fe_url E) outbound of
         None \<Rightarrow> Inl (Fn_refused ''invalid_input'')
       | Some urls \<Rightarrow>
          (case l of
             None \<Rightarrow> Inl (Fn_refused ''compute_unavailable'')
           | Some l \<Rightarrow>
              (case lc_verify l of
                 None \<Rightarrow> Inl (Fn_refused ''compute_unavailable'')
               | Some artifact \<Rightarrow>
                   fn_context (fe_now E) c
                     (deploy_in E name i bundle urls
                       (config_hash (fe_sha E) (ctx_ws c) (the (ctx_principal c)) bundle urls (lc_digest l)) l artifact) s))))"

section \<open>Activation\<close>

definition activate_in :: "fn_env \<Rightarrow> run_context \<Rightarrow> string \<Rightarrow> uuid \<Rightarrow> uuid option \<Rightarrow> launcher \<Rightarrow> bound_context \<Rightarrow> compute
    \<Rightarrow> fn_failure + (deployment \<times> compute)" where
  "activate_in E c name i expected l b s =
     (let w = ctx_ws c in
      guardE (case c of User_context _ u \<Rightarrow> approval_member (bp_ctl (cs_server s)) w u = None | _ \<Rightarrow> False) (Fn_refused ''workspace_forbidden'') (
        case query_deployment s w i of
          None \<Rightarrow> Inl (Fn_refused ''deployment_not_found'')
        | Some d \<Rightarrow>
            let active = map_option dp_id (active_deployment s w name) in
            guardE (dp_name d \<noteq> name) (Fn_refused ''deployment_not_found'') (
            guardE (case c of Principal_context _ p _ _ \<Rightarrow> dp_principal d \<noteq> p | _ \<Rightarrow> False) (Fn_refused ''function_forbidden'') (
            guardE (\<not> live_function_key (cs_server s) w (dp_principal d)) (Fn_refused ''function_forbidden'') (
            guardE (dp_runtime d \<noteq> lc_digest l) (Fn_refused ''compute_unavailable'') (
            guardE (dp_status d = Retired) (Fn_refused ''deployment_retired'') (
            guardE (dp_status d \<noteq> Active \<and> active \<noteq> expected) (Fn_refused ''activation_conflict'') (
              case lc_prepare l d of
                Inl reason \<Rightarrow> Inl (Fn_refused reason)
              | Inr artifact \<Rightarrow>
                  if dp_status d = Active then Inr (d, s)
                  else
                    ebind (case active of None \<Rightarrow> Inr s | Some a \<Rightarrow> update_status b a Retired s) (\<lambda>s1.
                    ebind (update_status b i Active s1) (\<lambda>s2.
                      Inr (d\<lparr>dp_status := Active\<rparr>, fn_emit (fe_now E) b ''function.activate'' [name, uuid_text i]
                        [(''deploymentId'', JStr (uuid_text i)), (''previousActiveId'', (case active of None \<Rightarrow> JNull | Some a \<Rightarrow> JStr (uuid_text a))),
                         (''artifact'', artifact)] s2)))))))))))"

definition activate_function :: "fn_env \<Rightarrow> run_context \<Rightarrow> string \<Rightarrow> uuid \<Rightarrow> uuid option \<Rightarrow> launcher \<Rightarrow> compute
    \<Rightarrow> fn_failure + (deployment \<times> compute)" where
  "activate_function E c name i expected l s =
     guardE (lc_verify l = None) (Fn_refused ''compute_unavailable'') (fn_context (fe_now E) c (activate_in E c name i expected l) s)"

text \<open>The handlers: a failure is answered and recorded after the rollback.\<close>

definition fn_reply :: "time \<Rightarrow> run_context \<Rightarrow> string \<Rightarrow> string list \<Rightarrow> compute \<Rightarrow> fn_failure + ('a \<times> compute)
    \<Rightarrow> ((nat \<times> string) + 'a) \<times> compute" where
  "fn_reply now c kind objects s r =
     (case r of Inr (x, s') \<Rightarrow> (Inr x, s') | Inl e \<Rightarrow> map_prod Inl id (compute_error now c kind objects e s))"

definition deploy_handler :: "fn_env \<Rightarrow> run_context \<Rightarrow> string \<Rightarrow> uuid \<Rightarrow> string \<Rightarrow> string list \<Rightarrow> launcher option \<Rightarrow> compute
    \<Rightarrow> ((nat \<times> string) + (nat \<times> deployment)) \<times> compute" where
  "deploy_handler E c name i bundle outbound l s =
     (case fn_reply (fe_now E) c ''function.deploy'' [name, uuid_text i] s (deploy_function E c name i bundle outbound l s) of
        (Inl e, s') \<Rightarrow> (Inl e, s')
      | (Inr (created, d), s') \<Rightarrow> (Inr (if created then 201 else 200, d), s'))"

definition activate_handler :: "fn_env \<Rightarrow> run_context \<Rightarrow> string \<Rightarrow> uuid \<Rightarrow> uuid option \<Rightarrow> launcher option \<Rightarrow> compute
    \<Rightarrow> ((nat \<times> string) + deployment) \<times> compute" where
  "activate_handler E c name i expected l s =
     (case l of
        None \<Rightarrow> (Inl (503, ''compute_disabled''), s)
      | Some l \<Rightarrow> fn_reply (fe_now E) c ''function.activate'' [name, uuid_text i] s (activate_function E c name i expected l s))"

end
