(* ===== verification/Invocations.thy ===== *)
theory Invocations
  imports Functions "HOL-Library.Product_Lexorder"
begin

text \<open>Invocation of functions (apps/server/compute): \<open>invoke-function.ts\<close>, \<open>finish-invocation.ts\<close> and
  \<open>reconcile-invocations.ts\<close> with the functions of migrations 000026 and 000034.  An invocation is two
  transactions with an execution between them, during which everything else may happen; what the launcher
  answered and which deadline passed is an argument of the second.  Random ids and credentials are arguments.\<close>

section \<open>The storage functions\<close>

text \<open>\<open>control.create_invocation\<close>\<close>

definition create_invocation :: "time \<Rightarrow> bound_context \<Rightarrow> uuid \<Rightarrow> string \<Rightarrow> int \<Rightarrow> uuid \<Rightarrow> compute
    \<Rightarrow> fn_failure + ((uuid \<times> time) \<times> compute)" where
  "create_invocation now b i hash timeout r s =
     (let v = cs_server s; w = bc_ws b; expires = now + timeout * 1000 in
      case (bc_principal b, bc_run b) of
        (Some p, Some parent) \<Rightarrow>
          guardE (parent \<in> set (bp_deployed v)) (Fn_raised ''invocation_scope_forbidden'') (
          guardE (timeout < 1 \<or> length hash \<noteq> 32) (Fn_raised ''invalid_input'') (
          ebind (map_sum Fn_sql id (assert_restore_open (bp_ctl v))) (\<lambda>_.
            case find (\<lambda>d. dp_ws d = w \<and> dp_id d = i \<and> dp_status d = Active) (cs_deployments s) of
              None \<Rightarrow> Inl (Fn_raised ''function_not_found'')
            | Some d \<Rightarrow>
                guardE (\<not> live_function_key v w (dp_principal d)) (Fn_raised ''function_not_found'') (
                guardE (map_of (ct_runs (bp_ctl v)) r \<noteq> None) (Fn_sql (Unique_violation ''runs_pkey'')) (
                guardE (list_ex (\<lambda>t. tk_hash t = hash) (bp_tokens v)) (Fn_sql (Unique_violation ''invocation_tokens_pkey'')) (
                  Inr ((r, expires),
                    s\<lparr>cs_server := v\<lparr>bp_ctl := (bp_ctl v)\<lparr>ct_runs := ct_runs (bp_ctl v) @ [(r, w, dp_principal d)]\<rparr>,
                        bp_deployed := bp_deployed v @ [r],
                        bp_tokens := bp_tokens v @ [\<lparr>tk_hash = hash, tk_run = r, tk_expires = expires,
                          tk_epoch = Option.bind (ct_gate (bp_ctl v)) rg_epoch\<rparr>]\<rparr>,
                      cs_invocations := cs_invocations s @ [\<lparr>iv_ws = w, iv_run = r, iv_deployment = dp_id d, iv_parent = parent\<rparr>],
                      cs_pending := cs_pending s @ [(r, expires)]\<rparr>)))))))
      | _ \<Rightarrow> Inl (Fn_raised ''run_required''))"

text \<open>\<open>control.sweep_invocation_tokens\<close>\<close>

definition sweep_invocation_tokens :: "time \<Rightarrow> uuid \<Rightarrow> backplane \<Rightarrow> backplane" where
  "sweep_invocation_tokens now w v =
     (let gone = take 100 (sort_key tk_expires (filter (\<lambda>t. map_option fst (map_of (ct_runs (bp_ctl v)) (tk_run t)) = Some w
            \<and> tk_expires t \<le> now) (bp_tokens v))) in
      v\<lparr>bp_tokens := filter (\<lambda>t. tk_hash t \<notin> set (map tk_hash gone)) (bp_tokens v)\<rparr>)"

definition terminal_kinds :: "string list" where
  "terminal_kinds = [''function.complete'', ''function.fail'', ''function.timeout'']"

definition terminal_events :: "backplane \<Rightarrow> uuid \<Rightarrow> audit_event list" where
  "terminal_events v r = filter (\<lambda>e. ae_run e = Some r \<and> ae_kind e \<in> set terminal_kinds) (bp_events v)"

definition find_invocation :: "compute \<Rightarrow> uuid \<Rightarrow> invocation option" where
  "find_invocation s r = find (\<lambda>i. iv_run i = r) (cs_invocations s)"

definition has_terminal :: "backplane \<Rightarrow> uuid \<Rightarrow> uuid \<Rightarrow> bool" where
  "has_terminal v w r = list_ex (\<lambda>e. ae_ws e = w) (terminal_events v r)"

text \<open>\<open>control.finish_invocation\<close>.  When the lock of the Workspace is \<open>contended\<close> only the token goes.\<close>

definition record_terminal :: "time \<Rightarrow> invocation \<Rightarrow> uuid \<Rightarrow> string \<Rightarrow> int \<Rightarrow> nat option \<Rightarrow> backplane \<Rightarrow> backplane" where
  "record_terminal now i p kind duration status v =
     (if has_terminal v (iv_ws i) (iv_run i) then v
      else snd (emit now \<lparr>bc_ws = iv_ws i, bc_principal = Some p, bc_run = Some (iv_run i), bc_user = None\<rparr> kind
        [uuid_text (iv_deployment i), uuid_text (iv_run i)] None
        [(''durationMs'', JInt duration), (''status'', (case status of None \<Rightarrow> JNull | Some n \<Rightarrow> JInt (int n))), (''reason'', JStr kind)] v))"

definition drop_token :: "uuid \<Rightarrow> compute \<Rightarrow> compute" where
  "drop_token r s = s\<lparr>cs_server := (cs_server s)\<lparr>bp_tokens := filter (\<lambda>t. tk_run t \<noteq> r) (bp_tokens (cs_server s))\<rparr>\<rparr>"

definition finish_invocation :: "time \<Rightarrow> bool \<Rightarrow> uuid \<Rightarrow> string \<Rightarrow> int \<Rightarrow> nat option \<Rightarrow> compute \<Rightarrow> fn_failure + compute" where
  "finish_invocation now contended r kind duration status s =
     guardE (kind \<notin> set terminal_kinds \<or> duration < 0 \<or> (case status of None \<Rightarrow> False | Some n \<Rightarrow> n < 100 \<or> 599 < n)) (Fn_raised ''invalid_input'') (
       case (find_invocation s r, map_of (ct_runs (bp_ctl (cs_server s))) r) of
         (Some i, Some (w, p)) \<Rightarrow>
           Inr (drop_token r (if contended then s
             else s\<lparr>cs_server := record_terminal now i p kind duration status (lock_workspace w (cs_server s)),
                    cs_pending := filter (\<lambda>x. fst x \<noteq> r) (cs_pending s)\<rparr>))
       | _ \<Rightarrow> Inl (Fn_raised ''run_forbidden''))"

section \<open>Finishing\<close>

text \<open>Up to three attempts: one may commit, with the lock or without it, commit without telling, or fail with
  an SQLSTATE.  No attempt left over means that the deadline passed or no connection came.\<close>

datatype attempt = Attempt_committed time bool | Attempt_lost time bool | Attempt_failed string

definition finish_complete :: "uuid \<Rightarrow> compute \<Rightarrow> bool" where
  "finish_complete r s \<longleftrightarrow> \<not> list_ex (\<lambda>t. tk_run t = r) (bp_tokens (cs_server s))
     \<and> (case map_of (ct_runs (bp_ctl (cs_server s))) r of None \<Rightarrow> False | Some (w, _) \<Rightarrow> has_terminal (cs_server s) w r)"

fun finish_attempts :: "nat \<Rightarrow> uuid \<Rightarrow> string \<Rightarrow> int \<Rightarrow> nat option \<Rightarrow> attempt list \<Rightarrow> compute \<Rightarrow> bool \<times> compute" where
  "finish_attempts n r kind duration status [] s = (False, s)"
| "finish_attempts 0 r kind duration status (a # as) s = (False, s)"
| "finish_attempts (Suc n) r kind duration status (Attempt_failed e # as) s =
     (if e \<in> {''55P03'', ''40001'', ''40P01''} then finish_attempts n r kind duration status as s else (False, s))"
| "finish_attempts (Suc n) r kind duration status (Attempt_lost now contended # as) s =
     (case finish_invocation now contended r kind duration status s of Inl e \<Rightarrow> (False, s) | Inr s' \<Rightarrow> (False, s'))"
| "finish_attempts (Suc n) r kind duration status (Attempt_committed now contended # as) s =
     (case finish_invocation now contended r kind duration status s of
        Inl e \<Rightarrow> (False, s)
      | Inr s' \<Rightarrow> if finish_complete r s' then (True, s') else finish_attempts n r kind duration status as s')"

definition finish_on_connection :: "uuid \<Rightarrow> string \<Rightarrow> int \<Rightarrow> nat option \<Rightarrow> attempt list \<Rightarrow> compute \<Rightarrow> bool \<times> compute" where
  "finish_on_connection = finish_attempts 3"

section \<open>Invoking\<close>

definition begin_in :: "time \<Rightarrow> string \<Rightarrow> int \<Rightarrow> string \<Rightarrow> uuid \<Rightarrow> launcher \<Rightarrow> jval \<Rightarrow> bound_context \<Rightarrow> compute
    \<Rightarrow> fn_failure + ((deployment \<times> uuid \<times> time) \<times> compute)" where
  "begin_in now name timeout hash r l artifact b s =
     (case active_deployment s (bc_ws b) name of
        None \<Rightarrow> Inl (Fn_refused ''function_not_found'')
      | Some a \<Rightarrow>
         (case query_deployment s (bc_ws b) (dp_id a) of
            None \<Rightarrow> Inl (Fn_refused ''compute_unavailable'')
          | Some d \<Rightarrow>
              guardE (dp_runtime d \<noteq> lc_digest l) (Fn_refused ''compute_unavailable'') (
              ebind (create_invocation now b (dp_id a) hash timeout r s) (\<lambda>((child, expires), s1).
                let s2 = fn_emit now b ''function.invoke'' [name, uuid_text (dp_id a), uuid_text child]
                      [(''deploymentId'', JStr (uuid_text (dp_id a))), (''runId'', JStr (uuid_text child)), (''artifact'', artifact)] s1 in
                Inr ((d, child, expires), s2\<lparr>cs_server := sweep_invocation_tokens now (bc_ws b) (cs_server s2)\<rparr>)))))"

definition invocation_timeout :: "int option \<Rightarrow> launcher \<Rightarrow> int" where
  "invocation_timeout asked l = (case asked of Some t \<Rightarrow> t | None \<Rightarrow> (case lc_timeout l of Some t \<Rightarrow> t | None \<Rightarrow> 10000))"

definition begin_invocation :: "(string \<Rightarrow> string) \<Rightarrow> time \<Rightarrow> run_context \<Rightarrow> string \<Rightarrow> int option \<Rightarrow> string \<Rightarrow> uuid \<Rightarrow> launcher \<Rightarrow> compute
    \<Rightarrow> fn_failure + ((deployment \<times> uuid \<times> time) \<times> compute)" where
  "begin_invocation digest now c name asked token r l s =
     (let timeout = invocation_timeout asked l in
      guardE (invocation_timeout None l < timeout) (Fn_refused ''invalid_input'') (
      guardE (\<not> lc_invokes l) (Fn_refused ''compute_unavailable'') (
        case lc_verify l of
          None \<Rightarrow> Inl (Fn_refused ''compute_unavailable'')
        | Some artifact \<Rightarrow> fn_context now c (begin_in now name timeout (digest token) r l artifact) s)))"

definition invocation_limit :: int where
  "invocation_limit = 1048576"

fun read_invocation_bytes :: "int \<Rightarrow> string list \<Rightarrow> string option" where
  "read_invocation_bytes got [] = Some []"
| "read_invocation_bytes got (c # cs) =
     (if invocation_limit < got + octets c then None else map_option (\<lambda>t. c @ t) (read_invocation_bytes (got + octets c) cs))"

text \<open>How the race of the execution with the deadline and the caller's abort ends: it may be stopped after
  the status of the response is known.  \<open>Launch_failed\<close> holds the message of the error.\<close>

datatype execution =
    Exec_late
  | Exec_aborted "nat option"
  | Exec_timed_out "nat option"
  | Exec_failed string "nat option"
  | Exec_no_response
  | Exec_answered nat "string list"

definition launch_reason :: "string \<Rightarrow> string" where
  "launch_reason m = (if m \<in> {''compute_unavailable'', ''function_failed'', ''function_timeout''} then m else ''function_failed'')"

definition settle_execution :: "(string \<Rightarrow> jval option) \<Rightarrow> execution \<Rightarrow> bool \<Rightarrow> string \<times> nat option \<times> (string + jval)" where
  "settle_execution parse x late =
     (let failed = (\<lambda>status reason. (if reason = ''function_timeout'' then ''function.timeout'' else ''function.fail'', status, Inl reason)) in
      case x of
        Exec_late \<Rightarrow> failed None ''function_timeout''
      | Exec_aborted status \<Rightarrow> failed status ''function_failed''
      | Exec_timed_out status \<Rightarrow> failed status ''function_timeout''
      | Exec_failed m status \<Rightarrow> failed status (launch_reason m)
      | Exec_no_response \<Rightarrow> failed None ''compute_unavailable''
      | Exec_answered n chunks \<Rightarrow>
         (case read_invocation_bytes 0 chunks of
            None \<Rightarrow> failed (Some n) ''function_response_too_large''
          | Some t \<Rightarrow>
             (case parse t of
                None \<Rightarrow> failed (Some n) ''function_response_invalid''
              | Some v \<Rightarrow> if late then failed (Some n) ''function_timeout''
                  else (if n < 400 then ''function.complete'' else ''function.fail'', Some n, Inr v))))"

definition end_invocation :: "(string \<Rightarrow> jval option) \<Rightarrow> uuid \<Rightarrow> execution \<Rightarrow> bool \<Rightarrow> int \<Rightarrow> attempt list \<Rightarrow> compute
    \<Rightarrow> (string + (nat \<times> jval)) \<times> compute" where
  "end_invocation parse r x late duration as s =
     (let (kind, status, result) = settle_execution parse x late;
          (done, s') = finish_on_connection r kind (min 2147483647 duration) status as s in
      (if done then map_sum id (\<lambda>v. (case status of None \<Rightarrow> 500 | Some n \<Rightarrow> n, v)) result else Inl ''invocation_finalize_failed'', s'))"

definition invocation_codes :: "(string \<times> nat) list" where
  "invocation_codes = [(''run_required'', 400), (''run_invalid'', 400), (''unauthorized'', 401), (''workspace_forbidden'', 403),
     (''run_forbidden'', 403), (''invocation_scope_forbidden'', 403), (''function_not_found'', 404), (''invocation_body_too_large'', 413),
     (''invalid_input'', 422), (''function_failed'', 502), (''function_response_invalid'', 502), (''function_response_too_large'', 502),
     (''function_timeout'', 504), (''compute_disabled'', 503), (''compute_unavailable'', 503), (''admission_unavailable'', 503),
     (''restore_gated'', 503), (''invocation_finalize_failed'', 503)]"

text \<open>The handler's answer to a failure of either half.\<close>

definition invoke_failure :: "time \<Rightarrow> run_context \<Rightarrow> string \<Rightarrow> string \<Rightarrow> compute \<Rightarrow> (nat \<times> string) \<times> compute" where
  "invoke_failure now c name m s =
     (let reason = (if map_of invocation_codes m \<noteq> None then m else ''compute_unavailable'') in
      ((case map_of invocation_codes reason of None \<Rightarrow> 503 | Some n \<Rightarrow> n, reason),
       s\<lparr>cs_server := record_rejection now (Some c) ''function.invoke'' [name] reason None (cs_server s)\<rparr>))"

section \<open>Reconciling\<close>

text \<open>A page of the pending invocations that expired ten seconds ago, behind the cursor.\<close>

definition due_page :: "time \<Rightarrow> compute \<Rightarrow> (time \<times> uuid) list" where
  "due_page now s =
     take 16 (sort (filter (\<lambda>(e, r). e \<le> now - seconds 10 \<and> (case cs_cursor s of None \<Rightarrow> True | Some c \<Rightarrow> c < (e, r)))
       (map (\<lambda>(r, e). (e, r)) (cs_pending s))))"

text \<open>One list of attempts for each Run the pass gets to before its deadline.\<close>

fun reconcile_page :: "(uuid \<Rightarrow> int) \<Rightarrow> (time \<times> uuid) list \<Rightarrow> attempt list list \<Rightarrow> compute \<Rightarrow> nat \<times> nat \<times> compute" where
  "reconcile_page took ((e, r) # due) (as # rest) s =
     (let (done, s1) = finish_on_connection r ''function.fail'' (took r) None as (s\<lparr>cs_cursor := Some (e, r)\<rparr>);
          (completed, attempted, s2) = reconcile_page took due rest s1 in
      ((if done then Suc completed else completed), Suc attempted, s2))"
| "reconcile_page took due rest s = (0, 0, s)"

definition reconcile_invocations :: "time \<Rightarrow> bool \<Rightarrow> (uuid \<Rightarrow> int) \<Rightarrow> attempt list list \<Rightarrow> compute \<Rightarrow> nat \<times> compute" where
  "reconcile_invocations now owned took outcomes s =
     (if \<not> owned then (0, s)
      else (let due = due_page now s; (completed, attempted, s') = reconcile_page took due outcomes s in
        (completed, if attempted = length due \<and> length due < 16 then s'\<lparr>cs_cursor := None\<rparr> else s')))"

end
