(* ===== verification/FunctionProps.thy ===== *)
theory FunctionProps
  imports Invocations
begin

text \<open>What the functions of a Workspace keep: the life of a deployment, and for every invocation one terminal
  event, a token that dies with it and a reconciliation that gets to it.\<close>

section \<open>Frames\<close>

lemma fn_contextE:
  assumes "fn_context now c work s = Inr (x, s')"
  obtains b v where "bind_context now c (cs_server s) = Inr (b, v)" "bound_by c b" "v = lock_workspace (ctx_ws c) (cs_server s)"
    "work b (s\<lparr>cs_server := touch_run now (ctx_run c) v\<rparr>) = Inr (x, s')"
proof (cases "bind_context now c (cs_server s)")
  case (Inl e)
  then show ?thesis using assms by (simp add: fn_context_def)
next
  case (Inr y)
  obtain b v where "y = (b, v)" by fastforce
  then show ?thesis using assms Inr bind_contextD [of now c "cs_server s" b v]
    by (intro that [of b v]) (simp_all add: fn_context_def)
qed

lemma fn_emit_frame [simp]:
  "cs_functions (fn_emit now b k os m s) = cs_functions s" "cs_deployments (fn_emit now b k os m s) = cs_deployments s"
  "cs_invocations (fn_emit now b k os m s) = cs_invocations s" "cs_pending (fn_emit now b k os m s) = cs_pending s"
  "cs_cursor (fn_emit now b k os m s) = cs_cursor s" "query_deployment (fn_emit now b k os m s) = query_deployment s"
  by (simp_all add: fn_emit_def query_deployment_def fun_eq_iff)

lemma server_frame [simp]:
  "query_deployment (s\<lparr>cs_server := v\<rparr>) = query_deployment s" "active_deployment (s\<lparr>cs_server := v\<rparr>) = active_deployment s"
  "find_function (s\<lparr>cs_server := v\<rparr>) = find_function s"
  by (simp_all add: query_deployment_def active_deployment_def find_function_def fun_eq_iff)

section \<open>The life of a deployment\<close>

text \<open>The constraints of the tables: keys, one active deployment a function, and the owner of a function owns
  its deployments.\<close>

definition both_active :: "deployment \<Rightarrow> deployment \<Rightarrow> bool" where
  "both_active d e \<longleftrightarrow> dp_status d = Active \<and> dp_status e = Active \<and> dp_ws d = dp_ws e \<and> dp_name d = dp_name e \<and> dp_id d \<noteq> dp_id e"

definition owned :: "compute \<Rightarrow> deployment \<Rightarrow> bool" where
  "owned s d \<longleftrightarrow> list_ex (\<lambda>f. fn_ws f = dp_ws d \<and> fn_name f = dp_name d \<and> fn_principal f = dp_principal d) (cs_functions s)"

definition deployments_ok :: "compute \<Rightarrow> bool" where
  "deployments_ok s \<longleftrightarrow>
     distinct (map (\<lambda>f. (fn_ws f, fn_name f)) (cs_functions s))
     \<and> distinct (map (\<lambda>d. (dp_ws d, dp_id d)) (cs_deployments s))
     \<and> list_all (\<lambda>d. list_all (\<lambda>e. \<not> both_active d e) (cs_deployments s)) (cs_deployments s)
     \<and> list_all (owned s) (cs_deployments s)"

text \<open>A deployment keeps all but its status, which only moves forward.\<close>

definition status_rank :: "deployment_status \<Rightarrow> nat" where
  "status_rank t = (case t of Registered \<Rightarrow> 0 | Active \<Rightarrow> 1 | Retired \<Rightarrow> 2)"

definition later_deployment :: "deployment \<Rightarrow> deployment \<Rightarrow> bool" where
  "later_deployment d e \<longleftrightarrow> e = d\<lparr>dp_status := dp_status e\<rparr> \<and> status_rank (dp_status d) \<le> status_rank (dp_status e)"

definition deployments_grow :: "compute \<Rightarrow> compute \<Rightarrow> bool" where
  "deployments_grow s s' \<longleftrightarrow> (\<exists>new. cs_functions s' = cs_functions s @ new)
     \<and> list_all2 later_deployment (cs_deployments s) (take (length (cs_deployments s)) (cs_deployments s'))"

lemma later_refl [simp]: "later_deployment d d"
  by (simp add: later_deployment_def)

lemma later_trans: "later_deployment d e \<Longrightarrow> later_deployment e f \<Longrightarrow> later_deployment d f"
  unfolding later_deployment_def by (metis (no_types, lifting) deployment.surjective deployment.update_convs(11) order_trans)

lemma grow_trans: "deployments_grow s1 s2 \<Longrightarrow> deployments_grow s2 s3 \<Longrightarrow> deployments_grow s1 s3"
proof -
  assume a: "deployments_grow s1 s2" "deployments_grow s2 s3"
  let ?d1 = "cs_deployments s1" and ?d2 = "cs_deployments s2" and ?d3 = "cs_deployments s3"
  have l: "list_all2 later_deployment ?d1 (take (length ?d1) ?d2)" "list_all2 later_deployment ?d2 (take (length ?d2) ?d3)"
    using a by (auto simp: deployments_grow_def)
  have "length ?d1 \<le> length ?d2" using list_all2_lengthD [OF l(1)] by simp
  then have "list_all2 later_deployment (take (length ?d1) ?d2) (take (length ?d1) ?d3)"
    using list_all2_takeI [OF l(2), of "length ?d1"] by (simp add: min_def)
  then have "list_all2 later_deployment ?d1 (take (length ?d1) ?d3)"
    using l(1) list_all2_trans [of later_deployment later_deployment later_deployment] later_trans by blast
  then show ?thesis using a by (auto simp: deployments_grow_def)
qed

lemma grow_same: "cs_functions s' = cs_functions s \<Longrightarrow> cs_deployments s' = cs_deployments s \<Longrightarrow> deployments_grow s s'"
  by (simp add: deployments_grow_def list_all2_refl)

lemma ok_same: "deployments_ok s \<Longrightarrow> cs_functions s' = cs_functions s \<Longrightarrow> cs_deployments s' = cs_deployments s \<Longrightarrow> deployments_ok s'"
  by (simp add: deployments_ok_def owned_def [abs_def])

definition kept :: "compute \<Rightarrow> compute \<Rightarrow> bool" where
  "kept s s' \<longleftrightarrow> (deployments_ok s \<longrightarrow> deployments_ok s' \<and> deployments_grow s s')"

lemma kept_same: "cs_functions s' = cs_functions s \<Longrightarrow> cs_deployments s' = cs_deployments s \<Longrightarrow> kept s s'"
  by (simp add: kept_def grow_same ok_same)

lemma kept_trans: "kept s1 s2 \<Longrightarrow> kept s2 s3 \<Longrightarrow> kept s1 s3"
  by (auto simp: kept_def intro: grow_trans)

lemma insert_function_kept:
  assumes "insert_function b name s = Inr s'"
  shows "kept s s' \<and> cs_server s' = cs_server s \<and> cs_deployments s' = cs_deployments s"
proof -
  obtain p where s': "s' = s\<lparr>cs_functions := cs_functions s @ [\<lparr>fn_ws = bc_ws b, fn_name = name, fn_principal = p\<rparr>]\<rparr>"
    "find_function s (bc_ws b) name = None"
    using assms by (auto simp: insert_function_def guard_insert_def split: option.splits)
  then have "\<forall>f\<in>set (cs_functions s). \<not> (fn_ws f = bc_ws b \<and> fn_name f = name)" by (simp add: find_function_def find_None_iff)
  then have "deployments_ok s'" if "deployments_ok s" using that by (auto simp: s'(1) deployments_ok_def owned_def [abs_def] list_all_iff)
  moreover have "deployments_grow s s'" by (simp add: s'(1) deployments_grow_def list_all2_refl)
  ultimately show ?thesis by (simp add: kept_def) (simp add: s'(1))
qed

lemma insert_deployment_kept:
  assumes "insert_deployment now b name i bundle urls config runtime s = Inr s'"
  shows "kept s s' \<and> cs_server s' = cs_server s"
proof -
  obtain p r where s': "s' = s\<lparr>cs_deployments := cs_deployments s @ [\<lparr>dp_ws = bc_ws b, dp_name = name, dp_id = i, dp_bundle = bundle, dp_urls = urls,
         dp_config = config, dp_runtime = runtime, dp_principal = p, dp_run = r, dp_created = now, dp_status = Registered\<rparr>]\<rparr>"
    "query_deployment s (bc_ws b) i = None"
    "list_ex (\<lambda>f. fn_ws f = bc_ws b \<and> fn_name f = name \<and> fn_principal f = p) (cs_functions s)"
    using assms by (auto simp: insert_deployment_def guard_insert_def split: option.splits)
  then have "\<forall>d\<in>set (cs_deployments s). bc_ws b = dp_ws d \<longrightarrow> i \<noteq> dp_id d" by (auto simp: query_deployment_def find_None_iff)
  moreover have "\<not> both_active d e" if "dp_status d = Registered \<or> dp_status e = Registered" for d e using that by (auto simp: both_active_def)
  ultimately have "deployments_ok s'" if "deployments_ok s" using that s'(3)
    by (simp add: s'(1) deployments_ok_def owned_def [abs_def] list_all_iff image_iff)
  moreover have "deployments_grow s s'" by (simp add: s'(1) deployments_grow_def list_all2_refl)
  ultimately show ?thesis by (simp add: kept_def) (simp add: s'(1))
qed

lemma key_unique:
  "deployments_ok s \<Longrightarrow> d \<in> set (cs_deployments s) \<Longrightarrow> e \<in> set (cs_deployments s) \<Longrightarrow> dp_ws d = dp_ws e \<Longrightarrow> dp_id d = dp_id e \<Longrightarrow> d = e"
  unfolding deployments_ok_def distinct_map by (elim conjE, erule inj_onD [of _ _ d e]) simp_all

lemma update_status_kept:
  assumes "update_status b i new s = Inr s'"
  shows "kept s s' \<and> cs_server s' = cs_server s"
proof (cases "query_deployment s (bc_ws b) i")
  case None
  then show ?thesis using assms by (simp add: update_status_def kept_same)
next
  case (Some d)
  let ?f = "\<lambda>x. if dp_ws x = bc_ws b \<and> dp_id x = i then x\<lparr>dp_status := new\<rparr> else x"
  have u: "s' = s\<lparr>cs_deployments := map ?f (cs_deployments s)\<rparr>" "status_may_become (dp_status d) new"
    "new = Active \<Longrightarrow> active_deployment s (bc_ws b) (dp_name d) = None"
    using assms Some by (auto simp: update_status_def)
  have d: "d \<in> set (cs_deployments s)" "dp_ws d = bc_ws b" "dp_id d = i" using Some unfolding query_deployment_def by (auto dest: find_member)
  have idle: "x \<in> set (cs_deployments s) \<Longrightarrow> dp_ws x = dp_ws d \<Longrightarrow> dp_name x = dp_name d \<Longrightarrow> dp_status x \<noteq> Active" if "new = Active" for x
    using u(3) [OF that] d(2) by (auto simp: active_deployment_def find_None_iff)
  have "deployments_ok s' \<and> deployments_grow s s'" if ok: "deployments_ok s"
  proof
    have only: "x = d" if "x \<in> set (cs_deployments s)" "dp_ws x = bc_ws b" "dp_id x = i" for x
      using key_unique [OF ok that(1) d(1)] that d by simp
    have id: "dp_ws (?f x) = dp_ws x" "dp_id (?f x) = dp_id x" "dp_name (?f x) = dp_name x" "dp_principal (?f x) = dp_principal x" for x by auto
    have one: "\<not> both_active (?f x) (?f y)" if a: "x \<in> set (cs_deployments s)" "y \<in> set (cs_deployments s)" for x y
    proof (cases "(dp_ws x = bc_ws b \<and> dp_id x = i) \<or> (dp_ws y = bc_ws b \<and> dp_id y = i)")
      case True
      then show ?thesis using a only [of x] only [of y] idle [of x] idle [of y] d by (auto simp: both_active_def)
    next
      case False
      have "\<not> both_active x y" using a ok by (auto simp: deployments_ok_def list_all_iff)
      then show ?thesis using False by (auto simp: both_active_def)
    qed
    have "list_all (owned s') (cs_deployments s')" using ok by (simp add: deployments_ok_def u(1) owned_def [abs_def] list.pred_map o_def id)
    moreover have "list_all (\<lambda>d. list_all (\<lambda>e. \<not> both_active d e) (cs_deployments s')) (cs_deployments s')"
    proof -
      define f :: "deployment \<Rightarrow> deployment" where "f = ?f"
      have "list_all (\<lambda>x. list_all (\<lambda>y. \<not> both_active (f x) (f y)) (cs_deployments s)) (cs_deployments s)"
        using one by (simp add: f_def list_all_iff)
      then show ?thesis by (simp add: u(1) f_def [symmetric] list.pred_map o_def)
    qed
    moreover have "distinct (map (\<lambda>d. (dp_ws d, dp_id d)) (cs_deployments s'))" using ok by (simp add: deployments_ok_def u(1) o_def id)
    ultimately show "deployments_ok s'" using ok by (simp add: deployments_ok_def u(1))
    have "later_deployment x (?f x)" if "x \<in> set (cs_deployments s)" for x
      using only [OF that] u(2) by (auto simp: later_deployment_def status_may_become_def status_rank_def)
    then show "deployments_grow s s'" by (simp add: u(1) deployments_grow_def list_all2_conv_all_nth)
  qed
  then show ?thesis by (simp add: kept_def u(1))
qed

lemma deploy_kept:
  assumes "deploy_function E c name i bundle us l s = Inr (x, s')"
  shows "kept s s'"
proof -
  obtain urls hash l' artifact where "fn_context (fe_now E) c (deploy_in E name i bundle urls hash l' artifact) s = Inr (x, s')"
    using assms by (auto simp: deploy_function_def split: option.splits)
  then obtain b v where d: "deploy_in E name i bundle urls hash l' artifact b (s\<lparr>cs_server := v\<rparr>) = Inr (x, s')"
    by (rule fn_contextE) blast
  have k0: "kept s (s\<lparr>cs_server := v\<rparr>)" by (rule kept_same) simp_all
  show ?thesis
  proof (cases "query_deployment s (bc_ws b) i")
    case (Some y)
    then have "s' = s\<lparr>cs_server := v\<rparr>" using d by (auto simp: deploy_in_def Let_def split: if_splits)
    then show ?thesis using k0 by simp
  next
    case None
    let ?s0 = "s\<lparr>cs_server := v\<rparr>"
    obtain s1 s2 where s1: "(if find_function s (bc_ws b) name = None then insert_function b name ?s0 else Inr ?s0) = Inr s1"
      and s2: "insert_deployment (fe_now E) b name i bundle urls hash (lc_digest l') s1 = Inr s2"
      and s': "cs_functions s' = cs_functions s2" "cs_deployments s' = cs_deployments s2"
      using d None by (auto simp: deploy_in_def Let_def ebind_Inr_iff split: option.splits)
    have "kept ?s0 s1" using s1 insert_function_kept kept_same [of ?s0 ?s0] by (auto split: if_splits)
    then show ?thesis
      using kept_trans [OF k0] kept_trans [of s s1 s2] kept_trans [of s s2 s'] insert_deployment_kept [OF s2] kept_same [OF s'] by blast
  qed
qed

lemma activate_kept:
  assumes "activate_function E c name i expected l s = Inr (x, s')"
  shows "kept s s'"
proof -
  obtain b v where a: "activate_in E c name i expected l b (s\<lparr>cs_server := v\<rparr>) = Inr (x, s')"
    using assms unfolding activate_function_def guardE_Inr_iff by (blast elim: fn_contextE)
  let ?s0 = "s\<lparr>cs_server := v\<rparr>"
  have k0: "kept s ?s0" by (rule kept_same) simp_all
  consider "s' = ?s0"
    | s1 s2 where "(case map_option dp_id (active_deployment s (ctx_ws c) name) of None \<Rightarrow> Inr ?s0 | Some a \<Rightarrow> update_status b a Retired ?s0) = Inr s1"
      "update_status b i Active s1 = Inr s2" "cs_functions s' = cs_functions s2" "cs_deployments s' = cs_deployments s2"
    using a by (auto simp: activate_in_def Let_def ebind_Inr_iff split: option.splits sum.splits if_splits)
  then show ?thesis
  proof cases
    case 1
    then show ?thesis using k0 by simp
  next
    case 2
    have "kept ?s0 s1" using 2(1) update_status_kept kept_same [of ?s0 ?s0] by (auto split: option.splits)
    then show ?thesis
      using kept_trans [OF k0] kept_trans [of s s1 s2] kept_trans [of s s2 s'] update_status_kept [OF 2(2)] kept_same [OF 2(3,4)] by blast
  qed
qed

section \<open>Invocations\<close>

text \<open>What no other part of the server does: it makes no invocation, gives out no invocation token, records no
  end of an invocation and leaves the Runs of invocations as they are.\<close>

definition is_terminal :: "audit_event \<Rightarrow> bool" where
  "is_terminal e \<longleftrightarrow> ae_kind e \<in> set terminal_kinds"

definition leaves_invocations :: "backplane \<Rightarrow> backplane \<Rightarrow> bool" where
  "leaves_invocations v v' \<longleftrightarrow> bp_deployed v' = bp_deployed v \<and> set (bp_tokens v') \<subseteq> set (bp_tokens v)
     \<and> filter is_terminal (bp_events v') = filter is_terminal (bp_events v)
     \<and> list_all (\<lambda>r. map_of (ct_runs (bp_ctl v')) r = map_of (ct_runs (bp_ctl v)) r) (bp_deployed v)"

lemma leaves_refl [simp]: "leaves_invocations v v"
  by (simp add: leaves_invocations_def list_all_iff)

lemma leaves_trans: "leaves_invocations v1 v2 \<Longrightarrow> leaves_invocations v2 v3 \<Longrightarrow> leaves_invocations v1 v3"
  unfolding leaves_invocations_def by (simp add: list_all_iff) blast

lemma leaves_lock [simp]: "leaves_invocations v (lock_workspace w v)"
  by (simp add: leaves_invocations_def lock_workspace_def list_all_iff)

lemma leaves_touch [simp]: "leaves_invocations v (touch_run now r v)"
  by (cases r) (simp_all add: leaves_invocations_def touch_run_def list_all_iff)

lemma leaves_emit: "kind \<notin> set terminal_kinds \<Longrightarrow> leaves_invocations v (snd (emit now b kind os n m v))"
  by (simp add: leaves_invocations_def emit_def Let_def is_terminal_def list_all_iff)

lemma leaves_rejection [simp]: "leaves_invocations v (record_rejection now c k os r st v)"
  by (simp add: leaves_invocations_def record_rejection_def list_all_iff)

text \<open>A step that is not one of an invocation.\<close>

definition apart :: "compute \<Rightarrow> compute \<Rightarrow> bool" where
  "apart s s' \<longleftrightarrow> leaves_invocations (cs_server s) (cs_server s') \<and> cs_invocations s' = cs_invocations s \<and> cs_pending s' = cs_pending s"

lemma apart_refl [simp]: "apart s s"
  by (simp add: apart_def)

lemma apart_trans: "apart s1 s2 \<Longrightarrow> apart s2 s3 \<Longrightarrow> apart s1 s3"
  unfolding apart_def using leaves_trans by auto

lemma apart_emit: "kind \<notin> set terminal_kinds \<Longrightarrow> apart s (fn_emit now b kind os m s)"
  using leaves_emit [of kind "cs_server s" now b os "Some 1" m] by (simp add: apart_def fn_emit_def)

lemma insert_function_apart: "insert_function b name s = Inr s' \<Longrightarrow> apart s s'"
  by (auto simp: insert_function_def guard_insert_def apart_def split: option.splits)

lemma insert_deployment_apart: "insert_deployment now b name i bundle us h r s = Inr s' \<Longrightarrow> apart s s'"
  by (auto simp: insert_deployment_def guard_insert_def apart_def split: option.splits)

lemma update_status_apart: "update_status b i new s = Inr s' \<Longrightarrow> apart s s'"
  by (auto simp: update_status_def apart_def split: option.splits)

lemma apart_bound: "v = lock_workspace w (cs_server s) \<Longrightarrow> apart s (s\<lparr>cs_server := touch_run now r v\<rparr>)"
  using leaves_trans [OF leaves_lock leaves_touch] by (simp add: apart_def)

lemma not_terminal: "''function.deploy'' \<notin> set terminal_kinds" "''function.activate'' \<notin> set terminal_kinds" "''function.invoke'' \<notin> set terminal_kinds"
  by (simp_all add: terminal_kinds_def)

lemma deploy_apart:
  assumes "deploy_function E c name i bundle us l s = Inr (x, s')"
  shows "apart s s'"
proof -
  obtain urls hash l' artifact where "fn_context (fe_now E) c (deploy_in E name i bundle urls hash l' artifact) s = Inr (x, s')"
    using assms by (auto simp: deploy_function_def split: option.splits)
  then obtain b v where v: "v = lock_workspace (ctx_ws c) (cs_server s)"
    and d: "deploy_in E name i bundle urls hash l' artifact b (s\<lparr>cs_server := touch_run (fe_now E) (ctx_run c) v\<rparr>) = Inr (x, s')"
    by (rule fn_contextE)
  let ?s0 = "s\<lparr>cs_server := touch_run (fe_now E) (ctx_run c) v\<rparr>"
  note a0 = apart_bound [OF v, of "fe_now E" "ctx_run c"]
  show ?thesis
  proof (cases "query_deployment s (bc_ws b) i")
    case (Some y)
    then have "s' = ?s0" using d by (auto simp: deploy_in_def Let_def split: if_splits)
    then show ?thesis using a0 by simp
  next
    case None
    obtain s1 s2 m where s1: "(if find_function s (bc_ws b) name = None then insert_function b name ?s0 else Inr ?s0) = Inr s1"
      and s2: "insert_deployment (fe_now E) b name i bundle urls hash (lc_digest l') s1 = Inr s2"
      and s': "s' = fn_emit (fe_now E) b ''function.deploy'' [name, uuid_text i] m s2"
      using d None by (auto simp: deploy_in_def Let_def ebind_Inr_iff split: option.splits)
    have "apart ?s0 s1" using s1 insert_function_apart by (auto split: if_splits)
    then show ?thesis
      using apart_trans [OF a0] apart_trans [of s s1 s2] apart_trans [of s s2 s'] insert_deployment_apart [OF s2] apart_emit [OF not_terminal(1)] s' by metis
  qed
qed

lemma activate_apart:
  assumes "activate_function E c name i expected l s = Inr (x, s')"
  shows "apart s s'"
proof -
  obtain b v where v: "v = lock_workspace (ctx_ws c) (cs_server s)"
    and a: "activate_in E c name i expected l b (s\<lparr>cs_server := touch_run (fe_now E) (ctx_run c) v\<rparr>) = Inr (x, s')"
    using assms unfolding activate_function_def guardE_Inr_iff by (blast elim: fn_contextE)
  let ?s0 = "s\<lparr>cs_server := touch_run (fe_now E) (ctx_run c) v\<rparr>"
  note a0 = apart_bound [OF v, of "fe_now E" "ctx_run c"]
  consider "s' = ?s0"
    | s1 s2 m where "(case map_option dp_id (active_deployment s (ctx_ws c) name) of None \<Rightarrow> Inr ?s0 | Some a \<Rightarrow> update_status b a Retired ?s0) = Inr s1"
      "update_status b i Active s1 = Inr s2" "s' = fn_emit (fe_now E) b ''function.activate'' [name, uuid_text i] m s2"
    using a by (auto simp: activate_in_def Let_def ebind_Inr_iff split: option.splits sum.splits if_splits)
  then show ?thesis
  proof cases
    case 1
    then show ?thesis using a0 by simp
  next
    case 2
    have "apart ?s0 s1" using 2(1) update_status_apart by (auto split: option.splits)
    then show ?thesis
      using apart_trans [OF a0] apart_trans [of s s1 s2] apart_trans [of s s2 s'] update_status_apart [OF 2(2)] apart_emit [OF not_terminal(2)] 2(3) by metis
  qed
qed

text \<open>An invocation is open until its terminal event is recorded.\<close>

definition run_open :: "compute \<Rightarrow> uuid \<Rightarrow> bool" where
  "run_open s r \<longleftrightarrow> r \<in> set (map fst (cs_pending s))"

definition of_deployment :: "compute \<Rightarrow> invocation \<Rightarrow> deployment \<Rightarrow> bool" where
  "of_deployment s i d \<longleftrightarrow> d \<in> set (cs_deployments s) \<and> dp_ws d = iv_ws i \<and> dp_id d = iv_deployment i
     \<and> map_of (ct_runs (bp_ctl (cs_server s))) (iv_run i) = Some (iv_ws i, dp_principal d)"

text \<open>One terminal event, in the Workspace of the invocation, when it is closed, and none before.\<close>

definition ends_once :: "compute \<Rightarrow> invocation \<Rightarrow> bool" where
  "ends_once s i \<longleftrightarrow> map ae_ws (terminal_events (cs_server s) (iv_run i)) = (if run_open s (iv_run i) then [] else [iv_ws i])"

definition token_open :: "compute \<Rightarrow> invocation_token \<Rightarrow> bool" where
  "token_open s t \<longleftrightarrow> (tk_run t, tk_expires t) \<in> set (cs_pending s)"

definition invocations_ok :: "compute \<Rightarrow> bool" where
  "invocations_ok s \<longleftrightarrow>
     distinct (map iv_run (cs_invocations s)) \<and> bp_deployed (cs_server s) = map iv_run (cs_invocations s)
     \<and> (\<forall>i\<in>set (cs_invocations s). Ex (of_deployment s i)) \<and> (\<forall>i\<in>set (cs_invocations s). ends_once s i)
     \<and> distinct (map fst (cs_pending s)) \<and> set (map fst (cs_pending s)) \<subseteq> set (map iv_run (cs_invocations s))
     \<and> (\<forall>t\<in>set (bp_tokens (cs_server s)). token_open s t)
     \<and> (\<forall>e\<in>set (bp_events (cs_server s)). is_terminal e \<longrightarrow> (\<exists>i\<in>set (cs_invocations s). ae_run e = Some (iv_run i)))"

lemma terminal_filter: "terminal_events v r = filter (\<lambda>e. ae_run e = Some r) (filter is_terminal (bp_events v))"
  by (simp add: terminal_events_def is_terminal_def filter_filter conj_commute)

lemma leaves_terminal: "leaves_invocations v v' \<Longrightarrow> terminal_events v' r = terminal_events v r"
  by (simp add: terminal_filter leaves_invocations_def)

lemma later_of_deployment:
  assumes "of_deployment s i d" "deployments_grow s s'"
    "map_of (ct_runs (bp_ctl (cs_server s'))) (iv_run i) = map_of (ct_runs (bp_ctl (cs_server s))) (iv_run i)"
  shows "Ex (of_deployment s' i)"
proof -
  have l: "list_all2 later_deployment (cs_deployments s) (take (length (cs_deployments s)) (cs_deployments s'))"
    using assms(2) by (simp add: deployments_grow_def)
  obtain k where k: "k < length (cs_deployments s)" "cs_deployments s ! k = d"
    using assms(1) by (auto simp: of_deployment_def in_set_conv_nth)
  let ?e = "take (length (cs_deployments s)) (cs_deployments s') ! k"
  have e: "later_deployment d ?e" "?e \<in> set (cs_deployments s')"
    using list_all2_nthD [OF l k(1)] k list_all2_lengthD [OF l] by (auto simp: in_set_conv_nth intro!: exI [of _ k])
  then have "dp_ws ?e = dp_ws d" "dp_id ?e = dp_id d" "dp_principal ?e = dp_principal d"
    unfolding later_deployment_def by (metis deployment.select_convs deployment.surjective deployment.update_convs(11))+
  then have "of_deployment s' i ?e" using e(2) assms(1,3) by (simp add: of_deployment_def)
  then show ?thesis by blast
qed

lemma apart_ok:
  assumes "apart s s'" "deployments_grow s s'" "invocations_ok s"
  shows "invocations_ok s'"
proof -
  have l: "leaves_invocations (cs_server s) (cs_server s')" "cs_invocations s' = cs_invocations s" "cs_pending s' = cs_pending s"
    using assms(1) by (auto simp: apart_def)
  have "Ex (of_deployment s' i)" if "i \<in> set (cs_invocations s)" for i
  proof -
    have "iv_run i \<in> set (bp_deployed (cs_server s))" using that assms(3) by (auto simp: invocations_ok_def)
    then have "map_of (ct_runs (bp_ctl (cs_server s'))) (iv_run i) = map_of (ct_runs (bp_ctl (cs_server s))) (iv_run i)"
      using l(1) by (simp add: leaves_invocations_def list_all_iff)
    then show ?thesis using that assms(3) later_of_deployment [OF _ assms(2)] by (auto simp: invocations_ok_def)
  qed
  moreover have "ends_once s' i" if "i \<in> set (cs_invocations s)" for i
    using that assms(3) l by (simp add: invocations_ok_def ends_once_def run_open_def leaves_terminal)
  moreover have "\<exists>i\<in>set (cs_invocations s). ae_run e = Some (iv_run i)" if "e \<in> set (bp_events (cs_server s'))" "is_terminal e" for e
  proof -
    have "e \<in> set (filter is_terminal (bp_events (cs_server s')))" using that by simp
    then have "e \<in> set (filter is_terminal (bp_events (cs_server s)))" using l(1) by (simp add: leaves_invocations_def del: set_filter)
    then show ?thesis using assms(3) by (simp add: invocations_ok_def)
  qed
  moreover have "token_open s' t" if "t \<in> set (bp_tokens (cs_server s'))" for t
    using that assms(3) l by (auto simp: invocations_ok_def token_open_def leaves_invocations_def)
  ultimately show ?thesis using assms(3) l by (simp add: invocations_ok_def leaves_invocations_def)
qed

text \<open>Beginning one.\<close>

lemma sweep_subset: "set (bp_tokens (sweep_invocation_tokens now w v)) \<subseteq> set (bp_tokens v)"
  by (auto simp: sweep_invocation_tokens_def Let_def)

lemma leaves_sweep: "leaves_invocations v (sweep_invocation_tokens now w v)"
  by (auto simp: leaves_invocations_def sweep_invocation_tokens_def Let_def list_all_iff)

lemma create_invocation_parts:
  assumes "create_invocation now b i hash timeout r s = Inr ((r', e), s')"
  obtains d parent where "r' = r" "e = now + timeout * 1000" "1 \<le> timeout" "length hash = 32" "d \<in> set (cs_deployments s)" "dp_ws d = bc_ws b" "dp_id d = i" "dp_status d = Active"
    "live_function_key (cs_server s) (bc_ws b) (dp_principal d)" "map_of (ct_runs (bp_ctl (cs_server s))) r = None"
    "s' = s\<lparr>cs_server := (cs_server s)\<lparr>bp_ctl := (bp_ctl (cs_server s))\<lparr>ct_runs := ct_runs (bp_ctl (cs_server s)) @ [(r, bc_ws b, dp_principal d)]\<rparr>,
        bp_deployed := bp_deployed (cs_server s) @ [r],
        bp_tokens := bp_tokens (cs_server s) @ [\<lparr>tk_hash = hash, tk_run = r, tk_expires = e, tk_epoch = Option.bind (ct_gate (bp_ctl (cs_server s))) rg_epoch\<rparr>]\<rparr>,
      cs_invocations := cs_invocations s @ [\<lparr>iv_ws = bc_ws b, iv_run = r, iv_deployment = dp_id d, iv_parent = parent\<rparr>],
      cs_pending := cs_pending s @ [(r, e)]\<rparr>"
proof -
  let ?P = "\<lambda>d. dp_ws d = bc_ws b \<and> dp_id d = i \<and> dp_status d = Active"
  obtain d where d: "find ?P (cs_deployments s) = Some d" using assms
    by (auto simp: create_invocation_def Let_def ebind_Inr_iff split: option.splits)
  then have "d \<in> set (cs_deployments s)" "?P d" using find_member by fast+
  moreover obtain parent where "bc_run b = Some parent" using assms
    by (auto simp: create_invocation_def Let_def split: option.splits)
  ultimately show ?thesis using assms d
    by (intro that [of d parent]) (auto simp: create_invocation_def Let_def ebind_Inr_iff simp del: not_None_eq split: option.splits)
qed

lemma create_invocation_ok:
  assumes "create_invocation now b i hash timeout r s = Inr ((r', e), s')" "invocations_ok s"
  shows "invocations_ok s' \<and> kept s s'"
proof -
  obtain d parent where c: "e = now + timeout * 1000" "d \<in> set (cs_deployments s)" "dp_ws d = bc_ws b"
    "map_of (ct_runs (bp_ctl (cs_server s))) r = None"
    "s' = s\<lparr>cs_server := (cs_server s)\<lparr>bp_ctl := (bp_ctl (cs_server s))\<lparr>ct_runs := ct_runs (bp_ctl (cs_server s)) @ [(r, bc_ws b, dp_principal d)]\<rparr>,
        bp_deployed := bp_deployed (cs_server s) @ [r],
        bp_tokens := bp_tokens (cs_server s) @ [\<lparr>tk_hash = hash, tk_run = r, tk_expires = e, tk_epoch = Option.bind (ct_gate (bp_ctl (cs_server s))) rg_epoch\<rparr>]\<rparr>,
      cs_invocations := cs_invocations s @ [\<lparr>iv_ws = bc_ws b, iv_run = r, iv_deployment = dp_id d, iv_parent = parent\<rparr>],
      cs_pending := cs_pending s @ [(r, e)]\<rparr>"
    by (rule create_invocation_parts [OF assms(1)]) blast
  let ?i = "\<lparr>iv_ws = bc_ws b, iv_run = r, iv_deployment = dp_id d, iv_parent = parent\<rparr>"
  have fresh: "iv_run j \<noteq> r" if "j \<in> set (cs_invocations s)" for j
    using that assms(2) c(4) by (auto simp: invocations_ok_def of_deployment_def)
  have runs: "map_of (ct_runs (bp_ctl (cs_server s'))) q = (case map_of (ct_runs (bp_ctl (cs_server s))) q of None \<Rightarrow> if q = r then Some (bc_ws b, dp_principal d) else None | Some y \<Rightarrow> Some y)" for q
    by (simp add: c(5) map_add_def split: option.splits)
  have silent: "terminal_events (cs_server s) r = []"
    using assms(2) fresh by (auto simp: terminal_filter invocations_ok_def filter_empty_conv)
  have events: "terminal_events (cs_server s') q = terminal_events (cs_server s) q" for q by (simp add: terminal_events_def c(5))
  have "Ex (of_deployment s' j)" if "j \<in> set (cs_invocations s')" for j
  proof (cases "j = ?i")
    case True
    then have "of_deployment s' j d" using c(2,3,4) by (simp add: of_deployment_def c(5) map_add_def)
    then show ?thesis by blast
  next
    case False
    then have "j \<in> set (cs_invocations s)" using that by (simp add: c(5))
    then obtain d' where "of_deployment s j d'" using assms(2) by (auto simp: invocations_ok_def)
    then have "of_deployment s' j d'" using runs [of "iv_run j"] by (simp add: of_deployment_def c(5))
    then show ?thesis by blast
  qed
  moreover have "ends_once s' j" if "j \<in> set (cs_invocations s')" for j
  proof (cases "j = ?i")
    case True
    then show ?thesis using silent events [of r] by (simp add: ends_once_def run_open_def c(5))
  next
    case False
    then have j: "j \<in> set (cs_invocations s)" using that by (simp add: c(5))
    then have "ends_once s j" using assms(2) by (auto simp: invocations_ok_def)
    then show ?thesis using fresh [OF j] events [of "iv_run j"] by (simp add: ends_once_def run_open_def c(5))
  qed
  moreover have "r \<notin> set (map iv_run (cs_invocations s))" using fresh by auto
  ultimately have "invocations_ok s'" using assms(2) by (auto simp: invocations_ok_def c(5) token_open_def)
  then show ?thesis by (simp add: c(5) kept_same)
qed

lemma begin_ok:
  assumes "begin_invocation digest now c name asked token r l s = Inr (x, s')" "invocations_ok s"
  shows "invocations_ok s' \<and> kept s s'"
proof -
  obtain artifact where "fn_context now c (begin_in now name (invocation_timeout asked l) (digest token) r l artifact) s = Inr (x, s')"
    using assms(1) by (auto simp: begin_invocation_def Let_def split: option.splits)
  then obtain b v where v: "v = lock_workspace (ctx_ws c) (cs_server s)"
    and i: "begin_in now name (invocation_timeout asked l) (digest token) r l artifact b (s\<lparr>cs_server := touch_run now (ctx_run c) v\<rparr>) = Inr (x, s')"
    by (rule fn_contextE)
  let ?s0 = "s\<lparr>cs_server := touch_run now (ctx_run c) v\<rparr>"
  have ok0: "invocations_ok ?s0" by (rule apart_ok [OF apart_bound [OF v] grow_same assms(2)]) simp_all
  obtain a child e s1 m where s1: "create_invocation now b a (digest token) (invocation_timeout asked l) r ?s0 = Inr ((child, e), s1)"
    and s': "s' = (let s2 = fn_emit now b ''function.invoke'' [name, uuid_text a, uuid_text child] m s1 in s2\<lparr>cs_server := sweep_invocation_tokens now (bc_ws b) (cs_server s2)\<rparr>)"
    using i by (auto simp: begin_in_def Let_def ebind_Inr_iff split: option.splits)
  note ok1 = create_invocation_ok [OF s1 ok0]
  have "apart s1 s'" unfolding s' Let_def
    using apart_emit [OF not_terminal(3), of s1 now b "[name, uuid_text a, uuid_text child]" m] leaves_trans [OF _ leaves_sweep]
    by (auto simp: apart_def)
  moreover have k: "cs_functions s' = cs_functions s1" "cs_deployments s' = cs_deployments s1" by (simp_all add: s' Let_def)
  ultimately have "invocations_ok s'" using apart_ok [OF _ grow_same] ok1 by blast
  moreover have "kept s s'"
    using kept_trans [of s ?s0 s1] kept_trans [of s s1 s'] kept_same [of ?s0 s] kept_same [OF k] ok1 by simp
  ultimately show ?thesis by blast
qed

text \<open>Finishing one.\<close>

lemma apart_drop: "apart s (drop_token r s)"
  by (auto simp: apart_def drop_token_def leaves_invocations_def list_all_iff)

lemma drop_frame [simp]:
  "cs_functions (drop_token r s) = cs_functions s" "cs_deployments (drop_token r s) = cs_deployments s"
  "cs_invocations (drop_token r s) = cs_invocations s" "cs_pending (drop_token r s) = cs_pending s"
  "bp_events (cs_server (drop_token r s)) = bp_events (cs_server s)" "bp_deployed (cs_server (drop_token r s)) = bp_deployed (cs_server s)"
  "bp_ctl (cs_server (drop_token r s)) = bp_ctl (cs_server s)" "cs_cursor (drop_token r s) = cs_cursor s"
  "bp_tokens (cs_server (drop_token r s)) = filter (\<lambda>t. tk_run t \<noteq> r) (bp_tokens (cs_server s))"
  by (simp_all add: drop_token_def)

lemma lock_frame [simp]: "bp_tokens (lock_workspace w v) = bp_tokens v" "bp_deployed (lock_workspace w v) = bp_deployed v"
  by (simp_all add: lock_workspace_def)

lemma record_terminal_frame [simp]:
  "bp_deployed (record_terminal now i p k d st v) = bp_deployed v" "bp_tokens (record_terminal now i p k d st v) = bp_tokens v"
  "bp_ctl (record_terminal now i p k d st v) = bp_ctl v"
  by (simp_all add: record_terminal_def emit_def Let_def)

lemma record_terminal_events:
  assumes "kind \<in> set terminal_kinds"
  obtains "has_terminal v (iv_ws i) (iv_run i)" "bp_events (record_terminal now i p kind d st v) = bp_events v"
  | e where "\<not> has_terminal v (iv_ws i) (iv_run i)" "bp_events (record_terminal now i p kind d st v) = bp_events v @ [e]"
    "is_terminal e" "ae_ws e = iv_ws i" "ae_run e = Some (iv_run i)"
  using assms by (cases "has_terminal v (iv_ws i) (iv_run i)") (auto simp: record_terminal_def emit_def Let_def is_terminal_def)

lemma has_terminal_map: "has_terminal v w r \<longleftrightarrow> w \<in> set (map ae_ws (terminal_events v r))"
  by (auto simp: has_terminal_def list_ex_iff)

definition finished :: "time \<Rightarrow> invocation \<Rightarrow> uuid \<Rightarrow> string \<Rightarrow> int \<Rightarrow> nat option \<Rightarrow> compute \<Rightarrow> compute" where
  "finished now i p kind duration status s =
     drop_token (iv_run i) (s\<lparr>cs_server := record_terminal now i p kind duration status (lock_workspace (iv_ws i) (cs_server s)),
       cs_pending := filter (\<lambda>x. fst x \<noteq> iv_run i) (cs_pending s)\<rparr>)"

lemma finish_cases:
  assumes "finish_invocation now contended r kind duration status s = Inr s'" "invocations_ok s"
  obtains i p where "i \<in> set (cs_invocations s)" "iv_run i = r" "kind \<in> set terminal_kinds" "s' = (if contended then drop_token r s else finished now i p kind duration status s)"
proof -
  obtain i w p where i: "find_invocation s r = Some i" "map_of (ct_runs (bp_ctl (cs_server s))) r = Some (w, p)" "kind \<in> set terminal_kinds"
    "s' = drop_token r (if contended then s
             else s\<lparr>cs_server := record_terminal now i p kind duration status (lock_workspace w (cs_server s)),
                    cs_pending := filter (\<lambda>x. fst x \<noteq> r) (cs_pending s)\<rparr>)"
    using assms(1) unfolding finish_invocation_def by (auto split: option.splits prod.splits)
  have m: "i \<in> set (cs_invocations s)" "iv_run i = r" using i(1) unfolding find_invocation_def by (auto dest: find_member)
  then obtain d where "of_deployment s i d" using assms(2) by (auto simp: invocations_ok_def)
  then have "w = iv_ws i" using i(2) m(2) by (simp add: of_deployment_def)
  then show ?thesis using that [OF m i(3), of p] i(4) m(2) by (cases contended) (simp_all add: finished_def)
qed

lemma finished_ok:
  assumes "i \<in> set (cs_invocations s)" "kind \<in> set terminal_kinds" "invocations_ok s"
  shows "invocations_ok (finished now i p kind duration status s)"
proof -
  let ?s = "finished now i p kind duration status s"
  have pending: "run_open ?s q \<longleftrightarrow> run_open s q \<and> q \<noteq> iv_run i" for q by (auto simp: finished_def run_open_def)
  have other: "iv_run j = iv_run i \<longleftrightarrow> j = i" if "j \<in> set (cs_invocations s)" for j
    using that assms(1,3) by (auto simp: invocations_ok_def distinct_map inj_on_def)
  have here: "ends_once s i" using assms(1,3) by (auto simp: invocations_ok_def)
  have locked: "terminal_events (lock_workspace (iv_ws i) (cs_server s)) q = terminal_events (cs_server s) q" for q
    by (rule leaves_terminal) simp
  have ev: "bp_events (cs_server ?s) = bp_events (record_terminal now i p kind duration status (lock_workspace (iv_ws i) (cs_server s)))"
    by (simp add: finished_def)
  have events: "map ae_ws (terminal_events (cs_server ?s) (iv_run i)) = [iv_ws i]
    \<and> (\<forall>q. q \<noteq> iv_run i \<longrightarrow> terminal_events (cs_server ?s) q = terminal_events (cs_server s) q)
    \<and> (\<forall>e\<in>set (bp_events (cs_server ?s)). is_terminal e \<longrightarrow> e \<in> set (bp_events (cs_server s)) \<or> ae_run e = Some (iv_run i))"
  proof (cases rule: record_terminal_events [OF assms(2), of "lock_workspace (iv_ws i) (cs_server s)" i now p duration status])
    case 1
    have e: "bp_events (cs_server ?s) = bp_events (cs_server s)" using ev 1(2) by simp
    have "map ae_ws (terminal_events (cs_server s) (iv_run i)) = [iv_ws i]"
      using 1(1) here by (auto simp: has_terminal_map locked ends_once_def split: if_splits)
    then show ?thesis by (simp add: terminal_events_def e)
  next
    case (2 e)
    have ee: "bp_events (cs_server ?s) = bp_events (cs_server s) @ [e]" using ev 2(2) by simp
    have "map ae_ws (terminal_events (cs_server s) (iv_run i)) = []"
      using 2(1) here by (auto simp: has_terminal_map locked ends_once_def split: if_splits)
    then show ?thesis using 2(3,4,5) by (auto simp: terminal_events_def ee is_terminal_def)
  qed
  have "Ex (of_deployment ?s j)" if "j \<in> set (cs_invocations s)" for j
    using that assms(3) by (simp add: invocations_ok_def of_deployment_def [abs_def] finished_def)
  moreover have "ends_once ?s j" if "j \<in> set (cs_invocations s)" for j
  proof (cases "j = i")
    case True
    then show ?thesis using events pending by (simp add: ends_once_def)
  next
    case False
    have "ends_once s j" using that assms(3) by (auto simp: invocations_ok_def)
    then show ?thesis using False other [OF that] events pending by (simp add: ends_once_def)
  qed
  moreover have "token_open ?s t" if "t \<in> set (bp_tokens (cs_server ?s))" for t
    using that assms(3) by (auto simp: invocations_ok_def finished_def token_open_def)
  moreover have "\<exists>j\<in>set (cs_invocations s). ae_run e = Some (iv_run j)" if "e \<in> set (bp_events (cs_server ?s))" "is_terminal e" for e
    using that events assms(1,3) unfolding invocations_ok_def by blast
  moreover have "distinct (map fst (cs_pending ?s))" "set (map fst (cs_pending ?s)) \<subseteq> set (map iv_run (cs_invocations s))"
    using assms(3) by (auto simp: invocations_ok_def finished_def distinct_map_filter)
  moreover have "cs_invocations ?s = cs_invocations s" "bp_deployed (cs_server ?s) = bp_deployed (cs_server s)"
    by (simp_all add: finished_def lock_workspace_def)
  ultimately show ?thesis using assms(3) unfolding invocations_ok_def by simp
qed

lemma fn_finish_ok:
  assumes "finish_invocation now contended r kind duration status s = Inr s'" "invocations_ok s"
  shows "invocations_ok s'" "kept s s'" "\<forall>t\<in>set (bp_tokens (cs_server s')). tk_run t \<noteq> r" "\<not> contended \<Longrightarrow> \<not> run_open s' r"
proof -
  obtain i p where i: "i \<in> set (cs_invocations s)" "iv_run i = r" "kind \<in> set terminal_kinds"
    "s' = (if contended then drop_token r s else finished now i p kind duration status s)"
    by (rule finish_cases [OF assms])
  have d: "invocations_ok (drop_token r s)" by (rule apart_ok [OF apart_drop grow_same assms(2)]) simp_all
  show "invocations_ok s'" using i(4) finished_ok [OF i(1,3) assms(2)] d by simp
  show "kept s s'" by (rule kept_same) (simp_all add: i(4) finished_def)
  show "\<forall>t\<in>set (bp_tokens (cs_server s')). tk_run t \<noteq> r" using i(2,4) by (simp add: finished_def)
  show "\<not> contended \<Longrightarrow> \<not> run_open s' r" using i(2,4) by (auto simp: finished_def run_open_def)
qed

lemma attempts_ok: "finish_attempts n r kind duration status as s = (ok, s') \<Longrightarrow> invocations_ok s \<Longrightarrow> invocations_ok s' \<and> kept s s'"
proof (induction n r kind duration status as s arbitrary: ok s' rule: finish_attempts.induct)
  case (5 n r kind duration status now contended as s)
  show ?case
  proof (cases "finish_invocation now contended r kind duration status s")
    case (Inl e)
    then show ?thesis using 5 by (simp add: kept_same)
  next
    case (Inr s1)
    note f = fn_finish_ok(1,2) [OF Inr 5(3)]
    show ?thesis
    proof (cases "finish_complete r s1")
      case True
      then show ?thesis using 5(2) Inr f by simp
    next
      case False
      then have "finish_attempts n r kind duration status as s1 = (ok, s')" using 5(2) Inr by simp
      from 5(1) [OF Inr False this f(1)] show ?thesis using kept_trans [OF f(2)] by blast
    qed
  qed
qed (auto simp: kept_same split: if_splits sum.splits dest: fn_finish_ok(1,2))

lemma connection_ok: "finish_on_connection r kind duration status as s = (ok, s') \<Longrightarrow> invocations_ok s \<Longrightarrow> invocations_ok s' \<and> kept s s'"
  unfolding finish_on_connection_def by (rule attempts_ok)

lemma end_ok: "end_invocation parse r x late duration as s = (res, s') \<Longrightarrow> invocations_ok s \<Longrightarrow> invocations_ok s' \<and> kept s s'"
  by (auto simp: end_invocation_def split: prod.splits dest: connection_ok)

lemma cursor_ok [simp]: "invocations_ok (s\<lparr>cs_cursor := c\<rparr>) = invocations_ok s"
  by (simp add: invocations_ok_def of_deployment_def [abs_def] ends_once_def run_open_def token_open_def)

lemma cursor_kept [simp]: "kept s (s\<lparr>cs_cursor := c\<rparr>)"
  by (simp add: kept_same)

lemma page_ok: "reconcile_page took due rest s = (n, m, s') \<Longrightarrow> invocations_ok s \<Longrightarrow> invocations_ok s' \<and> kept s s'"
proof (induction took due rest s arbitrary: n m s' rule: reconcile_page.induct)
  case (1 took e r due as rest s)
  obtain ok s1 where f: "finish_on_connection r ''function.fail'' (took r) None as (s\<lparr>cs_cursor := Some (e, r)\<rparr>) = (ok, s1)" by fastforce
  obtain c a s2 where p: "reconcile_page took due rest s1 = (c, a, s2)" using prod_cases3 by blast
  have "invocations_ok s1 \<and> kept s s1"
    using connection_ok [OF f] 1(3) kept_trans [of s "s\<lparr>cs_cursor := Some (e, r)\<rparr>" s1] by simp
  moreover have "s' = s2" using 1(2) f p by simp
  ultimately show ?case using 1(1) [OF f [symmetric] refl p] kept_trans [of s s1 s2] by blast
qed (simp_all add: kept_same)

lemma fn_reconcile_ok: "reconcile_invocations now mine took outs s = (n, s') \<Longrightarrow> invocations_ok s \<Longrightarrow> invocations_ok s' \<and> kept s s'"
  by (auto simp: reconcile_invocations_def Let_def kept_same split: if_splits prod.splits dest: page_ok intro: kept_trans [OF _ cursor_kept])

section \<open>Every course of the server\<close>

text \<open>A server without invocations.\<close>

definition new_compute :: "backplane \<Rightarrow> compute" where
  "new_compute v = \<lparr>cs_server = v, cs_functions = [], cs_deployments = [], cs_invocations = [], cs_pending = [], cs_cursor = None\<rparr>"

definition no_invocations :: "backplane \<Rightarrow> bool" where
  "no_invocations v \<longleftrightarrow> bp_deployed v = [] \<and> bp_tokens v = [] \<and> \<not> list_ex is_terminal (bp_events v)"

text \<open>Any sequence of deployments, activations, the two halves of invocations, reconciliations, restarts and
  whatever the rest of the server does.\<close>

inductive compute_run :: "compute \<Rightarrow> compute \<Rightarrow> bool" for s0 where
  start: "compute_run s0 s0"
| deploy: "compute_run s0 s \<Longrightarrow> compute_run s0 (snd (deploy_handler E c name i bundle us l s))"
| activate: "compute_run s0 s \<Longrightarrow> compute_run s0 (snd (activate_handler E c name i expected l s))"
| dispatch: "compute_run s0 s \<Longrightarrow> begin_invocation digest now c name asked token r launcher s = Inr (x, s') \<Longrightarrow> compute_run s0 s'"
| failed: "compute_run s0 s \<Longrightarrow> compute_run s0 (snd (invoke_failure now c name m s))"
| finish: "compute_run s0 s \<Longrightarrow> compute_run s0 (snd (end_invocation parse r exec late duration as s))"
| reconcile: "compute_run s0 s \<Longrightarrow> compute_run s0 (snd (reconcile_invocations now mine took outs s))"
| restart: "compute_run s0 s \<Longrightarrow> compute_run s0 (s\<lparr>cs_cursor := None\<rparr>)"
| elsewhere: "compute_run s0 s \<Longrightarrow> leaves_invocations (cs_server s) v \<Longrightarrow> compute_run s0 (s\<lparr>cs_server := v\<rparr>)"

lemma reply_ok:
  assumes "fn_reply now c kind os s r = (x, s')" "\<And>y t. r = Inr (y, t) \<Longrightarrow> apart s t \<and> kept s t"
  shows "apart s s' \<and> kept s s'"
proof (cases r)
  case (Inl e)
  then have "s' = snd (compute_error now c kind os e s)" using assms(1) by (simp add: fn_reply_def map_prod_def split: prod.splits)
  then show ?thesis by (simp add: compute_error_def Let_def apart_def kept_same)
next
  case (Inr y)
  then show ?thesis using assms by (cases y) (auto simp: fn_reply_def)
qed

lemma deploy_handler_ok: "apart s (snd (deploy_handler E c name i bundle us l s)) \<and> kept s (snd (deploy_handler E c name i bundle us l s))"
proof (cases "fn_reply (fe_now E) c ''function.deploy'' [name, uuid_text i] s (deploy_function E c name i bundle us l s)")
  case (Pair x t)
  have "apart s t \<and> kept s t" by (rule reply_ok [OF Pair]) (auto dest: deploy_apart deploy_kept)
  then show ?thesis using Pair by (auto simp: deploy_handler_def split: sum.splits)
qed

lemma activate_handler_ok: "apart s (snd (activate_handler E c name i expected l s)) \<and> kept s (snd (activate_handler E c name i expected l s))"
proof (cases l)
  case None
  then show ?thesis by (simp add: activate_handler_def kept_same)
next
  case (Some l')
  obtain x t where t: "fn_reply (fe_now E) c ''function.activate'' [name, uuid_text i] s (activate_function E c name i expected l' s) = (x, t)" by fastforce
  have "apart s t \<and> kept s t" by (rule reply_ok [OF t]) (auto dest: activate_apart activate_kept)
  then show ?thesis using t Some by (simp add: activate_handler_def)
qed

definition compute_ok :: "compute \<Rightarrow> bool" where
  "compute_ok s \<longleftrightarrow> deployments_ok s \<and> invocations_ok s"

lemma kept_ok: "compute_ok s \<Longrightarrow> kept s s' \<Longrightarrow> invocations_ok s' \<Longrightarrow> compute_ok s' \<and> deployments_grow s s'"
  by (simp add: compute_ok_def kept_def)

lemma apart_compute: "compute_ok s \<Longrightarrow> kept s s' \<Longrightarrow> apart s s' \<Longrightarrow> compute_ok s' \<and> deployments_grow s s'"
  using apart_ok [of s s'] by (simp add: compute_ok_def kept_def)

lemma compute_run_ok: "compute_run s0 s \<Longrightarrow> compute_ok s0 \<Longrightarrow> compute_ok s \<and> deployments_grow s0 s"
proof (induction rule: compute_run.induct)
  case start
  then show ?case by (simp add: grow_same)
next
  case (deploy s E c name i content us l)
  then show ?case using apart_compute [of s] deploy_handler_ok grow_trans by metis
next
  case (activate s E c name i expected l)
  then show ?case using apart_compute [of s] activate_handler_ok grow_trans by metis
next
  case (dispatch s digest now c name asked token r l x s')
  then show ?case using begin_ok [OF dispatch(2)] kept_ok [of s s'] grow_trans [of s0 s s'] by (simp add: compute_ok_def)
next
  case (failed s now c name m)
  let ?s = "snd (invoke_failure now c name m s)"
  have "apart s ?s" "kept s ?s" by (simp_all add: invoke_failure_def Let_def apart_def kept_same)
  then show ?case using failed apart_compute [of s ?s] grow_trans [of s0 s ?s] by simp
next
  case (finish s parse r exec late duration tries)
  obtain y t where "end_invocation parse r exec late duration tries s = (y, t)" by fastforce
  then show ?case using finish end_ok [of parse r exec late duration tries s y t] kept_ok [of s t] grow_trans [of s0 s t] by (simp add: compute_ok_def)
next
  case (reconcile s now mine took outs)
  obtain y t where "reconcile_invocations now mine took outs s = (y, t)" by fastforce
  then show ?case using reconcile fn_reconcile_ok [of now mine took outs s y t] kept_ok [of s t] grow_trans [of s0 s t] by (simp add: compute_ok_def)
next
  case (restart s)
  then show ?case using kept_ok [of s "s\<lparr>cs_cursor := None\<rparr>"] grow_trans [of s0 s "s\<lparr>cs_cursor := None\<rparr>"] by (simp add: compute_ok_def)
next
  case (elsewhere s v)
  have "apart s (s\<lparr>cs_server := v\<rparr>)" "kept s (s\<lparr>cs_server := v\<rparr>)" using elsewhere(2) by (simp_all add: apart_def kept_same)
  then show ?case using elsewhere apart_compute [of s "s\<lparr>cs_server := v\<rparr>"] grow_trans [of s0 s "s\<lparr>cs_server := v\<rparr>"] by simp
qed

lemma new_ok: "no_invocations v \<Longrightarrow> compute_ok (new_compute v)"
  by (auto simp: new_compute_def no_invocations_def compute_ok_def deployments_ok_def invocations_ok_def list_ex_iff)

text \<open>C38: whatever deploys, activations, invocations and failures come, a function has one owner and at most
  one active deployment, and a deployment never changes but for its status, which only goes from registered
  over active to retired.\<close>

theorem deployment_life:
  assumes "no_invocations v" "compute_run (new_compute v) s" "compute_run s s'"
  shows "deployments_ok s' \<and> deployments_grow s s'"
  using compute_run_ok [OF assms(3)] compute_run_ok [OF assms(2) new_ok [OF assms(1)]] by (simp add: compute_ok_def)

text \<open>C39: in every reachable state an invocation has no terminal event while it is open and exactly one, in its
  Workspace, once it is not; and a credential only resolves for the Run of an open invocation, before its
  deadline, to the owner of the deployment invoked.\<close>

theorem invocation_authority:
  assumes "no_invocations v" "compute_run (new_compute v) s"
  shows "(\<forall>i\<in>set (cs_invocations s). map ae_ws (terminal_events (cs_server s) (iv_run i)) = (if run_open s (iv_run i) then [] else [iv_ws i]))
    \<and> (invocation_credential digest now rq ws (cs_server s) = Invocation_of w p h \<longrightarrow>
        (\<exists>i d e. i \<in> set (cs_invocations s) \<and> run_open s (iv_run i) \<and> iv_ws i = w \<and> (iv_run i, e) \<in> set (cs_pending s) \<and> now < e
          \<and> d \<in> set (cs_deployments s) \<and> dp_ws d = w \<and> dp_id d = iv_deployment i \<and> dp_principal d = p
          \<and> map_option to_lower (header ''x-backplane-run'' rq) = Some (uuid_text (iv_run i))))"
proof -
  have ok: "invocations_ok s" using compute_run_ok [OF assms(2) new_ok [OF assms(1)]] by (simp add: compute_ok_def)
  have "\<exists>i d e. i \<in> set (cs_invocations s) \<and> run_open s (iv_run i) \<and> iv_ws i = w \<and> (iv_run i, e) \<in> set (cs_pending s) \<and> now < e
          \<and> d \<in> set (cs_deployments s) \<and> dp_ws d = w \<and> dp_id d = iv_deployment i \<and> dp_principal d = p
          \<and> map_option to_lower (header ''x-backplane-run'' rq) = Some (uuid_text (iv_run i))"
    if c: "invocation_credential digest now rq ws (cs_server s) = Invocation_of w p h"
  proof -
    obtain r where r: "invocation_row now h (cs_server s) = Some (w, p, r)" "map_option to_lower (header ''x-backplane-run'' rq) = Some (uuid_text r)"
      using c by (auto simp: invocation_credential_def Let_def split: if_splits option.splits)
    obtain t where t: "find (\<lambda>t. tk_hash t = h \<and> now < tk_expires t) (bp_tokens (cs_server s)) = Some t" "tk_run t = r"
      "map_of (ct_runs (bp_ctl (cs_server s))) r = Some (w, p)"
      using r(1) by (auto simp: invocation_row_def split: option.splits if_splits)
    have "t \<in> set (bp_tokens (cs_server s))" "now < tk_expires t" using find_member [OF t(1)] by auto
    then have e: "(r, tk_expires t) \<in> set (cs_pending s)" "now < tk_expires t" using ok t(2) by (auto simp: invocations_ok_def token_open_def)
    then have "r \<in> set (map fst (cs_pending s))" by force
    then obtain i where i: "i \<in> set (cs_invocations s)" "iv_run i = r" using ok by (auto simp: invocations_ok_def)
    then obtain d where "of_deployment s i d" using ok by (auto simp: invocations_ok_def)
    then show ?thesis using i e t(3) r(2) \<open>r \<in> set (map fst (cs_pending s))\<close> unfolding of_deployment_def run_open_def by auto
  qed
  then show ?thesis using ok by (auto simp: invocations_ok_def ends_once_def)
qed

section \<open>Reconciliation\<close>

text \<open>A pass in which every attempt commits.\<close>

definition clear_pass :: "time \<Rightarrow> (uuid \<Rightarrow> int) \<Rightarrow> compute \<Rightarrow> compute" where
  "clear_pass now took s = snd (reconcile_invocations now True took (replicate 16 [Attempt_committed now False]) s)"

definition due_set :: "time \<Rightarrow> compute \<Rightarrow> (time \<times> uuid) set" where
  "due_set now s = {(e, r). (r, e) \<in> set (cs_pending s) \<and> e \<le> now - seconds 10}"

definition behind_cursor :: "compute \<Rightarrow> time \<times> uuid \<Rightarrow> bool" where
  "behind_cursor s x \<longleftrightarrow> (case cs_cursor s of None \<Rightarrow> True | Some c \<Rightarrow> c < x)"

lemma finite_due: "finite (due_set now s)"
proof -
  have "due_set now s \<subseteq> (\<lambda>(r, e). (e, r)) ` set (cs_pending s)" by (auto simp: due_set_def)
  then show ?thesis using finite_surj by blast
qed

definition due_list :: "time \<Rightarrow> compute \<Rightarrow> (time \<times> uuid) list" where
  "due_list now s = sort (filter (\<lambda>(e, r). e \<le> now - seconds 10 \<and> (case cs_cursor s of None \<Rightarrow> True | Some c \<Rightarrow> c < (e, r)))
     (map (\<lambda>(r, e). (e, r)) (cs_pending s)))"

lemma due_list_set: "set (due_list now s) = {x \<in> due_set now s. behind_cursor s x}"
  by (auto simp: due_list_def due_set_def behind_cursor_def image_iff split: prod.splits)

lemma due_list_runs: "invocations_ok s \<Longrightarrow> distinct (map snd (due_list now s))"
proof -
  assume "invocations_ok s"
  then have "distinct (map snd (map (\<lambda>(r, e). (e, r)) (cs_pending s)))"
    by (simp add: invocations_ok_def o_def case_prod_beta)
  then have "distinct (map snd (filter P (map (\<lambda>(r, e). (e, r)) (cs_pending s))))" for P by (rule distinct_map_filter)
  then show ?thesis unfolding due_list_def distinct_map set_sort distinct_sort by blast
qed

lemma due_list_sorted: "invocations_ok s \<Longrightarrow> sorted_wrt (<) (due_list now s)"
  using due_list_runs [of s now] by (simp add: strict_sorted_iff distinct_map) (simp add: due_list_def)

lemma clear_finish:
  assumes "invocations_ok s" "run_open s r" "0 \<le> took r"
  obtains s' where "finish_on_connection r ''function.fail'' (took r) None [Attempt_committed now False] s = (True, s')"
    "invocations_ok s'" "cs_pending s' = filter (\<lambda>x. fst x \<noteq> r) (cs_pending s)" "cs_cursor s' = cs_cursor s"
proof -
  obtain i where i: "i \<in> set (cs_invocations s)" "iv_run i = r" using assms(1,2) by (auto simp: invocations_ok_def run_open_def)
  then obtain d where d: "of_deployment s i d" using assms(1) by (auto simp: invocations_ok_def)
  have "find_invocation s r \<noteq> None" using i by (auto simp: find_invocation_def find_None_iff)
  then obtain j where j: "find_invocation s r = Some j" by blast
  then have "j \<in> set (cs_invocations s)" "iv_run j = r" unfolding find_invocation_def by (auto dest: find_member)
  then have "j = i" using i assms(1) by (auto simp: invocations_ok_def distinct_map inj_on_def)
  then have f: "finish_invocation now False r ''function.fail'' (took r) None s = Inr (finished now i (dp_principal d) ''function.fail'' (took r) None s)"
    using j i d assms(3) by (simp add: finish_invocation_def finished_def of_deployment_def terminal_kinds_def)
  let ?s = "finished now i (dp_principal d) ''function.fail'' (took r) None s"
  note ok = fn_finish_ok [OF f assms(1)]
  have "cs_invocations ?s = cs_invocations s" "map_of (ct_runs (bp_ctl (cs_server ?s))) r = Some (iv_ws i, dp_principal d)"
    using d i(2) by (simp_all add: finished_def of_deployment_def)
  moreover have "ends_once ?s i" using ok(1) i(1) calculation(1) by (simp add: invocations_ok_def)
  then have "map ae_ws (terminal_events (cs_server ?s) r) = [iv_ws i]" using ok(4) i(2) by (simp add: ends_once_def)
  then have "has_terminal (cs_server ?s) (iv_ws i) r" unfolding has_terminal_map by simp
  ultimately have "finish_complete r ?s" using ok(3) by (simp add: finish_complete_def list_ex_iff)
  then show ?thesis
    using that [of ?s] f ok(1) i(2) by (simp add: finish_on_connection_def numeral_3_eq_3) (simp add: finished_def)
qed

lemma clear_page:
  assumes "invocations_ok s" "distinct (map snd due)" "\<forall>(e, r)\<in>set due. run_open s r" "\<forall>r. 0 \<le> took r" "length due \<le> n"
  shows "\<exists>m s'. reconcile_page took due (replicate n [Attempt_committed now False]) s = (m, length due, s') \<and> invocations_ok s'
     \<and> cs_pending s' = filter (\<lambda>x. fst x \<notin> set (map snd due)) (cs_pending s) \<and> cs_cursor s' = (if due = [] then cs_cursor s else Some (last due))"
  using assms
proof (induction due arbitrary: s n)
  case Nil
  then show ?case by simp
next
  case (Cons x due)
  obtain e r where x: "x = (e, r)" by fastforce
  obtain k where k: "n = Suc k" using Cons.prems(5) by (cases n) auto
  let ?s0 = "s\<lparr>cs_cursor := Some (e, r)\<rparr>"
  have "invocations_ok ?s0" "run_open ?s0 r" using Cons.prems x by (simp_all add: run_open_def)
  then obtain s1 where s1: "finish_on_connection r ''function.fail'' (took r) None [Attempt_committed now False] ?s0 = (True, s1)"
    "invocations_ok s1" "cs_pending s1 = filter (\<lambda>x. fst x \<noteq> r) (cs_pending s)" "cs_cursor s1 = Some (e, r)"
    using clear_finish [of ?s0 r took now] Cons.prems(4) by auto
  have "run_open s1 (snd y)" if "y \<in> set due" for y
  proof -
    have "run_open s (snd y)" using Cons.prems(3) that by (cases y) auto
    moreover have "snd y \<noteq> r" using Cons.prems(2) that x by (metis distinct.simps(2) image_eqI list.simps(9) list.set_map snd_conv)
    ultimately show ?thesis by (auto simp: run_open_def s1(3) intro: rev_image_eqI)
  qed
  then have "\<forall>(e', r')\<in>set due. run_open s1 r'" by auto
  then obtain m s' where s': "reconcile_page took due (replicate k [Attempt_committed now False]) s1 = (m, length due, s')" "invocations_ok s'"
    "cs_pending s' = filter (\<lambda>x. fst x \<notin> set (map snd due)) (cs_pending s1)" "cs_cursor s' = (if due = [] then cs_cursor s1 else Some (last due))"
    using Cons.IH [of s1 k] s1(2) Cons.prems k by auto
  have "cs_pending s' = filter (\<lambda>y. fst y \<notin> set (map snd (x # due))) (cs_pending s)"
    unfolding s'(3) s1(3) by (simp add: filter_filter x conj_commute)
  then show ?case using s1 s' by (simp add: x k)
qed

lemma clear_pass_step:
  fixes now :: time
  assumes "invocations_ok s" "\<forall>r. 0 \<le> took r"
  defines "page \<equiv> take 16 (due_list now s)"
  shows "invocations_ok (clear_pass now took s)"
    "due_set now (clear_pass now took s) = due_set now s - set page"
    "cs_cursor (clear_pass now took s) = (if length page < 16 then None else Some (last page))"
proof -
  have page: "due_page now s = page" by (simp add: due_page_def page_def due_list_def)
  have d: "distinct (map snd page)" using due_list_runs [OF assms(1)] by (simp add: page_def take_map [symmetric])
  have sub: "set page \<subseteq> due_set now s" using due_list_set set_take_subset unfolding page_def by fastforce
  then have op: "\<forall>(e, r)\<in>set page. run_open s r" by (force simp: due_set_def run_open_def)
  have "length page \<le> 16" by (simp add: page_def)
  then obtain m s' where s': "reconcile_page took page (replicate 16 [Attempt_committed now False]) s = (m, length page, s')" "invocations_ok s'"
    "cs_pending s' = filter (\<lambda>x. fst x \<notin> set (map snd page)) (cs_pending s)" "cs_cursor s' = (if page = [] then cs_cursor s else Some (last page))"
    using clear_page [OF assms(1) d op assms(2)] by blast
  have c: "clear_pass now took s = (if length page < 16 then s'\<lparr>cs_cursor := None\<rparr> else s')"
    using s'(1) by (simp add: clear_pass_def reconcile_invocations_def page Let_def)
  show "invocations_ok (clear_pass now took s)" using s'(2) by (simp add: c)
  show "cs_cursor (clear_pass now took s) = (if length page < 16 then None else Some (last page))"
    using s'(4) by (auto simp: c)
  have one: "e' = e" if "(r, e) \<in> set (cs_pending s)" "(r, e') \<in> set (cs_pending s)" for r e e'
    using that assms(1) eq_key_imp_eq_value [of "cs_pending s" r] by (simp add: invocations_ok_def)
  have "(e, r) \<in> set page \<longleftrightarrow> r \<in> set (map snd page)" if "(e, r) \<in> due_set now s" for e r
  proof
    assume "r \<in> set (map snd page)"
    then obtain e' where e': "(e', r) \<in> set page" by auto
    then have "(r, e') \<in> set (cs_pending s)" using sub by (auto simp: due_set_def)
    then show "(e, r) \<in> set page" using e' one [of r e e'] that by (simp add: due_set_def)
  qed (force)
  then show "due_set now (clear_pass now took s) = due_set now s - set page"
    by (auto simp: c due_set_def s'(3))
qed

lemma behind_size: "invocations_ok s \<Longrightarrow> card {x \<in> due_set now s. behind_cursor s x} = length (due_list now s)"
  using distinct_card [of "due_list now s"] due_list_runs [of s now] by (simp add: due_list_set distinct_map)

text \<open>A pass that fills its page goes on behind it; one that does not starts over with nothing left behind.\<close>

lemma clear_pass_counts:
  fixes now :: time
  assumes "invocations_ok s" "\<forall>r. 0 \<le> took r"
  defines "t \<equiv> clear_pass now took s" and "n \<equiv> length (due_list now s)"
  shows "card (due_set now t) = card (due_set now s) - min 16 n"
    "16 \<le> n \<Longrightarrow> length (due_list now t) = n - 16" "n < 16 \<Longrightarrow> length (due_list now t) = card (due_set now t)"
proof -
  let ?page = "take 16 (due_list now s)"
  note step = clear_pass_step [OF assms(1,2), of now, folded t_def]
  have sub: "set ?page \<subseteq> due_set now s" using due_list_set set_take_subset by fastforce
  have dist: "distinct (due_list now s)" using due_list_runs [OF assms(1)] by (simp add: distinct_map)
  have "card (set ?page) = min 16 n" using distinct_card [OF distinct_take [OF dist]] by (simp add: n_def)
  then show "card (due_set now t) = card (due_set now s) - min 16 n"
    using card_Diff_subset [OF _ sub] by (simp add: step(2))
  show "length (due_list now t) = card (due_set now t)" if "n < 16"
    using behind_size [OF step(1)] step(3) that by (simp add: behind_cursor_def n_def)
  show "length (due_list now t) = n - 16" if n: "16 \<le> n"
  proof -
    have cur: "cs_cursor t = Some (last ?page)" using step(3) n by (simp add: n_def)
    have split: "due_list now s = ?page @ drop 16 (due_list now s)" by simp
    have sw: "sorted_wrt (<) (?page @ drop 16 (due_list now s))" using due_list_sorted [OF assms(1)] by simp
    have ne: "?page \<noteq> []" using n by (auto simp: n_def)
    have "x \<le> last ?page" if "x \<in> set ?page" for x
    proof -
      have "sorted ?page" using sw by (simp add: sorted_wrt_append strict_sorted_imp_sorted)
      then show ?thesis using that ne by (metis append_butlast_last_id in_set_conv_nth last_conv_nth length_pos_if_in_set less_Suc_eq_le Suc_pred' diff_less length_greater_0_conv less_numeral_extra(1) sorted_nth_mono)
    qed
    then have before: "x \<in> set ?page \<Longrightarrow> x \<le> last ?page" for x by blast
    have after: "last ?page < x" if "x \<in> set (drop 16 (due_list now s))" for x
      using sw that last_in_set [OF ne] unfolding sorted_wrt_append by blast
    have behind: "behind_cursor s x" if "last ?page < x" for x
    proof -
      have "last ?page \<in> {x \<in> due_set now s. behind_cursor s x}" using last_in_set [OF ne] set_take_subset due_list_set by fastforce
      then show ?thesis using that by (auto simp: behind_cursor_def split: option.splits)
    qed
    have both: "x \<in> set (due_list now s) \<longleftrightarrow> x \<in> set ?page \<or> x \<in> set (drop 16 (due_list now s))" for x
      by (metis Un_iff split set_append)
    have "{x \<in> due_set now t. behind_cursor t x} = set (drop 16 (due_list now s))"
    proof (intro set_eqI iffI)
      fix x assume "x \<in> {x \<in> due_set now t. behind_cursor t x}"
      then have "x \<in> due_set now s" "x \<notin> set ?page" "last ?page < x" by (simp_all add: step(2) cur behind_cursor_def [of t])
      then show "x \<in> set (drop 16 (due_list now s))" using behind both due_list_set [of now s] by blast
    next
      fix x assume x: "x \<in> set (drop 16 (due_list now s))"
      then have "x \<in> due_set now s" using both due_list_set [of now s] by blast
      moreover have "x \<notin> set ?page" using before [of x] after [OF x] by (meson leD)
      ultimately show "x \<in> {x \<in> due_set now t. behind_cursor t x}" using after [OF x] by (simp add: step(2) cur behind_cursor_def [of t])
    qed
    then show ?thesis using behind_size [OF step(1), of now] distinct_card [OF distinct_drop [OF dist]] by (simp add: n_def)
  qed
qed

lemma clear_passes_ok: "invocations_ok s \<Longrightarrow> \<forall>r. 0 \<le> took r \<Longrightarrow> invocations_ok ((clear_pass now took ^^ n) s)"
  by (induction n arbitrary: s) (simp_all add: clear_pass_step(1))

lemma clear_from_start:
  "invocations_ok s \<Longrightarrow> \<forall>r. 0 \<le> took r \<Longrightarrow> length (due_list now s) = card (due_set now s) \<Longrightarrow> card (due_set now s) < 16 * n
   \<Longrightarrow> due_set now ((clear_pass now took ^^ n) s) = {}"
proof (induction n arbitrary: s)
  case (Suc n)
  let ?t = "clear_pass now took s"
  note c = clear_pass_counts [OF Suc.prems(1,2), of now]
  note ok = clear_pass_step(1) [OF Suc.prems(1,2), of now]
  show ?case
  proof (cases "n = 0")
    case True
    then have "card (due_set now ?t) = 0" using c(1) Suc.prems(3,4) by simp
    then show ?thesis using True finite_due card_0_eq by simp
  next
    case False
    have "length (due_list now ?t) = card (due_set now ?t)"
      using c Suc.prems(3) by (cases "length (due_list now s) < 16") simp_all
    moreover have "card (due_set now ?t) < 16 * n" using c(1) Suc.prems(3,4) False by simp
    ultimately show ?thesis using Suc.IH [OF ok Suc.prems(2)] by (simp add: funpow_swap1)
  qed
qed simp

lemma clear_from_cursor:
  "invocations_ok s \<Longrightarrow> \<forall>r. 0 \<le> took r \<Longrightarrow> length (due_list now s) < 16 * k \<Longrightarrow> card (due_set now s) < 16 * n
   \<Longrightarrow> due_set now ((clear_pass now took ^^ (k + n)) s) = {}"
proof (induction k arbitrary: s)
  case (Suc k)
  let ?t = "clear_pass now took s"
  note c = clear_pass_counts [OF Suc.prems(1,2), of now]
  note ok = clear_pass_step(1) [OF Suc.prems(1,2), of now]
  have d: "card (due_set now ?t) < 16 * n" using c(1) Suc.prems(4) by simp
  have "due_set now ((clear_pass now took ^^ (k + n)) ?t) = {}"
  proof (cases "length (due_list now s) < 16")
    case True
    then show ?thesis using clear_from_start [OF ok Suc.prems(2) c(3) [OF True], of "k + n"] d by simp
  next
    case False
    then show ?thesis using Suc.IH [OF ok Suc.prems(2) _ d] c(2) Suc.prems(3) by simp
  qed
  then show ?case by (simp add: funpow_swap1)
qed simp

text \<open>C40: wherever the cursor of the reconciliation stands and however many invocations were left behind, passes
  whose attempts commit close every invocation that is ten seconds past its deadline, after at most twice as
  many passes as full pages of them, and two.\<close>

theorem reconcile_closes:
  assumes "no_invocations v" "compute_run (new_compute v) s" "\<forall>r. 0 \<le> took r"
  shows "\<forall>(r, e)\<in>set (cs_pending ((clear_pass now took ^^ (2 * (card (due_set now s) div 16 + 1))) s)). now - seconds 10 < e"
proof -
  have ok: "invocations_ok s" using compute_run_ok [OF assms(2) new_ok [OF assms(1)]] by (simp add: compute_ok_def)
  define m where "m = card (due_set now s) div 16 + 1"
  have n: "card (due_set now s) < 16 * m" by (simp add: m_def)
  have "length (due_list now s) \<le> card (due_set now s)"
    using behind_size [OF ok, of now] card_mono [OF finite_due, of "{x \<in> due_set now s. behind_cursor s x}" now s] by auto
  then have l: "length (due_list now s) < 16 * m" using n by linarith
  let ?t = "(clear_pass now took ^^ (2 * m)) s"
  have "due_set now ?t = {}" using clear_from_cursor [OF ok assms(3) l n] by (simp only: mult_2)
  then have "\<forall>(r, e)\<in>set (cs_pending ?t). now - seconds 10 < e" unfolding due_set_def by auto
  then show ?thesis unfolding m_def .
qed

section \<open>Worked examples\<close>

definition demo_fn_env :: fn_env where
  "demo_fn_env = \<lparr>fe_now = 7, fe_sha = (\<lambda>t. replicate 64 (CHR ''0'')), fe_url = (\<lambda>t. None)\<rparr>"

definition demo_launcher :: launcher where
  "demo_launcher = \<lparr>lc_digest = replicate 64 (CHR ''0''), lc_verify = Some JNull, lc_prepare = (\<lambda>d. Inr JNull), lc_timeout = None, lc_invokes = True\<rparr>"

definition demo_owner :: run_context where
  "demo_owner = Principal_context 1 10 20 None"

definition demo_deployed :: compute where
  "demo_deployed = snd (deploy_handler demo_fn_env demo_owner ''fn'' 5 ''code'' [] (Some demo_launcher) (new_compute demo_keyed))"

definition demo_active :: compute where
  "demo_active = snd (activate_handler demo_fn_env demo_owner ''fn'' 5 None (Some demo_launcher) demo_deployed)"

definition demo_token :: string where
  "demo_token = ''bp_i_'' @ replicate 64 (CHR ''a'')"

definition demo_digest :: "string \<Rightarrow> string" where
  "demo_digest t = replicate 32 (CHR ''d'')"

definition demo_fn_begun :: "fn_failure + ((deployment \<times> uuid \<times> time) \<times> compute)" where
  "demo_fn_begun = begin_invocation demo_digest 8 demo_owner ''fn'' None demo_token 21 demo_launcher demo_active"

definition demo_called :: compute where
  "demo_called = snd (projr demo_fn_begun)"

lemma demo_quiet: "no_invocations demo_keyed"
  by code_simp

lemma demo_life: "map dp_status (cs_deployments demo_deployed) = [Registered]" "map dp_status (cs_deployments demo_active) = [Active]"
  by code_simp+

lemma demo_began: "\<not> isl demo_fn_begun"
  by code_simp

lemma demo_runs: "compute_run (new_compute demo_keyed) demo_deployed" "compute_run demo_deployed demo_active"
  "compute_run (new_compute demo_keyed) demo_active" "compute_run (new_compute demo_keyed) demo_called"
proof -
  show d: "compute_run (new_compute demo_keyed) demo_deployed" unfolding demo_deployed_def by (intro compute_run.intros)
  show "compute_run demo_deployed demo_active" unfolding demo_active_def by (intro compute_run.intros)
  show a: "compute_run (new_compute demo_keyed) demo_active"
    unfolding demo_active_def by (rule compute_run.activate [OF d])
  obtain y where y: "demo_fn_begun = Inr y" using sum.collapse(2) [OF demo_began] by metis
  have "begin_invocation demo_digest 8 demo_owner ''fn'' None demo_token 21 demo_launcher demo_active = Inr (fst y, demo_called)"
    using y by (simp add: demo_fn_begun_def demo_called_def)
  then show "compute_run (new_compute demo_keyed) demo_called" by (rule compute_run.dispatch [OF a])
qed

theorem deployment_life_witness:
  "deployments_grow demo_deployed demo_active \<and> map dp_status (cs_deployments demo_deployed) = [Registered] \<and> map dp_status (cs_deployments demo_active) = [Active]"
  using deployment_life [OF demo_quiet demo_runs(1,2)] demo_life by blast

definition demo_callback :: request where
  "demo_callback = \<lparr>rq_method = ''POST'', rq_path = [''api'', ''v1'', ''workspaces'', uuid_text 1, ''queues''], rq_headers =
       [(''authorization'', ''Bearer '' @ demo_token), (''x-backplane-run'', uuid_text 21)],
     rq_params = JObj [(''workspaceId'', JStr (uuid_text 1))], rq_query = JNull, rq_body = JNull, rq_chunks = None, rq_admitted = True\<rparr>"

lemma demo_callback_resolves: "invocation_credential demo_digest 9 demo_callback (uuid_text 1) (cs_server demo_called) = Invocation_of 1 10 (demo_digest [])"
  by code_simp

theorem invocation_authority_witness:
  "\<exists>i d e. i \<in> set (cs_invocations demo_called) \<and> run_open demo_called (iv_run i) \<and> iv_ws i = 1 \<and> (iv_run i, e) \<in> set (cs_pending demo_called) \<and> 9 < e
     \<and> d \<in> set (cs_deployments demo_called) \<and> dp_ws d = 1 \<and> dp_id d = iv_deployment i \<and> dp_principal d = 10
     \<and> map_option to_lower (header ''x-backplane-run'' demo_callback) = Some (uuid_text (iv_run i))"
  using invocation_authority [OF demo_quiet demo_runs(4), of demo_digest 9 demo_callback "uuid_text 1" 1 10 "demo_digest []"] demo_callback_resolves by blast

lemma demo_pending: "cs_pending demo_called = [(21, 10000008)]"
  by code_simp

theorem reconcile_closes_witness:
  "due_set 20000008 demo_called = {(10000008, 21)}
   \<and> list_all (\<lambda>(r, e). 20000008 - seconds 10 < e) (cs_pending ((clear_pass 20000008 (\<lambda>_. 0) ^^ 2) demo_called))"
proof -
  have d: "due_set 20000008 demo_called = {(10000008, 21)}" by (auto simp: due_set_def demo_pending seconds_def)
  moreover have "2 * (card (due_set 20000008 demo_called) div 16 + 1) = (2::nat)" by (simp add: d)
  ultimately show ?thesis
    using reconcile_closes [OF demo_quiet demo_runs(4), of "\<lambda>_. 0" 20000008] by (simp add: list_all_iff)
qed

end
