(* ===== verification/Spec2Isabelle.thy ===== *)
theory Spec2Isabelle
  imports RouteProps ListingProps MigrationLedger AuditStreamProps Timeline BlobProps PrincipalGate Tenancy FunctionProps
begin

text \<open>
  A verification library for Agent Backplane: the multi-tenant server (apps/server, db/migrations) that
  gives agents a SQL workspace, queues with at-least-once delivery and fenced effects, atomic handoffs,
  approvals, migrations, blobs and an audit ledger, and the part of the console (apps/web/client) that
  follows that ledger.

  \<^bold>\<open>How the program is put together.\<close>  A request passes a route (\<open>*-route.ts\<close>): its schema, its session
  macro, its handler.  The handler calls a service, which runs one PostgreSQL transaction through
  \<open>withRunContext\<close>: the transaction takes the cursor lock of its Workspace, binds the actor, does its
  work and emits audit events; an error rolls back and is recorded as a rejection.  The queue keeps its
  rules in PL/pgSQL functions of schema \<open>queue\<close> over the vendored pgmq; SQL statements, migrations and
  approvals keep theirs in pure policies over the syntax tree libpg-query returns.  Because the cursor
  lock serialises the writing transactions of a Workspace, a service is a function from state to result
  and state, and an interleaving is a sequence of services; where work happens outside that lock (blob
  bytes, audit streams) the model interleaves the pieces.

  \<^bold>\<open>State.\<close>  \<open>ledger\<close> (Tables) holds the rows of schema \<open>queue\<close> with the pgmq tables below;
  \<open>control\<close> the rows of schema \<open>control\<close> the queue reads; \<open>backplane\<close> (Backplane) adds the audit
  events, cursors, rejections, credentials and usage; \<open>platform\<close> (Platform) adds approvals, gates,
  delegations, receipts, migrations and the tables of the Workspaces; \<open>blob_db\<close> (Blobs) adds the blob
  table beside a byte store; \<open>compute\<close> (Functions) adds functions, deployments and invocations;
  \<open>audit_stream\<close> (AuditStream) is one open stream, \<open>timeline\<close> (Timeline) one console timeline and
  \<open>principal_gate\<close> (PrincipalGate) the admission of requests.

  \<^bold>\<open>Theories and code.\<close>
  \<^item> Prelude, JsonText: JSON values and their text, errors, character classes, tables of rows.
  \<^item> Pgmq: infra/init/core/001-pgmq.sql as the server uses it, with the contract \<open>visibility_queue\<close>.
  \<^item> Tables, Ledger, Recovery: the queue functions of db/migrations/000007 to 000029 (create, send, claim,
    ack, nack, renew, hold; begin_effect, pause, replay, release, cancel, recover, reconcile, restore).
  \<^item> LedgerInv, LedgerSteps, ClaimSteps, LedgerReach, LedgerFrames: the invariant \<open>ledger_ok\<close>, its
    preservation by every operation, the claim round by round, reachability, and frames.
    LedgerProps and OperationProps state the properties.
  \<^item> Backplane, Quotas, QueueServices, ServiceProps: runs/*.ts, platform/quotas.ts, queue/*.ts: the bound
    transaction, the adapters, and \<open>serving\<close>, the states the queue API reaches.
  \<^item> Sessions, Http, QueueRoutes, QueueReplies, RouteProps: auth/*.ts, runs/run-session.ts and the queue
    routes: credentials, admission, schemas, statuses; a route meets \<open>route_contract\<close> on a \<open>lawful_server\<close>.
  \<^item> Tenancy: the services of auth/*.ts and runs/create-run.ts that write Workspaces, Principals, keys and
    Runs.  PrincipalGate: platform/principal-admission.ts.
  \<^item> Functions, Invocations, FunctionProps: compute/*.ts with db/migrations/000023, 26, 29 and 34.
  \<^item> Listing, ListingProps: the keyset listings and audit/read; the contract \<open>listing\<close>,
    which \<open>delivery_listing\<close>, \<open>workspace_listing\<close>, \<open>principal_listing\<close> and \<open>migration_listing\<close> give.
  \<^item> StatementPolicy, StatementProps: sql/statement-policy.ts.
  \<^item> TransactionPolicy, Platform, ProposalPolicy, RowGates, SqlExecution, Handoff, Approvals, with
    PlatformFrames, TransactionProps, ApprovalProps: sql/*.ts, tx/*.ts, approvals/*.ts.
  \<^item> MigrationPolicy, MigrationProps, Migrations, MigrationLedger: schema/*.ts.
  \<^item> StreamInput, AuditStream, AuditStreamProps: events/stream-*.ts.  Timeline:
    apps/web/client/audit-state.ts.
  \<^item> BlobStores, Blobs, BlobProps: blobs/*.ts and retention/purge-payloads.ts; the contract
    \<open>lawful_store\<close>, interpreted on the filesystem and on the S3 store.

  \<^bold>\<open>What is shown.\<close>  The ledger: every reachable ledger meets the constraints of its tables and agrees with
  what pgmq will dispatch; an effect once begun is never handed out again without a reconciliation; leases
  exclude each other; a claim returns; a receipt is spent by its use; attempts are bounded; sending and
  reconciling are idempotent; a restore makes progress.  The service boundary: events are numbered without
  gap, a request is all or nothing, replies meet their declared schemas, sessions are authentic, quotas
  hold.  Policies: an accepted statement or migration names only what it may; a gated write names one row
  and consumes one approval; an approval is decided and consumed at most once; a handoff commits once under
  its key.  Migrations: the revisions of a Workspace are gapless and each was previewed, and approved when
  gated.  Streams: whatever the interleaving, a stream sends exactly the log behind its cursor in bounded
  memory, makes progress, and a console that follows it shows exactly its Run.  Blobs: whatever fails, a
  committed blob keeps its bytes and reads as what was uploaded.  Credentials: a revoked Principal stays out,
  an issued key and no other authenticates, the admission gate keeps a place for callbacks.  Functions: a
  deployment only moves forward, an invocation ends once and its credential dies with it, and reconciliation
  gets to every invocation left behind.

  \<^bold>\<open>Bounds and fuel.\<close>  Recursion is structural or has a measure; the claim loop has the 32 rounds of the
  source's own loop as its fuel, and a claim that uses them up answers as the source does; a
  listing is walked with one page more than it has rows, and \<open>deliveries_listed_once\<close> proves that
  enough.  The number of references a sweep examines before its ten seconds are over is an argument.
  Integers of PostgreSQL and JavaScript are \<open>int\<close> or \<open>nat\<close> with their range checks written out where the
  code makes them; texts are their UTF-8 bytes.

  \<^bold>\<open>Parameters.\<close>  libpg-query (the parser), sha256 and the node digests (\<open>crypto\<close>), base64url and the
  texts of timestamps, better-auth (the session a cookie carries), PostgreSQL's catalog and its execution of
  the statements of a Workspace (\<open>workspace_db\<close>, \<open>migration_db\<close>), and the clock.  What the proofs use of
  them is a named hypothesis of the lemma that uses it.

  \<^bold>\<open>Not modelled.\<close>  Lock waits, statement timeouts and deadlocks, which the code maps to a retryable error;
  the permissions PostgreSQL enforces by role; telemetry, health and metrics (platform/operations*.ts,
  readiness, disk sampler), which only report; the bundle runtime (compute/workerd) and its launcher, an
  external process; backup and restore tooling, bootstrap and enrollment
  scripts, which move files and processes; the storage identity and migration of blobs (blobs/storage-*.ts);
  better-auth's own tables (db/internal); the CLI and MCP clients, generated from the OpenAPI contract; the
  rendering of the console; the examples.
\<close>

end
